(* ===== verification/Prelude.thy ===== *)
theory Prelude
  imports Main "HOL-Library.Word" "HOL-Library.Monad_Syntax"
begin

text \<open>
  Shared vocabulary of the development: the machine integers of the C sources, checked
  access to C arrays, and the generic list, option and word lemmas the component theories
  use. A C access outside the bounds of its object is undefined behaviour; every access
  whose index depends on data is written with the checked operations below, and the
  result \<open>None\<close> stands for "the C program has undefined behaviour here".
\<close>

unbundle bit_operations_syntax

section \<open>Machine integers\<close>

type_synonym u8 = "8 word"
type_synonym u16 = "16 word"
type_synonym u32 = "32 word"

text \<open>Theorem collections: lengths kept by an operation, fields an operation leaves alone,
  and well-formedness rules.\<close>

named_theorems len_simps "operations that keep the length of an array"
named_theorems frame_simps "fields that an operation does not write"
named_theorems wf_intros "operations that keep a structure well formed"

section \<open>Checked array access\<close>

text \<open>\<open>load xs i\<close> is the C read \<open>xs[i]\<close>, \<open>store xs i v\<close> the write \<open>xs[i] = v\<close>.\<close>

definition load :: "'a list \<Rightarrow> nat \<Rightarrow> 'a option" where
  "load xs i = (if i < length xs then Some (xs ! i) else None)"

definition store :: "'a list \<Rightarrow> nat \<Rightarrow> 'a \<Rightarrow> 'a list option" where
  "store xs i v = (if i < length xs then Some (xs[i := v]) else None)"

text \<open>\<open>blit dst off src\<close> overwrites \<open>dst\<close> from \<open>off\<close> on with \<open>src\<close>.\<close>

definition blit :: "'a list \<Rightarrow> nat \<Rightarrow> 'a list \<Rightarrow> 'a list" where
  "blit dst off src = take off dst @ src @ drop (off + length src) dst"

text \<open>\<open>memcpy(&dst[doff], &src[soff], n)\<close>: both ranges lie inside their arrays.\<close>

definition memcpy :: "'a list \<Rightarrow> nat \<Rightarrow> 'a list \<Rightarrow> nat \<Rightarrow> nat \<Rightarrow> 'a list option" where
  "memcpy dst doff src soff n =
     (if doff + n \<le> length dst \<and> soff + n \<le> length src
      then Some (blit dst doff (take n (drop soff src))) else None)"

section \<open>Lemmas on checked access\<close>

lemma load_Some [simp]: "i < length xs \<Longrightarrow> load xs i = Some (xs ! i)"
  by (simp add: load_def)

lemma load_None [simp]: "length xs \<le> i \<Longrightarrow> load xs i = None"
  by (simp add: load_def)

lemma load_eq_Some: "load xs i = Some v \<longleftrightarrow> i < length xs \<and> xs ! i = v"
  by (auto simp: load_def)

lemma store_Some [simp]: "i < length xs \<Longrightarrow> store xs i v = Some (xs[i := v])"
  by (simp add: store_def)

lemma store_None [simp]: "length xs \<le> i \<Longrightarrow> store xs i v = None"
  by (simp add: store_def)

lemma length_blit [len_simps, simp]:
  "off + length src \<le> length dst \<Longrightarrow> length (blit dst off src) = length dst"
  by (simp add: blit_def)

lemma nth_blit:
  assumes "off + length src \<le> length dst" and "i < length dst"
  shows "blit dst off src ! i =
    (if off \<le> i \<and> i < off + length src then src ! (i - off) else dst ! i)"
proof -
  consider "i < off" | "off \<le> i" "i < off + length src" | "off + length src \<le> i"
    by linarith
  then show ?thesis
    using assms by cases (auto simp: blit_def nth_append)
qed

lemma take_blit_before:
  "n \<le> off \<Longrightarrow> off \<le> length dst \<Longrightarrow> take n (blit dst off src) = take n dst"
  by (simp add: blit_def)

lemma take_drop_blit:
  "off \<le> length dst \<Longrightarrow> take (length src) (drop off (blit dst off src)) = src"
  by (simp add: blit_def)

lemma memcpy_Some [simp]:
  "doff + n \<le> length dst \<Longrightarrow> soff + n \<le> length src \<Longrightarrow>
   memcpy dst doff src soff n = Some (blit dst doff (take n (drop soff src)))"
  by (simp add: memcpy_def)

lemma memcpy_None: "memcpy dst doff src soff n = None \<longleftrightarrow>
   length dst < doff + n \<or> length src < soff + n"
  by (auto simp: memcpy_def)

lemma memcpy_length: "memcpy dst doff src soff n = Some r \<Longrightarrow> length r = length dst"
  by (auto simp: memcpy_def split: if_splits)

lemma ex_first_three: "3 \<le> length b \<Longrightarrow> \<exists>x y z r. b = x # y # z # r"
  by (auto simp: Suc_le_length_iff numeral_3_eq_3)

section \<open>Word lemmas\<close>

lemma unat_u8_less [simp]: "unat (x :: u8) < 256"
proof -
  have "unat x < 2 ^ LENGTH(8)" by (rule unsigned_less)
  then show ?thesis by simp
qed

lemma unat_u8_le [simp]: "unat (x :: u8) \<le> 255"
  using unat_u8_less [of x] by linarith

lemma unat_u16_less [simp]: "unat (x :: u16) < 65536"
proof -
  have "unat x < 2 ^ LENGTH(16)" by (rule unsigned_less)
  then show ?thesis by simp
qed

lemma unat_ucast_u8_u16 [simp]: "unat (ucast (x :: u8) :: u16) = unat x"
  by (simp add: unsigned_ucast_eq take_bit_nat_eq_self less_le_trans [OF unat_u8_less])

lemma unat_ucast_u8_u32 [simp]: "unat (ucast (x :: u8) :: u32) = unat x"
  by (simp add: unsigned_ucast_eq take_bit_nat_eq_self less_le_trans [OF unat_u8_less])

lemma unat_ucast_plus:
  assumes "unat (k :: u16) \<le> 65280"
  shows "unat (ucast (x :: u8) + k) = unat x + unat k"
proof -
  have "unat x + unat k < 65536" using assms unat_u8_less [of x] by linarith
  then show ?thesis by (simp add: unat_word_ariths)
qed

lemma unat_of_nat_u8 [simp]: "n < 256 \<Longrightarrow> unat (of_nat n :: u8) = n"
  by (simp add: unat_of_nat)

lemma unat_of_nat_u16 [simp]: "n < 65536 \<Longrightarrow> unat (of_nat n :: u16) = n"
  by (simp add: unat_of_nat)

lemma u8_and_mask_less: "unat ((x :: u8) AND 3) < 4"
proof -
  have "unat (x AND 3) \<le> unat (3 :: u8)"
    by (rule word_and_le1 [THEN word_le_nat_alt [THEN iffD1]])
  then show ?thesis by simp
qed

section \<open>Sums of bytes\<close>

lemma foldl_minus_sum_list:
  "foldl (-) (a :: 'a :: ab_group_add) xs = a - sum_list xs"
  by (induction xs arbitrary: a) (simp_all add: algebra_simps)

end
