(* ===== verification/Libutil.thy ===== *)
theory Libutil
  imports Prelude
begin

text \<open>
  \<open>samples/ipmi_openbic/src/lib/libutil.c\<close> and the bit macros of \<open>libutil.h\<close>: array
  reversal, ASCII conversion, 32-bit byte (in fact bit) reversal, endian conversion and
  searching. A pointer argument that the code tests against \<open>NULL\<close> is an \<open>option\<close>.
\<close>

section \<open>Definitions\<close>

definition SETBIT :: "64 word \<Rightarrow> nat \<Rightarrow> 64 word" where
  "SETBIT x y = x OR push_bit y 1"

definition GETBIT :: "64 word \<Rightarrow> nat \<Rightarrow> bool" where
  "GETBIT x y \<longleftrightarrow> x AND push_bit y 1 > of_nat y"

definition CLEARBIT :: "64 word \<Rightarrow> nat \<Rightarrow> 64 word" where
  "CLEARBIT x y = x AND NOT (push_bit y 1)"

text \<open>\<open>BYTE_ENDIAN\<close>: any value other than \<open>SMALL_ENDIAN\<close> takes the big-endian branch.\<close>

abbreviation (input) SMALL_ENDIAN :: u8 where "SMALL_ENDIAN \<equiv> 0"
abbreviation (input) BIG_ENDIAN :: u8 where "BIG_ENDIAN \<equiv> 1"

text \<open>The loop of \<open>reverse_array\<close>: iteration \<open>i\<close> exchanges \<open>arr[i]\<close> and
  \<open>arr[size - 1 - i]\<close>. The \<open>int\<close> arithmetic on \<open>uint8_t\<close> operands cannot go negative
  while \<open>i < size / 2\<close>.\<close>

function reverse_array_loop :: "'a list \<Rightarrow> nat \<Rightarrow> nat \<Rightarrow> 'a list option" where
  "reverse_array_loop arr sz i =
     (if i < sz div 2 then do {
        temp \<leftarrow> load arr i;
        v \<leftarrow> load arr (sz - 1 - i);
        arr1 \<leftarrow> store arr i v;
        arr2 \<leftarrow> store arr1 (sz - 1 - i) temp;
        reverse_array_loop arr2 sz (Suc i)
      } else Some arr)"
  by pat_completeness auto
termination
  by (relation "measure (\<lambda>(arr, sz, i). sz div 2 - i)") auto

declare reverse_array_loop.simps [simp del]

definition reverse_array :: "u8 list \<Rightarrow> u8 \<Rightarrow> u8 list option" where
  "reverse_array arr sz = reverse_array_loop arr (unat sz) 0"

definition ascii_to_val :: "u8 \<Rightarrow> int" where
  "ascii_to_val ascii_byte =
     (if 0x30 \<le> ascii_byte \<and> ascii_byte < 0x3A then uint ascii_byte - 0x30
      else if 0x41 \<le> ascii_byte \<and> ascii_byte < 0x47 then uint ascii_byte - 0x41 + 10
      else -1)"

definition uint32_t_byte_reverse :: "u32 \<Rightarrow> u32" where
  "uint32_t_byte_reverse data =
     (let r1 = drop_bit 1 (data AND 0xaaaaaaaa) OR push_bit 1 (data AND 0x55555555);
          r2 = drop_bit 2 (r1 AND 0xcccccccc) OR push_bit 2 (r1 AND 0x33333333);
          r3 = drop_bit 4 (r2 AND 0xf0f0f0f0) OR push_bit 4 (r2 AND 0x0f0f0f0f);
          r4 = drop_bit 8 (r3 AND 0xff00ff00) OR push_bit 8 (r3 AND 0x00ff00ff)
      in drop_bit 16 r4 OR (push_bit 16 r4 AND 0xffffffff))"

text \<open>The four writes of the conversion loop; with \<open>len \<noteq> 4\<close> or a null pointer the
  buffer is left as it is.\<close>

definition convert_uint32_t_to_uint8_t_pointer ::
    "u32 \<Rightarrow> u8 list option \<Rightarrow> u8 \<Rightarrow> u8 \<Rightarrow> u8 list option option" where
  "convert_uint32_t_to_uint8_t_pointer data_32 data_8 len endian =
     (case data_8 of
        None \<Rightarrow> Some None
      | Some buf \<Rightarrow>
          if len \<noteq> 4 then Some (Some buf)
          else if length buf < 4 then None
          else if endian = SMALL_ENDIAN
          then Some (Some (blit buf 0
                 (map (\<lambda>i. ucast (drop_bit (8 * i) data_32 AND 0xFF)) [0..<4])))
          else Some (Some (blit buf 0
                 (map (\<lambda>i. ucast (drop_bit (24 - 8 * i) data_32 AND 0xFF)) [0..<4]))))"

definition convert_uint8_t_pointer_to_uint32_t ::
    "u32 \<Rightarrow> u8 list option \<Rightarrow> u8 \<Rightarrow> u8 \<Rightarrow> u32 option" where
  "convert_uint8_t_pointer_to_uint32_t data_32 data_8 len endian =
     (case data_8 of
        None \<Rightarrow> Some data_32
      | Some b \<Rightarrow>
          if len \<noteq> 4 then Some data_32
          else if length b < 4 then None
          else if endian = SMALL_ENDIAN
          then Some (push_bit 24 (ucast (b ! 3)) + push_bit 16 (ucast (b ! 2)) +
                     push_bit 8 (ucast (b ! 1)) + ucast (b ! 0))
          else Some (push_bit 24 (ucast (b ! 0)) + push_bit 16 (ucast (b ! 1)) +
                     push_bit 8 (ucast (b ! 2)) + ucast (b ! 3)))"

text \<open>The loop of \<open>uint8_t_to_dec_ascii_pointer\<close>: \<open>divisor\<close> runs through 100, 10, 1, 0;
  leading zeros are skipped as long as nothing was written.\<close>

function dec_ascii_loop ::
    "nat \<Rightarrow> nat \<Rightarrow> nat \<Rightarrow> u8 list \<Rightarrow> nat \<Rightarrow> (nat \<times> u8 list) option" where
  "dec_ascii_loop val divisor idx result len =
     (if divisor > 0 \<and> idx < len then
        (if val div divisor = 0 \<and> idx = 0
         then dec_ascii_loop val (divisor div 10) idx result len
         else do {
           result' \<leftarrow> store result idx (of_nat (0x30 + val div divisor));
           dec_ascii_loop (val - val div divisor * divisor) (divisor div 10)
             (Suc idx) result' len
         })
      else Some (idx, result))"
  by pat_completeness auto
termination
  by (relation "measure (\<lambda>(val, divisor, idx, result, len). divisor)") auto

declare dec_ascii_loop.simps [simp del]

definition uint8_t_to_dec_ascii_pointer ::
    "u8 \<Rightarrow> u8 list option \<Rightarrow> u8 \<Rightarrow> (int \<times> u8 list option) option" where
  "uint8_t_to_dec_ascii_pointer val result len =
     (case result of
        None \<Rightarrow> Some (-1, None)
      | Some r \<Rightarrow> do {
          (idx, r') \<leftarrow> dec_ascii_loop (unat val) 100 0 r (unat len);
          Some (int idx, Some r')
        })"

function find_byte_data_in_buf :: "u8 list \<Rightarrow> u8 \<Rightarrow> int \<Rightarrow> int \<Rightarrow> int option" where
  "find_byte_data_in_buf buf byte_data index end_index =
     (if index < end_index then
        (if index < 0 then None
         else do {
           b \<leftarrow> load buf (nat index);
           if b = byte_data then Some index
           else find_byte_data_in_buf buf byte_data (index + 1) end_index
         })
      else Some (-1))"
  by pat_completeness auto
termination
  by (relation "measure (\<lambda>(buf, byte_data, index, end_index). nat (end_index - index))") auto

declare find_byte_data_in_buf.simps [simp del]

text \<open>\<open>*value = CLEARBIT(*value, index)\<close>: the macro works on \<open>unsigned long long\<close>, the
  assignment truncates to 32 bits.\<close>

definition clear_bit32 :: "u32 \<Rightarrow> nat \<Rightarrow> u32" where
  "clear_bit32 v index = ucast (CLEARBIT (ucast v) index)"

definition clear_bits :: "u32 \<Rightarrow> int \<Rightarrow> int \<Rightarrow> u32" where
  "clear_bits v start_bit end_bit =
     (if start_bit < 0 \<or> end_bit > 31 then v
      else foldl clear_bit32 v [nat start_bit..<nat (end_bit + 1)])"

section \<open>Bit macros\<close>

lemma of_nat_less_power2: "y < 64 \<Longrightarrow> (of_nat y :: 64 word) < 2 ^ y"
proof -
  assume y: "y < 64"
  have lt: "y < 2 ^ y" by (rule less_exp)
  have p: "(2 :: nat) ^ y < 2 ^ LENGTH(64)"
    using y by (intro power_strict_increasing) simp_all
  with lt have "y < 2 ^ LENGTH(64)" by (rule less_trans)
  with p lt have "(of_nat y :: 64 word) < of_nat (2 ^ y)"
    by (simp only: word_of_nat_less_iff take_bit_nat_eq_self)
  then show ?thesis by simp
qed

lemma and_power2: "(x :: 64 word) AND 2 ^ y = (if bit x y then 2 ^ y else 0)"
  by (rule bit_word_eqI) (auto simp: bit_simps)

lemma GETBIT_bit: "y < 64 \<Longrightarrow> GETBIT x y \<longleftrightarrow> bit x y"
  by (simp add: GETBIT_def and_power2 of_nat_less_power2)

lemma bit_clear_bit32: "bit (clear_bit32 v k) i \<longleftrightarrow> bit v i \<and> i \<noteq> k"
  by (auto simp: clear_bit32_def CLEARBIT_def bit_simps dest: bit_imp_le_length)

lemma bit_foldl_clear_bit32:
  "bit (foldl clear_bit32 v ks) i \<longleftrightarrow> bit v i \<and> i \<notin> set ks"
  by (induction ks arbitrary: v) (auto simp: bit_clear_bit32)

section \<open>Array reversal\<close>

text \<open>After \<open>i\<close> exchanges the outer \<open>i\<close> positions on both sides hold each other's values.\<close>

lemma reverse_array_loop_correct:
  assumes "sz \<le> length arr" and "i \<le> sz div 2"
  shows "\<exists>r. reverse_array_loop arr sz i = Some r \<and> length r = length arr \<and>
    (\<forall>k < length arr. r ! k = (if i \<le> k \<and> k < sz - i then arr ! (sz - 1 - k) else arr ! k))"
  using assms
proof (induction arr sz i rule: reverse_array_loop.induct)
  case (1 arr sz i)
  show ?case
  proof (cases "i < sz div 2")
    case True
    define arr' where "arr' = arr[i := arr ! (sz - 1 - i), sz - 1 - i := arr ! i]"
    have step: "reverse_array_loop arr sz i = reverse_array_loop arr' sz (Suc i)"
      using True 1(2) by (simp add: reverse_array_loop.simps [of arr] arr'_def)
    have "\<exists>r. reverse_array_loop arr' sz (Suc i) = Some r \<and> length r = length arr' \<and>
      (\<forall>k < length arr'. r ! k =
         (if Suc i \<le> k \<and> k < sz - Suc i then arr' ! (sz - 1 - k) else arr' ! k))"
      by (rule 1(1) [of "arr ! i" "arr ! (sz - 1 - i)" "arr[i := arr ! (sz - 1 - i)]"])
        (use True 1(2) in \<open>auto simp: arr'_def\<close>)
    then obtain r where r: "reverse_array_loop arr' sz (Suc i) = Some r"
      "length r = length arr'"
      "\<And>k. k < length arr' \<Longrightarrow> r ! k =
         (if Suc i \<le> k \<and> k < sz - Suc i then arr' ! (sz - 1 - k) else arr' ! k)"
      by blast
    have "r ! k = (if i \<le> k \<and> k < sz - i then arr ! (sz - 1 - k) else arr ! k)"
      if "k < length arr" for k
      using r(3) [of k] that True 1(2) by (auto simp: arr'_def nth_list_update)
    with r step show ?thesis by (auto simp: arr'_def)
  next
    case False
    with 1(3) have i: "i = sz div 2" by simp
    have "arr ! k = arr ! (sz - 1 - k)" if "i \<le> k" "k < sz - i" for k
    proof -
      from that i have "sz - 1 - k = k" by linarith
      then show ?thesis by simp
    qed
    with False show ?thesis by (auto simp: reverse_array_loop.simps [of arr])
  qed
qed

lemma reverse_array_loop_rev:
  assumes "sz \<le> length arr"
  shows "reverse_array_loop arr sz 0 = Some (rev (take sz arr) @ drop sz arr)"
proof -
  obtain r where r: "reverse_array_loop arr sz 0 = Some r" "length r = length arr"
    "\<And>k. k < length arr \<Longrightarrow> r ! k = (if k < sz then arr ! (sz - 1 - k) else arr ! k)"
    using reverse_array_loop_correct [OF assms, of 0] by auto
  have "r = rev (take sz arr) @ drop sz arr"
    using assms r by (intro nth_equalityI) (auto simp: nth_append rev_nth)
  with r show ?thesis by simp
qed

section \<open>Endian conversion\<close>

lemma bit_255: "bit (0xFF :: u32) i \<longleftrightarrow> i < 8"
proof -
  have e: "(0xFF :: u32) = mask 8" by (simp add: mask_eq_exp_minus_1)
  show ?thesis unfolding e bit_mask_iff by auto
qed

lemma ucast_and_255: "ucast (x AND 0xFF :: u32) = (ucast x :: u8)"
proof (rule bit_word_eqI)
  fix n assume "n < LENGTH(8)"
  then show "bit (ucast (x AND 0xFF :: u32) :: u8) n = bit (ucast x :: u8) n"
    by (simp only: bit_ucast_iff bit_and_iff bit_255) simp
qed

text \<open>The sum of four bytes shifted to disjoint places is their bitwise union.\<close>

lemma add_disjoint_bytes:
  fixes a b c d :: u8
  shows "push_bit 24 (ucast a) + push_bit 16 (ucast b) + push_bit 8 (ucast c) + ucast d
    = ((push_bit 24 (ucast a) OR push_bit 16 (ucast b)) OR push_bit 8 (ucast c)) OR (ucast d :: u32)"
proof -
  have lt: "bit x i \<Longrightarrow> i < 8" for x :: u8 and i
    using bit_imp_le_length [of x i] by simp
  have 1: "push_bit 24 (ucast a) + push_bit 16 (ucast b)
      = (push_bit 24 (ucast a) OR push_bit 16 (ucast b) :: u32)"
    by (rule disjunctive_add_eq_or, rule bit_word_eqI) (auto simp: bit_simps dest!: lt)
  have 2: "(push_bit 24 (ucast a) OR push_bit 16 (ucast b)) + push_bit 8 (ucast c)
      = ((push_bit 24 (ucast a) OR push_bit 16 (ucast b)) OR push_bit 8 (ucast c) :: u32)"
    by (rule disjunctive_add_eq_or, rule bit_word_eqI) (auto simp: bit_simps dest!: lt)
  have 3: "((push_bit 24 (ucast a) OR push_bit 16 (ucast b)) OR push_bit 8 (ucast c)) + ucast d
      = ((push_bit 24 (ucast a) OR push_bit 16 (ucast b)) OR push_bit 8 (ucast c)) OR (ucast d :: u32)"
    by (rule disjunctive_add_eq_or, rule bit_word_eqI) (auto simp: bit_simps dest!: lt)
  show ?thesis by (simp only: 1 2 3)
qed

lemma bytes_of_word:
  "((push_bit 24 (ucast (ucast (drop_bit 24 x) :: u8))
      OR push_bit 16 (ucast (ucast (drop_bit 16 x) :: u8)))
      OR push_bit 8 (ucast (ucast (drop_bit 8 x) :: u8))) OR ucast (ucast x :: u8) = (x :: u32)"
proof (rule bit_word_eqI)
  fix n assume "n < LENGTH(32)"
  then consider "n < 8" | "8 \<le> n" "n < 16" | "16 \<le> n" "n < 24" | "24 \<le> n" "n < 32"
    by fastforce
  then show "bit (((push_bit 24 (ucast (ucast (drop_bit 24 x) :: u8))
      OR push_bit 16 (ucast (ucast (drop_bit 16 x) :: u8)))
      OR push_bit 8 (ucast (ucast (drop_bit 8 x) :: u8))) OR ucast (ucast x :: u8) :: u32) n = bit x n"
    by cases (auto simp: bit_simps)
qed

section \<open>Bit reversal\<close>

text \<open>Which bit of its argument each masked shift delivers.\<close>

lemma bit_uint32_t_byte_reverse:
  assumes "n < 32"
  shows "bit (uint32_t_byte_reverse x) n \<longleftrightarrow> bit x (31 - n)"
proof -
  from assms have "n \<in> {0, 1, 2, 3, 4, 5, 6, 7, 8, 9, 10, 11, 12, 13, 14, 15, 16, 17, 18, 19,
      20, 21, 22, 23, 24, 25, 26, 27, 28, 29, 30, 31}" by (simp add: eval_nat_numeral less_Suc_eq)
  then show ?thesis
    unfolding uint32_t_byte_reverse_def Let_def bit_or_iff bit_and_iff bit_drop_bit_eq o_apply
      bit_push_bit_iff possible_bit_word
    by (elim insertE emptyE) (simp_all flip: numeral_3_eq_3)
qed

section \<open>Searching and decimal output\<close>

lemma find_byte_data_in_buf_spec:
  assumes "0 \<le> i" and "e \<le> int (length buf)"
  shows "find_byte_data_in_buf buf b i e =
    (case find (\<lambda>k. buf ! k = b) [nat i..<nat e] of
       None \<Rightarrow> Some (-1) | Some k \<Rightarrow> Some (int k))"
  using assms
proof (induction buf b i e rule: find_byte_data_in_buf.induct)
  case (1 buf b i e)
  show ?case
  proof (cases "i < e")
    case True
    then have upt: "[nat i..<nat e] = nat i # [nat (i + 1)..<nat e]"
      using 1(2) by (simp add: upt_conv_Cons nat_add_distrib)
    show ?thesis
      using True 1(2,3) 1(1) [of "buf ! nat i"]
      by (auto simp: find_byte_data_in_buf.simps [of buf] upt)
  next
    case False
    then show ?thesis using 1(2) by (simp add: find_byte_data_in_buf.simps [of buf])
  qed
qed

lemma dec_ascii_loop_100:
  "dec_ascii_loop v 100 0 r len =
     (if 0 < len then
        if v < 100 then dec_ascii_loop v 10 0 r len
        else do {
          r' \<leftarrow> store r 0 (of_nat (0x30 + v div 100));
          dec_ascii_loop (v mod 100) 10 1 r' len
        }
      else Some (0, r))"
  by (simp add: dec_ascii_loop.simps [of v 100] minus_div_mult_eq_mod div_eq_0_iff)

lemma dec_ascii_loop_10:
  "dec_ascii_loop v 10 k r len =
     (if k < len then
        if v < 10 \<and> k = 0 then dec_ascii_loop v 1 k r len
        else do {
          r' \<leftarrow> store r k (of_nat (0x30 + v div 10));
          dec_ascii_loop (v mod 10) 1 (Suc k) r' len
        }
      else Some (k, r))"
  by (simp add: dec_ascii_loop.simps [of v 10] minus_div_mult_eq_mod div_eq_0_iff)

lemma dec_ascii_loop_1:
  "dec_ascii_loop v 1 k r len =
     (if k < len \<and> \<not> (v = 0 \<and> k = 0) then do {
          r' \<leftarrow> store r k (of_nat (0x30 + v));
          Some (Suc k, r')
        }
      else Some (k, r))"
  unfolding dec_ascii_loop.simps [of v 1] by (simp add: dec_ascii_loop.simps [of _ 0])

lemma dec_ascii_loop_three:
  assumes "3 \<le> len" and "3 \<le> length r"
  shows "dec_ascii_loop v 100 0 r len = Some (
    if 100 \<le> v then (3, r[0 := of_nat (0x30 + v div 100), 1 := of_nat (0x30 + v mod 100 div 10),
                            2 := of_nat (0x30 + v mod 10)])
    else if 10 \<le> v then (2, r[0 := of_nat (0x30 + v div 10), 1 := of_nat (0x30 + v mod 10)])
    else if 1 \<le> v then (1, r[0 := of_nat (0x30 + v)])
    else (0, r))"
proof -
  have 10: "v mod 100 mod 10 = v mod 10" by (simp add: mod_mod_cancel)
  have len: "0 < len" "1 < len" "2 < len" and r: "0 < length r" "1 < length r" "2 < length r"
    using assms by auto
  consider "100 \<le> v" | "10 \<le> v" "v < 100" | "1 \<le> v" "v < 10" | "v = 0" by linarith
  then show ?thesis
  proof cases
    case 1
    then show ?thesis
      using len r by (simp add: dec_ascii_loop_100 dec_ascii_loop_10 [of _ "Suc 0"] 10
        dec_ascii_loop_1 [unfolded One_nat_def] numeral_2_eq_2 numeral_3_eq_3)
  next
    case 2
    then show ?thesis
      using len r by (simp add: dec_ascii_loop_100 dec_ascii_loop_10 dec_ascii_loop_1 [unfolded One_nat_def] numeral_2_eq_2)
  qed (use len r in \<open>simp_all add: dec_ascii_loop_100 dec_ascii_loop_10
      dec_ascii_loop_1 [unfolded One_nat_def]\<close>)
qed

section \<open>Properties\<close>

text \<open>C40 (\<open>reverse_array\<close>): on an array of at least \<open>size\<close> elements the exchange loop stays
  in bounds and reverses exactly the first \<open>size\<close> elements.\<close>

theorem reverse_array_correct:
  assumes "unat sz \<le> length arr"
  shows "reverse_array arr sz = Some (rev (take (unat sz) arr) @ drop (unat sz) arr)"
  unfolding reverse_array_def by (rule reverse_array_loop_rev [OF assms])

theorem reverse_array_correct_witness:
  "unat (3 :: u8) \<le> length [1, 2, 3, 4 :: u8] \<and> reverse_array [1, 2, 3, 4] 3 = Some [3, 2, 1, 4]"
  using reverse_array_correct [of 3 "[1, 2, 3, 4]"] by simp

text \<open>C32 (\<open>uint32_t_byte_reverse\<close>): despite its name the routine reverses the 32 bits of its
  argument: bit \<open>n\<close> of the result is bit \<open>31 - n\<close> of the argument, so applying it twice
  gives the argument back.\<close>

theorem uint32_t_byte_reverse_reverses_bits:
  "(\<forall>n. bit (uint32_t_byte_reverse x) n = (n < 32 \<and> bit x (31 - n)))
   \<and> uint32_t_byte_reverse (uint32_t_byte_reverse x) = x"
proof
  show bits: "\<forall>n. bit (uint32_t_byte_reverse x) n = (n < 32 \<and> bit x (31 - n))"
    using bit_uint32_t_byte_reverse [of _ x]
      bit_imp_le_length [of "uint32_t_byte_reverse x"] by auto
  show "uint32_t_byte_reverse (uint32_t_byte_reverse x) = x"
    by (rule bit_word_eqI) (simp add: bit_uint32_t_byte_reverse)
qed

text \<open>C30 (endian conversion): for either byte order, reading back the four bytes that
  \<open>convert_uint32_t_to_uint8_t_pointer\<close> wrote into a large enough buffer with
  \<open>convert_uint8_t_pointer_to_uint32_t\<close> yields the value that was written.\<close>

theorem convert_uint32_roundtrip:
  assumes "4 \<le> length buf"
  shows "\<exists>buf'. convert_uint32_t_to_uint8_t_pointer v (Some buf) 4 endian = Some (Some buf')
    \<and> length buf' = length buf
    \<and> convert_uint8_t_pointer_to_uint32_t w (Some buf') 4 endian = Some v"
proof -
  let ?le = "map (\<lambda>i. ucast (drop_bit (8 * i) v AND 0xFF) :: u8) [0..<4]"
  let ?be = "map (\<lambda>i. ucast (drop_bit (24 - 8 * i) v AND 0xFF) :: u8) [0..<4]"
  have e: "[0..<4] = [0, 1, 2, 3 :: nat]" by (simp add: upt_rec)
  have l: "0 < length buf" using assms by linarith
  have "convert_uint8_t_pointer_to_uint32_t w (Some (blit buf 0 ?le)) 4 SMALL_ENDIAN = Some v"
    using assms l unfolding convert_uint8_t_pointer_to_uint32_t_def
    by (simp add: nth_blit e ucast_and_255 add_disjoint_bytes bytes_of_word)
  moreover have "convert_uint8_t_pointer_to_uint32_t w (Some (blit buf 0 ?be)) 4 en = Some v"
    if "en \<noteq> SMALL_ENDIAN" for en
    using assms l that unfolding convert_uint8_t_pointer_to_uint32_t_def
    by (simp add: nth_blit e ucast_and_255 add_disjoint_bytes bytes_of_word)
  ultimately show ?thesis
    using assms by (cases "endian = SMALL_ENDIAN")
      (auto simp: convert_uint32_t_to_uint8_t_pointer_def)
qed

theorem convert_uint32_roundtrip_witness:
  "\<exists>buf'. convert_uint32_t_to_uint8_t_pointer 0x12345678 (Some [0, 0, 0, 0, 9]) 4 BIG_ENDIAN
      = Some (Some buf')
    \<and> length buf' = 5
    \<and> convert_uint8_t_pointer_to_uint32_t 0 (Some buf') 4 BIG_ENDIAN = Some 0x12345678"
  using convert_uint32_roundtrip [of "[0, 0, 0, 0, 9]" "0x12345678" BIG_ENDIAN 0]
  by (simp add: eval_nat_numeral)

text \<open>C31 (\<open>clear_bits\<close>): with an admissible range every bit from \<open>start_bit\<close> to
  \<open>end_bit\<close> is cleared and no other bit changes; an inadmissible range changes nothing.\<close>

theorem clear_bits_correct:
  "bit (clear_bits v s e) n \<longleftrightarrow>
     bit v n \<and> (s < 0 \<or> 31 < e \<or> int n < s \<or> e < int n)"
  by (auto simp: clear_bits_def bit_foldl_clear_bit32)

end
