(* ===== verification/Ipmi_Types.thy ===== *)
theory Ipmi_Types
  imports Prelude
begin

text \<open>
  The data model of the IPMI stack of \<open>samples/ipmi_openbic/src\<close>: the constants and structures
  of \<open>ipmb/ipmb.h\<close>, \<open>ipmi/include/ipmi.h\<close> and \<open>ipmi/include/oem_1s_handler.h\<close>, and the
  well-formedness of a message (its data array has the size the struct declares). Enumerators
  and macros keep their names; they are abbreviations, so that the simplifier computes with
  their values.
\<close>

section \<open>Sizes and masks (ipmb.h)\<close>

abbreviation (input) SEQ_NUM :: nat where "SEQ_NUM \<equiv> 64"
abbreviation (input) MAX_SEQ_QUENE :: nat where "MAX_SEQ_QUENE \<equiv> 15"
abbreviation (input) MEM_ALLOCATE_RETRY_TIME :: nat where "MEM_ALLOCATE_RETRY_TIME \<equiv> 2"
abbreviation (input) IPMI_DATA_MAX_LENGTH :: nat where "IPMI_DATA_MAX_LENGTH \<equiv> 520"
abbreviation (input) IPMB_REQ_HEADER_LENGTH :: nat where "IPMB_REQ_HEADER_LENGTH \<equiv> 6"
abbreviation (input) IPMB_RESP_HEADER_LENGTH :: nat where "IPMB_RESP_HEADER_LENGTH \<equiv> 7"
abbreviation (input) IPMB_TX_RETRY_TIME :: u8 where "IPMB_TX_RETRY_TIME \<equiv> 0x05"
abbreviation (input) IPMB_TXQUEUE_LEN :: nat where "IPMB_TXQUEUE_LEN \<equiv> 1"
abbreviation (input) IPMB_RXQUEUE_LEN :: nat where "IPMB_RXQUEUE_LEN \<equiv> 2"
abbreviation (input) IPMI_HEADER_CHECKSUM_POSITION :: nat where "IPMI_HEADER_CHECKSUM_POSITION \<equiv> 2"
abbreviation (input) IPMB_NETFN_MASK :: u8 where "IPMB_NETFN_MASK \<equiv> 0xFC"
abbreviation (input) IPMB_DEST_LUN_MASK :: u8 where "IPMB_DEST_LUN_MASK \<equiv> 0x03"
abbreviation (input) IPMB_SEQ_MASK :: u8 where "IPMB_SEQ_MASK \<equiv> 0xFC"
abbreviation (input) IPMB_SRC_LUN_MASK :: u8 where "IPMB_SRC_LUN_MASK \<equiv> 0x03"
abbreviation (input) IPMB_SEQ_TIMEOUT_MS :: nat where "IPMB_SEQ_TIMEOUT_MS \<equiv> 3000"
abbreviation (input) I2C_RETRY_TIME :: u8 where "I2C_RETRY_TIME \<equiv> 0x05"
abbreviation (input) RESERVED_IDX :: u8 where "RESERVED_IDX \<equiv> 0xFF"
abbreviation (input) RESERVED_BUS :: u8 where "RESERVED_BUS \<equiv> 0xFF"
abbreviation (input) RESERVED_ADDRESS :: u8 where "RESERVED_ADDRESS \<equiv> 0xFF"
abbreviation (input) IPMI_MSG_MAX_LENGTH :: nat where "IPMI_MSG_MAX_LENGTH \<equiv> 527"

text \<open>Bridge interfaces (\<open>enum Channel_Target\<close>) and bus interfaces (\<open>enum Interface\<close>).\<close>

abbreviation (input) SELF :: u8 where "SELF \<equiv> 0x00"
abbreviation (input) ME_IPMB :: u8 where "ME_IPMB \<equiv> 0x01"
abbreviation (input) BMC_IPMB :: u8 where "BMC_IPMB \<equiv> 0x02"
abbreviation (input) SERVER_IPMB :: u8 where "SERVER_IPMB \<equiv> 0x04"
abbreviation (input) EXP1_IPMB :: u8 where "EXP1_IPMB \<equiv> 0x05"
abbreviation (input) SLOT1_BIC :: u8 where "SLOT1_BIC \<equiv> 0x07"
abbreviation (input) SLOT3_BIC :: u8 where "SLOT3_BIC \<equiv> 0x08"
abbreviation (input) BB_IPMB :: u8 where "BB_IPMB \<equiv> 0x10"
abbreviation (input) EXP2_IPMB :: u8 where "EXP2_IPMB \<equiv> 0x15"
abbreviation (input) CL_BIC_IPMB :: u8 where "CL_BIC_IPMB \<equiv> 0x16"
abbreviation (input) HD_BIC_IPMB :: u8 where "HD_BIC_IPMB \<equiv> 0x17"
abbreviation (input) GL_BIC_IPMB :: u8 where "GL_BIC_IPMB \<equiv> 0x18"
abbreviation (input) EXP3_IPMB :: u8 where "EXP3_IPMB \<equiv> 0x25"
abbreviation (input) EXP4_IPMB :: u8 where "EXP4_IPMB \<equiv> 0x30"
abbreviation (input) PEER_BMC_IPMB :: u8 where "PEER_BMC_IPMB \<equiv> 0x1A"
abbreviation (input) BMC_USB :: u8 where "BMC_USB \<equiv> 0x20"
abbreviation (input) PLDM :: u8 where "PLDM \<equiv> 0x40"
abbreviation (input) MCTP :: u8 where "MCTP \<equiv> 0x41"
abbreviation (input) MPRO_PLDM :: u8 where "MPRO_PLDM \<equiv> 0x42"
abbreviation (input) SATMC_PLDM :: u8 where "SATMC_PLDM \<equiv> 0x43"
abbreviation (input) HOST_KCS_1 :: u8 where "HOST_KCS_1 \<equiv> 0x50"
abbreviation (input) HOST_KCS_2 :: u8 where "HOST_KCS_2 \<equiv> 0x51"
abbreviation (input) HOST_KCS_3 :: u8 where "HOST_KCS_3 \<equiv> 0x52"
abbreviation (input) HOST_KCS_4 :: u8 where "HOST_KCS_4 \<equiv> 0x53"
abbreviation (input) HOST_SSIF_1 :: u8 where "HOST_SSIF_1 \<equiv> 0x60"
abbreviation (input) RESERVED :: u8 where "RESERVED \<equiv> 0x61"
abbreviation (input) I2C_IF :: u8 where "I2C_IF \<equiv> 0x00"
abbreviation (input) I3C_IF :: u8 where "I3C_IF \<equiv> 0x01"
abbreviation (input) RESERVED_IF :: u8 where "RESERVED_IF \<equiv> 0x02"

datatype ipmb_error =
    IPMB_ERROR_SUCCESS
  | IPMB_ERROR_UNKNOWN
  | IPMB_ERROR_FAILURE
  | IPMB_ERROR_TIMEOUT
  | IPMB_ERROR_INVALID_REQ
  | IPMB_ERROR_HDR_CHECKSUM
  | IPMB_ERROR_MSG_CHECKSUM
  | IPMB_ERROR_QUEUE_CREATION
  | IPMB_ERROR_GET_MESSAGE_QUEUE
  | IPMB_ERROR_MUTEX_LOCK

section \<open>Completion codes, network functions and commands (ipmi.h)\<close>

abbreviation (input) CC_SUCCESS :: u8 where "CC_SUCCESS \<equiv> 0x00"
abbreviation (input) CC_NODE_BUSY :: u8 where "CC_NODE_BUSY \<equiv> 0xC0"
abbreviation (input) CC_INVALID_CMD :: u8 where "CC_INVALID_CMD \<equiv> 0xC1"
abbreviation (input) CC_INVALID_LUN :: u8 where "CC_INVALID_LUN \<equiv> 0xC2"
abbreviation (input) CC_TIMEOUT :: u8 where "CC_TIMEOUT \<equiv> 0xC3"
abbreviation (input) CC_OUT_OF_SPACE :: u8 where "CC_OUT_OF_SPACE \<equiv> 0xC4"
abbreviation (input) CC_INVALID_RESERVATION :: u8 where "CC_INVALID_RESERVATION \<equiv> 0xC5"
abbreviation (input) CC_DATA_TRUNCATED :: u8 where "CC_DATA_TRUNCATED \<equiv> 0xC6"
abbreviation (input) CC_INVALID_LENGTH :: u8 where "CC_INVALID_LENGTH \<equiv> 0xC7"
abbreviation (input) CC_LENGTH_EXCEEDED :: u8 where "CC_LENGTH_EXCEEDED \<equiv> 0xC8"
abbreviation (input) CC_PARAM_OUT_OF_RANGE :: u8 where "CC_PARAM_OUT_OF_RANGE \<equiv> 0xC9"
abbreviation (input) CC_SENSOR_NOT_PRESENT :: u8 where "CC_SENSOR_NOT_PRESENT \<equiv> 0xCB"
abbreviation (input) CC_INVALID_DATA_FIELD :: u8 where "CC_INVALID_DATA_FIELD \<equiv> 0xCC"
abbreviation (input) CC_CAN_NOT_RESPOND :: u8 where "CC_CAN_NOT_RESPOND \<equiv> 0xCE"
abbreviation (input) CC_NOT_SUPP_IN_CURR_STATE :: u8 where "CC_NOT_SUPP_IN_CURR_STATE \<equiv> 0xD5"
abbreviation (input) CC_UNSPECIFIED_ERROR :: u8 where "CC_UNSPECIFIED_ERROR \<equiv> 0xFF"
abbreviation (input) CC_INVALID_PARAM :: u8 where "CC_INVALID_PARAM \<equiv> 0x80"
abbreviation (input) CC_FRU_DEV_BUSY :: u8 where "CC_FRU_DEV_BUSY \<equiv> 0x81"
abbreviation (input) CC_BRIDGE_MSG_ERR :: u8 where "CC_BRIDGE_MSG_ERR \<equiv> 0x82"
abbreviation (input) CC_I2C_BUS_ERROR :: u8 where "CC_I2C_BUS_ERROR \<equiv> 0x83"
abbreviation (input) CC_INVALID_IANA :: u8 where "CC_INVALID_IANA \<equiv> 0x84"
abbreviation (input) NETFN_CHASSIS_REQ :: u8 where "NETFN_CHASSIS_REQ \<equiv> 0x00"
abbreviation (input) NETFN_CHASSIS_RES :: u8 where "NETFN_CHASSIS_RES \<equiv> 0x01"
abbreviation (input) NETFN_BRIDGE_REQ :: u8 where "NETFN_BRIDGE_REQ \<equiv> 0x02"
abbreviation (input) NETFN_BRIDGE_RES :: u8 where "NETFN_BRIDGE_RES \<equiv> 0x03"
abbreviation (input) NETFN_SENSOR_REQ :: u8 where "NETFN_SENSOR_REQ \<equiv> 0x04"
abbreviation (input) NETFN_SENSOR_RES :: u8 where "NETFN_SENSOR_RES \<equiv> 0x05"
abbreviation (input) NETFN_APP_REQ :: u8 where "NETFN_APP_REQ \<equiv> 0x06"
abbreviation (input) NETFN_APP_RES :: u8 where "NETFN_APP_RES \<equiv> 0x07"
abbreviation (input) NETFN_FIRMWARE_REQ :: u8 where "NETFN_FIRMWARE_REQ \<equiv> 0x08"
abbreviation (input) NETFN_FIRMWARE_RES :: u8 where "NETFN_FIRMWARE_RES \<equiv> 0x09"
abbreviation (input) NETFN_STORAGE_REQ :: u8 where "NETFN_STORAGE_REQ \<equiv> 0x0A"
abbreviation (input) NETFN_STORAGE_RES :: u8 where "NETFN_STORAGE_RES \<equiv> 0x0B"
abbreviation (input) NETFN_TRANSPORT_REQ :: u8 where "NETFN_TRANSPORT_REQ \<equiv> 0x0C"
abbreviation (input) NETFN_TRANSPORT_RES :: u8 where "NETFN_TRANSPORT_RES \<equiv> 0x0D"
abbreviation (input) NETFN_DCMI_REQ :: u8 where "NETFN_DCMI_REQ \<equiv> 0x2C"
abbreviation (input) NETFN_DCMI_RES :: u8 where "NETFN_DCMI_RES \<equiv> 0x2D"
abbreviation (input) NETFN_NM_REQ :: u8 where "NETFN_NM_REQ \<equiv> 0x2E"
abbreviation (input) NETFN_NM_RES :: u8 where "NETFN_NM_RES \<equiv> 0x2F"
abbreviation (input) NETFN_OEM_REQ :: u8 where "NETFN_OEM_REQ \<equiv> 0x30"
abbreviation (input) NETFN_OEM_RES :: u8 where "NETFN_OEM_RES \<equiv> 0x31"
abbreviation (input) NETFN_OEM_STORAGE_REQ :: u8 where "NETFN_OEM_STORAGE_REQ \<equiv> 0x32"
abbreviation (input) NETFN_OEM_STORAGE_RES :: u8 where "NETFN_OEM_STORAGE_RES \<equiv> 0x33"
abbreviation (input) NETFN_OEM_Q_REQ :: u8 where "NETFN_OEM_Q_REQ \<equiv> 0x36"
abbreviation (input) NETFN_OEM_Q_RES :: u8 where "NETFN_OEM_Q_RES \<equiv> 0x37"
abbreviation (input) NETFN_OEM_1S_REQ :: u8 where "NETFN_OEM_1S_REQ \<equiv> 0x38"
abbreviation (input) NETFN_OEM_1S_RES :: u8 where "NETFN_OEM_1S_RES \<equiv> 0x39"
abbreviation (input) NETFN_OEM_ZION_REQ :: u8 where "NETFN_OEM_ZION_REQ \<equiv> 0x3A"
abbreviation (input) NETFN_OEM_ZION_RES :: u8 where "NETFN_OEM_ZION_RES \<equiv> 0x3B"
abbreviation (input) NETFN_OEM_USB_DBG_REQ :: u8 where "NETFN_OEM_USB_DBG_REQ \<equiv> 0x3C"
abbreviation (input) NETFN_OEM_USB_DBG_RES :: u8 where "NETFN_OEM_USB_DBG_RES \<equiv> 0x3D"
abbreviation (input) NETFN_OEM_ALI_RES :: u8 where "NETFN_OEM_ALI_RES \<equiv> 0x3E"
abbreviation (input) NETFN_OEM_ALI_REQ :: u8 where "NETFN_OEM_ALI_REQ \<equiv> 0x3F"
abbreviation (input) CMD_APP_GET_DEVICE_ID :: u8 where "CMD_APP_GET_DEVICE_ID \<equiv> 0x01"
abbreviation (input) CMD_APP_COLD_RESET :: u8 where "CMD_APP_COLD_RESET \<equiv> 0x02"
abbreviation (input) CMD_APP_WARM_RESET :: u8 where "CMD_APP_WARM_RESET \<equiv> 0x03"
abbreviation (input) CMD_APP_GET_SELFTEST_RESULTS :: u8 where "CMD_APP_GET_SELFTEST_RESULTS \<equiv> 0x04"
abbreviation (input) CMD_APP_SET_ACPI_POWER :: u8 where "CMD_APP_SET_ACPI_POWER \<equiv> 0x06"
abbreviation (input) CMD_APP_GET_DEVICE_GUID :: u8 where "CMD_APP_GET_DEVICE_GUID \<equiv> 0x08"
abbreviation (input) CMD_APP_SET_WATCHDOG_TIMER :: u8 where "CMD_APP_SET_WATCHDOG_TIMER \<equiv> 0x24"
abbreviation (input) CMD_APP_GET_WATCHDOG_TIMER :: u8 where "CMD_APP_GET_WATCHDOG_TIMER \<equiv> 0x25"
abbreviation (input) CMD_APP_SET_BMC_GLOBAL_ENABLES :: u8 where "CMD_APP_SET_BMC_GLOBAL_ENABLES \<equiv> 0x2E"
abbreviation (input) CMD_APP_GET_BMC_GLOBAL_ENABLES :: u8 where "CMD_APP_GET_BMC_GLOBAL_ENABLES \<equiv> 0x2F"
abbreviation (input) CMD_APP_CLEAR_MESSAGE_FLAGS :: u8 where "CMD_APP_CLEAR_MESSAGE_FLAGS \<equiv> 0x30"
abbreviation (input) CMD_APP_GET_SYSTEM_GUID :: u8 where "CMD_APP_GET_SYSTEM_GUID \<equiv> 0x37"
abbreviation (input) CMD_APP_GET_CAHNNEL_INFO :: u8 where "CMD_APP_GET_CAHNNEL_INFO \<equiv> 0x42"
abbreviation (input) CMD_APP_MASTER_WRITE_READ :: u8 where "CMD_APP_MASTER_WRITE_READ \<equiv> 0x52"
abbreviation (input) CMD_APP_SET_SYS_INFO_PARAMS :: u8 where "CMD_APP_SET_SYS_INFO_PARAMS \<equiv> 0x58"
abbreviation (input) CMD_CHASSIS_GET_CHASSIS_STATUS :: u8 where "CMD_CHASSIS_GET_CHASSIS_STATUS \<equiv> 0x01"
abbreviation (input) CMD_CHASSIS_GET_SYSTEM_BOOT_OPTIONS :: u8 where "CMD_CHASSIS_GET_SYSTEM_BOOT_OPTIONS \<equiv> 0x09"
abbreviation (input) CMD_SENSOR_PLATFORM_EVENT :: u8 where "CMD_SENSOR_PLATFORM_EVENT \<equiv> 0x02"
abbreviation (input) CMD_SENSOR_GET_SENSOR_READING :: u8 where "CMD_SENSOR_GET_SENSOR_READING \<equiv> 0x2D"
abbreviation (input) CMD_STORAGE_GET_FRUID_INFO :: u8 where "CMD_STORAGE_GET_FRUID_INFO \<equiv> 0x10"
abbreviation (input) CMD_STORAGE_READ_FRUID_DATA :: u8 where "CMD_STORAGE_READ_FRUID_DATA \<equiv> 0x11"
abbreviation (input) CMD_STORAGE_WRITE_FRUID_DATA :: u8 where "CMD_STORAGE_WRITE_FRUID_DATA \<equiv> 0x12"
abbreviation (input) CMD_STORAGE_RSV_SDR :: u8 where "CMD_STORAGE_RSV_SDR \<equiv> 0x22"
abbreviation (input) CMD_STORAGE_GET_SDR :: u8 where "CMD_STORAGE_GET_SDR \<equiv> 0x23"
abbreviation (input) CMD_STORAGE_GET_SEL_INFO :: u8 where "CMD_STORAGE_GET_SEL_INFO \<equiv> 0x40"
abbreviation (input) CMD_STORAGE_RSV_SEL :: u8 where "CMD_STORAGE_RSV_SEL \<equiv> 0x42"
abbreviation (input) CMD_STORAGE_GET_SEL :: u8 where "CMD_STORAGE_GET_SEL \<equiv> 0x43"
abbreviation (input) CMD_STORAGE_ADD_SEL :: u8 where "CMD_STORAGE_ADD_SEL \<equiv> 0x44"
abbreviation (input) CMD_DCMI_GET_PICMG_PROPERTIES :: u8 where "CMD_DCMI_GET_PICMG_PROPERTIES \<equiv> 0x00"
abbreviation (input) CMD_DCMI_SEND_BOOT_PROGRESS_CODE :: u8 where "CMD_DCMI_SEND_BOOT_PROGRESS_CODE \<equiv> 0x02"
abbreviation (input) CMD_DCMI_GET_BOOT_PROGRESS_CODE :: u8 where "CMD_DCMI_GET_BOOT_PROGRESS_CODE \<equiv> 0x03"
abbreviation (input) CMD_OEM_NM_FORCE_ME_RECOVERY :: u8 where "CMD_OEM_NM_FORCE_ME_RECOVERY \<equiv> 0xDF"
abbreviation (input) CMD_OEM_GET_BOARD_ID :: u8 where "CMD_OEM_GET_BOARD_ID \<equiv> 0x37"
abbreviation (input) CMD_OEM_GET_HTTP_BOOT_DATA :: u8 where "CMD_OEM_GET_HTTP_BOOT_DATA \<equiv> 0x57"
abbreviation (input) CMD_OEM_GET_HTTP_BOOT_ATTR :: u8 where "CMD_OEM_GET_HTTP_BOOT_ATTR \<equiv> 0x58"
abbreviation (input) CMD_OEM_POST_START :: u8 where "CMD_OEM_POST_START \<equiv> 0x73"
abbreviation (input) CMD_OEM_POST_END :: u8 where "CMD_OEM_POST_END \<equiv> 0x74"
abbreviation (input) CMD_OEM_CABLE_DETECTION :: u8 where "CMD_OEM_CABLE_DETECTION \<equiv> 0xCB"
abbreviation (input) CMD_OEM_NM_SENSOR_READ :: u8 where "CMD_OEM_NM_SENSOR_READ \<equiv> 0xE2"
abbreviation (input) CMD_OEM_SET_SYSTEM_GUID :: u8 where "CMD_OEM_SET_SYSTEM_GUID \<equiv> 0xEF"
abbreviation (input) CMD_OEM_GET_MB_INDEX :: u8 where "CMD_OEM_GET_MB_INDEX \<equiv> 0xF0"
abbreviation (input) CMD_OEM_SET_FAN_DUTY_MANUAL :: u8 where "CMD_OEM_SET_FAN_DUTY_MANUAL \<equiv> 0xF1"
abbreviation (input) CMD_OEM_GET_SET_FAN_CTRL_MODE :: u8 where "CMD_OEM_GET_SET_FAN_CTRL_MODE \<equiv> 0xF2"
abbreviation (input) CMD_OEM_GET_CHASSIS_POSITION :: u8 where "CMD_OEM_GET_CHASSIS_POSITION \<equiv> 0x7E"
abbreviation (input) CMD_OEM_Q_SET_DIMM_INFO :: u8 where "CMD_OEM_Q_SET_DIMM_INFO \<equiv> 0x12"
abbreviation (input) CMD_OEM_Q_GET_DIMM_INFO :: u8 where "CMD_OEM_Q_GET_DIMM_INFO \<equiv> 0x13"
abbreviation (input) CMD_OEM_1S_MSG_IN :: u8 where "CMD_OEM_1S_MSG_IN \<equiv> 0x01"
abbreviation (input) CMD_OEM_1S_MSG_OUT :: u8 where "CMD_OEM_1S_MSG_OUT \<equiv> 0x02"
abbreviation (input) CMD_OEM_1S_GET_GPIO :: u8 where "CMD_OEM_1S_GET_GPIO \<equiv> 0x03"
abbreviation (input) CMD_OEM_1S_SET_GPIO :: u8 where "CMD_OEM_1S_SET_GPIO \<equiv> 0x04"
abbreviation (input) CMD_OEM_1S_GET_GPIO_CONFIG :: u8 where "CMD_OEM_1S_GET_GPIO_CONFIG \<equiv> 0x05"
abbreviation (input) CMD_OEM_1S_SET_GPIO_CONFIG :: u8 where "CMD_OEM_1S_SET_GPIO_CONFIG \<equiv> 0x06"
abbreviation (input) CMD_OEM_1S_SEND_INTERRUPT_TO_BMC :: u8 where "CMD_OEM_1S_SEND_INTERRUPT_TO_BMC \<equiv> 0x07"
abbreviation (input) CMD_OEM_1S_SEND_POST_CODE_TO_BMC :: u8 where "CMD_OEM_1S_SEND_POST_CODE_TO_BMC \<equiv> 0x08"
abbreviation (input) CMD_OEM_1S_FW_UPDATE :: u8 where "CMD_OEM_1S_FW_UPDATE \<equiv> 0x09"
abbreviation (input) CMD_OEM_1S_GET_BIC_FW_INFO :: u8 where "CMD_OEM_1S_GET_BIC_FW_INFO \<equiv> 0x0A"
abbreviation (input) CMD_OEM_1S_GET_FW_VERSION :: u8 where "CMD_OEM_1S_GET_FW_VERSION \<equiv> 0x0B"
abbreviation (input) CMD_OEM_1S_SEND_HOST_POWER_STATE_TO_BMC :: u8 where "CMD_OEM_1S_SEND_HOST_POWER_STATE_TO_BMC \<equiv> 0x0C"
abbreviation (input) CMD_OEM_1S_INFORM_BMC_TO_CONTROL_POWER :: u8 where "CMD_OEM_1S_INFORM_BMC_TO_CONTROL_POWER \<equiv> 0x0D"
abbreviation (input) CMD_OEM_1S_GET_POST_CODE :: u8 where "CMD_OEM_1S_GET_POST_CODE \<equiv> 0x12"
abbreviation (input) CMD_OEM_1S_SET_VR_MONITOR_STATUS :: u8 where "CMD_OEM_1S_SET_VR_MONITOR_STATUS \<equiv> 0x14"
abbreviation (input) CMD_OEM_1S_GET_VR_MONITOR_STATUS :: u8 where "CMD_OEM_1S_GET_VR_MONITOR_STATUS \<equiv> 0x15"
abbreviation (input) CMD_OEM_1S_RESET_BMC :: u8 where "CMD_OEM_1S_RESET_BMC \<equiv> 0x16"
abbreviation (input) CMD_OEM_1S_READ_FW_IMAGE :: u8 where "CMD_OEM_1S_READ_FW_IMAGE \<equiv> 0x18"
abbreviation (input) CMD_OEM_1S_SET_WDT_FEED :: u8 where "CMD_OEM_1S_SET_WDT_FEED \<equiv> 0x1E"
abbreviation (input) CMD_OEM_1S_SET_JTAG_TAP_STA :: u8 where "CMD_OEM_1S_SET_JTAG_TAP_STA \<equiv> 0x21"
abbreviation (input) CMD_OEM_1S_JTAG_DATA_SHIFT :: u8 where "CMD_OEM_1S_JTAG_DATA_SHIFT \<equiv> 0x22"
abbreviation (input) CMD_OEM_1S_ACCURACY_SENSOR_READING :: u8 where "CMD_OEM_1S_ACCURACY_SENSOR_READING \<equiv> 0x23"
abbreviation (input) CMD_OEM_1S_CLEAR_CMOS :: u8 where "CMD_OEM_1S_CLEAR_CMOS \<equiv> 0x25"
abbreviation (input) CMD_OEM_1S_ASD_INIT :: u8 where "CMD_OEM_1S_ASD_INIT \<equiv> 0x28"
abbreviation (input) CMD_OEM_1S_PECI_ACCESS :: u8 where "CMD_OEM_1S_PECI_ACCESS \<equiv> 0x29"
abbreviation (input) CMD_OEM_1S_GET_4BYTE_POST_CODE :: u8 where "CMD_OEM_1S_GET_4BYTE_POST_CODE \<equiv> 0x2A"
abbreviation (input) CMD_OEM_1S_APML_READ :: u8 where "CMD_OEM_1S_APML_READ \<equiv> 0x2C"
abbreviation (input) CMD_OEM_1S_APML_WRITE :: u8 where "CMD_OEM_1S_APML_WRITE \<equiv> 0x2D"
abbreviation (input) CMD_OEM_1S_SEND_APML_REQUEST :: u8 where "CMD_OEM_1S_SEND_APML_REQUEST \<equiv> 0x2E"
abbreviation (input) CMD_OEM_1S_GET_APML_RESPONSE :: u8 where "CMD_OEM_1S_GET_APML_RESPONSE \<equiv> 0x2F"
abbreviation (input) CMD_OEM_1S_SENSOR_POLL_EN :: u8 where "CMD_OEM_1S_SENSOR_POLL_EN \<equiv> 0x30"
abbreviation (input) CMD_OEM_1S_GET_BIC_STATUS :: u8 where "CMD_OEM_1S_GET_BIC_STATUS \<equiv> 0x31"
abbreviation (input) CMD_OEM_1S_RESET_BIC :: u8 where "CMD_OEM_1S_RESET_BIC \<equiv> 0x32"
abbreviation (input) CMD_OEM_1S_SEND_4BYTE_POST_CODE_TO_BMC :: u8 where "CMD_OEM_1S_SEND_4BYTE_POST_CODE_TO_BMC \<equiv> 0x33"
abbreviation (input) CMD_OEM_1S_GET_SET_M2 :: u8 where "CMD_OEM_1S_GET_SET_M2 \<equiv> 0x34"
abbreviation (input) CMD_OEM_1S_SAFE_WRITE_READ_M2_DATA :: u8 where "CMD_OEM_1S_SAFE_WRITE_READ_M2_DATA \<equiv> 0x36"
abbreviation (input) CMD_OEM_1S_SET_SSD_LED :: u8 where "CMD_OEM_1S_SET_SSD_LED \<equiv> 0x39"
abbreviation (input) CMD_OEM_1S_GET_SSD_STATUS :: u8 where "CMD_OEM_1S_GET_SSD_STATUS \<equiv> 0x3A"
abbreviation (input) CMD_OEM_1S_GET_SET_GPIO :: u8 where "CMD_OEM_1S_GET_SET_GPIO \<equiv> 0x41"
abbreviation (input) CMD_OEM_1S_GET_SET_BIC_VGPIO :: u8 where "CMD_OEM_1S_GET_SET_BIC_VGPIO \<equiv> 0x42"
abbreviation (input) CMD_OEM_1S_GET_FW_SHA256 :: u8 where "CMD_OEM_1S_GET_FW_SHA256 \<equiv> 0x43"
abbreviation (input) CMD_OEM_1S_CONTROL_SENSOR_POLLING :: u8 where "CMD_OEM_1S_CONTROL_SENSOR_POLLING \<equiv> 0x45"
abbreviation (input) CMD_OEM_1S_SET_FAN_DUTY_AUTO :: u8 where "CMD_OEM_1S_SET_FAN_DUTY_AUTO \<equiv> 0x50"
abbreviation (input) CMD_OEM_1S_GET_FAN_DUTY :: u8 where "CMD_OEM_1S_GET_FAN_DUTY \<equiv> 0x51"
abbreviation (input) CMD_OEM_1S_GET_FAN_RPM :: u8 where "CMD_OEM_1S_GET_FAN_RPM \<equiv> 0x52"
abbreviation (input) CMD_OEM_1S_COPY_FLASH_IMAGE :: u8 where "CMD_OEM_1S_COPY_FLASH_IMAGE \<equiv> 0x53"
abbreviation (input) CMD_GET_COPY_FLASH_STATUS :: u8 where "CMD_GET_COPY_FLASH_STATUS \<equiv> 0x54"
abbreviation (input) CMD_OEM_1S_I2C_DEV_SCAN :: u8 where "CMD_OEM_1S_I2C_DEV_SCAN \<equiv> 0x60"
abbreviation (input) CMD_OEM_1S_12V_CYCLE_SLOT :: u8 where "CMD_OEM_1S_12V_CYCLE_SLOT \<equiv> 0x64"
abbreviation (input) CMD_OEM_1S_INFORM_PEER_SLED_CYCLE :: u8 where "CMD_OEM_1S_INFORM_PEER_SLED_CYCLE \<equiv> 0x66"
abbreviation (input) CMD_OEM_1S_READ_BIC_REGISTER :: u8 where "CMD_OEM_1S_READ_BIC_REGISTER \<equiv> 0x68"
abbreviation (input) CMD_OEM_1S_WRITE_BIC_REGISTER :: u8 where "CMD_OEM_1S_WRITE_BIC_REGISTER \<equiv> 0x69"
abbreviation (input) CMD_OEM_1S_BMC_IPMB_ACCESS :: u8 where "CMD_OEM_1S_BMC_IPMB_ACCESS \<equiv> 0x6A"
abbreviation (input) CMD_OEM_1S_GET_HSC_STATUS :: u8 where "CMD_OEM_1S_GET_HSC_STATUS \<equiv> 0x6C"
abbreviation (input) CMD_OEM_1S_PEX_FLASH_READ :: u8 where "CMD_OEM_1S_PEX_FLASH_READ \<equiv> 0x72"
abbreviation (input) CMD_OEM_1S_GET_FPGA_USER_CODE :: u8 where "CMD_OEM_1S_GET_FPGA_USER_CODE \<equiv> 0x73"
abbreviation (input) CMD_OEM_1S_BRIDGE_I2C_MSG_BY_COMPNT :: u8 where "CMD_OEM_1S_BRIDGE_I2C_MSG_BY_COMPNT \<equiv> 0x74"
abbreviation (input) CMD_OEM_1S_GET_PCIE_CARD_STATUS :: u8 where "CMD_OEM_1S_GET_PCIE_CARD_STATUS \<equiv> 0x76"
abbreviation (input) CMD_OEM_1S_GET_PCIE_CARD_SENSOR_READING :: u8 where "CMD_OEM_1S_GET_PCIE_CARD_SENSOR_READING \<equiv> 0x77"
abbreviation (input) CMD_OEM_1S_SET_DEVICE_ACTIVE :: u8 where "CMD_OEM_1S_SET_DEVICE_ACTIVE \<equiv> 0x78"
abbreviation (input) CMD_OEM_1S_GET_PCIE_RETIMER_TYPE :: u8 where "CMD_OEM_1S_GET_PCIE_RETIMER_TYPE \<equiv> 0x79"
abbreviation (input) CMD_OEM_1S_MULTI_ACCURACY_SENSOR_READING :: u8 where "CMD_OEM_1S_MULTI_ACCURACY_SENSOR_READING \<equiv> 0x88"
abbreviation (input) CMD_OEM_1S_GET_BOARD_ID :: u8 where "CMD_OEM_1S_GET_BOARD_ID \<equiv> 0xA0"
abbreviation (input) CMD_OEM_1S_GET_CARD_TYPE :: u8 where "CMD_OEM_1S_GET_CARD_TYPE \<equiv> 0xA1"
abbreviation (input) CMD_OEM_1S_GET_BIOS_VERSION :: u8 where "CMD_OEM_1S_GET_BIOS_VERSION \<equiv> 0xA2"
abbreviation (input) CMD_OEM_1S_NOTIFY_PMIC_ERROR :: u8 where "CMD_OEM_1S_NOTIFY_PMIC_ERROR \<equiv> 0xB0"
abbreviation (input) CMD_OEM_1S_WRITE_READ_DIMM :: u8 where "CMD_OEM_1S_WRITE_READ_DIMM \<equiv> 0xB1"
abbreviation (input) CMD_OEM_1S_GET_SDR :: u8 where "CMD_OEM_1S_GET_SDR \<equiv> 0xC0"
abbreviation (input) CMD_OEM_1S_SEND_APML_ALERT_TO_BMC :: u8 where "CMD_OEM_1S_SEND_APML_ALERT_TO_BMC \<equiv> 0xD0"
abbreviation (input) CMD_OEM_1S_GET_DIMM_I3C_MUX_SELECTION :: u8 where "CMD_OEM_1S_GET_DIMM_I3C_MUX_SELECTION \<equiv> 0xB2"
abbreviation (input) CMD_OEM_1S_PRE_POWER_OFF_CONTROL :: u8 where "CMD_OEM_1S_PRE_POWER_OFF_CONTROL \<equiv> 0xD1"
abbreviation (input) CMD_OEM_1S_SET_ADD_DEBUG_SEL_MODE :: u8 where "CMD_OEM_1S_SET_ADD_DEBUG_SEL_MODE \<equiv> 0xD2"
abbreviation (input) CMD_OEM_1S_DEBUG_GET_HW_SIGNAL :: u8 where "CMD_OEM_1S_DEBUG_GET_HW_SIGNAL \<equiv> 0xD3"
abbreviation (input) CMD_OEM_1S_SEND_MCTP_PLDM_COMMAND :: u8 where "CMD_OEM_1S_SEND_MCTP_PLDM_COMMAND \<equiv> 0xD4"
abbreviation (input) CMD_OEM_1S_CLEAR_CMET :: u8 where "CMD_OEM_1S_CLEAR_CMET \<equiv> 0xD5"
abbreviation (input) INDEX_SLOT1 :: u8 where "INDEX_SLOT1 \<equiv> 0x01"
abbreviation (input) INDEX_SLOT3 :: u8 where "INDEX_SLOT3 \<equiv> 0x03"

abbreviation (input) IANA_ID :: u32 where "IANA_ID \<equiv> 0x00A123"
abbreviation (input) SENSOR_EVENT_MESSAGES_ENABLE :: u8 where "SENSOR_EVENT_MESSAGES_ENABLE \<equiv> 0x80"
abbreviation (input) SENSOR_SCANNING_ENABLE :: u8 where "SENSOR_SCANNING_ENABLE \<equiv> 0x40"
abbreviation (input) SENSOR_READING_STATE_UNAVAILABLE :: u8
  where "SENSOR_READING_STATE_UNAVAILABLE \<equiv> 0x20"

section \<open>OEM 1S options (oem_1s_handler.h)\<close>

abbreviation (input) BIC_PLAT_NAME :: u8 where "BIC_PLAT_NAME \<equiv> 0x01"
abbreviation (input) BIC_PLAT_BOARD_ID :: u8 where "BIC_PLAT_BOARD_ID \<equiv> 0x02"
abbreviation (input) BIC_PROJ_NAME :: u8 where "BIC_PROJ_NAME \<equiv> 0x03"
abbreviation (input) BIC_PROJ_STAGE :: u8 where "BIC_PROJ_STAGE \<equiv> 0x04"
abbreviation (input) COMPNT_CPLD :: u8 where "COMPNT_CPLD \<equiv> 0x01"
abbreviation (input) COMPNT_BIC :: u8 where "COMPNT_BIC \<equiv> 0x02"
abbreviation (input) COMPNT_ME :: u8 where "COMPNT_ME \<equiv> 0x03"
abbreviation (input) COMPNT_BIOS :: u8 where "COMPNT_BIOS \<equiv> 0x04"
abbreviation (input) COMPNT_PVCCIN :: u8 where "COMPNT_PVCCIN \<equiv> 0x05"
abbreviation (input) COMPNT_PVCCFA_EHV_FIVRA :: u8 where "COMPNT_PVCCFA_EHV_FIVRA \<equiv> 0x06"
abbreviation (input) COMPNT_PVCCD_HV :: u8 where "COMPNT_PVCCD_HV \<equiv> 0x07"
abbreviation (input) COMPNT_PVCCINFAON :: u8 where "COMPNT_PVCCINFAON \<equiv> 0x08"
abbreviation (input) COMPNT_PVCCFA_EHV :: u8 where "COMPNT_PVCCFA_EHV \<equiv> 0x09"
abbreviation (input) BIOS_UPDATE :: u8 where "BIOS_UPDATE \<equiv> 0x00"
abbreviation (input) CPLD_UPDATE :: u8 where "CPLD_UPDATE \<equiv> 0x01"
abbreviation (input) BIC_UPDATE :: u8 where "BIC_UPDATE \<equiv> 0x02"
abbreviation (input) CXL_UPDATE :: u8 where "CXL_UPDATE \<equiv> 0x03"
abbreviation (input) PRoT_FLASH_UPDATE :: u8 where "PRoT_FLASH_UPDATE \<equiv> 0x04"
abbreviation (input) GET_GPIO_STATUS :: u8 where "GET_GPIO_STATUS \<equiv> 0x00"
abbreviation (input) SET_GPIO_OUTPUT_STATUS :: u8 where "SET_GPIO_OUTPUT_STATUS \<equiv> 0x01"
abbreviation (input) GET_GPIO_DIRECTION_STATUS :: u8 where "GET_GPIO_DIRECTION_STATUS \<equiv> 0x02"
abbreviation (input) SET_GPIO_DIRECTION_STATUS :: u8 where "SET_GPIO_DIRECTION_STATUS \<equiv> 0x03"
abbreviation (input) GET_VGPIO_DIRECTION_AND_STATUS :: u8 where "GET_VGPIO_DIRECTION_AND_STATUS \<equiv> 0x00"
abbreviation (input) SET_VGPIO_STATUS :: u8 where "SET_VGPIO_STATUS \<equiv> 0x01"
abbreviation (input) IS_SECTOR_END_MASK :: u8 where "IS_SECTOR_END_MASK \<equiv> 0x80"
abbreviation (input) GLOBAL_GPIO_IDX_KEY :: u8 where "GLOBAL_GPIO_IDX_KEY \<equiv> 0xFF"

section \<open>Structures\<close>

text \<open>\<open>struct ipmi_msg\<close>; the array member \<open>data\<close> is a list.\<close>

record ipmi_msg =
  dest_addr :: u8
  netfn :: u8
  dest_LUN :: u8
  hdr_chksum :: u8
  src_addr :: u8
  seq_source :: u8
  seq_target :: u8
  seq :: u8
  pldm_inst_id :: u8
  InF_source :: u8
  InF_target :: u8
  src_LUN :: u8
  cmd :: u8
  completion_code :: u8
  data_len :: u16
  data :: "u8 list"
  timestamp :: u32
  msg_chksum :: u8

type_synonym addr = nat

text \<open>\<open>struct ipmi_msg_cfg\<close>; the link of the request list is an address, \<open>None\<close> for \<open>NULL\<close>.\<close>

record ipmi_msg_cfg =
  buffer :: ipmi_msg
  retries :: u8
  next_ptr :: "addr option"

text \<open>\<open>struct IPMB_config\<close>.\<close>

record IPMB_config =
  cfg_index :: u8
  cfg_interface :: u8
  cfg_channel :: u8
  cfg_bus :: u8
  channel_target_address :: u8
  enable_status :: bool
  self_address :: u8
  rx_thread_name :: string
  tx_thread_name :: string

definition IS_RESPONSE :: "ipmi_msg \<Rightarrow> bool" where
  "IS_RESPONSE msg \<longleftrightarrow> netfn msg AND 0x01 \<noteq> 0"

text \<open>\<open>memset(msg, 0, sizeof(ipmi_msg))\<close>.\<close>

definition zero_msg :: ipmi_msg where
  "zero_msg = \<lparr>dest_addr = 0, netfn = 0, dest_LUN = 0, hdr_chksum = 0, src_addr = 0,
     seq_source = 0, seq_target = 0, seq = 0, pldm_inst_id = 0, InF_source = 0, InF_target = 0,
     src_LUN = 0, cmd = 0, completion_code = 0, data_len = 0,
     data = replicate IPMI_MSG_MAX_LENGTH 0, timestamp = 0, msg_chksum = 0\<rparr>"

text \<open>\<open>construct_ipmi_message\<close> (libutil.c) fills six fields of an automatic variable whose other
  contents are whatever the stack held (\<open>stk\<close>).\<close>

definition construct_ipmi_message ::
    "ipmi_msg \<Rightarrow> u8 \<Rightarrow> u8 \<Rightarrow> u8 \<Rightarrow> u8 \<Rightarrow> u8 \<Rightarrow> u16 \<Rightarrow> u8 list option \<Rightarrow> ipmi_msg option" where
  "construct_ipmi_message stk seq_src netFn command source_inft target_inft len dat =
     (let m = stk\<lparr>seq_source := seq_src, netfn := netFn, cmd := command,
                  InF_source := source_inft, InF_target := target_inft, data_len := len\<rparr>
      in case dat of
           None \<Rightarrow> Some m
         | Some d \<Rightarrow>
             if len \<noteq> 0 then do {
               d' \<leftarrow> memcpy (data m) 0 d 0 (unat len);
               Some (m\<lparr>data := d'\<rparr>)
             } else Some m)"

section \<open>Well-formed messages\<close>

text \<open>The data array has the declared size; \<open>data_len\<close> may exceed it only through a bug.\<close>

definition wf_msg :: "ipmi_msg \<Rightarrow> bool" where
  "wf_msg m \<longleftrightarrow> length (data m) = IPMI_MSG_MAX_LENGTH"

definition msg_bytes :: "ipmi_msg \<Rightarrow> u8 list" where
  "msg_bytes m = take (unat (data_len m)) (data m)"

text \<open>Setting the payload: \<open>data[0..n) = bs; data_len = n\<close>.\<close>

definition set_payload :: "ipmi_msg \<Rightarrow> u8 list \<Rightarrow> ipmi_msg" where
  "set_payload m bs = m\<lparr>data := blit (data m) 0 bs, data_len := of_nat (length bs)\<rparr>"

lemma wf_zero_msg [simp, wf_intros]: "wf_msg zero_msg"
  by (simp add: wf_msg_def zero_msg_def)

lemma length_data_wf [simp]: "wf_msg m \<Longrightarrow> length (data m) = IPMI_MSG_MAX_LENGTH"
  by (simp add: wf_msg_def)

lemma wf_msg_data_update [wf_intros]:
  "length d = IPMI_MSG_MAX_LENGTH \<Longrightarrow> wf_msg (m\<lparr>data := d\<rparr>)"
  by (simp add: wf_msg_def)

lemma wf_set_payload [wf_intros]:
  "wf_msg m \<Longrightarrow> length bs \<le> IPMI_MSG_MAX_LENGTH \<Longrightarrow> wf_msg (set_payload m bs)"
  by (simp add: wf_msg_def set_payload_def)

lemma msg_bytes_set_payload [simp]:
  assumes "wf_msg m" and "length bs \<le> IPMI_MSG_MAX_LENGTH"
  shows "msg_bytes (set_payload m bs) = bs"
  using assms by (simp add: msg_bytes_def set_payload_def blit_def)

lemma wf_construct_ipmi_message:
  assumes "wf_msg stk" and "construct_ipmi_message stk a b c d e len dat = Some m"
  shows "wf_msg m"
  using assms unfolding construct_ipmi_message_def wf_msg_def Let_def
  by (auto split: option.splits if_splits dest!: memcpy_length bind_eq_Some_conv [THEN iffD1])

end
