(* ===== verification/Power_Status.thy ===== *)
theory Power_Status
  imports Prelude
begin

text \<open>
  The power state flags of \<open>samples/ipmi_openbic/src/lib/power_status.c\<close>: a record of the file's
  static variables and its setters and getters. In this tree the setters that would read a GPIO
  have their bodies commented out, so they leave the state alone whatever the pin says.
\<close>

record power_state =
  is_DC_on :: bool
  is_DC_on_delayed :: bool
  is_DC_off_delayed :: bool
  is_CPU_power_good :: bool
  is_post_complete :: bool
  vr_monitor_status :: bool
  is_P3V3_E1S_power_good :: bool
  is_P12V_E1S_power_good :: bool

definition power_state_init :: power_state where
  "power_state_init = \<lparr>is_DC_on = False, is_DC_on_delayed = False, is_DC_off_delayed = False,
     is_CPU_power_good = False, is_post_complete = False, vr_monitor_status = True,
     is_P3V3_E1S_power_good = False, is_P12V_E1S_power_good = False\<rparr>"

definition set_DC_status :: "u8 \<Rightarrow> power_state \<Rightarrow> power_state" where
  "set_DC_status gpio_num p = p"

definition get_DC_status :: "power_state \<Rightarrow> bool" where
  "get_DC_status p = is_DC_on p"

definition set_DC_on_delayed_status :: "power_state \<Rightarrow> power_state" where
  "set_DC_on_delayed_status p = p\<lparr>is_DC_on_delayed := is_DC_on p\<rparr>"

definition set_DC_on_delayed_status_with_value :: "bool \<Rightarrow> power_state \<Rightarrow> power_state" where
  "set_DC_on_delayed_status_with_value status p = p\<lparr>is_DC_on_delayed := status\<rparr>"

definition get_DC_on_delayed_status :: "power_state \<Rightarrow> bool" where
  "get_DC_on_delayed_status p = is_DC_on_delayed p"

definition set_DC_off_delayed_status :: "power_state \<Rightarrow> power_state" where
  "set_DC_off_delayed_status p = p\<lparr>is_DC_off_delayed := \<not> is_DC_on p\<rparr>"

definition get_DC_off_delayed_status :: "power_state \<Rightarrow> bool" where
  "get_DC_off_delayed_status p = is_DC_off_delayed p"

definition set_post_status :: "u8 \<Rightarrow> power_state \<Rightarrow> power_state" where
  "set_post_status gpio_num p = p"

definition set_post_complete :: "bool \<Rightarrow> power_state \<Rightarrow> power_state" where
  "set_post_complete status p = p\<lparr>is_post_complete := status\<rparr>"

definition get_post_status :: "power_state \<Rightarrow> bool" where
  "get_post_status p = is_post_complete p"

definition set_CPU_power_status :: "u8 \<Rightarrow> power_state \<Rightarrow> power_state" where
  "set_CPU_power_status gpio_num p = p"

definition CPU_power_good :: "power_state \<Rightarrow> bool" where
  "CPU_power_good p = is_CPU_power_good p"

definition set_post_thread :: "power_state \<Rightarrow> power_state" where
  "set_post_thread p = p"

definition set_vr_monitor_status :: "bool \<Rightarrow> power_state \<Rightarrow> power_state" where
  "set_vr_monitor_status value p = p\<lparr>vr_monitor_status := value\<rparr>"

definition get_vr_monitor_status :: "power_state \<Rightarrow> bool" where
  "get_vr_monitor_status p = vr_monitor_status p"

definition set_P3V3_E1S_power_status :: "u8 \<Rightarrow> power_state \<Rightarrow> power_state" where
  "set_P3V3_E1S_power_status gpio_num p = p"

definition P3V3_E1S_power_good :: "power_state \<Rightarrow> bool" where
  "P3V3_E1S_power_good p = is_P3V3_E1S_power_good p"

definition set_P12V_E1S_power_status :: "u8 \<Rightarrow> power_state \<Rightarrow> power_state" where
  "set_P12V_E1S_power_status gpio_num p = p"

definition P12V_E1S_power_good :: "power_state \<Rightarrow> bool" where
  "P12V_E1S_power_good p = is_P12V_E1S_power_good p"

section \<open>Reachable states\<close>

text \<open>The file's interface as a step relation: one step is one call of a setter.\<close>

inductive power_step :: "power_state \<Rightarrow> power_state \<Rightarrow> bool" where
  "power_step p (set_DC_status g p)"
| "power_step p (set_DC_on_delayed_status p)"
| "power_step p (set_DC_on_delayed_status_with_value v p)"
| "power_step p (set_DC_off_delayed_status p)"
| "power_step p (set_post_status g p)"
| "power_step p (set_post_complete v p)"
| "power_step p (set_CPU_power_status g p)"
| "power_step p (set_post_thread p)"
| "power_step p (set_vr_monitor_status v p)"
| "power_step p (set_P3V3_E1S_power_status g p)"
| "power_step p (set_P12V_E1S_power_status g p)"

lemmas power_setter_defs =
  set_DC_status_def set_DC_on_delayed_status_def set_DC_on_delayed_status_with_value_def
  set_DC_off_delayed_status_def set_post_status_def set_post_complete_def set_CPU_power_status_def
  set_post_thread_def set_vr_monitor_status_def set_P3V3_E1S_power_status_def
  set_P12V_E1S_power_status_def

lemma power_step_DC: "power_step p q \<Longrightarrow> is_DC_on q = is_DC_on p"
  by (induction rule: power_step.induct) (simp_all add: power_setter_defs)

lemma power_reachable_DC: "power_step\<^sup>*\<^sup>* p q \<Longrightarrow> is_DC_on q = is_DC_on p"
  by (induction rule: rtranclp_induct) (simp_all add: power_step_DC)

end
