(* ===== verification/App_Handler.thy ===== *)
theory App_Handler
  imports Ipmi_Types Power_Status
begin

text \<open>
  The command handlers of \<open>samples/ipmi_openbic/src/ipmi/app_handler.c\<close> and
  \<open>ipmi/chassis_handler.c\<close>. A handler works on the message in place: it reads the request from
  \<open>data\<close> and leaves the response there, with its length and the completion code. The writes of
  these handlers are at constant indices below 527, inside the data array. The state of the
  application handlers is the variable \<open>BMC_GLOBAL_ENABLES\<close>.
\<close>

section \<open>Version constants (plat_version.h, version.h)\<close>

definition GET_FW_VERSION1 :: "u8 \<Rightarrow> u8 \<Rightarrow> u8" where
  "GET_FW_VERSION1 board_id stage = (board_id AND 0x0F) OR push_bit 4 stage"

abbreviation (input) BOARD_ID :: u8 where "BOARD_ID \<equiv> 0x01"
abbreviation (input) MP :: u8 where "MP \<equiv> 0x04"
abbreviation (input) PROJECT_STAGE :: u8 where "PROJECT_STAGE \<equiv> MP"
abbreviation (input) DEVICE_ID :: u8 where "DEVICE_ID \<equiv> 0x00"
abbreviation (input) DEVICE_REVISION :: u8 where "DEVICE_REVISION \<equiv> 0x80"
abbreviation (input) FIRMWARE_REVISION_1 :: u8 where "FIRMWARE_REVISION_1 \<equiv> GET_FW_VERSION1 BOARD_ID PROJECT_STAGE"
abbreviation (input) FIRMWARE_REVISION_2 :: u8 where "FIRMWARE_REVISION_2 \<equiv> 0x08"
abbreviation (input) IPMI_VERSION :: u8 where "IPMI_VERSION \<equiv> 0x02"
abbreviation (input) ADDITIONAL_DEVICE_SUPPORT :: u8 where "ADDITIONAL_DEVICE_SUPPORT \<equiv> 0xBF"
abbreviation (input) PRODUCT_ID :: u32 where "PRODUCT_ID \<equiv> 0x0000"
abbreviation (input) AUXILIARY_FW_REVISION :: u32 where "AUXILIARY_FW_REVISION \<equiv> 0x00000000"

section \<open>Application commands\<close>

definition APP_GET_DEVICE_ID :: "ipmi_msg \<Rightarrow> ipmi_msg" where
  "APP_GET_DEVICE_ID msg =
     (if data_len msg \<noteq> 0 then msg\<lparr>completion_code := CC_INVALID_LENGTH\<rparr>
      else msg\<lparr>data := blit (data msg) 0
        [DEVICE_ID, DEVICE_REVISION, FIRMWARE_REVISION_1, FIRMWARE_REVISION_2, IPMI_VERSION,
         ADDITIONAL_DEVICE_SUPPORT, ucast (IANA_ID AND 0xFF), ucast (drop_bit 8 IANA_ID AND 0xFF),
         ucast (drop_bit 16 IANA_ID AND 0xFF), ucast (PRODUCT_ID AND 0xFF),
         ucast (drop_bit 8 PRODUCT_ID AND 0xFF), ucast (drop_bit 24 AUXILIARY_FW_REVISION AND 0xFF),
         ucast (drop_bit 16 AUXILIARY_FW_REVISION AND 0xFF),
         ucast (drop_bit 8 AUXILIARY_FW_REVISION AND 0xFF), ucast (AUXILIARY_FW_REVISION AND 0xFF)],
        data_len := 15, completion_code := CC_SUCCESS\<rparr>)"

definition APP_COLD_RESET :: "ipmi_msg \<Rightarrow> ipmi_msg" where
  "APP_COLD_RESET msg =
     (if data_len msg \<noteq> 0 then msg\<lparr>completion_code := CC_INVALID_LENGTH\<rparr>
      else msg\<lparr>completion_code := CC_SUCCESS\<rparr>)"

definition APP_WARM_RESET :: "ipmi_msg \<Rightarrow> ipmi_msg" where
  "APP_WARM_RESET msg =
     (if data_len msg \<noteq> 0 then msg\<lparr>completion_code := CC_INVALID_LENGTH\<rparr>
      else msg\<lparr>completion_code := CC_SUCCESS\<rparr>)"

definition APP_SET_BMC_GLOBAL_ENABLES :: "u8 \<Rightarrow> ipmi_msg \<Rightarrow> u8 \<times> ipmi_msg" where
  "APP_SET_BMC_GLOBAL_ENABLES BMC_GLOBAL_ENABLES msg =
     (data msg ! 0, msg\<lparr>data_len := 0, completion_code := CC_SUCCESS\<rparr>)"

definition APP_GET_BMC_GLOBAL_ENABLES :: "u8 \<Rightarrow> ipmi_msg \<Rightarrow> ipmi_msg" where
  "APP_GET_BMC_GLOBAL_ENABLES BMC_GLOBAL_ENABLES msg =
     msg\<lparr>data := blit (data msg) 0 [BMC_GLOBAL_ENABLES], data_len := 1, completion_code := CC_SUCCESS\<rparr>"

definition APP_SET_ACPI_POWER :: "ipmi_msg \<Rightarrow> ipmi_msg" where
  "APP_SET_ACPI_POWER msg = msg\<lparr>data_len := 0, completion_code := CC_INVALID_CMD\<rparr>"

definition APP_GET_DEVICE_GUID :: "ipmi_msg \<Rightarrow> ipmi_msg" where
  "APP_GET_DEVICE_GUID msg = msg\<lparr>data_len := 0, completion_code := CC_INVALID_CMD\<rparr>"

definition APP_CLEAR_MESSAGE_FLAGS :: "ipmi_msg \<Rightarrow> ipmi_msg" where
  "APP_CLEAR_MESSAGE_FLAGS msg = msg\<lparr>data_len := 0, completion_code := CC_INVALID_CMD\<rparr>"

definition APP_GET_CAHNNEL_INFO :: "ipmi_msg \<Rightarrow> ipmi_msg" where
  "APP_GET_CAHNNEL_INFO msg = msg\<lparr>data_len := 0, completion_code := CC_INVALID_CMD\<rparr>"

definition IPMI_APP_handler :: "u8 \<Rightarrow> ipmi_msg \<Rightarrow> u8 \<times> ipmi_msg" where
  "IPMI_APP_handler g msg =
     (if cmd msg = CMD_APP_GET_DEVICE_ID then (g, APP_GET_DEVICE_ID msg)
      else if cmd msg = CMD_APP_COLD_RESET then (g, APP_COLD_RESET msg)
      else if cmd msg = CMD_APP_WARM_RESET then (g, APP_WARM_RESET msg)
      else if cmd msg = CMD_APP_SET_BMC_GLOBAL_ENABLES then APP_SET_BMC_GLOBAL_ENABLES g msg
      else if cmd msg = CMD_APP_GET_BMC_GLOBAL_ENABLES then (g, APP_GET_BMC_GLOBAL_ENABLES g msg)
      else if cmd msg = CMD_APP_SET_ACPI_POWER then (g, APP_SET_ACPI_POWER msg)
      else if cmd msg = CMD_APP_GET_DEVICE_GUID then (g, APP_GET_DEVICE_GUID msg)
      else if cmd msg = CMD_APP_CLEAR_MESSAGE_FLAGS then (g, APP_CLEAR_MESSAGE_FLAGS msg)
      else if cmd msg = CMD_APP_GET_CAHNNEL_INFO then (g, APP_GET_CAHNNEL_INFO msg)
      else (g, msg\<lparr>data_len := 0, completion_code := CC_INVALID_CMD\<rparr>))"

section \<open>Chassis commands\<close>

text \<open>The bit fields of \<open>CURRENT_POWER_STATE\<close>, allocated from the least significant bit on, and
  the four bytes of \<open>CHASSIS_STATUS\<close>.\<close>

record CURRENT_POWER_STATE =
  pwOn :: bool
  pwOverload :: bool
  interlock :: bool
  pwFault :: bool
  pwControlFault :: bool
  pwRestorePolicy :: u8

definition power_state_byte :: "CURRENT_POWER_STATE \<Rightarrow> u8" where
  "power_state_byte c =
     of_bool (pwOn c) OR push_bit 1 (of_bool (pwOverload c)) OR push_bit 2 (of_bool (interlock c)) OR
     push_bit 3 (of_bool (pwFault c)) OR push_bit 4 (of_bool (pwControlFault c)) OR
     push_bit 5 (pwRestorePolicy c AND 3)"

definition CHASSIS_STATUS :: "CURRENT_POWER_STATE \<Rightarrow> u8 list" where
  "CHASSIS_STATUS currPwState = [power_state_byte currPwState, 0, 0, 0]"

definition CHASSIS_GET_CHASSIS_STATUS :: "power_state \<Rightarrow> ipmi_msg \<Rightarrow> ipmi_msg" where
  "CHASSIS_GET_CHASSIS_STATUS p msg =
     (if data_len msg \<noteq> 0 then msg\<lparr>completion_code := CC_INVALID_LENGTH\<rparr>
      else
        let chassis_status = CHASSIS_STATUS \<lparr>pwOn = get_DC_status p, pwOverload = False,
              interlock = False, pwFault = get_DC_status p, pwControlFault = False,
              pwRestorePolicy = 0x2\<rparr> in
        msg\<lparr>data := blit (data msg) 0 chassis_status,
            data_len := of_nat (length chassis_status), completion_code := CC_SUCCESS\<rparr>)"

definition IPMI_CHASSIS_handler :: "power_state \<Rightarrow> ipmi_msg \<Rightarrow> ipmi_msg" where
  "IPMI_CHASSIS_handler p msg =
     (if cmd msg = CMD_CHASSIS_GET_CHASSIS_STATUS then CHASSIS_GET_CHASSIS_STATUS p msg
      else msg\<lparr>data_len := 0, completion_code := CC_INVALID_CMD\<rparr>)"

section \<open>The contract of a command handler\<close>

text \<open>The dispatcher relies on this of every handler: the data array keeps its size, the fields
  by which the answer is routed and matched stay as they were, and a successful answer is not
  longer than \<open>bound\<close>.\<close>

definition same_route :: "ipmi_msg \<Rightarrow> ipmi_msg \<Rightarrow> bool" where
  "same_route m m' \<longleftrightarrow> netfn m' = netfn m \<and> cmd m' = cmd m \<and> seq m' = seq m \<and>
     seq_source m' = seq_source m \<and> seq_target m' = seq_target m \<and> InF_source m' = InF_source m \<and>
     InF_target m' = InF_target m \<and> src_LUN m' = src_LUN m \<and> dest_LUN m' = dest_LUN m \<and>
     pldm_inst_id m' = pldm_inst_id m"

lemma same_route_refl [simp, intro]: "same_route m m"
  by (simp add: same_route_def)

lemma same_route_trans: "same_route a b \<Longrightarrow> same_route b c \<Longrightarrow> same_route a c"
  by (simp add: same_route_def)

locale command_handler =
  fixes run :: "'st \<Rightarrow> ipmi_msg \<Rightarrow> 'st \<times> ipmi_msg"
    and bound :: nat
  assumes handler_wf: "wf_msg m \<Longrightarrow> wf_msg (snd (run st m))"
    and handler_route: "same_route m (snd (run st m))"
    and handler_bound: "wf_msg m \<Longrightarrow> completion_code (snd (run st m)) = CC_SUCCESS \<Longrightarrow>
      unat (data_len (snd (run st m))) \<le> bound"
begin

text \<open>The response bytes after the dispatcher drops the data of a failed command.\<close>

definition answer :: "'st \<Rightarrow> ipmi_msg \<Rightarrow> u8 list" where
  "answer st m = (let r = snd (run st m) in
     [push_bit 2 (netfn r + 1), cmd r, completion_code r] @
     (if completion_code r = CC_SUCCESS then msg_bytes r else []))"

lemma answer_length: "wf_msg m \<Longrightarrow> length (answer st m) \<le> bound + 3"
  using handler_bound [of m st] handler_wf [of m st]
  by (auto simp: answer_def Let_def msg_bytes_def)

lemma answer_header: "take 2 (answer st m) = [push_bit 2 (netfn m + 1), cmd m]"
  using handler_route [of m st] by (simp add: answer_def Let_def same_route_def)

lemma answer_error: "completion_code (snd (run st m)) = c \<Longrightarrow> c \<noteq> CC_SUCCESS \<Longrightarrow>
    answer st m = [push_bit 2 (netfn m + 1), cmd m, c]"
  using handler_route [of m st] by (simp add: answer_def Let_def same_route_def)

end

text \<open>Handlers that depend on services outside the repository: the same contract, for the states in
  which those services behave (\<open>ok\<close>), with the promise that the handler does not run into
  undefined behaviour. A whole sequence of commands then runs through.\<close>

primrec run_all ::
    "('st \<Rightarrow> ipmi_msg \<Rightarrow> ('st \<times> ipmi_msg) option) \<Rightarrow> 'st \<Rightarrow> ipmi_msg list \<Rightarrow> ('st \<times> ipmi_msg list) option" where
  "run_all run st [] = Some (st, [])"
| "run_all run st (m # ms) = do {
     (st, r) \<leftarrow> run st m;
     (st, rs) \<leftarrow> run_all run st ms;
     Some (st, r # rs)
   }"

text \<open>The weakest contract: the handler runs on the messages that a guard admits. A message that is
  admitted stays admitted while other messages are handled.\<close>

locale guarded_handler =
  fixes run :: "'st \<Rightarrow> ipmi_msg \<Rightarrow> ('st \<times> ipmi_msg) option"
    and ok :: "'st \<Rightarrow> bool"
    and guard :: "'st \<Rightarrow> ipmi_msg \<Rightarrow> bool"
    and bound :: nat
  assumes guarded_runs: "ok st \<Longrightarrow> guard st m \<Longrightarrow>
    \<exists>st' m'. run st m = Some (st', m') \<and> ok st' \<and> wf_msg m' \<and> same_route m m' \<and>
      (completion_code m' = CC_SUCCESS \<longrightarrow> unat (data_len m') \<le> bound) \<and> (\<forall>q. guard st q \<longrightarrow> guard st' q)"
begin

lemma handler_sequence:
  assumes "ok st" and "\<forall>m \<in> set ms. guard st m"
  shows "\<exists>st' rs. run_all run st ms = Some (st', rs) \<and> ok st' \<and> list_all2 same_route ms rs \<and>
    (\<forall>r \<in> set rs. wf_msg r \<and> (completion_code r = CC_SUCCESS \<longrightarrow> unat (data_len r) \<le> bound))"
  using assms
proof (induction ms arbitrary: st)
  case Nil
  then show ?case by simp
next
  case (Cons m ms)
  obtain st1 r where r: "run st m = Some (st1, r)" "ok st1" "wf_msg r" "same_route m r"
    "completion_code r = CC_SUCCESS \<longrightarrow> unat (data_len r) \<le> bound" "\<forall>q. guard st q \<longrightarrow> guard st1 q"
    using guarded_runs [of st m] Cons.prems by auto
  obtain st' rs where "run_all run st1 ms = Some (st', rs)" "ok st'" "list_all2 same_route ms rs"
    "\<forall>r \<in> set rs. wf_msg r \<and> (completion_code r = CC_SUCCESS \<longrightarrow> unat (data_len r) \<le> bound)"
    using Cons.IH [OF r(2)] Cons.prems r(6) by auto
  with r show ?case by auto
qed

end

text \<open>A handler that runs on every well-formed message.\<close>

locale fallible_handler =
  fixes run :: "'st \<Rightarrow> ipmi_msg \<Rightarrow> ('st \<times> ipmi_msg) option"
    and ok :: "'st \<Rightarrow> bool"
    and bound :: nat
  assumes handler_runs: "ok st \<Longrightarrow> wf_msg m \<Longrightarrow>
    \<exists>st' m'. run st m = Some (st', m') \<and> ok st' \<and> wf_msg m' \<and> same_route m m' \<and>
      (completion_code m' = CC_SUCCESS \<longrightarrow> unat (data_len m') \<le> bound)"

sublocale fallible_handler \<subseteq> guarded_handler run ok "\<lambda>_. wf_msg" bound
  by unfold_locales (use handler_runs in blast)

sublocale command_handler \<subseteq> total: fallible_handler "\<lambda>st m. Some (run st m)" "\<lambda>_. True" bound
proof unfold_locales
  fix st m assume "wf_msg m"
  with handler_wf [of m st] handler_route [of m st] handler_bound [of m st]
  show "\<exists>st' m'. Some (run st m) = Some (st', m') \<and> True \<and> wf_msg m' \<and> same_route m m' \<and>
      (completion_code m' = CC_SUCCESS \<longrightarrow> unat (data_len m') \<le> bound)"
    by (intro exI [of _ "fst (run st m)"] exI [of _ "snd (run st m)"]) auto
qed

lemmas app_defs =
  APP_GET_DEVICE_ID_def APP_COLD_RESET_def APP_WARM_RESET_def APP_SET_BMC_GLOBAL_ENABLES_def
  APP_GET_BMC_GLOBAL_ENABLES_def APP_SET_ACPI_POWER_def APP_GET_DEVICE_GUID_def
  APP_CLEAR_MESSAGE_FLAGS_def APP_GET_CAHNNEL_INFO_def IPMI_APP_handler_def

lemmas chassis_defs =
  CHASSIS_STATUS_def CHASSIS_GET_CHASSIS_STATUS_def IPMI_CHASSIS_handler_def Let_def

interpretation app: command_handler IPMI_APP_handler 15
  by unfold_locales (auto simp: app_defs wf_msg_def same_route_def)

interpretation chassis: command_handler "\<lambda>p m. (p, IPMI_CHASSIS_handler p m)" 4
  by unfold_locales (auto simp: chassis_defs wf_msg_def same_route_def)

end
