(* ===== verification/Ipmb_Codec.thy ===== *)
theory Ipmb_Codec
  imports Ipmi_Types
begin

text \<open>
  The wire format of \<open>samples/ipmi_openbic/src/ipmb/ipmb.c\<close>: the two's complement checksums
  (\<open>calculate_checksum\<close>, \<open>validate_checksum\<close>) and \<open>ipmb_encode\<close> / \<open>ipmb_decode\<close>. Buffers
  are byte lists of the size the caller allocated, \<open>None\<close> a null pointer; the outer
  \<open>option\<close> of a result is \<open>None\<close> when the C code leaves the bounds of a buffer.
\<close>

section \<open>Definitions\<close>

text \<open>\<open>for (i = 1; i < rng; i++) checksum -= buffer[i];\<close>\<close>

function checksum_loop :: "u8 list \<Rightarrow> nat \<Rightarrow> nat \<Rightarrow> u8 \<Rightarrow> u8 option" where
  "checksum_loop buf i rng checksum =
     (if i < rng then do {
        b \<leftarrow> load buf i;
        checksum_loop buf (Suc i) rng (checksum - b)
      } else Some checksum)"
  by pat_completeness auto
termination
  by (relation "measure (\<lambda>(buf, i, rng, checksum). rng - i)") auto

declare checksum_loop.simps [simp del]

definition calculate_checksum :: "u8 list option \<Rightarrow> u8 \<Rightarrow> u8 option" where
  "calculate_checksum buf rng =
     (case buf of
        None \<Rightarrow> Some 0
      | Some b \<Rightarrow> do {
          b0 \<leftarrow> load b 0;
          checksum_loop b 1 (unat rng) (0 - push_bit 1 b0)
        })"

text \<open>With \<open>buffer_len = 0\<close> the code reads \<open>buffer[-1]\<close>.\<close>

definition validate_checksum :: "u8 list option \<Rightarrow> u8 \<Rightarrow> ipmb_error option" where
  "validate_checksum buf buffer_len =
     (case buf of
        None \<Rightarrow> Some IPMB_ERROR_UNKNOWN
      | Some b \<Rightarrow>
          if buffer_len = 0 then None
          else do {
            header_checksum \<leftarrow> load b 2;
            msg_checksum \<leftarrow> load b (unat buffer_len - 1);
            calc_header_checksum \<leftarrow> calculate_checksum buf (of_nat IPMI_HEADER_CHECKSUM_POSITION);
            calc_msg_checksum \<leftarrow> calculate_checksum buf (buffer_len - 1);
            Some (if header_checksum = calc_header_checksum then
                    if msg_checksum = calc_msg_checksum then IPMB_ERROR_SUCCESS
                    else IPMB_ERROR_HDR_CHECKSUM
                  else IPMB_ERROR_MSG_CHECKSUM)
          })"

text \<open>\<open>ipmb_encode\<close>: the index \<open>i\<close> is a \<open>uint8_t\<close>, so \<open>i += msg->data_len\<close> wraps. The copy
  of the payload to \<open>buffer[i]\<close> and the final checksum are one step of their own.\<close>

definition ipmb_encode_payload :: "u8 list \<Rightarrow> u8 \<Rightarrow> ipmi_msg \<Rightarrow> u8 list option" where
  "ipmb_encode_payload b i m = do {
     b \<leftarrow> memcpy b (unat i) (data m) 0 (unat (data_len m));
     c \<leftarrow> calculate_checksum (Some b) (i + ucast (data_len m));
     store b (unat (i + ucast (data_len m))) c
   }"

definition ipmb_encode ::
    "u8 list option \<Rightarrow> ipmi_msg option \<Rightarrow> (ipmb_error \<times> u8 list option) option" where
  "ipmb_encode buf msg =
     (case (buf, msg) of
        (None, _) \<Rightarrow> Some (IPMB_ERROR_UNKNOWN, buf)
      | (_, None) \<Rightarrow> Some (IPMB_ERROR_UNKNOWN, buf)
      | (Some b, Some m) \<Rightarrow> do {
          b \<leftarrow> store b 0 (dest_addr m);
          b \<leftarrow> store b 1 (push_bit 2 (netfn m) AND IPMB_NETFN_MASK OR dest_LUN m AND IPMB_DEST_LUN_MASK);
          c \<leftarrow> calculate_checksum (Some b) (of_nat IPMI_HEADER_CHECKSUM_POSITION);
          b \<leftarrow> store b 2 c;
          b \<leftarrow> store b 3 (src_addr m);
          b \<leftarrow> store b 4 (push_bit 2 (seq m) AND IPMB_SEQ_MASK OR src_LUN m AND IPMB_SRC_LUN_MASK);
          b \<leftarrow> store b 5 (cmd m);
          (b, i) \<leftarrow> (if IS_RESPONSE m then do {
                        b \<leftarrow> store b 6 (completion_code m); Some (b, 7 :: u8)
                      } else Some (b, 6));
          b \<leftarrow> ipmb_encode_payload b i m;
          Some (IPMB_ERROR_SUCCESS, Some b)
        })"

definition ipmb_decode ::
    "ipmi_msg option \<Rightarrow> u8 list option \<Rightarrow> u8 \<Rightarrow> (ipmb_error \<times> ipmi_msg option) option" where
  "ipmb_decode msg buf len =
     (case (buf, msg) of
        (None, _) \<Rightarrow> Some (IPMB_ERROR_UNKNOWN, msg)
      | (_, None) \<Rightarrow> Some (IPMB_ERROR_UNKNOWN, msg)
      | (Some b, Some m) \<Rightarrow> do {
          b0 \<leftarrow> load b 0; b1 \<leftarrow> load b 1; b2 \<leftarrow> load b 2; b3 \<leftarrow> load b 3; b4 \<leftarrow> load b 4; b5 \<leftarrow> load b 5;
          let m = m\<lparr>dest_addr := b0, netfn := drop_bit 2 b1, dest_LUN := b1 AND IPMB_DEST_LUN_MASK,
                    hdr_chksum := b2, src_addr := b3, seq := drop_bit 2 b4,
                    src_LUN := b4 AND IPMB_SRC_LUN_MASK, cmd := b5\<rparr>;
          (m, i) \<leftarrow> (if IS_RESPONSE m then do {
                        c \<leftarrow> load b 6; Some (m\<lparr>completion_code := c\<rparr>, 7 :: nat)
                      } else Some (m, 6));
          let n = (if unat len > i + 1 then unat len - i - 1 else 0);
          d \<leftarrow> memcpy (data m) 0 b i n;
          c \<leftarrow> (if len = 0 then None else load b (unat len - 1));
          Some (IPMB_ERROR_SUCCESS, Some (m\<lparr>data_len := of_nat n, data := d, msg_chksum := c\<rparr>))
        })"

section \<open>Checksums\<close>

lemma checksum_loop_sum:
  assumes "rng \<le> length buf" and "i \<le> rng"
  shows "checksum_loop buf i rng c = Some (c - sum_list (take (rng - i) (drop i buf)))"
  using assms
proof (induction buf i rng c rule: checksum_loop.induct)
  case (1 buf i rng c)
  show ?case
  proof (cases "i < rng")
    case True
    then have "drop i buf = buf ! i # drop (Suc i) buf"
      using 1(2) by (simp add: Cons_nth_drop_Suc)
    moreover have "rng - i = Suc (rng - Suc i)" using True by simp
    ultimately show ?thesis
      using True 1 by (simp add: checksum_loop.simps [of buf i] algebra_simps)
  next
    case False
    with 1(3) show ?thesis by (subst checksum_loop.simps) simp
  qed
qed

text \<open>The value the loop computes, as a function of the bytes it covers.\<close>

definition chk :: "u8 list \<Rightarrow> u8" where
  "chk bs = (case bs of [] \<Rightarrow> 0 | b # bs \<Rightarrow> - (2 * b + sum_list bs))"

lemma calculate_checksum_chk:
  assumes "1 \<le> unat rng" and "unat rng \<le> length b"
  shows "calculate_checksum (Some b) rng = Some (chk (take (unat rng) b))"
proof -
  obtain x xs where b: "b = x # xs" using assms by (cases b) auto
  obtain n where n: "unat rng = Suc n" using assms by (cases "unat rng") auto
  show ?thesis
    using assms
    by (simp add: calculate_checksum_def checksum_loop_sum b n chk_def push_bit_eq_mult algebra_simps)
qed

lemma chk_snoc: "bs \<noteq> [] \<Longrightarrow> chk (bs @ [chk bs]) = 0"
  by (cases bs) (simp_all add: chk_def)

lemma validate_checksum_frame:
  assumes "2 < unat len" and "unat len \<le> length b"
  shows "validate_checksum (Some b) len = Some (
    if b ! 2 = chk (take 2 b) then
      if b ! (unat len - 1) = chk (take (unat len - 1) b) then IPMB_ERROR_SUCCESS
      else IPMB_ERROR_HDR_CHECKSUM
    else IPMB_ERROR_MSG_CHECKSUM)"
proof -
  have len: "unat (len - 1) = unat len - 1"
    using assms(1) by (intro unat_minus_one) auto
  have "calculate_checksum (Some b) (len - 1) = Some (chk (take (unat len - 1) b))"
    using assms calculate_checksum_chk [of "len - 1" b] by (simp add: len)
  moreover have "calculate_checksum (Some b) 2 = Some (chk (take 2 b))"
    using assms calculate_checksum_chk [of 2 b] by simp
  ultimately show ?thesis
    using assms by (auto simp: validate_checksum_def)
qed

section \<open>The frame a message is encoded to\<close>

definition frame_header :: "ipmi_msg \<Rightarrow> u8 list" where
  "frame_header m =
     (let h = [dest_addr m, push_bit 2 (netfn m) AND 0xFC OR dest_LUN m AND 3]
      in h @ [chk h, src_addr m, push_bit 2 (seq m) AND 0xFC OR src_LUN m AND 3, cmd m]
           @ (if IS_RESPONSE m then [completion_code m] else []))"

definition ipmb_frame :: "ipmi_msg \<Rightarrow> u8 list" where
  "ipmb_frame m = (let body = frame_header m @ msg_bytes m in body @ [chk body])"

lemma length_frame_header: "length (frame_header m) = (if IS_RESPONSE m then 7 else 6)"
  by (simp add: frame_header_def Let_def)

lemma length_msg_bytes: "wf_msg m \<Longrightarrow> unat (data_len m) \<le> IPMI_MSG_MAX_LENGTH \<Longrightarrow>
    length (msg_bytes m) = unat (data_len m)"
  by (simp add: msg_bytes_def)

lemma length_ipmb_frame: "wf_msg m \<Longrightarrow> unat (data_len m) \<le> IPMI_MSG_MAX_LENGTH \<Longrightarrow>
    length (ipmb_frame m) = (if IS_RESPONSE m then 8 else 7) + unat (data_len m)"
  by (simp add: ipmb_frame_def Let_def length_frame_header length_msg_bytes)

lemma unat_data_len_u8:
  assumes "unat (i :: u8) + unat (l :: u16) < 256"
  shows "unat (i + ucast l) = unat i + unat l"
proof -
  have "unat (ucast l :: u8) = unat l"
    using assms by (simp add: unsigned_ucast_eq take_bit_nat_eq_self)
  with assms show ?thesis by (simp add: unat_word_ariths)
qed

lemma ex_first_seven:
  "7 \<le> length b \<Longrightarrow> \<exists>x0 x1 x2 x3 x4 x5 x6 r. b = x0 # x1 # x2 # x3 # x4 # x5 # x6 # r"
  by (auto simp: Suc_le_length_iff eval_nat_numeral)

lemma checksum_two: "calculate_checksum (Some (x # y # zs)) 2 = Some (chk [x, y])"
  using calculate_checksum_chk [of 2 "x # y # zs"] by simp

text \<open>Appending the payload and its checksum to a header that ends at index \<open>i\<close>.\<close>

lemma ipmb_encode_payload_append:
  assumes m: "wf_msg m" and h: "length h = unat i" "1 \<le> unat i"
    and fit: "unat i + unat (data_len m) < 256" "unat (data_len m) < length r"
  shows "ipmb_encode_payload (h @ r) i m =
    Some (h @ msg_bytes m @ [chk (h @ msg_bytes m)] @ drop (Suc (unat (data_len m))) r)"
proof -
  let ?l = "unat (data_len m)"
  let ?n = "unat i + ?l"
  let ?b = "h @ msg_bytes m @ drop ?l r"
  have d: "?l \<le> length (data m)" using m fit(1) by simp
  have lb: "length (msg_bytes m) = ?l" using d by (simp add: msg_bytes_def)
  have u: "unat (i + ucast (data_len m)) = ?n" using fit(1) by (rule unat_data_len_u8)
  have b: "memcpy (h @ r) (unat i) (data m) 0 ?l = Some ?b"
    using h d fit by (simp add: blit_def min_def msg_bytes_def)
  have c: "calculate_checksum (Some ?b) (i + ucast (data_len m)) = Some (chk (h @ msg_bytes m))"
    using h fit calculate_checksum_chk [of "i + ucast (data_len m)" ?b] by (simp add: u lb)
  obtain y ys where y: "drop ?l r = y # ys"
    using fit(2) by (cases "drop ?l r") auto
  have ys: "drop (Suc ?l) r = ys"
    using y by (metis drop_Suc_Cons drop0 drop_drop plus_1_eq_Suc)
  show ?thesis
    unfolding ipmb_encode_payload_def b c bind.bind_lunit u
    using h by (simp add: store_def y ys lb list_update_append)
qed

lemma ipmb_encode_frame:
  assumes m: "wf_msg m" and len: "length b = IPMI_MSG_MAX_LENGTH + IPMB_RESP_HEADER_LENGTH"
    and fit: "length (frame_header m) + unat (data_len m) < 256"
  shows "ipmb_encode (Some b) (Some m) =
    Some (IPMB_ERROR_SUCCESS, Some (ipmb_frame m @ drop (length (ipmb_frame m)) b))"
proof -
  have dl: "unat (data_len m) \<le> IPMI_MSG_MAX_LENGTH" using fit by simp
  obtain x0 x1 x2 x3 x4 x5 x6 r where b: "b = x0 # x1 # x2 # x3 # x4 # x5 # x6 # r"
    using ex_first_seven [of b] len by auto
  define h1 where "h1 = push_bit 2 (netfn m) AND 0xFC OR dest_LUN m AND 3"
  define h4 where "h4 = push_bit 2 (seq m) AND 0xFC OR src_LUN m AND 3"
  let ?h = "[dest_addr m, h1, chk [dest_addr m, h1], src_addr m, h4, cmd m]"
  have pay: "ipmb_encode_payload (frame_header m @ r') i m =
      Some (frame_header m @ msg_bytes m @ [chk (frame_header m @ msg_bytes m)]
        @ drop (Suc (unat (data_len m))) r')"
    if "unat i = length (frame_header m)" "unat (data_len m) < length r'" for i r'
    using that m fit by (intro ipmb_encode_payload_append) (auto simp: length_frame_header)
  have fl: "length (ipmb_frame m) = Suc (length (frame_header m) + unat (data_len m))"
    using m dl by (simp add: length_ipmb_frame length_frame_header)
  show ?thesis
  proof (cases "IS_RESPONSE m")
    case True
    then have hd: "frame_header m = ?h @ [completion_code m]"
      by (simp add: frame_header_def h1_def h4_def)
    have "ipmb_encode (Some b) (Some m) =
        ipmb_encode_payload (frame_header m @ r) 7 m \<bind> (\<lambda>b. Some (IPMB_ERROR_SUCCESS, Some b))"
      using True by (simp add: ipmb_encode_def b checksum_two hd store_def h1_def h4_def)
    also have "\<dots> = Some (IPMB_ERROR_SUCCESS, Some (ipmb_frame m @ drop (length (ipmb_frame m)) b))"
      using len b fit hd by (subst pay) (auto simp: ipmb_frame_def Let_def fl length_msg_bytes [OF m dl])
    finally show ?thesis .
  next
    case False
    then have hd: "frame_header m = ?h"
      by (simp add: frame_header_def h1_def h4_def)
    have "ipmb_encode (Some b) (Some m) =
        ipmb_encode_payload (frame_header m @ x6 # r) 6 m \<bind> (\<lambda>b. Some (IPMB_ERROR_SUCCESS, Some b))"
      using False by (simp add: ipmb_encode_def b checksum_two hd store_def h1_def h4_def)
    also have "\<dots> = Some (IPMB_ERROR_SUCCESS, Some (ipmb_frame m @ drop (length (ipmb_frame m)) b))"
      using len b fit hd by (subst pay) (auto simp: ipmb_frame_def Let_def fl length_msg_bytes [OF m dl])
    finally show ?thesis .
  qed
qed

section \<open>Decoding a frame\<close>

lemma masks: "(0xFC :: u8) = push_bit 2 (mask 6)" "(3 :: u8) = mask 2"
  by (simp_all add: mask_eq_exp_minus_1 push_bit_eq_mult)

lemma bit_less_exp:
  assumes "unat (x :: u8) < 2 ^ n" and "bit x k"
  shows "k < n"
proof (rule ccontr)
  assume "\<not> k < n"
  moreover have "take_bit n (unat x) = unat x" using assms(1) by (rule take_bit_nat_eq_self)
  moreover have "bit (unat x) k" using assms(2) by (simp add: bit_unsigned_iff)
  ultimately show False by (metis bit_take_bit_iff)
qed

text \<open>A six-bit field above a two-bit field: both are recovered from the byte.\<close>

lemma unpack_high: "unat x < 64 \<Longrightarrow> drop_bit 2 (push_bit 2 x AND 0xFC OR y AND 3) = (x :: u8)"
  unfolding masks by (rule bit_word_eqI) (auto simp: bit_simps dest: bit_less_exp [of x 6, simplified])

lemma unpack_low: "(push_bit 2 x AND 0xFC OR y AND 3) AND 3 = y AND (3 :: u8)"
  unfolding masks by (rule bit_word_eqI) (auto simp: bit_simps)

lemma and_3_eq: "unat (x :: u8) < 4 \<Longrightarrow> x AND 3 = x"
  unfolding masks by (rule bit_word_eqI) (auto simp: bit_simps dest: bit_less_exp [of x 2, simplified])

lemma unpack_low_eq: "unat y < 4 \<Longrightarrow> (push_bit 2 x AND 0xFC OR y AND 3) AND 3 = (y :: u8)"
  by (rule trans [OF unpack_low and_3_eq])

text \<open>A message whose fields fit the wire format and whose frame length fits the \<open>uint8_t\<close>
  length that the receiver works with.\<close>

definition wire_msg :: "ipmi_msg \<Rightarrow> bool" where
  "wire_msg m \<longleftrightarrow> wf_msg m \<and> unat (netfn m) < 64 \<and> unat (seq m) < 64 \<and>
     unat (dest_LUN m) < 4 \<and> unat (src_LUN m) < 4 \<and>
     length (frame_header m) + unat (data_len m) < 255"

lemma frame_header_nth:
  assumes "i < length (frame_header m)"
  shows "ipmb_frame m ! i = frame_header m ! i"
  using assms by (simp add: ipmb_frame_def Let_def nth_append)

lemma frame_length_u8:
  assumes "wire_msg m"
  shows "unat (of_nat (length (ipmb_frame m)) :: u8) = length (ipmb_frame m)"
proof (rule unat_of_nat_u8)
  show "length (ipmb_frame m) < 256"
    using assms by (auto simp: wire_msg_def length_ipmb_frame length_frame_header split: if_splits)
qed

lemma ipmb_decode_frame:
  assumes m: "wire_msg m" and m0: "wf_msg m0"
  shows "ipmb_decode (Some m0) (Some (ipmb_frame m @ rest)) (of_nat (length (ipmb_frame m))) =
    Some (IPMB_ERROR_SUCCESS, Some (m0\<lparr>dest_addr := dest_addr m, netfn := netfn m,
      dest_LUN := dest_LUN m, hdr_chksum := frame_header m ! 2, src_addr := src_addr m,
      seq := seq m, src_LUN := src_LUN m, cmd := cmd m,
      completion_code := (if IS_RESPONSE m then completion_code m else completion_code m0),
      data_len := data_len m, data := blit (data m0) 0 (msg_bytes m),
      msg_chksum := chk (frame_header m @ msg_bytes m)\<rparr>))"
proof -
  have wf: "wf_msg m" and dl: "unat (data_len m) \<le> IPMI_MSG_MAX_LENGTH"
    using m by (auto simp: wire_msg_def)
  note lf = length_ipmb_frame [OF wf dl]
  define h1 where "h1 = push_bit 2 (netfn m) AND 0xFC OR dest_LUN m AND 3"
  define h4 where "h4 = push_bit 2 (seq m) AND 0xFC OR src_LUN m AND 3"
  define hc where "hc = frame_header m ! 2"
  have hd: "frame_header m = [dest_addr m, h1, hc, src_addr m, h4, cmd m]
      @ (if IS_RESPONSE m then [completion_code m] else [])"
    by (simp add: frame_header_def Let_def h1_def h4_def hc_def)
  define q where "q = msg_bytes m @ [chk (frame_header m @ msg_bytes m)] @ rest"
  have fr: "ipmb_frame m @ rest = frame_header m @ q"
    by (simp add: ipmb_frame_def Let_def q_def)
  have lq: "length (msg_bytes m) = unat (data_len m)" by (rule length_msg_bytes [OF wf dl])
  have fields: "drop_bit 2 h1 = netfn m" "h1 AND 3 = dest_LUN m"
    "drop_bit 2 h4 = seq m" "h4 AND 3 = src_LUN m"
    using m unfolding wire_msg_def h1_def h4_def by (blast intro: unpack_high unpack_low_eq)+
  define L where "L = (of_nat (length (ipmb_frame m)) :: u8)"
  have L: "unat L = length (frame_header m) + Suc (unat (data_len m))"
    using frame_length_u8 [OF m] lf by (simp add: L_def length_frame_header)
  then have nz: "L \<noteq> 0" by auto
  have last: "load (frame_header m @ q) (length (frame_header m) + unat (data_len m)) =
      Some (chk (frame_header m @ msg_bytes m))"
    by (simp add: q_def lq load_def nth_append)
  have isr: "IS_RESPONSE (m0\<lparr>dest_addr := a, netfn := netfn m, dest_LUN := b, hdr_chksum := c,
      src_addr := d, seq := e, src_LUN := f, cmd := g\<rparr>) = IS_RESPONSE m" for a b c d e f g
    by (simp add: IS_RESPONSE_def)
  have cp: "memcpy (data m0) 0 (frame_header m @ q) (length (frame_header m)) (unat (data_len m))
      = Some (blit (data m0) 0 (msg_bytes m))"
    using m0 dl lq by (simp add: q_def)
  have n: "(if unat L > length (frame_header m) + 1 then unat L - length (frame_header m) - 1 else 0)
      = unat (data_len m)"
    using L by simp
  have hdr: "load (frame_header m @ q) 0 = Some (dest_addr m)" "load (frame_header m @ q) (Suc 0) = Some h1"
    "load (frame_header m @ q) 2 = Some hc" "load (frame_header m @ q) 3 = Some (src_addr m)"
    "load (frame_header m @ q) 4 = Some h4" "load (frame_header m @ q) 5 = Some (cmd m)"
    "IS_RESPONSE m \<Longrightarrow> load (frame_header m @ q) 6 = Some (completion_code m)"
    by (simp_all add: hd load_def)
  show ?thesis
  proof (cases "IS_RESPONSE m")
    case True
    then have h7: "length (frame_header m) = 7" by (simp add: length_frame_header)
    show ?thesis
      unfolding ipmb_decode_def fr L_def [symmetric] hc_def [symmetric]
      using nz last cp n L True
      by (cases "data_len m = 0") (simp_all add: unat_0_iff hdr fields isr h7 Let_def del: memcpy_Some load_Some load_None)
  next
    case False
    then have h6: "length (frame_header m) = 6" by (simp add: length_frame_header)
    show ?thesis
      unfolding ipmb_decode_def fr L_def [symmetric] hc_def [symmetric]
      using nz last cp n L False
      by (cases "data_len m = 0") (simp_all add: unat_0_iff hdr fields isr h6 Let_def del: memcpy_Some load_Some load_None)
  qed
qed

lemma validate_checksum_own_frame:
  assumes "wire_msg m"
  shows "validate_checksum (Some (ipmb_frame m @ rest)) (of_nat (length (ipmb_frame m))) =
    Some IPMB_ERROR_SUCCESS"
proof -
  have wf: "wf_msg m" and dl: "unat (data_len m) \<le> IPMI_MSG_MAX_LENGTH"
    using assms by (auto simp: wire_msg_def)
  have h: "take 2 (frame_header m) = [dest_addr m, push_bit 2 (netfn m) AND 0xFC OR dest_LUN m AND 3]"
    "frame_header m ! 2 = chk (take 2 (frame_header m))"
    by (simp_all add: frame_header_def Let_def)
  have l: "2 < length (frame_header m)" by (simp add: length_frame_header)
  have body: "take (length (ipmb_frame m) - 1) (ipmb_frame m @ rest) = frame_header m @ msg_bytes m"
    "(ipmb_frame m @ rest) ! (length (ipmb_frame m) - 1) = chk (frame_header m @ msg_bytes m)"
    by (simp_all add: ipmb_frame_def Let_def nth_append)
  have two: "take 2 (ipmb_frame m @ rest) = take 2 (frame_header m)"
    "(ipmb_frame m @ rest) ! 2 = frame_header m ! 2"
    using l by (simp_all add: ipmb_frame_def Let_def nth_append)
  have len: "2 < length (ipmb_frame m)" by (simp add: length_ipmb_frame [OF wf dl])
  show ?thesis
    using validate_checksum_frame [of "of_nat (length (ipmb_frame m))" "ipmb_frame m @ rest"]
      len h body two by (simp add: frame_length_u8 [OF assms])
qed

section \<open>Properties\<close>

text \<open>(\<open>calculate_checksum\<close>): over a range inside the buffer the routine returns the value
  that makes the bytes, the first one doubled (the 7-bit address in its 8-bit form), sum to
  zero modulo 256.\<close>

theorem calculate_checksum_zero_sum:
  assumes "1 \<le> unat rng" and "unat rng \<le> length b"
  shows "\<exists>c. calculate_checksum (Some b) rng = Some c \<and>
    2 * b ! 0 + sum_list (take (unat rng - 1) (drop 1 b)) + c = 0"
proof -
  obtain x xs where b: "b = x # xs" using assms by (cases b) auto
  obtain n where n: "unat rng = Suc n" using assms by (cases "unat rng") auto
  show ?thesis
    using assms by (simp add: calculate_checksum_chk b n chk_def)
qed

theorem calculate_checksum_zero_sum_witness:
  "\<exists>c. calculate_checksum (Some [0x20, 0x18, 0xC8]) 2 = Some c \<and>
    2 * [0x20, 0x18, 0xC8 :: u8] ! 0 + sum_list (take (unat (2 :: u8) - 1) (drop 1 [0x20, 0x18, 0xC8])) + c = 0"
  by (rule calculate_checksum_zero_sum) simp_all

text \<open>C13 (\<open>ipmb_encode\<close>, \<open>ipmb_decode\<close>): for every message whose fields fit the wire format,
  encoding into the 534-byte transmit buffer succeeds, the encoded frame passes
  \<open>validate_checksum\<close>, and decoding it restores every field that the frame carries, the
  payload included.\<close>

theorem ipmb_encode_decode_roundtrip:
  assumes m: "wire_msg m" and m0: "wf_msg m0"
    and b: "length b = IPMI_MSG_MAX_LENGTH + IPMB_RESP_HEADER_LENGTH"
  shows "\<exists>b' m'. ipmb_encode (Some b) (Some m) = Some (IPMB_ERROR_SUCCESS, Some b')
    \<and> validate_checksum (Some b') (of_nat (length (ipmb_frame m))) = Some IPMB_ERROR_SUCCESS
    \<and> ipmb_decode (Some m0) (Some b') (of_nat (length (ipmb_frame m))) = Some (IPMB_ERROR_SUCCESS, Some m')
    \<and> wf_msg m' \<and> msg_bytes m' = msg_bytes m \<and> data_len m' = data_len m
    \<and> dest_addr m' = dest_addr m \<and> netfn m' = netfn m \<and> dest_LUN m' = dest_LUN m
    \<and> src_addr m' = src_addr m \<and> seq m' = seq m \<and> src_LUN m' = src_LUN m \<and> cmd m' = cmd m
    \<and> (IS_RESPONSE m \<longrightarrow> completion_code m' = completion_code m)"
proof -
  let ?b' = "ipmb_frame m @ drop (length (ipmb_frame m)) b"
  have wf: "wf_msg m" and dl: "unat (data_len m) \<le> IPMI_MSG_MAX_LENGTH"
    and fit: "length (frame_header m) + unat (data_len m) < 256"
    using m by (auto simp: wire_msg_def)
  have pay: "take (unat (data_len m)) (blit (data m0) 0 (msg_bytes m)) = msg_bytes m"
    using take_drop_blit [of 0 "data m0" "msg_bytes m"] length_msg_bytes [OF wf dl] by simp
  have lb: "length (blit (data m0) 0 (msg_bytes m)) = IPMI_MSG_MAX_LENGTH"
    using m0 dl length_msg_bytes [OF wf dl] by simp
  show ?thesis
    using ipmb_encode_frame [OF wf b fit] validate_checksum_own_frame [OF m]
      ipmb_decode_frame [OF m m0] pay lb
    by (intro exI [of _ ?b']) (auto simp: msg_bytes_def wf_msg_def)
qed

theorem ipmb_encode_decode_roundtrip_witness:
  "\<exists>b' m'. ipmb_encode (Some (replicate 534 0)) (Some (zero_msg\<lparr>netfn := 6, cmd := 1, data_len := 3\<rparr>))
      = Some (IPMB_ERROR_SUCCESS, Some b')
    \<and> ipmb_decode (Some zero_msg) (Some b') (of_nat (length (ipmb_frame (zero_msg\<lparr>netfn := 6, cmd := 1, data_len := 3\<rparr>))))
      = Some (IPMB_ERROR_SUCCESS, Some m')
    \<and> cmd m' = 1"
proof -
  let ?m = "zero_msg\<lparr>netfn := 6, cmd := 1, data_len := 3\<rparr>"
  have "wire_msg ?m"
    by (simp add: wire_msg_def length_frame_header IS_RESPONSE_def zero_msg_def wf_msg_def)
  moreover have "length (replicate 534 (0 :: u8)) = IPMI_MSG_MAX_LENGTH + IPMB_RESP_HEADER_LENGTH"
    by simp
  ultimately show ?thesis
    using ipmb_encode_decode_roundtrip [of ?m zero_msg "replicate 534 0"] by fastforce
qed

text \<open>(\<open>validate_checksum\<close>): a message is accepted exactly when both checksums are right,
  and the two error codes are exchanged: a wrong header checksum is reported as
  \<open>IPMB_ERROR_MSG_CHECKSUM\<close>, a wrong message checksum as \<open>IPMB_ERROR_HDR_CHECKSUM\<close>.\<close>

theorem validate_checksum_verdict:
  assumes "2 < unat len" and "unat len \<le> length b"
  shows "validate_checksum (Some b) len = Some (
    if calculate_checksum (Some b) 2 = Some (b ! 2) then
      if calculate_checksum (Some b) (len - 1) = Some (b ! (unat len - 1))
      then IPMB_ERROR_SUCCESS else IPMB_ERROR_HDR_CHECKSUM
    else IPMB_ERROR_MSG_CHECKSUM)"
proof -
  have "unat (len - 1) = unat len - 1" using assms(1) by (intro unat_minus_one) auto
  then have "calculate_checksum (Some b) (len - 1) = Some (chk (take (unat len - 1) b))"
    using assms calculate_checksum_chk [of "len - 1" b] by simp
  moreover have "calculate_checksum (Some b) 2 = Some (chk (take 2 b))"
    using assms calculate_checksum_chk [of 2 b] by simp
  ultimately show ?thesis
    by (auto simp: validate_checksum_frame [OF assms])
qed

theorem validate_checksum_verdict_witness:
  "validate_checksum (Some [0x20, 0x18, 0xA8, 0, 0, 1, 0xFF]) 7 = Some IPMB_ERROR_SUCCESS
   \<and> validate_checksum (Some [0x20, 0x18, 0xA8, 0, 0, 1, 0]) 7 = Some IPMB_ERROR_HDR_CHECKSUM
   \<and> validate_checksum (Some [0x20, 0x18, 0, 0, 0, 1, 0xFF]) 7 = Some IPMB_ERROR_MSG_CHECKSUM"
  using validate_checksum_verdict [of 7 "[0x20, 0x18, 0xA8, 0, 0, 1, 0xFF]"]
    validate_checksum_verdict [of 7 "[0x20, 0x18, 0xA8, 0, 0, 1, 0]"]
    validate_checksum_verdict [of 7 "[0x20, 0x18, 0, 0, 0, 1, 0xFF]"]
  by (simp add: calculate_checksum_def checksum_loop.simps)

end
