(* ===== verification/Ipmb_Requests.thy ===== *)
theory Ipmb_Requests
  imports Ipmi_Types "HOL-Library.Sublist"
begin

text \<open>
  Sequence numbers and the pending-request list of \<open>samples/ipmi_openbic/src/ipmb/ipmb.c\<close>.
  Every IPMB channel keeps a table of registered sequence numbers and a circular linked
  list of the requests it has sent (\<open>P_start[index]\<close> is a dummy node that closes the
  circle). The list is modelled at the level of the pointers: a heap maps addresses to
  \<open>ipmi_msg_cfg\<close> nodes, and the loops chase \<open>next\<close>. The loops are partial functions:
  \<open>None\<close> means that the C code dereferences an invalid pointer or does not return. What the
  kernel and the allocator answer in a call (the result of \<open>k_mutex_lock\<close>, the block that
  \<open>malloc\<close> returns with its indeterminate contents, the tick counter) is an argument.
\<close>

section \<open>State\<close>

type_synonym heap = "addr \<rightharpoonup> ipmi_msg_cfg"

record ipmb_chan =
  P_start :: "addr option"
  seq_current_count :: u32
  current_seq :: u8
  seq_table :: "bool list"
  ipmb_tx_disable :: bool

section \<open>Sequence numbers\<close>

definition unregister_seq :: "ipmb_chan \<Rightarrow> u8 \<Rightarrow> ipmb_chan option" where
  "unregister_seq ch seq_num = do {
     t \<leftarrow> store (seq_table ch) (unat seq_num) False;
     Some (ch\<lparr>seq_table := t\<rparr>)
   }"

definition register_seq :: "ipmb_chan \<Rightarrow> u8 \<Rightarrow> ipmb_chan option" where
  "register_seq ch seq_num = do {
     t \<leftarrow> store (seq_table ch) (unat seq_num) True;
     Some (ch\<lparr>seq_table := t\<rparr>)
   }"

text \<open>The \<open>do ... while (1)\<close> loop of \<open>get_free_seq\<close>: \<open>count\<close> is the number of occupied
  numbers seen so far, and the loop gives up when it reaches \<open>SEQ_NUM\<close>.\<close>

function get_free_seq_loop :: "bool list \<Rightarrow> u8 \<Rightarrow> nat \<Rightarrow> u8 option" where
  "get_free_seq_loop tab cur count =
     (let cur' = (cur + 1) AND 0x3f in do {
        used \<leftarrow> load tab (unat cur');
        if \<not> used then Some cur'
        else if Suc count \<ge> SEQ_NUM then Some cur'
        else get_free_seq_loop tab cur' (Suc count)
      })"
  by pat_completeness auto
termination
  by (relation "measure (\<lambda>(tab, cur, count). SEQ_NUM - count)") auto

declare get_free_seq_loop.simps [simp del]

definition get_free_seq :: "ipmb_chan \<Rightarrow> (u8 \<times> ipmb_chan) option" where
  "get_free_seq ch = do {
     s \<leftarrow> get_free_seq_loop (seq_table ch) (current_seq ch) 0;
     Some (s, ch\<lparr>current_seq := s\<rparr>)
   }"

section \<open>The request list\<close>

text \<open>\<open>while (pnode && pnode->next != ptr_start) pnode = pnode->next;\<close>\<close>

partial_function (option) last_node :: "heap \<Rightarrow> addr \<Rightarrow> addr option \<Rightarrow> addr option option" where
  "last_node h ptr_start pnode =
     (case pnode of
        None \<Rightarrow> Some None
      | Some a \<Rightarrow> (case h a of
          None \<Rightarrow> None
        | Some n \<Rightarrow> if next_ptr n = Some ptr_start then Some (Some a)
                   else last_node h ptr_start (next_ptr n)))"

text \<open>\<open>insert_req_ipmi_msg\<close>; the message is written through its pointer (\<open>timestamp\<close>), so it
  is returned with the heap and the channel.\<close>

definition evict_first :: "heap \<Rightarrow> ipmb_chan \<Rightarrow> addr \<Rightarrow> (bool \<times> heap \<times> ipmb_chan) option" where
  "evict_first h ch pnode =
     (if seq_current_count ch = of_nat MAX_SEQ_QUENE then do {
        n \<leftarrow> h pnode;
        case next_ptr n of
          None \<Rightarrow> Some (False, h, ch)
        | Some temp \<Rightarrow> do {
            t \<leftarrow> h temp;
            n \<leftarrow> h pnode;
            Some (True, (h(pnode \<mapsto> n\<lparr>next_ptr := next_ptr t\<rparr>))(temp := None),
                  ch\<lparr>seq_current_count := seq_current_count ch - 1\<rparr>)
          }
      } else Some (True, h, ch))"

definition insert_req_ipmi_msg ::
    "int \<Rightarrow> (addr \<times> ipmi_msg_cfg) option \<Rightarrow> u32 \<Rightarrow> heap \<Rightarrow> ipmb_chan \<Rightarrow> addr option \<Rightarrow> ipmi_msg
      \<Rightarrow> (heap \<times> ipmb_chan \<times> ipmi_msg) option" where
  "insert_req_ipmi_msg lock_ret mal now h ch pnode msg =
     (case pnode of
        None \<Rightarrow> Some (h, ch, msg)
      | Some ptr_start \<Rightarrow>
          if lock_ret \<noteq> 0 then Some (h, ch, msg)
          else do {
            (circular, h, ch) \<leftarrow> evict_first h ch ptr_start;
            if \<not> circular then Some (h, ch, msg)
            else do {
              last \<leftarrow> last_node h ptr_start (Some ptr_start);
              case last of
                None \<Rightarrow> Some (h, ch, msg)
              | Some a \<Rightarrow> do {
                  n \<leftarrow> h a;
                  case mal of
                    None \<Rightarrow> Some (h(a \<mapsto> n\<lparr>next_ptr := None\<rparr>), ch, msg)
                  | Some (new, junk) \<Rightarrow> do {
                      let h = h(a \<mapsto> n\<lparr>next_ptr := Some new\<rparr>);
                      let msg = msg\<lparr>timestamp := now\<rparr>;
                      ch \<leftarrow> register_seq ch (seq_target msg);
                      let h = h(new \<mapsto> junk\<lparr>buffer := msg, next_ptr := Some ptr_start\<rparr>);
                      Some (h, ch\<lparr>seq_current_count := seq_current_count ch + 1\<rparr>, msg)
                    }
                }
            }
          })"

text \<open>The test of the search loop of \<open>find_req_ipmi_msg\<close>: the recorded request that a
  response with these fields answers.\<close>

definition req_matches :: "ipmi_msg \<Rightarrow> ipmi_msg \<Rightarrow> bool" where
  "req_matches req msg \<longleftrightarrow>
     netfn req = netfn msg AND NOT 0x01 \<and> cmd req = cmd msg \<and> seq_target req = seq_target msg"

text \<open>The cursor is not null at the start (the argument was checked), and it moves to
  \<open>pnode->next\<close> only after the loop condition has dereferenced that pointer: the test
  \<open>pnode != NULL\<close> of the loop and the \<open>pnode == NULL\<close> branch after it never decide anything.\<close>

partial_function (option) find_prev :: "heap \<Rightarrow> addr \<Rightarrow> ipmi_msg \<Rightarrow> addr \<Rightarrow> addr option" where
  "find_prev h ptr_start msg pnode = do {
     n \<leftarrow> h pnode;
     if next_ptr n = Some ptr_start then Some pnode
     else do {
       succ \<leftarrow> next_ptr n;
       ns \<leftarrow> h succ;
       if req_matches (buffer ns) msg then Some pnode
       else find_prev h ptr_start msg succ
     }
   }"

text \<open>Unlinking the successor of \<open>pnode\<close>: \<open>pnode->next = temp->next; unregister_seq(...);
  free(temp); seq_current_count--\<close>.\<close>

definition unlink_next :: "heap \<Rightarrow> ipmb_chan \<Rightarrow> addr \<Rightarrow> addr \<Rightarrow> (heap \<times> ipmb_chan) option" where
  "unlink_next h ch pnode temp = do {
     t \<leftarrow> h temp;
     n \<leftarrow> h pnode;
     ch \<leftarrow> unregister_seq ch (seq_target (buffer t));
     Some ((h(pnode \<mapsto> n\<lparr>next_ptr := next_ptr t\<rparr>))(temp := None),
           ch\<lparr>seq_current_count := seq_current_count ch - 1\<rparr>)
   }"

definition find_req_ipmi_msg ::
    "int \<Rightarrow> heap \<Rightarrow> ipmb_chan \<Rightarrow> addr option \<Rightarrow> ipmi_msg
      \<Rightarrow> (bool \<times> heap \<times> ipmb_chan \<times> ipmi_msg) option" where
  "find_req_ipmi_msg lock_ret h ch pnode msg =
     (case pnode of
        None \<Rightarrow> Some (False, h, ch, msg)
      | Some ptr_start \<Rightarrow>
          if lock_ret \<noteq> 0 then Some (False, h, ch, msg)
          else do {
            a \<leftarrow> find_prev h ptr_start msg ptr_start;
            n \<leftarrow> h a;
            if next_ptr n = Some ptr_start then Some (False, h, ch, msg)
            else case next_ptr n of
              None \<Rightarrow> Some (False, h, ch, msg)
            | Some temp \<Rightarrow> do {
                t \<leftarrow> h temp;
                let msg = msg\<lparr>seq_source := seq_source (buffer t),
                              pldm_inst_id := pldm_inst_id (buffer t),
                              InF_source := InF_source (buffer t),
                              InF_target := InF_target (buffer t)\<rparr>;
                (h, ch) \<leftarrow> unlink_next h ch a temp;
                Some (True, h, ch, msg)
              }
          })"

text \<open>\<open>clear_req_ipmi_msg\<close> removes the request with the message's own network function,
  command and sequence number; its loop ends at \<open>P_start[index]\<close>.\<close>

definition clear_matches :: "ipmi_msg \<Rightarrow> ipmi_msg \<Rightarrow> bool" where
  "clear_matches req msg \<longleftrightarrow> netfn req = netfn msg \<and> cmd req = cmd msg \<and> seq req = seq msg"

partial_function (option) clear_loop ::
    "heap \<Rightarrow> ipmb_chan \<Rightarrow> ipmi_msg \<Rightarrow> addr \<Rightarrow> (heap \<times> ipmb_chan) option" where
  "clear_loop h ch msg pnode = do {
     n \<leftarrow> h pnode;
     if next_ptr n = P_start ch then Some (h, ch)
     else do {
       temp \<leftarrow> next_ptr n;
       t \<leftarrow> h temp;
       if clear_matches (buffer t) msg then unlink_next h ch pnode temp
       else clear_loop h ch msg temp
     }
   }"

definition clear_req_ipmi_msg ::
    "int \<Rightarrow> heap \<Rightarrow> ipmb_chan \<Rightarrow> addr option \<Rightarrow> ipmi_msg \<Rightarrow> (heap \<times> ipmb_chan) option" where
  "clear_req_ipmi_msg lock_ret h ch pnode msg =
     (case pnode of
        None \<Rightarrow> Some (h, ch)
      | Some p \<Rightarrow> if lock_ret \<noteq> 0 then Some (h, ch) else clear_loop h ch msg p)"

text \<open>The scan of \<open>IPMB_SeqTimeout_handler\<close> over one channel. The kernel's tick counter is
  read afresh for every node: \<open>clock k\<close> is the \<open>k\<close>-th reading. After removing a node the
  cursor still advances, so the successor of a removed node is not examined; when the last
  node is removed the cursor returns to \<open>P_start\<close> and the scan starts over.\<close>

definition seq_expired :: "u32 \<Rightarrow> u32 \<Rightarrow> u32 \<Rightarrow> ipmi_msg \<Rightarrow> bool" where
  "seq_expired tick_fix sys_tick_freq current_time req \<longleftrightarrow>
     current_time + tick_fix - timestamp req > of_nat (IPMB_SEQ_TIMEOUT_MS div 1000) * sys_tick_freq
     \<or> (current_time + tick_fix - timestamp req) AND 0x80000000 \<noteq> 0"

partial_function (option) seq_timeout_scan ::
    "(ipmi_msg \<Rightarrow> nat \<Rightarrow> bool) \<Rightarrow> nat \<Rightarrow> heap \<Rightarrow> ipmb_chan \<Rightarrow> addr \<Rightarrow> (heap \<times> ipmb_chan) option" where
  "seq_timeout_scan expired k h ch pnode = do {
     n \<leftarrow> h pnode;
     if next_ptr n = P_start ch then Some (h, ch)
     else do {
       temp \<leftarrow> next_ptr n;
       t \<leftarrow> h temp;
       if expired (buffer t) k then do {
         hc \<leftarrow> unlink_next h ch pnode temp;
         n' \<leftarrow> fst hc pnode;
         p' \<leftarrow> next_ptr n';
         seq_timeout_scan expired (Suc k) (fst hc) (snd hc) p'
       } else seq_timeout_scan expired (Suc k) h ch temp
     }
   }"

definition IPMB_SeqTimeout_channel ::
    "int \<Rightarrow> u32 \<Rightarrow> u32 \<Rightarrow> (nat \<Rightarrow> u32) \<Rightarrow> bool \<Rightarrow> heap \<Rightarrow> ipmb_chan \<Rightarrow> (heap \<times> ipmb_chan) option" where
  "IPMB_SeqTimeout_channel lock_ret tick_fix sys_tick_freq clock enabled h ch =
     (if \<not> enabled \<or> lock_ret \<noteq> 0 then Some (h, ch)
      else do {
        p \<leftarrow> P_start ch;
        seq_timeout_scan (\<lambda>req k. seq_expired tick_fix sys_tick_freq (clock k) req) 0 h ch p
      })"

section \<open>Abstraction of the circular list\<close>

text \<open>\<open>path h a ns b\<close>: following \<open>next\<close> from node \<open>a\<close> visits the nodes \<open>ns\<close> and then
  arrives at \<open>b\<close>. A ring is a path from the dummy node back to itself.\<close>

primrec path :: "heap \<Rightarrow> addr \<Rightarrow> addr list \<Rightarrow> addr \<Rightarrow> bool" where
  "path h a [] b \<longleftrightarrow> (\<exists>n. h a = Some n \<and> next_ptr n = Some b)"
| "path h a (x # xs) b \<longleftrightarrow> (\<exists>n. h a = Some n \<and> next_ptr n = Some x) \<and> path h x xs b"

definition ring :: "heap \<Rightarrow> addr \<Rightarrow> addr list \<Rightarrow> bool" where
  "ring h p ns \<longleftrightarrow> path h p ns p \<and> distinct (p # ns)"

definition reqs :: "heap \<Rightarrow> addr list \<Rightarrow> ipmi_msg list" where
  "reqs h ns = map (\<lambda>a. buffer (the (h a))) ns"

text \<open>A channel whose list is intact: the ring, the element count, the size of the sequence
  table and the range of the recorded sequence numbers.\<close>

definition chan_ok :: "heap \<Rightarrow> ipmb_chan \<Rightarrow> addr list \<Rightarrow> bool" where
  "chan_ok h ch ns \<longleftrightarrow>
     (\<exists>p. P_start ch = Some p \<and> ring h p ns) \<and>
     unat (seq_current_count ch) = length ns \<and> length ns \<le> MAX_SEQ_QUENE \<and>
     length (seq_table ch) = SEQ_NUM \<and> (\<forall>m \<in> set (reqs h ns). unat (seq_target m) < SEQ_NUM)"

definition pending :: "heap \<Rightarrow> ipmb_chan \<Rightarrow> ipmi_msg list \<Rightarrow> bool" where
  "pending h ch rs \<longleftrightarrow> (\<exists>ns. chan_ok h ch ns \<and> rs = reqs h ns)"

text \<open>Removing the first element that satisfies a predicate.\<close>

fun remove_first :: "('a \<Rightarrow> bool) \<Rightarrow> 'a list \<Rightarrow> 'a list" where
  "remove_first P [] = []"
| "remove_first P (x # xs) = (if P x then xs else x # remove_first P xs)"

text \<open>The timeout scan on the list of requests: \<open>pre\<close> has been passed, \<open>x # suf\<close> is still
  ahead of the cursor.\<close>

function scan_list :: "('a \<Rightarrow> nat \<Rightarrow> bool) \<Rightarrow> nat \<Rightarrow> 'a list \<Rightarrow> 'a list \<Rightarrow> 'a list" where
  "scan_list e k pre [] = pre"
| "scan_list e k pre (x # suf) =
     (if e x k then
        case suf of
          [] \<Rightarrow> scan_list e (Suc k) [] pre
        | y # ys \<Rightarrow> scan_list e (Suc k) (pre @ [y]) ys
      else scan_list e (Suc k) (pre @ [x]) suf)"
  by pat_completeness auto
termination
  by (relation "measures [\<lambda>(e, k, pre, suf). length pre + length suf, \<lambda>(e, k, pre, suf). length suf]") auto

section \<open>Lemmas on paths\<close>

lemma path_cong: "\<forall>x \<in> set (a # xs). h' x = h x \<Longrightarrow> path h' a xs b = path h a xs b"
  by (induction xs arbitrary: a) auto

lemma path_append: "path h a (xs @ y # ys) b \<longleftrightarrow> path h a xs y \<and> path h y ys b"
  by (induction xs arbitrary: a) auto

lemma path_node: "path h a xs b \<Longrightarrow> x \<in> set (a # xs) \<Longrightarrow> \<exists>n. h x = Some n"
  by (induction xs arbitrary: a) auto

lemma path_last: "path h a xs b \<Longrightarrow> \<exists>n. h (last (a # xs)) = Some n \<and> next_ptr n = Some b"
  by (induction xs arbitrary: a) auto

lemma reqs_cong: "\<forall>x \<in> set ns. map_option buffer (h' x) = map_option buffer (h x) \<Longrightarrow>
    \<forall>x \<in> set ns. h x \<noteq> None \<Longrightarrow> reqs h' ns = reqs h ns"
  by (force simp: reqs_def)

lemma length_reqs [simp]: "length (reqs h ns) = length ns"
  by (simp add: reqs_def)

lemma reqs_append [simp]: "reqs h (xs @ ys) = reqs h xs @ reqs h ys"
  by (simp add: reqs_def)

lemma reqs_Cons [simp]: "reqs h (x # xs) = buffer (the (h x)) # reqs h xs"
  by (simp add: reqs_def)

lemma reqs_Nil [simp]: "reqs h [] = []"
  by (simp add: reqs_def)

lemma remove_first_append:
  "\<forall>x \<in> set xs. \<not> P x \<Longrightarrow> P y \<Longrightarrow> remove_first P (xs @ y # ys) = xs @ ys"
  by (induction xs) auto

lemma remove_first_none: "\<forall>x \<in> set xs. \<not> P x \<Longrightarrow> remove_first P xs = xs"
  by (induction xs) auto

text \<open>Splitting a list at the first hit of a search.\<close>

lemma first_hit_cases:
  obtains (none) "\<forall>x \<in> set xs. \<not> P x"
  | (hit) pre x post where "xs = pre @ x # post" "\<forall>y \<in> set pre. \<not> P y" "P x"
  using split_list_first_prop [of xs P] by blast

text \<open>What unlinking the successor \<open>x\<close> of the last node of \<open>a # pre\<close> does to the heap.\<close>

definition unlinked :: "heap \<Rightarrow> addr \<Rightarrow> addr \<Rightarrow> heap" where
  "unlinked h c x = (h(c \<mapsto> (the (h c))\<lparr>next_ptr := next_ptr (the (h x))\<rparr>))(x := None)"

lemma path_unlinked:
  assumes "path h a (pre @ x # post) b" and "distinct (a # pre @ x # post)"
  shows "path (unlinked h (last (a # pre)) x) a (pre @ post) b"
  using assms
proof (induction pre arbitrary: a)
  case Nil
  then show ?case
  proof (cases post)
    case Nil
    with Nil.prems show ?thesis by (auto simp: unlinked_def)
  next
    case (Cons y ys)
    have "\<forall>z \<in> set (y # ys). unlinked h a x z = h z"
      using Nil.prems(2) Cons by (auto simp: unlinked_def)
    then have "path (unlinked h a x) y ys b"
      using Nil.prems(1) Cons by (simp only: path_cong) simp
    moreover have "\<exists>n. unlinked h a x a = Some n \<and> next_ptr n = Some y"
      using Nil.prems Cons by (auto simp: unlinked_def)
    ultimately show ?thesis using Cons by simp
  qed
next
  case (Cons c pre)
  then have "path (unlinked h (last (c # pre)) x) c (pre @ post) b" by simp
  moreover have "unlinked h (last (c # pre)) x a = h a"
    using Cons.prems by (auto simp: unlinked_def)
  ultimately show ?case using Cons.prems by simp
qed

lemma reqs_unlinked:
  assumes "path h a (pre @ x # post) b" and "distinct (a # pre @ x # post)"
  shows "reqs (unlinked h (last (a # pre)) x) (pre @ post) = reqs h (pre @ post)"
proof (rule reqs_cong)
  show "\<forall>y \<in> set (pre @ post). h y \<noteq> None"
    using path_node [OF assms(1)] by fastforce
  show "\<forall>y \<in> set (pre @ post).
      map_option buffer (unlinked h (last (a # pre)) x y) = map_option buffer (h y)"
  proof
    fix y assume y: "y \<in> set (pre @ post)"
    then obtain n where "h y = Some n" using path_node [OF assms(1), of y] by auto
    with y assms(2) show "map_option buffer (unlinked h (last (a # pre)) x y) = map_option buffer (h y)"
      by (auto simp: unlinked_def)
  qed
qed

section \<open>The loops on an intact ring\<close>

lemma last_node_path:
  "path h a xs p \<Longrightarrow> p \<notin> set xs \<Longrightarrow> last_node h p (Some a) = Some (Some (last (a # xs)))"
proof (induction xs arbitrary: a)
  case Nil
  then show ?case by (auto simp: last_node.simps [of h p "Some a"])
next
  case (Cons x xs)
  then show ?case by (auto simp: last_node.simps [of h p "Some a"])
qed

lemma find_prev_path:
  assumes "path h a xs p" and "p \<notin> set xs"
  shows "find_prev h p msg a =
    Some (last (a # takeWhile (\<lambda>x. \<not> req_matches (buffer (the (h x))) msg) xs))"
  using assms
proof (induction xs arbitrary: a)
  case Nil
  then show ?case by (auto simp: find_prev.simps [of h p msg a])
next
  case (Cons x xs)
  moreover obtain nx where "h x = Some nx" using path_node [OF Cons.prems(1), of x] by auto
  ultimately show ?case by (auto simp: find_prev.simps [of h p msg a])
qed

lemma unlink_next_path:
  assumes "path h a (pre @ x # post) b" and "distinct (a # pre @ x # post)"
    and "unat (seq_target (buffer (the (h x)))) < length (seq_table ch)"
  shows "unlink_next h ch (last (a # pre)) x =
    Some (unlinked h (last (a # pre)) x,
      ch\<lparr>seq_table := (seq_table ch)[unat (seq_target (buffer (the (h x)))) := False],
         seq_current_count := seq_current_count ch - 1\<rparr>)"
proof -
  obtain nx where nx: "h x = Some nx" using path_node [OF assms(1), of x] by auto
  obtain nl where nl: "h (last (a # pre)) = Some nl"
    using path_node [OF assms(1), of "last (a # pre)"] last_in_set [of "a # pre"] by auto
  show ?thesis
    using assms(3) nx nl by (simp add: unlink_next_def unregister_seq_def unlinked_def)
qed

section \<open>The operations on an intact channel\<close>

lemma chan_ok_ring:
  assumes "chan_ok h ch ns"
  obtains p where "P_start ch = Some p" "path h p ns p" "distinct (p # ns)" "p \<notin> set ns"
  using assms by (auto simp: chan_ok_def ring_def)

text \<open>Unlinking one recorded request leaves an intact channel without that request.\<close>

lemma chan_ok_unlink:
  assumes ok: "chan_ok h ch (pre @ x # post)" and p: "P_start ch = Some p"
  shows "\<exists>h' ch'. unlink_next h ch (last (p # pre)) x = Some (h', ch') \<and>
    chan_ok h' ch' (pre @ post) \<and> reqs h' (pre @ post) = reqs h (pre @ post) \<and>
    P_start ch' = Some p \<and>
    (\<exists>n. h' (last (p # pre)) = Some n \<and> next_ptr n = Some (hd (post @ [p]))) \<and>
    seq_table ch' = (seq_table ch)[unat (seq_target (buffer (the (h x)))) := False]"
proof -
  from ok p have path: "path h p (pre @ x # post) p" and dist: "distinct (p # pre @ x # post)"
    by (auto simp: chan_ok_def ring_def)
  have sq: "unat (seq_target (buffer (the (h x)))) < length (seq_table ch)"
    using ok by (auto simp: chan_ok_def)
  let ?ch' = "ch\<lparr>seq_table := (seq_table ch)[unat (seq_target (buffer (the (h x)))) := False],
         seq_current_count := seq_current_count ch - 1\<rparr>"
  let ?h' = "unlinked h (last (p # pre)) x"
  have nz: "seq_current_count ch \<noteq> 0"
    using ok by (auto simp: chan_ok_def)
  then have cnt: "unat (seq_current_count ch - 1) = length (pre @ post)"
    using ok by (simp add: unat_minus_one chan_ok_def)
  have path': "path ?h' p (pre @ post) p" by (rule path_unlinked [OF path dist])
  have rq: "reqs ?h' (pre @ post) = reqs h (pre @ post)" by (rule reqs_unlinked [OF path dist])
  have "chan_ok ?h' ?ch' (pre @ post)"
    using ok p path' dist cnt rq by (auto simp: chan_ok_def ring_def)
  moreover have "\<exists>n. ?h' (last (p # pre)) = Some n \<and> next_ptr n = Some (hd (post @ [p]))"
  proof -
    have "path h x post p" using path by (simp add: path_append)
    then have "next_ptr (the (h x)) = Some (hd (post @ [p]))" by (cases post) auto
    moreover have "last (p # pre) \<noteq> x" using dist last_in_set [of "p # pre"] by auto
    ultimately show ?thesis by (simp add: unlinked_def)
  qed
  ultimately show ?thesis
    using unlink_next_path [OF path dist sq] p rq by simp
qed

lemma find_req_hit:
  assumes ok: "chan_ok h ch (pre @ x # post)"
    and no: "\<forall>m \<in> set (reqs h pre). \<not> req_matches m msg"
    and hit: "req_matches (buffer (the (h x))) msg"
  shows "\<exists>h' ch'. find_req_ipmi_msg 0 h ch (P_start ch) msg = Some (True, h', ch',
      msg\<lparr>seq_source := seq_source (buffer (the (h x))),
          pldm_inst_id := pldm_inst_id (buffer (the (h x))),
          InF_source := InF_source (buffer (the (h x))),
          InF_target := InF_target (buffer (the (h x)))\<rparr>) \<and>
    chan_ok h' ch' (pre @ post) \<and> reqs h' (pre @ post) = reqs h (pre @ post) \<and>
    seq_table ch' = (seq_table ch)[unat (seq_target (buffer (the (h x)))) := False]"
proof -
  from ok obtain p where p: "P_start ch = Some p" and path: "path h p (pre @ x # post) p"
    and dist: "distinct (p # pre @ x # post)" by (auto simp: chan_ok_def ring_def)
  let ?nm = "\<lambda>x. \<not> req_matches (buffer (the (h x))) msg"
  have tw: "takeWhile ?nm (pre @ x # post) = pre"
    using no hit by (subst takeWhile_append2) (auto simp: reqs_def)
  have prev: "find_prev h p msg p = Some (last (p # pre))"
    using find_prev_path [OF path, of msg] dist by (simp add: tw)
  obtain n where n: "h (last (p # pre)) = Some n" "next_ptr n = Some x"
    using path path_last [of h p pre x] by (auto simp: path_append)
  obtain t where t: "h x = Some t" using path_node [OF path, of x] by auto
  obtain h' ch' where u: "unlink_next h ch (last (p # pre)) x = Some (h', ch')"
    "chan_ok h' ch' (pre @ post)" "reqs h' (pre @ post) = reqs h (pre @ post)"
    "seq_table ch' = (seq_table ch)[unat (seq_target (buffer (the (h x)))) := False]"
    using chan_ok_unlink [OF ok p] by auto
  have "x \<noteq> p" using dist by auto
  then show ?thesis
    using u n t p prev by (simp add: find_req_ipmi_msg_def)
qed

lemma find_req_miss:
  assumes ok: "chan_ok h ch ns" and no: "\<forall>m \<in> set (reqs h ns). \<not> req_matches m msg"
  shows "find_req_ipmi_msg 0 h ch (P_start ch) msg = Some (False, h, ch, msg)"
proof -
  from ok obtain p where p: "P_start ch = Some p" and path: "path h p ns p" and "p \<notin> set ns"
    by (auto simp: chan_ok_def ring_def)
  have tw: "takeWhile (\<lambda>x. \<not> req_matches (buffer (the (h x))) msg) ns = ns"
    using no by (simp add: reqs_def takeWhile_eq_all_conv)
  have prev: "find_prev h p msg p = Some (last (p # ns))"
    using find_prev_path [OF path, of msg] \<open>p \<notin> set ns\<close> by (simp add: tw)
  show ?thesis
    using path_last [OF path] p prev by (auto simp: find_req_ipmi_msg_def)
qed

text \<open>Redirecting the end of a path to another node.\<close>

lemma path_redirect:
  assumes "path h a xs b" and "distinct (a # xs)" and "h (last (a # xs)) = Some n"
  shows "path (h(last (a # xs) \<mapsto> n\<lparr>next_ptr := Some c\<rparr>)) a xs c"
  using assms
proof (induction xs arbitrary: a)
  case Nil
  then show ?case by simp
next
  case (Cons x xs)
  define g where "g = h(last (x # xs) \<mapsto> n\<lparr>next_ptr := Some c\<rparr>)"
  have "path g x xs c"
    unfolding g_def by (rule Cons.IH) (use Cons.prems in auto)
  moreover have "g a = h a"
    using Cons.prems(2) last_in_set [of "x # xs"] by (auto simp: g_def)
  ultimately have g: "path g a (x # xs) c" using Cons.prems(1) by simp
  have l: "last (a # x # xs) = last (x # xs)" by simp
  show ?case unfolding l g_def [symmetric] by (rule g)
qed

lemma ring_add_last:
  fixes m :: ipmi_msg_cfg
  assumes r: "ring h p ns" and n: "h (last (p # ns)) = Some n" and new: "new \<notin> set (p # ns)"
  defines "h' \<equiv> (h(last (p # ns) \<mapsto> n\<lparr>next_ptr := Some new\<rparr>))(new \<mapsto> m\<lparr>next_ptr := Some p\<rparr>)"
  shows "ring h' p (ns @ [new])" and "reqs h' ns = reqs h ns"
proof -
  have path: "path h p ns p" and dist: "distinct (p # ns)" using r by (auto simp: ring_def)
  have "path (h(last (p # ns) \<mapsto> n\<lparr>next_ptr := Some new\<rparr>)) p ns new"
    by (rule path_redirect [OF path dist n])
  moreover have "\<forall>x \<in> set (p # ns). h' x = (h(last (p # ns) \<mapsto> n\<lparr>next_ptr := Some new\<rparr>)) x"
    using new by (auto simp: h'_def)
  ultimately have "path h' p ns new" by (simp only: path_cong)
  moreover have "path h' new [] p" by (simp add: h'_def)
  ultimately show "ring h' p (ns @ [new])"
    using dist new by (auto simp: ring_def path_append)
  show "reqs h' ns = reqs h ns"
  proof (rule reqs_cong)
    show "\<forall>x \<in> set ns. h x \<noteq> None" using path_node [OF path] by fastforce
    show "\<forall>x \<in> set ns. map_option buffer (h' x) = map_option buffer (h x)"
      using new n by (auto simp: h'_def)
  qed
qed

definition kept_nodes :: "'a list \<Rightarrow> 'a list" where
  "kept_nodes ns = (if length ns = MAX_SEQ_QUENE then tl ns else ns)"

lemma reqs_kept_nodes: "reqs h (kept_nodes ns) = kept_nodes (reqs h ns)"
  by (simp add: kept_nodes_def reqs_def map_tl)

lemma kept_nodes_subset: "set (kept_nodes ns) \<subseteq> set ns"
  by (cases ns) (auto simp: kept_nodes_def)

text \<open>The eviction of the oldest request from a full list. Its sequence number stays
  registered.\<close>

lemma evict_first_ok:
  assumes ok: "chan_ok h ch ns" and p: "P_start ch = Some p"
  shows "\<exists>h1 ch1. evict_first h ch p = Some (True, h1, ch1) \<and> chan_ok h1 ch1 (kept_nodes ns) \<and>
    reqs h1 (kept_nodes ns) = reqs h (kept_nodes ns) \<and> P_start ch1 = Some p \<and>
    seq_table ch1 = seq_table ch \<and> length (kept_nodes ns) < MAX_SEQ_QUENE"
proof (cases "length ns = MAX_SEQ_QUENE")
  case True
  then obtain x xs where ns: "ns = x # xs" by (cases ns) auto
  have c: "seq_current_count ch = of_nat MAX_SEQ_QUENE"
  proof -
    have "of_nat (unat (seq_current_count ch)) = seq_current_count ch" by simp
    moreover have "unat (seq_current_count ch) = MAX_SEQ_QUENE"
      using ok True by (simp add: chan_ok_def)
    ultimately show ?thesis by simp
  qed
  from ok p ns have path: "path h p ([] @ x # xs) p" and dist: "distinct (p # [] @ x # xs)"
    by (auto simp: chan_ok_def ring_def)
  obtain n where n: "h p = Some n" "next_ptr n = Some x" using path by auto
  obtain t where t: "h x = Some t" using path_node [OF path, of x] by auto
  let ?ch1 = "ch\<lparr>seq_current_count := seq_current_count ch - 1\<rparr>"
  have "evict_first h ch p = Some (True, unlinked h p x, ?ch1)"
    using c n t by (simp add: evict_first_def unlinked_def)
  moreover have "chan_ok (unlinked h p x) ?ch1 xs"
    using ok p path_unlinked [OF path dist] reqs_unlinked [OF path dist] dist c True ns
    by (auto simp: chan_ok_def ring_def)
  moreover have "reqs (unlinked h p x) xs = reqs h xs"
    using reqs_unlinked [OF path dist] by simp
  ultimately show ?thesis using p ns True by (simp add: kept_nodes_def)
next
  case False
  then have c: "seq_current_count ch \<noteq> of_nat MAX_SEQ_QUENE"
    using ok by (auto simp: chan_ok_def)
  with False ok p show ?thesis by (auto simp: evict_first_def kept_nodes_def chan_ok_def)
qed

lemma insert_req_ok:
  assumes ok: "chan_ok h ch ns" and p: "P_start ch = Some p"
    and new: "new \<notin> set (p # kept_nodes ns)" and sq: "unat (seq_target msg) < SEQ_NUM"
  shows "\<exists>h' ch'. insert_req_ipmi_msg 0 (Some (new, junk)) now h ch (P_start ch) msg =
      Some (h', ch', msg\<lparr>timestamp := now\<rparr>) \<and> chan_ok h' ch' (kept_nodes ns @ [new]) \<and>
    reqs h' (kept_nodes ns @ [new]) = reqs h (kept_nodes ns) @ [msg\<lparr>timestamp := now\<rparr>] \<and>
    seq_table ch' = (seq_table ch)[unat (seq_target msg) := True]"
proof -
  let ?ns = "kept_nodes ns"
  let ?m = "msg\<lparr>timestamp := now\<rparr>"
  obtain h1 ch1 where e: "evict_first h ch p = Some (True, h1, ch1)" "chan_ok h1 ch1 ?ns"
    "reqs h1 ?ns = reqs h ?ns" "P_start ch1 = Some p" "seq_table ch1 = seq_table ch"
    "length ?ns < MAX_SEQ_QUENE"
    using evict_first_ok [OF ok p] by blast
  have r: "ring h1 p ?ns" using e(2,4) by (auto simp: chan_ok_def)
  then have path: "path h1 p ?ns p" and pns: "p \<notin> set ?ns" by (auto simp: ring_def)
  obtain n where n: "h1 (last (p # ?ns)) = Some n" using path_last [OF path] by auto
  let ?h' = "(h1(last (p # ?ns) \<mapsto> n\<lparr>next_ptr := Some new\<rparr>))
      (new \<mapsto> (junk\<lparr>buffer := ?m\<rparr>)\<lparr>next_ptr := Some p\<rparr>)"
  let ?ch' = "ch1\<lparr>seq_table := (seq_table ch1)[unat (seq_target msg) := True],
      seq_current_count := seq_current_count ch1 + 1\<rparr>"
  have res: "insert_req_ipmi_msg 0 (Some (new, junk)) now h ch (P_start ch) msg =
      Some (?h', ?ch', ?m)"
    using e last_node_path [OF path pns] n sq p ok
    by (simp add: insert_req_ipmi_msg_def register_seq_def chan_ok_def Let_def)
  have ring': "ring ?h' p (?ns @ [new])" and rq: "reqs ?h' ?ns = reqs h1 ?ns"
    by (rule ring_add_last [OF r n new])+
  have "unat (seq_current_count ch1 + 1) = Suc (length ?ns)"
    using e(2,6) by (simp add: chan_ok_def unat_word_ariths)
  then have "chan_ok ?h' ?ch' (?ns @ [new])"
    using e ring' rq sq by (auto simp: chan_ok_def)
  with res rq e show ?thesis by simp
qed

text \<open>When \<open>malloc\<close> fails the code has already overwritten the link of the last node, so the
  circle is open: the last node's successor is now \<open>NULL\<close>.\<close>

lemma insert_req_malloc_failure:
  assumes ok: "chan_ok h ch ns" and p: "P_start ch = Some p" and room: "length ns < MAX_SEQ_QUENE"
  shows "\<exists>n. h (last (p # ns)) = Some n \<and>
    insert_req_ipmi_msg 0 None now h ch (P_start ch) msg =
      Some (h(last (p # ns) \<mapsto> n\<lparr>next_ptr := None\<rparr>), ch, msg)"
proof -
  have kn: "kept_nodes ns = ns" using room by (simp add: kept_nodes_def)
  have c: "seq_current_count ch \<noteq> of_nat MAX_SEQ_QUENE"
    using ok room by (auto simp: chan_ok_def)
  have path: "path h p ns p" and pns: "p \<notin> set ns" using ok p by (auto simp: chan_ok_def ring_def)
  obtain n where n: "h (last (p # ns)) = Some n" using path_last [OF path] by auto
  show ?thesis
    using c last_node_path [OF path pns] n p
    by (simp add: insert_req_ipmi_msg_def evict_first_def)
qed

lemma clear_loop_path:
  assumes ok: "chan_ok h ch (pre @ suf)" and p: "P_start ch = Some p"
  shows "\<exists>h' ch' ns'. clear_loop h ch msg (last (p # pre)) = Some (h', ch') \<and> chan_ok h' ch' ns' \<and>
    reqs h' ns' = reqs h pre @ remove_first (\<lambda>m. clear_matches m msg) (reqs h suf)"
  using ok
proof (induction suf arbitrary: pre)
  case Nil
  then have "path h p pre p" using p by (auto simp: chan_ok_def ring_def)
  from path_last [OF this] p Nil show ?case
    by (auto simp: clear_loop.simps [of h ch msg] intro!: exI [of _ pre])
next
  case (Cons x suf)
  from Cons.prems p have path: "path h p (pre @ x # suf) p" and dist: "distinct (p # pre @ x # suf)"
    by (auto simp: chan_ok_def ring_def)
  obtain n where n: "h (last (p # pre)) = Some n" "next_ptr n = Some x"
    using path path_last [of h p pre x] by (auto simp: path_append)
  obtain t where t: "h x = Some t" using path_node [OF path, of x] by auto
  have xp: "x \<noteq> p" using dist by auto
  show ?case
  proof (cases "clear_matches (buffer t) msg")
    case True
    obtain h' ch' where u: "unlink_next h ch (last (p # pre)) x = Some (h', ch')"
      "chan_ok h' ch' (pre @ suf)" "reqs h' (pre @ suf) = reqs h (pre @ suf)"
      using chan_ok_unlink [OF Cons.prems p] by auto
    then show ?thesis
      using True n t xp p
      by (auto simp: clear_loop.simps [of h ch msg "last (p # pre)"] intro!: exI [of _ "pre @ suf"]
          simp del: last.simps)
  next
    case False
    obtain h' ch' ns' where u: "clear_loop h ch msg (last (p # pre @ [x])) = Some (h', ch')"
      "chan_ok h' ch' ns'"
      "reqs h' ns' = reqs h (pre @ [x]) @ remove_first (\<lambda>m. clear_matches m msg) (reqs h suf)"
      using Cons.IH [of "pre @ [x]"] Cons.prems by auto
    have "clear_loop h ch msg (last (p # pre)) = clear_loop h ch msg x"
      using False n t xp p
      by (simp add: clear_loop.simps [of h ch msg "last (p # pre)"] del: last.simps)
    with u False t show ?thesis by auto
  qed
qed

lemma seq_timeout_scan_path:
  assumes "chan_ok h ch (pre @ suf)" and "P_start ch = Some p"
  shows "\<exists>h' ch' ns'. seq_timeout_scan e k h ch (last (p # pre)) = Some (h', ch') \<and>
    chan_ok h' ch' ns' \<and> P_start ch' = Some p \<and>
    reqs h' ns' = scan_list e k (reqs h pre) (reqs h suf)"
  using assms
proof (induction "length (pre @ suf) * Suc (length (pre @ suf)) + length suf"
    arbitrary: h ch pre suf k rule: less_induct)
  case less
  note p = less.prems(2)
  show ?case
  proof (cases suf)
    case Nil
    then have "path h p pre p" using less.prems by (auto simp: chan_ok_def ring_def)
    from path_last [OF this] p less.prems Nil show ?thesis
      by (auto simp: seq_timeout_scan.simps [of e k h ch] intro!: exI [of _ pre])
  next
    case (Cons x suf')
    from less.prems Cons have path: "path h p (pre @ x # suf') p"
      and dist: "distinct (p # pre @ x # suf')" and ok: "chan_ok h ch (pre @ x # suf')"
      by (auto simp: chan_ok_def ring_def)
    obtain n where n: "h (last (p # pre)) = Some n" "next_ptr n = Some x"
      using path path_last [of h p pre x] by (auto simp: path_append)
    obtain t where t: "h x = Some t" using path_node [OF path, of x] by auto
    have xp: "x \<noteq> p" using dist by auto
    show ?thesis
    proof (cases "e (buffer t) k")
      case True
      obtain h1 ch1 n1 where u: "unlink_next h ch (last (p # pre)) x = Some (h1, ch1)"
        "chan_ok h1 ch1 (pre @ suf')" "reqs h1 (pre @ suf') = reqs h (pre @ suf')"
        "P_start ch1 = Some p" "h1 (last (p # pre)) = Some n1" "next_ptr n1 = Some (hd (suf' @ [p]))"
        using chan_ok_unlink [OF ok p] by blast
      have step: "seq_timeout_scan e k h ch (last (p # pre)) =
          seq_timeout_scan e (Suc k) h1 ch1 (hd (suf' @ [p]))"
        using True n t xp p u by (simp add: seq_timeout_scan.simps [of e k h ch] del: last.simps)
      show ?thesis
      proof (cases suf')
        case Nil
        then have "\<exists>h' ch' ns'. seq_timeout_scan e (Suc k) h1 ch1 (last (p # [])) = Some (h', ch') \<and>
            chan_ok h' ch' ns' \<and> P_start ch' = Some p \<and>
            reqs h' ns' = scan_list e (Suc k) (reqs h1 []) (reqs h1 pre)"
          using u Cons by (intro less.hyps) auto
        with step Nil Cons True t u show ?thesis by simp
      next
        case (Cons y ys)
        have "\<exists>h' ch' ns'. seq_timeout_scan e (Suc k) h1 ch1 (last (p # pre @ [y])) = Some (h', ch') \<and>
            chan_ok h' ch' ns' \<and> P_start ch' = Some p \<and>
            reqs h' ns' = scan_list e (Suc k) (reqs h1 (pre @ [y])) (reqs h1 ys)"
          using u Cons \<open>suf = x # suf'\<close> by (intro less.hyps) auto
        with step Cons \<open>suf = x # suf'\<close> True t u show ?thesis by auto
      qed
    next
      case False
      have step: "seq_timeout_scan e k h ch (last (p # pre)) =
          seq_timeout_scan e (Suc k) h ch x"
        using False n t xp p by (simp add: seq_timeout_scan.simps [of e k h ch] del: last.simps)
      have "\<exists>h' ch' ns'. seq_timeout_scan e (Suc k) h ch (last (p # pre @ [x])) = Some (h', ch') \<and>
          chan_ok h' ch' ns' \<and> P_start ch' = Some p \<and>
          reqs h' ns' = scan_list e (Suc k) (reqs h (pre @ [x])) (reqs h suf')"
        using less.prems Cons by (intro less.hyps) auto
      with step Cons False t show ?thesis by simp
    qed
  qed
qed

section \<open>The list operations as a request store\<close>

text \<open>Finding the requests of several responses, one after the other.\<close>

primrec find_reqs ::
    "('s \<Rightarrow> 'm \<Rightarrow> (bool \<times> 's \<times> 'm) option) \<Rightarrow> 's \<Rightarrow> 'm list \<Rightarrow> (bool list \<times> 's) option" where
  "find_reqs fnd s [] = Some ([], s)"
| "find_reqs fnd s (q # qs) = do {
     (found, s, q') \<leftarrow> fnd s q;
     (fs, s) \<leftarrow> find_reqs fnd s qs;
     Some (found # fs, s)
   }"

text \<open>What the transmit and receive tasks rely on: a store of the requests in flight, bounded
  by \<open>cap\<close>, to which requests are added at the end and from which a response takes the
  oldest request it matches.\<close>

locale request_store =
  fixes repr :: "'s \<Rightarrow> 'm list \<Rightarrow> bool"
    and cap :: nat
    and fresh :: "'n \<Rightarrow> 's \<Rightarrow> bool"
    and valid :: "'m \<Rightarrow> bool"
    and stamp :: "'n \<Rightarrow> 'm \<Rightarrow> 'm"
    and insert_req :: "'n \<Rightarrow> 's \<Rightarrow> 'm \<Rightarrow> 's option"
    and find_req :: "'s \<Rightarrow> 'm \<Rightarrow> (bool \<times> 's \<times> 'm) option"
    and matches :: "'m \<Rightarrow> 'm \<Rightarrow> bool"
    and restore :: "'m \<Rightarrow> 'm \<Rightarrow> 'm"
  assumes insert_repr: "repr s rs \<Longrightarrow> fresh n s \<Longrightarrow> valid m \<Longrightarrow>
      \<exists>s'. insert_req n s m = Some s' \<and>
        repr s' ((if length rs = cap then tl rs else rs) @ [stamp n m])"
    and find_hit: "repr s (pre @ r # post) \<Longrightarrow> \<forall>x \<in> set pre. \<not> matches x q \<Longrightarrow> matches r q \<Longrightarrow>
      \<exists>s'. find_req s q = Some (True, s', restore r q) \<and> repr s' (pre @ post)"
    and find_miss: "repr s rs \<Longrightarrow> \<forall>x \<in> set rs. \<not> matches x q \<Longrightarrow>
      find_req s q = Some (False, s, q)"
begin

lemma insert_find:
  assumes "repr s rs" "fresh n s" "valid m"
    and "\<forall>x \<in> set rs. \<not> matches x q" "matches (stamp n m) q"
  shows "\<exists>s1 s2. insert_req n s m = Some s1 \<and>
    find_req s1 q = Some (True, s2, restore (stamp n m) q) \<and>
    repr s2 (if length rs = cap then tl rs else rs)"
proof -
  let ?rs = "if length rs = cap then tl rs else rs"
  obtain s1 where s1: "insert_req n s m = Some s1" "repr s1 (?rs @ stamp n m # [])"
    using insert_repr [OF assms(1,2,3)] by auto
  have "\<forall>x \<in> set ?rs. \<not> matches x q"
    using assms(4) by (cases rs) auto
  from find_hit [OF s1(2) this assms(5)] s1(1) show ?thesis by auto
qed

lemma find_reqs_any_order:
  assumes "\<And>r q. matches r q \<longleftrightarrow> kr r = kq q"
    and "repr s rs" "distinct (map kr rs)" "distinct (map kq qs)" "kq ` set qs \<subseteq> kr ` set rs"
  shows "\<exists>s'. find_reqs find_req s qs = Some (replicate (length qs) True, s') \<and>
    repr s' (filter (\<lambda>r. kr r \<notin> kq ` set qs) rs)"
  using assms(2-)
proof (induction qs arbitrary: s rs)
  case Nil
  then show ?case by simp
next
  case (Cons q qs)
  obtain pre r post where rs: "rs = pre @ r # post" "kr r = kq q"
    using Cons.prems(4) by (auto simp: in_set_conv_decomp dest!: split_list)
  then have pre: "\<forall>x \<in> set (pre @ post). kr x \<noteq> kq q"
    using Cons.prems(2) by (auto simp: image_iff)
  then obtain s1 where s1: "find_req s q = Some (True, s1, restore r q)" "repr s1 (pre @ post)"
    using find_hit [of s pre r post q] Cons.prems(1) rs assms(1) by auto
  have "kq ` set qs \<subseteq> kr ` set (pre @ post)"
  proof (rule image_subsetI)
    fix x assume "x \<in> set qs"
    then have "kq x \<in> kq ` set qs" by (rule imageI)
    then have "kq x \<noteq> kq q" "kq x \<in> kr ` set rs" using Cons.prems(3,4) by auto
    with rs show "kq x \<in> kr ` set (pre @ post)" by auto
  qed
  with Cons.IH [OF s1(2)] Cons.prems rs obtain s' where
    s': "find_reqs find_req s1 qs = Some (replicate (length qs) True, s')"
      "repr s' (filter (\<lambda>r. kr r \<notin> kq ` set qs) (pre @ post))" by auto
  have "filter (\<lambda>r. kr r \<notin> kq ` set (q # qs)) rs = filter (\<lambda>r. kr r \<notin> kq ` set qs) (pre @ post)"
    using rs pre by (auto intro!: arg_cong2 [of _ _ _ _ "(@)"] filter_cong)
  with s1 s' show ?case by auto
qed

end

section \<open>The heap implements the request store\<close>

definition restore_req :: "ipmi_msg \<Rightarrow> ipmi_msg \<Rightarrow> ipmi_msg" where
  "restore_req r q = q\<lparr>seq_source := seq_source r, pldm_inst_id := pldm_inst_id r,
     InF_source := InF_source r, InF_target := InF_target r\<rparr>"

definition heap_insert :: "addr \<times> ipmi_msg_cfg \<times> u32 \<Rightarrow> heap \<times> ipmb_chan \<Rightarrow> ipmi_msg \<Rightarrow>
    (heap \<times> ipmb_chan) option" where
  "heap_insert blk s msg = do {
     (h, ch, _) \<leftarrow> insert_req_ipmi_msg 0 (Some (fst blk, fst (snd blk))) (snd (snd blk))
       (fst s) (snd s) (P_start (snd s)) msg;
     Some (h, ch)
   }"

definition heap_find :: "heap \<times> ipmb_chan \<Rightarrow> ipmi_msg \<Rightarrow> (bool \<times> (heap \<times> ipmb_chan) \<times> ipmi_msg) option" where
  "heap_find s msg = do {
     (found, h, ch, msg) \<leftarrow> find_req_ipmi_msg 0 (fst s) (snd s) (P_start (snd s)) msg;
     Some (found, (h, ch), msg)
   }"

lemma pending_insert:
  assumes "pending h ch rs" and "h new = None" and "unat (seq_target msg) < SEQ_NUM"
  shows "\<exists>h' ch'. insert_req_ipmi_msg 0 (Some (new, junk)) now h ch (P_start ch) msg =
      Some (h', ch', msg\<lparr>timestamp := now\<rparr>) \<and>
    pending h' ch' (kept_nodes rs @ [msg\<lparr>timestamp := now\<rparr>]) \<and>
    seq_table ch' = (seq_table ch)[unat (seq_target msg) := True]"
proof -
  obtain ns where ns: "chan_ok h ch ns" "rs = reqs h ns" using assms(1) by (auto simp: pending_def)
  obtain p where p: "P_start ch = Some p" "path h p ns p" using ns(1) by (rule chan_ok_ring)
  have "new \<notin> set (p # kept_nodes ns)"
    using path_node [OF p(2), of new] assms(2) kept_nodes_subset [of ns] by auto
  from insert_req_ok [OF ns(1) p(1) this assms(3), of junk now] show ?thesis
    unfolding pending_def by (metis ns(2) reqs_Cons reqs_Nil reqs_append reqs_kept_nodes)
qed

lemma pending_find_hit:
  assumes "pending h ch (pre @ r # post)" and "\<forall>x \<in> set pre. \<not> req_matches x msg" and "req_matches r msg"
  shows "\<exists>h' ch'. find_req_ipmi_msg 0 h ch (P_start ch) msg = Some (True, h', ch', restore_req r msg) \<and>
    pending h' ch' (pre @ post) \<and> seq_table ch' = (seq_table ch)[unat (seq_target r) := False]"
proof -
  obtain ns where ns: "chan_ok h ch ns" "pre @ r # post = reqs h ns"
    using assms(1) by (auto simp: pending_def)
  then obtain pre' x post' where x: "ns = pre' @ x # post'" "pre = reqs h pre'"
      "r = buffer (the (h x))" "post = reqs h post'"
    by (auto simp: reqs_def append_eq_map_conv)
  show ?thesis
    using find_req_hit [of h ch pre' x post' msg] ns(1) assms(2,3) x
    unfolding pending_def restore_req_def by (metis reqs_append)
qed

lemma pending_find_miss:
  assumes "pending h ch rs" and "\<forall>x \<in> set rs. \<not> req_matches x msg"
  shows "find_req_ipmi_msg 0 h ch (P_start ch) msg = Some (False, h, ch, msg)"
  using assms find_req_miss by (auto simp: pending_def)

interpretation req_store: request_store
    "\<lambda>s. pending (fst s) (snd s)" MAX_SEQ_QUENE "\<lambda>n s. fst s (fst n) = None"
    "\<lambda>m. unat (seq_target m) < SEQ_NUM" "\<lambda>n m. m\<lparr>timestamp := snd (snd n)\<rparr>"
    heap_insert heap_find req_matches restore_req
proof (unfold_locales, goal_cases)
  case (1 s rs n m)
  from pending_insert [OF this, of "fst (snd n)" "snd (snd n)"] show ?case
    by (auto simp: heap_insert_def kept_nodes_def)
next
  case (2 s pre r post q)
  from pending_find_hit [OF this] show ?case by (auto simp: heap_find_def)
next
  case (3 s rs q)
  from pending_find_miss [OF this] show ?case by (simp add: heap_find_def)
qed

section \<open>Allocation of sequence numbers\<close>

lemma unat_seq_next: "unat ((cur + 1 :: u8) AND 0x3f) = Suc (unat cur) mod SEQ_NUM"
proof -
  have "(0x3f :: u8) = mask 6" by (simp add: mask_eq_exp_minus_1)
  then have "(cur + 1) AND 0x3f = take_bit 6 (cur + 1)"
    by (simp only: take_bit_eq_mask)
  then have "unat ((cur + 1) AND 0x3f) = take_bit 6 (unat (cur + 1))"
    by (simp only: unsigned_take_bit_eq)
  also have "\<dots> = (Suc (unat cur) mod 256) mod 64"
    by (simp add: take_bit_eq_mod unat_word_ariths)
  finally show ?thesis by (simp add: mod_mod_cancel)
qed

lemma get_free_seq_loop_spec:
  assumes "length tab = SEQ_NUM" and "count < SEQ_NUM"
  shows "\<exists>i s. get_free_seq_loop tab cur count = Some s \<and> 1 \<le> i \<and> i \<le> SEQ_NUM - count \<and>
    unat s = (unat cur + i) mod SEQ_NUM \<and>
    (\<forall>j. 1 \<le> j \<and> j < i \<longrightarrow> tab ! ((unat cur + j) mod SEQ_NUM)) \<and>
    (tab ! unat s \<longrightarrow> i = SEQ_NUM - count)"
  using assms
proof (induction tab cur count rule: get_free_seq_loop.induct)
  case (1 tab cur count)
  let ?cur = "(cur + 1) AND 0x3f"
  have lt: "unat ?cur < SEQ_NUM" by (simp add: unat_seq_next)
  have res: "get_free_seq_loop tab cur count =
      (if \<not> tab ! unat ?cur \<or> Suc count \<ge> SEQ_NUM then Some ?cur
       else get_free_seq_loop tab ?cur (Suc count))"
    using lt 1(2) by (subst get_free_seq_loop.simps) (simp add: Let_def)
  show ?case
  proof (cases "\<not> tab ! unat ?cur \<or> Suc count \<ge> SEQ_NUM")
    case True
    with res 1(3) show ?thesis
      by (intro exI [of _ 1] exI [of _ ?cur]) (auto simp: unat_seq_next)
  next
    case False
    then have H: "\<not> SEQ_NUM \<le> Suc count" "Suc count < SEQ_NUM" by simp_all
    have ld: "load tab (unat ?cur) = Some True" using False lt 1(2) by simp
    have tt: "\<not> \<not> True" by simp
    from 1(1) [OF refl ld tt H(1) 1(2) H(2)] obtain i s
      where i: "get_free_seq_loop tab ?cur (Suc count) = Some s" "1 \<le> i"
      "i \<le> SEQ_NUM - Suc count" "unat s = (unat ?cur + i) mod SEQ_NUM"
      "\<forall>j. 1 \<le> j \<and> j < i \<longrightarrow> tab ! ((unat ?cur + j) mod SEQ_NUM)"
      "tab ! unat s \<longrightarrow> i = SEQ_NUM - Suc count"
      by blast
    have eq: "(unat ?cur + j) mod SEQ_NUM = (unat cur + Suc j) mod SEQ_NUM" for j
      by (simp add: unat_seq_next mod_add_left_eq)
    have "tab ! ((unat cur + j) mod SEQ_NUM)" if "1 \<le> j" "j < Suc i" for j
    proof (cases "j = 1")
      case True
      then show ?thesis using False by (simp add: unat_seq_next)
    next
      case False
      with that obtain m where m: "j = Suc m" "1 \<le> m" "m < i" by (cases j) auto
      have "tab ! ((unat ?cur + m) mod SEQ_NUM)" using m i(5) by blast
      then show ?thesis using m(1) by (simp only: eq)
    qed
    then have used: "\<forall>j. 1 \<le> j \<and> j < Suc i \<longrightarrow> tab ! ((unat cur + j) mod SEQ_NUM)" by blast
    have "get_free_seq_loop tab cur count = Some s" using res False i(1) by (simp only: if_False)
    moreover have "1 \<le> Suc i" "Suc i \<le> SEQ_NUM - count" using i(3) H(2) by linarith+
    moreover have "unat s = (unat cur + Suc i) mod SEQ_NUM" using i(4) by (simp only: eq)
    moreover have "tab ! unat s \<longrightarrow> Suc i = SEQ_NUM - count" using i(6) H(2) by linarith
    ultimately show ?thesis using used by blast
  qed
qed

lemma all_residues:
  assumes "\<forall>j. 1 \<le> j \<and> j \<le> SEQ_NUM \<longrightarrow> P ((c + j) mod SEQ_NUM)" and "i < SEQ_NUM"
  shows "P i"
proof -
  let ?c = "c mod SEQ_NUM"
  let ?j = "if i > ?c then i - ?c else i + SEQ_NUM - ?c"
  have "(?c + ?j) mod SEQ_NUM = i"
    using assms(2) by auto
  then have "(c + ?j) mod SEQ_NUM = i"
    by (simp only: mod_add_left_eq)
  moreover have "1 \<le> ?j" "?j \<le> SEQ_NUM" using assms(2) by auto
  ultimately show ?thesis using assms(1) by metis
qed

lemma get_free_seq_result:
  assumes "length (seq_table ch) = SEQ_NUM"
  shows "\<exists>s. get_free_seq ch = Some (s, ch\<lparr>current_seq := s\<rparr>) \<and> unat s < SEQ_NUM \<and>
    (seq_table ch ! unat s \<longrightarrow> (\<forall>i < SEQ_NUM. seq_table ch ! i))"
proof -
  obtain i s where i: "get_free_seq_loop (seq_table ch) (current_seq ch) 0 = Some s" "i \<le> SEQ_NUM"
    "unat s = (unat (current_seq ch) + i) mod SEQ_NUM"
    "\<forall>j. 1 \<le> j \<and> j < i \<longrightarrow> seq_table ch ! ((unat (current_seq ch) + j) mod SEQ_NUM)"
    "seq_table ch ! unat s \<longrightarrow> i = SEQ_NUM"
    using get_free_seq_loop_spec [OF assms, of 0 "current_seq ch"] by (metis diff_zero zero_less_numeral)
  have "\<forall>k < SEQ_NUM. seq_table ch ! k" if u: "seq_table ch ! unat s"
  proof (intro allI impI)
    fix k :: nat assume "k < SEQ_NUM"
    have "i = SEQ_NUM" using i(5) u by blast
    have "seq_table ch ! ((unat (current_seq ch) + j) mod SEQ_NUM)" if j: "1 \<le> j \<and> j \<le> SEQ_NUM" for j
    proof (cases "j = i")
      case True
      then show ?thesis using u by (simp only: i(3))
    next
      case False
      then have "1 \<le> j \<and> j < i" using j \<open>i = SEQ_NUM\<close> by linarith
      then show ?thesis using i(4) by blast
    qed
    then have "\<forall>j. 1 \<le> j \<and> j \<le> SEQ_NUM \<longrightarrow>
        seq_table ch ! ((unat (current_seq ch) + j) mod SEQ_NUM)" by blast
    from all_residues [OF this \<open>k < SEQ_NUM\<close>] show "seq_table ch ! k" .
  qed
  moreover have "unat s < SEQ_NUM" using i(3) by (metis mod_less_divisor zero_less_numeral)
  moreover have "get_free_seq ch = Some (s, ch\<lparr>current_seq := s\<rparr>)"
    using i(1) by (simp add: get_free_seq_def)
  ultimately show ?thesis by blast
qed

section \<open>The timeout scan on lists\<close>

lemma scan_list_subset: "set (scan_list e k pre suf) \<subseteq> set pre \<union> set suf"
proof (induction e k pre suf rule: scan_list.induct)
  case (2 e k pre x suf)
  then show ?case by (cases suf) auto
qed simp

lemma scan_list_subseq: "subseq (scan_list e k pre suf) (pre @ suf)"
proof (induction e k pre suf rule: scan_list.induct)
  case (2 e k pre x suf)
  show ?case
  proof (cases "e x k")
    case True
    show ?thesis
    proof (cases suf)
      case Nil
      then have "subseq (scan_list e k pre (x # suf)) pre" using 2 True by simp
      moreover have "subseq pre (pre @ x # suf)" by (rule list_emb_prefix) simp
      ultimately show ?thesis by (rule subseq_order.trans)
    next
      case (Cons y ys)
      then have "subseq (scan_list e k pre (x # suf)) (pre @ y # ys)" using 2 True by simp
      moreover have "subseq (pre @ y # ys) (pre @ x # suf)"
        unfolding Cons by (rule list_emb_append_mono) auto
      ultimately show ?thesis by (rule subseq_order.trans)
    qed
  next
    case False
    with 2 show ?thesis by simp
  qed
qed simp

lemma scan_list_keeps:
  "m \<in> set pre \<union> set suf \<Longrightarrow> \<forall>k. \<not> e m k \<Longrightarrow> m \<in> set (scan_list e k pre suf)"
proof (induction e k pre suf rule: scan_list.induct)
  case (2 e k pre x suf)
  then show ?case by (cases suf) auto
qed simp

lemma scan_list_length: "length (scan_list e k pre suf) \<le> length pre + length suf"
proof (induction e k pre suf rule: scan_list.induct)
  case (2 e k pre x suf)
  then show ?case by (cases suf) auto
qed simp

lemma scan_list_progress:
  "\<exists>m \<in> set suf. \<forall>k. e m k \<Longrightarrow> length (scan_list e k pre suf) < length pre + length suf"
proof (induction e k pre suf rule: scan_list.induct)
  case (2 e k pre x suf)
  show ?case
  proof (cases "e x k")
    case True
    show ?thesis
    proof (cases suf)
      case Nil
      then show ?thesis using True scan_list_length [of e "Suc k" "[]" pre] by simp
    next
      case (Cons y ys)
      then show ?thesis using True scan_list_length [of e "Suc k" "pre @ [y]" ys] by simp
    qed
  next
    case False
    with 2 show ?thesis by auto
  qed
qed simp

lemma pending_scan:
  assumes "pending h ch rs" and p: "P_start ch = Some p"
  shows "\<exists>h' ch'. seq_timeout_scan e k h ch p = Some (h', ch') \<and> pending h' ch' (scan_list e k [] rs)"
proof -
  obtain ns where ns: "chan_ok h ch ([] @ ns)" "rs = reqs h ns"
    using assms(1) by (auto simp: pending_def)
  from seq_timeout_scan_path [OF ns(1) p, of e k] ns(2) show ?thesis
    unfolding pending_def by (metis last.simps reqs_Nil)
qed

lemma pending_P_start: "pending h ch rs \<Longrightarrow> \<exists>p. P_start ch = Some p"
  by (auto simp: pending_def chan_ok_def)

lemma IPMB_SeqTimeout_channel_scan:
  assumes "pending h ch rs"
  shows "\<exists>h' ch'. IPMB_SeqTimeout_channel 0 fix_ticks freq clock True h ch = Some (h', ch') \<and>
    pending h' ch' (scan_list (\<lambda>req k. seq_expired fix_ticks freq (clock k) req) 0 [] rs)"
  using pending_P_start [OF assms] pending_scan [OF assms]
  by (fastforce simp: IPMB_SeqTimeout_channel_def)

lemma clear_req_pending:
  assumes "pending h ch rs"
  shows "\<exists>h' ch'. clear_req_ipmi_msg 0 h ch (P_start ch) msg = Some (h', ch') \<and>
    pending h' ch' (remove_first (\<lambda>r. clear_matches r msg) rs)"
proof -
  obtain ns where ns: "chan_ok h ch ([] @ ns)" "rs = reqs h ns"
    using assms(1) by (auto simp: pending_def)
  obtain p where p: "P_start ch = Some p" using pending_P_start [OF assms] by blast
  from clear_loop_path [OF ns(1) p, of msg] ns(2) p show ?thesis
    by (auto simp: clear_req_ipmi_msg_def pending_def) metis
qed

section \<open>An open list\<close>

text \<open>On a list whose last node points to \<open>NULL\<close>, a search that matches nothing runs into
  the null pointer.\<close>

lemma find_prev_open:
  assumes "path h a xs b" and "distinct (a # xs)" and "p \<notin> set xs" and "h (last (a # xs)) = Some n"
    and "\<forall>m \<in> set (reqs h xs). \<not> req_matches m msg"
  shows "find_prev (h(last (a # xs) \<mapsto> n\<lparr>next_ptr := None\<rparr>)) p msg a = None"
  using assms
proof (induction xs arbitrary: a)
  case Nil
  then show ?case by (simp add: find_prev.simps [of _ p msg a])
next
  case (Cons x xs)
  let ?h = "h(last (a # x # xs) \<mapsto> n\<lparr>next_ptr := None\<rparr>)"
  obtain na nx where na: "h a = Some na" "next_ptr na = Some x" and nx: "h x = Some nx"
    using Cons.prems(1) path_node [of h x xs b x] by auto
  have "last (x # xs) \<in> set (x # xs)" by (rule last_in_set) simp
  then have a: "?h a = Some na" using Cons.prems(2) na by auto
  have "\<exists>nx'. ?h x = Some nx' \<and> buffer nx' = buffer nx"
    using nx Cons.prems(4) by (auto simp del: last.simps)
  then obtain nx' where nx': "?h x = Some nx'" "buffer nx' = buffer nx" by blast
  have "find_prev ?h p msg a = find_prev ?h p msg x"
    using a na nx nx' Cons.prems(3,5) by (subst find_prev.simps) (auto simp del: fun_upd_apply)
  moreover have "find_prev (h(last (x # xs) \<mapsto> n\<lparr>next_ptr := None\<rparr>)) p msg x = None"
    by (rule Cons.IH) (use Cons.prems in auto)
  ultimately show ?case by (simp only: last_ConsR list.distinct not_False_eq_True)
qed

section \<open>Concrete channels\<close>

text \<open>A channel with the dummy node at address 1 and \<open>n\<close> pending requests with the sequence
  numbers \<open>0, 1, ...\<close>, recorded at the times \<open>ts\<close>.\<close>

definition demo_req :: "(nat \<Rightarrow> u32) \<Rightarrow> nat \<Rightarrow> ipmi_msg" where
  "demo_req ts i = zero_msg\<lparr>seq_target := of_nat i, timestamp := ts i\<rparr>"

definition demo_heap :: "nat \<Rightarrow> (nat \<Rightarrow> u32) \<Rightarrow> heap" where
  "demo_heap n ts a =
     (if a = 0 \<or> a > Suc n then None
      else Some \<lparr>buffer = demo_req ts (a - 2), retries = 0,
                 next_ptr = Some (if a = Suc n then 1 else Suc a)\<rparr>)"

definition demo_chan :: "nat \<Rightarrow> ipmb_chan" where
  "demo_chan n = \<lparr>P_start = Some 1, seq_current_count = of_nat n, current_seq = 0,
     seq_table = replicate n True @ replicate (SEQ_NUM - n) False, ipmb_tx_disable = False\<rparr>"

lemma demo_path: "1 \<le> a \<Longrightarrow> a + k = Suc n \<Longrightarrow> path (demo_heap n ts) a [Suc a..<Suc (a + k)] 1"
proof (induction k arbitrary: a)
  case 0
  then show ?case by (simp add: demo_heap_def)
next
  case (Suc k)
  then have "[Suc a..<Suc (a + Suc k)] = Suc a # [Suc (Suc a)..<Suc (Suc a + k)]"
    by (subst upt_conv_Cons) auto
  with Suc.IH [of "Suc a"] Suc.prems show ?case by (simp add: demo_heap_def del: upt_Suc)
qed

lemma demo_reqs: "reqs (demo_heap n ts) [2..<Suc (Suc n)] = map (demo_req ts) [0..<n]"
proof -
  have "[2..<Suc (Suc n)] = map (\<lambda>i. i + 2) [0..<n]" by (simp only: map_add_upt) simp
  then show ?thesis by (simp add: reqs_def demo_heap_def)
qed

lemma pending_demo:
  assumes "n \<le> MAX_SEQ_QUENE"
  shows "pending (demo_heap n ts) (demo_chan n) (map (demo_req ts) [0..<n])"
proof -
  have "chan_ok (demo_heap n ts) (demo_chan n) [2..<Suc (Suc n)]"
    unfolding chan_ok_def
  proof (intro conjI)
    show "\<exists>p. P_start (demo_chan n) = Some p \<and> ring (demo_heap n ts) p [2..<Suc (Suc n)]"
      using demo_path [of 1 n n ts] by (simp add: demo_chan_def ring_def numeral_2_eq_2 del: upt_Suc)
    show "unat (seq_current_count (demo_chan n)) = length [2..<Suc (Suc n)]"
      using assms by (simp add: demo_chan_def unat_of_nat take_bit_nat_eq_self del: upt_Suc)
    show "\<forall>m \<in> set (reqs (demo_heap n ts) [2..<Suc (Suc n)]). unat (seq_target m) < SEQ_NUM"
      using assms by (simp add: demo_reqs demo_req_def del: upt_Suc)
  qed (use assms in \<open>auto simp: demo_chan_def\<close>)
  then show ?thesis by (metis pending_def demo_reqs)
qed

section \<open>Properties\<close>

text \<open>C14. Recording a request and receiving its response: on an intact channel, a request whose
  answer matches no older request is found again. The search reports success, restores the
  source data of that request in the response, releases its node and leaves exactly the
  requests that were pending before (less the oldest one, when the list was full).\<close>

theorem insert_find_roundtrip:
  assumes "pending h ch rs" and "h new = None" and "unat (seq_target req) < SEQ_NUM"
    and "\<forall>r \<in> set rs. \<not> req_matches r resp" and "req_matches req resp"
  shows "\<exists>h1 ch1 h2 ch2.
    insert_req_ipmi_msg 0 (Some (new, junk)) now h ch (P_start ch) req =
      Some (h1, ch1, req\<lparr>timestamp := now\<rparr>) \<and>
    find_req_ipmi_msg 0 h1 ch1 (P_start ch1) resp =
      Some (True, h2, ch2, restore_req req resp) \<and>
    pending h2 ch2 (kept_nodes rs)"
proof -
  obtain h1 ch1 where i: "insert_req_ipmi_msg 0 (Some (new, junk)) now h ch (P_start ch) req =
      Some (h1, ch1, req\<lparr>timestamp := now\<rparr>)"
    using pending_insert [OF assms(1-3)] by blast
  have m: "req_matches (req\<lparr>timestamp := now\<rparr>) resp"
    using assms(5) by (simp add: req_matches_def)
  have "restore_req (req\<lparr>timestamp := now\<rparr>) resp = restore_req req resp"
    by (simp add: restore_req_def)
  then show ?thesis
    using req_store.insert_find [of "(h, ch)" rs "(new, junk, now)" req resp] assms m i
    by (auto simp: heap_insert_def heap_find_def kept_nodes_def split: bind_splits prod.splits)
qed

theorem insert_find_roundtrip_witness:
  "\<exists>h1 ch1 h2 ch2.
    insert_req_ipmi_msg 0 (Some (9, \<lparr>buffer = zero_msg, retries = 0, next_ptr = None\<rparr>)) 50
        (demo_heap 2 (\<lambda>_. 7)) (demo_chan 2) (P_start (demo_chan 2)) (demo_req (\<lambda>_. 0) 5) =
      Some (h1, ch1, (demo_req (\<lambda>_. 0) 5)\<lparr>timestamp := 50\<rparr>) \<and>
    find_req_ipmi_msg 0 h1 ch1 (P_start ch1) (zero_msg\<lparr>netfn := 1, seq_target := 5\<rparr>) =
      Some (True, h2, ch2, restore_req (demo_req (\<lambda>_. 0) 5) (zero_msg\<lparr>netfn := 1, seq_target := 5\<rparr>)) \<and>
    pending h2 ch2 (kept_nodes (map (demo_req (\<lambda>_. 7)) [0..<2]))"
proof (rule insert_find_roundtrip)
  show "pending (demo_heap 2 (\<lambda>_. 7)) (demo_chan 2) (map (demo_req (\<lambda>_. 7)) [0..<2])"
    by (rule pending_demo) simp
qed (simp_all add: demo_heap_def demo_req_def req_matches_def zero_msg_def upt_rec)

text \<open>C15. \<open>find_req_ipmi_msg\<close> on an intact channel refines the list operation "take the first
  request this response answers": it returns false and changes nothing when no pending request
  matches, and otherwise restores that request's source data, removes exactly that request and
  releases its sequence number.\<close>

theorem find_req_ipmi_msg_refines:
  assumes "pending h ch rs"
  shows "case List.find (\<lambda>r. req_matches r msg) rs of
      None \<Rightarrow> find_req_ipmi_msg 0 h ch (P_start ch) msg = Some (False, h, ch, msg)
    | Some r \<Rightarrow> \<exists>h' ch'.
        find_req_ipmi_msg 0 h ch (P_start ch) msg = Some (True, h', ch', restore_req r msg) \<and>
        pending h' ch' (remove_first (\<lambda>r. req_matches r msg) rs) \<and>
        seq_table ch' = (seq_table ch)[unat (seq_target r) := False]"
proof (cases rule: first_hit_cases [of rs "\<lambda>r. req_matches r msg"])
  case none
  then have "List.find (\<lambda>r. req_matches r msg) rs = None" by (simp add: find_None_iff)
  with none assms show ?thesis by (simp add: pending_find_miss)
next
  case (hit pre x post)
  then have "List.find (\<lambda>r. req_matches r msg) rs = Some x"
    by (auto simp: find_Some_iff nth_append intro!: exI [of _ "length pre"])
  with hit assms pending_find_hit [of h ch pre x post msg] show ?thesis
    by (simp add: remove_first_append)
qed

theorem find_req_ipmi_msg_refines_witness:
  "find_req_ipmi_msg 0 (demo_heap 2 (\<lambda>_. 7)) (demo_chan 2) (P_start (demo_chan 2)) (zero_msg\<lparr>netfn := 3\<rparr>) =
     Some (False, demo_heap 2 (\<lambda>_. 7), demo_chan 2, zero_msg\<lparr>netfn := 3\<rparr>)"
proof -
  have "pending (demo_heap 2 (\<lambda>_. 7)) (demo_chan 2) (map (demo_req (\<lambda>_. 7)) [0..<2])"
    by (rule pending_demo) simp
  from find_req_ipmi_msg_refines [OF this, of "zero_msg\<lparr>netfn := 3\<rparr>"] show ?thesis
    by (simp add: numeral_2_eq_2 demo_req_def req_matches_def zero_msg_def)
qed

text \<open>C17. Responses may arrive in any order: when the pending requests differ in network function,
  command or sequence number and every response answers one of them, each response finds its
  request, and afterwards exactly the unanswered requests are pending, in their order.\<close>

theorem responses_in_any_order:
  assumes "pending h ch rs"
    and "distinct (map (\<lambda>r. (netfn r, cmd r, seq_target r)) rs)"
    and "distinct (map (\<lambda>q. (netfn q AND NOT 0x01, cmd q, seq_target q)) qs)"
    and "(\<lambda>q. (netfn q AND NOT 0x01, cmd q, seq_target q)) ` set qs
      \<subseteq> (\<lambda>r. (netfn r, cmd r, seq_target r)) ` set rs"
  shows "\<exists>h' ch'. find_reqs heap_find (h, ch) qs = Some (replicate (length qs) True, (h', ch')) \<and>
    pending h' ch' (filter (\<lambda>r. (netfn r, cmd r, seq_target r)
      \<notin> (\<lambda>q. (netfn q AND NOT 0x01, cmd q, seq_target q)) ` set qs) rs)"
  using req_store.find_reqs_any_order [of "\<lambda>r. (netfn r, cmd r, seq_target r)"
      "\<lambda>q. (netfn q AND NOT 0x01, cmd q, seq_target q)" "(h, ch)" rs qs] assms
  by (auto simp: req_matches_def)

theorem responses_in_any_order_witness:
  "\<exists>h' ch'. find_reqs heap_find (demo_heap 3 (\<lambda>_. 7), demo_chan 3)
      [zero_msg\<lparr>netfn := 1, seq_target := 2\<rparr>, zero_msg\<lparr>netfn := 1, seq_target := 0\<rparr>] =
      Some ([True, True], (h', ch')) \<and> pending h' ch' [demo_req (\<lambda>_. 7) 1]"
proof -
  have "pending (demo_heap 3 (\<lambda>_. 7)) (demo_chan 3) (map (demo_req (\<lambda>_. 7)) [0..<3])"
    by (rule pending_demo) simp
  then have p: "pending (demo_heap 3 (\<lambda>_. 7)) (demo_chan 3)
      [demo_req (\<lambda>_. 7) 0, demo_req (\<lambda>_. 7) 1, demo_req (\<lambda>_. 7) 2]"
    by (simp add: upt_rec numeral_2_eq_2)
  show ?thesis
    using responses_in_any_order [OF p, of
      "[zero_msg\<lparr>netfn := 1, seq_target := 2\<rparr>, zero_msg\<lparr>netfn := 1, seq_target := 0\<rparr>]"]
    by (simp add: demo_req_def zero_msg_def)
qed

text \<open>\<open>clear_req_ipmi_msg\<close> terminates on an intact channel and removes the first pending
  request that has the message's network function, command and sequence number, and nothing
  else.\<close>

theorem clear_req_ipmi_msg_refines:
  assumes "pending h ch rs"
  shows "\<exists>h' ch'. clear_req_ipmi_msg 0 h ch (P_start ch) msg = Some (h', ch') \<and>
    pending h' ch' (remove_first (\<lambda>r. clear_matches r msg) rs)"
  using assms by (rule clear_req_pending)

theorem clear_req_ipmi_msg_refines_witness:
  "\<exists>h' ch'. clear_req_ipmi_msg 0 (demo_heap 2 (\<lambda>_. 7)) (demo_chan 2) (P_start (demo_chan 2)) zero_msg =
      Some (h', ch') \<and> pending h' ch' [demo_req (\<lambda>_. 7) 1]"
proof -
  have "pending (demo_heap 2 (\<lambda>_. 7)) (demo_chan 2) (map (demo_req (\<lambda>_. 7)) [0..<2])"
    by (rule pending_demo) simp
  from clear_req_ipmi_msg_refines [OF this, of zero_msg] show ?thesis
    by (simp add: upt_rec demo_req_def clear_matches_def zero_msg_def)
qed

text \<open>\<open>get_free_seq\<close> always returns a number below 64, and one that is not registered
  unless all 64 numbers are registered.\<close>

theorem get_free_seq_free:
  assumes "length (seq_table ch) = SEQ_NUM"
  shows "\<exists>s. get_free_seq ch = Some (s, ch\<lparr>current_seq := s\<rparr>) \<and> unat s < SEQ_NUM \<and>
    (seq_table ch ! unat s \<longrightarrow> (\<forall>i < SEQ_NUM. seq_table ch ! i))"
  using assms by (rule get_free_seq_result)

theorem get_free_seq_free_witness:
  "\<exists>s. get_free_seq (demo_chan 2) = Some (s, (demo_chan 2)\<lparr>current_seq := s\<rparr>) \<and> unat s < 64 \<and>
    \<not> seq_table (demo_chan 2) ! unat s"
proof -
  have l: "length (seq_table (demo_chan 2)) = SEQ_NUM" by (simp add: demo_chan_def)
  have "\<not> seq_table (demo_chan 2) ! 63" by (simp add: demo_chan_def nth_append)
  moreover obtain s where "get_free_seq (demo_chan 2) = Some (s, (demo_chan 2)\<lparr>current_seq := s\<rparr>)"
    "unat s < SEQ_NUM" "seq_table (demo_chan 2) ! unat s \<longrightarrow> (\<forall>i < SEQ_NUM. seq_table (demo_chan 2) ! i)"
    using get_free_seq_free [OF l] by blast
  moreover have "(63 :: nat) < SEQ_NUM" by simp
  ultimately show ?thesis by blast
qed

text \<open>The age of a request at a reading of the tick counter, and what the scan takes for too old:
  more than three seconds, or an age with the top bit set (a time stamp from the future).\<close>

definition request_age :: "u32 \<Rightarrow> u32 \<Rightarrow> ipmi_msg \<Rightarrow> nat" where
  "request_age tick_fix now req = unat (now + tick_fix - timestamp req)"

lemma top_bit_u32: "(a :: u32) AND 0x80000000 \<noteq> 0 \<longleftrightarrow> 2 ^ 31 \<le> unat a"
proof -
  have "a AND 2 ^ 31 \<noteq> 0 \<longleftrightarrow> bit a 31" by (simp only: and_exp_eq_0_iff_not_bit not_not)
  also have "\<dots> \<longleftrightarrow> bit (unat a) 31" by (simp add: bit_unsigned_iff)
  also have "\<dots> \<longleftrightarrow> odd (unat a div 2147483648)" by (simp add: bit_iff_odd)
  also have "\<dots> \<longleftrightarrow> 2147483648 \<le> unat a"
  proof -
    have "unat a < 4294967296" by (rule less_le_trans [OF unsigned_less]) simp
    then have "unat a div 2147483648 = 0 \<or> unat a div 2147483648 = 1" by linarith
    then show ?thesis by (cases "2147483648 \<le> unat a") auto
  qed
  finally show ?thesis by simp
qed

lemma seq_expired_age:
  "seq_expired tick_fix freq now req \<longleftrightarrow>
    unat (3 * freq) < request_age tick_fix now req \<or> 2 ^ 31 \<le> request_age tick_fix now req"
  by (simp add: seq_expired_def request_age_def top_bit_u32 word_less_nat_alt)

text \<open>C20. The timeout scan of an enabled channel whose mutex is free ends and leaves an intact list, in the
  order it had. A request
  is too old after three seconds (\<open>IPMB_SEQ_TIMEOUT_MS\<close> is 3000, and \<open>freq\<close> ticks are a second), or when
  its age has the top bit set: a request that is not too old at any reading of the clock is kept, so one
  that has waited for one to three seconds survives, although the comment in the loop says that more
  than 1000 ms are enough; a request is removed only if it is too old at some reading; and when some
  request is too old at every reading, at least one is removed (not all of them: the successor of a
  removed request is not examined). The threshold is a 32-bit product, which
  is three seconds as long as it does not wrap.\<close>

theorem IPMB_SeqTimeout_sound:
  assumes "pending h ch rs"
  shows "\<exists>h' ch' rs'. IPMB_SeqTimeout_channel 0 tick_fix freq clock True h ch = Some (h', ch') \<and>
    pending h' ch' rs' \<and> subseq rs' rs \<and>
    (\<forall>r \<in> set rs. (\<forall>k. request_age tick_fix (clock k) r \<le> unat (3 * freq) \<and> request_age tick_fix (clock k) r < 2 ^ 31) \<longrightarrow>
      r \<in> set rs') \<and>
    ((\<exists>r \<in> set rs. \<forall>k. unat (3 * freq) < request_age tick_fix (clock k) r \<or> 2 ^ 31 \<le> request_age tick_fix (clock k) r) \<longrightarrow>
      length rs' < length rs)"
proof -
  let ?e = "\<lambda>req k. seq_expired tick_fix freq (clock k) req"
  let ?rs = "scan_list ?e 0 [] rs"
  have "subseq ?rs rs" using scan_list_subseq [of ?e 0 "[]" rs] by simp
  moreover have "\<forall>r \<in> set rs. (\<forall>k. \<not> ?e r k) \<longrightarrow> r \<in> set ?rs"
    using scan_list_keeps [of _ "[]" rs ?e 0] by simp
  moreover have "(\<exists>r \<in> set rs. \<forall>k. ?e r k) \<longrightarrow> length ?rs < length rs"
    using scan_list_progress [of rs ?e 0 "[]"] by simp
  ultimately show ?thesis
    using IPMB_SeqTimeout_channel_scan [OF assms, of tick_fix freq clock]
    unfolding seq_expired_age by (simp only: de_Morgan_disj not_less not_le) blast
qed

theorem IPMB_SeqTimeout_sound_witness:
  "(\<exists>h' ch' rs'. IPMB_SeqTimeout_channel 0 0 1000 (\<lambda>_. 9000) True (demo_heap 1 (\<lambda>_. 7)) (demo_chan 1) =
      Some (h', ch') \<and> pending h' ch' rs' \<and> rs' = []) \<and>
   (\<exists>h' ch' rs'. IPMB_SeqTimeout_channel 0 0 1000 (\<lambda>_. 2500) True (demo_heap 1 (\<lambda>_. 7)) (demo_chan 1) =
      Some (h', ch') \<and> pending h' ch' rs' \<and> demo_req (\<lambda>_. 7) 0 \<in> set rs')"
proof -
  have p: "pending (demo_heap 1 (\<lambda>_. 7)) (demo_chan 1) [demo_req (\<lambda>_. 7) 0]"
    using pending_demo [of 1 "\<lambda>_. 7"] by simp
  have a: "request_age 0 9000 (demo_req (\<lambda>_. 7) 0) = 8993" "request_age 0 2500 (demo_req (\<lambda>_. 7) 0) = 2493"
    by (simp_all add: request_age_def demo_req_def)
  obtain h1 ch1 rs1 where 1: "IPMB_SeqTimeout_channel 0 0 1000 (\<lambda>_. 9000) True (demo_heap 1 (\<lambda>_. 7)) (demo_chan 1) = Some (h1, ch1)"
    "pending h1 ch1 rs1" "length rs1 < 1"
    using IPMB_SeqTimeout_sound [OF p, of 0 1000 "\<lambda>_. 9000"] by (auto simp: a)
  obtain h2 ch2 rs2 where 2: "IPMB_SeqTimeout_channel 0 0 1000 (\<lambda>_. 2500) True (demo_heap 1 (\<lambda>_. 7)) (demo_chan 1) = Some (h2, ch2)"
    "pending h2 ch2 rs2" "demo_req (\<lambda>_. 7) 0 \<in> set rs2"
    using IPMB_SeqTimeout_sound [OF p, of 0 1000 "\<lambda>_. 2500"] by (auto simp: a)
  from 1 2 show ?thesis by auto
qed

text \<open>The scan does not remove every expired request: after removing a node its cursor
  moves past the successor. Of two adjacent expired requests followed by a fresh one, only the
  first is removed.\<close>

theorem IPMB_SeqTimeout_skips_neighbour:
  assumes "pending h ch [r1, r2, r3]"
    and "\<forall>k. seq_expired tick_fix freq (clock k) r1 \<and> seq_expired tick_fix freq (clock k) r2 \<and>
      \<not> seq_expired tick_fix freq (clock k) r3"
  shows "\<exists>h' ch'. IPMB_SeqTimeout_channel 0 tick_fix freq clock True h ch = Some (h', ch') \<and>
    pending h' ch' [r2, r3]"
  using IPMB_SeqTimeout_channel_scan [OF assms(1), of tick_fix freq clock] assms(2) by simp

theorem IPMB_SeqTimeout_skips_neighbour_witness:
  "\<exists>h' ch'. IPMB_SeqTimeout_channel 0 0 1000 (\<lambda>_. 9000) True
      (demo_heap 3 (\<lambda>i. if i < 2 then 7 else 8500)) (demo_chan 3) = Some (h', ch') \<and>
    pending h' ch' [demo_req (\<lambda>i. if i < 2 then 7 else 8500) 1, demo_req (\<lambda>i. if i < 2 then 7 else 8500) 2]"
proof (rule IPMB_SeqTimeout_skips_neighbour)
  let ?ts = "\<lambda>i :: nat. if i < 2 then 7 else 8500 :: u32"
  have "pending (demo_heap 3 ?ts) (demo_chan 3) (map (demo_req ?ts) [0..<3])"
    by (rule pending_demo) simp
  then show "pending (demo_heap 3 ?ts) (demo_chan 3) [demo_req ?ts 0, demo_req ?ts 1, demo_req ?ts 2]"
    by (simp add: upt_rec numeral_2_eq_2)
qed (simp add: seq_expired_def demo_req_def)

text \<open>Evicting the oldest request of a full list does not release its sequence number: after
  the insertion the request is no longer pending, but its number is still marked as used.\<close>

theorem eviction_leaks_sequence_number:
  assumes "pending h ch (r # rs)" and "length (r # rs) = MAX_SEQ_QUENE" and "h new = None"
    and "unat (seq_target msg) < SEQ_NUM" and "seq_table ch ! unat (seq_target r)"
  shows "\<exists>h' ch'. insert_req_ipmi_msg 0 (Some (new, junk)) now h ch (P_start ch) msg =
      Some (h', ch', msg\<lparr>timestamp := now\<rparr>) \<and>
    pending h' ch' (rs @ [msg\<lparr>timestamp := now\<rparr>]) \<and> seq_table ch' ! unat (seq_target r)"
proof -
  have "length (seq_table ch) = SEQ_NUM" using assms(1) by (auto simp: pending_def chan_ok_def)
  with pending_insert [OF assms(1,3,4), of junk now] assms(2,4,5) show ?thesis
    by (auto simp: kept_nodes_def nth_list_update)
qed

theorem eviction_leaks_sequence_number_witness:
  "\<exists>h' ch'. insert_req_ipmi_msg 0 (Some (40, \<lparr>buffer = zero_msg, retries = 0, next_ptr = None\<rparr>)) 50
        (demo_heap 15 (\<lambda>_. 7)) (demo_chan 15) (P_start (demo_chan 15)) (demo_req (\<lambda>_. 0) 20) =
      Some (h', ch', (demo_req (\<lambda>_. 0) 20)\<lparr>timestamp := 50\<rparr>) \<and>
    pending h' ch' (map (demo_req (\<lambda>_. 7)) [1..<15] @ [(demo_req (\<lambda>_. 0) 20)\<lparr>timestamp := 50\<rparr>]) \<and>
    seq_table ch' ! unat (seq_target (demo_req (\<lambda>_. 7) 0))"
proof (rule eviction_leaks_sequence_number)
  have "[0..<15] = 0 # [1..<(15::nat)]" by (simp add: upt_conv_Cons)
  then show "pending (demo_heap 15 (\<lambda>_. 7)) (demo_chan 15)
      (demo_req (\<lambda>_. 7) 0 # map (demo_req (\<lambda>_. 7)) [1..<15])"
    using pending_demo [of 15 "\<lambda>_. 7"] by simp
qed (simp_all add: demo_heap_def demo_req_def demo_chan_def zero_msg_def nth_append)

text \<open>When \<open>malloc\<close> fails, \<open>insert_req_ipmi_msg\<close> has already overwritten the link of the
  last node: the circle is left open, and the next response that matches no pending request
  makes \<open>find_req_ipmi_msg\<close> dereference a null pointer.\<close>

theorem malloc_failure_opens_the_list:
  assumes "pending h ch rs" and "length rs < MAX_SEQ_QUENE"
    and "\<forall>r \<in> set rs. \<not> req_matches r resp"
  shows "\<exists>h'. insert_req_ipmi_msg 0 None now h ch (P_start ch) msg = Some (h', ch, msg) \<and>
    find_req_ipmi_msg 0 h' ch (P_start ch) resp = None"
proof -
  obtain ns where ns: "chan_ok h ch ns" "rs = reqs h ns"
    using assms(1) by (auto simp: pending_def)
  obtain p where p: "P_start ch = Some p" "path h p ns p" "distinct (p # ns)" "p \<notin> set ns"
    using ns(1) by (rule chan_ok_ring)
  obtain n where n: "h (last (p # ns)) = Some n" "insert_req_ipmi_msg 0 None now h ch (P_start ch) msg =
      Some (h(last (p # ns) \<mapsto> n\<lparr>next_ptr := None\<rparr>), ch, msg)"
    using insert_req_malloc_failure [OF ns(1) p(1), of now msg] assms(2) ns(2) by auto
  have "find_prev (h(last (p # ns) \<mapsto> n\<lparr>next_ptr := None\<rparr>)) p resp p = None"
    using find_prev_open [OF p(2,3,4) n(1)] assms(3) ns(2) by simp
  with n p(1) show ?thesis by (simp add: find_req_ipmi_msg_def del: last.simps)
qed

theorem malloc_failure_opens_the_list_witness:
  "\<exists>h'. insert_req_ipmi_msg 0 None 50 (demo_heap 1 (\<lambda>_. 7)) (demo_chan 1) (P_start (demo_chan 1)) zero_msg =
      Some (h', demo_chan 1, zero_msg) \<and>
    find_req_ipmi_msg 0 h' (demo_chan 1) (P_start (demo_chan 1)) (zero_msg\<lparr>netfn := 3\<rparr>) = None"
proof (rule malloc_failure_opens_the_list)
  show "pending (demo_heap 1 (\<lambda>_. 7)) (demo_chan 1) (map (demo_req (\<lambda>_. 7)) [0..<1])"
    by (rule pending_demo) simp
qed (simp_all add: demo_req_def req_matches_def zero_msg_def)

end
