(* ===== verification/Ipmb_Tasks.thy ===== *)
theory Ipmb_Tasks
  imports Ipmb_Codec Ipmb_Requests
begin

text \<open>
  The sending functions, the transmit and receive tasks, the timeout thread and the
  initialisation of \<open>samples/ipmi_openbic/src/ipmb/ipmb.c\<close>. The state is the arrays the file
  keeps per channel index (a list of \<open>ipmb_chan\<close>, of length \<open>MAX_IPMB_IDX\<close>), the heap of the
  request lists, the configuration table, the channel map, and the trace of the calls that
  leave the file: queue operations, I2C and KCS writes, PLDM messages, the notification of the
  IPMI task. What the kernel, the allocator, the platform hooks and the drivers answer is an
  argument of the operation that asks; a local struct that is not initialised starts with the
  contents \<open>stk\<close> it is given. One call of a task function is one iteration of its endless
  loop; sleeping and logging are left out.
\<close>

section \<open>State\<close>

datatype effect =
    Put_tx nat ipmi_msg_cfg
  | Put_rx nat ipmi_msg
  | Purge_rx nat
  | I2c_write u8 u8 "u8 list"
  | Kcs_write u8 "u8 list"
  | Pldm_response u8 ipmi_msg
  | Pldm_ipmb_rsp ipmi_msg
  | Pldm_request ipmi_msg
  | Notify_client ipmi_msg_cfg

record ipmb_st =
  ip_heap :: heap
  ip_chans :: "ipmb_chan list"
  IPMB_config_table :: "IPMB_config list"
  IPMB_inf_index_map :: "u8 list"
  ip_out :: "effect list"

definition emit :: "effect \<Rightarrow> ipmb_st \<Rightarrow> ipmb_st" where
  "emit e s = s\<lparr>ip_out := ip_out s @ [e]\<rparr>"

definition set_chan :: "nat \<Rightarrow> ipmb_chan \<Rightarrow> ipmb_st \<Rightarrow> ipmb_st" where
  "set_chan i ch s = s\<lparr>ip_chans := (ip_chans s)[i := ch]\<rparr>"

text \<open>Build options of the platform headers.\<close>

record ipmb_build =
  CONFIG_IPMI_KCS_ASPEED :: bool
  ENABLE_MPRO :: bool
  ENABLE_OEM_BRIDGE_NETFN_SHIFT :: bool
  I2C_BUFF_SIZE :: nat

abbreviation (input) KCS_BUFF_SIZE :: nat where "KCS_BUFF_SIZE \<equiv> 256"

text \<open>The answers to the calls of one \<open>ipmb_send_request\<close> or \<open>ipmb_send_response\<close>.\<close>

record send_env =
  msgq_init :: bool
  mutex_init :: bool
  lock_ret :: int
  put_ret :: int
  stk :: ipmi_msg_cfg

section \<open>Channel map\<close>

text \<open>The inner loop over the channels, and the loop over the table up to its terminator.\<close>

function channel_search :: "u8 \<Rightarrow> u8 \<Rightarrow> nat \<Rightarrow> u8 list \<Rightarrow> u8 list option" where
  "channel_search c index_num channel m =
     (if channel < unat RESERVED then
        if c = of_nat channel then store m channel index_num
        else channel_search c index_num (Suc channel) m
      else Some m)"
  by pat_completeness auto
termination
  by (relation "measure (\<lambda>(c, index_num, channel, m). unat RESERVED - channel)") auto

declare channel_search.simps [simp del]

partial_function (option) channel_map_loop :: "IPMB_config list \<Rightarrow> u8 \<Rightarrow> u8 list \<Rightarrow> u8 list option" where
  "channel_map_loop tab index_num m = do {
     c \<leftarrow> load tab (unat index_num);
     if cfg_index c = RESERVED_IDX then Some m
     else do {
       m \<leftarrow> channel_search (cfg_channel c) index_num 0 m;
       channel_map_loop tab (index_num + 1) m
     }
   }"

definition channel_index_mapping :: "ipmb_st \<Rightarrow> ipmb_st option" where
  "channel_index_mapping s = do {
     m \<leftarrow> channel_map_loop (IPMB_config_table s) 0 (replicate (unat RESERVED) RESERVED);
     Some (s\<lparr>IPMB_inf_index_map := m\<rparr>)
   }"

section \<open>Sending\<close>

definition ipmb_send_request ::
    "send_env \<Rightarrow> ipmi_msg option \<Rightarrow> u8 \<Rightarrow> ipmb_st \<Rightarrow> (ipmb_error \<times> ipmi_msg option \<times> ipmb_st) option" where
  "ipmb_send_request ev req index s =
     (case req of
        None \<Rightarrow> Some (IPMB_ERROR_UNKNOWN, None, s)
      | Some r \<Rightarrow> do {
          ch \<leftarrow> load (ip_chans s) (unat index);
          if \<not> msgq_init ev \<or> \<not> mutex_init ev then Some (IPMB_ERROR_UNKNOWN, req, s)
          else if lock_ret ev \<noteq> 0 then Some (IPMB_ERROR_MUTEX_LOCK, req, s)
          else do {
            let b = buffer (stk ev);
            d \<leftarrow> memcpy (data b) 0 (data r) 0 (unat (data_len r));
            cfg \<leftarrow> load (IPMB_config_table s) (unat index);
            (sq, ch) \<leftarrow> get_free_seq ch;
            let s = set_chan (unat index) ch s;
            let b = b\<lparr>data := d, netfn := netfn r, cmd := cmd r, data_len := data_len r,
                      InF_source := InF_source r, InF_target := InF_target r,
                      completion_code := completion_code r,
                      dest_addr := channel_target_address cfg, dest_LUN := 0,
                      src_addr := push_bit 1 (self_address cfg), seq := sq,
                      seq_source := seq_source r, src_LUN := 0, pldm_inst_id := pldm_inst_id r\<rparr>;
            let s = emit (Put_tx (unat index) ((stk ev)\<lparr>buffer := b, retries := 0\<rparr>)) s;
            let r = r\<lparr>seq := sq\<rparr>;
            if put_ret ev \<noteq> 0 then Some (IPMB_ERROR_FAILURE, Some r, s)
            else Some (IPMB_ERROR_SUCCESS, Some r, s)
          }
        })"

definition ipmb_send_response ::
    "send_env \<Rightarrow> ipmi_msg option \<Rightarrow> u8 \<Rightarrow> ipmb_st \<Rightarrow> (ipmb_error \<times> ipmb_st) option" where
  "ipmb_send_response ev resp index s =
     (case resp of
        None \<Rightarrow> Some (IPMB_ERROR_UNKNOWN, s)
      | Some r \<Rightarrow> do {
          ch \<leftarrow> load (ip_chans s) (unat index);
          if \<not> msgq_init ev \<or> \<not> mutex_init ev then Some (IPMB_ERROR_UNKNOWN, s)
          else if lock_ret ev \<noteq> 0 then Some (IPMB_ERROR_MUTEX_LOCK, s)
          else do {
            let b = buffer (stk ev);
            d \<leftarrow> memcpy (data b) 0 (data r) 0 (unat (data_len r));
            cfg \<leftarrow> load (IPMB_config_table s) (unat index);
            let b = b\<lparr>data := d, cmd := cmd r, data_len := data_len r,
                      InF_source := InF_source r, InF_target := InF_target r,
                      completion_code := completion_code r,
                      dest_addr := channel_target_address cfg, netfn := netfn r + 1,
                      dest_LUN := src_LUN r, src_addr := push_bit 1 (self_address cfg),
                      seq := seq r, seq_source := seq r, src_LUN := dest_LUN r\<rparr>;
            let s = emit (Put_tx (unat index) ((stk ev)\<lparr>buffer := b, retries := 0\<rparr>)) s;
            if put_ret ev \<noteq> 0 then Some (IPMB_ERROR_FAILURE, s)
            else Some (IPMB_ERROR_SUCCESS, s)
          }
        })"

text \<open>\<open>ipmb_read\<close>: the answer is the message \<open>k_msgq_get\<close> delivers (\<open>None\<close>: it timed out), or
  the request of the caller with its new sequence number.\<close>

definition ipmb_read ::
    "send_env \<Rightarrow> bool \<Rightarrow> bool \<Rightarrow> int \<Rightarrow> ipmi_msg option \<Rightarrow> int \<Rightarrow> ipmi_msg option \<Rightarrow> u8 \<Rightarrow> ipmb_st
      \<Rightarrow> (ipmb_error \<times> ipmi_msg option \<times> ipmb_st) option" where
  "ipmb_read ev rxq_init read_mutex_init read_lock_ret got clear_lock_ret msg index s =
     (case msg of
        None \<Rightarrow> Some (IPMB_ERROR_UNKNOWN, msg, s)
      | Some m \<Rightarrow> do {
          _ \<leftarrow> load (ip_chans s) (unat index);
          if \<not> rxq_init \<or> \<not> read_mutex_init then Some (IPMB_ERROR_UNKNOWN, msg, s)
          else if read_lock_ret \<noteq> 0 then Some (IPMB_ERROR_MUTEX_LOCK, msg, s)
          else do {
            let s = emit (Purge_rx (unat index)) s;
            (e, msg, s) \<leftarrow> ipmb_send_request ev msg index s;
            if e \<noteq> IPMB_ERROR_SUCCESS then Some (IPMB_ERROR_FAILURE, msg, s)
            else case got of
              Some answer \<Rightarrow> Some (IPMB_ERROR_SUCCESS, Some answer, s)
            | None \<Rightarrow> do {
                ch \<leftarrow> load (ip_chans s) (unat index);
                m \<leftarrow> msg;
                (h, ch) \<leftarrow> clear_req_ipmi_msg clear_lock_ret (ip_heap s) ch (P_start ch) m;
                Some (IPMB_ERROR_GET_MESSAGE_QUEUE, msg, set_chan (unat index) ch (s\<lparr>ip_heap := h\<rparr>))
              }
          }
        })"

section \<open>Transmit task\<close>

record tx_env =
  i2c_malloc :: "nat \<Rightarrow> bool"
  ins_lock :: int
  ins_malloc :: "(addr \<times> ipmi_msg_cfg) option"
  ins_now :: u32
  i2c_ret :: int
  find_lock :: int
  kcs_malloc :: "nat \<Rightarrow> bool"
  tx_send :: send_env

text \<open>\<open>do { p = malloc(..); ... retry++; } while (retry < MEM_ALLOCATE_RETRY_TIME)\<close>; \<open>f k\<close> tells
  whether the \<open>k\<close>-th attempt succeeds.\<close>

function alloc_retry :: "(nat \<Rightarrow> bool) \<Rightarrow> nat \<Rightarrow> bool" where
  "alloc_retry f retry =
     (if f retry then True
      else if Suc retry < MEM_ALLOCATE_RETRY_TIME then alloc_retry f (Suc retry) else False)"
  by pat_completeness auto
termination
  by (relation "measure (\<lambda>(f, retry). MEM_ALLOCATE_RETRY_TIME - retry)") auto

declare alloc_retry.simps [simp del]

text \<open>Filling an \<open>I2C_MSG\<close> from the encoded frame: the I2C driver sends the address itself, so
  the data starts at the second byte.\<close>

definition i2c_data :: "ipmb_build \<Rightarrow> u8 list \<Rightarrow> u8 \<Rightarrow> u8 list option" where
  "i2c_data b txbuf n =
     (if unat n \<le> I2C_BUFF_SIZE b \<and> 1 + unat n \<le> length txbuf
      then Some (take (unat n) (drop 1 txbuf)) else None)"

definition tx_response ::
    "ipmb_build \<Rightarrow> tx_env \<Rightarrow> IPMB_config \<Rightarrow> ipmi_msg_cfg \<Rightarrow> u8 list \<Rightarrow> ipmb_st \<Rightarrow> (u8 list \<times> ipmb_st) option" where
  "tx_response b ev cfg m txbuf s =
     (if retries m > IPMB_TX_RETRY_TIME then Some (txbuf, s)
      else do {
        let m = m\<lparr>buffer := (buffer m)\<lparr>dest_addr := channel_target_address cfg\<rparr>\<rparr>;
        (_, eb) \<leftarrow> ipmb_encode (Some txbuf) (Some (buffer m));
        txbuf \<leftarrow> eb;
        let resp_tx_size = (ucast (data_len (buffer m)) + of_nat IPMB_RESP_HEADER_LENGTH :: u8);
        if cfg_interface cfg = I2C_IF then
          if \<not> alloc_retry (i2c_malloc ev) 0 then Some (txbuf, s)
          else do {
            d \<leftarrow> i2c_data b txbuf resp_tx_size;
            let s = emit (I2c_write (cfg_bus cfg) (channel_target_address cfg) d) s;
            if (word_of_int (i2c_ret ev) :: u8) \<noteq> 0
            then Some (txbuf, emit (Put_tx (unat (cfg_index cfg)) (m\<lparr>retries := retries m + 1\<rparr>)) s)
            else Some (txbuf, s)
          }
        else Some (txbuf, s)
      })"

text \<open>The report to the source of a request that could not be sent.\<close>

definition tx_give_up ::
    "ipmb_build \<Rightarrow> tx_env \<Rightarrow> ipmi_msg_cfg \<Rightarrow> ipmb_st \<Rightarrow> ipmb_st option" where
  "tx_give_up b ev m s =
     (let msg = buffer m; src = InF_source msg in
      if src = RESERVED then Some s
      else if src = SELF then Some s
      else if src = MPRO_PLDM then Some s
      else if src AND 0xF0 = HOST_KCS_1 then
        if \<not> CONFIG_IPMI_KCS_ASPEED b \<or> \<not> (kcs_malloc ev 0 \<or> kcs_malloc ev 1) then Some s
        else if 3 + unat (data_len msg) > KCS_BUFF_SIZE \<or> unat (data_len msg) > length (data msg) then None
        else Some (emit (Kcs_write (src - HOST_KCS_1)
               ([push_bit 2 (netfn msg), cmd msg, CC_CAN_NOT_RESPOND] @ msg_bytes msg)) s)
      else
        let msg = msg\<lparr>data_len := 0, netfn := NETFN_OEM_1S_REQ, cmd := CMD_OEM_1S_MSG_OUT,
                      completion_code := CC_NODE_BUSY\<rparr> in
        if src = PLDM \<or> src = MCTP then Some (emit (Pldm_response src msg) s)
        else do {
          i \<leftarrow> load (IPMB_inf_index_map s) (unat src);
          (_, s) \<leftarrow> ipmb_send_response (tx_send ev) (Some msg) i s;
          Some s
        })"

definition tx_request ::
    "ipmb_build \<Rightarrow> tx_env \<Rightarrow> IPMB_config \<Rightarrow> ipmi_msg_cfg \<Rightarrow> u8 list \<Rightarrow> ipmb_st \<Rightarrow> (u8 list \<times> ipmb_st) option" where
  "tx_request b ev cfg m txbuf s = do {
     (_, eb) \<leftarrow> ipmb_encode (Some txbuf) (Some (buffer m));
     txbuf \<leftarrow> eb;
     let req_tx_size = (ucast (data_len (buffer m)) + of_nat IPMB_REQ_HEADER_LENGTH :: u8);
     let i = unat (cfg_index cfg);
     if cfg_interface cfg = I2C_IF then
       if \<not> alloc_retry (i2c_malloc ev) 0 then Some (txbuf, s)
       else do {
         d \<leftarrow> i2c_data b txbuf req_tx_size;
         let msg = (buffer m)\<lparr>seq_target := seq (buffer m)\<rparr>;
         ch \<leftarrow> load (ip_chans s) i;
         (h, ch, msg) \<leftarrow> insert_req_ipmi_msg (ins_lock ev) (ins_malloc ev) (ins_now ev)
           (ip_heap s) ch (P_start ch) msg;
         let s = set_chan i ch (s\<lparr>ip_heap := h\<rparr>);
         let s = emit (I2c_write (cfg_bus cfg) (channel_target_address cfg) d) s;
         if (word_of_int (i2c_ret ev) :: u8) = 0 then Some (txbuf, s)
         else do {
           (_, h, ch, msg) \<leftarrow> find_req_ipmi_msg (find_lock ev) (ip_heap s) ch (P_start ch) msg;
           let s = set_chan i ch (s\<lparr>ip_heap := h\<rparr>);
           let m = m\<lparr>buffer := msg, retries := retries m + 1\<rparr>;
           if retries m > IPMB_TX_RETRY_TIME then do {
             s \<leftarrow> tx_give_up b ev m s;
             Some (txbuf, s)
           } else Some (txbuf, emit (Put_tx i m) s)
         }
       }
     else Some (txbuf, s)
   }"

text \<open>One iteration after \<open>k_msgq_get\<close> delivered \<open>m\<close>.\<close>

definition IPMB_TXTask ::
    "ipmb_build \<Rightarrow> tx_env \<Rightarrow> IPMB_config \<Rightarrow> ipmi_msg_cfg \<Rightarrow> u8 list \<Rightarrow> ipmb_st \<Rightarrow> (u8 list \<times> ipmb_st) option" where
  "IPMB_TXTask b ev cfg m txbuf s = do {
     ch \<leftarrow> load (ip_chans s) (unat (cfg_index cfg));
     if ipmb_tx_disable ch then Some (txbuf, s)
     else if IS_RESPONSE (buffer m) then tx_response b ev cfg m txbuf s
     else tx_request b ev cfg m txbuf s
   }"

section \<open>Receive task\<close>

text \<open>The platform hooks and the answers of one iteration. \<open>slave_read\<close> is the result of
  \<open>ipmb_slave_read\<close>: its return code and the bytes received; \<open>stk_rx\<close> and \<open>rx_junk\<close> are the
  initial contents of the allocated message and buffer.\<close>

record rx_env =
  slave_read :: "int \<times> u8 list"
  stk_rx :: ipmi_msg_cfg
  rx_junk :: "u8 list"
  rx_find_lock :: int
  rx_kcs_malloc :: "nat \<Rightarrow> bool"
  bridge_malloc :: bool
  rx_send :: send_env
  rx_send2 :: send_env
  pal_immediate_respond_from_HOST :: "u8 \<Rightarrow> u8 \<Rightarrow> bool"
  pal_request_msg_to_BIC_from_ME :: "u8 \<Rightarrow> u8 \<Rightarrow> bool"
  pal_is_interface_use_ipmb :: "u8 \<Rightarrow> bool"
  pldm_send_ipmi_request :: "ipmi_msg \<Rightarrow> ipmi_msg"

definition pal_encode_response_bridge_cmd ::
    "ipmb_build \<Rightarrow> ipmi_msg \<Rightarrow> ipmi_msg \<Rightarrow> IPMB_config \<Rightarrow> IPMB_config list \<Rightarrow> ipmi_msg option" where
  "pal_encode_response_bridge_cmd b bridge rx cfg tab = do {
     c \<leftarrow> load tab (unat (cfg_index cfg));
     d \<leftarrow> memcpy (data bridge) 0
       [ucast (IANA_ID AND 0xFF), ucast (drop_bit 8 IANA_ID AND 0xFF),
        ucast (drop_bit 16 IANA_ID AND 0xFF), cfg_channel c,
        (if ENABLE_OEM_BRIDGE_NETFN_SHIFT b then push_bit 2 (netfn rx) else netfn rx),
        cmd rx, completion_code rx] 0 7;
     d \<leftarrow> memcpy d 7 (data rx) 0 (unat (data_len rx));
     Some (bridge\<lparr>data := d, data_len := data_len rx + 7, netfn := NETFN_OEM_1S_REQ,
                  cmd := CMD_OEM_1S_MSG_OUT, completion_code := CC_SUCCESS,
                  seq := seq_source rx\<rparr>)
   }"

text \<open>Delivery of a response whose request was found, by the source of that request: the
  waiting thread, the KCS interface, PLDM, the ME, or another channel over a bridge message.\<close>

definition rx_to_kcs :: "ipmb_build \<Rightarrow> rx_env \<Rightarrow> ipmi_msg \<Rightarrow> ipmb_st \<Rightarrow> ipmb_st option" where
  "rx_to_kcs b ev msg s =
     (if \<not> CONFIG_IPMI_KCS_ASPEED b then Some s
      else if pal_immediate_respond_from_HOST ev (netfn msg AND NOT 1) (cmd msg) then Some s
      else if \<not> alloc_retry (rx_kcs_malloc ev) 0 then Some s
      else if 3 + unat (data_len msg) > KCS_BUFF_SIZE \<or> unat (data_len msg) > length (data msg) then None
      else Some (emit (Kcs_write (InF_source msg - HOST_KCS_1)
             ([push_bit 2 (netfn msg), cmd msg, completion_code msg] @ msg_bytes msg)) s))"

definition rx_to_me :: "rx_env \<Rightarrow> ipmi_msg \<Rightarrow> ipmb_st \<Rightarrow> ipmb_st option" where
  "rx_to_me ev msg s =
     (if \<not> bridge_malloc ev then Some s
      else do {
        d \<leftarrow> memcpy (data zero_msg) 0 (data msg) 0 (unat (data_len msg));
        let bridge = zero_msg\<lparr>netfn := netfn msg - 1, cmd := cmd msg,
          completion_code := completion_code msg, seq := seq_source msg,
          data_len := data_len msg, data := d\<rparr>;
        i \<leftarrow> load (IPMB_inf_index_map s) (unat (InF_source msg));
        (_, s) \<leftarrow> ipmb_send_response (rx_send ev) (Some bridge) i s;
        Some s
      })"

definition rx_to_bridge ::
    "ipmb_build \<Rightarrow> rx_env \<Rightarrow> IPMB_config \<Rightarrow> ipmi_msg \<Rightarrow> ipmb_st \<Rightarrow> ipmb_st option" where
  "rx_to_bridge b ev cfg msg s =
     (if \<not> bridge_malloc ev then Some s
      else do {
        bridge \<leftarrow> pal_encode_response_bridge_cmd b zero_msg msg cfg (IPMB_config_table s);
        if InF_source msg = PLDM \<or> InF_source msg = MCTP then
          Some (emit (Pldm_response (InF_source msg) (bridge\<lparr>pldm_inst_id := pldm_inst_id msg\<rparr>)) s)
        else do {
          i \<leftarrow> load (IPMB_inf_index_map s) (unat (InF_source msg));
          (_, s) \<leftarrow> ipmb_send_response (rx_send ev) (Some bridge) i s;
          Some s
        }
      })"

definition rx_deliver ::
    "ipmb_build \<Rightarrow> rx_env \<Rightarrow> IPMB_config \<Rightarrow> ipmi_msg \<Rightarrow> ipmb_st \<Rightarrow> ipmb_st option" where
  "rx_deliver b ev cfg msg s =
     (if InF_source msg = SELF then do {
        i \<leftarrow> load (IPMB_inf_index_map s) (unat (InF_target msg));
        _ \<leftarrow> load (ip_chans s) (unat i);
        Some (emit (Put_rx (unat i) msg) s)
      }
      else if InF_source msg AND 0xF0 = HOST_KCS_1 then rx_to_kcs b ev msg s
      else if InF_source msg = MPRO_PLDM then
        Some (if ENABLE_MPRO b then emit (Pldm_ipmb_rsp msg) s else s)
      else if InF_source msg = ME_IPMB then rx_to_me ev msg s
      else rx_to_bridge b ev cfg msg s)"

definition rx_response ::
    "ipmb_build \<Rightarrow> rx_env \<Rightarrow> IPMB_config \<Rightarrow> ipmi_msg \<Rightarrow> ipmb_st \<Rightarrow> ipmb_st option" where
  "rx_response b ev cfg msg s = do {
     let msg = msg\<lparr>seq_target := seq msg\<rparr>;
     let i = unat (cfg_index cfg);
     ch \<leftarrow> load (ip_chans s) i;
     (found, h, ch, msg) \<leftarrow> find_req_ipmi_msg (rx_find_lock ev) (ip_heap s) ch (P_start ch) msg;
     let s = set_chan i ch (s\<lparr>ip_heap := h\<rparr>);
     if found then rx_deliver b ev cfg msg s else Some s
   }"

text \<open>A request of the ME that is bridged to the BMC.\<close>

definition rx_me_request :: "rx_env \<Rightarrow> ipmi_msg \<Rightarrow> ipmb_st \<Rightarrow> ipmb_st option" where
  "rx_me_request ev msg s =
     (if \<not> bridge_malloc ev then Some s
      else do {
        d \<leftarrow> (if data_len msg \<noteq> 0 then memcpy (data zero_msg) 0 (data msg) 0 (unat (data_len msg))
               else Some (data zero_msg));
        let bridge = zero_msg\<lparr>data_len := data_len msg, seq_source := seq msg,
          InF_target := BMC_IPMB, InF_source := ME_IPMB, netfn := netfn msg, cmd := cmd msg,
          data := d\<rparr>;
        bmc \<leftarrow> load (IPMB_inf_index_map s) (unat BMC_IPMB);
        if \<not> pal_is_interface_use_ipmb ev bmc then do {
          let bridge = bridge\<lparr>InF_target := PLDM\<rparr>;
          let s = emit (Pldm_request bridge) s;
          let bridge = (pldm_send_ipmi_request ev bridge)\<lparr>netfn := netfn msg, seq := seq msg\<rparr>;
          me \<leftarrow> load (IPMB_inf_index_map s) (unat ME_IPMB);
          (_, s) \<leftarrow> ipmb_send_response (rx_send ev) (Some bridge) me s;
          Some s
        } else do {
          (e, r, s) \<leftarrow> ipmb_send_request (rx_send ev) (Some bridge) bmc s;
          if e = IPMB_ERROR_SUCCESS then Some s
          else do {
            r \<leftarrow> r;
            i \<leftarrow> load (IPMB_inf_index_map s) (unat (InF_source r));
            (_, s) \<leftarrow> ipmb_send_response (rx_send2 ev) (Some (r\<lparr>completion_code := CC_TIMEOUT\<rparr>)) i s;
            Some s
          }
        }
      })"

definition rx_request ::
    "rx_env \<Rightarrow> IPMB_config \<Rightarrow> ipmi_msg_cfg \<Rightarrow> ipmb_st \<Rightarrow> ipmb_st option" where
  "rx_request ev cfg m s = do {
     c \<leftarrow> load (IPMB_config_table s) (unat (cfg_index cfg));
     if cfg_channel c = ME_IPMB \<and>
        \<not> pal_request_msg_to_BIC_from_ME ev (netfn (buffer m)) (cmd (buffer m))
     then rx_me_request ev (buffer m) s
     else Some (emit (Notify_client (m\<lparr>buffer := (buffer m)
            \<lparr>seq_source := seq (buffer m), InF_source := cfg_channel c\<rparr>\<rparr>)) s)
   }"

definition IPMB_RXTask ::
    "ipmb_build \<Rightarrow> rx_env \<Rightarrow> IPMB_config \<Rightarrow> ipmb_st \<Rightarrow> ipmb_st option" where
  "IPMB_RXTask b ev cfg s =
     (if cfg_interface cfg \<noteq> I2C_IF then Some s
      else if fst (slave_read ev) \<noteq> 0 then Some s
      else do {
        let rx_len = (of_nat (length (snd (slave_read ev))) :: u8);
        rx \<leftarrow> memcpy (rx_junk ev) 0 (snd (slave_read ev)) 0 (unat rx_len);
        b0 \<leftarrow> load rx 0;
        rx \<leftarrow> store rx 0 (drop_bit 1 b0);
        if rx_len = 0 then Some s
        else do {
          ok \<leftarrow> validate_checksum (Some rx) rx_len;
          if ok \<noteq> IPMB_ERROR_SUCCESS then Some s
          else do {
            (_, dm) \<leftarrow> ipmb_decode (Some (buffer (stk_rx ev))) (Some rx) rx_len;
            msg \<leftarrow> dm;
            if IS_RESPONSE msg then rx_response b ev cfg msg s
            else rx_request ev cfg ((stk_rx ev)\<lparr>buffer := msg\<rparr>) s
          }
        }
      })"

section \<open>Timeout thread, suspend and resume\<close>

text \<open>One round of \<open>IPMB_SeqTimeout_handler\<close> over the channels; \<open>lock i\<close> and \<open>clock i k\<close> answer
  for channel \<open>i\<close>.\<close>

primrec IPMB_SeqTimeout_handler ::
    "(nat \<Rightarrow> int) \<Rightarrow> u32 \<Rightarrow> u32 \<Rightarrow> (nat \<Rightarrow> nat \<Rightarrow> u32) \<Rightarrow> nat list \<Rightarrow> ipmb_st \<Rightarrow> ipmb_st option" where
  "IPMB_SeqTimeout_handler lock tick_fix freq clock [] s = Some s"
| "IPMB_SeqTimeout_handler lock tick_fix freq clock (i # is) s = do {
     c \<leftarrow> load (IPMB_config_table s) i;
     ch \<leftarrow> load (ip_chans s) i;
     (h, ch) \<leftarrow> IPMB_SeqTimeout_channel (lock i) tick_fix freq (clock i) (enable_status c) (ip_heap s) ch;
     IPMB_SeqTimeout_handler lock tick_fix freq clock is (set_chan i ch (s\<lparr>ip_heap := h\<rparr>))
   }"

definition ipmb_tx_suspend :: "u8 \<Rightarrow> ipmb_st \<Rightarrow> ipmb_st" where
  "ipmb_tx_suspend index s =
     (if unat index \<ge> length (ip_chans s) then s
      else set_chan (unat index) ((ip_chans s ! unat index)\<lparr>ipmb_tx_disable := True\<rparr>) s)"

definition ipmb_tx_resume :: "u8 \<Rightarrow> ipmb_st \<Rightarrow> ipmb_st" where
  "ipmb_tx_resume index s =
     (if unat index \<ge> length (ip_chans s) then s
      else set_chan (unat index) ((ip_chans s ! unat index)\<lparr>ipmb_tx_disable := False\<rparr>) s)"

section \<open>Initialisation\<close>

text \<open>\<open>create_ipmb_threads\<close> for one channel: the sequence table is cleared and the dummy node
  allocated (\<open>mal\<close>: the block with its indeterminate contents) and linked to itself. The loop
  \<open>for (i = 0; i <= retry; ++i)\<close> initialises the mutex (\<open>minit i\<close>: the result of attempt \<open>i\<close>).
  The result tells whether the queues and threads were created.\<close>

fun mutex_retry :: "(nat \<Rightarrow> int) \<Rightarrow> nat \<Rightarrow> nat \<Rightarrow> bool" where
  "mutex_retry minit i 0 = False"
| "mutex_retry minit i (Suc n) = (if minit i = 0 then True else mutex_retry minit (Suc i) n)"

definition create_ipmb_threads ::
    "(addr \<times> ipmi_msg_cfg) option \<Rightarrow> (nat \<Rightarrow> int) \<Rightarrow> heap \<Rightarrow> ipmb_chan \<Rightarrow> (bool \<times> heap \<times> ipmb_chan)" where
  "create_ipmb_threads mal minit h ch =
     (let ch = ch\<lparr>seq_table := replicate SEQ_NUM False\<rparr> in
      case mal of
        None \<Rightarrow> (False, h, ch\<lparr>P_start := None\<rparr>)
      | Some (p, junk) \<Rightarrow>
          (mutex_retry minit 0 4, h(p \<mapsto> junk\<lparr>next_ptr := Some p\<rparr>), ch\<lparr>P_start := Some p\<rparr>))"

text \<open>The last loop of \<open>ipmb_init\<close> over the channel indices.\<close>

primrec create_all_threads ::
    "(nat \<Rightarrow> (addr \<times> ipmi_msg_cfg) option) \<Rightarrow> (nat \<Rightarrow> nat \<Rightarrow> int) \<Rightarrow> nat list \<Rightarrow> ipmb_st \<Rightarrow> ipmb_st option" where
  "create_all_threads mal minit [] s = Some s"
| "create_all_threads mal minit (i # is) s = do {
     c \<leftarrow> load (IPMB_config_table s) i;
     ch \<leftarrow> load (ip_chans s) i;
     let (ok, h, ch) = (if enable_status c then create_ipmb_threads (mal i) (minit i) (ip_heap s) ch
                        else (False, ip_heap s, ch));
     create_all_threads mal minit is (set_chan i ch (s\<lparr>ip_heap := h\<rparr>))
   }"

text \<open>\<open>ipmb_init\<close>; \<open>table_mal\<close> and \<open>load_config\<close> are the results of the allocation of the table
  and of \<open>pal_load_ipmb_config\<close>, which fills it; the result carries \<open>sys_tick_freq\<close> and
  \<open>tick_fix\<close>.\<close>

definition ipmb_init ::
    "bool \<Rightarrow> bool \<times> IPMB_config list \<Rightarrow> u32 \<Rightarrow> (nat \<Rightarrow> (addr \<times> ipmi_msg_cfg) option) \<Rightarrow> (nat \<Rightarrow> nat \<Rightarrow> int)
      \<Rightarrow> ipmb_st \<Rightarrow> (ipmb_st \<times> (u32 \<times> u32) option) option" where
  "ipmb_init table_mal load_config freq mal minit s =
     (if \<not> table_mal then Some (s, None)
      else if \<not> fst load_config then Some (s, None)
      else do {
        s \<leftarrow> channel_index_mapping (s\<lparr>IPMB_config_table := snd load_config\<rparr>);
        let s = s\<lparr>ip_chans := map (\<lambda>ch. ch\<lparr>current_seq := 0\<rparr>) (ip_chans s)\<rparr>;
        s \<leftarrow> create_all_threads mal minit [0..<length (ip_chans s)] s;
        Some (s, Some (freq, freq div 1000))
      })"

section \<open>Lemmas on the tasks\<close>

lemma set_chan_simps [simp]:
  "ip_heap (set_chan i ch s) = ip_heap s" "IPMB_config_table (set_chan i ch s) = IPMB_config_table s"
  "IPMB_inf_index_map (set_chan i ch s) = IPMB_inf_index_map s" "ip_out (set_chan i ch s) = ip_out s"
  "ip_chans (set_chan i ch s) = (ip_chans s)[i := ch]"
  by (simp_all add: set_chan_def)

lemma emit_simps [simp]:
  "ip_heap (emit e s) = ip_heap s" "IPMB_config_table (emit e s) = IPMB_config_table s"
  "IPMB_inf_index_map (emit e s) = IPMB_inf_index_map s" "ip_out (emit e s) = ip_out s @ [e]"
  "ip_chans (emit e s) = ip_chans s"
  by (simp_all add: emit_def)

lemma alloc_retry_first: "f 0 \<Longrightarrow> alloc_retry f 0"
  by (simp add: alloc_retry.simps [of f 0])

text \<open>The frame of a request as the I2C driver gets it: everything after the address byte.\<close>

lemma i2c_data_frame:
  assumes m: "wire_msg m" and b: "255 \<le> I2C_BUFF_SIZE b"
    and n: "n = ucast (data_len m) + (if IS_RESPONSE m then 7 else 6)"
  shows "i2c_data b (ipmb_frame m @ rest) n = Some (tl (ipmb_frame m))"
proof -
  have wf: "wf_msg m" and dl: "unat (data_len m) \<le> IPMI_MSG_MAX_LENGTH"
    and fit: "length (frame_header m) + unat (data_len m) < 255"
    using m by (auto simp: wire_msg_def)
  have hd: "length (frame_header m) = unat (if IS_RESPONSE m then 7 else 6 :: u8)"
    by (simp add: length_frame_header)
  have "unat n = length (frame_header m) + unat (data_len m)"
    unfolding n hd using fit by (subst add.commute, subst unat_data_len_u8) (simp_all add: hd)
  then have un: "unat n = length (ipmb_frame m) - 1" and le: "unat n \<le> 255"
    using fit by (simp_all add: length_ipmb_frame [OF wf dl] length_frame_header)
  have "ipmb_frame m \<noteq> []" by (simp add: ipmb_frame_def Let_def)
  then obtain x xs where f: "ipmb_frame m = x # xs" by (cases "ipmb_frame m") auto
  show ?thesis using un le b by (simp add: i2c_data_def f)
qed

lemma wire_encode:
  assumes "wire_msg m" and "length txbuf = IPMI_MSG_MAX_LENGTH + IPMB_RESP_HEADER_LENGTH"
  shows "ipmb_encode (Some txbuf) (Some m) =
    Some (IPMB_ERROR_SUCCESS, Some (ipmb_frame m @ drop (length (ipmb_frame m)) txbuf))"
  using assms by (intro ipmb_encode_frame) (auto simp: wire_msg_def)

definition recorded :: "u32 \<Rightarrow> ipmi_msg \<Rightarrow> ipmi_msg" where
  "recorded now m = m\<lparr>seq_target := seq m, timestamp := now\<rparr>"

text \<open>What a transmit iteration does with a request, up to the result of the I2C write.\<close>

lemma tx_request_inserted:
  assumes i: "i = unat (cfg_index cfg)" "i < length (ip_chans s)" and ch: "ch = ip_chans s ! i"
    and cfg: "cfg_interface cfg = I2C_IF" and m: "wire_msg (buffer m)" "\<not> IS_RESPONSE (buffer m)"
    and tx: "length txbuf = IPMI_MSG_MAX_LENGTH + IPMB_RESP_HEADER_LENGTH" "255 \<le> I2C_BUFF_SIZE b"
    and ev: "i2c_malloc ev 0" "ins_lock ev = 0" "ins_malloc ev = Some (new, junk)"
    and pend: "pending (ip_heap s) ch rs" "ip_heap s new = None"
  shows "\<exists>h1 ch1 txbuf'. pending h1 ch1 (kept_nodes rs @ [recorded (ins_now ev) (buffer m)]) \<and>
    ipmb_tx_disable ch1 = ipmb_tx_disable ch \<and>
    tx_request b ev cfg m txbuf s =
     (let s1 = emit (I2c_write (cfg_bus cfg) (channel_target_address cfg) (tl (ipmb_frame (buffer m))))
                 (set_chan i ch1 (s\<lparr>ip_heap := h1\<rparr>)) in
      if (word_of_int (i2c_ret ev) :: u8) = 0 then Some (txbuf', s1)
      else do {
        (_, h, ch, msg) \<leftarrow> find_req_ipmi_msg (find_lock ev) h1 ch1 (P_start ch1)
          (recorded (ins_now ev) (buffer m));
        let s = set_chan i ch (s1\<lparr>ip_heap := h\<rparr>);
        let m = m\<lparr>buffer := msg, retries := retries m + 1\<rparr>;
        if retries m > IPMB_TX_RETRY_TIME then do {
          s \<leftarrow> tx_give_up b ev m s;
          Some (txbuf', s)
        } else Some (txbuf', emit (Put_tx i m) s)
      })"
proof -
  let ?b' = "ipmb_frame (buffer m) @ drop (length (ipmb_frame (buffer m))) txbuf"
  let ?msg = "(buffer m)\<lparr>seq_target := seq (buffer m)\<rparr>"
  have sq: "unat (seq_target ?msg) < SEQ_NUM" using m(1) by (simp add: wire_msg_def)
  have dis: "insert_req_ipmi_msg 0 (Some (new, junk)) (ins_now ev) (ip_heap s) ch (P_start ch) ?msg =
      Some (h', ch', msg') \<Longrightarrow> ipmb_tx_disable ch' = ipmb_tx_disable ch" for h' ch' msg'
    by (auto simp: insert_req_ipmi_msg_def evict_first_def register_seq_def Let_def
        split: option.splits if_splits prod.splits bind_splits)
  obtain h1 ch1 where ins: "insert_req_ipmi_msg 0 (Some (new, junk)) (ins_now ev) (ip_heap s) ch (P_start ch) ?msg =
      Some (h1, ch1, recorded (ins_now ev) (buffer m))"
    "pending h1 ch1 (kept_nodes rs @ [recorded (ins_now ev) (buffer m)])"
    using pending_insert [OF pend sq, of junk "ins_now ev"] by (auto simp: recorded_def)
  have d: "i2c_data b ?b' (ucast (data_len (buffer m)) + 6) = Some (tl (ipmb_frame (buffer m)))"
    using m tx by (intro i2c_data_frame) auto
  have ix: "unat (cfg_index cfg) = i" using i(1) by simp
  show ?thesis
    using ins dis [OF ins(1)] wire_encode [OF m(1) tx(1)] d i(2) ch cfg ev alloc_retry_first [of "i2c_malloc ev", OF ev(1)]
    by (intro exI [of _ h1] exI [of _ ch1] exI [of _ ?b']) (simp add: tx_request_def Let_def ix)
qed

text \<open>What \<open>ipmb_decode\<close> makes of the frame of \<open>m\<close>, into a message with the old contents \<open>m0\<close>.\<close>

definition decoded_msg :: "ipmi_msg \<Rightarrow> ipmi_msg \<Rightarrow> ipmi_msg" where
  "decoded_msg m0 m = m0\<lparr>dest_addr := dest_addr m, netfn := netfn m,
      dest_LUN := dest_LUN m, hdr_chksum := frame_header m ! 2, src_addr := src_addr m,
      seq := seq m, src_LUN := src_LUN m, cmd := cmd m,
      completion_code := (if IS_RESPONSE m then completion_code m else completion_code m0),
      data_len := data_len m, data := blit (data m0) 0 (msg_bytes m),
      msg_chksum := chk (frame_header m @ msg_bytes m)\<rparr>"

lemma msg_bytes_decoded:
  assumes "wire_msg m" and "wf_msg m0"
  shows "msg_bytes (decoded_msg m0 m) = msg_bytes m"
proof -
  have wf: "wf_msg m" and dl: "unat (data_len m) \<le> IPMI_MSG_MAX_LENGTH"
    using assms(1) by (auto simp: wire_msg_def)
  show ?thesis
    using take_drop_blit [of 0 "data m0" "msg_bytes m"] length_msg_bytes [OF wf dl]
    unfolding msg_bytes_def [of "decoded_msg m0 m"] by (simp add: decoded_msg_def)
qed

lemma IS_RESPONSE_decoded [simp]: "IS_RESPONSE (decoded_msg m0 m) = IS_RESPONSE m"
  by (simp add: decoded_msg_def IS_RESPONSE_def)

text \<open>The bytes on the bus start with the 8-bit form of the address.\<close>

definition bus_bytes :: "ipmi_msg \<Rightarrow> u8 list" where
  "bus_bytes m = push_bit 1 (dest_addr m) # tl (ipmb_frame m)"

lemma ipmb_frame_Cons: "ipmb_frame m = dest_addr m # tl (ipmb_frame m)"
  by (simp add: ipmb_frame_def frame_header_def Let_def)

lemma shift_back:
  assumes "unat (a :: u8) < 128"
  shows "drop_bit 1 (push_bit 1 a) = a"
proof (rule bit_word_eqI)
  fix n assume "n < LENGTH(8)"
  moreover have "bit a n \<Longrightarrow> n < 7" using bit_less_exp [of a 7 n] assms by simp
  ultimately show "bit (drop_bit 1 (push_bit 1 a)) n = bit a n"
    unfolding bit_drop_bit_eq comp_apply bit_push_bit_iff by auto
qed

lemma length_bus_bytes: "length (bus_bytes m) = length (ipmb_frame m)"
  using ipmb_frame_Cons [of m] by (metis bus_bytes_def length_Cons)

lemma wire_frame_length: "wire_msg m \<Longrightarrow> length (ipmb_frame m) < 256"
  by (auto simp: wire_msg_def length_ipmb_frame length_frame_header split: if_splits)

text \<open>The receive iteration on any frame that arrives complete: the buffer holds the bytes, the
  first one shifted back to the 7-bit address.\<close>

lemma IPMB_RXTask_received:
  assumes cfg: "cfg_interface cfg = I2C_IF" and rd: "slave_read ev = (0, x # bs)"
    and len: "Suc (length bs) < 256" and junk: "length (rx_junk ev) = IPMI_MSG_MAX_LENGTH + IPMB_RESP_HEADER_LENGTH"
  shows "IPMB_RXTask b ev cfg s =
    (let rx = drop_bit 1 x # bs @ drop (Suc (length bs)) (rx_junk ev) in do {
       ok \<leftarrow> validate_checksum (Some rx) (of_nat (Suc (length bs)));
       if ok \<noteq> IPMB_ERROR_SUCCESS then Some s
       else do {
         (_, dm) \<leftarrow> ipmb_decode (Some (buffer (stk_rx ev))) (Some rx) (of_nat (Suc (length bs)));
         msg \<leftarrow> dm;
         if IS_RESPONSE msg then rx_response b ev cfg msg s
         else rx_request ev cfg ((stk_rx ev)\<lparr>buffer := msg\<rparr>) s
       }
     })"
proof -
  have un: "unat (of_nat (Suc (length bs)) :: u8) = Suc (length bs)"
    using len by (intro unat_of_nat_u8) simp
  then have nz: "(of_nat (Suc (length bs)) :: u8) \<noteq> 0" by (metis nat.distinct(1) unat_0)
  have cp: "memcpy (rx_junk ev) 0 (x # bs) 0 (Suc (length bs)) =
      Some (x # bs @ drop (Suc (length bs)) (rx_junk ev))"
    using len junk by (simp add: blit_def)
  show ?thesis
    using cfg rd cp un nz by (simp add: IPMB_RXTask_def Let_def del: memcpy_Some of_nat_Suc)
qed

lemma IPMB_RXTask_frame:
  assumes "cfg_interface cfg = I2C_IF" and "slave_read ev = (0, bus_bytes r)"
    and junk: "length (rx_junk ev) = IPMI_MSG_MAX_LENGTH + IPMB_RESP_HEADER_LENGTH"
    and r: "wire_msg r" "unat (dest_addr r) < 128" and m0: "wf_msg (buffer (stk_rx ev))"
  shows "IPMB_RXTask b ev cfg s =
    (let msg = decoded_msg (buffer (stk_rx ev)) r in
     if IS_RESPONSE r then rx_response b ev cfg msg s
     else rx_request ev cfg ((stk_rx ev)\<lparr>buffer := msg\<rparr>) s)"
proof -
  define bs where "bs = tl (ipmb_frame r)"
  define n where "n = length (ipmb_frame r)"
  define rest where "rest = drop n (rx_junk ev)"
  have f: "dest_addr r # bs = ipmb_frame r" using ipmb_frame_Cons [of r] by (simp add: bs_def)
  then have n: "Suc (length bs) = n" unfolding n_def by (metis length_Cons)
  have rd: "slave_read ev = (0, push_bit 1 (dest_addr r) # bs)"
    using assms(2) by (simp only: bus_bytes_def bs_def)
  have lt: "Suc (length bs) < 256" using wire_frame_length [OF r(1)] by (simp only: n n_def)
  have rx: "drop_bit 1 (push_bit 1 (dest_addr r)) # bs @ rest = ipmb_frame r @ rest"
    unfolding shift_back [OF r(2)] f [symmetric] by simp
  note dec = ipmb_decode_frame [OF r(1) m0, folded decoded_msg_def n_def]
  note val = validate_checksum_own_frame [OF r(1), folded n_def]
  show ?thesis
    unfolding IPMB_RXTask_received [OF assms(1) rd lt junk] n rest_def [symmetric] Let_def rx dec val
    by simp
qed

lemma rx_response_delivered:
  assumes i: "unat (cfg_index cfg) = i" "i < length (ip_chans s)" and lock: "rx_find_lock ev = 0"
    and pend: "pending (ip_heap s) (ip_chans s ! i) (pre @ q # post)"
    and no: "\<forall>x \<in> set pre. \<not> req_matches x (msg\<lparr>seq_target := seq msg\<rparr>)"
    and hit: "req_matches q (msg\<lparr>seq_target := seq msg\<rparr>)"
  shows "\<exists>h ch. pending h ch (pre @ post) \<and>
    rx_response b ev cfg msg s =
      rx_deliver b ev cfg (restore_req q (msg\<lparr>seq_target := seq msg\<rparr>)) (set_chan i ch (s\<lparr>ip_heap := h\<rparr>))"
proof -
  obtain h ch where "find_req_ipmi_msg 0 (ip_heap s) (ip_chans s ! i) (P_start (ip_chans s ! i))
      (msg\<lparr>seq_target := seq msg\<rparr>) = Some (True, h, ch, restore_req q (msg\<lparr>seq_target := seq msg\<rparr>))"
    "pending h ch (pre @ post)"
    using pending_find_hit [OF pend no hit] by blast
  then show ?thesis
    using i lock by (intro exI [of _ h] exI [of _ ch]) (simp add: rx_response_def Let_def)
qed

text \<open>The situation in which a transmit iteration sends a request: the channel is enabled and its
  list intact, the message fits the wire format, and locks and allocations succeed.\<close>

definition tx_ready ::
    "ipmb_build \<Rightarrow> tx_env \<Rightarrow> IPMB_config \<Rightarrow> ipmi_msg_cfg \<Rightarrow> u8 list \<Rightarrow> ipmb_st \<Rightarrow> ipmi_msg list \<Rightarrow> bool" where
  "tx_ready b ev cfg m txbuf s rs \<longleftrightarrow>
     unat (cfg_index cfg) < length (ip_chans s) \<and>
     \<not> ipmb_tx_disable (ip_chans s ! unat (cfg_index cfg)) \<and> cfg_interface cfg = I2C_IF \<and>
     wire_msg (buffer m) \<and> \<not> IS_RESPONSE (buffer m) \<and>
     length txbuf = IPMI_MSG_MAX_LENGTH + IPMB_RESP_HEADER_LENGTH \<and> 255 \<le> I2C_BUFF_SIZE b \<and>
     i2c_malloc ev 0 \<and> ins_lock ev = 0 \<and>
     (\<exists>new junk. ins_malloc ev = Some (new, junk) \<and> ip_heap s new = None) \<and>
     pending (ip_heap s) (ip_chans s ! unat (cfg_index cfg)) rs"

lemma tx_ready_inserted:
  assumes "tx_ready b ev cfg m txbuf s rs" and i: "i = unat (cfg_index cfg)"
  shows "\<exists>h1 ch1 txbuf'. pending h1 ch1 (kept_nodes rs @ [recorded (ins_now ev) (buffer m)]) \<and>
    IPMB_TXTask b ev cfg m txbuf s =
     (let s1 = emit (I2c_write (cfg_bus cfg) (channel_target_address cfg) (tl (ipmb_frame (buffer m))))
                 (set_chan i ch1 (s\<lparr>ip_heap := h1\<rparr>)) in
      if (word_of_int (i2c_ret ev) :: u8) = 0 then Some (txbuf', s1)
      else do {
        (_, h, ch, msg) \<leftarrow> find_req_ipmi_msg (find_lock ev) h1 ch1 (P_start ch1)
          (recorded (ins_now ev) (buffer m));
        let s = set_chan i ch (s1\<lparr>ip_heap := h\<rparr>);
        let m = m\<lparr>buffer := msg, retries := retries m + 1\<rparr>;
        if retries m > IPMB_TX_RETRY_TIME then do {
          s \<leftarrow> tx_give_up b ev m s;
          Some (txbuf', s)
        } else Some (txbuf', emit (Put_tx i m) s)
      })"
proof -
  note a = assms(1) [unfolded tx_ready_def]
  from a obtain new junk where n: "ins_malloc ev = Some (new, junk)" "ip_heap s new = None" by blast
  have tx: "IPMB_TXTask b ev cfg m txbuf s = tx_request b ev cfg m txbuf s"
    using a by (simp add: IPMB_TXTask_def)
  show ?thesis
    unfolding tx
    using tx_request_inserted [OF i _ refl, of s m txbuf b ev new junk rs] a n i by blast
qed

lemma not_response_netfn:
  assumes "\<not> IS_RESPONSE m"
  shows "netfn m AND NOT 1 = netfn m"
proof (rule bit_word_eqI)
  fix k assume k: "k < LENGTH(8)"
  have "\<not> bit (netfn m) 0"
    using assms by (simp add: IS_RESPONSE_def and_one_eq bit_0 even_iff_mod_2_eq_zero)
  then show "bit (netfn m AND NOT 1) k = bit (netfn m) k"
    using k by (cases k) (auto simp: bit_simps bit_1_iff)
qed

section \<open>A concrete state\<close>

definition demo_cfg :: IPMB_config where
  "demo_cfg = \<lparr>cfg_index = 0, cfg_interface = I2C_IF, cfg_channel = BMC_IPMB, cfg_bus = 3,
     channel_target_address = 0x10, enable_status = True, self_address = 0x20,
     rx_thread_name = ''RX'', tx_thread_name = ''TX''\<rparr>"

definition demo_st :: "nat \<Rightarrow> ipmb_st" where
  "demo_st n = \<lparr>ip_heap = demo_heap n (\<lambda>_. 7), ip_chans = [demo_chan n],
     IPMB_config_table = [demo_cfg], IPMB_inf_index_map = replicate 97 0, ip_out = []\<rparr>"

definition demo_node :: ipmi_msg_cfg where
  "demo_node = \<lparr>buffer = zero_msg, retries = 0, next_ptr = None\<rparr>"

definition demo_send :: send_env where
  "demo_send = \<lparr>msgq_init = True, mutex_init = True, lock_ret = 0, put_ret = 0, stk = demo_node\<rparr>"

definition demo_tx :: "int \<Rightarrow> tx_env" where
  "demo_tx ret = \<lparr>i2c_malloc = \<lambda>_. True, ins_lock = 0, ins_malloc = Some (40, demo_node), ins_now = 50,
     i2c_ret = ret, find_lock = 0, kcs_malloc = \<lambda>_. True, tx_send = demo_send\<rparr>"

definition demo_rx :: "u8 list \<Rightarrow> rx_env" where
  "demo_rx bs = \<lparr>slave_read = (0, bs), stk_rx = demo_node, rx_junk = replicate 534 0,
     rx_find_lock = 0, rx_kcs_malloc = \<lambda>_. True, bridge_malloc = True, rx_send = demo_send,
     rx_send2 = demo_send, pal_immediate_respond_from_HOST = \<lambda>_ _. False,
     pal_request_msg_to_BIC_from_ME = \<lambda>_ _. True, pal_is_interface_use_ipmb = \<lambda>_. True,
     pldm_send_ipmi_request = \<lambda>m. m\<rparr>"

definition demo_build :: ipmb_build where
  "demo_build = \<lparr>CONFIG_IPMI_KCS_ASPEED = False, ENABLE_MPRO = False,
     ENABLE_OEM_BRIDGE_NETFN_SHIFT = False, I2C_BUFF_SIZE = 300\<rparr>"

lemma demo_tx_ready:
  assumes "wire_msg (buffer m)" and "\<not> IS_RESPONSE (buffer m)"
  shows "tx_ready demo_build (demo_tx ret) demo_cfg m (replicate 534 0) (demo_st 2)
    [demo_req (\<lambda>_. 7) 0, demo_req (\<lambda>_. 7) 1]"
proof -
  have "pending (demo_heap 2 (\<lambda>_. 7)) (demo_chan 2) (map (demo_req (\<lambda>_. 7)) [0..<2])"
    by (rule pending_demo) simp
  moreover have "demo_heap 2 (\<lambda>_. 7) 40 = None" by (simp add: demo_heap_def)
  ultimately show ?thesis
    using assms
    by (simp add: tx_ready_def demo_build_def demo_tx_def demo_cfg_def demo_st_def upt_rec demo_chan_def)
qed

section \<open>Properties\<close>

text \<open>C1. A request of this controller and its answer, end to end: the transmit iteration writes
  the IPMB frame of the request to the bus and records the request; when the bus then carries a
  frame that answers it (same command and sequence number, the odd network function), the receive
  iteration hands exactly one message to the queue of the requesting interface. That message has
  the payload and completion code of the answer and the requester's sequence number and
  interfaces, and no trace of the request is left in the list. The request is one of the controller
  itself (source \<open>SELF\<close>), no older pending request matches the answer, and when the list was full the
  oldest request has been evicted from it (\<open>kept_nodes\<close>).\<close>

theorem request_response_end_to_end:
  assumes tx: "tx_ready b ev cfg m txbuf s rs" "(word_of_int (i2c_ret ev) :: u8) = 0"
    and self: "InF_source (buffer m) = SELF"
      "load (IPMB_inf_index_map s) (unat (InF_target (buffer m))) = Some j" "unat j < length (ip_chans s)"
    and rx: "slave_read ev' = (0, bus_bytes r)" "rx_find_lock ev' = 0" "wf_msg (buffer (stk_rx ev'))"
      "length (rx_junk ev') = IPMI_MSG_MAX_LENGTH + IPMB_RESP_HEADER_LENGTH"
    and r: "wire_msg r" "unat (dest_addr r) < 128" "IS_RESPONSE r"
      "netfn r AND NOT 1 = netfn (buffer m)" "cmd r = cmd (buffer m)" "seq r = seq (buffer m)"
    and other: "\<forall>q \<in> set rs. \<not> req_matches q (r\<lparr>seq_target := seq r\<rparr>)"
  shows "\<exists>txbuf' s1 s2 d. IPMB_TXTask b ev cfg m txbuf s = Some (txbuf', s1) \<and>
    IPMB_RXTask b ev' cfg s1 = Some s2 \<and>
    ip_out s2 = ip_out s @ [I2c_write (cfg_bus cfg) (channel_target_address cfg) (tl (ipmb_frame (buffer m))),
      Put_rx (unat j) d] \<and>
    msg_bytes d = msg_bytes r \<and> completion_code d = completion_code r \<and>
    seq_source d = seq_source (buffer m) \<and> InF_target d = InF_target (buffer m) \<and>
    pending (ip_heap s2) (ip_chans s2 ! unat (cfg_index cfg)) (kept_nodes rs)"
proof -
  let ?i = "unat (cfg_index cfg)"
  let ?q = "recorded (ins_now ev) (buffer m)"
  let ?m = "decoded_msg (buffer (stk_rx ev')) r"
  let ?m' = "?m\<lparr>seq_target := seq ?m\<rparr>"
  obtain h1 ch1 txbuf' where p: "pending h1 ch1 (kept_nodes rs @ ?q # [])"
    and t: "IPMB_TXTask b ev cfg m txbuf s = Some (txbuf',
       emit (I2c_write (cfg_bus cfg) (channel_target_address cfg) (tl (ipmb_frame (buffer m))))
         (set_chan ?i ch1 (s\<lparr>ip_heap := h1\<rparr>)))" (is "_ = Some (_, ?s1)")
    using tx_ready_inserted [OF tx(1) refl] tx(2) by (auto simp: Let_def)
  have i: "?i < length (ip_chans s)" and cfg: "cfg_interface cfg = I2C_IF"
    using tx(1) by (auto simp: tx_ready_def)
  have no: "\<forall>x \<in> set (kept_nodes rs). \<not> req_matches x ?m'"
    using other kept_nodes_subset [of rs] by (auto simp: req_matches_def decoded_msg_def)
  have hit: "req_matches ?q ?m'"
    using r by (simp add: req_matches_def recorded_def decoded_msg_def)
  have p': "pending (ip_heap ?s1) (ip_chans ?s1 ! ?i) (kept_nodes rs @ ?q # [])"
    using p i by simp
  have i': "?i < length (ip_chans ?s1)" using i by simp
  obtain h2 ch2 where d: "pending h2 ch2 (kept_nodes rs)"
    "rx_response b ev' cfg ?m ?s1 =
       rx_deliver b ev' cfg (restore_req ?q ?m') (set_chan ?i ch2 (?s1\<lparr>ip_heap := h2\<rparr>))"
    using rx_response_delivered [OF refl i' rx(2) p' no hit, of b] by (simp only: append_Nil2) blast
  have "IPMB_RXTask b ev' cfg ?s1 = rx_response b ev' cfg ?m ?s1"
    using IPMB_RXTask_frame [OF cfg rx(1,4) r(1,2) rx(3)] r(3) by (simp add: Let_def)
  moreover have "msg_bytes (restore_req ?q ?m') = msg_bytes r"
    using msg_bytes_decoded [OF r(1) rx(3)] by (simp add: msg_bytes_def restore_req_def)
  ultimately show ?thesis
    using t d self i r(3)
    by (simp add: rx_deliver_def restore_req_def recorded_def decoded_msg_def)
qed

theorem request_response_end_to_end_witness:
  "\<exists>txbuf' s1 s2 d.
    IPMB_TXTask demo_build (demo_tx 0) demo_cfg (demo_node\<lparr>buffer := zero_msg\<lparr>netfn := 6, seq := 9, seq_source := 4\<rparr>\<rparr>)
      (replicate 534 0) (demo_st 2) = Some (txbuf', s1) \<and>
    IPMB_RXTask demo_build (demo_rx (bus_bytes (zero_msg\<lparr>netfn := 7, seq := 9\<rparr>))) demo_cfg s1 = Some s2 \<and>
    (\<exists>w. ip_out s2 = [w, Put_rx 0 d]) \<and> seq_source d = 4"
proof -
  let ?q = "zero_msg\<lparr>netfn := 6, seq := 9, seq_source := 4\<rparr>"
  let ?r = "zero_msg\<lparr>netfn := 7, seq := 9\<rparr>"
  have w: "wire_msg ?q" "\<not> IS_RESPONSE ?q" "wire_msg ?r" "IS_RESPONSE ?r"
    by (simp_all add: wire_msg_def length_frame_header IS_RESPONSE_def zero_msg_def wf_msg_def)
  let ?m = "demo_node\<lparr>buffer := ?q\<rparr>"
  have t: "tx_ready demo_build (demo_tx 0) demo_cfg ?m (replicate 534 0) (demo_st 2)
      [demo_req (\<lambda>_. 7) 0, demo_req (\<lambda>_. 7) 1]"
    using w by (intro demo_tx_ready) simp_all
  have t0: "(word_of_int (i2c_ret (demo_tx 0)) :: u8) = 0" by (simp add: demo_tx_def)
  have s: "InF_source (buffer ?m) = SELF"
    "load (IPMB_inf_index_map (demo_st 2)) (unat (InF_target (buffer ?m))) = Some 0"
    "unat (0 :: u8) < length (ip_chans (demo_st 2))"
    by (simp_all add: zero_msg_def demo_st_def)
  have x: "slave_read (demo_rx (bus_bytes ?r)) = (0, bus_bytes ?r)" "rx_find_lock (demo_rx (bus_bytes ?r)) = 0"
    "wf_msg (buffer (stk_rx (demo_rx (bus_bytes ?r))))"
    "length (rx_junk (demo_rx (bus_bytes ?r))) = IPMI_MSG_MAX_LENGTH + IPMB_RESP_HEADER_LENGTH"
    by (simp_all add: demo_rx_def demo_node_def)
  have r: "unat (dest_addr ?r) < 128" "netfn ?r AND NOT 1 = netfn (buffer ?m)" "cmd ?r = cmd (buffer ?m)"
    "seq ?r = seq (buffer ?m)"
    "\<forall>q \<in> set [demo_req (\<lambda>_. 7) 0, demo_req (\<lambda>_. 7) 1]. \<not> req_matches q (?r\<lparr>seq_target := seq ?r\<rparr>)"
    by (simp_all add: zero_msg_def demo_req_def req_matches_def)
  obtain txbuf' s1 s2 d where
    "IPMB_TXTask demo_build (demo_tx 0) demo_cfg ?m (replicate 534 0) (demo_st 2) = Some (txbuf', s1)"
    "IPMB_RXTask demo_build (demo_rx (bus_bytes ?r)) demo_cfg s1 = Some s2"
    "ip_out s2 = ip_out (demo_st 2) @ [I2c_write (cfg_bus demo_cfg) (channel_target_address demo_cfg)
        (tl (ipmb_frame (buffer ?m))), Put_rx (unat (0 :: u8)) d]" "seq_source d = seq_source (buffer ?m)"
    using request_response_end_to_end [OF t t0 s x w(3) r(1) w(4) r(2-5)] by blast
  moreover have "ip_out (demo_st 2) = []" by (simp add: demo_st_def)
  ultimately show ?thesis by simp
qed

text \<open>A request that the bus refuses leaves no trace in the list of pending requests: it is
  taken out again, and as long as its retry counter does not exceed the limit it goes back to the
  transmit queue with the counter incremented; the number of attempts is bounded.\<close>

theorem failed_request_requeued:
  assumes tx: "tx_ready b ev cfg m txbuf s rs" "(word_of_int (i2c_ret ev) :: u8) \<noteq> 0" "find_lock ev = 0"
    and r: "retries m < IPMB_TX_RETRY_TIME"
    and other: "\<forall>q \<in> set rs. \<not> req_matches q (recorded (ins_now ev) (buffer m))"
  shows "\<exists>txbuf' s'. IPMB_TXTask b ev cfg m txbuf s = Some (txbuf', s') \<and>
    ip_out s' = ip_out s @ [I2c_write (cfg_bus cfg) (channel_target_address cfg) (tl (ipmb_frame (buffer m))),
      Put_tx (unat (cfg_index cfg))
        (m\<lparr>buffer := recorded (ins_now ev) (buffer m), retries := retries m + 1\<rparr>)] \<and>
    unat (retries m + 1) = Suc (unat (retries m)) \<and>
    pending (ip_heap s') (ip_chans s' ! unat (cfg_index cfg)) (kept_nodes rs)"
proof -
  let ?i = "unat (cfg_index cfg)"
  let ?q = "recorded (ins_now ev) (buffer m)"
  have a: "?i < length (ip_chans s)" "\<not> IS_RESPONSE (buffer m)"
    using tx(1) by (auto simp: tx_ready_def)
  have hit: "req_matches ?q ?q"
    using not_response_netfn [OF a(2)] by (simp add: req_matches_def recorded_def)
  have no: "\<forall>x \<in> set (kept_nodes rs). \<not> req_matches x ?q" using other kept_nodes_subset [of rs] by auto
  have rt: "unat (retries m + 1) = Suc (unat (retries m))" "\<not> IPMB_TX_RETRY_TIME < retries m + 1"
    using r by (simp_all add: word_less_nat_alt unat_word_ariths)
  have self: "restore_req ?q ?q = ?q" by (simp add: restore_req_def recorded_def)
  obtain h1 ch1 txbuf' where p: "pending h1 ch1 (kept_nodes rs @ ?q # [])"
    and t: "IPMB_TXTask b ev cfg m txbuf s =
     (let s1 = emit (I2c_write (cfg_bus cfg) (channel_target_address cfg) (tl (ipmb_frame (buffer m))))
                 (set_chan ?i ch1 (s\<lparr>ip_heap := h1\<rparr>)) in
      do {
        (_, h, ch, msg) \<leftarrow> find_req_ipmi_msg 0 h1 ch1 (P_start ch1) ?q;
        let s = set_chan ?i ch (s1\<lparr>ip_heap := h\<rparr>);
        let m = m\<lparr>buffer := msg, retries := retries m + 1\<rparr>;
        if retries m > IPMB_TX_RETRY_TIME then do {
          s \<leftarrow> tx_give_up b ev m s;
          Some (txbuf', s)
        } else Some (txbuf', emit (Put_tx ?i m) s)
      })"
    using tx_ready_inserted [OF tx(1) refl] tx(2,3) by (auto simp: Let_def)
  obtain h2 ch2 where "find_req_ipmi_msg 0 h1 ch1 (P_start ch1) ?q = Some (True, h2, ch2, ?q)"
    "pending h2 ch2 (kept_nodes rs)"
    using pending_find_hit [OF p no hit] self by auto
  with t rt a(1) show ?thesis by (simp add: Let_def)
qed

theorem failed_request_requeued_witness:
  "\<exists>txbuf' s'. IPMB_TXTask demo_build (demo_tx 1) demo_cfg (demo_node\<lparr>buffer := zero_msg\<lparr>netfn := 6, seq := 9\<rparr>\<rparr>)
      (replicate 534 0) (demo_st 2) = Some (txbuf', s') \<and>
    pending (ip_heap s') (ip_chans s' ! unat (cfg_index demo_cfg))
      (kept_nodes [demo_req (\<lambda>_. 7) 0, demo_req (\<lambda>_. 7) 1])"
proof -
  let ?q = "zero_msg\<lparr>netfn := 6, seq := 9\<rparr>"
  have w: "wire_msg ?q" "\<not> IS_RESPONSE ?q"
    by (simp_all add: wire_msg_def length_frame_header IS_RESPONSE_def zero_msg_def wf_msg_def)
  have "tx_ready demo_build (demo_tx 1) demo_cfg (demo_node\<lparr>buffer := ?q\<rparr>) (replicate 534 0) (demo_st 2)
      [demo_req (\<lambda>_. 7) 0, demo_req (\<lambda>_. 7) 1]"
    using w by (intro demo_tx_ready) simp_all
  from failed_request_requeued [OF this] show ?thesis
    by (fastforce simp: demo_tx_def demo_node_def demo_req_def req_matches_def recorded_def zero_msg_def)
qed

text \<open>Changing one byte of a frame changes its total.\<close>

lemma sum_list_update_word:
  fixes xs :: "u8 list"
  shows "k < length xs \<Longrightarrow> sum_list (xs[k := v]) = sum_list xs + (v - xs ! k)"
proof (induction xs arbitrary: k)
  case (Cons x xs)
  then show ?case by (cases k) simp_all
qed simp

lemma chk_update:
  assumes "1 \<le> k" and "k < length xs"
  shows "chk (xs[k := v]) = chk xs - (v - xs ! k)"
proof -
  obtain y ys where xs: "xs = y # ys" using assms by (cases xs) auto
  obtain j where k: "k = Suc j" using assms by (cases k) auto
  then show ?thesis using assms xs by (simp add: chk_def sum_list_update_word)
qed

lemma validate_checksum_total:
  assumes "2 < length xs" and "length xs < 256"
    and "validate_checksum (Some (xs @ rest)) (of_nat (length xs)) = Some IPMB_ERROR_SUCCESS"
  shows "chk xs = 0"
proof -
  have un: "unat (of_nat (length xs) :: u8) = length xs" using assms(2) by (rule unat_of_nat_u8)
  have "(xs @ rest) ! (length xs - 1) = chk (take (length xs - 1) (xs @ rest))"
    using validate_checksum_frame [of "of_nat (length xs)" "xs @ rest"] assms un
    by (auto split: if_splits)
  then have "last xs = chk (butlast xs)"
    using assms(1) by (cases "xs = []") (auto simp: nth_append last_conv_nth butlast_conv_take)
  moreover have "butlast xs \<noteq> []" "xs \<noteq> []" using assms(1) by (cases xs; auto)+
  ultimately show ?thesis
    using chk_snoc [of "butlast xs"] append_butlast_last_id [of xs] by simp
qed

lemma chk_frame: "chk (ipmb_frame m) = 0"
proof -
  have "frame_header m @ msg_bytes m \<noteq> []" by (simp add: frame_header_def Let_def)
  from chk_snoc [OF this] show ?thesis unfolding ipmb_frame_def Let_def .
qed

text \<open>C16. A frame that was damaged in one byte after the address on its way is ignored: the
  receive iteration leaves the state and the trace of outgoing calls exactly as they were.\<close>

theorem single_byte_corruption_ignored:
  assumes cfg: "cfg_interface cfg = I2C_IF" and r: "wire_msg r" "unat (dest_addr r) < 128"
    and rd: "slave_read ev = (0, (bus_bytes r)[k := v])" and k: "1 \<le> k" "k < length (bus_bytes r)"
    and v: "v \<noteq> bus_bytes r ! k"
    and junk: "length (rx_junk ev) = IPMI_MSG_MAX_LENGTH + IPMB_RESP_HEADER_LENGTH"
  shows "IPMB_RXTask b ev cfg s = Some s"
proof -
  define bs where "bs = tl (ipmb_frame r)"
  have f: "dest_addr r # bs = ipmb_frame r" using ipmb_frame_Cons [of r] by (simp add: bs_def)
  obtain j where j: "k = Suc j" using k by (cases k) auto
  let ?xs = "(ipmb_frame r)[k := v]"
  have xs: "?xs = dest_addr r # bs[j := v]" using f j by (metis list_update_code(3))
  have len: "length ?xs = Suc (length bs)" by (simp add: xs)
  have wf: "wf_msg r" "unat (data_len r) \<le> IPMI_MSG_MAX_LENGTH" using r by (auto simp: wire_msg_def)
  have l: "2 < length ?xs" "length ?xs < 256"
    using wire_frame_length [OF r(1)] length_ipmb_frame [OF wf] by simp_all
  have rd': "slave_read ev = (0, push_bit 1 (dest_addr r) # bs[j := v])"
    using rd j by (simp only: bus_bytes_def bs_def list_update_code)
  have "bus_bytes r ! k = ipmb_frame r ! k"
    using f j by (metis bus_bytes_def bs_def nth_Cons_Suc)
  then have "v - ipmb_frame r ! k \<noteq> 0" using v by simp
  moreover have "chk ?xs = chk (ipmb_frame r) - (v - ipmb_frame r ! k)"
    using k by (intro chk_update) (simp_all add: length_bus_bytes)
  ultimately have "chk ?xs \<noteq> 0" by (simp add: chk_frame)
  then have bad: "validate_checksum (Some (?xs @ rest)) (of_nat (length ?xs)) \<noteq> Some IPMB_ERROR_SUCCESS" for rest
    using validate_checksum_total [OF l] by blast
  have lt: "Suc (length (bs[j := v])) < 256" using l(2) len by simp
  let ?rest = "drop (Suc (length bs)) (rx_junk ev)"
  have u: "unat (of_nat (length ?xs) :: u8) = length ?xs" using l(2) by (rule unat_of_nat_u8)
  have "2 < unat (of_nat (length ?xs) :: u8)" "unat (of_nat (length ?xs) :: u8) \<le> length (?xs @ ?rest)"
    unfolding u using l(1) by simp_all
  from validate_checksum_frame [OF this] bad [of ?rest] obtain e where
    e: "validate_checksum (Some (?xs @ ?rest)) (of_nat (length ?xs)) = Some e" "e \<noteq> IPMB_ERROR_SUCCESS"
    by metis
  show ?thesis
    using IPMB_RXTask_received [OF cfg rd' lt junk, of b s] e
    by (simp only: Let_def shift_back [OF r(2)] append_Cons [symmetric] xs [symmetric] length_list_update
        len [symmetric] bind.bind_lunit if_True not_False_eq_True)
qed

theorem single_byte_corruption_ignored_witness:
  "IPMB_RXTask demo_build (demo_rx ((bus_bytes (zero_msg\<lparr>netfn := 7, seq := 9\<rparr>))[5 := 1])) demo_cfg (demo_st 2) =
    Some (demo_st 2)"
proof (rule single_byte_corruption_ignored [where k = 5 and v = 1])
  show "wire_msg (zero_msg\<lparr>netfn := 7, seq := 9\<rparr>)"
    by (simp add: wire_msg_def length_frame_header IS_RESPONSE_def zero_msg_def wf_msg_def)
  show "5 < length (bus_bytes (zero_msg\<lparr>netfn := 7, seq := 9\<rparr>))" "1 \<noteq> bus_bytes (zero_msg\<lparr>netfn := 7, seq := 9\<rparr>) ! 5"
    by (simp_all add: bus_bytes_def ipmb_frame_def frame_header_def Let_def IS_RESPONSE_def zero_msg_def)
qed (simp_all add: demo_cfg_def demo_rx_def zero_msg_def)

section \<open>Initialisation\<close>

lemma channel_search_result:
  "channel \<le> unat c \<Longrightarrow> channel_search c j channel m =
    (if unat c < unat RESERVED then store m (unat c) j else Some m)"
proof (induction c j channel m rule: channel_search.induct)
  case (1 c index_num channel m)
  have eq: "c = of_nat channel \<longleftrightarrow> unat c = channel" if "channel < 97"
    using that by (auto simp: unat_of_nat)
  show ?case
  proof (cases "channel < unat RESERVED")
    case True
    then show ?thesis
      using 1 eq by (subst channel_search.simps) auto
  next
    case False
    then show ?thesis using 1 by (subst channel_search.simps) auto
  qed
qed

text \<open>The channel map after the entries \<open>k, ..., t - 1\<close> of the table.\<close>

definition map_entry :: "IPMB_config list \<Rightarrow> u8 list \<Rightarrow> nat \<Rightarrow> u8 list" where
  "map_entry tab m j = (if unat (cfg_channel (tab ! j)) < unat RESERVED
     then m[unat (cfg_channel (tab ! j)) := of_nat j] else m)"

lemma length_map_entries: "length (foldl (map_entry tab) m js) = length m"
  by (induction js arbitrary: m) (simp_all add: map_entry_def)

lemma channel_map_loop_result:
  assumes "t < length tab" and "t < 256" and "cfg_index (tab ! t) = RESERVED_IDX"
    and "\<forall>j < t. cfg_index (tab ! j) \<noteq> RESERVED_IDX" and "length m = unat RESERVED" and "k \<le> t"
  shows "channel_map_loop tab (of_nat k) m = Some (foldl (map_entry tab) m [k..<t])"
  using assms(5,6)
proof (induction "t - k" arbitrary: k m)
  case 0
  then have "k = t" by simp
  with assms show ?case by (subst channel_map_loop.simps) simp
next
  case (Suc n)
  then have kt: "k < t" by simp
  have u: "unat (of_nat k :: u8) = k" using kt assms(2) by (intro unat_of_nat_u8) simp
  have s: "channel_search (cfg_channel (tab ! k)) (of_nat k) 0 m = Some (map_entry tab m k)"
    using Suc.prems by (simp add: channel_search_result map_entry_def)
  have "channel_map_loop tab (of_nat k) m = channel_map_loop tab (of_nat (Suc k)) (map_entry tab m k)"
    using kt assms u s by (subst channel_map_loop.simps) (simp add: add.commute)
  also have "\<dots> = Some (foldl (map_entry tab) (map_entry tab m k) [Suc k..<t])"
    using Suc kt by (intro Suc.hyps(1)) (simp_all add: map_entry_def)
  finally show ?case using kt by (simp add: upt_conv_Cons)
qed

lemma map_entries_nth:
  assumes "\<forall>j \<in> set js. unat (cfg_channel (tab ! j)) \<noteq> c"
  shows "foldl (map_entry tab) m js ! c = m ! c"
  using assms by (induction js arbitrary: m) (auto simp: map_entry_def)

text \<open>Creating the threads of one channel makes an empty, intact request list.\<close>

lemma create_ipmb_threads_pending:
  assumes "seq_current_count ch = 0"
  shows "\<exists>ok h' ch'. create_ipmb_threads (Some (p, junk)) minit h ch = (ok, h', ch') \<and> pending h' ch' [] \<and>
    P_start ch' = Some p \<and> h' = h(p \<mapsto> junk\<lparr>next_ptr := Some p\<rparr>)"
  using assms
  by (auto simp: create_ipmb_threads_def Let_def pending_def chan_ok_def ring_def intro!: exI [of _ "[]"])

lemma pending_Nil_iff:
  "pending h ch [] \<longleftrightarrow> (\<exists>p n. P_start ch = Some p \<and> h p = Some n \<and> next_ptr n = Some p) \<and>
     seq_current_count ch = 0 \<and> length (seq_table ch) = SEQ_NUM"
  by (auto simp: pending_def chan_ok_def ring_def reqs_def unat_eq_zero)

lemma create_all_threads_pending:
  assumes "distinct ixs" "\<forall>i \<in> set ixs. i < length (ip_chans s) \<and> i < length (IPMB_config_table s)"
    and "\<forall>i \<in> set ixs. mal i = Some (blk i, junk i)" "inj_on blk (set ixs)"
    and "\<forall>i \<in> set ixs. seq_current_count (ip_chans s ! i) = 0"
  shows "\<exists>s'. create_all_threads mal minit ixs s = Some s' \<and>
    length (ip_chans s') = length (ip_chans s) \<and> IPMB_inf_index_map s' = IPMB_inf_index_map s \<and>
    (\<forall>j. j \<notin> set ixs \<longrightarrow> ip_chans s' ! j = ip_chans s ! j) \<and>
    (\<forall>a. a \<notin> blk ` set ixs \<longrightarrow> ip_heap s' a = ip_heap s a) \<and>
    IPMB_config_table s' = IPMB_config_table s \<and>
    (\<forall>i \<in> set ixs. enable_status (IPMB_config_table s ! i) \<longrightarrow>
      pending (ip_heap s') (ip_chans s' ! i) [] \<and> P_start (ip_chans s' ! i) = Some (blk i))"
  using assms
proof (induction ixs arbitrary: s)
  case Nil
  then show ?case by simp
next
  case (Cons i ixs)
  let ?c = "IPMB_config_table s ! i"
  obtain ok h ch where st: "(if enable_status ?c then create_ipmb_threads (mal i) (minit i) (ip_heap s) (ip_chans s ! i)
      else (False, ip_heap s, ip_chans s ! i)) = (ok, h, ch)"
    "enable_status ?c \<longrightarrow> pending h ch [] \<and> P_start ch = Some (blk i)"
    "\<forall>a. a \<noteq> blk i \<longrightarrow> h a = ip_heap s a"
    using create_ipmb_threads_pending [of "ip_chans s ! i" "blk i" "junk i" "minit i" "ip_heap s"] Cons.prems
    by (cases "enable_status ?c") auto
  let ?s = "set_chan i ch (s\<lparr>ip_heap := h\<rparr>)"
  have step: "create_all_threads mal minit (i # ixs) s = create_all_threads mal minit ixs ?s"
    using st(1) Cons.prems(2) by simp
  have i: "i \<notin> set ixs" "blk i \<notin> blk ` set ixs" "i < length (ip_chans s)"
    using Cons.prems by auto
  have zero: "\<forall>j \<in> set ixs. seq_current_count (ip_chans ?s ! j) = 0"
  proof
    fix j assume "j \<in> set ixs"
    then have "j \<noteq> i" using i(1) by auto
    then show "seq_current_count (ip_chans ?s ! j) = 0"
      using Cons.prems(5) \<open>j \<in> set ixs\<close> by (simp add: nth_list_update)
  qed
  obtain s' where s': "create_all_threads mal minit ixs ?s = Some s'"
    "length (ip_chans s') = length (ip_chans s)" "IPMB_inf_index_map s' = IPMB_inf_index_map s"
    "\<forall>j. j \<notin> set ixs \<longrightarrow> ip_chans s' ! j = ip_chans ?s ! j" "\<forall>a. a \<notin> blk ` set ixs \<longrightarrow> ip_heap s' a = h a"
    "IPMB_config_table s' = IPMB_config_table s"
    "\<forall>j \<in> set ixs. enable_status (IPMB_config_table s ! j) \<longrightarrow>
      pending (ip_heap s') (ip_chans s' ! j) [] \<and> P_start (ip_chans s' ! j) = Some (blk j)"
    using Cons.IH [of ?s] Cons.prems i(1) zero by (auto simp: inj_on_insert)
  have "pending (ip_heap s') (ip_chans s' ! i) [] \<and> P_start (ip_chans s' ! i) = Some (blk i)" if "enable_status ?c"
    using st(2) that s'(4,5) i by (auto simp: pending_Nil_iff)
  with step s' st(3) i show ?case by (auto simp: nth_list_update)
qed

text \<open>What \<open>ipmb_init\<close> does with a loaded configuration.\<close>

lemma ipmb_init_result:
  assumes tab: "length tab = length (ip_chans s)" "t < length tab" "t < 256" "cfg_index (tab ! t) = RESERVED_IDX"
      "\<forall>j < t. cfg_index (tab ! j) \<noteq> RESERVED_IDX"
    and mal: "\<forall>i < length tab. mal i = Some (blk i, junk i)" "inj_on blk {..<length tab}"
    and zero: "\<forall>i < length tab. seq_current_count (ip_chans s ! i) = 0"
  shows "\<exists>s'. ipmb_init True (True, tab) freq mal minit s = Some (s', Some (freq, freq div 1000)) \<and>
    IPMB_inf_index_map s' = foldl (map_entry tab) (replicate (unat RESERVED) RESERVED) [0..<t] \<and>
    IPMB_config_table s' = tab \<and> length (ip_chans s') = length tab \<and>
    (\<forall>i < length tab. enable_status (tab ! i) \<longrightarrow>
      pending (ip_heap s') (ip_chans s' ! i) [] \<and> P_start (ip_chans s' ! i) = Some (blk i))"
proof -
  let ?m = "foldl (map_entry tab) (replicate (unat RESERVED) RESERVED) [0..<t]"
  have ml: "channel_map_loop tab 0 (replicate (unat RESERVED) RESERVED) = Some ?m"
    using channel_map_loop_result [OF tab(2-5), of "replicate (unat RESERVED) RESERVED" 0] by simp
  let ?s = "s\<lparr>IPMB_config_table := tab, IPMB_inf_index_map := ?m,
      ip_chans := map (\<lambda>ch. ch\<lparr>current_seq := 0\<rparr>) (ip_chans s)\<rparr>"
  have "\<exists>s'. create_all_threads mal minit [0..<length (ip_chans s)] ?s = Some s' \<and>
      IPMB_inf_index_map s' = ?m \<and> IPMB_config_table s' = tab \<and> length (ip_chans s') = length tab \<and>
      (\<forall>i < length tab. enable_status (tab ! i) \<longrightarrow>
        pending (ip_heap s') (ip_chans s' ! i) [] \<and> P_start (ip_chans s' ! i) = Some (blk i))"
    using create_all_threads_pending [of "[0..<length (ip_chans s)]" ?s mal blk junk minit] tab mal zero
    by (auto simp: lessThan_atLeast0)
  then show ?thesis using ml by (auto simp: ipmb_init_def channel_index_mapping_def)
qed

text \<open>\<open>ipmb_init\<close> with a loaded configuration (its terminator at entry \<open>t\<close>) returns, and
  afterwards every enabled channel has an empty, intact request list, every configured interface
  below \<open>RESERVED\<close> is mapped to the last table entry that names it, and every other interface is
  mapped to \<open>RESERVED\<close>.\<close>

theorem ipmb_init_establishes:
  assumes tab: "length tab = length (ip_chans s)" "t < length tab" "t < 256" "cfg_index (tab ! t) = RESERVED_IDX"
      "\<forall>j < t. cfg_index (tab ! j) \<noteq> RESERVED_IDX"
    and mal: "\<forall>i < length tab. mal i = Some (blk i, junk i)" "inj_on blk {..<length tab}"
    and zero: "\<forall>i < length tab. seq_current_count (ip_chans s ! i) = 0"
  shows "\<exists>s'. ipmb_init True (True, tab) freq mal minit s = Some (s', Some (freq, freq div 1000)) \<and>
    (\<forall>i < length tab. enable_status (tab ! i) \<longrightarrow> pending (ip_heap s') (ip_chans s' ! i) []) \<and>
    (\<forall>j < t. unat (cfg_channel (tab ! j)) < unat RESERVED \<and>
        (\<forall>j'. j < j' \<and> j' < t \<longrightarrow> cfg_channel (tab ! j') \<noteq> cfg_channel (tab ! j)) \<longrightarrow>
      IPMB_inf_index_map s' ! unat (cfg_channel (tab ! j)) = of_nat j) \<and>
    (\<forall>c. c < unat RESERVED \<and> (\<forall>j < t. unat (cfg_channel (tab ! j)) \<noteq> c) \<longrightarrow>
      IPMB_inf_index_map s' ! c = RESERVED)"
proof -
  define m where "m = foldl (map_entry tab) (replicate (unat RESERVED) RESERVED) [0..<t]"
  obtain s' where init: "ipmb_init True (True, tab) freq mal minit s = Some (s', Some (freq, freq div 1000))"
    "IPMB_inf_index_map s' = m" "\<forall>i < length tab. enable_status (tab ! i) \<longrightarrow> pending (ip_heap s') (ip_chans s' ! i) []"
    using ipmb_init_result [OF assms, of freq minit] by (auto simp: m_def)
  have "m ! unat (cfg_channel (tab ! j)) = of_nat j"
    if j: "j < t" "unat (cfg_channel (tab ! j)) < unat RESERVED"
      "\<forall>j'. j < j' \<and> j' < t \<longrightarrow> cfg_channel (tab ! j') \<noteq> cfg_channel (tab ! j)" for j
  proof -
    have "[0..<t] = [0..<j] @ j # [Suc j..<t]"
      using upt_add_eq_append [of 0 j "t - j"] upt_conv_Cons [of j t] j(1) by simp
    moreover have "\<forall>j' \<in> set [Suc j..<t]. unat (cfg_channel (tab ! j')) \<noteq> unat (cfg_channel (tab ! j))"
      using j(3) by (metis atLeastLessThan_iff atLeastLessThan_upt less_eq_Suc_le unsigned_word_eqI)
    ultimately show ?thesis
      using j(2) by (simp add: m_def map_entries_nth) (simp add: map_entry_def length_map_entries)
  qed
  moreover have "m ! c = RESERVED" if "c < unat RESERVED" "\<forall>j < t. unat (cfg_channel (tab ! j)) \<noteq> c" for c
    using that by (simp add: m_def map_entries_nth)
  ultimately show ?thesis using init by blast
qed

theorem ipmb_init_establishes_witness:
  "\<exists>s'. ipmb_init True (True, [demo_cfg, demo_cfg\<lparr>cfg_index := RESERVED_IDX, enable_status := False\<rparr>]) 1000000
      (\<lambda>i. Some (i + 50, demo_node)) (\<lambda>_ _. 0) ((demo_st 0)\<lparr>ip_chans := [demo_chan 0, demo_chan 0]\<rparr>) =
      Some (s', Some (1000000, 1000)) \<and> pending (ip_heap s') (ip_chans s' ! 0) [] \<and>
    IPMB_inf_index_map s' ! 2 = 0 \<and> IPMB_inf_index_map s' ! 1 = RESERVED"
proof -
  let ?tab = "[demo_cfg, demo_cfg\<lparr>cfg_index := RESERVED_IDX, enable_status := False\<rparr>]"
  let ?s = "(demo_st 0)\<lparr>ip_chans := [demo_chan 0, demo_chan 0]\<rparr>"
  have "length ?tab = length (ip_chans ?s)" "(1 :: nat) < length ?tab" "(1 :: nat) < 256"
    "cfg_index (?tab ! 1) = RESERVED_IDX" "\<forall>j < 1. cfg_index (?tab ! j) \<noteq> RESERVED_IDX"
    "\<forall>i < length ?tab. (\<lambda>i. Some (i + 50, demo_node)) i = Some ((\<lambda>i. i + 50) i, (\<lambda>_. demo_node) i)"
    "inj_on (\<lambda>i. i + 50 :: nat) {..<length ?tab}"
    "\<forall>i < length ?tab. seq_current_count (ip_chans ?s ! i) = 0"
    by (auto simp: demo_cfg_def demo_chan_def less_Suc_eq inj_on_def nth_Cons split: nat.splits)
  from ipmb_init_establishes [OF this, of 1000000 "\<lambda>_ _. 0"] show ?thesis
    by (fastforce simp: demo_cfg_def less_Suc_eq)
qed

end
