(* ===== verification/Ipmi_Core.thy ===== *)
theory Ipmi_Core
  imports App_Handler Ipmb_Tasks
begin

text \<open>
  The IPMI task of \<open>samples/ipmi_openbic/src/ipmi/ipmi.c\<close>, the platform hooks (its weak
  defaults and \<open>pal/ipmi/plat_ipmi.c\<close>) and the KCS polling loop of \<open>main.c\<close>. This is the part
  of the stack that the sample builds: no IPMB channel, no USB and no SSIF, so the answers go to
  the KCS interface. Message queues belong to the kernel: their operations are parameters (the
  record \<open>msgq\<close>), and the properties that need it assume the documented behaviour of a bounded
  queue (\<open>msgq_laws\<close>).
\<close>

section \<open>Message queues of the kernel\<close>

record ('q, 'm) msgq =
  k_msgq_put :: "'m \<Rightarrow> 'q \<Rightarrow> int \<times> 'q"
  k_msgq_num_free_get :: "'q \<Rightarrow> u32"
  k_msgq_purge :: "'q \<Rightarrow> 'q"

text \<open>\<open>items\<close> reads the contents, oldest first; \<open>cap\<close> is the capacity given to \<open>k_msgq_init\<close>.
  A put without waiting returns 0 and appends when there is room, and otherwise fails.\<close>

definition msgq_laws :: "('q, 'm) msgq \<Rightarrow> ('q \<Rightarrow> 'm list) \<Rightarrow> nat \<Rightarrow> bool" where
  "msgq_laws ops items cap \<longleftrightarrow>
     (\<forall>m q. if length (items q) < cap
        then fst (k_msgq_put ops m q) = 0 \<and> items (snd (k_msgq_put ops m q)) = items q @ [m]
        else fst (k_msgq_put ops m q) \<noteq> 0 \<and> items (snd (k_msgq_put ops m q)) = items q) \<and>
     (\<forall>q. k_msgq_num_free_get ops q = of_nat (cap - length (items q))) \<and>
     (\<forall>q. items (k_msgq_purge ops q) = [])"

abbreviation (input) IPMI_BUF_LEN :: nat where "IPMI_BUF_LEN \<equiv> 10"

section \<open>Notification of the IPMI task\<close>

text \<open>The loop \<open>while (ret != 0 && retry > 0)\<close>; \<open>lock k\<close> is the result of the \<open>k\<close>-th
  \<open>k_mutex_lock\<close>. It returns the remaining retries and the queue.\<close>

fun notify_loop ::
    "('q, 'm) msgq \<Rightarrow> (nat \<Rightarrow> int) \<Rightarrow> 'm \<Rightarrow> nat \<Rightarrow> int \<Rightarrow> nat \<Rightarrow> 'q \<Rightarrow> nat \<times> 'q" where
  "notify_loop ops lock m k ret 0 q = (0, q)"
| "notify_loop ops lock m k ret (Suc retry) q =
     (if ret = 0 then (Suc retry, q)
      else if lock k < 0 then notify_loop ops lock m (Suc k) ret retry q
      else
        let q = (if k_msgq_num_free_get ops q = 0 then k_msgq_purge ops q else q);
            (ret, q) = k_msgq_put ops m q
        in notify_loop ops lock m (Suc k) ret retry q)"

definition notify_ipmi_client ::
    "('q, ipmi_msg_cfg) msgq \<Rightarrow> (nat \<Rightarrow> int) \<Rightarrow> ipmi_msg_cfg option \<Rightarrow> 'q \<Rightarrow> ipmb_error \<times> 'q" where
  "notify_ipmi_client ops lock msg_cfg q =
     (case msg_cfg of
        None \<Rightarrow> (IPMB_ERROR_UNKNOWN, q)
      | Some m \<Rightarrow>
          let (retry, q) =
            (if \<not> IS_RESPONSE (buffer m) then
               let (ret, q) = k_msgq_put ops m q in notify_loop ops lock m 0 ret 3 q
             else (3, q))
          in (if retry = 0 then IPMB_ERROR_MUTEX_LOCK else IPMB_ERROR_SUCCESS, q))"

section \<open>Platform hooks\<close>

definition get_iana :: "u8 list option \<Rightarrow> u32 option" where
  "get_iana iana_buf =
     (case iana_buf of
        None \<Rightarrow> Some 0
      | Some b \<Rightarrow> do {
          b2 \<leftarrow> load b 2; b1 \<leftarrow> load b 1; b0 \<leftarrow> load b 0;
          let recieved_iana = (ucast b2 :: u32);
          let recieved_iana = push_bit 8 recieved_iana OR ucast b1;
          let recieved_iana = push_bit 8 recieved_iana OR ucast b0;
          Some (if recieved_iana = IANA_ID then IANA_ID else 0)
        })"

definition pal_set_dimm_presence_status :: "u8 list \<Rightarrow> bool" where
  "pal_set_dimm_presence_status buf = True"

definition pal_request_msg_to_BIC_from_HOST_weak :: "u8 \<Rightarrow> u8 \<Rightarrow> bool" where
  "pal_request_msg_to_BIC_from_HOST_weak nf c \<longleftrightarrow>
     nf = NETFN_OEM_1S_REQ \<and>
     (c = CMD_OEM_1S_FW_UPDATE \<or> c = CMD_OEM_1S_RESET_BMC \<or> c = CMD_OEM_1S_GET_BIC_STATUS \<or>
      c = CMD_OEM_1S_RESET_BIC \<or> c = CMD_OEM_1S_GET_BIC_FW_INFO \<or>
      c = CMD_OEM_1S_GET_DIMM_I3C_MUX_SELECTION)"

definition pal_immediate_respond_from_HOST_weak :: "u8 \<Rightarrow> u8 \<Rightarrow> bool" where
  "pal_immediate_respond_from_HOST_weak nf c \<longleftrightarrow>
     nf = NETFN_STORAGE_REQ \<and> c = CMD_STORAGE_ADD_SEL \<or>
     nf = NETFN_SENSOR_REQ \<and> c = CMD_SENSOR_PLATFORM_EVENT"

definition pal_record_bios_fw_version :: "u8 list \<Rightarrow> u8 \<Rightarrow> int" where
  "pal_record_bios_fw_version buf n = -2"

definition pal_request_msg_to_BIC_from_ME_weak :: "u8 \<Rightarrow> u8 \<Rightarrow> bool" where
  "pal_request_msg_to_BIC_from_ME_weak nf c \<longleftrightarrow> nf = NETFN_OEM_REQ \<and> c = CMD_OEM_NM_SENSOR_READ"

definition pal_is_not_return_cmd :: "u8 \<Rightarrow> u8 \<Rightarrow> bool" where
  "pal_is_not_return_cmd nf c \<longleftrightarrow>
     nf = NETFN_OEM_1S_REQ \<and> (c = CMD_OEM_1S_MSG_OUT \<or> c = CMD_OEM_1S_MSG_IN)"

text \<open>The strong definition of \<open>plat_ipmi.c\<close>, which replaces the weak one in the build.\<close>

definition pal_request_msg_to_BIC_from_HOST :: "u8 \<Rightarrow> u8 \<Rightarrow> bool" where
  "pal_request_msg_to_BIC_from_HOST nf c \<longleftrightarrow>
     (if nf = NETFN_CHASSIS_REQ then True
      else nf = NETFN_APP_REQ \<and>
        (c = CMD_APP_GET_DEVICE_ID \<or> c = CMD_APP_SET_BMC_GLOBAL_ENABLES \<or>
         c = CMD_APP_GET_BMC_GLOBAL_ENABLES))"

section \<open>Command handling\<close>

record ipmi_core =
  BMC_GLOBAL_ENABLES :: u8
  core_power :: power_state
  kcs_buff :: "u8 list"

datatype core_effect =
    Ipmi_write "u8 list"
  | Put_self ipmi_msg_cfg
  | Nothing

text \<open>The first switch of \<open>ipmi_cmd_handle\<close>.\<close>

definition ipmi_dispatch :: "ipmi_core \<Rightarrow> ipmi_msg \<Rightarrow> ipmi_core \<times> ipmi_msg" where
  "ipmi_dispatch st msg =
     (let msg = msg\<lparr>completion_code := CC_INVALID_CMD\<rparr> in
      if netfn msg = NETFN_CHASSIS_REQ then (st, IPMI_CHASSIS_handler (core_power st) msg)
      else if netfn msg = NETFN_APP_REQ then
        let (g, msg) = IPMI_APP_handler (BMC_GLOBAL_ENABLES st) msg in (st\<lparr>BMC_GLOBAL_ENABLES := g\<rparr>, msg)
      else if netfn msg = NETFN_FIRMWARE_REQ then (st, msg)
      else (st, msg\<lparr>data_len := 0\<rparr>))"

text \<open>The data of a failed command is dropped; an OEM answer gets the manufacturer's number in
  front (the variable \<open>iana\<close> is never assigned in this tree).\<close>

definition finish_response :: "u32 \<Rightarrow> ipmi_msg \<Rightarrow> ipmi_msg option" where
  "finish_response iana msg =
     (if completion_code msg \<noteq> CC_SUCCESS then Some (msg\<lparr>data_len := 0\<rparr>)
      else if netfn msg = NETFN_OEM_1S_REQ then do {
        d \<leftarrow> memcpy (data msg) 3 (data msg) 0 (unat (data_len msg));
        d \<leftarrow> memcpy d 0 [ucast (iana AND 0xFF), ucast (drop_bit 8 iana AND 0xFF),
                         ucast (drop_bit 16 iana AND 0xFF)] 0 3;
        Some (msg\<lparr>data := d, data_len := data_len msg + 3\<rparr>)
      } else Some msg)"

text \<open>The case \<open>HOST_KCS_1\<close>: the response goes into the static buffer and from there to the
  driver; the length handed to \<open>ipmi_write\<close> is not clipped.\<close>

definition pack_ipmi_resp :: "u8 list \<Rightarrow> ipmi_msg \<Rightarrow> (u8 list \<times> u8 list) option" where
  "pack_ipmi_resp buf msg = do {
     b \<leftarrow> store buf 0 (push_bit 2 (netfn msg + 1));
     b \<leftarrow> store b 1 (cmd msg);
     b \<leftarrow> store b 2 (completion_code msg);
     b \<leftarrow> (if data_len msg = 0 then Some b
           else if unat (data_len msg) \<le> KCS_BUFF_SIZE - 3 then memcpy b 3 (data msg) 0 (unat (data_len msg))
           else memcpy b 3 (data msg) 0 (KCS_BUFF_SIZE - 3));
     if unat (data_len msg) + 3 \<le> length b then Some (b, take (unat (data_len msg) + 3) b) else None
   }"

definition ipmi_cmd_handle ::
    "bool \<Rightarrow> ipmi_core \<Rightarrow> ipmi_msg_cfg option \<Rightarrow> (ipmi_core \<times> core_effect) option" where
  "ipmi_cmd_handle asserts st parameters =
     (case parameters of
        None \<Rightarrow> Some (st, Nothing)
      | Some m \<Rightarrow> do {
          let (st, msg) = ipmi_dispatch st (buffer m);
          if pal_is_not_return_cmd (netfn msg) (cmd msg) then Some (st, Nothing)
          else do {
            msg \<leftarrow> finish_response 0 msg;
            if InF_source msg = HOST_KCS_1 then do {
              (b, out) \<leftarrow> pack_ipmi_resp (kcs_buff st) msg;
              Some (st\<lparr>kcs_buff := b\<rparr>, Ipmi_write out)
            }
            else if InF_source msg = SELF then
              if asserts then None else Some (st, Put_self (m\<lparr>buffer := msg\<rparr>))
            else Some (st, Nothing)
          }
        })"

text \<open>\<open>IPMI_handler\<close> takes the messages from the queue one after the other and waits for the
  handler thread of each. The model covers the runs in which the handler threads end within the
  ten seconds of \<open>k_thread_join\<close>; none of the modelled handlers waits for anything.\<close>

primrec IPMI_handler ::
    "bool \<Rightarrow> ipmi_core \<Rightarrow> ipmi_msg_cfg list \<Rightarrow> (ipmi_core \<times> core_effect list) option" where
  "IPMI_handler asserts st [] = Some (st, [])"
| "IPMI_handler asserts st (m # ms) = do {
     (st, e) \<leftarrow> ipmi_cmd_handle asserts st (Some m);
     (st, es) \<leftarrow> IPMI_handler asserts st ms;
     Some (st, e # es)
   }"

section \<open>The KCS polling loop\<close>

record main_st =
  ibuf :: "u8 list"
  cnt :: "64 word"
  proc_kcs_ok :: bool
  current_msg :: ipmi_msg_cfg

definition get_kcs_ok :: "main_st \<Rightarrow> bool" where
  "get_kcs_ok s = proc_kcs_ok s"

definition reset_kcs_ok :: "main_st \<Rightarrow> main_st" where
  "reset_kcs_ok s = s\<lparr>proc_kcs_ok := False\<rparr>"

text \<open>One iteration of the loop of \<open>main\<close>: \<open>rc\<close> is the result of \<open>ipmi_read\<close> and \<open>bytes\<close> what it
  wrote to the front of \<open>ibuf\<close>. \<open>data_len\<close> is a \<open>uint16_t\<close>, so \<open>rc - 2\<close> wraps when \<open>rc < 2\<close>.\<close>

definition main_iteration ::
    "('q, ipmi_msg_cfg) msgq \<Rightarrow> (nat \<Rightarrow> int) \<Rightarrow> int \<Rightarrow> u8 list \<Rightarrow> main_st \<Rightarrow> 'q \<Rightarrow> (main_st \<times> 'q) option" where
  "main_iteration ops lock rc bytes s q = do {
     let c = cnt s + 1;
     let s = s\<lparr>cnt := if c mod 100 = 0 then 0 else c\<rparr>;
     buf \<leftarrow> memcpy (ibuf s) 0 bytes 0 (length bytes);
     let s = s\<lparr>ibuf := buf\<rparr>;
     if rc < 0 then Some (s, q)
     else do {
       nf \<leftarrow> load buf 0;
       buf \<leftarrow> store buf 0 (drop_bit 2 nf);
       nf \<leftarrow> load buf 0;
       c \<leftarrow> load buf 1;
       let s = s\<lparr>proc_kcs_ok := True, ibuf := buf\<rparr>;
       if pal_request_msg_to_BIC_from_HOST nf c then do {
         let len = (word_of_int (rc - 2) :: u16);
         let m = (buffer (current_msg s))\<lparr>InF_source := HOST_KCS_1, netfn := nf, cmd := c, data_len := len\<rparr>;
         d \<leftarrow> (if len \<noteq> 0 then memcpy (data m) 0 buf 2 (unat len) else Some (data m));
         let cm = (current_msg s)\<lparr>buffer := m\<lparr>data := d\<rparr>\<rparr>;
         let (_, q) = notify_ipmi_client ops lock (Some cm) q;
         Some (s\<lparr>current_msg := cm\<rparr>, q)
       } else Some (s, q)
     }
   }"

section \<open>Lemmas\<close>

lemma msgq_put_law:
  assumes "msgq_laws ops items cap"
  shows "if length (items q) < cap
      then fst (k_msgq_put ops m q) = 0 \<and> items (snd (k_msgq_put ops m q)) = items q @ [m]
      else fst (k_msgq_put ops m q) \<noteq> 0 \<and> items (snd (k_msgq_put ops m q)) = items q"
  using assms by (simp add: msgq_laws_def)

lemma msgq_put_room:
  assumes "msgq_laws ops items cap" and "length (items q) < cap"
  shows "\<exists>q'. k_msgq_put ops m q = (0, q') \<and> items q' = items q @ [m]"
  using msgq_put_law [OF assms(1), of q m] assms(2) by (cases "k_msgq_put ops m q") auto

lemma msgq_put_full:
  assumes "msgq_laws ops items cap" and "\<not> length (items q) < cap"
  shows "\<exists>r q'. k_msgq_put ops m q = (r, q') \<and> r \<noteq> 0 \<and> items q' = items q"
  using msgq_put_law [OF assms(1), of q m] assms(2) by (cases "k_msgq_put ops m q") auto

lemma msgq_num_free_full:
  "msgq_laws ops items cap \<Longrightarrow> \<not> length (items q) < cap \<Longrightarrow> k_msgq_num_free_get ops q = 0"
  by (simp add: msgq_laws_def)

lemma msgq_purge_items: "msgq_laws ops items cap \<Longrightarrow> items (k_msgq_purge ops q) = []"
  by (simp add: msgq_laws_def)

text \<open>Once a put has succeeded the loop stops.\<close>

lemma notify_loop_done: "notify_loop ops lock m k 0 retry q = (retry, q)"
  by (cases retry) simp_all

text \<open>A round of the loop with the mutex on a full queue purges it and delivers the message.\<close>

lemma notify_loop_full:
  assumes laws: "msgq_laws ops items cap" "0 < cap" and full: "\<not> length (items q) < cap"
    and "ret \<noteq> 0" and "0 \<le> lock k"
  shows "\<exists>q'. notify_loop ops lock m k ret (Suc retry) q = (retry, q') \<and> items q' = [m]"
proof -
  obtain q' where q': "k_msgq_put ops m (k_msgq_purge ops q) = (0, q')" "items q' = [m]"
    using msgq_put_room [OF laws(1), of "k_msgq_purge ops q" m] laws(2)
    by (auto simp: msgq_purge_items [OF laws(1)])
  show ?thesis
    using assms(4,5) q' msgq_num_free_full [OF laws(1) full]
    by (simp add: Let_def notify_loop_done)
qed

lemma notify_delivered:
  assumes laws: "msgq_laws ops items cap" "0 < cap" and "0 \<le> lock 0" and "\<not> IS_RESPONSE (buffer m)"
  shows "\<exists>q'. notify_ipmi_client ops lock (Some m) q = (IPMB_ERROR_SUCCESS, q') \<and>
    items q' = (if length (items q) < cap then items q @ [m] else [m])"
proof (cases "length (items q) < cap")
  case True
  then show ?thesis
    using msgq_put_room [OF laws(1) True, of m] assms(4)
    by (auto simp: notify_ipmi_client_def notify_loop_done)
next
  case False
  obtain r q1 where r: "k_msgq_put ops m q = (r, q1)" "r \<noteq> 0" "items q1 = items q"
    using msgq_put_full [OF laws(1) False] by blast
  have three: "(3 :: nat) = Suc 2" by simp
  obtain q' where "notify_loop ops lock m 0 r 3 q1 = (2, q')" "items q' = [m]"
    unfolding three
    using notify_loop_full [OF laws, of q1 r lock 0 m 2] r False assms(3) by auto
  with r False assms(4) show ?thesis by (auto simp: notify_ipmi_client_def)
qed

lemma bit_free_dispatch:
  assumes "netfn (buffer m) = NETFN_CHASSIS_REQ \<or> netfn (buffer m) = NETFN_APP_REQ"
  shows "\<not> IS_RESPONSE (buffer m)" "\<not> pal_is_not_return_cmd (netfn (buffer m)) c"
    "netfn (buffer m) \<noteq> NETFN_OEM_1S_REQ"
  using assms by (auto simp: IS_RESPONSE_def pal_is_not_return_cmd_def)

lemma ipmi_dispatch_APP:
  "netfn m = NETFN_APP_REQ \<Longrightarrow> ipmi_dispatch st m =
    (st\<lparr>BMC_GLOBAL_ENABLES := fst (IPMI_APP_handler (BMC_GLOBAL_ENABLES st) (m\<lparr>completion_code := CC_INVALID_CMD\<rparr>))\<rparr>,
     snd (IPMI_APP_handler (BMC_GLOBAL_ENABLES st) (m\<lparr>completion_code := CC_INVALID_CMD\<rparr>)))"
  by (simp add: ipmi_dispatch_def Let_def split_beta)

lemma ipmi_dispatch_CHASSIS:
  "netfn m = NETFN_CHASSIS_REQ \<Longrightarrow> ipmi_dispatch st m =
    (st, IPMI_CHASSIS_handler (core_power st) (m\<lparr>completion_code := CC_INVALID_CMD\<rparr>))"
  by (simp add: ipmi_dispatch_def Let_def)

text \<open>Packing a response that fits the KCS buffer.\<close>

lemma pack_ipmi_resp_fits:
  assumes "wf_msg m" and "length buf = KCS_BUFF_SIZE" and "unat (data_len m) \<le> KCS_BUFF_SIZE - 3"
  shows "\<exists>b. pack_ipmi_resp buf m = Some (b,
      [push_bit 2 (netfn m + 1), cmd m, completion_code m] @ msg_bytes m) \<and> length b = KCS_BUFF_SIZE"
proof -
  obtain x y z r where b: "buf = x # y # z # r"
    using assms(2) ex_first_three [of buf] by auto
  let ?h = "[push_bit 2 (netfn m + 1), cmd m, completion_code m]"
  have r: "length r = 253" using assms(2) b by simp
  have l: "length (msg_bytes m) = unat (data_len m)"
    using assms(1,3) by (intro length_msg_bytes) auto
  have bl: "blit (?h @ r) 3 (msg_bytes m) = ?h @ msg_bytes m @ drop (unat (data_len m)) r"
    using l by (simp add: blit_def numeral_3_eq_3)
  show ?thesis
  proof (cases "data_len m = 0")
    case True
    then show ?thesis using b r by (simp add: pack_ipmi_resp_def msg_bytes_def)
  next
    case False
    have cp: "memcpy (?h @ r) 3 (data m) 0 (unat (data_len m)) =
        Some (?h @ msg_bytes m @ drop (unat (data_len m)) r)"
      using assms r bl by (simp add: msg_bytes_def)
    show ?thesis
      using False assms(3) b r l cp
      by (simp add: pack_ipmi_resp_def add.commute [of _ 3] del: memcpy_Some) (simp add: numeral_3_eq_3)
  qed
qed

text \<open>The answer of the dispatcher to a host request, over the contract of the two handlers.\<close>

lemma finish_plain:
  assumes "netfn m \<noteq> NETFN_OEM_1S_REQ"
  shows "finish_response iana m = Some (if completion_code m = CC_SUCCESS then m else m\<lparr>data_len := 0\<rparr>)"
  using assms by (simp add: finish_response_def)

lemma handled_by_contract:
  fixes run :: "'a \<Rightarrow> ipmi_msg \<Rightarrow> 'a \<times> ipmi_msg" and x :: 'a
  assumes h: "command_handler run n" and n: "n \<le> KCS_BUFF_SIZE - 3"
    and d: "snd (ipmi_dispatch st (buffer m)) = snd (run x ((buffer m)\<lparr>completion_code := CC_INVALID_CMD\<rparr>))"
      "length (kcs_buff (fst (ipmi_dispatch st (buffer m)))) = KCS_BUFF_SIZE"
    and m: "wf_msg (buffer m)" "InF_source (buffer m) = HOST_KCS_1"
      "netfn (buffer m) \<noteq> NETFN_OEM_1S_REQ"
  shows "\<exists>b. ipmi_cmd_handle asserts st (Some m) =
      Some ((fst (ipmi_dispatch st (buffer m)))\<lparr>kcs_buff := b\<rparr>,
        Ipmi_write (command_handler.answer run x ((buffer m)\<lparr>completion_code := CC_INVALID_CMD\<rparr>))) \<and>
    length b = KCS_BUFF_SIZE"
proof -
  let ?m = "(buffer m)\<lparr>completion_code := CC_INVALID_CMD\<rparr>"
  let ?r = "snd (run x ?m)"
  obtain st' where dp: "ipmi_dispatch st (buffer m) = (st', ?r)" using d(1) by (metis prod.collapse)
  have wf: "wf_msg ?m" using m(1) by (simp add: wf_msg_def)
  have rt: "netfn ?r = netfn (buffer m)" "InF_source ?r = HOST_KCS_1"
    using command_handler.handler_route [OF h, of ?m x] m(2) by (simp_all add: same_route_def)
  let ?f = "if completion_code ?r = CC_SUCCESS then ?r else ?r\<lparr>data_len := 0\<rparr>"
  have f: "finish_response 0 ?r = Some ?f" using m(3) rt(1) by (intro finish_plain) simp
  have "wf_msg ?f" "unat (data_len ?f) \<le> KCS_BUFF_SIZE - 3"
    using command_handler.handler_wf [OF h wf, of x] command_handler.handler_bound [OF h wf, of x] n
    by (auto simp: wf_msg_def)
  from pack_ipmi_resp_fits [OF this(1) d(2) this(2)] obtain b where
    b: "pack_ipmi_resp (kcs_buff st') ?f = Some (b, command_handler.answer run x ?m)" "length b = KCS_BUFF_SIZE"
    using dp by (auto simp: command_handler.answer_def [OF h] Let_def msg_bytes_def split: if_splits)
  have nr: "\<not> pal_is_not_return_cmd (netfn ?r) (cmd ?r)"
    using m(3) rt(1) by (simp add: pal_is_not_return_cmd_def)
  show ?thesis
    using dp f b nr rt by (intro exI [of _ b]) (simp add: ipmi_cmd_handle_def)
qed

lemma handle_APP:
  assumes "netfn (buffer m) = NETFN_APP_REQ" "wf_msg (buffer m)" "InF_source (buffer m) = HOST_KCS_1"
    and "length (kcs_buff st) = KCS_BUFF_SIZE"
  shows "\<exists>b. ipmi_cmd_handle asserts st (Some m) =
      Some (st\<lparr>BMC_GLOBAL_ENABLES := fst (IPMI_APP_handler (BMC_GLOBAL_ENABLES st)
                 ((buffer m)\<lparr>completion_code := CC_INVALID_CMD\<rparr>)), kcs_buff := b\<rparr>,
        Ipmi_write (app.answer (BMC_GLOBAL_ENABLES st) ((buffer m)\<lparr>completion_code := CC_INVALID_CMD\<rparr>))) \<and>
    length b = KCS_BUFF_SIZE"
  using handled_by_contract [OF app.command_handler_axioms, of st m "BMC_GLOBAL_ENABLES st" asserts]
    ipmi_dispatch_APP [OF assms(1), of st] assms by simp

lemma handle_CHASSIS:
  assumes "netfn (buffer m) = NETFN_CHASSIS_REQ" "wf_msg (buffer m)" "InF_source (buffer m) = HOST_KCS_1"
    and "length (kcs_buff st) = KCS_BUFF_SIZE"
  shows "\<exists>b. ipmi_cmd_handle asserts st (Some m) =
      Some (st\<lparr>kcs_buff := b\<rparr>,
        Ipmi_write (chassis.answer (core_power st) ((buffer m)\<lparr>completion_code := CC_INVALID_CMD\<rparr>))) \<and>
    length b = KCS_BUFF_SIZE"
  using handled_by_contract [OF chassis.command_handler_axioms, of st m "core_power st" asserts]
    ipmi_dispatch_CHASSIS [OF assms(1), of st] assms by simp

lemma answer_length_ge: "3 \<le> length (app.answer g m)" "3 \<le> length (chassis.answer p m)"
  by (simp_all add: app.answer_def chassis.answer_def Let_def)

lemma main_iteration_accepts:
  assumes "length (ibuf s) = KCS_BUFF_SIZE" and "wf_msg (buffer (current_msg s))"
    and "length pl \<le> KCS_BUFF_SIZE - 2" and "pal_request_msg_to_BIC_from_HOST (drop_bit 2 x) c"
  shows "\<exists>s' m. main_iteration ops lock (int (length pl) + 2) (x # c # pl) s q =
      Some (s', snd (notify_ipmi_client ops lock (Some m) q)) \<and> proc_kcs_ok s' \<and>
    netfn (buffer m) = drop_bit 2 x \<and> cmd (buffer m) = c \<and> InF_source (buffer m) = HOST_KCS_1 \<and>
    msg_bytes (buffer m) = pl \<and> wf_msg (buffer m)"
proof -
  let ?n = "of_nat (length pl) :: u16"
  have un: "unat ?n = length pl" using assms(3) by (intro unat_of_nat_u16) simp
  let ?rest = "drop (2 + length pl) (ibuf s)"
  let ?buf = "drop_bit 2 x # c # pl @ ?rest"
  have rd: "memcpy (ibuf s) 0 (x # c # pl) 0 (length (x # c # pl)) = Some (x # c # pl @ ?rest)"
    using assms(1,3) by (simp add: blit_def)
  let ?m0 = "(buffer (current_msg s))\<lparr>InF_source := HOST_KCS_1, netfn := drop_bit 2 x, cmd := c, data_len := ?n\<rparr>"
  obtain d where d: "(if ?n \<noteq> 0 then memcpy (data ?m0) 0 ?buf 2 (unat ?n) else Some (data ?m0)) = Some d"
    "length d = IPMI_MSG_MAX_LENGTH" "take (length pl) d = pl"
  proof (cases "?n = 0")
    case True
    then have "pl = []" using un by simp
    with that [of "data ?m0"] assms(2) show ?thesis by (simp add: wf_msg_def)
  next
    case False
    have "memcpy (data ?m0) 0 ?buf 2 (unat ?n) = Some (blit (data ?m0) 0 pl)"
      using assms un by (simp add: wf_msg_def)
    moreover have "take (length pl) (blit (data ?m0) 0 pl) = pl"
      using take_drop_blit [of 0 "data ?m0" pl] by simp
    ultimately show ?thesis
      using that [of "blit (data ?m0) 0 pl"] False assms by (simp add: wf_msg_def)
  qed
  let ?m = "(current_msg s)\<lparr>buffer := ?m0\<lparr>data := d\<rparr>\<rparr>"
  have w: "(word_of_int (int (length pl)) :: u16) = ?n" by simp
  have "\<exists>s'. main_iteration ops lock (int (length pl) + 2) (x # c # pl) s q =
      Some (s', snd (notify_ipmi_client ops lock (Some ?m) q)) \<and> proc_kcs_ok s'"
  proof (cases "?n = 0")
    case True
    then have "d = data (buffer (current_msg s))" "pl = []" using d(1) un by simp_all
    then show ?thesis
      using rd assms(4) True by (simp add: main_iteration_def Let_def split_beta del: memcpy_Some)
  next
    case False
    then show ?thesis
      using rd d(1) assms(4) by (simp add: main_iteration_def Let_def split_beta w del: memcpy_Some)
  qed
  moreover have "msg_bytes (buffer ?m) = pl" using d(3) un by (simp add: msg_bytes_def)
  moreover have "wf_msg (buffer ?m)" using d(2) by (simp add: wf_msg_def)
  moreover have "netfn (buffer ?m) = drop_bit 2 x" "cmd (buffer ?m) = c" "InF_source (buffer ?m) = HOST_KCS_1"
    by simp_all
  ultimately show ?thesis by blast
qed

section \<open>Properties\<close>

text \<open>C2. A request of the host that this controller serves is answered exactly once: the polling
  loop queues it, and the IPMI task writes one response to the KCS interface. The response starts
  with the response network function and the command of the request and has a completion code; it
  never exceeds 18 bytes, so the 256-byte KCS buffer is respected.\<close>

theorem host_request_answered:
  assumes q: "msgq_laws ops items IPMI_BUF_LEN" "items q = []"
    and s: "length (ibuf s) = KCS_BUFF_SIZE" "wf_msg (buffer (current_msg s))"
    and st: "length (kcs_buff st) = KCS_BUFF_SIZE"
    and req: "length pl \<le> KCS_BUFF_SIZE - 2" "pal_request_msg_to_BIC_from_HOST (drop_bit 2 x) c"
  shows "\<exists>s' q' m st' out.
    main_iteration ops lock (int (length pl) + 2) (x # c # pl) s q = Some (s', q') \<and> items q' = [m] \<and>
    IPMI_handler asserts st [m] = Some (st', [Ipmi_write out]) \<and>
    take 2 out = [push_bit 2 (drop_bit 2 x + 1), c] \<and> 3 \<le> length out \<and> length out \<le> 18 \<and>
    length (kcs_buff st') = KCS_BUFF_SIZE"
proof -
  obtain s' m where m: "main_iteration ops lock (int (length pl) + 2) (x # c # pl) s q =
      Some (s', snd (notify_ipmi_client ops lock (Some m) q))"
    "netfn (buffer m) = drop_bit 2 x" "cmd (buffer m) = c" "InF_source (buffer m) = HOST_KCS_1" "wf_msg (buffer m)"
    using main_iteration_accepts [OF s req, of ops lock q] by blast
  let ?m = "(buffer m)\<lparr>completion_code := CC_INVALID_CMD\<rparr>"
  have wf: "wf_msg ?m" using m(5) by (simp add: wf_msg_def)
  have nf: "netfn (buffer m) = NETFN_CHASSIS_REQ \<or> netfn (buffer m) = NETFN_APP_REQ"
    using req(2) m(2) by (auto simp: pal_request_msg_to_BIC_from_HOST_def split: if_splits)
  have nr: "\<not> IS_RESPONSE (buffer m)" using nf by (rule bit_free_dispatch)
  obtain q1 where q1: "k_msgq_put ops m q = (0, q1)" "items q1 = [m]"
    using msgq_put_room [OF q(1), of q m] q(2) by auto
  then have n: "snd (notify_ipmi_client ops lock (Some m) q) = q1"
    using nr by (simp add: notify_ipmi_client_def notify_loop_done)
  have "\<exists>st' out. ipmi_cmd_handle asserts st (Some m) = Some (st', Ipmi_write out) \<and>
      take 2 out = [push_bit 2 (drop_bit 2 x + 1), c] \<and> 3 \<le> length out \<and> length out \<le> 18 \<and>
      length (kcs_buff st') = KCS_BUFF_SIZE"
    using nf
  proof
    assume a: "netfn (buffer m) = NETFN_CHASSIS_REQ"
    from handle_CHASSIS [OF a m(5,4) st, of asserts] chassis.answer_header [of "core_power st" ?m]
      chassis.answer_length [OF wf, of "core_power st"] answer_length_ge(2) [of "core_power st" ?m] m(2,3)
    show ?thesis by fastforce
  next
    assume a: "netfn (buffer m) = NETFN_APP_REQ"
    from handle_APP [OF a m(5,4) st, of asserts] app.answer_header [of "BMC_GLOBAL_ENABLES st" ?m]
      app.answer_length [OF wf, of "BMC_GLOBAL_ENABLES st"] answer_length_ge(1) [of "BMC_GLOBAL_ENABLES st" ?m] m(2,3)
    show ?thesis by fastforce
  qed
  with m(1) n q1(2) show ?thesis by fastforce
qed

text \<open>A bounded queue as a list, for the witnesses.\<close>

definition list_msgq :: "nat \<Rightarrow> ('m list, 'm) msgq" where
  "list_msgq cap = \<lparr>k_msgq_put = \<lambda>m q. if length q < cap then (0, q @ [m]) else (-35, q),
     k_msgq_num_free_get = \<lambda>q. of_nat (cap - length q), k_msgq_purge = \<lambda>q. []\<rparr>"

lemma list_msgq_laws: "msgq_laws (list_msgq cap) (\<lambda>q. q) cap"
  by (simp add: msgq_laws_def list_msgq_def)

definition demo_main :: main_st where
  "demo_main = \<lparr>ibuf = replicate 256 0, cnt = 0, proc_kcs_ok = False, current_msg = demo_node\<rparr>"

definition demo_core :: ipmi_core where
  "demo_core = \<lparr>BMC_GLOBAL_ENABLES = 0, core_power = power_state_init, kcs_buff = replicate 256 0\<rparr>"

theorem host_request_answered_witness:
  "\<exists>s' q' m st' out.
    main_iteration (list_msgq 10) (\<lambda>_. 0) 2 [0x18, 0x01] demo_main [] = Some (s', q') \<and> q' = [m] \<and>
    IPMI_handler False demo_core [m] = Some (st', [Ipmi_write out]) \<and>
    take 2 out = [0x1C, 0x01] \<and> length out \<le> 18"
proof -
  have "length (ibuf demo_main) = KCS_BUFF_SIZE" "wf_msg (buffer (current_msg demo_main))"
    "length (kcs_buff demo_core) = KCS_BUFF_SIZE" "length ([] :: u8 list) \<le> KCS_BUFF_SIZE - 2"
    "pal_request_msg_to_BIC_from_HOST (drop_bit 2 (0x18 :: u8)) 0x01"
    by (simp_all add: demo_main_def demo_core_def demo_node_def pal_request_msg_to_BIC_from_HOST_def)
  from host_request_answered [OF list_msgq_laws _ this, of "[]" "\<lambda>_. 0" False] show ?thesis by auto
qed

text \<open>The answer to Get Device ID is the fifteen bytes of the platform's version data: device
  id and revision, the firmware revision composed of board id and project stage, the IPMI
  version, the supported functions, the manufacturer, product and auxiliary revision.\<close>

theorem get_device_id_answer:
  assumes "netfn (buffer m) = NETFN_APP_REQ" "cmd (buffer m) = CMD_APP_GET_DEVICE_ID"
    and "data_len (buffer m) = 0" "wf_msg (buffer m)" "InF_source (buffer m) = HOST_KCS_1"
    and "length (kcs_buff st) = KCS_BUFF_SIZE"
  shows "\<exists>b. ipmi_cmd_handle asserts st (Some m) = Some (st\<lparr>kcs_buff := b\<rparr>,
    Ipmi_write [0x1C, 0x01, CC_SUCCESS, 0x00, 0x80, 0x41, 0x08, 0x02, 0xBF,
      0x23, 0xA1, 0x00, 0x00, 0x00, 0x00, 0x00, 0x00, 0x00])"
proof -
  let ?m = "(buffer m)\<lparr>completion_code := CC_INVALID_CMD\<rparr>"
  have "app.answer (BMC_GLOBAL_ENABLES st) ?m = [0x1C, 0x01, CC_SUCCESS, 0x00, 0x80, 0x41, 0x08, 0x02, 0xBF,
      0x23, 0xA1, 0x00, 0x00, 0x00, 0x00, 0x00, 0x00, 0x00]"
    using assms by (simp add: app.answer_def Let_def app_defs msg_bytes_def blit_def GET_FW_VERSION1_def)
  moreover have "fst (IPMI_APP_handler (BMC_GLOBAL_ENABLES st) ?m) = BMC_GLOBAL_ENABLES st"
    using assms(2) by (simp add: app_defs)
  ultimately show ?thesis
    using handle_APP [OF assms(1,4-6), of asserts] by auto
qed

theorem get_device_id_answer_witness:
  "\<exists>b. ipmi_cmd_handle False demo_core (Some (demo_node\<lparr>buffer := zero_msg\<lparr>netfn := 6, cmd := 1, InF_source := 0x50\<rparr>\<rparr>)) =
    Some (demo_core\<lparr>kcs_buff := b\<rparr>, Ipmi_write [0x1C, 0x01, 0x00, 0x00, 0x80, 0x41, 0x08, 0x02, 0xBF,
      0x23, 0xA1, 0x00, 0x00, 0x00, 0x00, 0x00, 0x00, 0x00])"
  by (rule get_device_id_answer) (simp_all add: demo_node_def demo_core_def zero_msg_def wf_msg_def)

text \<open>Set BMC Global Enables followed by Get BMC Global Enables returns the value that was
  set, whatever the state before.\<close>

theorem bmc_global_enables_roundtrip:
  assumes m1: "netfn (buffer m1) = NETFN_APP_REQ" "cmd (buffer m1) = CMD_APP_SET_BMC_GLOBAL_ENABLES"
      "wf_msg (buffer m1)" "InF_source (buffer m1) = HOST_KCS_1" "data (buffer m1) ! 0 = v"
    and m2: "netfn (buffer m2) = NETFN_APP_REQ" "cmd (buffer m2) = CMD_APP_GET_BMC_GLOBAL_ENABLES"
      "wf_msg (buffer m2)" "InF_source (buffer m2) = HOST_KCS_1"
    and st: "length (kcs_buff st) = KCS_BUFF_SIZE"
  shows "\<exists>st'. IPMI_handler asserts st [m1, m2] =
    Some (st', [Ipmi_write [0x1C, CMD_APP_SET_BMC_GLOBAL_ENABLES, CC_SUCCESS],
                Ipmi_write [0x1C, CMD_APP_GET_BMC_GLOBAL_ENABLES, CC_SUCCESS, v]])"
proof -
  let ?m1 = "(buffer m1)\<lparr>completion_code := CC_INVALID_CMD\<rparr>"
  let ?m2 = "(buffer m2)\<lparr>completion_code := CC_INVALID_CMD\<rparr>"
  have a1: "app.answer g ?m1 = [0x1C, CMD_APP_SET_BMC_GLOBAL_ENABLES, CC_SUCCESS]"
    "fst (IPMI_APP_handler g ?m1) = v" for g
    using m1 by (simp_all add: app.answer_def Let_def app_defs msg_bytes_def)
  have a2: "app.answer v ?m2 = [0x1C, CMD_APP_GET_BMC_GLOBAL_ENABLES, CC_SUCCESS, v]"
    using m2 by (simp add: app.answer_def Let_def app_defs msg_bytes_def blit_def)
  obtain b1 where b1: "ipmi_cmd_handle asserts st (Some m1) = Some (st\<lparr>BMC_GLOBAL_ENABLES := v, kcs_buff := b1\<rparr>,
      Ipmi_write [0x1C, CMD_APP_SET_BMC_GLOBAL_ENABLES, CC_SUCCESS])" "length b1 = KCS_BUFF_SIZE"
    using handle_APP [OF m1(1,3,4) st, of asserts] a1 by auto
  obtain st' where "ipmi_cmd_handle asserts (st\<lparr>BMC_GLOBAL_ENABLES := v, kcs_buff := b1\<rparr>) (Some m2) =
      Some (st', Ipmi_write [0x1C, CMD_APP_GET_BMC_GLOBAL_ENABLES, CC_SUCCESS, v])"
    using handle_APP [OF m2(1,3,4), of "st\<lparr>BMC_GLOBAL_ENABLES := v, kcs_buff := b1\<rparr>" asserts] a2 b1(2) by auto
  with b1 show ?thesis by simp
qed

theorem bmc_global_enables_roundtrip_witness:
  "\<exists>st'. IPMI_handler False demo_core
      [demo_node\<lparr>buffer := zero_msg\<lparr>netfn := 6, cmd := 0x2E, InF_source := 0x50, data := 9 # replicate 526 0\<rparr>\<rparr>,
       demo_node\<lparr>buffer := zero_msg\<lparr>netfn := 6, cmd := 0x2F, InF_source := 0x50\<rparr>\<rparr>] =
    Some (st', [Ipmi_write [0x1C, 0x2E, 0x00], Ipmi_write [0x1C, 0x2F, 0x00, 9]])"
  by (rule bmc_global_enables_roundtrip) (simp_all add: demo_node_def demo_core_def zero_msg_def wf_msg_def)

text \<open>A request handed to \<open>notify_ipmi_client\<close> is delivered: with a working purge mutex it
  ends up as the newest message of the queue and success is reported; when the queue was full, the
  older messages are purged.\<close>

theorem notify_ipmi_client_delivers:
  assumes "msgq_laws ops items cap" "0 < cap" and "0 \<le> lock 0" and "\<not> IS_RESPONSE (buffer m)"
  shows "\<exists>q'. notify_ipmi_client ops lock (Some m) q = (IPMB_ERROR_SUCCESS, q') \<and>
    items q' = (if length (items q) < cap then items q @ [m] else [m])"
  using assms by (rule notify_delivered)

theorem notify_ipmi_client_delivers_witness:
  "\<exists>q'. notify_ipmi_client (list_msgq 2) (\<lambda>_. 0) (Some (demo_node\<lparr>retries := 3\<rparr>)) [demo_node, demo_node] =
      (IPMB_ERROR_SUCCESS, q') \<and>
    q' = (if length [demo_node, demo_node] < 2 then [demo_node, demo_node] @ [demo_node\<lparr>retries := 3\<rparr>]
          else [demo_node\<lparr>retries := 3\<rparr>])"
  by (rule notify_ipmi_client_delivers [OF list_msgq_laws])
    (simp_all add: IS_RESPONSE_def demo_node_def zero_msg_def)

text \<open>The result of \<open>notify_ipmi_client\<close> is derived from the retry counter alone: when the
  mutex is obtained only in the third round, the message is delivered and the function still
  reports \<open>IPMB_ERROR_MUTEX_LOCK\<close>.\<close>

theorem notify_reports_error_after_delivery:
  assumes "msgq_laws ops items cap" "0 < cap" and "length (items q) = cap" and "\<not> IS_RESPONSE (buffer m)"
    and "lock 0 < 0" "lock 1 < 0" "0 \<le> lock 2"
  shows "\<exists>q'. notify_ipmi_client ops lock (Some m) q = (IPMB_ERROR_MUTEX_LOCK, q') \<and> items q' = [m]"
proof -
  have full: "\<not> length (items q) < cap" using assms(3) by simp
  obtain r q1 where r: "k_msgq_put ops m q = (r, q1)" "r \<noteq> 0" "items q1 = items q"
    using msgq_put_full [OF assms(1) full] by blast
  have three: "(3 :: nat) = Suc (Suc (Suc 0))" by simp
  have "\<exists>q'. notify_loop ops lock m 2 r (Suc 0) q1 = (0, q') \<and> items q' = [m]"
    by (rule notify_loop_full [OF assms(1,2)]) (use r full assms(7) in auto)
  moreover have "notify_loop ops lock m 0 r 3 q1 = notify_loop ops lock m 2 r (Suc 0) q1"
    unfolding three using r(2) assms(5,6) by (simp add: numeral_2_eq_2)
  ultimately show ?thesis
    using r assms(4) by (auto simp: notify_ipmi_client_def)
qed

theorem notify_reports_error_after_delivery_witness:
  "\<exists>q'. notify_ipmi_client (list_msgq 1) (\<lambda>k. if k < 2 then -11 else 0) (Some (demo_node\<lparr>retries := 3\<rparr>)) [demo_node] =
      (IPMB_ERROR_MUTEX_LOCK, q') \<and> q' = [demo_node\<lparr>retries := 3\<rparr>]"
  by (rule notify_reports_error_after_delivery [OF list_msgq_laws])
    (simp_all add: IS_RESPONSE_def demo_node_def zero_msg_def)

text \<open>C37. A KCS transfer of fewer than two bytes is not rejected: the payload length wraps to
  65534 or 65535, and the copy of the payload leaves both arrays (undefined behaviour), whenever
  the network function and command bytes in the receive buffer are ones the controller serves.\<close>

theorem short_kcs_read_overflows:
  assumes "length (ibuf s) = KCS_BUFF_SIZE" and "rc = 0 \<or> rc = 1" and "int (length bytes) = rc"
    and "take (length bytes) bytes @ drop (length bytes) (ibuf s) = x # c # rest"
    and "pal_request_msg_to_BIC_from_HOST (drop_bit 2 x) c"
  shows "main_iteration ops lock rc bytes s q = None"
proof -
  have l: "length bytes \<le> 1" using assms(2,3) by auto
  have cp: "memcpy (ibuf s) 0 bytes 0 (length bytes) = Some (x # c # rest)"
    using assms(1,4) l by (simp add: blit_def)
  have len: "length (x # c # rest) = KCS_BUFF_SIZE"
    using arg_cong [OF assms(4), of length] assms(1) l by simp
  have nz: "(word_of_int (rc - 2) :: u16) \<noteq> 0" "65534 \<le> unat (word_of_int (rc - 2) :: u16)"
    using assms(2) by (auto simp: unsigned_minus_1_eq_mask mask_eq_exp_minus_1)
  have ov: "memcpy d 0 (drop_bit 2 x # c # rest) 2 (unat (word_of_int (rc - 2) :: u16)) = None" for d
    using nz(2) len by (simp add: memcpy_None)
  show ?thesis
    using cp assms(2,5) nz(1) ov by (simp add: main_iteration_def Let_def del: memcpy_Some) auto
qed

theorem short_kcs_read_overflows_witness:
  "main_iteration (list_msgq 10) (\<lambda>_. 0) 1 [0x18] (demo_main\<lparr>ibuf := 0x06 # 0x01 # replicate 254 0\<rparr>) [] = None"
proof (rule short_kcs_read_overflows)
  show "take (length [0x18 :: u8]) [0x18] @ drop (length [0x18 :: u8])
      (ibuf (demo_main\<lparr>ibuf := 0x06 # 0x01 # replicate 254 0\<rparr>)) = 0x18 # 0x01 # replicate 254 0"
    by simp
qed (simp_all add: pal_request_msg_to_BIC_from_HOST_def)

text \<open>Get Chassis Status can only ever report one value: no setter of the power state writes
  \<open>is_DC_on\<close> (the GPIO reads are disabled), so in every reachable state the answer says that power
  is off, without fault, with the restore policy "always on".\<close>

theorem chassis_status_never_changes:
  assumes "power_step\<^sup>*\<^sup>* power_state_init (core_power st)"
    and "netfn (buffer m) = NETFN_CHASSIS_REQ" "cmd (buffer m) = CMD_CHASSIS_GET_CHASSIS_STATUS"
    and "data_len (buffer m) = 0" "wf_msg (buffer m)" "InF_source (buffer m) = HOST_KCS_1"
    and "length (kcs_buff st) = KCS_BUFF_SIZE"
  shows "\<exists>b. ipmi_cmd_handle asserts st (Some m) = Some (st\<lparr>kcs_buff := b\<rparr>,
    Ipmi_write [0x04, 0x01, CC_SUCCESS, 0x40, 0, 0, 0])"
proof -
  let ?m = "(buffer m)\<lparr>completion_code := CC_INVALID_CMD\<rparr>"
  have "\<not> is_DC_on (core_power st)"
    using power_reachable_DC [OF assms(1)] by (simp add: power_state_init_def)
  then have "chassis.answer (core_power st) ?m = [0x04, 0x01, CC_SUCCESS, 0x40, 0, 0, 0]"
    unfolding chassis.answer_def
    using assms(2-5) by (simp add: chassis_defs msg_bytes_def blit_def get_DC_status_def power_state_byte_def)
  then show ?thesis
    using handle_CHASSIS [OF assms(2,5-7), of asserts] by auto
qed

theorem chassis_status_never_changes_witness:
  "\<exists>b. ipmi_cmd_handle False demo_core (Some (demo_node\<lparr>buffer := zero_msg\<lparr>netfn := 0, cmd := 1, InF_source := 0x50\<rparr>\<rparr>)) =
    Some (demo_core\<lparr>kcs_buff := b\<rparr>, Ipmi_write [0x04, 0x01, 0x00, 0x40, 0, 0, 0])"
  by (rule chassis_status_never_changes) (simp_all add: demo_node_def demo_core_def zero_msg_def wf_msg_def)

end
