(* ===== verification/Board_61.thy ===== *)
theory Board_61
  imports Ipmi_Core
begin

text \<open>
  The IPMI sample of the 61 board, \<open>samples/ipmi_61/src\<close>, where it differs from \<open>ipmi_openbic\<close>: the
  application handler and the dispatch serve one command, and the KCS loop of \<open>main.c\<close> does not skip
  the rest of a round when a read fails. The parts that are the same (\<open>notify_ipmi_client\<close>,
  \<open>finish_response\<close>, \<open>pack_ipmi_resp\<close>, the version data, the state \<open>main_st\<close>) are those of \<open>Ipmi_Core\<close> and
  \<open>App_Handler\<close>; the manufacturer's number is another.
\<close>

section \<open>Handlers\<close>

abbreviation (input) IANA_ID_61 :: u32 where "IANA_ID_61 \<equiv> 0x00A015"

definition APP_GET_DEVICE_ID_61 :: "ipmi_msg \<Rightarrow> ipmi_msg" where
  "APP_GET_DEVICE_ID_61 msg =
     (if data_len msg \<noteq> 0 then msg\<lparr>completion_code := CC_INVALID_LENGTH\<rparr>
      else msg\<lparr>data := blit (data msg) 0
        [DEVICE_ID, DEVICE_REVISION, FIRMWARE_REVISION_1, FIRMWARE_REVISION_2, IPMI_VERSION,
         ADDITIONAL_DEVICE_SUPPORT, ucast (IANA_ID_61 AND 0xFF), ucast (drop_bit 8 IANA_ID_61 AND 0xFF),
         ucast (drop_bit 16 IANA_ID_61 AND 0xFF), ucast (PRODUCT_ID AND 0xFF),
         ucast (drop_bit 8 PRODUCT_ID AND 0xFF), ucast (drop_bit 24 AUXILIARY_FW_REVISION AND 0xFF),
         ucast (drop_bit 16 AUXILIARY_FW_REVISION AND 0xFF),
         ucast (drop_bit 8 AUXILIARY_FW_REVISION AND 0xFF), ucast (AUXILIARY_FW_REVISION AND 0xFF)],
        data_len := 15, completion_code := CC_SUCCESS\<rparr>)"

definition IPMI_APP_handler_61 :: "ipmi_msg \<Rightarrow> ipmi_msg" where
  "IPMI_APP_handler_61 msg =
     (if cmd msg = CMD_APP_GET_DEVICE_ID then APP_GET_DEVICE_ID_61 msg
      else msg\<lparr>data_len := 0, completion_code := CC_INVALID_CMD\<rparr>)"

definition ipmi_dispatch_61 :: "ipmi_msg \<Rightarrow> ipmi_msg" where
  "ipmi_dispatch_61 msg =
     (let msg = msg\<lparr>completion_code := CC_INVALID_CMD\<rparr> in
      if netfn msg = NETFN_APP_REQ then IPMI_APP_handler_61 msg
      else if netfn msg = NETFN_FIRMWARE_REQ then msg
      else msg\<lparr>data_len := 0\<rparr>)"

definition ipmi_cmd_handle_61 ::
    "bool \<Rightarrow> u8 list \<Rightarrow> ipmi_msg_cfg option \<Rightarrow> (u8 list \<times> core_effect) option" where
  "ipmi_cmd_handle_61 asserts buf parameters =
     (case parameters of
        None \<Rightarrow> Some (buf, Nothing)
      | Some m \<Rightarrow> do {
          let msg = ipmi_dispatch_61 (buffer m);
          if pal_is_not_return_cmd (netfn msg) (cmd msg) then Some (buf, Nothing)
          else do {
            msg \<leftarrow> finish_response 0 msg;
            if InF_source msg = HOST_KCS_1 then do {
              (b, out) \<leftarrow> pack_ipmi_resp buf msg;
              Some (b, Ipmi_write out)
            }
            else if InF_source msg = SELF then
              if asserts then None else Some (buf, Put_self (m\<lparr>buffer := msg\<rparr>))
            else Some (buf, Nothing)
          }
        })"

definition pal_request_msg_to_BIC_from_HOST_61 :: "u8 \<Rightarrow> u8 \<Rightarrow> bool" where
  "pal_request_msg_to_BIC_from_HOST_61 nf c \<longleftrightarrow> nf = NETFN_APP_REQ \<and> c = CMD_APP_GET_DEVICE_ID"

interpretation app61: command_handler "\<lambda>(u :: unit) m. ((), IPMI_APP_handler_61 m)" 15
  by unfold_locales (auto simp: IPMI_APP_handler_61_def APP_GET_DEVICE_ID_61_def wf_msg_def same_route_def)

section \<open>The KCS loop\<close>

text \<open>The bytes are printed up to and with the one behind the last that is not zero.\<close>

definition print_request :: "u8 list \<Rightarrow> unit option" where
  "print_request b =
     (let j = length (rev (dropWhile (\<lambda>x. x = 0) (rev b))) in if j < length b then Some () else None)"

definition main_iteration_61 ::
    "('q, ipmi_msg_cfg) msgq \<Rightarrow> (nat \<Rightarrow> int) \<Rightarrow> int \<Rightarrow> u8 list \<Rightarrow> main_st \<Rightarrow> 'q \<Rightarrow> (main_st \<times> 'q) option" where
  "main_iteration_61 ops lock rc bytes s q = do {
     let c = cnt s + 1;
     let s = s\<lparr>cnt := if c mod 100 = 0 then 0 else c\<rparr>;
     buf \<leftarrow> memcpy (ibuf s) 0 bytes 0 (length bytes);
     let s = s\<lparr>ibuf := buf\<rparr>;
     if buf = replicate KCS_BUFF_SIZE 0 then Some (s, q)
     else do {
       _ \<leftarrow> print_request buf;
       nf \<leftarrow> load buf 0;
       buf \<leftarrow> store buf 0 (drop_bit 2 nf);
       nf \<leftarrow> load buf 0;
       c \<leftarrow> load buf 1;
       let s = s\<lparr>proc_kcs_ok := True, ibuf := buf\<rparr>;
       if pal_request_msg_to_BIC_from_HOST_61 nf c then do {
         let len = (word_of_int (rc - 2) :: u16);
         let m = (buffer (current_msg s))\<lparr>InF_source := HOST_KCS_1, netfn := nf, cmd := c, data_len := len\<rparr>;
         d \<leftarrow> (if len \<noteq> 0 then memcpy (data m) 0 buf 2 (unat len) else Some (data m));
         let cm = (current_msg s)\<lparr>buffer := m\<lparr>data := d\<rparr>\<rparr>;
         let (_, q) = notify_ipmi_client ops lock (Some cm) q;
         Some (s\<lparr>current_msg := cm\<rparr>, q)
       } else Some (s, q)
     }
   }"

section \<open>Lemmas\<close>

text \<open>The handler answers a Get Device ID request of the host with the version data.\<close>

lemma cmd_handle_61_device_id:
  assumes "netfn (buffer m) = NETFN_APP_REQ" "cmd (buffer m) = CMD_APP_GET_DEVICE_ID" "wf_msg (buffer m)"
    and "InF_source (buffer m) = HOST_KCS_1" "length buf = KCS_BUFF_SIZE"
  shows "\<exists>b. ipmi_cmd_handle_61 asserts buf (Some m) =
      Some (b, Ipmi_write (app61.answer () ((buffer m)\<lparr>completion_code := CC_INVALID_CMD\<rparr>))) \<and> length b = KCS_BUFF_SIZE"
proof -
  let ?m = "(buffer m)\<lparr>completion_code := CC_INVALID_CMD\<rparr>"
  let ?r = "IPMI_APP_handler_61 ?m"
  let ?f = "if completion_code ?r = CC_SUCCESS then ?r else ?r\<lparr>data_len := 0\<rparr>"
  have wf: "wf_msg ?m" using assms(3) by (simp add: wf_msg_def)
  have d: "ipmi_dispatch_61 (buffer m) = ?r" using assms(1) by (simp add: ipmi_dispatch_61_def)
  have rt: "netfn ?r = NETFN_APP_REQ" "InF_source ?r = HOST_KCS_1"
    using app61.handler_route [of ?m] assms(1,4) by (simp_all add: same_route_def)
  have f: "finish_response 0 ?r = Some ?f" using rt(1) by (intro finish_plain) simp
  have "wf_msg ?f" "unat (data_len ?f) \<le> KCS_BUFF_SIZE - 3"
    using app61.handler_wf [OF wf] app61.handler_bound [OF wf] by (auto simp: wf_msg_def)
  from pack_ipmi_resp_fits [OF this(1) assms(5) this(2)] obtain b where
    b: "pack_ipmi_resp buf ?f = Some (b, app61.answer () ?m)" "length b = KCS_BUFF_SIZE"
    by (auto simp: app61.answer_def Let_def msg_bytes_def split: if_splits)
  have nr: "\<not> pal_is_not_return_cmd (netfn ?r) (cmd ?r)" using rt(1) by (simp add: pal_is_not_return_cmd_def)
  show ?thesis
    using d f b nr rt by (intro exI [of _ b]) (simp add: ipmi_cmd_handle_61_def Let_def)
qed

lemma print_request_zero_end: "b \<noteq> [] \<Longrightarrow> last b = 0 \<Longrightarrow> print_request b = Some ()"
proof -
  assume "b \<noteq> []" "last b = 0"
  then obtain a where b: "b = a @ [0]" by (metis append_butlast_last_id)
  have "length (dropWhile (\<lambda>x. x = 0) (rev a)) \<le> length a" using length_dropWhile_le [of "\<lambda>x. x = 0" "rev a"] by simp
  then show ?thesis unfolding b by (simp add: print_request_def Let_def)
qed

text \<open>A read that delivers a request of at least two bytes, in front of a buffer that ends with zero.\<close>

lemma fresh_request:
  assumes "length (ibuf s) = KCS_BUFF_SIZE" and "ibuf s ! 255 = 0" and "length pl \<le> KCS_BUFF_SIZE - 3"
  shows "memcpy (ibuf s) 0 (x # c # pl) 0 (length (x # c # pl)) = Some (x # c # pl @ drop (2 + length pl) (ibuf s))"
    "print_request (x # c # pl @ drop (2 + length pl) (ibuf s)) = Some ()"
proof -
  show "memcpy (ibuf s) 0 (x # c # pl) 0 (length (x # c # pl)) = Some (x # c # pl @ drop (2 + length pl) (ibuf s))"
    using assms by (simp add: blit_def)
  have ne: "drop (2 + length pl) (ibuf s) \<noteq> []" using assms by simp
  then have "last (drop (2 + length pl) (ibuf s)) = last (ibuf s)" by simp
  also have "\<dots> = 0" using assms(1,2) by (subst last_conv_nth) auto
  finally have "last (x # c # pl @ drop (2 + length pl) (ibuf s)) = 0" using ne by simp
  then show "print_request (x # c # pl @ drop (2 + length pl) (ibuf s)) = Some ()"
    by (intro print_request_zero_end) simp_all
qed

section \<open>Properties\<close>

text \<open>C25. The one request this board serves is answered: the loop queues a Get Device ID request of the host
  and the IPMI task writes one response to the KCS interface, the version data with the board's
  manufacturer number when the request has no data and the completion code for a wrong length otherwise.\<close>

theorem board_61_device_id_answered:
  assumes q: "msgq_laws ops items IPMI_BUF_LEN" "items q = []"
    and s: "length (ibuf s) = KCS_BUFF_SIZE" "ibuf s ! 255 = 0" "wf_msg (buffer (current_msg s))"
    and req: "length pl \<le> KCS_BUFF_SIZE - 3" "drop_bit 2 x = NETFN_APP_REQ" and buf: "length buf = KCS_BUFF_SIZE"
  shows "\<exists>s' q' m b. main_iteration_61 ops lock (int (length pl) + 2) (x # CMD_APP_GET_DEVICE_ID # pl) s q = Some (s', q') \<and>
    items q' = [m] \<and> ipmi_cmd_handle_61 asserts buf (Some m) = Some (b, Ipmi_write
      (if pl = [] then [0x1C, CMD_APP_GET_DEVICE_ID, CC_SUCCESS, 0, 0x80, 0x41, 8, 2, 0xBF, 0x15, 0xA0, 0, 0, 0, 0, 0, 0, 0]
       else [0x1C, CMD_APP_GET_DEVICE_ID, CC_INVALID_LENGTH]))"
proof -
  let ?c = "CMD_APP_GET_DEVICE_ID" and ?n = "of_nat (length pl) :: u16"
  let ?buf = "drop_bit 2 x # ?c # pl @ drop (2 + length pl) (ibuf s)"
  note f = fresh_request [OF s(1,2) req(1), of x ?c]
  have nz: "x # ?c # pl @ drop (2 + length pl) (ibuf s) \<noteq> replicate KCS_BUFF_SIZE 0"
    by (auto simp: numeral_eq_Suc)
  have un: "unat ?n = length pl" using req(1) by (intro unat_of_nat_u16) simp
  have w: "(word_of_int (int (length pl)) :: u16) = ?n" by simp
  let ?m0 = "(buffer (current_msg s))\<lparr>InF_source := HOST_KCS_1, netfn := drop_bit 2 x, cmd := ?c, data_len := ?n\<rparr>"
  obtain d where d: "(if ?n \<noteq> 0 then memcpy (data ?m0) 0 ?buf 2 (unat ?n) else Some (data ?m0)) = Some d"
    "length d = IPMI_MSG_MAX_LENGTH"
    using s un req(1) by (cases "?n = 0") (auto simp: wf_msg_def)
  let ?m = "(current_msg s)\<lparr>buffer := ?m0\<lparr>data := d\<rparr>\<rparr>"
  have m: "netfn (buffer ?m) = NETFN_APP_REQ" "cmd (buffer ?m) = ?c" "InF_source (buffer ?m) = HOST_KCS_1"
    "wf_msg (buffer ?m)" "unat (data_len (buffer ?m)) = length pl" "\<not> IS_RESPONSE (buffer ?m)"
    using req(2) d(2) un by (auto simp: wf_msg_def IS_RESPONSE_def)
  obtain q1 where q1: "k_msgq_put ops ?m q = (0, q1)" "items q1 = [?m]"
    using msgq_put_room [OF q(1), of q ?m] q(2) by auto
  then have nt: "snd (notify_ipmi_client ops lock (Some ?m) q) = q1"
    using m(6) by (simp add: notify_ipmi_client_def notify_loop_done)
  have "\<exists>s'. main_iteration_61 ops lock (int (length pl) + 2) (x # ?c # pl) s q = Some (s', snd (notify_ipmi_client ops lock (Some ?m) q))"
    using f nz d(1) req(2)
    by (cases "?n = 0")
      (simp_all add: main_iteration_61_def Let_def split_beta w pal_request_msg_to_BIC_from_HOST_61_def del: memcpy_Some)
  moreover have "app61.answer () ((buffer ?m)\<lparr>completion_code := CC_INVALID_CMD\<rparr>) =
      (if pl = [] then [0x1C, ?c, CC_SUCCESS, 0, 0x80, 0x41, 8, 2, 0xBF, 0x15, 0xA0, 0, 0, 0, 0, 0, 0, 0]
       else [0x1C, ?c, CC_INVALID_LENGTH])"
    unfolding app61.answer_def using m(5) d(2) req(2)
    by (auto simp: Let_def IPMI_APP_handler_61_def APP_GET_DEVICE_ID_61_def msg_bytes_def blit_def
        GET_FW_VERSION1_def unat_eq_0)
  ultimately show ?thesis
    using cmd_handle_61_device_id [OF m(1,2,4,3) buf, of asserts] nt q1(2) by fastforce
qed

theorem board_61_device_id_answered_witness:
  "\<exists>s' q' m b. main_iteration_61 (list_msgq 10) (\<lambda>_. 0) 2 [0x18, 0x01] demo_main [] = Some (s', q') \<and> q' = [m] \<and>
     ipmi_cmd_handle_61 False (replicate 256 0) (Some m) =
       Some (b, Ipmi_write [0x1C, 0x01, 0, 0, 0x80, 0x41, 8, 2, 0xBF, 0x15, 0xA0, 0, 0, 0, 0, 0, 0, 0])"
proof -
  have "length (ibuf demo_main) = KCS_BUFF_SIZE" "ibuf demo_main ! 255 = 0" "wf_msg (buffer (current_msg demo_main))"
    "length ([] :: u8 list) \<le> KCS_BUFF_SIZE - 3" "drop_bit 2 (0x18 :: u8) = NETFN_APP_REQ" "length (replicate 256 0 :: u8 list) = KCS_BUFF_SIZE"
    by (simp_all add: demo_main_def demo_node_def)
  from board_61_device_id_answered [OF list_msgq_laws _ this, of "[]" "\<lambda>_. 0" False] show ?thesis by simp
qed

text \<open>C38. A request of the host for which no command of this board is meant can bring the controller down:
  its network function stays in the buffer, shifted once, and when the next read has no data the loop
  goes on with that buffer, shifts it again and may now serve it, with the length of the failed read.
  The length wraps to more than sixty thousand bytes and the copy leaves both arrays.\<close>

theorem failed_read_replays_request:
  assumes "length (ibuf s) = KCS_BUFF_SIZE" and "ibuf s ! 255 = 0" and "length pl \<le> KCS_BUFF_SIZE - 3"
    and "drop_bit 4 x = NETFN_APP_REQ" and "- 4096 \<le> rc" and "rc < 0"
  shows "\<exists>s'. main_iteration_61 ops lock (int (length pl) + 2) (x # CMD_APP_GET_DEVICE_ID # pl) s q = Some (s', q) \<and>
    main_iteration_61 ops lock rc [] s' q = None"
proof -
  let ?c = "CMD_APP_GET_DEVICE_ID" and ?y = "drop_bit 2 x" and ?rest = "pl @ drop (2 + length pl) (ibuf s)"
  have y: "drop_bit 2 ?y = NETFN_APP_REQ" using assms(4) by (simp add: drop_bit_drop_bit)
  then have n: "?y \<noteq> NETFN_APP_REQ" by (intro notI) simp
  note f = fresh_request [OF assms(1-3), of x ?c]
  have nz: "x # ?c # ?rest \<noteq> replicate KCS_BUFF_SIZE 0" "?y # ?c # ?rest \<noteq> replicate KCS_BUFF_SIZE 0"
    by (auto simp: numeral_eq_Suc)
  let ?s = "s\<lparr>cnt := if (cnt s + 1) mod 100 = 0 then 0 else cnt s + 1, ibuf := ?y # ?c # ?rest, proc_kcs_ok := True\<rparr>"
  have one: "main_iteration_61 ops lock (int (length pl) + 2) (x # ?c # pl) s q = Some (?s, q)"
    using f nz(1) n by (simp add: main_iteration_61_def Let_def pal_request_msg_to_BIC_from_HOST_61_def del: memcpy_Some)
  have p: "print_request (?y # ?c # ?rest) = Some ()"
    using fresh_request(2) [OF assms(1-3), of ?y ?c] by simp
  have "unat (word_of_int (rc - 2) :: u16) = nat (rc - 2 + 65536)"
  proof -
    have "(word_of_int (rc - 2) :: u16) = word_of_int (rc - 2 + 65536)" by (simp add: word_of_int_eq_iff take_bit_eq_mod)
    moreover have "uint (word_of_int k :: u16) = k" if "0 \<le> k" "k < 65536" for k
      using that by (simp add: uint_word_of_int_eq take_bit_int_eq_self)
    from this [of "rc - 2 + 65536"] have "uint (word_of_int (rc - 2 + 65536) :: u16) = rc - 2 + 65536"
      using assms(5,6) by linarith
    ultimately show ?thesis by (simp only: unat_eq_nat_uint)
  qed
  then have l: "60000 \<le> unat (word_of_int (rc - 2) :: u16)" using assms(5,6) by simp
  then have "(word_of_int (rc - 2) :: u16) \<noteq> 0" by (intro notI) simp
  moreover have "memcpy d 0 (NETFN_APP_REQ # ?c # ?rest) 2 (unat (word_of_int (rc - 2) :: u16)) = None" for d
    using l assms(1,3) by (simp add: memcpy_None)
  ultimately have "main_iteration_61 ops lock rc [] ?s q = None"
    using p nz(2) y by (simp add: main_iteration_61_def Let_def pal_request_msg_to_BIC_from_HOST_61_def blit_def del: replicate.simps)
  with one show ?thesis by blast
qed

theorem failed_read_replays_request_witness:
  "\<exists>s'. main_iteration_61 (list_msgq 10) (\<lambda>_. 0) 2 [0x60, 0x01] demo_main [] = Some (s', []) \<and>
     main_iteration_61 (list_msgq 10) (\<lambda>_. 0) (- 61) [] s' [] = None"
proof -
  have "\<exists>s'. main_iteration_61 (list_msgq 10) (\<lambda>_. 0) (int (length ([] :: u8 list)) + 2) [0x60, CMD_APP_GET_DEVICE_ID] demo_main [] =
      Some (s', []) \<and> main_iteration_61 (list_msgq 10) (\<lambda>_. 0) (- 61) [] s' [] = None"
    by (rule failed_read_replays_request) (simp_all add: demo_main_def)
  then show ?thesis by simp
qed

end
