(* ===== verification/Storage_Handler.thy ===== *)
theory Storage_Handler
  imports App_Handler Ipmb_Tasks "HOL-Library.Signed_Division"
begin

text \<open>
  The command handlers of \<open>samples/ipmi_openbic/src/ipmi/storage_handler.c\<close> and
  \<open>ipmi/sensor_handler.c\<close>. The FRU, SDR and sensor services they call are not part of the
  repository: they are the fields of a platform record, over a state \<open>'w\<close> of their own. Status
  codes of those services are datatypes with a constructor for every other value. An answer is
  built in the message; a copy whose range depends on data is checked, and \<open>None\<close> means that it
  leaves its array.
\<close>

section \<open>Platform services\<close>

datatype fru_status =
    FRU_READ_SUCCESS | FRU_WRITE_SUCCESS | FRU_INVALID_ID | FRU_OUT_OF_RANGE | FRU_FAIL_TO_ACCESS
  | FRU_OTHER_STATUS

datatype rsv_index = RSV_TABLE_INDEX_0 | RSV_TABLE_INDEX_1

record fru_entry =
  fru_dev_id :: u8
  fru_offset :: u16
  fru_data_len :: u16
  fru_data :: "u8 list"

record 'w storage_plat =
  MAX_FRU_ID :: nat
  find_FRU_size :: "u8 \<Rightarrow> u16"
  get_FRU_access :: "u8 \<Rightarrow> u8"
  FRU_read :: "fru_entry \<Rightarrow> 'w \<Rightarrow> fru_status \<times> fru_entry \<times> 'w"
  FRU_write :: "fru_entry \<Rightarrow> 'w \<Rightarrow> fru_status \<times> 'w"
  SDR_get_RSV_ID :: "rsv_index \<Rightarrow> 'w \<Rightarrow> u16 \<times> 'w"
  SDR_RSV_ID_check :: "u16 \<Rightarrow> rsv_index \<Rightarrow> 'w \<Rightarrow> bool"
  SDR_check_record_ID :: "u16 \<Rightarrow> bool"
  SDR_get_record_ID :: "u16 \<Rightarrow> u16"
  full_sdr_table :: "u16 \<Rightarrow> u8 list"
  sdr_record_len :: "u16 \<Rightarrow> nat"
  IPMI_SDR_HEADER_LEN :: nat

text \<open>What the handlers rely on: a FRU read returns no more data than was asked for, in an array
  of at least 32 bytes, and a record that \<open>SDR_check_record_ID\<close> accepts is stored with its header
  and body.\<close>

definition storage_plat_ok :: "'w storage_plat \<Rightarrow> bool" where
  "storage_plat_ok p \<longleftrightarrow>
     (\<forall>e w. fru_data_len (fst (snd (FRU_read p e w))) \<le> fru_data_len e \<and>
        32 \<le> length (fru_data (fst (snd (FRU_read p e w))))) \<and>
     (\<forall>r. SDR_check_record_ID p r \<longrightarrow> IPMI_SDR_HEADER_LEN p + sdr_record_len p r \<le> length (full_sdr_table p r))"

section \<open>FRU and SDR commands\<close>

definition STORAGE_GET_FRUID_INFO :: "'w storage_plat \<Rightarrow> ipmi_msg \<Rightarrow> ipmi_msg" where
  "STORAGE_GET_FRUID_INFO p msg =
     (if data_len msg \<noteq> 1 then msg\<lparr>completion_code := CC_INVALID_LENGTH\<rparr>
      else
        let fruid = data msg ! 0 in
        if unat fruid \<ge> MAX_FRU_ID p then msg\<lparr>completion_code := CC_INVALID_DATA_FIELD\<rparr>
        else
          let fru_size = find_FRU_size p fruid in
          if fru_size = 0xFFFF then msg\<lparr>completion_code := CC_UNSPECIFIED_ERROR\<rparr>
          else msg\<lparr>data := blit (data msg) 0
                 [ucast (fru_size AND 0xFF), ucast (drop_bit 8 fru_size AND 0xFF), get_FRU_access p fruid],
               data_len := 3, completion_code := CC_SUCCESS\<rparr>)"

definition fru_completion :: "fru_status \<Rightarrow> fru_status \<Rightarrow> u8" where
  "fru_completion success status =
     (if status = success then CC_SUCCESS
      else if status = FRU_INVALID_ID then CC_INVALID_PARAM
      else if status = FRU_OUT_OF_RANGE then CC_PARAM_OUT_OF_RANGE
      else if status = FRU_FAIL_TO_ACCESS then CC_FRU_DEV_BUSY
      else CC_UNSPECIFIED_ERROR)"

definition le16 :: "u8 \<Rightarrow> u8 \<Rightarrow> u16" where
  "le16 lsb msb = push_bit 8 (ucast msb) OR ucast lsb"

definition STORAGE_READ_FRUID_DATA ::
    "'w storage_plat \<Rightarrow> u8 list \<Rightarrow> 'w \<Rightarrow> ipmi_msg \<Rightarrow> ('w \<times> ipmi_msg) option" where
  "STORAGE_READ_FRUID_DATA p junk w msg =
     (if data_len msg \<noteq> 4 then Some (w, msg\<lparr>completion_code := CC_INVALID_LENGTH\<rparr>)
      else
        let e = \<lparr>fru_dev_id = data msg ! 0, fru_offset = le16 (data msg ! 1) (data msg ! 2),
                 fru_data_len = ucast (data msg ! 3), fru_data = junk\<rparr> in
        if fru_data_len e > 32 then Some (w, msg\<lparr>completion_code := CC_LENGTH_EXCEEDED\<rparr>)
        else do {
          let (status, e, w) = FRU_read p e w;
          let d = (data msg)[0 := ucast (fru_data_len e)];
          d \<leftarrow> memcpy d 1 (fru_data e) 0 (unat (fru_data_len e));
          Some (w, msg\<lparr>data_len := fru_data_len e + 1, data := d,
                       completion_code := fru_completion FRU_READ_SUCCESS status\<rparr>)
        })"

definition STORAGE_WRITE_FRUID_DATA ::
    "'w storage_plat \<Rightarrow> u8 list \<Rightarrow> 'w \<Rightarrow> ipmi_msg \<Rightarrow> ('w \<times> ipmi_msg) option" where
  "STORAGE_WRITE_FRUID_DATA p junk w msg =
     (if data_len msg < 4 then Some (w, msg\<lparr>completion_code := CC_INVALID_LENGTH\<rparr>)
      else
        let e = \<lparr>fru_dev_id = data msg ! 0, fru_offset = le16 (data msg ! 1) (data msg ! 2),
                 fru_data_len = data_len msg - 3, fru_data = junk\<rparr> in
        if fru_data_len e > 32 then Some (w, msg\<lparr>completion_code := CC_LENGTH_EXCEEDED\<rparr>)
        else do {
          fd \<leftarrow> memcpy (fru_data e) 0 (data msg) 3 (unat (fru_data_len e));
          let msg = msg\<lparr>data := (data msg)[0 := ucast (data_len msg - 3)], data_len := 1\<rparr>;
          let (status, w) = FRU_write p (e\<lparr>fru_data := fd\<rparr>) w;
          Some (w, msg\<lparr>completion_code := fru_completion FRU_WRITE_SUCCESS status\<rparr>)
        })"

definition STORAGE_RSV_SDR :: "'w storage_plat \<Rightarrow> 'w \<Rightarrow> ipmi_msg \<Rightarrow> 'w \<times> ipmi_msg" where
  "STORAGE_RSV_SDR p w msg =
     (if data_len msg \<noteq> 0 then (w, msg\<lparr>completion_code := CC_INVALID_LENGTH\<rparr>)
      else
        let rsv_table_index = (if InF_source msg = SLOT3_BIC then RSV_TABLE_INDEX_1 else RSV_TABLE_INDEX_0);
            (RSV_ID, w) = SDR_get_RSV_ID p rsv_table_index w in
        (w, msg\<lparr>data := blit (data msg) 0 [ucast (RSV_ID AND 0xFF), ucast (drop_bit 8 RSV_ID AND 0xFF)],
                data_len := 2, completion_code := CC_SUCCESS\<rparr>))"

definition STORAGE_GET_SDR :: "'w storage_plat \<Rightarrow> 'w \<Rightarrow> ipmi_msg \<Rightarrow> ipmi_msg option" where
  "STORAGE_GET_SDR p w msg =
     (let rsv_table_index = (if InF_source msg = SLOT3_BIC then RSV_TABLE_INDEX_1 else RSV_TABLE_INDEX_0);
          rsv_ID = le16 (data msg ! 0) (data msg ! 1);
          record_ID = le16 (data msg ! 2) (data msg ! 3);
          offset = data msg ! 4;
          req_len = data msg ! 5 in
      if data_len msg \<noteq> 6 then Some (msg\<lparr>completion_code := CC_INVALID_LENGTH\<rparr>)
      else if \<not> SDR_RSV_ID_check p rsv_ID rsv_table_index w
        then Some (msg\<lparr>completion_code := CC_INVALID_RESERVATION\<rparr>)
      else if \<not> SDR_check_record_ID p record_ID then Some (msg\<lparr>completion_code := CC_INVALID_DATA_FIELD\<rparr>)
      else if unat req_len + 2 > IPMI_DATA_MAX_LENGTH then Some (msg\<lparr>completion_code := CC_LENGTH_EXCEEDED\<rparr>)
      else if unat offset + unat req_len > IPMI_SDR_HEADER_LEN p + sdr_record_len p record_ID
        then Some (msg\<lparr>completion_code := CC_PARAM_OUT_OF_RANGE\<rparr>)
      else do {
        let next_record_ID = SDR_get_record_ID p record_ID;
        let d = blit (data msg) 0 [ucast (next_record_ID AND 0xFF), ucast (drop_bit 8 next_record_ID AND 0xFF)];
        d \<leftarrow> memcpy d 2 (full_sdr_table p record_ID) (unat offset) (unat req_len);
        Some (msg\<lparr>data := d, data_len := ucast req_len + 2, completion_code := CC_SUCCESS\<rparr>)
      })"

definition get_add_sel_target_interface :: u8 where
  "get_add_sel_target_interface = BMC_IPMB"

text \<open>\<open>STORAGE_ADD_SEL\<close> forwards the record to the BMC over IPMB or PLDM. The environment answers
  the allocation, the platform hook and the calls of \<open>ipmb_read\<close>.\<close>

record sel_env =
  sel_malloc :: bool
  sel_use_ipmb :: "u8 \<Rightarrow> bool"
  sel_send :: send_env
  sel_rxq_init :: bool
  sel_read_mutex_init :: bool
  sel_read_lock :: int
  sel_got :: "ipmi_msg option"
  sel_clear_lock :: int

definition STORAGE_ADD_SEL :: "sel_env \<Rightarrow> ipmb_st \<Rightarrow> ipmi_msg \<Rightarrow> (ipmb_st \<times> ipmi_msg) option" where
  "STORAGE_ADD_SEL ev s msg =
     (if data_len msg \<noteq> 16 then Some (s, msg\<lparr>completion_code := CC_INVALID_LENGTH\<rparr>)
      else if \<not> sel_malloc ev then Some (s, msg\<lparr>completion_code := CC_UNSPECIFIED_ERROR\<rparr>)
      else do {
        d \<leftarrow> memcpy (data zero_msg) 0 (data msg) 0 (unat (data_len msg));
        let add_sel_msg = zero_msg\<lparr>InF_source := SELF, InF_target := get_add_sel_target_interface,
          netfn := NETFN_STORAGE_REQ, cmd := CMD_STORAGE_ADD_SEL, data_len := data_len msg, data := d\<rparr>;
        i \<leftarrow> load (IPMB_inf_index_map s) (unat get_add_sel_target_interface);
        if sel_use_ipmb ev i then do {
          j \<leftarrow> load (IPMB_inf_index_map s) (unat (InF_target add_sel_msg));
          (status, _, s) \<leftarrow> ipmb_read (sel_send ev) (sel_rxq_init ev) (sel_read_mutex_init ev)
            (sel_read_lock ev) (sel_got ev) (sel_clear_lock ev) (Some add_sel_msg) j s;
          let msg = msg\<lparr>data_len := 0\<rparr>;
          if status = IPMB_ERROR_FAILURE then Some (s, msg\<lparr>completion_code := CC_UNSPECIFIED_ERROR\<rparr>)
          else if status = IPMB_ERROR_GET_MESSAGE_QUEUE
            then Some (s, msg\<lparr>completion_code := CC_UNSPECIFIED_ERROR\<rparr>)
          else Some (s, msg\<lparr>completion_code := CC_SUCCESS\<rparr>)
        }
        else Some (emit (Pldm_request (add_sel_msg\<lparr>InF_target := PLDM\<rparr>)) s,
                   msg\<lparr>data_len := 0, completion_code := CC_SUCCESS\<rparr>)
      })"

definition IPMI_Storage_handler ::
    "'w storage_plat \<Rightarrow> u8 list \<Rightarrow> sel_env \<Rightarrow> 'w \<times> ipmb_st \<Rightarrow> ipmi_msg \<Rightarrow> (('w \<times> ipmb_st) \<times> ipmi_msg) option" where
  "IPMI_Storage_handler p junk ev ws msg =
     (let (w, s) = ws in
      if cmd msg = CMD_STORAGE_GET_FRUID_INFO then Some (ws, STORAGE_GET_FRUID_INFO p msg)
      else if cmd msg = CMD_STORAGE_READ_FRUID_DATA then do {
        (w, msg) \<leftarrow> STORAGE_READ_FRUID_DATA p junk w msg; Some ((w, s), msg) }
      else if cmd msg = CMD_STORAGE_WRITE_FRUID_DATA then do {
        (w, msg) \<leftarrow> STORAGE_WRITE_FRUID_DATA p junk w msg; Some ((w, s), msg) }
      else if cmd msg = CMD_STORAGE_RSV_SDR then
        let (w, msg) = STORAGE_RSV_SDR p w msg in Some ((w, s), msg)
      else if cmd msg = CMD_STORAGE_GET_SDR then do {
        msg \<leftarrow> STORAGE_GET_SDR p w msg; Some (ws, msg) }
      else if cmd msg = CMD_STORAGE_ADD_SEL then do {
        (s, msg) \<leftarrow> STORAGE_ADD_SEL ev s msg; Some ((w, s), msg) }
      else Some (ws, msg\<lparr>data_len := 0, completion_code := CC_INVALID_CMD\<rparr>))"

section \<open>Sensor commands\<close>

datatype sensor_status =
    SENSOR_READ_SUCCESS | SENSOR_READ_ACUR_SUCCESS | SENSOR_READ_4BYTE_ACUR_SUCCESS
  | SENSOR_NOT_FOUND | SENSOR_NOT_ACCESSIBLE | SENSOR_FAIL_TO_ACCESS | SENSOR_INIT_STATUS
  | SENSOR_UNSPECIFIED_ERROR | SENSOR_POLLING_DISABLE | SENSOR_NOT_PRESENT | SENSOR_OTHER_STATUS

text \<open>A reading is the pair of the integer and the fraction part of \<open>sensor_val\<close>.\<close>

record 'w sensor_plat =
  enable_sensor_poll_thread :: bool
  get_sensor_reading :: "u8 \<Rightarrow> 'w \<Rightarrow> sensor_status \<times> (int \<times> int) \<times> 'w"
  calculate_MBR :: "u8 \<Rightarrow> int \<Rightarrow> int"
  SENSOR_THRESHOLD_STATUS :: u8

definition sensor_answer :: "'w sensor_plat \<Rightarrow> ipmi_msg \<Rightarrow> u8 \<Rightarrow> u8 \<Rightarrow> ipmi_msg" where
  "sensor_answer p msg reading status =
     msg\<lparr>data := blit (data msg) 0 [reading, status, SENSOR_THRESHOLD_STATUS p],
         data_len := 3, completion_code := CC_SUCCESS\<rparr>"

definition SENSOR_GET_SENSOR_READING :: "'w sensor_plat \<Rightarrow> 'w \<Rightarrow> ipmi_msg \<Rightarrow> 'w \<times> ipmi_msg" where
  "SENSOR_GET_SENSOR_READING p w msg =
     (if data_len msg \<noteq> 1 then (w, msg\<lparr>completion_code := CC_INVALID_LENGTH\<rparr>)
      else
        let (sensor_report_status, status, sval, w) =
          (if enable_sensor_poll_thread p then
             (SENSOR_EVENT_MESSAGES_ENABLE OR SENSOR_SCANNING_ENABLE, get_sensor_reading p (data msg ! 0) w)
           else (SENSOR_EVENT_MESSAGES_ENABLE, SENSOR_POLLING_DISABLE, (0, 0), w)) in
        (w, case status of
           SENSOR_READ_SUCCESS \<Rightarrow> sensor_answer p msg
             (word_of_int (calculate_MBR p (data msg ! 0) (fst sval * 1000 + snd sval) sdiv 1000)) sensor_report_status
         | SENSOR_READ_ACUR_SUCCESS \<Rightarrow> sensor_answer p msg
             (word_of_int (calculate_MBR p (data msg ! 0) (fst sval * 1000 + snd sval) sdiv 1000)) sensor_report_status
         | SENSOR_READ_4BYTE_ACUR_SUCCESS \<Rightarrow> sensor_answer p msg
             (word_of_int (calculate_MBR p (data msg ! 0) (fst sval * 1000 + snd sval) sdiv 1000)) sensor_report_status
         | SENSOR_NOT_ACCESSIBLE \<Rightarrow> sensor_answer p msg 0 (sensor_report_status OR SENSOR_READING_STATE_UNAVAILABLE)
         | SENSOR_INIT_STATUS \<Rightarrow> sensor_answer p msg 0 (sensor_report_status OR SENSOR_READING_STATE_UNAVAILABLE)
         | SENSOR_POLLING_DISABLE \<Rightarrow> msg\<lparr>completion_code := CC_SENSOR_NOT_PRESENT\<rparr>
         | SENSOR_FAIL_TO_ACCESS \<Rightarrow> msg\<lparr>completion_code := CC_NODE_BUSY\<rparr>
         | SENSOR_NOT_FOUND \<Rightarrow> msg\<lparr>completion_code := CC_INVALID_DATA_FIELD\<rparr>
         | _ \<Rightarrow> msg\<lparr>completion_code := CC_UNSPECIFIED_ERROR\<rparr>))"

definition IPMI_SENSOR_handler :: "'w sensor_plat \<Rightarrow> 'w \<Rightarrow> ipmi_msg \<Rightarrow> 'w \<times> ipmi_msg" where
  "IPMI_SENSOR_handler p w msg =
     (if cmd msg = CMD_SENSOR_GET_SENSOR_READING then SENSOR_GET_SENSOR_READING p w msg
      else (w, msg\<lparr>data_len := 0, completion_code := CC_INVALID_CMD\<rparr>))"

section \<open>The IPMB read that the handlers use\<close>

lemma pending_current_seq [simp]: "pending h (ch\<lparr>current_seq := x\<rparr>) rs = pending h ch rs"
  by (simp add: pending_def chan_ok_def)

lemma pending_table: "pending h ch rs \<Longrightarrow> length (seq_table ch) = SEQ_NUM"
  by (auto simp: pending_def chan_ok_def)

text \<open>The state in which requests can be sent on the channel with index \<open>j\<close>.\<close>

definition chan_ready :: "ipmb_st \<Rightarrow> nat \<Rightarrow> bool" where
  "chan_ready s j \<longleftrightarrow> j < length (ip_chans s) \<and> j < length (IPMB_config_table s) \<and>
     (\<exists>rs. pending (ip_heap s) (ip_chans s ! j) rs)"

lemma ipmb_send_request_runs:
  assumes s: "chan_ready s (unat index)" and stk: "wf_msg (buffer (stk ev))"
    and r: "wf_msg r" "unat (data_len r) \<le> IPMI_MSG_MAX_LENGTH"
  shows "\<exists>e r' s'. ipmb_send_request ev (Some r) index s = Some (e, Some r', s') \<and>
    chan_ready s' (unat index) \<and> IPMB_inf_index_map s' = IPMB_inf_index_map s"
proof -
  let ?i = "unat index"
  let ?ch = "ip_chans s ! ?i"
  obtain rs where a: "?i < length (ip_chans s)" "?i < length (IPMB_config_table s)" "pending (ip_heap s) ?ch rs"
    using s by (auto simp: chan_ready_def)
  obtain sq where sq: "get_free_seq ?ch = Some (sq, ?ch\<lparr>current_seq := sq\<rparr>)"
    using get_free_seq_result [OF pending_table [OF a(3)]] by blast
  show ?thesis
    using a sq stk r s
    by (auto simp: ipmb_send_request_def Let_def chan_ready_def intro!: exI [of _ rs])
qed

lemma ipmb_read_runs:
  assumes s: "chan_ready s (unat index)" and stk: "wf_msg (buffer (stk ev))"
    and m: "wf_msg m" "unat (data_len m) \<le> IPMI_MSG_MAX_LENGTH"
  shows "\<exists>e m' s'. ipmb_read ev a b c got d (Some m) index s = Some (e, m', s') \<and>
    chan_ready s' (unat index) \<and> IPMB_inf_index_map s' = IPMB_inf_index_map s"
proof -
  let ?i = "unat index"
  let ?s = "emit (Purge_rx ?i) s"
  have s1: "chan_ready ?s ?i" using s by (simp add: chan_ready_def)
  obtain e r' s' where q: "ipmb_send_request ev (Some m) index ?s = Some (e, Some r', s')"
    "chan_ready s' ?i" "IPMB_inf_index_map s' = IPMB_inf_index_map s"
    using ipmb_send_request_runs [OF s1 stk m] by auto
  obtain rs where p: "?i < length (ip_chans s')" "?i < length (IPMB_config_table s')"
    "pending (ip_heap s') (ip_chans s' ! ?i) rs"
    using q(2) by (auto simp: chan_ready_def)
  have "\<exists>h ch rs. clear_req_ipmi_msg d (ip_heap s') (ip_chans s' ! ?i) (P_start (ip_chans s' ! ?i)) r' = Some (h, ch) \<and>
      pending h ch rs"
  proof (cases "d = 0")
    case True
    then show ?thesis using clear_req_pending [OF p(3), of r'] by blast
  next
    case False
    then show ?thesis
      using p(3) pending_P_start [OF p(3)] by (auto simp: clear_req_ipmi_msg_def)
  qed
  then obtain h ch rs' where c: "clear_req_ipmi_msg d (ip_heap s') (ip_chans s' ! ?i) (P_start (ip_chans s' ! ?i)) r' = Some (h, ch)"
    "pending h ch rs'" by blast
  have i: "?i < length (ip_chans s)" using s by (simp add: chan_ready_def)
  show ?thesis
    using q c p i s
    by (auto simp: ipmb_read_def chan_ready_def split: option.splits)
qed

section \<open>The handlers keep the contract\<close>

definition storage_run ::
    "'w storage_plat \<times> u8 list \<times> sel_env \<times> 'w \<times> ipmb_st \<Rightarrow> ipmi_msg \<Rightarrow>
      (('w storage_plat \<times> u8 list \<times> sel_env \<times> 'w \<times> ipmb_st) \<times> ipmi_msg) option" where
  "storage_run st m = (case st of (p, junk, ev, ws) \<Rightarrow>
     map_option (\<lambda>(ws', m'). ((p, junk, ev, ws'), m')) (IPMI_Storage_handler p junk ev ws m))"

definition storage_ok :: "'w storage_plat \<times> u8 list \<times> sel_env \<times> 'w \<times> ipmb_st \<Rightarrow> bool" where
  "storage_ok st \<longleftrightarrow> (case st of (p, junk, ev, w, s) \<Rightarrow>
     storage_plat_ok p \<and> 32 \<le> length junk \<and> wf_msg (buffer (stk (sel_send ev))) \<and>
     (\<exists>j. load (IPMB_inf_index_map s) (unat BMC_IPMB) = Some j \<and> chan_ready s (unat j)))"

definition good_answer :: "nat \<Rightarrow> ipmi_msg \<Rightarrow> ipmi_msg \<Rightarrow> bool" where
  "good_answer n m m' \<longleftrightarrow> wf_msg m' \<and> same_route m m' \<and>
     (completion_code m' = CC_SUCCESS \<longrightarrow> unat (data_len m') \<le> n)"

lemma good_GET_FRUID_INFO: "wf_msg m \<Longrightarrow> good_answer 257 m (STORAGE_GET_FRUID_INFO p m)"
  by (simp add: good_answer_def STORAGE_GET_FRUID_INFO_def Let_def wf_msg_def same_route_def)

lemma good_READ_FRUID_DATA:
  assumes "storage_plat_ok p" and m: "wf_msg m"
  shows "\<exists>w' m'. STORAGE_READ_FRUID_DATA p junk w m = Some (w', m') \<and> good_answer 257 m m'"
proof -
  let ?e = "\<lparr>fru_dev_id = data m ! 0, fru_offset = le16 (data m ! 1) (data m ! 2),
                 fru_data_len = ucast (data m ! 3), fru_data = junk\<rparr>"
  obtain st e w' where r: "FRU_read p ?e w = (st, e, w')" by (cases "FRU_read p ?e w") auto
  have "fru_data_len (fst (snd (FRU_read p ?e w))) \<le> fru_data_len ?e"
    "32 \<le> length (fru_data (fst (snd (FRU_read p ?e w))))"
    using assms(1) unfolding storage_plat_ok_def by blast+
  then have e: "fru_data_len e \<le> ucast (data m ! 3)" "32 \<le> length (fru_data e)" unfolding r by simp_all
  show ?thesis
  proof (cases "data_len m \<noteq> 4 \<or> (ucast (data m ! 3) :: u16) > 32")
    case True
    then show ?thesis using m by (auto simp: STORAGE_READ_FRUID_DATA_def good_answer_def wf_msg_def same_route_def)
  next
    case False
    then have "fru_data_len e \<le> 32" using e(1) by auto
    then have l: "unat (fru_data_len e) \<le> 32" by (simp add: word_le_nat_alt)
    then have "unat (fru_data_len e + 1) \<le> 257" by (simp add: unat_word_ariths)
    with l e(2) False m r show ?thesis
      by (auto simp: STORAGE_READ_FRUID_DATA_def good_answer_def wf_msg_def same_route_def)
  qed
qed

lemma good_WRITE_FRUID_DATA:
  assumes "32 \<le> length junk" and m: "wf_msg m"
  shows "\<exists>w' m'. STORAGE_WRITE_FRUID_DATA p junk w m = Some (w', m') \<and> good_answer 257 m m'"
proof (cases "data_len m < 4 \<or> data_len m - 3 > 32")
  case True
  then show ?thesis using m by (auto simp: STORAGE_WRITE_FRUID_DATA_def good_answer_def wf_msg_def same_route_def)
next
  case False
  then have "unat (data_len m - 3) \<le> 32" by (auto simp: word_le_nat_alt not_less)
  with False assms show ?thesis
    by (auto simp: STORAGE_WRITE_FRUID_DATA_def good_answer_def wf_msg_def same_route_def split: prod.splits)
qed

lemma good_RSV_SDR: "wf_msg m \<Longrightarrow> good_answer 257 m (snd (STORAGE_RSV_SDR p w m))"
  by (auto simp: good_answer_def STORAGE_RSV_SDR_def Let_def wf_msg_def same_route_def split: prod.splits)

lemma good_GET_SDR:
  assumes "storage_plat_ok p" and m: "wf_msg m"
  shows "\<exists>m'. STORAGE_GET_SDR p w m = Some m' \<and> good_answer 257 m m'"
proof -
  let ?n = "data m ! 5" let ?id = "le16 (data m ! 2) (data m ! 3)"
  have u: "unat (ucast ?n + 2 :: u16) \<le> 257"
    using unat_ucast_plus [of 2 ?n] unat_u8_le [of ?n] by simp
  have tab: "SDR_check_record_ID p ?id \<Longrightarrow>
      IPMI_SDR_HEADER_LEN p + sdr_record_len p ?id \<le> length (full_sdr_table p ?id)"
    using assms(1) by (simp add: storage_plat_ok_def)
  have cp: "memcpy (blit (data m) 0 [a, b]) 2 (full_sdr_table p ?id) (unat (data m ! 4)) (unat ?n) \<noteq> None"
    if "SDR_check_record_ID p ?id" "unat (data m ! 4) + unat ?n \<le> IPMI_SDR_HEADER_LEN p + sdr_record_len p ?id" for a b
    using that tab m by (simp add: memcpy_None not_less order_trans [OF unat_u8_le])
  have fin: "\<exists>m'. (do { d \<leftarrow> memcpy (blit (data m) 0 [a, b]) 2 (full_sdr_table p ?id) (unat (data m ! 4)) (unat ?n);
        Some (m\<lparr>data := d, data_len := ucast ?n + 2, completion_code := CC_SUCCESS\<rparr>) }) = Some m' \<and> good_answer 257 m m'"
    if c: "SDR_check_record_ID p ?id" "unat (data m ! 4) + unat ?n \<le> IPMI_SDR_HEADER_LEN p + sdr_record_len p ?id" for a b
  proof -
    obtain d where d: "memcpy (blit (data m) 0 [a, b]) 2 (full_sdr_table p ?id) (unat (data m ! 4)) (unat ?n) = Some d"
      using cp [OF c] by blast
    from memcpy_length [OF d] m u d show ?thesis
      by (auto simp: good_answer_def wf_msg_def same_route_def)
  qed
  have err: "\<exists>m'. Some (m\<lparr>completion_code := c\<rparr>) = Some m' \<and> good_answer 257 m m'" if "c \<noteq> CC_SUCCESS" for c
    using m that by (auto simp: good_answer_def wf_msg_def same_route_def)
  show ?thesis
    unfolding STORAGE_GET_SDR_def Let_def
    by (auto simp only: split: if_splits intro!: err fin) auto
qed

lemma good_ADD_SEL:
  assumes m: "wf_msg m" and stk: "wf_msg (buffer (stk (sel_send ev)))"
    and j: "load (IPMB_inf_index_map s) (unat BMC_IPMB) = Some j" "chan_ready s (unat j)"
  shows "\<exists>s' m'. STORAGE_ADD_SEL ev s m = Some (s', m') \<and> good_answer 257 m m' \<and>
    IPMB_inf_index_map s' = IPMB_inf_index_map s \<and> chan_ready s' (unat j)"
proof -
  let ?d = "blit (data zero_msg) 0 (take 16 (data m))"
  let ?q = "zero_msg\<lparr>InF_source := SELF, InF_target := get_add_sel_target_interface,
      netfn := NETFN_STORAGE_REQ, cmd := CMD_STORAGE_ADD_SEL, data_len := 16, data := ?d\<rparr>"
  have wq: "wf_msg ?q" using m by (simp add: wf_msg_def zero_msg_def)
  obtain e r s' where q: "ipmb_read (sel_send ev) (sel_rxq_init ev) (sel_read_mutex_init ev)
      (sel_read_lock ev) (sel_got ev) (sel_clear_lock ev) (Some ?q) j s = Some (e, r, s')"
    "chan_ready s' (unat j)" "IPMB_inf_index_map s' = IPMB_inf_index_map s"
    using ipmb_read_runs [OF j(2) stk wq, of "sel_rxq_init ev" "sel_read_mutex_init ev" "sel_read_lock ev"
        "sel_got ev" "sel_clear_lock ev"] by auto
  have cp: "memcpy (data zero_msg) 0 (data m) 0 16 = Some ?d"
    using m by (simp add: zero_msg_def)
  have j': "load (IPMB_inf_index_map s) (unat get_add_sel_target_interface) = Some j"
    using j(1) by (simp add: get_add_sel_target_interface_def)
  have er: "chan_ready (emit x s) (unat j) = chan_ready s (unat j)" for x
    by (simp add: chan_ready_def)
  show ?thesis
  proof (cases "data_len m \<noteq> 16 \<or> \<not> sel_malloc ev")
    case True
    then show ?thesis
      using m j(2) by (auto simp: STORAGE_ADD_SEL_def good_answer_def wf_msg_def same_route_def)
  next
    case False
    with q cp j' m j(2) er show ?thesis
      by (auto simp: STORAGE_ADD_SEL_def Let_def good_answer_def wf_msg_def same_route_def simp del: memcpy_Some)
  qed
qed

lemma storage_handler_runs:
  assumes "storage_ok st" and m: "wf_msg m"
  shows "\<exists>st' m'. storage_run st m = Some (st', m') \<and> storage_ok st' \<and> good_answer 257 m m'"
proof -
  obtain p junk ev w s where st: "st = (p, junk, ev, w, s)" by (cases st) auto
  obtain j where a: "storage_plat_ok p" "32 \<le> length junk" "wf_msg (buffer (stk (sel_send ev)))"
    "load (IPMB_inf_index_map s) (unat BMC_IPMB) = Some j" "chan_ready s (unat j)"
    using assms(1) by (auto simp: storage_ok_def st)
  have inv: "good_answer 257 m (m\<lparr>data_len := 0, completion_code := CC_INVALID_CMD\<rparr>)"
    using m by (simp add: good_answer_def wf_msg_def same_route_def)
  note defs = storage_run_def IPMI_Storage_handler_def storage_ok_def st Let_def
  consider "cmd m = CMD_STORAGE_GET_FRUID_INFO" | "cmd m = CMD_STORAGE_READ_FRUID_DATA"
    | "cmd m = CMD_STORAGE_WRITE_FRUID_DATA" | "cmd m = CMD_STORAGE_RSV_SDR"
    | "cmd m = CMD_STORAGE_GET_SDR" | "cmd m = CMD_STORAGE_ADD_SEL"
    | "cmd m \<notin> {CMD_STORAGE_GET_FRUID_INFO, CMD_STORAGE_READ_FRUID_DATA, CMD_STORAGE_WRITE_FRUID_DATA,
        CMD_STORAGE_RSV_SDR, CMD_STORAGE_GET_SDR, CMD_STORAGE_ADD_SEL}" by blast
  then show ?thesis
  proof cases
    case 1
    then show ?thesis using good_GET_FRUID_INFO [OF m, of p] a by (auto simp: defs simp del: load_Some)
  next
    case 2
    then show ?thesis using good_READ_FRUID_DATA [OF a(1) m, of junk w] a by (auto simp: defs simp del: load_Some)
  next
    case 3
    then show ?thesis using good_WRITE_FRUID_DATA [OF a(2) m, of p w] a by (auto simp: defs simp del: load_Some)
  next
    case 4
    then show ?thesis
      using good_RSV_SDR [OF m, of p w] a by (auto simp: defs split_beta simp del: load_Some)
  next
    case 5
    then show ?thesis using good_GET_SDR [OF a(1) m, of w] a by (auto simp: defs simp del: load_Some)
  next
    case 6
    then show ?thesis using good_ADD_SEL [OF m a(3-5)] a by (auto simp: defs simp del: load_Some)
  next
    case 7
    then show ?thesis using inv a by (auto simp: defs simp del: load_Some)
  qed
qed

interpretation storage: fallible_handler storage_run storage_ok 257
proof unfold_locales
  fix st :: "'w storage_plat \<times> u8 list \<times> sel_env \<times> 'w \<times> ipmb_st" and m
  assume "storage_ok st" "wf_msg m"
  then show "\<exists>st' m'. storage_run st m = Some (st', m') \<and> storage_ok st' \<and> wf_msg m' \<and> same_route m m' \<and>
      (completion_code m' = CC_SUCCESS \<longrightarrow> unat (data_len m') \<le> 257)"
    using storage_handler_runs [of st m] by (auto simp: good_answer_def)
qed

definition sensor_run ::
    "'w sensor_plat \<times> 'w \<Rightarrow> ipmi_msg \<Rightarrow> ('w sensor_plat \<times> 'w) \<times> ipmi_msg" where
  "sensor_run st m = (case IPMI_SENSOR_handler (fst st) (snd st) m of (w, m') \<Rightarrow> ((fst st, w), m'))"

lemma SENSOR_GET_SENSOR_READING_good:
  "wf_msg m \<Longrightarrow> good_answer 3 m (snd (SENSOR_GET_SENSOR_READING p w m))"
  by (auto simp: SENSOR_GET_SENSOR_READING_def good_answer_def sensor_answer_def wf_msg_def same_route_def Let_def
      split: prod.splits sensor_status.splits)

lemma SENSOR_GET_SENSOR_READING_route: "same_route m (snd (SENSOR_GET_SENSOR_READING p w m))"
  by (auto simp: SENSOR_GET_SENSOR_READING_def sensor_answer_def same_route_def Let_def
      split: prod.splits sensor_status.splits)

interpretation sensor: command_handler sensor_run 3
proof unfold_locales
  fix st :: "'w sensor_plat \<times> 'w" and m
  show "same_route m (snd (sensor_run st m))"
    using SENSOR_GET_SENSOR_READING_route [of m "fst st" "snd st"]
    by (auto simp: sensor_run_def IPMI_SENSOR_handler_def split: prod.splits) (simp add: same_route_def)
  assume m: "wf_msg m"
  note g = SENSOR_GET_SENSOR_READING_good [OF m, of "fst st" "snd st"]
  show "wf_msg (snd (sensor_run st m))"
    using g m by (auto simp: sensor_run_def IPMI_SENSOR_handler_def good_answer_def wf_msg_def split: prod.splits)
  assume "completion_code (snd (sensor_run st m)) = CC_SUCCESS"
  then show "unat (data_len (snd (sensor_run st m))) \<le> 3"
    using g by (auto simp: sensor_run_def IPMI_SENSOR_handler_def good_answer_def split: prod.splits if_splits)
qed

section \<open>A concrete platform\<close>

text \<open>One FRU device whose memory is a function from offsets to bytes, and one SDR record.\<close>

definition demo_plat :: "(u16 \<Rightarrow> u8) storage_plat" where
  "demo_plat = \<lparr>MAX_FRU_ID = 1, find_FRU_size = \<lambda>_. 0x400, get_FRU_access = \<lambda>_. 0,
     FRU_read = \<lambda>e w. if fru_data_len e \<le> 32
       then (FRU_READ_SUCCESS, e\<lparr>fru_data := map (\<lambda>i. w (fru_offset e + of_nat i)) [0..<32]\<rparr>, w)
       else (FRU_OUT_OF_RANGE, e\<lparr>fru_data := replicate 32 0\<rparr>, w),
     FRU_write = \<lambda>e w. if fru_data_len e \<le> 32
       then (FRU_WRITE_SUCCESS, \<lambda>a. if a - fru_offset e < fru_data_len e
               then fru_data e ! unat (a - fru_offset e) else w a)
       else (FRU_OUT_OF_RANGE, w),
     SDR_get_RSV_ID = \<lambda>_ w. (1, w), SDR_RSV_ID_check = \<lambda>r _ _. r = 1,
     SDR_check_record_ID = \<lambda>r. r = 0, SDR_get_record_ID = \<lambda>_. 0xFFFF,
     full_sdr_table = \<lambda>_. replicate 64 7, sdr_record_len = \<lambda>_. 59, IPMI_SDR_HEADER_LEN = 5\<rparr>"

definition demo_sel :: sel_env where
  "demo_sel = \<lparr>sel_malloc = True, sel_use_ipmb = \<lambda>_. True, sel_send = demo_send, sel_rxq_init = True,
     sel_read_mutex_init = True, sel_read_lock = -11, sel_got = None, sel_clear_lock = 0\<rparr>"

lemma demo_plat_ok: "storage_plat_ok demo_plat"
  by (simp add: storage_plat_ok_def demo_plat_def)

lemma demo_storage_ok: "storage_ok (demo_plat, replicate 32 0, demo_sel, \<lambda>_. 0, demo_st 2)"
proof -
  have "pending (demo_heap 2 (\<lambda>_. 7)) (demo_chan 2) (map (demo_req (\<lambda>_. 7)) [0..<2])"
    by (rule pending_demo) simp
  then show ?thesis
    using demo_plat_ok
    by (auto simp: storage_ok_def demo_sel_def demo_send_def demo_node_def demo_st_def chan_ready_def)
qed

section \<open>Properties\<close>

text \<open>C31. Storage commands never leave their buffers: on a platform whose FRU and SDR services keep
  their contract, every sequence of well-formed requests runs through without undefined behaviour;
  each answer keeps the routing fields of its request, and a successful one is at most 257 bytes
  long.\<close>

theorem storage_commands_safe:
  assumes "storage_ok (p, junk, ev, w, s)" and "\<forall>m \<in> set ms. wf_msg m"
  shows "\<exists>st' rs. run_all storage_run (p, junk, ev, w, s) ms = Some (st', rs) \<and> storage_ok st' \<and>
    list_all2 same_route ms rs \<and>
    (\<forall>r \<in> set rs. wf_msg r \<and> (completion_code r = CC_SUCCESS \<longrightarrow> unat (data_len r) \<le> 257))"
  using assms by (rule storage.handler_sequence)

theorem storage_commands_safe_witness:
  "\<exists>st' rs. run_all storage_run (demo_plat, replicate 32 0, demo_sel, \<lambda>_. 0, demo_st 2)
      [zero_msg\<lparr>cmd := CMD_STORAGE_RSV_SDR\<rparr>, zero_msg\<lparr>cmd := CMD_STORAGE_ADD_SEL, data_len := 16\<rparr>] = Some (st', rs) \<and>
    storage_ok st' \<and>
    list_all2 same_route [zero_msg\<lparr>cmd := CMD_STORAGE_RSV_SDR\<rparr>, zero_msg\<lparr>cmd := CMD_STORAGE_ADD_SEL, data_len := 16\<rparr>] rs \<and>
    (\<forall>r \<in> set rs. wf_msg r \<and> (completion_code r = CC_SUCCESS \<longrightarrow> unat (data_len r) \<le> 257))"
  by (rule storage_commands_safe [OF demo_storage_ok]) (simp add: wf_msg_def zero_msg_def)

text \<open>What writing and reading back means for the FRU services.\<close>

definition fru_keeps :: "'w storage_plat \<Rightarrow> bool" where
  "fru_keeps p \<longleftrightarrow> (\<forall>e e' w w'. FRU_write p e w = (FRU_WRITE_SUCCESS, w') \<and> 32 \<le> length (fru_data e) \<and>
     fru_dev_id e' = fru_dev_id e \<and> fru_offset e' = fru_offset e \<and> fru_data_len e' = fru_data_len e \<longrightarrow>
     (\<exists>d w''. FRU_read p e' w' = (FRU_READ_SUCCESS, e'\<lparr>fru_data := d\<rparr>, w'') \<and> 32 \<le> length d \<and>
       take (unat (fru_data_len e)) d = take (unat (fru_data_len e)) (fru_data e)))"

lemma demo_fru_keeps: "fru_keeps demo_plat"
  unfolding fru_keeps_def
proof (intro allI impI, elim conjE)
  fix e e' :: fru_entry and w w' :: "u16 \<Rightarrow> u8"
  let ?n = "fru_data_len e" and ?o = "fru_offset e"
  assume a: "FRU_write demo_plat e w = (FRU_WRITE_SUCCESS, w')" "32 \<le> length (fru_data e)"
    "fru_dev_id e' = fru_dev_id e" "fru_offset e' = ?o" "fru_data_len e' = ?n"
  from a(1) have n: "?n \<le> 32" and w': "w' = (\<lambda>x. if x - ?o < ?n then fru_data e ! unat (x - ?o) else w x)"
    by (auto simp: demo_plat_def split: if_splits)
  have un: "unat ?n \<le> 32" using n by (simp add: word_le_nat_alt)
  let ?d = "map (\<lambda>i. w' (?o + of_nat i)) [0..<32]"
  have "take (unat ?n) ?d = take (unat ?n) (fru_data e)"
  proof (rule nth_equalityI)
    show "length (take (unat ?n) ?d) = length (take (unat ?n) (fru_data e))" using un a(2) by simp
    fix i assume "i < length (take (unat ?n) ?d)"
    then have i: "i < unat ?n" "i < 32" using un by auto
    then have "(of_nat i :: u16) < ?n" "unat (of_nat i :: u16) = i"
      by (simp_all add: word_less_nat_alt)
    with i show "take (unat ?n) ?d ! i = take (unat ?n) (fru_data e) ! i" by (simp add: w')
  qed
  then show "\<exists>d w''. FRU_read demo_plat e' w' = (FRU_READ_SUCCESS, e'\<lparr>fru_data := d\<rparr>, w'') \<and> 32 \<le> length d \<and>
      take (unat ?n) d = take (unat ?n) (fru_data e)"
    using a n by (intro exI [of _ ?d] exI [of _ w']) (simp add: demo_plat_def)
qed

lemma fru_completion_success: "fru_completion s st = CC_SUCCESS \<longleftrightarrow> st = s"
  by (auto simp: fru_completion_def)

text \<open>The request data of a message, by its first bytes.\<close>

lemma data_prefix:
  assumes "take n (data m) = xs"
  shows "\<exists>rest. data m = xs @ rest"
  using assms by (metis append_take_drop_id)

lemma STORAGE_WRITE_FRUID_DATA_call:
  assumes m: "wf_msg m" "data_len m = of_nat (3 + length pl)" "1 \<le> length pl" "length pl \<le> 32"
    and d: "take (3 + length pl) (data m) = dev # lo # hi # pl" and junk: "32 \<le> length junk"
  shows "\<exists>e. STORAGE_WRITE_FRUID_DATA p junk w m = (let (status, w') = FRU_write p e w in
      Some (w', m\<lparr>data := (data m)[0 := of_nat (length pl)], data_len := 1,
        completion_code := fru_completion FRU_WRITE_SUCCESS status\<rparr>)) \<and>
    fru_dev_id e = dev \<and> fru_offset e = le16 lo hi \<and> fru_data_len e = of_nat (length pl) \<and>
    32 \<le> length (fru_data e) \<and> take (length pl) (fru_data e) = pl"
proof -
  obtain rest where dm: "data m = dev # lo # hi # pl @ rest" using data_prefix [OF d] by auto
  have p0: "data m ! 0 = dev" "data m ! 1 = lo" "data m ! 2 = hi" by (simp_all add: dm)
  have dl: "data_len m - 3 = of_nat (length pl)" using m(2) by simp
  have u: "unat (of_nat (length pl) :: u16) = length pl" using m(4) by (intro unat_of_nat_u16) simp
  have big: "\<not> data_len m < 4"
  proof -
    have "unat (data_len m) = 3 + length pl" unfolding m(2) using m(4) by (intro unat_of_nat_u16) simp
    then show ?thesis using m(3) by (auto simp: word_less_nat_alt)
  qed
  have le: "\<not> (of_nat (length pl) :: u16) > 32" using u m(4) by (simp add: word_less_nat_alt)
  have pl: "take (length pl) (drop 3 (data m)) = pl"
    by (simp add: dm numeral_3_eq_3)
  have cp: "memcpy junk 0 (data m) 3 (length pl) = Some (blit junk 0 pl)"
    using m junk by (simp add: pl)
  let ?e = "\<lparr>fru_dev_id = dev, fru_offset = le16 lo hi, fru_data_len = of_nat (length pl), fru_data = blit junk 0 pl\<rparr>"
  have tk: "take (length pl) (blit junk 0 pl) = pl" using take_drop_blit [of 0 junk pl] by simp
  have uc: "(ucast (of_nat (length pl) :: u16) :: u8) = of_nat (length pl)"
    using m(4) by (simp add: unsigned_of_nat take_bit_nat_eq_self)
  show ?thesis
    using p0 dl u big le cp tk junk m(4) uc
    by (intro exI [of _ ?e]) (simp add: STORAGE_WRITE_FRUID_DATA_def Let_def del: memcpy_Some)
qed

text \<open>C32. FRU data written over IPMI reads back over IPMI: after a successful Write FRU Data, Read
  FRU Data with the same device, offset and count succeeds and returns the count followed by the
  bytes written.\<close>

theorem fru_write_read_roundtrip:
  assumes p: "fru_keeps p" and junk: "32 \<le> length junk"
    and m1: "wf_msg m1" "data_len m1 = of_nat (3 + length pl)" "1 \<le> length pl" "length pl \<le> 32"
      "take (3 + length pl) (data m1) = dev # lo # hi # pl"
    and wr: "STORAGE_WRITE_FRUID_DATA p junk w m1 = Some (w', r1)" "completion_code r1 = CC_SUCCESS"
    and m2: "wf_msg m2" "data_len m2 = 4" "take 4 (data m2) = [dev, lo, hi, of_nat (length pl)]"
  shows "\<exists>w'' r2. STORAGE_READ_FRUID_DATA p junk' w' m2 = Some (w'', r2) \<and>
    completion_code r2 = CC_SUCCESS \<and> msg_bytes r2 = of_nat (length pl) # pl"
proof -
  let ?n = "of_nat (length pl) :: u16"
  obtain e where e: "STORAGE_WRITE_FRUID_DATA p junk w m1 = (let (status, w') = FRU_write p e w in
      Some (w', m1\<lparr>data := (data m1)[0 := of_nat (length pl)], data_len := 1,
        completion_code := fru_completion FRU_WRITE_SUCCESS status\<rparr>))"
    "fru_dev_id e = dev" "fru_offset e = le16 lo hi" "fru_data_len e = ?n"
    "32 \<le> length (fru_data e)" "take (length pl) (fru_data e) = pl"
    using STORAGE_WRITE_FRUID_DATA_call [OF m1 junk, of p w] by blast
  have w: "FRU_write p e w = (FRU_WRITE_SUCCESS, w')"
  proof (cases "FRU_write p e w")
    case (Pair st w1)
    then have "w' = w1" "completion_code r1 = fru_completion FRU_WRITE_SUCCESS st"
      using wr(1) e(1) by (auto simp: Let_def)
    then show ?thesis using Pair wr(2) by (simp add: fru_completion_success)
  qed
  have u: "unat ?n = length pl" using m1(4) by (intro unat_of_nat_u16) simp
  obtain rest where dm: "data m2 = dev # lo # hi # of_nat (length pl) # rest" using data_prefix [OF m2(3)] by auto
  have q: "data m2 ! 0 = dev" "data m2 ! 1 = lo" "data m2 ! 2 = hi" "data m2 ! 3 = of_nat (length pl)"
    by (simp_all add: dm)
  let ?e' = "\<lparr>fru_dev_id = dev, fru_offset = le16 lo hi, fru_data_len = ucast (data m2 ! 3), fru_data = junk'\<rparr>"
  have un: "(ucast (data m2 ! 3) :: u16) = ?n"
    using m1(4) by (simp add: q(4) unsigned_of_nat take_bit_nat_eq_self)
  have k: "FRU_write p e w = (FRU_WRITE_SUCCESS, w') \<and> 32 \<le> length (fru_data e) \<and>
      fru_dev_id ?e' = fru_dev_id e \<and> fru_offset ?e' = fru_offset e \<and> fru_data_len ?e' = fru_data_len e"
    using w e un by simp
  obtain d w'' where r: "FRU_read p ?e' w' = (FRU_READ_SUCCESS, ?e'\<lparr>fru_data := d\<rparr>, w'')" "32 \<le> length d"
    "take (length pl) d = pl"
    using p [unfolded fru_keeps_def, rule_format, OF k] e(4,6) u by auto
  have le: "\<not> ?n > 32" using u m1(4) by (simp add: word_less_nat_alt)
  let ?d = "blit ((data m2)[0 := of_nat (length pl)]) 1 pl"
  have cp: "memcpy ((data m2)[0 := of_nat (length pl)]) 1 d 0 (length pl) = Some ?d"
    using m2(1) m1(4) r by simp
  have ub: "unat (?n + 1) = Suc (length pl)" using u m1(4) by (simp add: unat_word_ariths)
  have uc: "(ucast ?n :: u8) = of_nat (length pl)" using m1(4) by (simp add: unsigned_of_nat take_bit_nat_eq_self)
  have res: "STORAGE_READ_FRUID_DATA p junk' w' m2 = Some (w'', m2\<lparr>data_len := ?n + 1, data := ?d,
      completion_code := CC_SUCCESS\<rparr>)"
    using m2(2) q(1-3) un r(1) le cp u uc
    by (simp add: STORAGE_READ_FRUID_DATA_def Let_def fru_completion_def del: memcpy_Some)
  have "take (Suc (length pl)) ?d = of_nat (length pl) # pl" by (simp add: blit_def dm)
  with res ub show ?thesis by (simp add: msg_bytes_def)
qed

theorem fru_write_read_roundtrip_witness:
  "\<exists>w' r1 w'' r2.
    STORAGE_WRITE_FRUID_DATA demo_plat (replicate 32 0) (\<lambda>_. 0)
      (zero_msg\<lparr>data := [0, 0x10, 0, 0xAA, 0xBB] @ replicate 522 0, data_len := 5\<rparr>) = Some (w', r1) \<and>
    STORAGE_READ_FRUID_DATA demo_plat [] w'
      (zero_msg\<lparr>data := [0, 0x10, 0, 2] @ replicate 523 0, data_len := 4\<rparr>) = Some (w'', r2) \<and>
    msg_bytes r2 = [2, 0xAA, 0xBB]"
proof -
  let ?m1 = "zero_msg\<lparr>data := [0, 0x10, 0, 0xAA, 0xBB] @ replicate 522 0, data_len := 5\<rparr>"
  let ?m2 = "zero_msg\<lparr>data := [0, 0x10, 0, 2] @ replicate 523 0, data_len := 4\<rparr>"
  let ?pl = "[0xAA, 0xBB :: u8]"
  have j: "32 \<le> length (replicate 32 (0 :: u8))" by simp
  have m1: "wf_msg ?m1" "data_len ?m1 = of_nat (3 + length ?pl)" "1 \<le> length ?pl" "length ?pl \<le> 32"
    "take (3 + length ?pl) (data ?m1) = 0 # 0x10 # 0 # ?pl"
    by (simp_all add: wf_msg_def zero_msg_def)
  have m2: "wf_msg ?m2" "data_len ?m2 = 4" "take 4 (data ?m2) = [0, 0x10, 0, of_nat (length ?pl)]"
    by (simp_all add: wf_msg_def zero_msg_def)
  obtain e where e: "STORAGE_WRITE_FRUID_DATA demo_plat (replicate 32 0) (\<lambda>_. 0) ?m1 =
      (let (status, w') = FRU_write demo_plat e (\<lambda>_. 0) in
        Some (w', ?m1\<lparr>data := (data ?m1)[0 := of_nat (length ?pl)], data_len := 1,
          completion_code := fru_completion FRU_WRITE_SUCCESS status\<rparr>))" "fru_data_len e = of_nat (length ?pl)"
    using STORAGE_WRITE_FRUID_DATA_call [OF m1 j, of demo_plat "\<lambda>_. 0"] by blast
  have "fst (FRU_write demo_plat e (\<lambda>_. 0)) = FRU_WRITE_SUCCESS"
    using e(2) by (simp add: demo_plat_def)
  then obtain w' r1 where w: "STORAGE_WRITE_FRUID_DATA demo_plat (replicate 32 0) (\<lambda>_. 0) ?m1 = Some (w', r1)"
    "completion_code r1 = CC_SUCCESS"
    using e(1) by (cases "FRU_write demo_plat e (\<lambda>_. 0)") (auto simp: fru_completion_success)
  from fru_write_read_roundtrip [OF demo_fru_keeps j m1 w m2, of "[]"] w show ?thesis by auto
qed

text \<open>When the read mutex of the IPMB layer cannot be obtained, \<open>ipmb_read\<close> sends nothing and
  returns \<open>IPMB_ERROR_MUTEX_LOCK\<close>; \<open>STORAGE_ADD_SEL\<close> does not test for that value and reports
  success for an event record that was never sent.\<close>

theorem add_sel_lost_but_successful:
  assumes "wf_msg m" "data_len m = 16" "sel_malloc ev" "sel_rxq_init ev" "sel_read_mutex_init ev"
    and "sel_read_lock ev \<noteq> 0"
    and "load (IPMB_inf_index_map s) (unat BMC_IPMB) = Some j" "unat j < length (ip_chans s)" "sel_use_ipmb ev j"
  shows "STORAGE_ADD_SEL ev s m = Some (s, m\<lparr>data_len := 0, completion_code := CC_SUCCESS\<rparr>)"
proof -
  have cp: "memcpy (data zero_msg) 0 (data m) 0 16 = Some (blit (data zero_msg) 0 (take 16 (data m)))"
    using assms(1) by (simp add: zero_msg_def)
  show ?thesis
    using assms(2-) cp
    by (simp add: STORAGE_ADD_SEL_def Let_def ipmb_read_def get_add_sel_target_interface_def del: memcpy_Some)
qed

theorem add_sel_lost_but_successful_witness:
  "STORAGE_ADD_SEL demo_sel (demo_st 2) (zero_msg\<lparr>data_len := 16\<rparr>) =
    Some (demo_st 2, zero_msg\<lparr>data_len := 0, completion_code := CC_SUCCESS\<rparr>)"
  using add_sel_lost_but_successful [of "zero_msg\<lparr>data_len := 16\<rparr>" demo_sel "demo_st 2" 0]
  by (simp add: wf_msg_def zero_msg_def demo_sel_def demo_st_def)

end
