(* ===== verification/Oem_Handler.thy ===== *)
theory Oem_Handler
  imports Storage_Handler
begin

text \<open>
  The command handlers of \<open>samples/ipmi_openbic/src/ipmi/oem_handler.c\<close>. Fan control, the system
  GUID and the power reading of the hot swap controller belong to the platform and are fields of
  a record of services over a state \<open>'w\<close>; the two build options of the file are fields of it too.
\<close>

datatype guid_status =
    GUID_WRITE_SUCCESS | GUID_INVALID_ID | GUID_OUT_OF_RANGE | GUID_FAIL_TO_ACCESS | GUID_OTHER_STATUS

record 'w oem_plat =
  CONFIG_ESPI :: bool
  ENABLE_FAN :: bool
  hsc_pwr_reading :: "'w \<Rightarrow> sensor_status \<times> int \<times> 'w"
  set_system_guid :: "u16 \<Rightarrow> u8 list \<Rightarrow> 'w \<Rightarrow> guid_status \<times> u16 \<times> u8 list \<times> 'w"
  pal_get_fan_ctrl_mode :: "'w \<Rightarrow> int \<times> u8 \<times> 'w"
  pal_set_fan_ctrl_mode :: "u8 \<Rightarrow> 'w \<Rightarrow> 'w"
  pal_set_fan_duty :: "u8 \<Rightarrow> u8 \<Rightarrow> u8 \<Rightarrow> 'w \<Rightarrow> int \<times> 'w"
  MAX_FAN_DUTY_VALUE :: u8
  MAX_FAN_PWM_INDEX_COUNT :: nat
  INDEX_ALL_PWM :: u8
  FAN_MANUAL_MODE :: u8
  FAN_AUTO_MODE :: u8
  FAN_SET_MANUAL_MODE :: u8
  FAN_SET_AUTO_MODE :: u8
  FAN_GET_MODE :: u8

text \<open>The weak default of \<open>get_hsc_pwr_reading\<close>: the reading is left as it was.\<close>

definition get_hsc_pwr_reading_weak :: "int \<Rightarrow> 'w \<Rightarrow> sensor_status \<times> int \<times> 'w" where
  "get_hsc_pwr_reading_weak reading w = (SENSOR_NOT_FOUND, reading, w)"

definition OEM_NM_SENSOR_READ :: "'w oem_plat \<Rightarrow> 'w \<Rightarrow> ipmi_msg \<Rightarrow> 'w \<times> ipmi_msg" where
  "OEM_NM_SENSOR_READ p w msg =
     (if data_len msg < 3 then (w, msg\<lparr>completion_code := CC_INVALID_LENGTH\<rparr>)
      else if data msg ! 0 \<noteq> 0x00 then (w, msg\<lparr>completion_code := CC_INVALID_DATA_FIELD\<rparr>)
      else
        let (status, reading, w) = hsc_pwr_reading p w;
            ok = msg\<lparr>data := (data msg)[1 := word_of_int reading, 2 := word_of_int (reading div 256)],
                     data_len := 3, completion_code := CC_SUCCESS\<rparr> in
        (w, case status of
           SENSOR_READ_SUCCESS \<Rightarrow> ok
         | SENSOR_READ_ACUR_SUCCESS \<Rightarrow> ok
         | SENSOR_READ_4BYTE_ACUR_SUCCESS \<Rightarrow> ok
         | SENSOR_FAIL_TO_ACCESS \<Rightarrow> msg\<lparr>completion_code := CC_NODE_BUSY\<rparr>
         | SENSOR_NOT_ACCESSIBLE \<Rightarrow> msg\<lparr>completion_code := CC_NOT_SUPP_IN_CURR_STATE\<rparr>
         | SENSOR_NOT_FOUND \<Rightarrow> msg\<lparr>completion_code := CC_INVALID_DATA_FIELD\<rparr>
         | _ \<Rightarrow> msg\<lparr>completion_code := CC_UNSPECIFIED_ERROR\<rparr>))"

definition OEM_SET_SYSTEM_GUID :: "'w oem_plat \<Rightarrow> 'w \<Rightarrow> ipmi_msg \<Rightarrow> 'w \<times> ipmi_msg" where
  "OEM_SET_SYSTEM_GUID p w msg =
     (if data_len msg \<noteq> 16 then (w, msg\<lparr>completion_code := CC_INVALID_LENGTH\<rparr>)
      else
        let (status, len, d, w) = set_system_guid p (data_len msg) (data msg) w;
            msg = msg\<lparr>data_len := len, data := d\<rparr>;
            msg = msg\<lparr>completion_code := (case status of
                GUID_WRITE_SUCCESS \<Rightarrow> CC_SUCCESS
              | GUID_INVALID_ID \<Rightarrow> CC_INVALID_PARAM
              | GUID_OUT_OF_RANGE \<Rightarrow> CC_PARAM_OUT_OF_RANGE
              | GUID_FAIL_TO_ACCESS \<Rightarrow> CC_UNSPECIFIED_ERROR
              | GUID_OTHER_STATUS \<Rightarrow> CC_UNSPECIFIED_ERROR)\<rparr> in
        (w, msg\<lparr>data_len := 0\<rparr>))"

text \<open>The loop over all PWM outputs, which stops at the first error.\<close>

fun set_all_duties :: "'w oem_plat \<Rightarrow> u8 \<Rightarrow> u8 \<Rightarrow> nat list \<Rightarrow> 'w \<Rightarrow> bool \<times> 'w" where
  "set_all_duties p duty slot_index [] w = (True, w)"
| "set_all_duties p duty slot_index (i # is) w =
     (let (ret, w) = pal_set_fan_duty p (of_nat i) duty slot_index w in
      if ret < 0 then (False, w) else set_all_duties p duty slot_index is w)"

definition OEM_SET_FAN_DUTY_MANUAL :: "'w oem_plat \<Rightarrow> 'w \<Rightarrow> ipmi_msg \<Rightarrow> 'w \<times> ipmi_msg" where
  "OEM_SET_FAN_DUTY_MANUAL p w msg =
     (if data_len msg \<noteq> 2 then (w, msg\<lparr>completion_code := CC_INVALID_LENGTH\<rparr>)
      else
        let pwm_id = data msg ! 0; duty = data msg ! 1;
            msg = msg\<lparr>data_len := 0, completion_code := CC_SUCCESS\<rparr> in
        if InF_source msg \<noteq> SLOT1_BIC \<and> InF_source msg \<noteq> SLOT3_BIC
        then (w, msg\<lparr>completion_code := CC_PARAM_OUT_OF_RANGE\<rparr>)
        else
          let slot_index = (if InF_source msg = SLOT1_BIC then INDEX_SLOT1 else INDEX_SLOT3) in
          if duty > MAX_FAN_DUTY_VALUE p \<or>
             unat pwm_id \<ge> MAX_FAN_PWM_INDEX_COUNT p \<and> pwm_id \<noteq> INDEX_ALL_PWM p
          then (w, msg\<lparr>completion_code := CC_PARAM_OUT_OF_RANGE\<rparr>)
          else
            let (ret, current_fan_mode, w) = pal_get_fan_ctrl_mode p w in
            if ret < 0 then (w, msg\<lparr>completion_code := CC_UNSPECIFIED_ERROR\<rparr>)
            else if current_fan_mode \<noteq> FAN_MANUAL_MODE p then (w, msg)
            else if pwm_id = INDEX_ALL_PWM p then
              let (ok, w) = set_all_duties p duty slot_index [0..<MAX_FAN_PWM_INDEX_COUNT p] w in
              (w, if ok then msg else msg\<lparr>completion_code := CC_UNSPECIFIED_ERROR\<rparr>)
            else
              let (ret, w) = pal_set_fan_duty p pwm_id duty slot_index w in
              (w, if ret < 0 then msg\<lparr>completion_code := CC_UNSPECIFIED_ERROR\<rparr> else msg))"

definition OEM_GET_SET_FAN_CTRL_MODE :: "'w oem_plat \<Rightarrow> 'w \<Rightarrow> ipmi_msg \<Rightarrow> 'w \<times> ipmi_msg" where
  "OEM_GET_SET_FAN_CTRL_MODE p w msg =
     (if data_len msg \<noteq> 1 then (w, msg\<lparr>completion_code := CC_INVALID_LENGTH\<rparr>)
      else
        let ctrl_cmd = data msg ! 0;
            msg = msg\<lparr>data_len := 0, completion_code := CC_SUCCESS\<rparr> in
        if ctrl_cmd = FAN_SET_MANUAL_MODE p then (pal_set_fan_ctrl_mode p (FAN_MANUAL_MODE p) w, msg)
        else if ctrl_cmd = FAN_SET_AUTO_MODE p then (pal_set_fan_ctrl_mode p (FAN_AUTO_MODE p) w, msg)
        else if ctrl_cmd = FAN_GET_MODE p then
          let (ret, ctrl_mode_get, w) = pal_get_fan_ctrl_mode p w in
          (w, if ret < 0 then msg\<lparr>completion_code := CC_UNSPECIFIED_ERROR\<rparr>
              else msg\<lparr>data_len := 1, data := (data msg)[0 := ctrl_mode_get]\<rparr>)
        else (w, msg\<lparr>completion_code := CC_PARAM_OUT_OF_RANGE\<rparr>))"

definition OEM_GET_MB_INDEX :: "ipmi_msg \<Rightarrow> ipmi_msg" where
  "OEM_GET_MB_INDEX msg =
     (if data_len msg \<noteq> 0 then msg\<lparr>completion_code := CC_INVALID_LENGTH\<rparr>
      else if InF_source msg = SLOT1_BIC then
        msg\<lparr>data := (data msg)[0 := INDEX_SLOT1], data_len := 1, completion_code := CC_SUCCESS\<rparr>
      else if InF_source msg = SLOT3_BIC then
        msg\<lparr>data := (data msg)[0 := INDEX_SLOT3], data_len := 1, completion_code := CC_SUCCESS\<rparr>
      else msg\<lparr>data_len := 0, completion_code := CC_UNSPECIFIED_ERROR\<rparr>)"

definition OEM_CABLE_DETECTION :: "ipmi_msg \<Rightarrow> ipmi_msg" where
  "OEM_CABLE_DETECTION msg = msg\<lparr>data_len := 0, completion_code := CC_NOT_SUPP_IN_CURR_STATE\<rparr>"

definition OEM_GET_CHASSIS_POSITION :: "ipmi_msg \<Rightarrow> ipmi_msg" where
  "OEM_GET_CHASSIS_POSITION msg = msg\<lparr>data_len := 0, completion_code := CC_NOT_SUPP_IN_CURR_STATE\<rparr>"

definition OEM_GET_HTTP_BOOT_DATA :: "ipmi_msg \<Rightarrow> ipmi_msg" where
  "OEM_GET_HTTP_BOOT_DATA msg = msg\<lparr>data_len := 0, completion_code := CC_NOT_SUPP_IN_CURR_STATE\<rparr>"

definition OEM_GET_HTTP_BOOT_ATTR :: "ipmi_msg \<Rightarrow> ipmi_msg" where
  "OEM_GET_HTTP_BOOT_ATTR msg = msg\<lparr>data_len := 0, completion_code := CC_NOT_SUPP_IN_CURR_STATE\<rparr>"

definition IPMI_OEM_handler :: "'w oem_plat \<Rightarrow> 'w \<Rightarrow> ipmi_msg \<Rightarrow> 'w \<times> ipmi_msg" where
  "IPMI_OEM_handler p w msg =
     (if cmd msg = CMD_OEM_CABLE_DETECTION then (w, OEM_CABLE_DETECTION msg)
      else if CONFIG_ESPI p \<and> cmd msg = CMD_OEM_NM_SENSOR_READ then OEM_NM_SENSOR_READ p w msg
      else if cmd msg = CMD_OEM_SET_SYSTEM_GUID then OEM_SET_SYSTEM_GUID p w msg
      else if ENABLE_FAN p \<and> cmd msg = CMD_OEM_SET_FAN_DUTY_MANUAL then OEM_SET_FAN_DUTY_MANUAL p w msg
      else if ENABLE_FAN p \<and> cmd msg = CMD_OEM_GET_SET_FAN_CTRL_MODE then OEM_GET_SET_FAN_CTRL_MODE p w msg
      else if cmd msg = CMD_OEM_GET_MB_INDEX then (w, OEM_GET_MB_INDEX msg)
      else if cmd msg = CMD_OEM_GET_CHASSIS_POSITION then (w, OEM_GET_CHASSIS_POSITION msg)
      else if cmd msg = CMD_OEM_GET_HTTP_BOOT_DATA then (w, OEM_GET_HTTP_BOOT_DATA msg)
      else if cmd msg = CMD_OEM_GET_HTTP_BOOT_ATTR then (w, OEM_GET_HTTP_BOOT_ATTR msg)
      else (w, msg\<lparr>data_len := 0, completion_code := CC_INVALID_CMD\<rparr>))"

section \<open>The contract\<close>

text \<open>The GUID service works on the data array of the message and keeps its size.\<close>

definition oem_plat_ok :: "'w oem_plat \<Rightarrow> bool" where
  "oem_plat_ok p \<longleftrightarrow> (\<forall>n d w. length (fst (snd (snd (set_system_guid p n d w)))) = length d)"

definition oem_run :: "'w oem_plat \<times> 'w \<Rightarrow> ipmi_msg \<Rightarrow> (('w oem_plat \<times> 'w) \<times> ipmi_msg) option" where
  "oem_run st m = (case IPMI_OEM_handler (fst st) (snd st) m of (w, m') \<Rightarrow> Some ((fst st, w), m'))"

lemma good_answerI:
  "length (data m') = IPMI_MSG_MAX_LENGTH \<Longrightarrow> same_route m m' \<Longrightarrow>
   (completion_code m' = CC_SUCCESS \<Longrightarrow> unat (data_len m') \<le> n) \<Longrightarrow> good_answer n m m'"
  by (simp add: good_answer_def wf_msg_def)

lemma good_NM_SENSOR_READ: "wf_msg m \<Longrightarrow> good_answer 3 m (snd (OEM_NM_SENSOR_READ p w m))"
  by (auto simp: OEM_NM_SENSOR_READ_def Let_def good_answer_def wf_msg_def same_route_def
      split: prod.splits sensor_status.splits)

lemma good_SET_SYSTEM_GUID:
  assumes "oem_plat_ok p" and m: "wf_msg m"
  shows "good_answer 3 m (snd (OEM_SET_SYSTEM_GUID p w m))"
proof -
  obtain st len d w' where g: "set_system_guid p (data_len m) (data m) w = (st, len, d, w')"
    by (cases "set_system_guid p (data_len m) (data m) w") auto
  have "length d = length (data m)"
    using assms(1) [unfolded oem_plat_ok_def, rule_format, of "data_len m" "data m" w] by (simp add: g)
  with m g show ?thesis
    by (auto simp: OEM_SET_SYSTEM_GUID_def Let_def good_answer_def wf_msg_def same_route_def)
qed

lemma good_SET_FAN_DUTY: "wf_msg m \<Longrightarrow> good_answer 3 m (snd (OEM_SET_FAN_DUTY_MANUAL p w m))"
  by (auto simp: OEM_SET_FAN_DUTY_MANUAL_def Let_def split_beta good_answer_def wf_msg_def same_route_def)

lemma good_FAN_CTRL_MODE: "wf_msg m \<Longrightarrow> good_answer 3 m (snd (OEM_GET_SET_FAN_CTRL_MODE p w m))"
  by (auto simp: OEM_GET_SET_FAN_CTRL_MODE_def Let_def split_beta good_answer_def wf_msg_def same_route_def)

lemma good_plain:
  assumes "wf_msg m"
  shows "good_answer 3 m (OEM_GET_MB_INDEX m)" "good_answer 3 m (OEM_CABLE_DETECTION m)"
    "good_answer 3 m (OEM_GET_CHASSIS_POSITION m)" "good_answer 3 m (OEM_GET_HTTP_BOOT_DATA m)"
    "good_answer 3 m (OEM_GET_HTTP_BOOT_ATTR m)"
    "good_answer 3 m (m\<lparr>data_len := 0, completion_code := CC_INVALID_CMD\<rparr>)"
  using assms
  by (auto simp: OEM_GET_MB_INDEX_def OEM_CABLE_DETECTION_def OEM_GET_CHASSIS_POSITION_def
      OEM_GET_HTTP_BOOT_DATA_def OEM_GET_HTTP_BOOT_ATTR_def good_answer_def wf_msg_def same_route_def)

lemma IPMI_OEM_handler_good:
  assumes "oem_plat_ok p" and "wf_msg m"
  shows "good_answer 3 m (snd (IPMI_OEM_handler p w m))"
  unfolding IPMI_OEM_handler_def
  using good_NM_SENSOR_READ [OF assms(2)] good_SET_SYSTEM_GUID [OF assms] good_SET_FAN_DUTY [OF assms(2)]
    good_FAN_CTRL_MODE [OF assms(2)] good_plain [OF assms(2)]
  by auto

interpretation oem: fallible_handler oem_run "\<lambda>st. oem_plat_ok (fst st)" 3
proof unfold_locales
  fix st :: "'w oem_plat \<times> 'w" and m
  assume "oem_plat_ok (fst st)" "wf_msg m"
  from IPMI_OEM_handler_good [OF this, of "snd st"] \<open>oem_plat_ok (fst st)\<close>
  show "\<exists>st' m'. oem_run st m = Some (st', m') \<and> oem_plat_ok (fst st') \<and> wf_msg m' \<and> same_route m m' \<and>
      (completion_code m' = CC_SUCCESS \<longrightarrow> unat (data_len m') \<le> 3)"
    by (cases "IPMI_OEM_handler (fst st) (snd st) m") (auto simp: oem_run_def good_answer_def)
qed

section \<open>What reaches the fans\<close>

text \<open>The calls of the platform's fan services, with their results. \<open>logged p\<close> is the platform \<open>p\<close>
  itself, whose fan services also write every call into a log that the handlers cannot see.\<close>

datatype fan_call =
    Mode_read int u8
  | Mode_set u8
  | Duty_set u8 u8 u8 int

definition logged :: "'w oem_plat \<Rightarrow> ('w \<times> fan_call list) oem_plat" where
  "logged p = \<lparr>CONFIG_ESPI = CONFIG_ESPI p, ENABLE_FAN = ENABLE_FAN p,
     hsc_pwr_reading = \<lambda>(w, l). (let (s, r, w) = hsc_pwr_reading p w in (s, r, w, l)),
     set_system_guid = \<lambda>n d (w, l). (let (s, n, d, w) = set_system_guid p n d w in (s, n, d, w, l)),
     pal_get_fan_ctrl_mode = \<lambda>(w, l). (let (ret, mode, w) = pal_get_fan_ctrl_mode p w in (ret, mode, w, l @ [Mode_read ret mode])),
     pal_set_fan_ctrl_mode = \<lambda>mode (w, l). (pal_set_fan_ctrl_mode p mode w, l @ [Mode_set mode]),
     pal_set_fan_duty = \<lambda>i duty slot (w, l). (let (ret, w) = pal_set_fan_duty p i duty slot w in (ret, w, l @ [Duty_set i duty slot ret])),
     MAX_FAN_DUTY_VALUE = MAX_FAN_DUTY_VALUE p, MAX_FAN_PWM_INDEX_COUNT = MAX_FAN_PWM_INDEX_COUNT p,
     INDEX_ALL_PWM = INDEX_ALL_PWM p, FAN_MANUAL_MODE = FAN_MANUAL_MODE p, FAN_AUTO_MODE = FAN_AUTO_MODE p,
     FAN_SET_MANUAL_MODE = FAN_SET_MANUAL_MODE p, FAN_SET_AUTO_MODE = FAN_SET_AUTO_MODE p, FAN_GET_MODE = FAN_GET_MODE p\<rparr>"

lemma logged_oem_plat_ok: "oem_plat_ok p \<Longrightarrow> oem_plat_ok (logged p)"
  by (auto simp: oem_plat_ok_def logged_def split_beta)

text \<open>The specification, request by request. A duty request is admissible when it comes from one of
  the two slots, has both bytes, and names a duty and an output (or all outputs) of the platform.
  It first asks for the mode, and only manual mode lets it set its outputs, in order and up to the
  first failure.\<close>

definition duty_admissible :: "'w oem_plat \<Rightarrow> ipmi_msg \<Rightarrow> bool" where
  "duty_admissible p m \<longleftrightarrow> InF_source m \<in> {SLOT1_BIC, SLOT3_BIC} \<and> data m ! 1 \<le> MAX_FAN_DUTY_VALUE p \<and>
     (unat (data m ! 0) < MAX_FAN_PWM_INDEX_COUNT p \<or> data m ! 0 = INDEX_ALL_PWM p)"

definition duty_outputs :: "'w oem_plat \<Rightarrow> ipmi_msg \<Rightarrow> u8 list" where
  "duty_outputs p m = (if data m ! 0 = INDEX_ALL_PWM p then map of_nat [0..<MAX_FAN_PWM_INDEX_COUNT p] else [data m ! 0])"

definition duties_written :: "'w oem_plat \<Rightarrow> ipmi_msg \<Rightarrow> u8 \<Rightarrow> fan_call list \<Rightarrow> bool" where
  "duties_written p m cc calls \<longleftrightarrow> (\<exists>rets.
     calls = map (\<lambda>(i, ret). Duty_set i (data m ! 1) (if InF_source m = SLOT1_BIC then INDEX_SLOT1 else INDEX_SLOT3) ret)
       (zip (duty_outputs p m) rets) \<and>
     (if cc = CC_SUCCESS then length rets = length (duty_outputs p m) \<and> (\<forall>ret \<in> set rets. 0 \<le> ret)
      else cc = CC_UNSPECIFIED_ERROR \<and> length rets \<le> length (duty_outputs p m) \<and> rets \<noteq> [] \<and>
        last rets < 0 \<and> (\<forall>ret \<in> set (butlast rets). 0 \<le> ret)))"

definition duty_calls :: "'w oem_plat \<Rightarrow> ipmi_msg \<Rightarrow> ipmi_msg \<Rightarrow> fan_call list \<Rightarrow> bool" where
  "duty_calls p m r calls \<longleftrightarrow>
     (if data_len m \<noteq> 2 then calls = [] \<and> r = m\<lparr>completion_code := CC_INVALID_LENGTH\<rparr>
      else if \<not> duty_admissible p m then calls = [] \<and> r = m\<lparr>data_len := 0, completion_code := CC_PARAM_OUT_OF_RANGE\<rparr>
      else \<exists>ret mode rest. calls = Mode_read ret mode # rest \<and> r = m\<lparr>data_len := 0, completion_code := completion_code r\<rparr> \<and>
        (if ret < 0 then rest = [] \<and> completion_code r = CC_UNSPECIFIED_ERROR
         else if mode = FAN_MANUAL_MODE p then duties_written p m (completion_code r) rest
         else rest = [] \<and> completion_code r = CC_SUCCESS))"

definition mode_calls :: "'w oem_plat \<Rightarrow> ipmi_msg \<Rightarrow> ipmi_msg \<Rightarrow> fan_call list \<Rightarrow> bool" where
  "mode_calls p m r calls \<longleftrightarrow>
     (if data_len m \<noteq> 1 then calls = [] \<and> r = m\<lparr>completion_code := CC_INVALID_LENGTH\<rparr>
      else if data m ! 0 = FAN_SET_MANUAL_MODE p
        then calls = [Mode_set (FAN_MANUAL_MODE p)] \<and> r = m\<lparr>data_len := 0, completion_code := CC_SUCCESS\<rparr>
      else if data m ! 0 = FAN_SET_AUTO_MODE p
        then calls = [Mode_set (FAN_AUTO_MODE p)] \<and> r = m\<lparr>data_len := 0, completion_code := CC_SUCCESS\<rparr>
      else if data m ! 0 = FAN_GET_MODE p then
        \<exists>ret mode. calls = [Mode_read ret mode] \<and>
          r = (if ret < 0 then m\<lparr>data_len := 0, completion_code := CC_UNSPECIFIED_ERROR\<rparr>
               else m\<lparr>data_len := 1, data := (data m)[0 := mode], completion_code := CC_SUCCESS\<rparr>)
      else calls = [] \<and> r = m\<lparr>data_len := 0, completion_code := CC_PARAM_OUT_OF_RANGE\<rparr>)"

definition fan_calls :: "'w oem_plat \<Rightarrow> ipmi_msg \<Rightarrow> ipmi_msg \<Rightarrow> fan_call list \<Rightarrow> bool" where
  "fan_calls p m r calls \<longleftrightarrow>
     (if ENABLE_FAN p \<and> cmd m = CMD_OEM_SET_FAN_DUTY_MANUAL then duty_calls p m r calls
      else if ENABLE_FAN p \<and> cmd m = CMD_OEM_GET_SET_FAN_CTRL_MODE then mode_calls p m r calls
      else calls = [])"

text \<open>The duty loop on the logged platform runs as on the platform, and logs its calls.\<close>

lemma set_all_duties_logged:
  "\<exists>w' ok rets. set_all_duties p duty slot ixs w = (ok, w') \<and>
     set_all_duties (logged p) duty slot ixs (w, l) =
       (ok, w', l @ map (\<lambda>(i, ret). Duty_set i duty slot ret) (zip (map of_nat ixs) rets)) \<and>
     (if ok then length rets = length ixs \<and> (\<forall>ret \<in> set rets. 0 \<le> ret)
      else length rets \<le> length ixs \<and> rets \<noteq> [] \<and> last rets < 0 \<and> (\<forall>ret \<in> set (butlast rets). 0 \<le> ret))"
proof (induction ixs arbitrary: w l)
  case Nil
  show ?case by (intro exI [of _ w] exI [of _ True] exI [of _ "[]"]) simp
next
  case (Cons i ixs)
  obtain ret w1 where c: "pal_set_fan_duty p (of_nat i) duty slot w = (ret, w1)"
    by (cases "pal_set_fan_duty p (of_nat i) duty slot w") auto
  from Cons [of w1 "l @ [Duty_set (of_nat i) duty slot ret]"] obtain w' ok rets where
    "set_all_duties p duty slot ixs w1 = (ok, w')"
    "set_all_duties (logged p) duty slot ixs (w1, l @ [Duty_set (of_nat i) duty slot ret]) =
       (ok, w', (l @ [Duty_set (of_nat i) duty slot ret]) @ map (\<lambda>(i, ret). Duty_set i duty slot ret) (zip (map of_nat ixs) rets))"
    "if ok then length rets = length ixs \<and> (\<forall>ret \<in> set rets. 0 \<le> ret)
      else length rets \<le> length ixs \<and> rets \<noteq> [] \<and> last rets < 0 \<and> (\<forall>ret \<in> set (butlast rets). 0 \<le> ret)"
    by blast
  then show ?case
    by (cases "ret < 0") (intro exI [of _ "if ret < 0 then w1 else w'"] exI [of _ "\<not> ret < 0 \<and> ok"]
        exI [of _ "if ret < 0 then [ret] else ret # rets"]; simp add: c logged_def split: if_splits)+
qed

lemma duty_command_admissible:
  assumes "data_len m = 2" and "duty_admissible p m"
  shows "OEM_SET_FAN_DUTY_MANUAL p w m =
    (let slot = (if InF_source m = SLOT1_BIC then INDEX_SLOT1 else INDEX_SLOT3);
         answer = (\<lambda>cc. m\<lparr>data_len := 0, completion_code := cc\<rparr>);
         (ret, mode, w) = pal_get_fan_ctrl_mode p w in
     if ret < 0 then (w, answer CC_UNSPECIFIED_ERROR)
     else if mode \<noteq> FAN_MANUAL_MODE p then (w, answer CC_SUCCESS)
     else if data m ! 0 = INDEX_ALL_PWM p
       then let (ok, w) = set_all_duties p (data m ! 1) slot [0..<MAX_FAN_PWM_INDEX_COUNT p] w in
         (w, answer (if ok then CC_SUCCESS else CC_UNSPECIFIED_ERROR))
       else let (ret, w) = pal_set_fan_duty p (data m ! 0) (data m ! 1) slot w in
         (w, answer (if ret < 0 then CC_UNSPECIFIED_ERROR else CC_SUCCESS)))"
proof -
  from assms(2) have a: "InF_source m \<noteq> SLOT1_BIC \<Longrightarrow> InF_source m = SLOT3_BIC" "\<not> MAX_FAN_DUTY_VALUE p < data m ! 1"
    "\<not> (MAX_FAN_PWM_INDEX_COUNT p \<le> unat (data m ! 0) \<and> data m ! 0 \<noteq> INDEX_ALL_PWM p)"
    by (auto simp: duty_admissible_def not_less not_le)
  show ?thesis
    unfolding OEM_SET_FAN_DUTY_MANUAL_def using assms(1) a
    by (cases "InF_source m = SLOT1_BIC"; simp add: Let_def split_beta)
qed

lemma duty_command_logged:
  "\<exists>w' r c. OEM_SET_FAN_DUTY_MANUAL p w m = (w', r) \<and>
     OEM_SET_FAN_DUTY_MANUAL (logged p) (w, l) m = ((w', l @ c), r) \<and> duty_calls p m r c"
proof -
  define duty where "duty = data m ! Suc 0"
  define slot where "slot = (if InF_source m = SLOT1_BIC then INDEX_SLOT1 else INDEX_SLOT3)"
  obtain ret mode w1 where g: "pal_get_fan_ctrl_mode p w = (ret, mode, w1)"
    by (cases "pal_get_fan_ctrl_mode p w") auto
  obtain ret' w2 where s: "pal_set_fan_duty p (data m ! 0) (duty) slot w1 = (ret', w2)"
    by (cases "pal_set_fan_duty p (data m ! 0) (duty) slot w1") auto
  obtain w' ok rets where a: "set_all_duties p (duty) slot [0..<MAX_FAN_PWM_INDEX_COUNT p] w1 = (ok, w')"
    "set_all_duties (logged p) (duty) slot [0..<MAX_FAN_PWM_INDEX_COUNT p] (w1, l @ [Mode_read ret mode]) =
       (ok, w', (l @ [Mode_read ret mode]) @ map (\<lambda>(i, ret). Duty_set i (duty) slot ret)
          (zip (map of_nat [0..<MAX_FAN_PWM_INDEX_COUNT p]) rets))"
    "if ok then length rets = length [0..<MAX_FAN_PWM_INDEX_COUNT p] \<and> (\<forall>ret \<in> set rets. 0 \<le> ret)
      else length rets \<le> length [0..<MAX_FAN_PWM_INDEX_COUNT p] \<and> rets \<noteq> [] \<and> last rets < 0 \<and> (\<forall>ret \<in> set (butlast rets). 0 \<le> ret)"
    using set_all_duties_logged [of p "duty" slot "[0..<MAX_FAN_PWM_INDEX_COUNT p]" w1 "l @ [Mode_read ret mode]"] by blast
  have field: "pal_get_fan_ctrl_mode (logged p) (w, l) = (ret, mode, w1, l @ [Mode_read ret mode])"
    "pal_set_fan_duty (logged p) (data m ! 0) (duty) slot (w1, l @ [Mode_read ret mode]) =
       (ret', w2, (l @ [Mode_read ret mode]) @ [Duty_set (data m ! 0) (duty) slot ret'])"
    "INDEX_ALL_PWM (logged p) = INDEX_ALL_PWM p" "FAN_MANUAL_MODE (logged p) = FAN_MANUAL_MODE p"
    "MAX_FAN_PWM_INDEX_COUNT (logged p) = MAX_FAN_PWM_INDEX_COUNT p" "MAX_FAN_DUTY_VALUE (logged p) = MAX_FAN_DUTY_VALUE p"
    using g s by (simp_all add: logged_def)
  have "duty_admissible (logged p) m = duty_admissible p m" by (simp add: duty_admissible_def field)
  note run = duty_command_admissible [of m p w] duty_command_admissible [of m "logged p" "(w, l)", unfolded this]
    field g s slot_def [symmetric] duty_def [symmetric] Let_def
  consider "data_len m \<noteq> 2" | "data_len m = 2" "\<not> duty_admissible p m" | "data_len m = 2" "duty_admissible p m" "ret < 0"
    | "data_len m = 2" "duty_admissible p m" "\<not> ret < 0" "mode \<noteq> FAN_MANUAL_MODE p"
    | "data_len m = 2" "duty_admissible p m" "\<not> ret < 0" "FAN_MANUAL_MODE p = mode" "data m ! 0 \<noteq> INDEX_ALL_PWM p"
    | "data_len m = 2" "duty_admissible p m" "\<not> ret < 0" "FAN_MANUAL_MODE p = mode" "data m ! 0 = INDEX_ALL_PWM p"
    by blast
  then show ?thesis
  proof cases
    case 1
    then show ?thesis by (simp add: OEM_SET_FAN_DUTY_MANUAL_def duty_calls_def)
  next
    case 2
    then show ?thesis
      by (auto simp: OEM_SET_FAN_DUTY_MANUAL_def duty_calls_def duty_admissible_def not_less not_le field Let_def)
  next
    case 3
    then show ?thesis
      by (intro exI [of _ w1] exI [of _ "m\<lparr>data_len := 0, completion_code := CC_UNSPECIFIED_ERROR\<rparr>"] exI [of _ "[Mode_read ret mode]"])
        (simp_all add: run duty_calls_def)
  next
    case 4
    then show ?thesis
      by (intro exI [of _ w1] exI [of _ "m\<lparr>data_len := 0, completion_code := CC_SUCCESS\<rparr>"] exI [of _ "[Mode_read ret mode]"])
        (simp_all add: run duty_calls_def)
  next
    case 5
    let ?cc = "if ret' < 0 then CC_UNSPECIFIED_ERROR else CC_SUCCESS"
    have w: "duties_written p m ?cc [Duty_set (data m ! 0) (duty) slot ret']"
      unfolding duties_written_def using 5 by (intro exI [of _ "[ret']"]) (simp add: duty_outputs_def slot_def duty_def)
    from 5 w show ?thesis
      by (intro exI [of _ w2] exI [of _ "m\<lparr>data_len := 0, completion_code := ?cc\<rparr>"]
          exI [of _ "[Mode_read ret mode, Duty_set (data m ! 0) (duty) slot ret']"])
        (simp_all add: run duty_calls_def)
  next
    case 6
    let ?cc = "if ok then CC_SUCCESS else CC_UNSPECIFIED_ERROR"
    let ?calls = "map (\<lambda>(i, ret). Duty_set i (duty) slot ret) (zip (map of_nat [0..<MAX_FAN_PWM_INDEX_COUNT p]) rets)"
    have w: "duties_written p m ?cc ?calls"
      unfolding duties_written_def using 6 a(3) by (intro exI [of _ rets]) (auto simp: duty_outputs_def slot_def duty_def split: if_splits)
    from 6 w show ?thesis
      by (intro exI [of _ w'] exI [of _ "m\<lparr>data_len := 0, completion_code := ?cc\<rparr>"] exI [of _ "Mode_read ret mode # ?calls"])
        (simp_all add: run a(1,2) duty_calls_def)
  qed
qed

lemma mode_command_logged:
  "\<exists>w' r c. OEM_GET_SET_FAN_CTRL_MODE p w m = (w', r) \<and>
     OEM_GET_SET_FAN_CTRL_MODE (logged p) (w, l) m = ((w', l @ c), r) \<and> mode_calls p m r c"
  by (auto simp: OEM_GET_SET_FAN_CTRL_MODE_def mode_calls_def logged_def Let_def split_beta)

lemma NM_SENSOR_READ_logged:
  "OEM_NM_SENSOR_READ (logged p) (w, l) m =
     ((fst (OEM_NM_SENSOR_READ p w m), l), snd (OEM_NM_SENSOR_READ p w m))"
  by (cases "hsc_pwr_reading p w" rule: prod_cases3)
    (simp add: OEM_NM_SENSOR_READ_def logged_def Let_def)

lemma SET_SYSTEM_GUID_logged:
  "OEM_SET_SYSTEM_GUID (logged p) (w, l) m =
     ((fst (OEM_SET_SYSTEM_GUID p w m), l), snd (OEM_SET_SYSTEM_GUID p w m))"
  by (cases "set_system_guid p 16 (data m) w" rule: prod_cases4)
    (simp add: OEM_SET_SYSTEM_GUID_def logged_def Let_def)

lemma OEM_handler_logged:
  "\<exists>w' r c. IPMI_OEM_handler p w m = (w', r) \<and> IPMI_OEM_handler (logged p) (w, l) m = ((w', l @ c), r) \<and> fan_calls p m r c"
proof -
  have build: "CONFIG_ESPI (logged p) = CONFIG_ESPI p" "ENABLE_FAN (logged p) = ENABLE_FAN p"
    by (simp_all add: logged_def)
  consider "ENABLE_FAN p" "cmd m = CMD_OEM_SET_FAN_DUTY_MANUAL" | "ENABLE_FAN p" "cmd m = CMD_OEM_GET_SET_FAN_CTRL_MODE"
    | "\<not> (ENABLE_FAN p \<and> cmd m = CMD_OEM_SET_FAN_DUTY_MANUAL)" "\<not> (ENABLE_FAN p \<and> cmd m = CMD_OEM_GET_SET_FAN_CTRL_MODE)"
    by blast
  then show ?thesis
  proof cases
    case 1
    then show ?thesis
      using duty_command_logged [of p w m l] by (auto simp: IPMI_OEM_handler_def build fan_calls_def)
  next
    case 2
    then show ?thesis
      using mode_command_logged [of p w m l] by (auto simp: IPMI_OEM_handler_def build fan_calls_def)
  next
    case 3
    then show ?thesis
      by (cases "IPMI_OEM_handler p w m")
        (auto simp: IPMI_OEM_handler_def build fan_calls_def NM_SENSOR_READ_logged SET_SYSTEM_GUID_logged)
  qed
qed

lemma oem_run_handler: "IPMI_OEM_handler p w m = (w', r) \<Longrightarrow> oem_run (p, w) m = Some ((p, w'), r)"
  by (simp add: oem_run_def)

lemma oem_run_logged:
  "\<exists>w' rs cs. run_all oem_run (p, w) ms = Some ((p, w'), rs) \<and>
     run_all oem_run (logged p, (w, l)) ms = Some ((logged p, (w', l @ concat cs)), rs) \<and>
     length rs = length ms \<and> list_all2 (\<lambda>(m, r) c. fan_calls p m r c) (zip ms rs) cs"
proof (induction ms arbitrary: w l)
  case (Cons m ms)
  obtain w1 r c where 1: "IPMI_OEM_handler p w m = (w1, r)" "IPMI_OEM_handler (logged p) (w, l) m = ((w1, l @ c), r)"
    "fan_calls p m r c" using OEM_handler_logged [of p w m l] by blast
  from Cons [of w1 "l @ c"] obtain w' rs cs where
    "run_all oem_run (p, w1) ms = Some ((p, w'), rs)"
    "run_all oem_run (logged p, (w1, l @ c)) ms = Some ((logged p, (w', (l @ c) @ concat cs)), rs)"
    "length rs = length ms" "list_all2 (\<lambda>(m, r) c. fan_calls p m r c) (zip ms rs) cs" by blast
  with 1(3) 1(1,2) [THEN oem_run_handler] show ?case
    by (intro exI [of _ w'] exI [of _ "r # rs"] exI [of _ "c # cs"]) simp
qed simp

text \<open>Every duty that reaches the platform is within its bounds.\<close>

lemma fan_calls_bounds:
  assumes "fan_calls p m r c" and "Duty_set i duty slot ret \<in> set c"
  shows "unat i < MAX_FAN_PWM_INDEX_COUNT p \<and> duty \<le> MAX_FAN_DUTY_VALUE p \<and> slot \<in> {INDEX_SLOT1, INDEX_SLOT3}"
proof -
  have *: "(i, ret) \<in> set (zip xs rets) \<Longrightarrow> i \<in> set xs" for xs and rets :: "int list" by (rule set_zip_leftD)
  have n: "i \<in> set (duty_outputs p m) \<Longrightarrow> duty_admissible p m \<Longrightarrow> unat i < MAX_FAN_PWM_INDEX_COUNT p"
    by (auto simp: duty_outputs_def duty_admissible_def unat_of_nat split: if_splits intro: le_less_trans [OF mod_less_eq_dividend])
  from assms have "duty_calls p m r c" by (auto simp: fan_calls_def mode_calls_def split: if_splits)
  with assms(2) have "duty_admissible p m" "i \<in> set (duty_outputs p m)" "duty = data m ! 1" "slot \<in> {INDEX_SLOT1, INDEX_SLOT3}"
    by (auto simp: duty_calls_def duties_written_def split: if_splits dest: *)
  with n show ?thesis by (simp add: duty_admissible_def)
qed

lemma all_fan_calls_bounds:
  "list_all2 (\<lambda>(m, r) c. fan_calls p m r c) ps cs \<Longrightarrow>
   \<forall>c \<in> set cs. \<forall>i duty slot ret. Duty_set i duty slot ret \<in> set c \<longrightarrow>
     unat i < MAX_FAN_PWM_INDEX_COUNT p \<and> duty \<le> MAX_FAN_DUTY_VALUE p"
  by (induction rule: list_all2_induct) (auto dest: fan_calls_bounds)

section \<open>Properties\<close>

lemma set_all_duties_fold:
  assumes "\<forall>i w. 0 \<le> fst (pal_set_fan_duty p (of_nat i) duty slot w)"
  shows "set_all_duties p duty slot ixs w =
    (True, fold (\<lambda>i w. snd (pal_set_fan_duty p (of_nat i) duty slot w)) ixs w)"
proof (induction ixs arbitrary: w)
  case (Cons i ixs)
  have "\<not> fst (pal_set_fan_duty p (of_nat i) duty slot w) < 0" using assms by (simp add: not_less)
  with Cons show ?case by (simp add: split_beta)
qed simp

text \<open>Set Fan Duty for all outputs, from slot 1 and with an admissible duty: in manual mode every
  PWM output below the platform's count is set, in order, and nothing else changes; in any other
  mode no output is set, and the command still reports success.\<close>

theorem set_fan_duty_all_outputs:
  assumes "data_len m = 2" "data m ! 0 = INDEX_ALL_PWM p" "data m ! 1 = duty" "duty \<le> MAX_FAN_DUTY_VALUE p"
    and "InF_source m = SLOT1_BIC" "pal_get_fan_ctrl_mode p w = (0, mode, w1)"
    and "\<forall>i w. 0 \<le> fst (pal_set_fan_duty p (of_nat i) duty INDEX_SLOT1 w)"
  shows "OEM_SET_FAN_DUTY_MANUAL p w m =
    (if mode = FAN_MANUAL_MODE p
     then fold (\<lambda>i w. snd (pal_set_fan_duty p (of_nat i) duty INDEX_SLOT1 w)) [0..<MAX_FAN_PWM_INDEX_COUNT p] w1
     else w1, m\<lparr>data_len := 0, completion_code := CC_SUCCESS\<rparr>)"
  using assms leD [OF assms(4)] by (simp add: OEM_SET_FAN_DUTY_MANUAL_def Let_def set_all_duties_fold)

text \<open>A platform with four fans, whose state is the mode and the duties.\<close>

definition demo_oem :: "(u8 \<times> u8 list) oem_plat" where
  "demo_oem = \<lparr>CONFIG_ESPI = True, ENABLE_FAN = True, hsc_pwr_reading = get_hsc_pwr_reading_weak 0,
     set_system_guid = \<lambda>n d w. (GUID_WRITE_SUCCESS, n, d, w),
     pal_get_fan_ctrl_mode = \<lambda>w. (0, fst w, w), pal_set_fan_ctrl_mode = \<lambda>m w. (m, snd w),
     pal_set_fan_duty = \<lambda>i d s w. (0, fst w, (snd w)[unat i := d]),
     MAX_FAN_DUTY_VALUE = 100, MAX_FAN_PWM_INDEX_COUNT = 4, INDEX_ALL_PWM = 0xFF,
     FAN_MANUAL_MODE = 0, FAN_AUTO_MODE = 1, FAN_SET_MANUAL_MODE = 0, FAN_SET_AUTO_MODE = 1, FAN_GET_MODE = 2\<rparr>"

theorem set_fan_duty_all_outputs_witness:
  "OEM_SET_FAN_DUTY_MANUAL demo_oem (0, [1, 2, 3, 4])
      (zero_msg\<lparr>InF_source := SLOT1_BIC, data_len := 2, data := 0xFF # 50 # replicate 525 0\<rparr>) =
    ((0, [50, 50, 50, 50]), zero_msg\<lparr>InF_source := SLOT1_BIC, data_len := 0, data := 0xFF # 50 # replicate 525 0,
      completion_code := CC_SUCCESS\<rparr>)"
  by (subst set_fan_duty_all_outputs [where duty = 50 and mode = 0 and ?w1.0 = "(0, [1, 2, 3, 4])"])
    (simp_all add: demo_oem_def upt_rec)

text \<open>C36. OEM commands drive the fans as specified. For every platform (its GUID service keeps the
  size of the data array; nothing is assumed of its fans) and every sequence of well-formed requests:
  every request is answered, and logging the fan services changes neither the answers nor the state.
  The log is made of one part per request, as \<open>fan_calls\<close> says: a duty request of the wrong length,
  from another source than slots 1 and 3, above the maximal duty or for an output that does not exist
  calls nothing and is refused with its own code; an admissible one asks for the mode, and only when
  that succeeds and is manual sets its outputs in order, up to the first failure, and reports success
  exactly when there is none; a mode request sets the mode it names or returns the mode it reads; no
  other command calls a fan service. So every duty that reaches the platform is at most the maximum
  and for an output below the count. Answers keep the routing fields of their requests, and a
  successful one has at most three bytes.\<close>

theorem oem_commands_drive_fans:
  assumes "oem_plat_ok p" and "\<forall>m \<in> set ms. wf_msg m"
  shows "\<exists>w' rs cs. run_all oem_run (p, w) ms = Some ((p, w'), rs) \<and>
    run_all oem_run (logged p, (w, [])) ms = Some ((logged p, (w', concat cs)), rs) \<and>
    length rs = length ms \<and> list_all2 (\<lambda>(m, r) c. fan_calls p m r c) (zip ms rs) cs \<and>
    (\<forall>c \<in> set cs. \<forall>i duty slot ret. Duty_set i duty slot ret \<in> set c \<longrightarrow>
       unat i < MAX_FAN_PWM_INDEX_COUNT p \<and> duty \<le> MAX_FAN_DUTY_VALUE p) \<and>
    list_all2 same_route ms rs \<and>
    (\<forall>r \<in> set rs. wf_msg r \<and> (completion_code r = CC_SUCCESS \<longrightarrow> unat (data_len r) \<le> 3))"
proof -
  obtain w' rs cs where run: "run_all oem_run (p, w) ms = Some ((p, w'), rs)"
    "run_all oem_run (logged p, (w, [])) ms = Some ((logged p, (w', concat cs)), rs)"
    "length rs = length ms" "list_all2 (\<lambda>(m, r) c. fan_calls p m r c) (zip ms rs) cs"
    using oem_run_logged [of p w ms "[]"] by auto
  have "\<forall>c \<in> set cs. \<forall>i duty slot ret. Duty_set i duty slot ret \<in> set c \<longrightarrow>
      unat i < MAX_FAN_PWM_INDEX_COUNT p \<and> duty \<le> MAX_FAN_DUTY_VALUE p"
    using run(4) by (rule all_fan_calls_bounds)
  moreover have "list_all2 same_route ms rs \<and>
      (\<forall>r \<in> set rs. wf_msg r \<and> (completion_code r = CC_SUCCESS \<longrightarrow> unat (data_len r) \<le> 3))"
    using oem.handler_sequence [of "(p, w)" ms] assms run(1) by auto
  ultimately show ?thesis using run by blast
qed

theorem oem_commands_drive_fans_witness:
  "\<exists>w' rs cs. run_all oem_run (demo_oem, (1, [1, 2, 3, 4]))
      [zero_msg\<lparr>cmd := CMD_OEM_GET_SET_FAN_CTRL_MODE, data_len := 1\<rparr>,
       zero_msg\<lparr>cmd := CMD_OEM_SET_FAN_DUTY_MANUAL, InF_source := SLOT1_BIC, data_len := 2\<rparr>] = Some ((demo_oem, w'), rs) \<and>
    length rs = 2 \<and> length cs = 2 \<and> fan_calls demo_oem (zero_msg\<lparr>cmd := CMD_OEM_GET_SET_FAN_CTRL_MODE, data_len := 1\<rparr>) (rs ! 0) (cs ! 0)"
proof -
  let ?ms = "[zero_msg\<lparr>cmd := CMD_OEM_GET_SET_FAN_CTRL_MODE, data_len := 1\<rparr>,
    zero_msg\<lparr>cmd := CMD_OEM_SET_FAN_DUTY_MANUAL, InF_source := SLOT1_BIC, data_len := 2\<rparr>]"
  have "oem_plat_ok demo_oem" "\<forall>m \<in> set ?ms. wf_msg m"
    by (simp_all add: oem_plat_ok_def demo_oem_def wf_msg_def zero_msg_def)
  from oem_commands_drive_fans [OF this, of "(1, [1, 2, 3, 4])"] obtain w' rs cs where
    r: "run_all oem_run (demo_oem, (1, [1, 2, 3, 4])) ?ms = Some ((demo_oem, w'), rs)" "length rs = 2"
      "list_all2 (\<lambda>(m, r) c. fan_calls demo_oem m r c) (zip ?ms rs) cs" by auto
  from r(2,3) have "length cs = 2" "fan_calls demo_oem (?ms ! 0) (rs ! 0) (cs ! 0)"
    by (auto simp: list_all2_conv_all_nth)
  with r show ?thesis by auto
qed

end
