(* ===== verification/Oem1s_Board.thy ===== *)
theory Oem1s_Board
  imports Oem_Handler
begin

text \<open>
  The board commands of \<open>samples/ipmi_openbic/src/ipmi/oem_1s_handler.c\<close>: resets, watchdog, voltage
  regulator monitoring, fans, slot power, PMIC errors, the access to the controller's own
  registers, and the commands that only platforms implement. The services of the board are the
  fields of \<open>board_plat\<close>, over a state \<open>'w\<close>; the address space of the controller is a map from
  addresses to bytes, undefined where an access faults.
\<close>

section \<open>Platform services\<close>

datatype cycle_status =
    SUCCESS_12V_CYCLE_SLOT | NOT_SUPPORT_12V_CYCLE_SLOT | SLOT_OFF_FAILED | SLOT_ON_FAILED | OTHER_12V_CYCLE_SLOT

abbreviation (input) SUCCESS :: int where "SUCCESS \<equiv> 0"
abbreviation (input) NOT_SUPPORT :: int where "NOT_SUPPORT \<equiv> -1"
abbreviation (input) INVALID_ERROR_TYPE :: int where "INVALID_ERROR_TYPE \<equiv> -2"
abbreviation (input) INVALID_DIMM_ID :: int where "INVALID_DIMM_ID \<equiv> -3"

text \<open>A service that returns through a pointer takes the old value and gives the new one.\<close>

record 'w board_plat =
  pal_submit_bmc_cold_reset :: "'w \<Rightarrow> int \<times> 'w"
  set_wdt_continue_feed :: "u8 \<Rightarrow> 'w \<Rightarrow> 'w"
  submit_bic_warm_reset :: "'w \<Rightarrow> 'w"
  pal_submit_12v_cycle_slot :: "ipmi_msg \<Rightarrow> 'w \<Rightarrow> cycle_status \<times> ipmi_msg \<times> 'w"
  pal_clear_cmos :: "'w \<Rightarrow> int \<times> 'w"
  pal_set_pmic_error_flag :: "u8 \<Rightarrow> u8 \<Rightarrow> 'w \<Rightarrow> int \<times> 'w"
  pal_get_set_add_debug_sel_mode_status :: "u8 \<Rightarrow> u8 \<Rightarrow> 'w \<Rightarrow> int \<times> u8 \<times> 'w"
  i2c_scan :: "u8 \<Rightarrow> u8 list \<Rightarrow> u8 \<Rightarrow> 'w \<Rightarrow> u8 list \<times> u8 \<times> 'w"
  pal_get_fan_duty :: "u8 \<Rightarrow> u8 \<Rightarrow> u8 \<Rightarrow> 'w \<Rightarrow> int \<times> u8 \<times> 'w"
  pal_get_fan_rpm :: "u8 \<Rightarrow> u16 \<Rightarrow> 'w \<Rightarrow> int \<times> u16 \<times> 'w"

section \<open>Commands that only a platform implements\<close>

definition OEM_1S_GET_GPIO_CONFIG :: "ipmi_msg \<Rightarrow> ipmi_msg" where
  "OEM_1S_GET_GPIO_CONFIG msg = msg\<lparr>data_len := 0, completion_code := CC_INVALID_CMD\<rparr>"

definition OEM_1S_SET_GPIO_CONFIG :: "ipmi_msg \<Rightarrow> ipmi_msg" where
  "OEM_1S_SET_GPIO_CONFIG msg = msg\<lparr>data_len := 0, completion_code := CC_INVALID_CMD\<rparr>"

definition OEM_1S_INFORM_BMC_TO_CONTROL_POWER :: "ipmi_msg \<Rightarrow> ipmi_msg" where
  "OEM_1S_INFORM_BMC_TO_CONTROL_POWER msg =
     (if data_len msg \<noteq> 1 then msg\<lparr>completion_code := CC_INVALID_LENGTH\<rparr>
      else msg\<lparr>completion_code := CC_INVALID_CMD, data_len := 0\<rparr>)"

definition OEM_1S_GET_SET_M2 :: "ipmi_msg \<Rightarrow> ipmi_msg" where
  "OEM_1S_GET_SET_M2 msg = msg\<lparr>data_len := 0, completion_code := CC_INVALID_CMD\<rparr>"

definition OEM_1S_SET_SSD_LED :: "ipmi_msg \<Rightarrow> ipmi_msg" where
  "OEM_1S_SET_SSD_LED msg = msg\<lparr>data_len := 0, completion_code := CC_INVALID_CMD\<rparr>"

definition OEM_1S_GET_SSD_STATUS :: "ipmi_msg \<Rightarrow> ipmi_msg" where
  "OEM_1S_GET_SSD_STATUS msg = msg\<lparr>data_len := 0, completion_code := CC_INVALID_CMD\<rparr>"

definition OEM_1S_COPY_FLASH_IMAGE :: "ipmi_msg \<Rightarrow> ipmi_msg" where
  "OEM_1S_COPY_FLASH_IMAGE msg = msg\<lparr>data_len := 0, completion_code := CC_NOT_SUPP_IN_CURR_STATE\<rparr>"

definition GET_COPY_FLASH_STATUS :: "ipmi_msg \<Rightarrow> ipmi_msg" where
  "GET_COPY_FLASH_STATUS msg = msg\<lparr>data_len := 0, completion_code := CC_NOT_SUPP_IN_CURR_STATE\<rparr>"

definition OEM_1S_INFORM_PEER_SLED_CYCLE :: "ipmi_msg \<Rightarrow> ipmi_msg" where
  "OEM_1S_INFORM_PEER_SLED_CYCLE msg = msg\<lparr>data_len := 0, completion_code := CC_NOT_SUPP_IN_CURR_STATE\<rparr>"

definition OEM_1S_PEX_FLASH_READ :: "ipmi_msg \<Rightarrow> ipmi_msg" where
  "OEM_1S_PEX_FLASH_READ msg = msg"

definition OEM_1S_GET_FPGA_USER_CODE :: "ipmi_msg \<Rightarrow> ipmi_msg" where
  "OEM_1S_GET_FPGA_USER_CODE msg = msg"

definition OEM_1S_GET_BOARD_ID :: "ipmi_msg \<Rightarrow> ipmi_msg" where
  "OEM_1S_GET_BOARD_ID msg =
     (if data_len msg \<noteq> 0 then msg\<lparr>data_len := 0, completion_code := CC_INVALID_LENGTH\<rparr>
      else msg\<lparr>data_len := 0, completion_code := CC_INVALID_CMD\<rparr>)"

definition OEM_1S_GET_CARD_TYPE :: "ipmi_msg \<Rightarrow> ipmi_msg" where
  "OEM_1S_GET_CARD_TYPE msg = msg\<lparr>data_len := 0, completion_code := CC_INVALID_CMD\<rparr>"

definition OEM_1S_BRIDGE_I2C_MSG_BY_COMPNT :: "ipmi_msg \<Rightarrow> ipmi_msg" where
  "OEM_1S_BRIDGE_I2C_MSG_BY_COMPNT msg = msg"

definition OEM_1S_GET_PCIE_RETIMER_TYPE :: "ipmi_msg \<Rightarrow> ipmi_msg" where
  "OEM_1S_GET_PCIE_RETIMER_TYPE msg = msg\<lparr>data_len := 0, completion_code := CC_INVALID_CMD\<rparr>"

definition OEM_1S_GET_HSC_STATUS :: "ipmi_msg \<Rightarrow> ipmi_msg" where
  "OEM_1S_GET_HSC_STATUS msg = msg\<lparr>data_len := 0, completion_code := CC_NOT_SUPP_IN_CURR_STATE\<rparr>"

definition OEM_1S_GET_BIOS_VERSION :: "ipmi_msg \<Rightarrow> ipmi_msg" where
  "OEM_1S_GET_BIOS_VERSION msg = msg\<lparr>data_len := 0, completion_code := CC_INVALID_CMD\<rparr>"

definition OEM_1S_GET_PCIE_CARD_STATUS :: "ipmi_msg \<Rightarrow> ipmi_msg" where
  "OEM_1S_GET_PCIE_CARD_STATUS msg = msg\<lparr>data_len := 0, completion_code := CC_INVALID_CMD\<rparr>"

definition OEM_1S_GET_PCIE_CARD_SENSOR_READING :: "ipmi_msg \<Rightarrow> ipmi_msg" where
  "OEM_1S_GET_PCIE_CARD_SENSOR_READING msg = msg\<lparr>data_len := 0, completion_code := CC_INVALID_CMD\<rparr>"

definition OEM_1S_WRITE_READ_DIMM :: "ipmi_msg \<Rightarrow> ipmi_msg" where
  "OEM_1S_WRITE_READ_DIMM msg = msg\<lparr>data_len := 0, completion_code := CC_INVALID_CMD\<rparr>"

definition OEM_1S_GET_DIMM_I3C_MUX_SELECTION :: "ipmi_msg \<Rightarrow> ipmi_msg" where
  "OEM_1S_GET_DIMM_I3C_MUX_SELECTION msg = msg\<lparr>data_len := 0, completion_code := CC_INVALID_CMD\<rparr>"

definition OEM_1S_SAFE_WRITE_READ_M2_DATA :: "ipmi_msg \<Rightarrow> ipmi_msg" where
  "OEM_1S_SAFE_WRITE_READ_M2_DATA msg = msg\<lparr>data_len := 0, completion_code := CC_INVALID_CMD\<rparr>"

definition OEM_1S_PRE_POWER_OFF_CONTROL :: "ipmi_msg \<Rightarrow> ipmi_msg" where
  "OEM_1S_PRE_POWER_OFF_CONTROL msg = msg\<lparr>data_len := 0, completion_code := CC_INVALID_CMD\<rparr>"

definition OEM_1S_SET_DEVICE_ACTIVE :: "ipmi_msg \<Rightarrow> ipmi_msg" where
  "OEM_1S_SET_DEVICE_ACTIVE msg = msg\<lparr>data_len := 0, completion_code := CC_INVALID_CMD\<rparr>"

definition OEM_1S_DEBUG_GET_HW_SIGNAL :: "ipmi_msg \<Rightarrow> ipmi_msg" where
  "OEM_1S_DEBUG_GET_HW_SIGNAL msg = msg\<lparr>data_len := 0, completion_code := CC_INVALID_CMD\<rparr>"

definition OEM_1S_CLEAR_CMET :: "ipmi_msg \<Rightarrow> ipmi_msg" where
  "OEM_1S_CLEAR_CMET msg = msg\<lparr>data_len := 0, completion_code := CC_INVALID_CMD\<rparr>"

lemmas oem1s_stub_defs =
  OEM_1S_GET_GPIO_CONFIG_def OEM_1S_SET_GPIO_CONFIG_def OEM_1S_INFORM_BMC_TO_CONTROL_POWER_def
  OEM_1S_GET_SET_M2_def OEM_1S_SET_SSD_LED_def OEM_1S_GET_SSD_STATUS_def OEM_1S_COPY_FLASH_IMAGE_def
  GET_COPY_FLASH_STATUS_def OEM_1S_INFORM_PEER_SLED_CYCLE_def OEM_1S_PEX_FLASH_READ_def
  OEM_1S_GET_FPGA_USER_CODE_def OEM_1S_GET_BOARD_ID_def OEM_1S_GET_CARD_TYPE_def
  OEM_1S_BRIDGE_I2C_MSG_BY_COMPNT_def OEM_1S_GET_PCIE_RETIMER_TYPE_def OEM_1S_GET_HSC_STATUS_def
  OEM_1S_GET_BIOS_VERSION_def OEM_1S_GET_PCIE_CARD_STATUS_def OEM_1S_GET_PCIE_CARD_SENSOR_READING_def
  OEM_1S_WRITE_READ_DIMM_def OEM_1S_GET_DIMM_I3C_MUX_SELECTION_def OEM_1S_SAFE_WRITE_READ_M2_DATA_def
  OEM_1S_PRE_POWER_OFF_CONTROL_def OEM_1S_SET_DEVICE_ACTIVE_def OEM_1S_DEBUG_GET_HW_SIGNAL_def
  OEM_1S_CLEAR_CMET_def

section \<open>Resets, watchdog and status\<close>

definition OEM_1S_RESET_BMC :: "'w board_plat \<Rightarrow> 'w \<Rightarrow> ipmi_msg \<Rightarrow> 'w \<times> ipmi_msg" where
  "OEM_1S_RESET_BMC p w msg =
     (if data_len msg \<noteq> 0 then (w, msg\<lparr>completion_code := CC_INVALID_LENGTH\<rparr>)
      else
        let (ret, w) = pal_submit_bmc_cold_reset p w in
        (w, msg\<lparr>completion_code := if ret = -1 then CC_INVALID_CMD else CC_SUCCESS, data_len := 0\<rparr>))"

definition OEM_1S_SET_WDT_FEED :: "'w board_plat \<Rightarrow> 'w \<Rightarrow> ipmi_msg \<Rightarrow> 'w \<times> ipmi_msg" where
  "OEM_1S_SET_WDT_FEED p w msg =
     (if data_len msg \<noteq> 1 then (w, msg\<lparr>completion_code := CC_INVALID_LENGTH\<rparr>)
      else if data msg ! 0 \<noteq> 0 \<and> data msg ! 0 \<noteq> 1 then (w, msg\<lparr>completion_code := CC_INVALID_DATA_FIELD\<rparr>)
      else (set_wdt_continue_feed p (data msg ! 0) w, msg\<lparr>data_len := 0, completion_code := CC_SUCCESS\<rparr>))"

text \<open>\<open>i2c_scan\<close> gets the address of the 16-bit \<open>data_len\<close> as a pointer to a byte: on the
  little-endian target it replaces the low byte.\<close>

definition OEM_1S_I2C_DEV_SCAN :: "'w board_plat \<Rightarrow> 'w \<Rightarrow> ipmi_msg \<Rightarrow> 'w \<times> ipmi_msg" where
  "OEM_1S_I2C_DEV_SCAN p w msg =
     (if data_len msg \<noteq> 1 then (w, msg\<lparr>completion_code := CC_INVALID_LENGTH\<rparr>)
      else
        let (d, n, w) = i2c_scan p (data msg ! 0) (data msg) (ucast (data_len msg)) w in
        (w, msg\<lparr>data := d, data_len := (data_len msg AND 0xFF00) OR ucast n, completion_code := CC_SUCCESS\<rparr>))"

definition OEM_1S_GET_BIC_STATUS :: "ipmi_msg \<Rightarrow> ipmi_msg" where
  "OEM_1S_GET_BIC_STATUS msg =
     (if data_len msg \<noteq> 0 then msg\<lparr>completion_code := CC_INVALID_LENGTH\<rparr>
      else msg\<lparr>data := blit (data msg) 0 [FIRMWARE_REVISION_1, FIRMWARE_REVISION_2],
               data_len := 2, completion_code := CC_SUCCESS\<rparr>)"

definition OEM_1S_SET_VR_MONITOR_STATUS :: "power_state \<Rightarrow> ipmi_msg \<Rightarrow> power_state \<times> ipmi_msg" where
  "OEM_1S_SET_VR_MONITOR_STATUS pw msg =
     (if data_len msg \<noteq> 1 then (pw, msg\<lparr>completion_code := CC_INVALID_LENGTH\<rparr>)
      else if data msg ! 0 = 0 then
        (set_vr_monitor_status False pw, msg\<lparr>data_len := 0, completion_code := CC_SUCCESS\<rparr>)
      else if data msg ! 0 = 1 then
        (set_vr_monitor_status True pw, msg\<lparr>data_len := 0, completion_code := CC_SUCCESS\<rparr>)
      else (pw, msg\<lparr>completion_code := CC_INVALID_DATA_FIELD\<rparr>))"

definition OEM_1S_GET_VR_MONITOR_STATUS :: "power_state \<Rightarrow> ipmi_msg \<Rightarrow> ipmi_msg" where
  "OEM_1S_GET_VR_MONITOR_STATUS pw msg =
     (if data_len msg \<noteq> 0 then msg\<lparr>completion_code := CC_INVALID_LENGTH\<rparr>
      else msg\<lparr>data := (data msg)[0 := of_bool (get_vr_monitor_status pw)],
               data_len := 1, completion_code := CC_SUCCESS\<rparr>)"

definition OEM_1S_RESET_BIC :: "'w board_plat \<Rightarrow> 'w \<Rightarrow> ipmi_msg \<Rightarrow> 'w \<times> ipmi_msg" where
  "OEM_1S_RESET_BIC p w msg =
     (if data_len msg \<noteq> 0 then (w, msg\<lparr>completion_code := CC_INVALID_LENGTH\<rparr>)
      else (submit_bic_warm_reset p w, msg\<lparr>data_len := 0, completion_code := CC_SUCCESS\<rparr>))"

definition OEM_1S_12V_CYCLE_SLOT :: "'w board_plat \<Rightarrow> 'w \<Rightarrow> ipmi_msg \<Rightarrow> 'w \<times> ipmi_msg" where
  "OEM_1S_12V_CYCLE_SLOT p w msg =
     (if data_len msg \<noteq> 0 then (w, msg\<lparr>completion_code := CC_INVALID_LENGTH\<rparr>)
      else
        let (ret, msg, w) = pal_submit_12v_cycle_slot p msg w in
        (w, msg\<lparr>completion_code := (case ret of
               SUCCESS_12V_CYCLE_SLOT \<Rightarrow> CC_SUCCESS
             | NOT_SUPPORT_12V_CYCLE_SLOT \<Rightarrow> CC_INVALID_CMD
             | _ \<Rightarrow> CC_UNSPECIFIED_ERROR)\<rparr>))"

definition OEM_1S_CLEAR_CMOS :: "'w board_plat \<Rightarrow> 'w \<Rightarrow> ipmi_msg \<Rightarrow> 'w \<times> ipmi_msg" where
  "OEM_1S_CLEAR_CMOS p w msg =
     (if data_len msg \<noteq> 0 then (w, msg\<lparr>completion_code := CC_INVALID_LENGTH\<rparr>)
      else
        let (ret, w) = pal_clear_cmos p w in
        if ret < 0 then (w, msg\<lparr>completion_code := CC_UNSPECIFIED_ERROR\<rparr>)
        else (w, msg\<lparr>data_len := 0, completion_code := CC_SUCCESS\<rparr>))"

definition OEM_1S_NOTIFY_PMIC_ERROR :: "'w board_plat \<Rightarrow> 'w \<Rightarrow> ipmi_msg \<Rightarrow> 'w \<times> ipmi_msg" where
  "OEM_1S_NOTIFY_PMIC_ERROR p w msg =
     (if data_len msg \<noteq> 2 then (w, msg\<lparr>completion_code := CC_INVALID_LENGTH\<rparr>)
      else
        let (ret, w) = pal_set_pmic_error_flag p (data msg ! 0) (data msg ! 1) w in
        (w, msg\<lparr>completion_code :=
               (if ret = NOT_SUPPORT then CC_INVALID_CMD
                else if ret = INVALID_ERROR_TYPE \<or> ret = INVALID_DIMM_ID then CC_INVALID_DATA_FIELD
                else if ret = SUCCESS then CC_SUCCESS
                else CC_UNSPECIFIED_ERROR),
               data_len := 0\<rparr>))"

definition OEM_1S_SET_ADD_DEBUG_SEL_MODE :: "'w board_plat \<Rightarrow> 'w \<Rightarrow> ipmi_msg \<Rightarrow> 'w \<times> ipmi_msg" where
  "OEM_1S_SET_ADD_DEBUG_SEL_MODE p w msg =
     (if data_len msg < 1 then (w, msg\<lparr>completion_code := CC_INVALID_LENGTH\<rparr>)
      else
        let options = data msg ! 0;
            status = (if data_len msg = 2 then data msg ! 1 else 0);
            (ret, status, w) = pal_get_set_add_debug_sel_mode_status p options status w in
        if ret < 0 then (w, msg\<lparr>completion_code := CC_UNSPECIFIED_ERROR\<rparr>)
        else (w, msg\<lparr>data := (data msg)[0 := status], data_len := 1, completion_code := CC_SUCCESS\<rparr>))"

section \<open>Fans\<close>

definition OEM_1S_SET_FAN_DUTY_AUTO :: "'w oem_plat \<Rightarrow> 'w \<Rightarrow> ipmi_msg \<Rightarrow> 'w \<times> ipmi_msg" where
  "OEM_1S_SET_FAN_DUTY_AUTO p w msg =
     (if data_len msg \<noteq> 2 then (w, msg\<lparr>completion_code := CC_INVALID_LENGTH\<rparr>)
      else
        let pwm_id = data msg ! 0; duty = data msg ! 1;
            msg = msg\<lparr>data_len := 0, completion_code := CC_SUCCESS\<rparr> in
        if InF_source msg \<noteq> SLOT1_BIC \<and> InF_source msg \<noteq> SLOT3_BIC
        then (w, msg\<lparr>completion_code := CC_PARAM_OUT_OF_RANGE\<rparr>)
        else
          let slot_index = (if InF_source msg = SLOT1_BIC then INDEX_SLOT1 else INDEX_SLOT3) in
          if unat pwm_id \<ge> MAX_FAN_PWM_INDEX_COUNT p
          then (w, msg\<lparr>completion_code := CC_PARAM_OUT_OF_RANGE\<rparr>)
          else
            let (ret, current_fan_mode, w) = pal_get_fan_ctrl_mode p w in
            if ret < 0 then (w, msg\<lparr>completion_code := CC_UNSPECIFIED_ERROR\<rparr>)
            else if current_fan_mode \<noteq> FAN_AUTO_MODE p then (w, msg)
            else
              let duty = (if duty > MAX_FAN_DUTY_VALUE p then MAX_FAN_DUTY_VALUE p else duty);
                  (ret, w) = pal_set_fan_duty p pwm_id duty slot_index w in
              (w, if ret < 0 then msg\<lparr>completion_code := CC_UNSPECIFIED_ERROR\<rparr> else msg))"

definition OEM_1S_GET_FAN_DUTY :: "'w oem_plat \<Rightarrow> 'w board_plat \<Rightarrow> 'w \<Rightarrow> ipmi_msg \<Rightarrow> 'w \<times> ipmi_msg" where
  "OEM_1S_GET_FAN_DUTY fp p w msg =
     (if data_len msg \<noteq> 1 then (w, msg\<lparr>completion_code := CC_INVALID_LENGTH\<rparr>)
      else
        let pwm_id = data msg ! 0; msg = msg\<lparr>data_len := 0\<rparr> in
        if InF_source msg \<noteq> SLOT1_BIC \<and> InF_source msg \<noteq> SLOT3_BIC
        then (w, msg\<lparr>completion_code := CC_PARAM_OUT_OF_RANGE\<rparr>)
        else
          let slot_index = (if InF_source msg = SLOT1_BIC then INDEX_SLOT1 else INDEX_SLOT3) in
          if unat pwm_id \<ge> MAX_FAN_PWM_INDEX_COUNT fp
          then (w, msg\<lparr>completion_code := CC_PARAM_OUT_OF_RANGE\<rparr>)
          else
            let (ret, duty, w) = pal_get_fan_duty p pwm_id 0 slot_index w in
            if ret < 0 then (w, msg\<lparr>completion_code := CC_UNSPECIFIED_ERROR\<rparr>)
            else (w, msg\<lparr>data := (data msg)[0 := duty], data_len := 1, completion_code := CC_SUCCESS\<rparr>))"

definition OEM_1S_GET_FAN_RPM :: "'w board_plat \<Rightarrow> 'w \<Rightarrow> ipmi_msg \<Rightarrow> 'w \<times> ipmi_msg" where
  "OEM_1S_GET_FAN_RPM p w msg =
     (if data_len msg \<noteq> 1 then (w, msg\<lparr>completion_code := CC_INVALID_LENGTH\<rparr>)
      else
        let (ret, rpm, w) = pal_get_fan_rpm p (data msg ! 0) 0 w in
        if ret < 0 then (w, msg\<lparr>data_len := 0, completion_code := CC_UNSPECIFIED_ERROR\<rparr>)
        else (w, msg\<lparr>data := blit (data msg) 0 [ucast (drop_bit 8 rpm AND 0xFF), ucast (rpm AND 0xFF)],
                     data_len := 2, completion_code := CC_SUCCESS\<rparr>))"

section \<open>Registers of the controller\<close>

type_synonym memory = "u32 \<rightharpoonup> u8"

definition le32 :: "u8 \<Rightarrow> u8 \<Rightarrow> u8 \<Rightarrow> u8 \<Rightarrow> u32" where
  "le32 b0 b1 b2 b3 = ucast b0 OR push_bit 8 (ucast b1) OR push_bit 16 (ucast b2) OR push_bit 24 (ucast b3)"

definition byte_of :: "u32 \<Rightarrow> nat \<Rightarrow> u8" where
  "byte_of v i = ucast (drop_bit (8 * i) v)"

definition read_bytes :: "memory \<Rightarrow> u32 \<Rightarrow> nat \<Rightarrow> u8 list option" where
  "read_bytes mem a n = those (map (\<lambda>i. mem (a + of_nat i)) [0..<n])"

definition load32 :: "memory \<Rightarrow> u32 \<Rightarrow> u32 option" where
  "load32 mem a = do {
     b0 \<leftarrow> mem a; b1 \<leftarrow> mem (a + 1); b2 \<leftarrow> mem (a + 2); b3 \<leftarrow> mem (a + 3);
     Some (le32 b0 b1 b2 b3)
   }"

definition store32 :: "memory \<Rightarrow> u32 \<Rightarrow> u32 \<Rightarrow> memory" where
  "store32 mem a v = mem(a \<mapsto> byte_of v 0, a + 1 \<mapsto> byte_of v 1, a + 2 \<mapsto> byte_of v 2, a + 3 \<mapsto> byte_of v 3)"

text \<open>\<open>(1UL << n) - 1\<close> with a 32-bit \<open>unsigned long\<close>: shifting by the width of the type is undefined.\<close>

definition BIT_MASK :: "nat \<Rightarrow> u32 option" where
  "BIT_MASK n = (if n < 32 then Some (push_bit n 1 - 1) else None)"

definition OEM_1S_READ_BIC_REGISTER :: "memory \<Rightarrow> ipmi_msg \<Rightarrow> ipmi_msg option" where
  "OEM_1S_READ_BIC_REGISTER mem msg =
     (if data_len msg \<noteq> 5 then Some (msg\<lparr>completion_code := CC_INVALID_LENGTH\<rparr>)
      else do {
        let addr = le32 (data msg ! 0) (data msg ! 1) (data msg ! 2) (data msg ! 3);
        let read_len = data msg ! 4;
        bs \<leftarrow> read_bytes mem addr (unat read_len);
        d \<leftarrow> memcpy (data msg) 0 bs 0 (unat read_len);
        Some (msg\<lparr>data := d, data_len := ucast read_len, completion_code := CC_SUCCESS\<rparr>)
      })"

fun merge_bytes :: "u8 list \<Rightarrow> nat list \<Rightarrow> u32 \<Rightarrow> u32" where
  "merge_bytes d [] reg_data = reg_data"
| "merge_bytes d (i # ixs) reg_data = merge_bytes d ixs (reg_data OR push_bit (i * 8) (ucast (d ! (i + 5))))"

definition OEM_1S_WRITE_BIC_REGISTER :: "memory \<Rightarrow> ipmi_msg \<Rightarrow> (memory \<times> ipmi_msg) option" where
  "OEM_1S_WRITE_BIC_REGISTER mem msg =
     (if data msg ! 4 < 1 \<or> data msg ! 4 > 4 \<or> unat (data_len msg) \<noteq> 5 + unat (data msg ! 4)
      then Some (mem, msg\<lparr>completion_code := CC_INVALID_LENGTH\<rparr>)
      else
        let addr = le32 (data msg ! 0) (data msg ! 1) (data msg ! 2) (data msg ! 3) in
        if addr mod 4 \<noteq> 0 then Some (mem, msg\<lparr>completion_code := CC_INVALID_DATA_FIELD\<rparr>)
        else do {
          let write_len = data msg ! 4;
          reg_data \<leftarrow> load32 mem addr;
          mask \<leftarrow> BIT_MASK (unat write_len * 8);
          let reg_data = merge_bytes (data msg) [0..<unat write_len] (reg_data AND NOT mask);
          Some (store32 mem addr reg_data, msg\<lparr>data_len := 0, completion_code := CC_SUCCESS\<rparr>)
        })"

section \<open>The contract\<close>

text \<open>A request whose length lies inside the data array; the answers of the OEM 1S commands stay
  inside it too.\<close>

definition request_ok :: "ipmi_msg \<Rightarrow> bool" where
  "request_ok m \<longleftrightarrow> wf_msg m \<and> unat (data_len m) \<le> IPMI_MSG_MAX_LENGTH"

abbreviation good1s :: "ipmi_msg \<Rightarrow> ipmi_msg \<Rightarrow> bool" where
  "good1s \<equiv> good_answer IPMI_MSG_MAX_LENGTH"

lemma request_okI:
  "length (data m) = IPMI_MSG_MAX_LENGTH \<Longrightarrow> unat (data_len m) \<le> IPMI_MSG_MAX_LENGTH \<Longrightarrow> request_ok m"
  by (simp add: request_ok_def wf_msg_def)

lemma request_ok_wf [simp]: "request_ok m \<Longrightarrow> wf_msg m"
  by (simp add: request_ok_def)

lemma request_ok_length [simp]: "request_ok m \<Longrightarrow> length (data m) = IPMI_MSG_MAX_LENGTH"
  by (simp add: request_ok_def)

lemma request_ok_len [simp]: "request_ok m \<Longrightarrow> unat (data_len m) \<le> IPMI_MSG_MAX_LENGTH"
  by (simp add: request_ok_def)

lemmas good1s_defs = good_answer_def wf_msg_def same_route_def

lemma good1s_refl [simp]: "request_ok m \<Longrightarrow> good1s m m"
  by (simp add: good_answer_def same_route_refl)

lemma good1sI:
  "length (data m') = IPMI_MSG_MAX_LENGTH \<Longrightarrow> unat (data_len m') \<le> IPMI_MSG_MAX_LENGTH \<Longrightarrow> same_route m m' \<Longrightarrow>
   good1s m m'"
  by (simp add: good_answer_def wf_msg_def)

lemma good1s_error [simp]: "request_ok m \<Longrightarrow> good1s m (m\<lparr>completion_code := c\<rparr>)"
  by (simp add: good1s_defs)

lemma good1s_set:
  "request_ok m \<Longrightarrow> length d = IPMI_MSG_MAX_LENGTH \<Longrightarrow> unat n \<le> IPMI_MSG_MAX_LENGTH \<Longrightarrow>
   good1s m (m\<lparr>data := d, data_len := n, completion_code := c\<rparr>)"
  by (simp add: good1s_defs)

lemma good1s_if: "(c \<Longrightarrow> good1s m a) \<Longrightarrow> (\<not> c \<Longrightarrow> good1s m b) \<Longrightarrow> good1s m (if c then a else b)"
  by simp

text \<open>\<open>runs1s m x\<close>: the handler call \<open>x\<close> for the request \<open>m\<close> has no undefined behaviour and a good answer.\<close>

definition runs1s :: "ipmi_msg \<Rightarrow> ('s \<times> ipmi_msg) option \<Rightarrow> bool" where
  "runs1s m x \<longleftrightarrow> (\<exists>s m'. x = Some (s, m') \<and> good1s m m')"

named_theorems runs1s_intros "rules that follow the branches of a handler"

lemma runs1s_if [runs1s_intros]:
  "(c \<Longrightarrow> runs1s m a) \<Longrightarrow> (\<not> c \<Longrightarrow> runs1s m b) \<Longrightarrow> runs1s m (if c then a else b)"
  by simp

lemma runs1s_Some: "good1s m m' \<Longrightarrow> runs1s m (Some (s, m'))"
  by (simp add: runs1s_def)

lemma runs1s_pair: "good1s m (snd x) \<Longrightarrow> runs1s m (Some x)"
  by (cases x) (simp add: runs1s_def)

lemma runs1s_error [runs1s_intros]: "request_ok m \<Longrightarrow> runs1s m (Some (s, m\<lparr>completion_code := c\<rparr>))"
  by (simp add: runs1s_def)

lemma runs1s_set [runs1s_intros]:
  "request_ok m \<Longrightarrow> length d = IPMI_MSG_MAX_LENGTH \<Longrightarrow> unat n \<le> IPMI_MSG_MAX_LENGTH \<Longrightarrow>
   runs1s m (Some (s, m\<lparr>data := d, data_len := n, completion_code := c\<rparr>))"
  by (simp add: runs1s_def good1s_set)

lemma runs1s_copy [runs1s_intros]:
  assumes "request_ok m" "n \<le> IPMI_MSG_MAX_LENGTH" "n \<le> length src" "unat k \<le> IPMI_MSG_MAX_LENGTH"
  shows "runs1s m (do { d \<leftarrow> memcpy (data m) 0 src 0 n;
      Some (s, m\<lparr>data := d, data_len := k, completion_code := c\<rparr>) })"
  using assms by (simp add: runs1s_set)

lemma good1s_stubs:
  assumes "request_ok m"
  shows "good1s m (OEM_1S_GET_GPIO_CONFIG m)" "good1s m (OEM_1S_SET_GPIO_CONFIG m)"
    "good1s m (OEM_1S_INFORM_BMC_TO_CONTROL_POWER m)" "good1s m (OEM_1S_GET_SET_M2 m)"
    "good1s m (OEM_1S_SET_SSD_LED m)" "good1s m (OEM_1S_GET_SSD_STATUS m)"
    "good1s m (OEM_1S_COPY_FLASH_IMAGE m)" "good1s m (GET_COPY_FLASH_STATUS m)"
    "good1s m (OEM_1S_INFORM_PEER_SLED_CYCLE m)" "good1s m (OEM_1S_PEX_FLASH_READ m)"
    "good1s m (OEM_1S_GET_FPGA_USER_CODE m)" "good1s m (OEM_1S_GET_BOARD_ID m)"
    "good1s m (OEM_1S_GET_CARD_TYPE m)" "good1s m (OEM_1S_BRIDGE_I2C_MSG_BY_COMPNT m)"
    "good1s m (OEM_1S_GET_PCIE_RETIMER_TYPE m)" "good1s m (OEM_1S_GET_HSC_STATUS m)"
    "good1s m (OEM_1S_GET_BIOS_VERSION m)" "good1s m (OEM_1S_GET_PCIE_CARD_STATUS m)"
    "good1s m (OEM_1S_GET_PCIE_CARD_SENSOR_READING m)" "good1s m (OEM_1S_WRITE_READ_DIMM m)"
    "good1s m (OEM_1S_GET_DIMM_I3C_MUX_SELECTION m)" "good1s m (OEM_1S_SAFE_WRITE_READ_M2_DATA m)"
    "good1s m (OEM_1S_PRE_POWER_OFF_CONTROL m)" "good1s m (OEM_1S_SET_DEVICE_ACTIVE m)"
    "good1s m (OEM_1S_DEBUG_GET_HW_SIGNAL m)" "good1s m (OEM_1S_CLEAR_CMET m)"
    "good1s m (m\<lparr>data_len := 0, completion_code := CC_INVALID_CMD\<rparr>)"
  unfolding oem1s_stub_defs using assms by (simp_all add: good1s_defs)

text \<open>What the board services promise: the scan keeps the data array, and the slot power service
  keeps the routing fields and the length of the message.\<close>

definition board_plat_ok :: "'w board_plat \<Rightarrow> bool" where
  "board_plat_ok p \<longleftrightarrow>
     (\<forall>b d n w. length (fst (i2c_scan p b d n w)) = length d) \<and>
     (\<forall>m w. let m' = fst (snd (pal_submit_12v_cycle_slot p m w)) in
        length (data m') = length (data m) \<and> data_len m' = data_len m \<and> same_route m m')"

lemma good1s_status:
  assumes "request_ok m"
  shows "good1s m (snd (OEM_1S_RESET_BMC p w m))" "good1s m (snd (OEM_1S_SET_WDT_FEED p w m))"
    "good1s m (OEM_1S_GET_BIC_STATUS m)" "good1s m (snd (OEM_1S_SET_VR_MONITOR_STATUS pw m))"
    "good1s m (OEM_1S_GET_VR_MONITOR_STATUS pw m)" "good1s m (snd (OEM_1S_RESET_BIC p w m))"
    "good1s m (snd (OEM_1S_CLEAR_CMOS p w m))" "good1s m (snd (OEM_1S_NOTIFY_PMIC_ERROR p w m))"
    "good1s m (snd (OEM_1S_SET_ADD_DEBUG_SEL_MODE p w m))"
  using assms
  by (simp_all add: OEM_1S_RESET_BMC_def OEM_1S_SET_WDT_FEED_def OEM_1S_GET_BIC_STATUS_def
      OEM_1S_SET_VR_MONITOR_STATUS_def OEM_1S_GET_VR_MONITOR_STATUS_def OEM_1S_RESET_BIC_def
      OEM_1S_CLEAR_CMOS_def OEM_1S_NOTIFY_PMIC_ERROR_def OEM_1S_SET_ADD_DEBUG_SEL_MODE_def
      good1s_defs Let_def split_beta)

lemma good1s_fans:
  assumes "request_ok m"
  shows "good1s m (snd (OEM_1S_SET_FAN_DUTY_AUTO fp w m))" "good1s m (snd (OEM_1S_GET_FAN_DUTY fp p w m))"
    "good1s m (snd (OEM_1S_GET_FAN_RPM p w m))"
  using assms
  by (simp_all add: OEM_1S_SET_FAN_DUTY_AUTO_def OEM_1S_GET_FAN_DUTY_def OEM_1S_GET_FAN_RPM_def
      good1s_defs Let_def split_beta)

lemma good1s_board:
  assumes "board_plat_ok p" and m: "request_ok m"
  shows "good1s m (snd (OEM_1S_I2C_DEV_SCAN p w m))" "good1s m (snd (OEM_1S_12V_CYCLE_SLOT p w m))"
proof -
  have a: "length (fst (i2c_scan p b d n w)) = length d"
    "length (data (fst (snd (pal_submit_12v_cycle_slot p m w)))) = length (data m)"
    "data_len (fst (snd (pal_submit_12v_cycle_slot p m w))) = data_len m"
    "same_route m (fst (snd (pal_submit_12v_cycle_slot p m w)))" for b d n m w
    using assms(1) by (auto simp: board_plat_ok_def Let_def)
  have "unat (ucast (n :: u8) :: u16) \<le> 527" for n by (simp add: order_trans [OF unat_u8_le])
  then show "good1s m (snd (OEM_1S_I2C_DEV_SCAN p w m))"
    using m a(1) by (simp add: OEM_1S_I2C_DEV_SCAN_def good1s_defs Let_def split_beta)
  show "good1s m (snd (OEM_1S_12V_CYCLE_SLOT p w m))"
    using m a(2-4) by (simp add: OEM_1S_12V_CYCLE_SLOT_def good1s_defs Let_def split_beta)
qed

section \<open>Register access\<close>

text \<open>Reading needs the bytes to be mapped.\<close>

definition mapped :: "memory \<Rightarrow> u32 \<Rightarrow> nat \<Rightarrow> bool" where
  "mapped mem a n \<longleftrightarrow> (\<forall>i < n. mem (a + of_nat i) \<noteq> None)"

lemma those_map_Some: "(\<And>i. i \<in> set ixs \<Longrightarrow> f i = Some (g i)) \<Longrightarrow> those (map f ixs) = Some (map g ixs)"
  by (induction ixs) auto

lemma read_bytes_Some:
  assumes "mapped mem a n"
  shows "read_bytes mem a n = Some (map (\<lambda>i. the (mem (a + of_nat i))) [0..<n])"
  using assms unfolding read_bytes_def mapped_def by (intro those_map_Some) auto

lemma read_bytes_length: "read_bytes mem a n = Some bs \<Longrightarrow> length bs = n"
proof -
  have "those xs = Some bs \<Longrightarrow> length bs = length xs" for xs :: "u8 option list"
    by (induction xs arbitrary: bs) (auto split: option.splits)
  from this [of "map (\<lambda>i. mem (a + of_nat i)) [0..<n]"] show "read_bytes mem a n = Some bs \<Longrightarrow> length bs = n"
    by (simp add: read_bytes_def)
qed

text \<open>The address and the length that a register command names.\<close>

definition reg_addr :: "ipmi_msg \<Rightarrow> u32" where
  "reg_addr m = le32 (data m ! 0) (data m ! 1) (data m ! 2) (data m ! 3)"

lemma READ_BIC_REGISTER_answer:
  assumes "request_ok m" "data_len m = 5" "read_bytes mem (reg_addr m) (unat (data m ! 4)) = Some bs"
  shows "\<exists>m'. OEM_1S_READ_BIC_REGISTER mem m = Some m' \<and> good1s m m' \<and>
    completion_code m' = CC_SUCCESS \<and> msg_bytes m' = bs"
  using assms read_bytes_length [OF assms(3)]
  by (auto simp: OEM_1S_READ_BIC_REGISTER_def reg_addr_def Let_def good1s_defs msg_bytes_def blit_def
      order_trans [OF unat_u8_le])

lemma good1s_READ_BIC_REGISTER:
  assumes "request_ok m" "data_len m = 5 \<longrightarrow> mapped mem (reg_addr m) (unat (data m ! 4))"
  shows "\<exists>m'. OEM_1S_READ_BIC_REGISTER mem m = Some m' \<and> good1s m m'"
proof (cases "data_len m = 5")
  case True
  with READ_BIC_REGISTER_answer [OF assms(1) True read_bytes_Some] assms(2) show ?thesis by blast
next
  case False
  with assms(1) show ?thesis by (simp add: OEM_1S_READ_BIC_REGISTER_def)
qed

lemma bit_u8_high [simp]: "8 \<le> n \<Longrightarrow> \<not> bit (b :: u8) n"
  using bit_imp_le_length [of b n] by auto

lemma push_bit_mask: "push_bit n 1 - 1 = (mask n :: u32)"
  by (simp add: mask_eq_exp_minus_1 push_bit_eq_mult)

lemma byte_of_le32:
  "byte_of (le32 b0 b1 b2 b3) 0 = b0" "byte_of (le32 b0 b1 b2 b3) (Suc 0) = b1"
  "byte_of (le32 b0 b1 b2 b3) 2 = b2" "byte_of (le32 b0 b1 b2 b3) 3 = b3"
  unfolding byte_of_def le32_def
  by (rule bit_word_eqI, force simp: bit_simps)+

text \<open>Replacing the low bytes of a register value.\<close>

lemma merge_le32:
  "merge_bytes d [0..<1] (le32 b0 b1 b2 b3 AND NOT (push_bit 8 1 - 1)) = le32 (d ! 5) b1 b2 b3"
  "merge_bytes d [0..<2] (le32 b0 b1 b2 b3 AND NOT (push_bit 16 1 - 1)) = le32 (d ! 5) (d ! 6) b2 b3"
  "merge_bytes d [0..<3] (le32 b0 b1 b2 b3 AND NOT (push_bit 24 1 - 1)) = le32 (d ! 5) (d ! 6) (d ! 7) b3"
  unfolding le32_def push_bit_mask
  by (rule bit_word_eqI, auto simp: bit_simps upt_rec)+

lemma all_less_two: "(\<forall>i < (2 :: nat). P i) \<longleftrightarrow> P 0 \<and> P 1"
  by (auto simp: less_2_cases_iff)

lemma all_less_three: "(\<forall>i < (3 :: nat). P i) \<longleftrightarrow> P 0 \<and> P 1 \<and> P 2"
  by (auto simp: numeral_3_eq_3 numeral_2_eq_2 less_Suc_eq)

lemma mapped_four:
  assumes "mapped mem a 4"
  shows "\<exists>b0 b1 b2 b3. mem a = Some b0 \<and> mem (a + 1) = Some b1 \<and> mem (a + 2) = Some b2 \<and> mem (a + 3) = Some b3"
proof -
  have "mem (a + of_nat i) \<noteq> None" if "i < 4" for i using assms that by (simp add: mapped_def)
  from this [of 0] this [of 1] this [of 2] this [of 3] show ?thesis by auto
qed

lemma store32_le32:
  "store32 mem a (le32 x0 x1 x2 x3) = mem(a \<mapsto> x0, a + 1 \<mapsto> x1, a + 2 \<mapsto> x2, a + 3 \<mapsto> x3)"
  by (simp add: store32_def byte_of_le32)

text \<open>The first bytes of the new register value come from the request, the others stay.\<close>

lemma WRITE_BIC_REGISTER_step:
  assumes m: "data m ! 4 = of_nat n" "1 \<le> n" "n \<le> 3" "data_len m = of_nat (5 + n)"
    and al: "reg_addr m mod 4 = 0"
    and b: "mem (reg_addr m) = Some b0" "mem (reg_addr m + 1) = Some b1" "mem (reg_addr m + 2) = Some b2"
      "mem (reg_addr m + 3) = Some b3"
  shows "OEM_1S_WRITE_BIC_REGISTER mem m =
    Some (mem(reg_addr m \<mapsto> data m ! 5, reg_addr m + 1 \<mapsto> (if 2 \<le> n then data m ! 6 else b1),
        reg_addr m + 2 \<mapsto> (if n = 3 then data m ! 7 else b2), reg_addr m + 3 \<mapsto> b3),
      m\<lparr>data_len := 0, completion_code := CC_SUCCESS\<rparr>)"
proof -
  have n: "n = 1 \<or> n = 2 \<or> n = 3" using m(2,3) by linarith
  have ld: "load32 mem (reg_addr m) = Some (le32 b0 b1 b2 b3)" using b by (simp add: load32_def)
  have step: "OEM_1S_WRITE_BIC_REGISTER mem m =
      do { reg_data \<leftarrow> load32 mem (reg_addr m); mask \<leftarrow> BIT_MASK (unat (data m ! 4) * 8);
        Some (store32 mem (reg_addr m) (merge_bytes (data m) [0..<unat (data m ! 4)] (reg_data AND NOT mask)),
          m\<lparr>data_len := 0, completion_code := CC_SUCCESS\<rparr>) }"
    if "\<not> (data m ! 4 < 1 \<or> data m ! 4 > 4 \<or> unat (data_len m) \<noteq> 5 + unat (data m ! 4))"
    using that al by (simp add: OEM_1S_WRITE_BIC_REGISTER_def reg_addr_def Let_def)
  have "OEM_1S_WRITE_BIC_REGISTER mem m = Some (store32 mem (reg_addr m)
      (merge_bytes (data m) [0..<n] (le32 b0 b1 b2 b3 AND NOT (push_bit (n * 8) 1 - 1))),
      m\<lparr>data_len := 0, completion_code := CC_SUCCESS\<rparr>)"
    using step n m(1,4) al ld by (elim disjE) (simp_all add: BIT_MASK_def)
  also have "merge_bytes (data m) [0..<n] (le32 b0 b1 b2 b3 AND NOT (push_bit (n * 8) 1 - 1)) =
      le32 (data m ! 5) (if 2 \<le> n then data m ! 6 else b1) (if n = 3 then data m ! 7 else b2) b3"
    using n merge_le32 [of "data m" b0 b1 b2 b3]
    by (elim disjE; simp only: numeral_times_numeral arith_simps mult_1; simp (no_asm))
  finally show ?thesis by (simp only: store32_le32)
qed

text \<open>Writing needs the word to be mapped, and at most three bytes.\<close>

lemma store32_dom: "mem a \<noteq> None \<Longrightarrow> store32 mem b v a \<noteq> None"
  by (simp add: store32_def)

lemma good1s_WRITE_BIC_REGISTER:
  assumes "request_ok m" "mapped mem (reg_addr m) 4" "unat (data m ! 4) \<le> 3"
  shows "\<exists>mem' m'. OEM_1S_WRITE_BIC_REGISTER mem m = Some (mem', m') \<and> good1s m m' \<and>
    (\<forall>a. mem a \<noteq> None \<longrightarrow> mem' a \<noteq> None)"
proof -
  obtain v where v: "load32 mem (reg_addr m) = Some v"
    using mapped_four [OF assms(2)] by (auto simp: load32_def)
  obtain k where k: "BIT_MASK (unat (data m ! 4) * 8) = Some k" using assms(3) by (simp add: BIT_MASK_def)
  have g: "good1s m (m\<lparr>data_len := 0, completion_code := CC_SUCCESS\<rparr>)"
    using assms(1) by (simp add: good1s_defs)
  show ?thesis
    unfolding OEM_1S_WRITE_BIC_REGISTER_def Let_def reg_addr_def [symmetric] v k bind.bind_lunit
    using assms(1) g store32_dom by (auto simp del: not_None_eq)
qed

section \<open>Properties\<close>

text \<open>Write BIC Register and Read BIC Register: writing one to three bytes to a word-aligned
  register that is mapped succeeds, reading the same number of bytes back returns them, and no
  other byte of the address space changes.\<close>

theorem register_write_read_roundtrip:
  assumes m1: "request_ok m1" "data_len m1 = of_nat (5 + length bs)" "1 \<le> length bs" "length bs \<le> 3"
      "take (5 + length bs) (data m1) = [a0, a1, a2, a3, of_nat (length bs)] @ bs"
    and al: "le32 a0 a1 a2 a3 mod 4 = 0" "mapped mem (le32 a0 a1 a2 a3) 4"
    and m2: "request_ok m2" "data_len m2 = 5" "take 5 (data m2) = [a0, a1, a2, a3, of_nat (length bs)]"
  shows "\<exists>mem' r1 r2. OEM_1S_WRITE_BIC_REGISTER mem m1 = Some (mem', r1) \<and> completion_code r1 = CC_SUCCESS \<and>
    OEM_1S_READ_BIC_REGISTER mem' m2 = Some r2 \<and> completion_code r2 = CC_SUCCESS \<and> msg_bytes r2 = bs \<and>
    (\<forall>a. (\<forall>i < length bs. a \<noteq> le32 a0 a1 a2 a3 + of_nat i) \<longrightarrow> mem' a = mem a)"
proof -
  let ?A = "le32 a0 a1 a2 a3" and ?n = "length bs"
  obtain r1 where d1: "data m1 = [a0, a1, a2, a3, of_nat ?n] @ bs @ r1" using data_prefix [OF m1(5)] by auto
  obtain r2 where d2: "data m2 = [a0, a1, a2, a3, of_nat ?n] @ r2" using data_prefix [OF m2(3)] by auto
  obtain b0 b1 b2 b3 where b: "mem ?A = Some b0" "mem (?A + 1) = Some b1" "mem (?A + 2) = Some b2" "mem (?A + 3) = Some b3"
    using mapped_four [OF al(2)] by blast
  have A: "reg_addr m1 = ?A" "reg_addr m2 = ?A" by (simp_all add: reg_addr_def d1 d2)
  let ?mem = "mem(?A \<mapsto> data m1 ! 5, ?A + 1 \<mapsto> (if 2 \<le> ?n then data m1 ! 6 else b1),
        ?A + 2 \<mapsto> (if ?n = 3 then data m1 ! 7 else b2), ?A + 3 \<mapsto> b3)"
  have w: "OEM_1S_WRITE_BIC_REGISTER mem m1 = Some (?mem, m1\<lparr>data_len := 0, completion_code := CC_SUCCESS\<rparr>)"
    using WRITE_BIC_REGISTER_step [of m1 ?n mem b0 b1 b2 b3] m1 al(1) b by (simp add: A d1)
  have "?n = 1 \<or> ?n = 2 \<or> ?n = 3" using m1(3,4) by linarith
  then consider (one) x where "bs = [x]" | (two) x y where "bs = [x, y]" | (three) x y z where "bs = [x, y, z]"
    by (auto simp: length_Suc_conv numeral_2_eq_2 numeral_3_eq_3)
  note len = this
  have rd: "read_bytes ?mem ?A ?n = Some bs"
    by (cases rule: len) (simp_all add: read_bytes_def d1 upt_rec)
  have keep: "\<forall>a. (\<forall>i < ?n. a \<noteq> ?A + of_nat i) \<longrightarrow> ?mem a = mem a"
    using b by (cases rule: len) (auto simp: d1 all_less_two all_less_three)
  have "unat (data m2 ! 4) = ?n" using m1(4) by (simp add: d2)
  with READ_BIC_REGISTER_answer [OF m2(1,2), of ?mem bs] rd w keep show ?thesis by (auto simp: A)
qed

definition demo_mem :: memory where
  "demo_mem a = Some 0xAA"

theorem register_write_read_roundtrip_witness:
  "\<exists>mem' r1 r2. OEM_1S_WRITE_BIC_REGISTER demo_mem
      (zero_msg\<lparr>data_len := 7, data := [8, 0, 0, 0x40, 2, 0x11, 0x22] @ replicate 520 0\<rparr>) = Some (mem', r1) \<and>
    completion_code r1 = CC_SUCCESS \<and>
    OEM_1S_READ_BIC_REGISTER mem' (zero_msg\<lparr>data_len := 5, data := [8, 0, 0, 0x40, 2] @ replicate 522 0\<rparr>) = Some r2 \<and>
    completion_code r2 = CC_SUCCESS \<and> msg_bytes r2 = [0x11, 0x22] \<and>
    (\<forall>a. (\<forall>i < length [0x11, 0x22 :: u8]. a \<noteq> le32 8 0 0 0x40 + of_nat i) \<longrightarrow> mem' a = demo_mem a)"
  by (rule register_write_read_roundtrip)
    (simp_all add: request_ok_def wf_msg_def demo_mem_def mapped_def le32_def)

text \<open>A four-byte Write BIC Register has undefined behaviour: the mask is computed by shifting a
  32-bit one by 32 places.\<close>

theorem four_byte_register_write_undefined:
  assumes "data m ! 4 = 4" "data_len m = 9" "reg_addr m mod 4 = 0"
  shows "OEM_1S_WRITE_BIC_REGISTER mem m = None"
  using assms
  by (simp add: OEM_1S_WRITE_BIC_REGISTER_def reg_addr_def Let_def BIT_MASK_def split: option.splits)

theorem four_byte_register_write_undefined_witness:
  "OEM_1S_WRITE_BIC_REGISTER demo_mem
      (zero_msg\<lparr>data_len := 9, data := [8, 0, 0, 0x40, 4, 1, 2, 3, 4] @ replicate 518 0\<rparr>) = None"
  by (rule four_byte_register_write_undefined) (simp_all add: reg_addr_def le32_def)

end
