(* ===== verification/Oem1s_Gpio.thy ===== *)
theory Oem1s_Gpio
  imports Oem1s_Board
begin

text \<open>
  The GPIO commands of \<open>samples/ipmi_openbic/src/ipmi/oem_1s_handler.c\<close>. The pin table and the GPIO
  driver belong to the platform (\<open>gpio_plat\<close>, over a state \<open>'w\<close>). The tables are C arrays: an index
  that the request supplies is checked, and \<open>None\<close> means that the code reads outside of its table.
\<close>

section \<open>Platform services\<close>

datatype gpio_dir = GPIO_INPUT | GPIO_OUTPUT

record 'w gpio_plat =
  gpio_ind_to_num_table :: "u8 list"
  gpio_ind_to_num_table_cnt :: nat
  gpio_get :: "u8 \<Rightarrow> 'w \<Rightarrow> int \<times> 'w"
  gpio_set :: "u8 \<Rightarrow> u8 \<Rightarrow> 'w \<Rightarrow> 'w"
  gpio_get_direction :: "u8 \<Rightarrow> 'w \<Rightarrow> int \<times> 'w"
  gpio_conf :: "u8 \<Rightarrow> gpio_dir \<Rightarrow> 'w \<Rightarrow> 'w"
  TOTAL_GPIO_NUM :: nat
  gpio_is_init :: "bool list"
  vw_gpio_get :: "u8 \<Rightarrow> u8 list \<Rightarrow> 'w \<Rightarrow> bool \<times> u8 list \<times> 'w"
  vw_gpio_set :: "u8 \<Rightarrow> u8 \<Rightarrow> 'w \<Rightarrow> bool \<times> 'w"

section \<open>Reading all pins\<close>

text \<open>The loop over the pins; \<open>v\<close> is \<open>eight_bit_value\<close>.\<close>

fun gpio_collect :: "'w gpio_plat \<Rightarrow> nat list \<Rightarrow> u8 \<Rightarrow> u8 list \<Rightarrow> 'w \<Rightarrow> (u8 list \<times> 'w) option" where
  "gpio_collect p [] v d w = Some (d, w)"
| "gpio_collect p (i # ixs) v d w = do {
     (gpio_value, w) \<leftarrow> (if i \<ge> gpio_ind_to_num_table_cnt p then Some (0, w)
       else do {
         n \<leftarrow> load (gpio_ind_to_num_table p) i;
         let (r, w) = gpio_get p n w;
         Some (word_of_int r :: u8, w)
       });
     let v = (if i mod 8 = 0 then 0 else v) OR push_bit (i mod 8) gpio_value;
     d \<leftarrow> store d (i div 8) v;
     gpio_collect p ixs v d w
   }"

definition OEM_1S_GET_GPIO :: "'w gpio_plat \<Rightarrow> 'w \<Rightarrow> ipmi_msg \<Rightarrow> ('w \<times> ipmi_msg) option" where
  "OEM_1S_GET_GPIO p w msg =
     (if data_len msg \<noteq> 0 then Some (w, msg\<lparr>completion_code := CC_INVALID_LENGTH\<rparr>)
      else do {
        let cnt = gpio_ind_to_num_table_cnt p;
        let gpio_cnt = (of_nat (cnt + (8 - cnt mod 8)) :: u8);
        let len = gpio_cnt div 8;
        (d, w) \<leftarrow> gpio_collect p [0..<unat gpio_cnt] 0 (data msg) w;
        Some (w, msg\<lparr>data_len := ucast len, data := d, completion_code := CC_SUCCESS\<rparr>)
      })"

section \<open>One pin\<close>

text \<open>\<open>gpio_idx_exchange\<close> returns nonzero (here \<open>True\<close>) when the request is too short.\<close>

definition gpio_need_change :: "ipmi_msg \<Rightarrow> bool \<times> ipmi_msg" where
  "gpio_need_change msg =
     (let opt = data msg ! 0 in
      if opt = GET_GPIO_STATUS \<or> opt = GET_GPIO_DIRECTION_STATUS then
        if data_len msg = 3
        then (data msg ! 2 \<noteq> GLOBAL_GPIO_IDX_KEY, msg\<lparr>data_len := data_len msg - 1\<rparr>) else (True, msg)
      else if opt = SET_GPIO_OUTPUT_STATUS \<or> opt = SET_GPIO_DIRECTION_STATUS then
        if data_len msg = 4
        then (data msg ! 3 \<noteq> GLOBAL_GPIO_IDX_KEY, msg\<lparr>data_len := data_len msg - 1\<rparr>) else (True, msg)
      else (True, msg))"

definition gpio_idx_exchange :: "'w gpio_plat \<Rightarrow> ipmi_msg \<Rightarrow> (bool \<times> ipmi_msg) option" where
  "gpio_idx_exchange p msg =
     (if data_len msg < 2 then Some (True, msg)
      else do {
        let (need_change, msg) = gpio_need_change msg;
        if need_change then do {
          n \<leftarrow> load (gpio_ind_to_num_table p) (unat (data msg ! 1));
          Some (False, msg\<lparr>data := (data msg)[1 := n]\<rparr>)
        } else Some (False, msg)
      })"

definition OEM_1S_RECORD_DAM_PIN_STATUS :: "u8 \<Rightarrow> u8 \<Rightarrow> 'w \<Rightarrow> 'w" where
  "OEM_1S_RECORD_DAM_PIN_STATUS gpio_num status w = w"

definition gpio_command :: "'w gpio_plat \<Rightarrow> 'w \<Rightarrow> u8 \<Rightarrow> ipmi_msg \<Rightarrow> 'w \<times> ipmi_msg" where
  "gpio_command p w gpio_num msg =
     (let bad = msg\<lparr>data_len := 0, completion_code := CC_INVALID_LENGTH\<rparr>;
          good = (\<lambda>v. msg\<lparr>data := blit (data msg) 0 [gpio_num, v], data_len := 2, completion_code := CC_SUCCESS\<rparr>);
          opt = data msg ! 0 in
      if opt = GET_GPIO_STATUS then
        if data_len msg = 2 then let (v, w) = gpio_get p gpio_num w in (w, good (word_of_int v)) else (w, bad)
      else if opt = SET_GPIO_OUTPUT_STATUS then
        if data_len msg = 3 then
          let w = gpio_set p gpio_num (data msg ! 2) w;
              w = OEM_1S_RECORD_DAM_PIN_STATUS gpio_num (data msg ! 2) w;
              (v, w) = gpio_get p gpio_num w in
          (w, good (word_of_int v))
        else (w, bad)
      else if opt = GET_GPIO_DIRECTION_STATUS then
        if data_len msg = 2 then let (v, w) = gpio_get_direction p gpio_num w in (w, good (word_of_int v)) else (w, bad)
      else if opt = SET_GPIO_DIRECTION_STATUS then
        if data_len msg = 3 then
          (gpio_conf p gpio_num (if data msg ! 2 \<noteq> 0 then GPIO_OUTPUT else GPIO_INPUT) w, good (data msg ! 2))
        else (w, bad)
      else (w, msg))"

definition OEM_1S_GET_SET_GPIO :: "'w gpio_plat \<Rightarrow> 'w \<Rightarrow> ipmi_msg \<Rightarrow> ('w \<times> ipmi_msg) option" where
  "OEM_1S_GET_SET_GPIO p w msg = do {
     (fail, msg) \<leftarrow> gpio_idx_exchange p msg;
     if fail then Some (w, msg\<lparr>data_len := 0, completion_code := CC_PARAM_OUT_OF_RANGE\<rparr>)
     else
       let gpio_num = data msg ! 1 in
       if unat gpio_num \<ge> TOTAL_GPIO_NUM p
       then Some (w, msg\<lparr>data_len := 0, completion_code := CC_INVALID_LENGTH\<rparr>)
       else do {
         init \<leftarrow> load (gpio_is_init p) (unat gpio_num);
         if \<not> init then Some (w, msg\<lparr>data_len := 0, completion_code := CC_INVALID_DATA_FIELD\<rparr>)
         else Some (gpio_command p w gpio_num msg)
       }
   }"

text \<open>\<open>vw_gpio_get\<close> gets a pointer to the third data byte and writes from there on.\<close>

definition OEM_1S_GET_SET_BIC_VGPIO :: "'w gpio_plat \<Rightarrow> 'w \<Rightarrow> ipmi_msg \<Rightarrow> 'w \<times> ipmi_msg" where
  "OEM_1S_GET_SET_BIC_VGPIO p w msg =
     (let opt = data msg ! 0 in
      if opt = GET_VGPIO_DIRECTION_AND_STATUS then
        if data_len msg \<noteq> 2 then (w, msg\<lparr>completion_code := CC_INVALID_LENGTH, data_len := 0\<rparr>)
        else
          let (ok, rest, w) = vw_gpio_get p (data msg ! 1) (drop 2 (data msg)) w;
              msg = msg\<lparr>data := take 2 (data msg) @ rest\<rparr> in
          (w, if ok then msg\<lparr>completion_code := CC_SUCCESS, data_len := 4\<rparr>
              else msg\<lparr>completion_code := CC_UNSPECIFIED_ERROR, data_len := 0\<rparr>)
      else if opt = SET_VGPIO_STATUS then
        if data_len msg \<noteq> 3 then (w, msg\<lparr>completion_code := CC_INVALID_LENGTH, data_len := 0\<rparr>)
        else
          let (ok, w) = vw_gpio_set p (data msg ! 1) (data msg ! 2) w in
          (w, if ok then msg\<lparr>completion_code := CC_SUCCESS, data_len := 1\<rparr>
              else msg\<lparr>completion_code := CC_UNSPECIFIED_ERROR, data_len := 0\<rparr>)
      else (w, msg\<lparr>completion_code := CC_PARAM_OUT_OF_RANGE, data_len := 0\<rparr>))"

section \<open>The contract\<close>

text \<open>The index table has an entry for each of the first \<open>gpio_ind_to_num_table_cnt\<close> indices, the
  configuration table one for every pin, and the virtual GPIO driver stays inside of the message.\<close>

definition gpio_plat_ok :: "'w gpio_plat \<Rightarrow> bool" where
  "gpio_plat_ok p \<longleftrightarrow> gpio_ind_to_num_table_cnt p \<le> length (gpio_ind_to_num_table p) \<and>
     TOTAL_GPIO_NUM p \<le> length (gpio_is_init p) \<and>
     (\<forall>n d w. length (fst (snd (vw_gpio_get p n d w))) = length d)"

lemma gpio_collect_runs:
  assumes "gpio_ind_to_num_table_cnt p \<le> length (gpio_ind_to_num_table p)" "\<forall>i \<in> set ixs. i div 8 < length d"
  shows "\<exists>d' w'. gpio_collect p ixs v d w = Some (d', w') \<and> length d' = length d"
  using assms
proof (induction ixs arbitrary: v d w)
  case (Cons i ixs)
  have "\<exists>x. (if i \<ge> gpio_ind_to_num_table_cnt p then Some (0, w)
       else do {
         n \<leftarrow> load (gpio_ind_to_num_table p) i;
         let (r, w) = gpio_get p n w;
         Some (word_of_int r :: u8, w)
       }) = Some x"
    using Cons.prems(1) by (simp add: split_beta)
  then obtain gv w1 where f: "(if i \<ge> gpio_ind_to_num_table_cnt p then Some (0, w)
       else do {
         n \<leftarrow> load (gpio_ind_to_num_table p) i;
         let (r, w) = gpio_get p n w;
         Some (word_of_int r :: u8, w)
       }) = Some (gv, w1)" by (metis surj_pair)
  let ?v = "(if i mod 8 = 0 then 0 else v) OR push_bit (i mod 8) gv"
  have "\<exists>d' w'. gpio_collect p ixs ?v (d[i div 8 := ?v]) w1 = Some (d', w') \<and> length d' = length (d[i div 8 := ?v])"
    using Cons.prems by (intro Cons.IH) simp_all
  then show ?case
    using Cons.prems(2) by (simp add: f Let_def del: bind_eq_Some_conv)
qed simp

lemma good1s_GET_GPIO:
  assumes p: "gpio_plat_ok p" and m: "request_ok m"
  shows "\<exists>w' m'. OEM_1S_GET_GPIO p w m = Some (w', m') \<and> good1s m m'"
proof -
  let ?c = "of_nat (gpio_ind_to_num_table_cnt p + (8 - gpio_ind_to_num_table_cnt p mod 8)) :: u8"
  have "i div 8 < length (data m)" if "i < unat ?c" for i
  proof -
    have "i < 256" using that unat_u8_less [of ?c] by linarith
    then show ?thesis using m by simp
  qed
  then obtain d' w' where "gpio_collect p [0..<unat ?c] 0 (data m) w = Some (d', w')" "length d' = length (data m)"
    using gpio_collect_runs [of p "[0..<unat ?c]" "data m" 0 w] p by (auto simp: gpio_plat_ok_def)
  moreover have "unat (ucast (?c div 8) :: u16) \<le> 527" by (simp add: order_trans [OF unat_u8_le])
  ultimately show ?thesis
    using m by (auto simp: OEM_1S_GET_GPIO_def Let_def good1s_defs simp del: unat_ucast_u8_u16)
qed

lemma good1s_gpio_command: "request_ok m \<Longrightarrow> good1s m (snd (gpio_command p w n m))"
  by (auto simp: gpio_command_def Let_def split_beta good1s_defs)

text \<open>The index of a pin is looked up in the table; a request that names an index past its end
  reads outside of the table, unless it carries the key that marks a pin number.\<close>

definition gpio_index_ok :: "'w gpio_plat \<Rightarrow> ipmi_msg \<Rightarrow> bool" where
  "gpio_index_ok p m \<longleftrightarrow> unat (data m ! 1) < length (gpio_ind_to_num_table p)"

lemma gpio_need_change_shape: "\<exists>c k. gpio_need_change m = (c, m\<lparr>data_len := k\<rparr>) \<and> k \<le> data_len m"
proof -
  have A: "\<exists>c k. (b, m\<lparr>data_len := data_len m - 1\<rparr>) = (c, m\<lparr>data_len := k\<rparr>) \<and> k \<le> data_len m"
    if "data_len m = 3 \<or> data_len m = 4" for b
    using that by (intro exI [of _ b] exI [of _ "data_len m - 1"]) auto
  have B: "\<exists>c k. (b, m) = (c, m\<lparr>data_len := k\<rparr>) \<and> k \<le> data_len m" for b
    by (intro exI [of _ b] exI [of _ "data_len m"]) simp
  show ?thesis unfolding gpio_need_change_def Let_def
    by (simp only: split: if_split) (intro conjI impI; (rule B | rule A, simp only: simp_thms))
qed

lemma gpio_idx_exchange_good:
  assumes "gpio_index_ok p m" "request_ok m"
  shows "\<exists>b m'. gpio_idx_exchange p m = Some (b, m') \<and> request_ok m' \<and> good1s m m'"
proof -
  obtain c k where k: "gpio_need_change m = (c, m\<lparr>data_len := k\<rparr>)" "k \<le> data_len m"
    using gpio_need_change_shape by blast
  have "unat k \<le> IPMI_MSG_MAX_LENGTH"
    using k(2) request_ok_len [OF assms(2)] unfolding word_le_nat_alt by linarith
  then have "request_ok (m\<lparr>data_len := k, data := d\<rparr>) \<and> good1s m (m\<lparr>data_len := k, data := d\<rparr>)"
    if "length d = IPMI_MSG_MAX_LENGTH" for d
    using that by (auto intro!: request_okI good1sI simp: same_route_def)
  from this [of "data m"] this [of "(data m)[1 := x]" for x] show ?thesis
    using assms by (auto simp: gpio_idx_exchange_def gpio_index_ok_def k(1))
qed

lemma good1s_trans: "good1s a b \<Longrightarrow> good1s b c \<Longrightarrow> good1s a c"
  using same_route_trans by (auto simp: good_answer_def)

lemma good1s_GET_SET_GPIO:
  assumes p: "gpio_plat_ok p" "gpio_index_ok p m" and m: "request_ok m"
  shows "\<exists>w' m'. OEM_1S_GET_SET_GPIO p w m = Some (w', m') \<and> good1s m m'"
proof -
  obtain b m1 where x: "gpio_idx_exchange p m = Some (b, m1)" "request_ok m1" "good1s m m1"
    using gpio_idx_exchange_good [OF p(2) m] by blast
  have e: "good1s m (m1\<lparr>data_len := 0, completion_code := c\<rparr>)" for c
    using x(2,3) by (simp add: good1s_defs)
  obtain wc mc where gc: "gpio_command p w (data m1 ! Suc 0) m1 = (wc, mc)" by fastforce
  have g: "good1s m mc"
    using good1s_trans [OF x(3) good1s_gpio_command [OF x(2), of p w "data m1 ! 1"]] by (simp add: gc)
  have i: "unat n < length (gpio_is_init p)" if "\<not> TOTAL_GPIO_NUM p \<le> unat n" for n :: u8
    using that p(1) by (simp add: gpio_plat_ok_def)
  show ?thesis
    using x(1) e g i [of "data m1 ! 1"] by (auto simp: OEM_1S_GET_SET_GPIO_def Let_def gc)
qed

lemma good1s_VGPIO:
  assumes p: "gpio_plat_ok p" and m: "request_ok m"
  shows "good1s m (snd (OEM_1S_GET_SET_BIC_VGPIO p w m))"
proof -
  have l: "length (fst (snd (vw_gpio_get p n (drop 2 (data m)) w))) = 525" for n w
    using p m by (simp add: gpio_plat_ok_def)
  show ?thesis
    using m l by (auto simp: OEM_1S_GET_SET_BIC_VGPIO_def Let_def split_beta good1s_defs)
qed

section \<open>The packed pin values\<close>

text \<open>What the loop has built before pin \<open>j\<close>: the finished bytes, and the started one.\<close>

definition packed :: "(nat \<Rightarrow> bool) \<Rightarrow> nat \<Rightarrow> u8 \<Rightarrow> u8 list \<Rightarrow> bool" where
  "packed f j v d \<longleftrightarrow> (\<forall>q < j div 8. \<forall>b < 8. bit (d ! q) b \<longleftrightarrow> f (8 * q + b)) \<and>
     (j mod 8 \<noteq> 0 \<longrightarrow> (\<forall>b < 8. bit v b \<longleftrightarrow> b < j mod 8 \<and> f (8 * (j div 8) + b)))"

lemma packed_step:
  assumes "packed f j v d" "j div 8 < length d"
    and v': "v' = (if j mod 8 = 0 then 0 else v) OR push_bit (j mod 8) (of_bool (f j))"
  shows "packed f (Suc j) v' (d[j div 8 := v'])"
proof -
  have j: "8 * (j div 8) + j mod 8 = j" by simp
  have bits: "bit v' b \<longleftrightarrow> b < Suc (j mod 8) \<and> f (8 * (j div 8) + b)" if "b < 8" for b
  proof -
    have "bit (push_bit (j mod 8) (of_bool (f j)) :: u8) b \<longleftrightarrow> b = j mod 8 \<and> f j"
      using that by (auto simp: bit_simps)
    moreover have "bit (if j mod 8 = 0 then 0 else v) b \<longleftrightarrow> b < j mod 8 \<and> f (8 * (j div 8) + b)"
      using assms(1) that by (auto simp: packed_def)
    ultimately show ?thesis using j unfolding v' by (auto simp: bit_simps less_Suc_eq)
  qed
  show ?thesis
  proof (cases "Suc j mod 8 = 0")
    case True
    then have e: "Suc j div 8 = Suc (j div 8)" "j mod 8 = 7" by presburger+
    have old: "\<forall>q < j div 8. \<forall>b < 8. bit (d ! q) b \<longleftrightarrow> f (8 * q + b)" using assms(1) unfolding packed_def by blast
    have new: "\<forall>b < 8. bit v' b \<longleftrightarrow> f (8 * (j div 8) + b)" using bits unfolding e(2) by auto
    have "\<forall>q < Suc (j div 8). \<forall>b < 8. bit (d[j div 8 := v'] ! q) b \<longleftrightarrow> f (8 * q + b)"
      using old new assms(2) by (auto simp: less_Suc_eq)
    then show ?thesis unfolding packed_def e(1) using True by blast
  next
    case False
    then have e: "Suc j div 8 = j div 8" "Suc j mod 8 = Suc (j mod 8)" by presburger+
    show ?thesis unfolding packed_def e using assms(1,2) bits by (auto simp: packed_def nth_list_update)
  qed
qed

lemma gpio_collect_packed:
  assumes tab: "gpio_ind_to_num_table_cnt p \<le> length (gpio_ind_to_num_table p)"
    and get: "\<And>n. gpio_get p n w = (of_bool (pin n), w)"
    and f: "f = (\<lambda>i. i < gpio_ind_to_num_table_cnt p \<and> pin (gpio_ind_to_num_table p ! i))"
    and "packed f j v d" "j \<le> N" "N \<le> 8 * length d"
  shows "\<exists>d' v'. gpio_collect p [j..<N] v d w = Some (d', w) \<and> packed f N v' d' \<and> length d' = length d"
  using assms(4-6)
proof (induction "N - j" arbitrary: j v d)
  case 0
  then show ?case by auto
next
  case (Suc k)
  let ?v = "(if j mod 8 = 0 then 0 else v) OR push_bit (j mod 8) (of_bool (f j) :: u8)"
  have jN: "j < N" using Suc.hyps(2) by linarith
  then have d: "j div 8 < length d" using Suc.prems(3) by (simp add: less_mult_imp_div_less)
  have "gpio_collect p [j..<N] v d w = gpio_collect p [Suc j..<N] ?v (d[j div 8 := ?v]) w"
    using d tab by (simp add: upt_conv_Cons [OF jN] get f Let_def)
  moreover have "\<exists>d' v'. gpio_collect p [Suc j..<N] ?v (d[j div 8 := ?v]) w = Some (d', w) \<and> packed f N v' d' \<and>
      length d' = length (d[j div 8 := ?v])"
    using Suc jN packed_step [OF Suc.prems(1) d refl] by (intro Suc.hyps(1)) auto
  ultimately show ?case by simp
qed

text \<open>Get GPIO packs the pins of the index table, eight to a byte, lowest index in the lowest bit: on
  a platform with fewer than 248 entries whose reads are stable, the answer has one byte per started
  group of eight (and one more when the count is a multiple of eight), bit \<open>i mod 8\<close> of byte
  \<open>i div 8\<close> is the value of pin \<open>i\<close>, and the bits past the last pin are zero.\<close>

theorem get_gpio_packs_pins:
  assumes m: "request_ok m" "data_len m = 0"
    and tab: "gpio_ind_to_num_table_cnt p \<le> length (gpio_ind_to_num_table p)" "gpio_ind_to_num_table_cnt p < 248"
    and get: "\<And>n. gpio_get p n w = (of_bool (pin n), w)"
  shows "\<exists>r. OEM_1S_GET_GPIO p w m = Some (w, r) \<and> completion_code r = CC_SUCCESS \<and>
    length (msg_bytes r) = gpio_ind_to_num_table_cnt p div 8 + 1 \<and>
    (\<forall>i < 8 * length (msg_bytes r). bit (msg_bytes r ! (i div 8)) (i mod 8) \<longleftrightarrow>
      i < gpio_ind_to_num_table_cnt p \<and> pin (gpio_ind_to_num_table p ! i))"
proof -
  let ?c = "gpio_ind_to_num_table_cnt p"
  let ?N = "?c + (8 - ?c mod 8)" and ?f = "\<lambda>i. i < ?c \<and> pin (gpio_ind_to_num_table p ! i)"
  have N: "?N = 8 * (?c div 8 + 1)" by presburger
  have uN: "unat (of_nat ?N :: u8) = ?N" unfolding N using tab(2) by (intro unat_of_nat_u8) presburger
  have small: "?N \<le> 8 * 527" using tab(2) by presburger
  obtain d v where d: "gpio_collect p [0..<?N] 0 (data m) w = Some (d, w)" "packed ?f ?N v d" "length d = 527"
    using gpio_collect_packed [OF tab(1) get refl, of 0 0 "data m" ?N] m(1) small N by (auto simp: packed_def)
  let ?r = "m\<lparr>data_len := ucast ((of_nat ?N :: u8) div 8), data := d, completion_code := CC_SUCCESS\<rparr>"
  have r: "OEM_1S_GET_GPIO p w m = Some (w, ?r)"
    using m(2) d(1) uN by (simp add: OEM_1S_GET_GPIO_def Let_def)
  have len: "unat (data_len ?r) = ?c div 8 + 1"
    using uN N by (simp add: unat_div)
  have "?c div 8 + 1 \<le> 527" using tab(2) by presburger
  with len d(3) have bytes: "msg_bytes ?r = take (?c div 8 + 1) d" "length (msg_bytes ?r) = ?c div 8 + 1"
    by (simp_all add: msg_bytes_def)
  have "bit (msg_bytes ?r ! (i div 8)) (i mod 8) \<longleftrightarrow> ?f i" if i: "i < 8 * length (msg_bytes ?r)" for i
  proof -
    have "i div 8 < ?c div 8 + 1" using i bytes(2) by (simp add: less_mult_imp_div_less mult.commute)
    moreover have "?N div 8 = ?c div 8 + 1" using N by simp
    ultimately show ?thesis using d(2) bytes(1) by (simp add: packed_def)
  qed
  with r bytes(2) show ?thesis by auto
qed

text \<open>A board with nine pins, the odd ones high.\<close>

definition demo_gpio :: "(u8 \<Rightarrow> u8) gpio_plat" where
  "demo_gpio = \<lparr>gpio_ind_to_num_table = [0, 1, 2, 3, 4, 5, 6, 7, 8], gpio_ind_to_num_table_cnt = 9,
     gpio_get = \<lambda>n w. (uint (w n), w), gpio_set = \<lambda>n v w. w(n := v), gpio_get_direction = \<lambda>n w. (0, w),
     gpio_conf = \<lambda>n d w. w, TOTAL_GPIO_NUM = 9, gpio_is_init = replicate 9 True,
     vw_gpio_get = \<lambda>n d w. (True, d, w), vw_gpio_set = \<lambda>n v w. (True, w)\<rparr>"

lemma demo_gpio_ok: "gpio_plat_ok demo_gpio"
  by (simp add: gpio_plat_ok_def demo_gpio_def)

theorem get_gpio_packs_pins_witness:
  "\<exists>r. OEM_1S_GET_GPIO demo_gpio (\<lambda>n. of_bool (bit n 0)) zero_msg = Some (\<lambda>n. of_bool (bit n 0), r) \<and>
    completion_code r = CC_SUCCESS \<and> length (msg_bytes r) = gpio_ind_to_num_table_cnt demo_gpio div 8 + 1 \<and>
    (\<forall>i < 8 * length (msg_bytes r). bit (msg_bytes r ! (i div 8)) (i mod 8) \<longleftrightarrow>
      i < gpio_ind_to_num_table_cnt demo_gpio \<and> bit (gpio_ind_to_num_table demo_gpio ! i) 0)"
proof (rule get_gpio_packs_pins)
  show "request_ok zero_msg" "data_len zero_msg = 0" by (simp_all add: request_ok_def) (simp_all add: zero_msg_def)
  show "gpio_ind_to_num_table_cnt demo_gpio \<le> length (gpio_ind_to_num_table demo_gpio)"
    "gpio_ind_to_num_table_cnt demo_gpio < 248" by (simp_all add: demo_gpio_def)
  show "gpio_get demo_gpio n (\<lambda>n. of_bool (bit n 0)) = (of_bool (bit n 0), \<lambda>n. of_bool (bit n 0))" for n
    by (simp add: demo_gpio_def)
qed

end
