(* ===== verification/Oem1s_Io.thy ===== *)
theory Oem1s_Io
  imports Oem1s_Board Libutil
begin

text \<open>
  The commands of \<open>samples/ipmi_openbic/src/ipmi/oem_1s_handler.c\<close> that pass a request on to another
  interface: PECI, JTAG, APML, the post code buffers and MCTP/PLDM. The drivers are records of
  functions over a state \<open>'w\<close>; a driver that fills a buffer takes its old contents and returns the
  new ones. Build options are fields. Lengths that the request supplies are checked, and
  \<open>None\<close> means that the code leaves the bounds of an array.
\<close>

section \<open>PECI\<close>

record 'w peci_plat =
  CONFIG_PECI :: bool
  malloc_bytes :: "nat \<Rightarrow> 'w \<Rightarrow> u8 list option \<times> 'w"
  PECI_GET_DIB_CMD :: u8
  PECI_GET_TEMP0_CMD :: u8
  peci_ping :: "u8 \<Rightarrow> 'w \<Rightarrow> int \<times> 'w"
  peci_write :: "u8 \<Rightarrow> u8 \<Rightarrow> u8 \<Rightarrow> u8 list \<Rightarrow> u8 \<Rightarrow> u8 list \<Rightarrow> 'w \<Rightarrow> int \<times> u8 list \<times> 'w"

definition peci_transfer :: "'w peci_plat \<Rightarrow> 'w \<Rightarrow> ipmi_msg \<Rightarrow> ('w \<times> ipmi_msg) option" where
  "peci_transfer p w msg =
     (let ad = data msg ! 0; writeLen = data msg ! 1; readLen = data msg ! 2; c = data msg ! 3;
          (rb, w) = malloc_bytes p (if c = PECI_GET_DIB_CMD p \<or> c = PECI_GET_TEMP0_CMD p
                      then unat readLen + 1 else unat readLen) w;
          (wb, w) = malloc_bytes p (unat writeLen) w in
      case (rb, wb) of
        (Some readBuf, Some writeBuf) \<Rightarrow> do {
          writeBuf \<leftarrow> memcpy writeBuf 0 (data msg) 4 (unat writeLen);
          let (ret, readBuf, w) = peci_write p c ad readLen readBuf writeLen writeBuf w;
          if ret \<noteq> 0 then Some (w, msg\<lparr>completion_code := CC_UNSPECIFIED_ERROR\<rparr>)
          else do {
            d \<leftarrow> memcpy (data msg) 0 readBuf 0 (unat readLen);
            Some (w, msg\<lparr>data := d, data_len := ucast readLen, completion_code := CC_SUCCESS\<rparr>)
          }
        }
      | _ \<Rightarrow> Some (w, msg\<lparr>completion_code := CC_OUT_OF_SPACE\<rparr>))"

definition OEM_1S_PECI_ACCESS :: "'w peci_plat \<Rightarrow> 'w \<Rightarrow> ipmi_msg \<Rightarrow> ('w \<times> ipmi_msg) option" where
  "OEM_1S_PECI_ACCESS p w msg =
     (if data_len msg < 3 then Some (w, msg\<lparr>completion_code := CC_INVALID_LENGTH\<rparr>)
      else
        let writeLen = data msg ! 1; readLen = data msg ! 2; n = int (unat (data_len msg)) - 3 in
        if n \<noteq> int (unat writeLen) \<and> n \<noteq> int (unat writeLen) - 1
        then Some (w, msg\<lparr>completion_code := CC_INVALID_LENGTH\<rparr>)
        else if data_len msg = 3 then
          if writeLen = 0 \<and> readLen = 0 then
            let (ret, w) = peci_ping p (data msg ! 0) w in
            Some (w, msg\<lparr>data := (data msg)[0 := word_of_int ret], data_len := 1, completion_code := CC_SUCCESS\<rparr>)
          else Some (w, msg\<lparr>completion_code := CC_INVALID_LENGTH\<rparr>)
        else peci_transfer p w msg)"

section \<open>JTAG\<close>

record 'w jtag_plat =
  CONFIG_JTAG :: bool
  ENABLE_ASD :: bool
  jtag_set_tap :: "u8 \<Rightarrow> u8 \<Rightarrow> 'w \<Rightarrow> 'w"
  jtag_shift_data :: "u16 \<Rightarrow> u8 list \<Rightarrow> u16 \<Rightarrow> u8 list \<Rightarrow> u8 \<Rightarrow> 'w \<Rightarrow> u8 list \<times> 'w"
  enable_PRDY_interrupt :: "'w \<Rightarrow> 'w"
  disable_PRDY_interrupt :: "'w \<Rightarrow> 'w"

definition OEM_1S_SET_JTAG_TAP_STA :: "'w jtag_plat \<Rightarrow> 'w \<Rightarrow> ipmi_msg \<Rightarrow> 'w \<times> ipmi_msg" where
  "OEM_1S_SET_JTAG_TAP_STA p w msg =
     (if data_len msg \<noteq> 2 then (w, msg\<lparr>completion_code := CC_INVALID_LENGTH\<rparr>)
      else
        let tapbitlen = data msg ! 0; tapdata = data msg ! 1 in
        (jtag_set_tap p tapdata tapbitlen w, msg\<lparr>data_len := 0, completion_code := CC_SUCCESS\<rparr>))"

text \<open>The bit counts are 16 bits wide, so the byte counts reach 8192; the arrays \<open>shiftdata\<close> and
  \<open>receivedata\<close> live on the stack.\<close>

definition OEM_1S_JTAG_DATA_SHIFT :: "'w jtag_plat \<Rightarrow> 'w \<Rightarrow> ipmi_msg \<Rightarrow> ('w \<times> ipmi_msg) option" where
  "OEM_1S_JTAG_DATA_SHIFT p w msg = do {
     let writebitlen = le16 (data msg ! 0) (data msg ! 1);
     let databyte = (unat writebitlen + 7) div 8;
     hi \<leftarrow> load (data msg) (3 + databyte);
     lo \<leftarrow> load (data msg) (2 + databyte);
     let readbitlen = le16 lo hi;
     let readbyte = (unat readbitlen + 7) div 8;
     lastidx \<leftarrow> load (data msg) (4 + databyte);
     if unat (data_len msg) \<noteq> 5 + databyte then Some (w, msg\<lparr>completion_code := CC_INVALID_LENGTH\<rparr>)
     else do {
       shiftdata \<leftarrow> memcpy (replicate databyte 0) 0 (data msg) 2 databyte;
       let (receivedata, w) = jtag_shift_data p writebitlen shiftdata readbitlen (replicate readbyte 0) lastidx w;
       d \<leftarrow> memcpy (data msg) 0 receivedata 0 readbyte;
       Some (w, msg\<lparr>data := d, data_len := of_nat readbyte, completion_code := CC_SUCCESS\<rparr>)
     }
   }"

definition OEM_1S_ASD_INIT :: "'w jtag_plat \<Rightarrow> 'w \<Rightarrow> ipmi_msg \<Rightarrow> 'w \<times> ipmi_msg" where
  "OEM_1S_ASD_INIT p w msg =
     (if data_len msg \<noteq> 1 then (w, msg\<lparr>completion_code := CC_INVALID_LENGTH\<rparr>)
      else if data msg ! 0 = 0x01 then
        (enable_PRDY_interrupt p w, msg\<lparr>data_len := 0, completion_code := CC_SUCCESS\<rparr>)
      else if data msg ! 0 = 0xff then
        (disable_PRDY_interrupt p w, msg\<lparr>data_len := 0, completion_code := CC_SUCCESS\<rparr>)
      else (disable_PRDY_interrupt p w, msg\<lparr>completion_code := CC_INVALID_DATA_FIELD\<rparr>))"

section \<open>APML\<close>

text \<open>The callback of \<open>apml_msg\<close> is always the same function and is left out.\<close>

record apml_msg =
  msg_type :: u8
  msg_bus :: u8
  target_addr :: u8
  WrData :: "u8 list"
  RdData :: "u8 list"
  ui32_arg :: u32

record 'w apml_plat =
  ENABLE_APML :: bool
  apml_get_bus :: "'w \<Rightarrow> u8 \<times> 'w"
  SB_RMI_ADDR :: u8
  SB_TSI_ADDR :: u8
  apml_read_byte :: "u8 \<Rightarrow> u8 \<Rightarrow> u8 \<Rightarrow> 'w \<Rightarrow> int \<times> u8 \<times> 'w"
  apml_write_byte :: "u8 \<Rightarrow> u8 \<Rightarrow> u8 \<Rightarrow> u8 \<Rightarrow> 'w \<Rightarrow> int \<times> 'w"
  APML_MSG_TYPE_MAILBOX :: u8
  APML_MSG_TYPE_CPUID :: u8
  APML_MSG_TYPE_MCA :: u8
  command_code_two_byte :: "'w \<Rightarrow> bool"
  mailbox_sizes :: "nat \<times> nat"
  cpuid_sizes :: "nat \<times> nat \<times> nat"
  mca_sizes :: "nat \<times> nat \<times> nat"
  WrData_size :: nat
  RdData_size :: nat
  apml_read :: "apml_msg \<Rightarrow> 'w \<Rightarrow> int \<times> 'w"
  get_apml_response_by_index :: "u8 \<Rightarrow> 'w \<Rightarrow> int \<times> apml_msg \<times> 'w"

definition OEM_1S_APML_READ :: "'w apml_plat \<Rightarrow> 'w \<Rightarrow> ipmi_msg \<Rightarrow> 'w \<times> ipmi_msg" where
  "OEM_1S_APML_READ p w msg =
     (if data_len msg \<noteq> 2 then (w, msg\<lparr>completion_code := CC_INVALID_LENGTH\<rparr>)
      else
        let (apml_bus, w) = apml_get_bus p w;
            rd = (\<lambda>a. let (ret, read_data, w) = apml_read_byte p apml_bus a (data msg ! 1) w in
              (w, if ret \<noteq> 0 then msg\<lparr>completion_code := CC_UNSPECIFIED_ERROR\<rparr>
                  else msg\<lparr>data := (data msg)[0 := read_data], data_len := 1, completion_code := CC_SUCCESS\<rparr>)) in
        if data msg ! 0 = 0x00 then rd (SB_RMI_ADDR p)
        else if data msg ! 0 = 0x01 then rd (SB_TSI_ADDR p)
        else (w, msg\<lparr>completion_code := CC_UNSPECIFIED_ERROR\<rparr>))"

definition OEM_1S_APML_WRITE :: "'w apml_plat \<Rightarrow> 'w \<Rightarrow> ipmi_msg \<Rightarrow> 'w \<times> ipmi_msg" where
  "OEM_1S_APML_WRITE p w msg =
     (if data_len msg \<noteq> 3 then (w, msg\<lparr>completion_code := CC_INVALID_LENGTH\<rparr>)
      else
        let (apml_bus, w) = apml_get_bus p w;
            wr = (\<lambda>a. let (ret, w) = apml_write_byte p apml_bus a (data msg ! 1) (data msg ! 2) w in
              (w, msg\<lparr>completion_code := if ret \<noteq> 0 then CC_UNSPECIFIED_ERROR else CC_SUCCESS, data_len := 0\<rparr>)) in
        if data msg ! 0 = 0x00 then wr (SB_RMI_ADDR p)
        else if data msg ! 0 = 0x01 then wr (SB_TSI_ADDR p)
        else (w, msg\<lparr>completion_code := CC_UNSPECIFIED_ERROR, data_len := 0\<rparr>))"

text \<open>The size of the request data, by its type; \<open>None\<close> for an unknown type. The sizes are those of
  the write and read structures: \<open>mailbox\<close>, and for \<open>cpuid\<close> and \<open>mca\<close> the short and long form of the
  write structure and the read structure.\<close>

definition apml_wr_len :: "'w apml_plat \<Rightarrow> 'w \<Rightarrow> u8 \<Rightarrow> nat option" where
  "apml_wr_len p w t =
     (if t = APML_MSG_TYPE_MAILBOX p then Some (fst (mailbox_sizes p))
      else if t = APML_MSG_TYPE_CPUID p then
        Some (if command_code_two_byte p w then fst (snd (cpuid_sizes p)) else fst (cpuid_sizes p))
      else if t = APML_MSG_TYPE_MCA p then
        Some (if command_code_two_byte p w then fst (snd (mca_sizes p)) else fst (mca_sizes p))
      else None)"

definition OEM_1S_SEND_APML_REQUEST ::
    "'w apml_plat \<Rightarrow> u8 \<Rightarrow> 'w \<Rightarrow> ipmi_msg \<Rightarrow> (u8 \<times> 'w \<times> ipmi_msg) option" where
  "OEM_1S_SEND_APML_REQUEST p index w msg =
     (if data_len msg < 1 then Some (index, w, msg\<lparr>completion_code := CC_INVALID_LENGTH\<rparr>)
      else
        let (apml_bus, w) = apml_get_bus p w in
        case apml_wr_len p w (data msg ! 0) of
          None \<Rightarrow> Some (index, w, msg\<lparr>completion_code := CC_UNSPECIFIED_ERROR\<rparr>)
        | Some wr_len \<Rightarrow>
            if unat (data_len msg) \<noteq> 1 + wr_len
            then Some (index, w, msg\<lparr>completion_code := CC_INVALID_LENGTH\<rparr>)
            else do {
              wd \<leftarrow> memcpy (replicate (WrData_size p) 0) 0 (data msg) 1 wr_len;
              let apml_data = \<lparr>msg_type = data msg ! 0, msg_bus = apml_bus, target_addr = SB_RMI_ADDR p,
                WrData = wd, RdData = replicate (RdData_size p) 0, ui32_arg = ucast index\<rparr>;
              let (ret, w) = apml_read p apml_data w;
              if ret \<noteq> 0 then Some (index, w, msg\<lparr>completion_code := CC_UNSPECIFIED_ERROR\<rparr>)
              else Some (index + 1, w,
                msg\<lparr>data := (data msg)[0 := index], data_len := 1, completion_code := CC_SUCCESS\<rparr>)
            })"

definition OEM_1S_GET_APML_RESPONSE :: "'w apml_plat \<Rightarrow> 'w \<Rightarrow> ipmi_msg \<Rightarrow> ('w \<times> ipmi_msg) option" where
  "OEM_1S_GET_APML_RESPONSE p w msg =
     (if data_len msg \<noteq> 1 then Some (w, msg\<lparr>completion_code := CC_INVALID_LENGTH\<rparr>)
      else
        let (ret, apml_data, w) = get_apml_response_by_index p (data msg ! 0) w;
            t = msg_type apml_data;
            answer = (\<lambda>n. do {
              d \<leftarrow> memcpy (data msg) 0 (RdData apml_data) 0 n;
              Some (w, msg\<lparr>data := d, data_len := of_nat n, completion_code := CC_SUCCESS\<rparr>)
            }) in
        if ret \<noteq> 0 then Some (w, msg\<lparr>completion_code := CC_UNSPECIFIED_ERROR\<rparr>)
        else if t = APML_MSG_TYPE_MAILBOX p then answer (snd (mailbox_sizes p))
        else if t = APML_MSG_TYPE_CPUID p then answer (snd (snd (cpuid_sizes p)))
        else if t = APML_MSG_TYPE_MCA p then answer (snd (snd (mca_sizes p)))
        else Some (w, msg\<lparr>completion_code := CC_UNSPECIFIED_ERROR\<rparr>))"

section \<open>Post codes\<close>

abbreviation (input) FOUR_BYTE_POST_CODE_PAGE_SIZE :: nat where "FOUR_BYTE_POST_CODE_PAGE_SIZE \<equiv> 60"
abbreviation (input) SBMR_POST_CODE_PAGE_SIZE :: nat where "SBMR_POST_CODE_PAGE_SIZE \<equiv> 26"

text \<open>Which of the post code drivers the build has.\<close>

datatype post_driver = CONFIG_PCC_ASPEED | POST_MPRO | ENABLE_SBMR | NO_POST_DRIVER

record 'w post_plat =
  CONFIG_SNOOP_ASPEED :: bool
  POST_CODE_BUF_SIZE :: nat
  SNOOP_MAX_LEN :: nat
  snoop_read_num :: "'w \<Rightarrow> nat"
  copy_snoop_read_buffer :: "u8 \<Rightarrow> nat \<Rightarrow> u8 list \<Rightarrow> 'w \<Rightarrow> u8 list"
  post_code_driver :: post_driver
  copy_post_read_buffer :: "u16 \<Rightarrow> nat \<Rightarrow> u8 list \<Rightarrow> nat \<Rightarrow> 'w \<Rightarrow> u16 \<times> u8 list \<times> 'w"

definition post_code_window :: "'w post_plat \<Rightarrow> nat \<Rightarrow> nat \<times> u8" where
  "post_code_window p num =
     (if num > POST_CODE_BUF_SIZE p then
        (POST_CODE_BUF_SIZE p,
         if num > SNOOP_MAX_LEN p
         then word_of_int (int (num mod SNOOP_MAX_LEN p) + int (SNOOP_MAX_LEN p) - int (POST_CODE_BUF_SIZE p))
         else word_of_int (int (num mod SNOOP_MAX_LEN p) + int num - int (POST_CODE_BUF_SIZE p)))
      else (num, 0))"

definition OEM_1S_GET_POST_CODE :: "'w post_plat \<Rightarrow> 'w \<Rightarrow> ipmi_msg \<Rightarrow> ipmi_msg option" where
  "OEM_1S_GET_POST_CODE p w msg =
     (let num = snoop_read_num p w in
      if data_len msg \<noteq> 0 then Some (msg\<lparr>completion_code := CC_INVALID_LENGTH\<rparr>)
      else do {
        let (postcode_num, offset) = post_code_window p num;
        let d = (if num \<noteq> 0 then copy_snoop_read_buffer p offset postcode_num (data msg) w else data msg);
        d \<leftarrow> reverse_array_loop d postcode_num 0;
        Some (msg\<lparr>data := d, data_len := of_nat postcode_num, completion_code := CC_SUCCESS\<rparr>)
      })"

definition OEM_1S_GET_4BYTE_POST_CODE :: "'w post_plat \<Rightarrow> 'w \<Rightarrow> ipmi_msg \<Rightarrow> 'w \<times> ipmi_msg" where
  "OEM_1S_GET_4BYTE_POST_CODE p w msg =
     (if post_code_driver p = NO_POST_DRIVER then (w, msg\<lparr>data_len := 0, completion_code := CC_INVALID_CMD\<rparr>)
      else if data_len msg \<noteq> 1 then (w, msg\<lparr>completion_code := CC_INVALID_LENGTH\<rparr>)
      else
        let page = data msg ! 0;
            page_size = (if post_code_driver p = ENABLE_SBMR then SBMR_POST_CODE_PAGE_SIZE
                         else FOUR_BYTE_POST_CODE_PAGE_SIZE) in
        if page > 17 then (w, msg\<lparr>completion_code := CC_INVALID_DATA_FIELD\<rparr>)
        else
          let start_idx = of_nat (unat page * page_size);
              (read_len, d, w) = copy_post_read_buffer p start_idx page_size (data msg) IPMI_MSG_MAX_LENGTH w in
          (w, msg\<lparr>data := d, data_len := read_len AND 0xFF, completion_code := CC_SUCCESS\<rparr>))"

section \<open>MCTP and PLDM\<close>

text \<open>A PLDM request; the header fields that are constant are left out. \<open>get_mctp_info_by_eid\<close> answers
  with a handle for the MCTP instance and its parameters; \<open>pldm_buf_size\<close> is the size of the object
  that \<open>pmsg.buf\<close> denotes.\<close>

record pldm_msg =
  pldm_type :: u8
  pldm_cmd :: u8
  pldm_len :: nat
  pldm_buf :: "u8 list"

record 'w pldm_plat =
  PLDM_MAX_DATA_SIZE :: nat
  pldm_buf_size :: nat
  get_mctp_info_by_eid :: "u8 \<Rightarrow> 'w \<Rightarrow> nat option \<times> 'w"
  mctp_pldm_read :: "nat \<Rightarrow> pldm_msg \<Rightarrow> u8 list \<Rightarrow> 'w \<Rightarrow> u16 \<times> u8 list \<times> 'w"

definition OEM_1S_SEND_MCTP_PLDM_COMMAND :: "'w pldm_plat \<Rightarrow> 'w \<Rightarrow> ipmi_msg \<Rightarrow> ('w \<times> ipmi_msg) option" where
  "OEM_1S_SEND_MCTP_PLDM_COMMAND p w msg =
     (if data_len msg < 3 then Some (w, msg\<lparr>completion_code := CC_INVALID_LENGTH\<rparr>)
      else do {
        let len = unat (data_len msg) - 3;
        b \<leftarrow> memcpy (replicate (pldm_buf_size p) 0) 0 (data msg) 3 len;
        let pmsg = \<lparr>pldm_type = data msg ! 1, pldm_cmd = data msg ! 2, pldm_len = len, pldm_buf = b\<rparr>;
        let (inst, w) = get_mctp_info_by_eid p (data msg ! 0) w;
        case inst of
          None \<Rightarrow> Some (w, msg\<lparr>completion_code := CC_UNSPECIFIED_ERROR\<rparr>)
        | Some mctp_inst \<Rightarrow> do {
            let (resp_len, resp_buf, w) = mctp_pldm_read p mctp_inst pmsg (replicate (PLDM_MAX_DATA_SIZE p) 0) w;
            if resp_len = 0 then Some (w, msg\<lparr>completion_code := CC_CAN_NOT_RESPOND\<rparr>)
            else do {
              d \<leftarrow> memcpy (data msg) 0 resp_buf 0 (unat resp_len);
              Some (w, msg\<lparr>data := d, data_len := resp_len, completion_code := CC_SUCCESS\<rparr>)
            }
          }
      })"

section \<open>The contract\<close>

text \<open>What the drivers promise: an allocated block has the size that was asked for, a buffer keeps its
  size when a driver fills it, the structures of the protocols fit into the messages, and a PLDM
  response is no longer than the buffer that is passed for it.\<close>

definition peci_plat_ok :: "'w peci_plat \<Rightarrow> bool" where
  "peci_plat_ok p \<longleftrightarrow>
     (\<forall>n w b. fst (malloc_bytes p n w) = Some b \<longrightarrow> length b = n) \<and>
     (\<forall>c a r rb n wb w. length (fst (snd (peci_write p c a r rb n wb w))) = length rb)"

definition jtag_plat_ok :: "'w jtag_plat \<Rightarrow> bool" where
  "jtag_plat_ok p \<longleftrightarrow> (\<forall>n s r rb l w. length (fst (jtag_shift_data p n s r rb l w)) = length rb)"

definition apml_plat_ok :: "'w apml_plat \<Rightarrow> bool" where
  "apml_plat_ok p \<longleftrightarrow>
     (\<forall>t w n. apml_wr_len p w t = Some n \<longrightarrow> n \<le> WrData_size p) \<and>
     (\<forall>n \<in> {snd (mailbox_sizes p), snd (snd (cpuid_sizes p)), snd (snd (mca_sizes p))}.
        n \<le> RdData_size p \<and> n \<le> IPMI_MSG_MAX_LENGTH) \<and>
     (\<forall>i w. length (RdData (fst (snd (get_apml_response_by_index p i w)))) = RdData_size p)"

definition post_plat_ok :: "'w post_plat \<Rightarrow> bool" where
  "post_plat_ok p \<longleftrightarrow> POST_CODE_BUF_SIZE p \<le> IPMI_MSG_MAX_LENGTH \<and>
     (\<forall>off n d w. length (copy_snoop_read_buffer p off n d w) = length d) \<and>
     (\<forall>i n d k w. length (fst (snd (copy_post_read_buffer p i n d k w))) = length d)"

definition pldm_plat_ok :: "'w pldm_plat \<Rightarrow> bool" where
  "pldm_plat_ok p \<longleftrightarrow> PLDM_MAX_DATA_SIZE p \<le> IPMI_MSG_MAX_LENGTH \<and>
     (\<forall>i q b w. unat (fst (mctp_pldm_read p i q b w)) \<le> length b \<and>
        length (fst (snd (mctp_pldm_read p i q b w))) = length b)"

text \<open>The payload of a request that is copied into \<open>pmsg.buf\<close> without a check of its length.\<close>

definition pldm_payload_ok :: "'w pldm_plat \<Rightarrow> ipmi_msg \<Rightarrow> bool" where
  "pldm_payload_ok p m \<longleftrightarrow> unat (data_len m) - 3 \<le> pldm_buf_size p"

lemma good1s_peci_transfer:
  assumes p: "peci_plat_ok p" and m: "request_ok m"
  shows "runs1s m (peci_transfer p w m)"
proof -
  let ?n = "(if data m ! 3 = PECI_GET_DIB_CMD p \<or> data m ! 3 = PECI_GET_TEMP0_CMD p
      then unat (data m ! 2) + 1 else unat (data m ! 2))"
  obtain rb w1 where r: "malloc_bytes p ?n w = (rb, w1)" by fastforce
  obtain wb w2 where wr: "malloc_bytes p (unat (data m ! 1)) w1 = (wb, w2)" by fastforce
  note unf = peci_transfer_def Let_def r wr prod.case
  have mal: "fst (malloc_bytes p n w) = Some b \<Longrightarrow> length b = n" for n w b
    using p unfolding peci_plat_ok_def by blast
  note lr = mal [of ?n w, unfolded r fst_conv] and lw = mal [of "unat (data m ! 1)" w1, unfolded wr fst_conv]
  show ?thesis
  proof (cases "rb = None \<or> wb = None")
    case True
    then show ?thesis using runs1s_error [OF m] unfolding unf by (auto split: option.splits)
  next
    case False
    then obtain b c where bc: "rb = Some b" "wb = Some c" by auto
    have cp: "memcpy c 0 (data m) 4 (unat (data m ! 1)) = Some (blit c 0 (take (unat (data m ! 1)) (drop 4 (data m))))"
      using lw [OF bc(2)] m by (intro memcpy_Some) (simp_all add: order_trans [OF unat_u8_le])
    let ?c = "blit c 0 (take (unat (data m ! 1)) (drop 4 (data m)))"
    obtain ret rb' w3 where pw: "peci_write p (data m ! 3) (data m ! 0) (data m ! 2) b (data m ! 1) ?c w2 = (ret, rb', w3)"
      by (metis prod_cases3)
    have "length (fst (snd (peci_write p (data m ! 3) (data m ! 0) (data m ! 2) b (data m ! 1) ?c w2))) = length b"
      using p unfolding peci_plat_ok_def by blast
    then have l: "unat (data m ! 2) \<le> length rb'" using lr [OF bc(1)] unfolding pw by (simp split: if_splits)
    show ?thesis
      unfolding unf bc option.case cp bind.bind_lunit pw
      by (intro runs1s_intros m l) (simp_all add: order_trans [OF unat_u8_le])
  qed
qed

lemma good1s_PECI_ACCESS:
  assumes p: "peci_plat_ok p" and m: "request_ok m"
  shows "runs1s m (OEM_1S_PECI_ACCESS p w m)"
proof -
  obtain ret w1 where ping: "peci_ping p (data m ! 0) w = (ret, w1)" by fastforce
  show ?thesis
    unfolding OEM_1S_PECI_ACCESS_def Let_def ping prod.case
    by (intro runs1s_intros m good1s_peci_transfer [OF p m]) (simp_all add: m)
qed

lemma good1s_jtag:
  assumes "request_ok m"
  shows "good1s m (snd (OEM_1S_SET_JTAG_TAP_STA p w m))" "good1s m (snd (OEM_1S_ASD_INIT p w m))"
  using assms by (simp_all add: OEM_1S_SET_JTAG_TAP_STA_def OEM_1S_ASD_INIT_def Let_def good1s_defs)

text \<open>The byte counts that a shift request names.\<close>

definition jtag_databyte :: "ipmi_msg \<Rightarrow> nat" where
  "jtag_databyte m = (unat (le16 (data m ! 0) (data m ! 1)) + 7) div 8"

definition jtag_readbyte :: "ipmi_msg \<Rightarrow> nat" where
  "jtag_readbyte m =
     (unat (le16 (data m ! (2 + jtag_databyte m)) (data m ! (3 + jtag_databyte m))) + 7) div 8"

definition jtag_msg_ok :: "ipmi_msg \<Rightarrow> bool" where
  "jtag_msg_ok m \<longleftrightarrow> jtag_databyte m \<le> IPMI_MSG_MAX_LENGTH - 5 \<and>
     (unat (data_len m) = 5 + jtag_databyte m \<longrightarrow> jtag_readbyte m \<le> IPMI_MSG_MAX_LENGTH)"

lemma jtag_data_shift_unfold:
  assumes m: "request_ok m" and d: "jtag_databyte m \<le> IPMI_MSG_MAX_LENGTH - 5"
  shows "OEM_1S_JTAG_DATA_SHIFT p w m =
    (if unat (data_len m) \<noteq> 5 + jtag_databyte m then Some (w, m\<lparr>completion_code := CC_INVALID_LENGTH\<rparr>)
     else do {
       let (receivedata, w) = jtag_shift_data p (le16 (data m ! 0) (data m ! 1))
         (take (jtag_databyte m) (drop 2 (data m)))
         (le16 (data m ! (2 + jtag_databyte m)) (data m ! (3 + jtag_databyte m)))
         (replicate (jtag_readbyte m) 0) (data m ! (4 + jtag_databyte m)) w;
       d \<leftarrow> memcpy (data m) 0 receivedata 0 (jtag_readbyte m);
       Some (w, m\<lparr>data := d, data_len := of_nat (jtag_readbyte m), completion_code := CC_SUCCESS\<rparr>)
     })"
proof -
  let ?n = "jtag_databyte m"
  have "3 + ?n < length (data m)" "2 + ?n < length (data m)" "4 + ?n < length (data m)"
    using d m by simp_all
  then have ld: "load (data m) (3 + ?n) = Some (data m ! (3 + ?n))" "load (data m) (2 + ?n) = Some (data m ! (2 + ?n))"
    "load (data m) (4 + ?n) = Some (data m ! (4 + ?n))" by (simp_all only: load_Some)
  have "?n \<le> length (drop 2 (data m))" using d m by simp
  then have cp: "memcpy (replicate ?n 0) 0 (data m) 2 ?n = Some (take ?n (drop 2 (data m)))"
    using d m by (simp add: blit_def)
  show ?thesis
    unfolding OEM_1S_JTAG_DATA_SHIFT_def Let_def jtag_databyte_def [symmetric] ld bind.bind_lunit
      jtag_readbyte_def [symmetric] cp by (rule refl)
qed

lemma good1s_JTAG_DATA_SHIFT:
  assumes p: "jtag_plat_ok p" and m: "request_ok m" "jtag_msg_ok m"
  shows "runs1s m (OEM_1S_JTAG_DATA_SHIFT p w m)"
proof -
  have n: "jtag_databyte m \<le> IPMI_MSG_MAX_LENGTH - 5" using m(2) by (simp add: jtag_msg_ok_def)
  let ?s = "jtag_shift_data p (le16 (data m ! 0) (data m ! 1)) (take (jtag_databyte m) (drop 2 (data m)))
         (le16 (data m ! (2 + jtag_databyte m)) (data m ! (3 + jtag_databyte m)))
         (replicate (jtag_readbyte m) 0) (data m ! (4 + jtag_databyte m)) w"
  obtain r w1 where s: "?s = (r, w1)" by fastforce
  have "length (fst ?s) = length (replicate (jtag_readbyte m) (0 :: u8))" using p unfolding jtag_plat_ok_def by blast
  then have l: "length r = jtag_readbyte m" unfolding s by simp
  have b: "jtag_readbyte m \<le> IPMI_MSG_MAX_LENGTH" if "unat (data_len m) = 5 + jtag_databyte m"
    using m(2) that by (simp add: jtag_msg_ok_def)
  show ?thesis
    unfolding jtag_data_shift_unfold [OF m(1) n] s Let_def prod.case
    by (intro runs1s_intros m(1)) (use l b in auto)
qed

lemma good1s_apml:
  assumes "request_ok m"
  shows "good1s m (snd (OEM_1S_APML_READ p w m))" "good1s m (snd (OEM_1S_APML_WRITE p w m))"
  using assms by (simp_all add: OEM_1S_APML_READ_def OEM_1S_APML_WRITE_def Let_def split_beta good1s_defs)

text \<open>The request counter of APML is part of the state.\<close>

lemma good1s_SEND_APML_REQUEST:
  assumes p: "apml_plat_ok p" and m: "request_ok m"
  shows "\<exists>i' w' m'. OEM_1S_SEND_APML_REQUEST p i w m = Some (i', w', m') \<and> good1s m m'"
proof -
  obtain b w1 where bus: "apml_get_bus p w = (b, w1)" by fastforce
  have e: "\<exists>i' w' m'. Some (i0, w0, m\<lparr>completion_code := c\<rparr>) = Some (i', w', m') \<and> good1s m m'" for c w0 i0
    using m by simp
  have g: "\<exists>i' w' m'. Some (i0, w0, m\<lparr>data := (data m)[0 := x], data_len := 1, completion_code := c\<rparr>) =
      Some (i', w', m') \<and> good1s m m'" for c w0 i0 x
    using m by (auto intro!: good1sI simp: same_route_def)
  show ?thesis
  proof (cases "apml_wr_len p w1 (data m ! 0)")
    case None
    then show ?thesis unfolding OEM_1S_SEND_APML_REQUEST_def Let_def bus prod.case option.case using e by simp
  next
    case (Some n)
    show ?thesis
    proof (cases "unat (data_len m) = 1 + n")
      case True
      have "n \<le> WrData_size p" using p Some by (simp add: apml_plat_ok_def)
      moreover have "1 + n \<le> length (data m)" using True request_ok_len [OF m] m by simp
      ultimately have cp: "memcpy (replicate (WrData_size p) 0) 0 (data m) 1 n =
          Some (blit (replicate (WrData_size p) 0) 0 (take n (drop 1 (data m))))" by (intro memcpy_Some) simp_all
      show ?thesis
        unfolding OEM_1S_SEND_APML_REQUEST_def Let_def bus prod.case Some option.case cp bind.bind_lunit
        using e g by (auto split: prod.splits)
    next
      case False
      then show ?thesis
        unfolding OEM_1S_SEND_APML_REQUEST_def Let_def bus prod.case Some option.case using e by simp
    qed
  qed
qed

lemma good1s_GET_APML_RESPONSE:
  assumes p: "apml_plat_ok p" and m: "request_ok m"
  shows "runs1s m (OEM_1S_GET_APML_RESPONSE p w m)"
proof -
  obtain ret a w1 where r: "get_apml_response_by_index p (data m ! 0) w = (ret, a, w1)" by (metis prod_cases3)
  have "length (RdData (fst (snd (get_apml_response_by_index p (data m ! 0) w)))) = RdData_size p"
    using p unfolding apml_plat_ok_def by blast
  then have l: "length (RdData a) = RdData_size p" unfolding r by simp
  have s: "n \<le> IPMI_MSG_MAX_LENGTH \<and> n \<le> length (RdData a) \<and> unat (of_nat n :: u16) \<le> IPMI_MSG_MAX_LENGTH"
    if "n \<in> {snd (mailbox_sizes p), snd (snd (cpuid_sizes p)), snd (snd (mca_sizes p))}" for n
    using p that unfolding apml_plat_ok_def l by auto
  show ?thesis
    unfolding OEM_1S_GET_APML_RESPONSE_def Let_def r prod.case
    by (intro runs1s_intros m) (use s in blast)+
qed

lemma post_code_window_le: "post_plat_ok p \<Longrightarrow> fst (post_code_window p num) \<le> IPMI_MSG_MAX_LENGTH"
  by (auto simp: post_code_window_def post_plat_ok_def)

lemma GET_POST_CODE_answer:
  assumes p: "post_plat_ok p" and m: "request_ok m" "data_len m = 0"
    and n: "post_code_window p (snoop_read_num p w) = (n, off)"
    and d: "d = (if snoop_read_num p w \<noteq> 0 then copy_snoop_read_buffer p off n (data m) w else data m)"
  shows "OEM_1S_GET_POST_CODE p w m =
      Some (m\<lparr>data := rev (take n d) @ drop n d, data_len := of_nat n, completion_code := CC_SUCCESS\<rparr>)"
    and "n \<le> IPMI_MSG_MAX_LENGTH" "length d = IPMI_MSG_MAX_LENGTH"
proof -
  show le: "n \<le> IPMI_MSG_MAX_LENGTH" using post_code_window_le [OF p, of "snoop_read_num p w"] by (simp add: n)
  show len: "length d = IPMI_MSG_MAX_LENGTH" using p m(1) by (simp add: d post_plat_ok_def)
  have "reverse_array_loop d n 0 = Some (rev (take n d) @ drop n d)"
    using le len by (intro reverse_array_loop_rev) simp
  then show "OEM_1S_GET_POST_CODE p w m =
      Some (m\<lparr>data := rev (take n d) @ drop n d, data_len := of_nat n, completion_code := CC_SUCCESS\<rparr>)"
    unfolding OEM_1S_GET_POST_CODE_def Let_def n prod.case d [symmetric] by (simp add: m(2))
qed

lemma good1s_GET_POST_CODE:
  assumes p: "post_plat_ok p" and m: "request_ok m"
  shows "\<exists>m'. OEM_1S_GET_POST_CODE p w m = Some m' \<and> good1s m m'"
proof (cases "data_len m = 0")
  case True
  obtain n off where n: "post_code_window p (snoop_read_num p w) = (n, off)" by fastforce
  note a = GET_POST_CODE_answer [OF p m True n refl]
  show ?thesis unfolding a(1) using a(2,3) m by (simp add: good1s_set)
next
  case False
  then show ?thesis using m by (simp add: OEM_1S_GET_POST_CODE_def Let_def)
qed

lemma good1s_GET_4BYTE_POST_CODE:
  assumes p: "post_plat_ok p" and m: "request_ok m"
  shows "good1s m (snd (OEM_1S_GET_4BYTE_POST_CODE p w m))"
proof -
  have l: "length (fst (snd (copy_post_read_buffer p i n (data m) k w))) = IPMI_MSG_MAX_LENGTH" for i n k
    using p m by (simp add: post_plat_ok_def)
  have "unat (x AND 0xFF) \<le> 255" for x :: u16
    using word_and_le1 [of x "0xFF"] by (simp add: word_le_nat_alt)
  from order_trans [OF this] have "unat (x AND 0xFF) \<le> IPMI_MSG_MAX_LENGTH" for x :: u16 by simp
  with l m show ?thesis
    by (simp add: OEM_1S_GET_4BYTE_POST_CODE_def Let_def split_beta good1s_set good1s_defs)
qed

lemma good1s_SEND_MCTP_PLDM_COMMAND:
  assumes p: "pldm_plat_ok p" and payload: "pldm_payload_ok p m" and m: "request_ok m"
  shows "runs1s m (OEM_1S_SEND_MCTP_PLDM_COMMAND p w m)"
proof (cases "data_len m < 3")
  case True
  then show ?thesis using m by (simp add: OEM_1S_SEND_MCTP_PLDM_COMMAND_def runs1s_error)
next
  case False
  let ?n = "unat (data_len m) - 3"
  have n: "3 + ?n \<le> IPMI_MSG_MAX_LENGTH" using False request_ok_len [OF m] by (simp add: word_less_nat_alt)
  have buf: "?n \<le> pldm_buf_size p" using payload by (simp add: pldm_payload_ok_def)
  have cp: "memcpy (replicate (pldm_buf_size p) 0) 0 (data m) 3 ?n =
      Some (blit (replicate (pldm_buf_size p) 0) 0 (take ?n (drop 3 (data m))))"
    using n buf m by (intro memcpy_Some) simp_all
  obtain inst w1 where i: "get_mctp_info_by_eid p (data m ! 0) w = (inst, w1)" by fastforce
  have rd: "runs1s m (let (resp_len, resp_buf, w) = mctp_pldm_read p h q (replicate (PLDM_MAX_DATA_SIZE p) 0) w1
      in if resp_len = 0 then Some (w, m\<lparr>completion_code := CC_CAN_NOT_RESPOND\<rparr>)
         else do { d \<leftarrow> memcpy (data m) 0 resp_buf 0 (unat resp_len);
           Some (w, m\<lparr>data := d, data_len := resp_len, completion_code := CC_SUCCESS\<rparr>) })" for h q
  proof -
    let ?b = "replicate (PLDM_MAX_DATA_SIZE p) 0 :: u8 list"
    obtain l r w2 where x: "mctp_pldm_read p h q ?b w1 = (l, r, w2)" by (metis prod_cases3)
    have "unat (fst (mctp_pldm_read p h q ?b w1)) \<le> length ?b"
      "length (fst (snd (mctp_pldm_read p h q ?b w1))) = length ?b" "PLDM_MAX_DATA_SIZE p \<le> IPMI_MSG_MAX_LENGTH"
      using p unfolding pldm_plat_ok_def by blast+
    then have l: "unat l \<le> IPMI_MSG_MAX_LENGTH" "unat l \<le> length r" by (simp_all add: x)
    show ?thesis unfolding x Let_def prod.case by (intro runs1s_intros m l)
  qed
  show ?thesis
    using False rd unfolding OEM_1S_SEND_MCTP_PLDM_COMMAND_def Let_def cp bind.bind_lunit i prod.case
    by (cases inst) (simp_all add: runs1s_error m Let_def)
qed

section \<open>Properties\<close>

text \<open>C34. The bounds of JTAG Data Shift. The command trusts both bit counts of the request: it has
  undefined behaviour exactly when the shift data it announces does not leave room for its trailer in
  the message, or when the length fits and more than 527 bytes are to be read back, which then
  overwrite whatever follows the message.\<close>

theorem jtag_data_shift_bounds:
  assumes p: "jtag_plat_ok p" and m: "request_ok m"
  shows "OEM_1S_JTAG_DATA_SHIFT p w m = None \<longleftrightarrow>
    jtag_databyte m > IPMI_MSG_MAX_LENGTH - 5 \<or>
    unat (data_len m) = 5 + jtag_databyte m \<and> jtag_readbyte m > IPMI_MSG_MAX_LENGTH"
proof (cases "jtag_databyte m \<le> IPMI_MSG_MAX_LENGTH - 5")
  case False
  then have "\<not> 4 + jtag_databyte m < length (data m)" using m by simp
  then have "load (data m) (4 + jtag_databyte m) = None" by (simp add: load_def)
  then show ?thesis
    using False unfolding OEM_1S_JTAG_DATA_SHIFT_def Let_def jtag_databyte_def [symmetric]
    by (auto split: bind_splits)
next
  case True
  let ?s = "jtag_shift_data p (le16 (data m ! 0) (data m ! 1)) (take (jtag_databyte m) (drop 2 (data m)))
         (le16 (data m ! (2 + jtag_databyte m)) (data m ! (3 + jtag_databyte m)))
         (replicate (jtag_readbyte m) 0) (data m ! (4 + jtag_databyte m)) w"
  obtain r w1 where s: "?s = (r, w1)" by fastforce
  show ?thesis
  proof (cases "jtag_msg_ok m")
    case ok: True
    then show ?thesis using good1s_JTAG_DATA_SHIFT [OF p m ok, of w] True by (auto simp: runs1s_def jtag_msg_ok_def)
  next
    case False
    then have l: "unat (data_len m) = 5 + jtag_databyte m" "\<not> jtag_readbyte m \<le> IPMI_MSG_MAX_LENGTH"
      using True by (auto simp: jtag_msg_ok_def)
    then have "memcpy (data m) 0 r 0 (jtag_readbyte m) = None" using m by (simp add: memcpy_def)
    then show ?thesis
      unfolding jtag_data_shift_unfold [OF m True] s Let_def prod.case using l by simp
  qed
qed

definition demo_jtag :: "unit jtag_plat" where
  "demo_jtag = \<lparr>CONFIG_JTAG = True, ENABLE_ASD = True, jtag_set_tap = \<lambda>_ _ w. w,
     jtag_shift_data = \<lambda>_ _ _ rb _ w. (rb, w), enable_PRDY_interrupt = \<lambda>w. w, disable_PRDY_interrupt = \<lambda>w. w\<rparr>"

lemma demo_jtag_ok: "jtag_plat_ok demo_jtag"
  by (simp add: jtag_plat_ok_def demo_jtag_def)

theorem jtag_data_shift_bounds_witness:
  "OEM_1S_JTAG_DATA_SHIFT demo_jtag () (zero_msg\<lparr>data_len := 6, data := [8, 0, 0xAA, 0, 0x80, 0] @ replicate 521 0\<rparr>) = None"
  by (subst jtag_data_shift_bounds [OF demo_jtag_ok])
    (simp_all add: request_ok_def wf_msg_def jtag_databyte_def jtag_readbyte_def le16_def)

end
