(* ===== verification/Oem1s_Sensor.thy ===== *)
theory Oem1s_Sensor
  imports Oem1s_Board
begin

text \<open>
  The sensor commands of \<open>samples/ipmi_openbic/src/ipmi/oem_1s_handler.c\<close>: enabling the polling of all
  or of single sensors, and accurate readings of one or several sensors. The sensor table and the
  drivers belong to the platform (\<open>sensor1s_plat\<close>); the \<open>is_enable_polling\<close> members of
  \<open>sensor_config\<close> are a list of their own, because a command changes them.
\<close>

section \<open>Platform services\<close>

record 'w sensor1s_plat =
  sensor_poll_thread :: "'w \<Rightarrow> bool"
  enable_sensor_poll :: "'w \<Rightarrow> 'w"
  disable_sensor_poll :: "'w \<Rightarrow> 'w"
  GET_FROM_CACHE :: u8
  GET_FROM_SENSOR :: u8
  read_sensor :: "u8 \<Rightarrow> u8 \<Rightarrow> 'w \<Rightarrow> sensor_status \<times> int \<times> 'w"
  DISABLE_SENSOR_POLLING :: u8
  ENABLE_SENSOR_POLLING :: u8
  SENSOR_FAIL :: u8
  sensor_config_index_map :: "u8 list"

abbreviation (input) MAX_MULTI_ACCURACY_SENSOR_READING_QUERY_NUM :: u8
  where "MAX_MULTI_ACCURACY_SENSOR_READING_QUERY_NUM \<equiv> 32"
abbreviation (input) MAX_CONTROL_SENSOR_POLLING_COUNT :: u8 where "MAX_CONTROL_SENSOR_POLLING_COUNT \<equiv> 10"
abbreviation (input) ACCURACY_SENSOR_READING_RES_LEN_4BYTE :: nat where "ACCURACY_SENSOR_READING_RES_LEN_4BYTE \<equiv> 5"

section \<open>Polling\<close>

definition OEM_1S_SENSOR_POLL_EN :: "'w sensor1s_plat \<Rightarrow> 'w \<Rightarrow> ipmi_msg \<Rightarrow> 'w \<times> ipmi_msg" where
  "OEM_1S_SENSOR_POLL_EN p w msg =
     (if data_len msg \<noteq> 1 then (w, msg\<lparr>completion_code := CC_INVALID_LENGTH\<rparr>)
      else if data msg ! 0 = 1 then
        (enable_sensor_poll p w, msg\<lparr>data_len := 0, completion_code := CC_SUCCESS\<rparr>)
      else if data msg ! 0 = 0 then
        (disable_sensor_poll p w, msg\<lparr>data_len := 0, completion_code := CC_SUCCESS\<rparr>)
      else (w, msg\<lparr>completion_code := CC_INVALID_DATA_FIELD\<rparr>))"

fun control_polling_loop ::
    "'w sensor1s_plat \<Rightarrow> u8 \<Rightarrow> u8 list \<Rightarrow> nat \<Rightarrow> u8 list \<Rightarrow> u8 list \<Rightarrow> (u8 list \<times> u8 list) option" where
  "control_polling_loop p operation [] index d pol = Some (d, pol)"
| "control_polling_loop p operation (s # ss) index d pol = do {
     ci \<leftarrow> load (sensor_config_index_map p) (unat s);
     d \<leftarrow> store d (2 * index) s;
     (d, pol) \<leftarrow> (if ci \<noteq> SENSOR_FAIL p then do {
         pol \<leftarrow> store pol (unat ci) (if operation = DISABLE_SENSOR_POLLING p then DISABLE_SENSOR_POLLING p
                                   else ENABLE_SENSOR_POLLING p);
         v \<leftarrow> load pol (unat ci);
         d \<leftarrow> store d (2 * index + 1) v;
         Some (d, pol)
       } else do {
         d \<leftarrow> store d (2 * index + 1) (SENSOR_FAIL p);
         Some (d, pol)
       });
     control_polling_loop p operation ss (Suc index) d pol
   }"

definition OEM_1S_CONTROL_SENSOR_POLLING ::
    "'w sensor1s_plat \<Rightarrow> u8 list \<Rightarrow> ipmi_msg \<Rightarrow> (u8 list \<times> ipmi_msg) option" where
  "OEM_1S_CONTROL_SENSOR_POLLING p pol msg =
     (let total_sensor_count = data msg ! 0; operation = data msg ! 1 in
      if total_sensor_count > MAX_CONTROL_SENSOR_POLLING_COUNT
      then Some (pol, msg\<lparr>completion_code := CC_PARAM_OUT_OF_RANGE\<rparr>)
      else if operation \<noteq> DISABLE_SENSOR_POLLING p \<and> operation \<noteq> ENABLE_SENSOR_POLLING p
      then Some (pol, msg\<lparr>completion_code := CC_INVALID_DATA_FIELD\<rparr>)
      else if int (unat (data_len msg)) - 2 \<noteq> int (unat total_sensor_count)
      then Some (pol, msg\<lparr>completion_code := CC_LENGTH_EXCEEDED\<rparr>)
      else do {
        sensor_number \<leftarrow> memcpy (replicate (unat total_sensor_count) 0) 0 (data msg) 2 (unat total_sensor_count);
        (d, pol) \<leftarrow> control_polling_loop p operation sensor_number 0 (data msg) pol;
        Some (pol, msg\<lparr>data := d, data_len := 2 * ucast total_sensor_count, completion_code := CC_SUCCESS\<rparr>)
      })"

section \<open>Accurate readings\<close>

text \<open>\<open>res->decimal\<close> is the reading, converted to \<open>int16_t\<close> and stored in a \<open>uint16_t\<close>;
  \<open>res->fraction\<close> is \<open>(uint16_t)((d + 0.0005) * 1000)\<close> of the nonnegative integer difference \<open>d\<close>
  between the two, that is \<open>1000 d\<close>. Converting a \<open>double\<close> that does not fit is undefined.\<close>

definition reading_decimal :: "int \<Rightarrow> u16" where
  "reading_decimal reading = word_of_int reading"

definition reading_fraction :: "int \<Rightarrow> u16 option" where
  "reading_fraction reading =
     (let decimal = uint (reading_decimal reading);
          d = (if reading < 0 then decimal - reading else reading - decimal) in
      if d * 1000 \<le> 65535 then Some (word_of_int (d * 1000)) else None)"

definition OEM_1S_ACCURACY_SENSOR_READING :: "'w sensor1s_plat \<Rightarrow> 'w \<Rightarrow> ipmi_msg \<Rightarrow> ('w \<times> ipmi_msg) option" where
  "OEM_1S_ACCURACY_SENSOR_READING p w msg =
     (if data_len msg \<noteq> 2 then Some (w, msg\<lparr>completion_code := CC_INVALID_LENGTH\<rparr>)
      else
        let sensor_num = data msg ! 0; read_option = data msg ! 1;
            sensor_report_status = (if sensor_poll_thread p w then SENSOR_EVENT_MESSAGES_ENABLE OR SENSOR_SCANNING_ENABLE
                                    else SENSOR_EVENT_MESSAGES_ENABLE);
            (status, reading, w) =
              (if read_option = GET_FROM_CACHE p then
                 if sensor_poll_thread p w then read_sensor p sensor_num (GET_FROM_CACHE p) w
                 else (SENSOR_POLLING_DISABLE, 0, w)
               else if read_option = GET_FROM_SENSOR p then read_sensor p sensor_num (GET_FROM_SENSOR p) w
               else (SENSOR_UNSPECIFIED_ERROR, 0, w)) in
        if status = SENSOR_READ_SUCCESS \<or> status = SENSOR_READ_ACUR_SUCCESS then do {
          fraction \<leftarrow> reading_fraction reading;
          let decimal = reading_decimal reading;
          let d = blit (data msg) 0
            [ucast decimal, ucast (drop_bit 8 decimal), ucast fraction, ucast (drop_bit 8 fraction)];
          Some (w, msg\<lparr>data := d[3 := sensor_report_status], data_len := 4, completion_code := CC_SUCCESS\<rparr>)
        }
        else if status = SENSOR_READ_4BYTE_ACUR_SUCCESS then
          let r = word_of_int reading in
          Some (w, msg\<lparr>data := blit (data msg) 0
            [byte_of r 0, byte_of r 1, byte_of r 2, byte_of r 3, sensor_report_status],
            data_len := 5, completion_code := CC_SUCCESS\<rparr>)
        else if status = SENSOR_NOT_ACCESSIBLE \<or> status = SENSOR_INIT_STATUS \<or> status = SENSOR_NOT_PRESENT then
          Some (w, msg\<lparr>data := blit (data msg) 0
            [0, 0, 0, 0, sensor_report_status OR SENSOR_READING_STATE_UNAVAILABLE],
            data_len := 5, completion_code := CC_SUCCESS\<rparr>)
        else if status = SENSOR_POLLING_DISABLE then Some (w, msg\<lparr>completion_code := CC_SENSOR_NOT_PRESENT\<rparr>)
        else if status = SENSOR_FAIL_TO_ACCESS then Some (w, msg\<lparr>completion_code := CC_NODE_BUSY\<rparr>)
        else if status = SENSOR_NOT_FOUND then Some (w, msg\<lparr>completion_code := CC_INVALID_DATA_FIELD\<rparr>)
        else Some (w, msg\<lparr>completion_code := CC_UNSPECIFIED_ERROR\<rparr>))"

text \<open>The loop over the sensors; every sensor takes one byte for its number and five for the reading.\<close>

fun multi_reading_loop ::
    "'w sensor1s_plat \<Rightarrow> u8 list \<Rightarrow> nat \<Rightarrow> u8 list \<Rightarrow> 'w \<Rightarrow> (nat \<times> u8 list \<times> 'w) option" where
  "multi_reading_loop p [] ofs d w = Some (ofs, d, w)"
| "multi_reading_loop p (q # qs) ofs d w = do {
     let temp_msg = zero_msg\<lparr>data := (data zero_msg)[0 := q, 1 := GET_FROM_CACHE p], data_len := 2\<rparr>;
     (w, temp_msg) \<leftarrow> OEM_1S_ACCURACY_SENSOR_READING p w temp_msg;
     d \<leftarrow> store d ofs q;
     let resp = (if completion_code temp_msg = CC_SUCCESS \<and>
                    unat (data_len temp_msg) = ACCURACY_SENSOR_READING_RES_LEN_4BYTE
                 then take 5 (data temp_msg) else replicate 5 0xFF);
     d \<leftarrow> memcpy d (ofs + 1) resp 0 ACCURACY_SENSOR_READING_RES_LEN_4BYTE;
     multi_reading_loop p qs (ofs + 6) d w
   }"

definition OEM_1S_MULTI_ACCURACY_SENSOR_READING ::
    "'w sensor1s_plat \<Rightarrow> 'w \<Rightarrow> ipmi_msg \<Rightarrow> ('w \<times> ipmi_msg) option" where
  "OEM_1S_MULTI_ACCURACY_SENSOR_READING p w msg =
     (if data_len msg = 0 then Some (w, msg\<lparr>completion_code := CC_INVALID_LENGTH\<rparr>)
      else
        let query_sensor_number = (ucast (data_len msg) :: u8) in
        if query_sensor_number > MAX_MULTI_ACCURACY_SENSOR_READING_QUERY_NUM
        then Some (w, msg\<lparr>completion_code := CC_PARAM_OUT_OF_RANGE\<rparr>)
        else do {
          query_sensor \<leftarrow> memcpy (replicate (unat query_sensor_number) 0) 0 (data msg) 0 (unat query_sensor_number);
          (ofs, d, w) \<leftarrow> multi_reading_loop p query_sensor 0 (data msg) w;
          Some (w, msg\<lparr>data := d, data_len := of_nat ofs, completion_code := CC_SUCCESS\<rparr>)
        })"

section \<open>The contract\<close>

text \<open>What the commands rely on: the index map has an entry for every sensor number, and the entries lie
  inside of the sensor table (of \<open>n\<close> sensors).\<close>

definition sensor1s_plat_ok :: "'w sensor1s_plat \<Rightarrow> nat \<Rightarrow> bool" where
  "sensor1s_plat_ok p n \<longleftrightarrow> length (sensor_config_index_map p) = 256 \<and>
     (\<forall>ci \<in> set (sensor_config_index_map p). ci \<noteq> SENSOR_FAIL p \<longrightarrow> unat ci < n)"

text \<open>The check that the code misses: a plain reading of the sensor is a number of 16 bits. The sensors
  that a request of several readings names are the bytes that its length, cut to eight bits, covers.\<close>

definition reading_fits :: "'w sensor1s_plat \<Rightarrow> u8 \<Rightarrow> bool" where
  "reading_fits p q \<longleftrightarrow> (\<forall>o' w. fst (read_sensor p q o' w) \<in> {SENSOR_READ_SUCCESS, SENSOR_READ_ACUR_SUCCESS} \<longrightarrow>
     0 \<le> fst (snd (read_sensor p q o' w)) \<and> fst (snd (read_sensor p q o' w)) < 65536)"

definition multi_reading_fits :: "'w sensor1s_plat \<Rightarrow> ipmi_msg \<Rightarrow> bool" where
  "multi_reading_fits p m \<longleftrightarrow> (\<forall>q \<in> set (take (unat (ucast (data_len m) :: u8)) (data m)). reading_fits p q)"

lemma reading_fraction_eq: "reading_fraction r = (if 0 \<le> r \<and> r < 65536 then Some 0 else None)"
proof -
  have u: "uint (reading_decimal r) = r mod 65536"
    by (simp add: reading_decimal_def uint_word_of_int)
  consider "r < 0" | "0 \<le> r" "r < 65536" | "65536 \<le> r" by linarith
  then show ?thesis
  proof cases
    case 1
    then have "r div 65536 \<le> -1" using div_neg_pos_less0 [of r 65536] by linarith
    then have "65536 \<le> r mod 65536 - r" using mult_div_mod_eq [of 65536 r] by linarith
    then show ?thesis using 1 by (simp add: reading_fraction_def Let_def u)
  next
    case 2
    then show ?thesis by (simp add: reading_fraction_def Let_def u)
  next
    case 3
    then have "1 \<le> r div 65536" using pos_imp_zdiv_pos_iff [of 65536 r] by linarith
    then have "65536 \<le> r - r mod 65536" using mult_div_mod_eq [of 65536 r] by linarith
    then show ?thesis using 3 by (simp add: reading_fraction_def Let_def u)
  qed
qed

lemma good1s_SENSOR_POLL_EN: "request_ok m \<Longrightarrow> good1s m (snd (OEM_1S_SENSOR_POLL_EN p w m))"
  by (simp add: OEM_1S_SENSOR_POLL_EN_def good1s_defs)

lemma good1s_ACCURACY_SENSOR_READING:
  assumes p: "reading_fits p (data m ! 0)" and m: "request_ok m"
  shows "runs1s m (OEM_1S_ACCURACY_SENSOR_READING p w m)"
proof -
  let ?x = "(if data m ! 1 = GET_FROM_CACHE p then
                 if sensor_poll_thread p w then read_sensor p (data m ! 0) (GET_FROM_CACHE p) w
                 else (SENSOR_POLLING_DISABLE, 0, w)
               else if data m ! 1 = GET_FROM_SENSOR p then read_sensor p (data m ! 0) (GET_FROM_SENSOR p) w
               else (SENSOR_UNSPECIFIED_ERROR, 0, w))"
  obtain st r w1 where x: "?x = (st, r, w1)" by (metis prod_cases3)
  have rd: "0 \<le> fst (snd (read_sensor p q o' w)) \<and> fst (snd (read_sensor p q o' w)) < 65536"
    if "fst (read_sensor p q o' w) \<in> {SENSOR_READ_SUCCESS, SENSOR_READ_ACUR_SUCCESS}" "q = data m ! 0" for q o'
    using p that unfolding reading_fits_def by blast
  have "st = SENSOR_READ_SUCCESS \<or> st = SENSOR_READ_ACUR_SUCCESS \<Longrightarrow> 0 \<le> r \<and> r < 65536"
    using x rd [of "data m ! 0" "GET_FROM_CACHE p"] rd [of "data m ! 0" "GET_FROM_SENSOR p"]
    by (auto split: if_splits)
  then have f: "st = SENSOR_READ_SUCCESS \<or> st = SENSOR_READ_ACUR_SUCCESS \<Longrightarrow> reading_fraction r = Some 0"
    by (simp add: reading_fraction_eq)
  show ?thesis
    unfolding OEM_1S_ACCURACY_SENSOR_READING_def Let_def x prod.case
    using m f by (intro runs1s_intros) (auto simp: runs1s_def good1s_set)
qed

text \<open>The loop over the sensors keeps the size of the array and reads in bounds.\<close>

lemma multi_reading_loop_runs:
  assumes p: "\<forall>q \<in> set qs. reading_fits p q" and "ofs + 6 * length qs \<le> length d"
  shows "\<exists>d' w'. multi_reading_loop p qs ofs d w = Some (ofs + 6 * length qs, d', w') \<and> length d' = length d"
  using assms
proof (induction qs arbitrary: ofs d w)
  case (Cons q qs)
  let ?t = "zero_msg\<lparr>data := (data zero_msg)[0 := q, 1 := GET_FROM_CACHE p], data_len := 2\<rparr>"
  have "request_ok ?t" by (intro request_okI) simp_all
  moreover have "reading_fits p (data ?t ! 0)" using Cons.prems(1) by (simp add: zero_msg_def)
  ultimately obtain w1 t where t: "OEM_1S_ACCURACY_SENSOR_READING p w ?t = Some (w1, t)" "good1s ?t t"
    using good1s_ACCURACY_SENSOR_READING [of p ?t] unfolding runs1s_def by blast
  let ?r = "if completion_code t = CC_SUCCESS \<and> unat (data_len t) = 5 then take 5 (data t) else replicate 5 0xFF"
  have r: "length ?r = 5" using t(2) by (simp add: good_answer_def wf_msg_def)
  have s: "ofs < length d" "ofs + 1 + 5 \<le> length (d[ofs := q])" using Cons.prems by simp_all
  then have cp: "memcpy (d[ofs := q]) (ofs + 1) ?r 0 5 = Some (blit (d[ofs := q]) (ofs + 1) ?r)"
    using r by simp
  have l: "length (blit (d[ofs := q]) (ofs + 1) ?r) = length d" using s r by simp
  have "\<exists>d' w'. multi_reading_loop p qs (ofs + 6) (blit (d[ofs := q]) (ofs + 1) ?r) w1 =
      Some (ofs + 6 + 6 * length qs, d', w') \<and> length d' = length (blit (d[ofs := q]) (ofs + 1) ?r)"
    using Cons.prems l by (intro Cons.IH) simp_all
  then show ?case
    unfolding multi_reading_loop.simps Let_def t(1) bind.bind_lunit prod.case store_Some [OF s(1)] cp l
    by (simp add: add.assoc split del: if_split)
qed simp

lemma good1s_MULTI_ACCURACY_SENSOR_READING:
  assumes p: "multi_reading_fits p m" and m: "request_ok m"
  shows "runs1s m (OEM_1S_MULTI_ACCURACY_SENSOR_READING p w m)"
proof -
  let ?k = "ucast (data_len m) :: u8"
  have main: "runs1s m (do {
          query_sensor \<leftarrow> memcpy (replicate (unat ?k) 0) 0 (data m) 0 (unat ?k);
          (ofs, d, w) \<leftarrow> multi_reading_loop p query_sensor 0 (data m) w;
          Some (w, m\<lparr>data := d, data_len := of_nat ofs, completion_code := CC_SUCCESS\<rparr>) })" if "\<not> ?k > 32"
  proof -
    have k: "unat ?k \<le> 32" using that by (simp add: word_less_nat_alt)
    then have len: "length (take (unat ?k) (data m)) = unat ?k" using m by simp
    have cp: "memcpy (replicate (unat ?k) 0) 0 (data m) 0 (unat ?k) = Some (take (unat ?k) (data m))"
      using k m by (simp add: blit_def)
    obtain d' w' where l: "multi_reading_loop p (take (unat ?k) (data m)) 0 (data m) w = Some (6 * unat ?k, d', w')"
      "length d' = IPMI_MSG_MAX_LENGTH"
      using multi_reading_loop_runs [OF p [unfolded multi_reading_fits_def], of 0 "data m" w] k m len by auto
    have "unat (of_nat (6 * unat ?k) :: u16) = 6 * unat ?k" using k by (intro unat_of_nat_u16) linarith
    then have "unat (of_nat (6 * unat ?k) :: u16) \<le> IPMI_MSG_MAX_LENGTH" using k by linarith
    then show ?thesis
      unfolding cp bind.bind_lunit l(1) prod.case by (intro runs1s_set m l(2))
  qed
  show ?thesis
    unfolding OEM_1S_MULTI_ACCURACY_SENSOR_READING_def Let_def by (intro runs1s_if runs1s_error m main)
qed

section \<open>Control of single sensors\<close>

text \<open>What the command does to the polling flags and what it answers, sensor by sensor.\<close>

definition config_index :: "'w sensor1s_plat \<Rightarrow> u8 \<Rightarrow> u8" where
  "config_index p s = sensor_config_index_map p ! unat s"

definition set_polling :: "'w sensor1s_plat \<Rightarrow> u8 \<Rightarrow> u8 \<Rightarrow> u8 list \<Rightarrow> u8 list" where
  "set_polling p op s pol = (if config_index p s = SENSOR_FAIL p then pol else pol[unat (config_index p s) := op])"

definition polling_answer :: "'w sensor1s_plat \<Rightarrow> u8 \<Rightarrow> u8 list \<Rightarrow> u8 list" where
  "polling_answer p op ss = concat (map (\<lambda>s. [s, if config_index p s = SENSOR_FAIL p then SENSOR_FAIL p else op]) ss)"

lemma length_set_polling [simp]: "length (set_polling p op s pol) = length pol"
  by (simp add: set_polling_def)

lemma length_fold_set_polling [simp]: "length (fold (set_polling p op) ss pol) = length pol"
  by (induction ss arbitrary: pol) simp_all

lemma length_polling_answer [simp]: "length (polling_answer p op ss) = 2 * length ss"
  by (induction ss) (simp_all add: polling_answer_def)

lemma fold_set_polling_nth:
  assumes "j < length pol"
  shows "fold (set_polling p op) ss pol ! j =
    (if \<exists>s \<in> set ss. config_index p s \<noteq> SENSOR_FAIL p \<and> unat (config_index p s) = j then op else pol ! j)"
  using assms
proof (induction ss arbitrary: pol)
  case (Cons s ss)
  then show ?case by (auto simp: set_polling_def nth_list_update)
qed simp

lemma blit_pair: "k + 1 < length d \<Longrightarrow> d[k := a, k + 1 := b] = blit d k [a, b]"
  by (rule nth_equalityI) (auto simp: nth_blit nth_list_update less_Suc_eq)

lemma blit_append:
  "k + length xs + length ys \<le> length d \<Longrightarrow> blit (blit d k xs) (k + length xs) ys = blit d k (xs @ ys)"
  by (rule nth_equalityI) (auto simp: nth_blit nth_append)

lemma control_polling_loop_eq:
  assumes p: "sensor1s_plat_ok p (length pol)" and "2 * (index + length ss) \<le> length d"
    and op: "op = (if operation = DISABLE_SENSOR_POLLING p then DISABLE_SENSOR_POLLING p else ENABLE_SENSOR_POLLING p)"
  shows "control_polling_loop p operation ss index d pol =
    Some (blit d (2 * index) (polling_answer p op ss), fold (set_polling p op) ss pol)"
  using assms(1,2)
proof (induction ss arbitrary: index d pol)
  case Nil
  then show ?case by (simp add: polling_answer_def blit_def)
next
  case (Cons s ss)
  let ?i = "config_index p s" let ?v = "if ?i = SENSOR_FAIL p then SENSOR_FAIL p else op"
  have len: "length (sensor_config_index_map p) = 256" using Cons.prems(1) by (simp add: sensor1s_plat_ok_def)
  then have ld: "load (sensor_config_index_map p) (unat s) = Some ?i" by (simp add: config_index_def)
  have "?i \<in> set (sensor_config_index_map p)" using len by (simp add: config_index_def)
  then have ci: "?i \<noteq> SENSOR_FAIL p \<Longrightarrow> unat ?i < length pol" using Cons.prems(1) by (simp add: sensor1s_plat_ok_def)
  have k: "2 * index < length d" "2 * index + 1 < length d" using Cons.prems(2) by simp_all
  have "control_polling_loop p operation (s # ss) index d pol =
      control_polling_loop p operation ss (Suc index) (d[2 * index := s, 2 * index + 1 := ?v]) (set_polling p op s pol)"
    using k ci by (simp add: ld set_polling_def op)
  also have "d[2 * index := s, 2 * index + 1 := ?v] = blit d (2 * index) [s, ?v]"
    using k(2) by (rule blit_pair)
  also have "control_polling_loop p operation ss (Suc index) (blit d (2 * index) [s, ?v]) (set_polling p op s pol) =
      Some (blit (blit d (2 * index) [s, ?v]) (2 * Suc index) (polling_answer p op ss), fold (set_polling p op) (s # ss) pol)"
    using Cons.prems by (subst Cons.IH) simp_all
  also have "blit (blit d (2 * index) [s, ?v]) (2 * Suc index) (polling_answer p op ss) =
      blit d (2 * index) (polling_answer p op (s # ss))"
    using blit_append [of "2 * index" "[s, ?v]" "polling_answer p op ss" d] Cons.prems(2)
    by (simp add: polling_answer_def [of p op "s # ss"]) (simp add: polling_answer_def)
  finally show ?case .
qed

lemma CONTROL_SENSOR_POLLING_answer:
  assumes p: "sensor1s_plat_ok p (length pol)" and m: "request_ok m"
    and n: "unat (data m ! 0) \<le> 10" "unat (data_len m) = 2 + unat (data m ! 0)"
    and op: "data m ! 1 = op" "op = DISABLE_SENSOR_POLLING p \<or> op = ENABLE_SENSOR_POLLING p"
    and ss: "ss = take (unat (data m ! 0)) (drop 2 (data m))"
  shows "OEM_1S_CONTROL_SENSOR_POLLING p pol m =
    Some (fold (set_polling p op) ss pol, m\<lparr>data := blit (data m) 0 (polling_answer p op ss),
      data_len := 2 * ucast (data m ! 0), completion_code := CC_SUCCESS\<rparr>)"
proof -
  let ?n = "unat (data m ! 0)"
  have l: "length ss = ?n" using n(1) m by (simp add: ss)
  have cp: "memcpy (replicate ?n 0) 0 (data m) 2 ?n = Some ss"
    using n(1) m l by (simp add: blit_def ss)
  have o1: "op = (if op = DISABLE_SENSOR_POLLING p then DISABLE_SENSOR_POLLING p else ENABLE_SENSOR_POLLING p)"
    using op(2) by auto
  have "control_polling_loop p op ss 0 (data m) pol =
      Some (blit (data m) (2 * 0) (polling_answer p op ss), fold (set_polling p op) ss pol)"
    using l n(1) m by (intro control_polling_loop_eq [OF p _ o1]) simp
  moreover have "\<not> data m ! 0 > 10" using n(1) by (simp add: word_less_nat_alt)
  moreover have "int (unat (data_len m)) - 2 = int ?n" using n(2) by simp
  ultimately show ?thesis
    unfolding OEM_1S_CONTROL_SENSOR_POLLING_def Let_def op(1) cp bind.bind_lunit using op(2) by auto
qed

lemma good1s_CONTROL_SENSOR_POLLING:
  assumes p: "sensor1s_plat_ok p (length pol)" and m: "request_ok m"
  shows "\<exists>pol' m'. OEM_1S_CONTROL_SENSOR_POLLING p pol m = Some (pol', m') \<and> good1s m m' \<and> length pol' = length pol"
proof (cases "unat (data m ! 0) \<le> 10 \<and> unat (data_len m) = 2 + unat (data m ! 0) \<and>
    (data m ! 1 = DISABLE_SENSOR_POLLING p \<or> data m ! 1 = ENABLE_SENSOR_POLLING p)")
  case True
  then have c: "unat (data m ! 0) \<le> 10" "unat (data_len m) = 2 + unat (data m ! 0)" by blast+
  let ?ss = "take (unat (data m ! 0)) (drop 2 (data m))"
  have u: "unat (2 * ucast (data m ! 0) :: u16) = 2 * unat (data m ! 0)"
    using c(1) by (simp add: unat_word_ariths)
  have l: "length (blit (data m) 0 (polling_answer p (data m ! 1) ?ss)) = IPMI_MSG_MAX_LENGTH"
    using c(1) m by simp
  show ?thesis
    using CONTROL_SENSOR_POLLING_answer [OF p m c refl _ refl] True good1s_set [OF m l, of "2 * ucast (data m ! 0)"] u c(1)
    by auto
next
  case False
  have eq: "int (unat (data_len m)) - 2 \<noteq> int (unat (data m ! 0)) \<longleftrightarrow> unat (data_len m) \<noteq> 2 + unat (data m ! 0)" by linarith
  from False have "data m ! 0 > 10 \<or> int (unat (data_len m)) - 2 \<noteq> int (unat (data m ! 0)) \<or>
      \<not> (data m ! 1 = DISABLE_SENSOR_POLLING p \<or> data m ! 1 = ENABLE_SENSOR_POLLING p)"
    unfolding eq word_less_nat_alt by auto
  then show ?thesis
    unfolding OEM_1S_CONTROL_SENSOR_POLLING_def Let_def using m by auto
qed

section \<open>Properties\<close>

text \<open>Control Sensor Polling: a well-formed request for at most ten sensors sets the polling flag of
  every listed sensor that the platform has, leaves all other flags alone, and answers with each
  sensor number followed by its new flag, or by the failure code for an unknown sensor.\<close>

theorem control_sensor_polling_correct:
  assumes p: "sensor1s_plat_ok p (length pol)" and m: "request_ok m"
    and ss: "length ss \<le> 10" "data_len m = of_nat (2 + length ss)"
      "take (2 + length ss) (data m) = of_nat (length ss) # op # ss"
    and op: "op = DISABLE_SENSOR_POLLING p \<or> op = ENABLE_SENSOR_POLLING p"
  shows "\<exists>pol' r. OEM_1S_CONTROL_SENSOR_POLLING p pol m = Some (pol', r) \<and> completion_code r = CC_SUCCESS \<and>
    msg_bytes r = concat (map (\<lambda>s. [s, if config_index p s = SENSOR_FAIL p then SENSOR_FAIL p else op]) ss) \<and>
    length pol' = length pol \<and>
    (\<forall>j < length pol. pol' ! j =
      (if \<exists>s \<in> set ss. config_index p s \<noteq> SENSOR_FAIL p \<and> unat (config_index p s) = j then op else pol ! j))"
proof -
  obtain r where d: "data m = of_nat (length ss) # op # ss @ r" using data_prefix [OF ss(3)] by auto
  have n: "unat (data m ! 0) = length ss" using ss(1) by (simp add: d)
  have dl: "unat (data_len m) = 2 + unat (data m ! 0)" unfolding n ss(2) using ss(1) by (intro unat_of_nat_u16) simp
  have tk: "ss = take (unat (data m ! 0)) (drop 2 (data m))" unfolding n by (simp add: d)
  have "unat (2 * ucast (data m ! 0) :: u16) = 2 * length ss"
    using ss(1) n by (simp add: unat_word_ariths)
  then have b: "msg_bytes (m\<lparr>data := blit (data m) 0 (polling_answer p op ss), data_len := 2 * ucast (data m ! 0),
      completion_code := CC_SUCCESS\<rparr>) = polling_answer p op ss"
    by (simp add: msg_bytes_def blit_def)
  have "OEM_1S_CONTROL_SENSOR_POLLING p pol m = Some (fold (set_polling p op) ss pol,
      m\<lparr>data := blit (data m) 0 (polling_answer p op ss), data_len := 2 * ucast (data m ! 0), completion_code := CC_SUCCESS\<rparr>)"
    using ss(1) n dl op by (intro CONTROL_SENSOR_POLLING_answer [OF p m _ _ _ _ tk]) (simp_all add: d)
  with b show ?thesis by (auto simp: fold_set_polling_nth polling_answer_def)
qed

text \<open>An accurate reading is undefined behaviour exactly when the value is not a number of 16 bits: the
  fraction is computed from the difference of a truncated 16-bit number and the reading, which does not
  fit into the 16 bits it is converted to.\<close>

theorem sensor_reading_out_of_range:
  assumes "data_len m = 2" "data m ! 1 = GET_FROM_SENSOR p" "GET_FROM_SENSOR p \<noteq> GET_FROM_CACHE p"
    and "read_sensor p (data m ! 0) (GET_FROM_SENSOR p) w = (SENSOR_READ_SUCCESS, reading, w')"
  shows "OEM_1S_ACCURACY_SENSOR_READING p w m = None \<longleftrightarrow> reading < 0 \<or> 65536 \<le> reading"
  using assms by (auto simp: OEM_1S_ACCURACY_SENSOR_READING_def Let_def reading_fraction_eq)

text \<open>A platform with two sensors, numbered 5 and 7, the first of which reads 40.\<close>

definition demo_sensors :: "bool sensor1s_plat" where
  "demo_sensors = \<lparr>sensor_poll_thread = (\<lambda>w. w), enable_sensor_poll = (\<lambda>_. True), disable_sensor_poll = (\<lambda>_. False),
     GET_FROM_CACHE = 0, GET_FROM_SENSOR = 1,
     read_sensor = \<lambda>q _ w. if q = 5 then (SENSOR_READ_SUCCESS, 40, w) else (SENSOR_NOT_FOUND, 0, w),
     DISABLE_SENSOR_POLLING = 0, ENABLE_SENSOR_POLLING = 1, SENSOR_FAIL = 0xFF,
     sensor_config_index_map = (replicate 256 0xFF)[5 := 0, 7 := 1]\<rparr>"

lemma set_two_updates: "c \<in> set ((replicate n x)[i := a, j := b]) \<Longrightarrow> c \<in> {x, a, b}"
  by (auto dest!: set_update_subset_insert [THEN subsetD] split: if_splits)

lemma demo_sensors_ok: "sensor1s_plat_ok demo_sensors 2"
  unfolding sensor1s_plat_ok_def
proof (intro conjI allI impI ballI)
  show "length (sensor_config_index_map demo_sensors) = 256" by (simp add: demo_sensors_def)
  fix ci assume c: "ci \<in> set (sensor_config_index_map demo_sensors)" "ci \<noteq> SENSOR_FAIL demo_sensors"
  from c(1) have "ci \<in> {0xFF, 0, 1}" unfolding demo_sensors_def by (simp only: sensor1s_plat.simps) (rule set_two_updates)
  with c show "unat ci < 2" by (auto simp: demo_sensors_def)
qed

theorem control_sensor_polling_correct_witness:
  "\<exists>pol' r. OEM_1S_CONTROL_SENSOR_POLLING demo_sensors [1, 1]
      (zero_msg\<lparr>data_len := 4, data := [2, 0, 7, 9] @ replicate 523 0\<rparr>) = Some (pol', r) \<and>
    completion_code r = CC_SUCCESS \<and>
    msg_bytes r = concat (map (\<lambda>s. [s, if config_index demo_sensors s = SENSOR_FAIL demo_sensors
      then SENSOR_FAIL demo_sensors else 0]) [7, 9]) \<and> length pol' = length [1, 1 :: u8] \<and>
    (\<forall>j < length [1, 1 :: u8]. pol' ! j =
      (if \<exists>s \<in> set [7, 9]. config_index demo_sensors s \<noteq> SENSOR_FAIL demo_sensors \<and> unat (config_index demo_sensors s) = j
       then 0 else [1, 1] ! j))"
proof (rule control_sensor_polling_correct)
  show "sensor1s_plat_ok demo_sensors (length [1, 1 :: u8])" using demo_sensors_ok by (simp add: numeral_2_eq_2)
  show "(0 :: u8) = DISABLE_SENSOR_POLLING demo_sensors \<or> 0 = ENABLE_SENSOR_POLLING demo_sensors"
    by (simp add: demo_sensors_def)
qed (simp_all add: request_ok_def wf_msg_def)

theorem sensor_reading_out_of_range_witness:
  "OEM_1S_ACCURACY_SENSOR_READING
      (demo_sensors\<lparr>read_sensor := \<lambda>_ _ w. (SENSOR_READ_SUCCESS, -10, w)\<rparr>) True
      (zero_msg\<lparr>data_len := 2, data := [7, 1] @ replicate 525 0\<rparr>) = None"
  by (subst sensor_reading_out_of_range [where reading = "-10" and w' = True]) (simp_all add: demo_sensors_def)

end
