(* ===== verification/Oem1s_Firmware.thy ===== *)
theory Oem1s_Firmware
  imports Oem1s_Board
begin

text \<open>
  The firmware commands of \<open>samples/ipmi_openbic/src/ipmi/oem_1s_handler.c\<close>: updating, reading and
  hashing flash images, and the version queries. The flash of the host firmware is shared with the host
  through a multiplexer, which the commands switch to the controller and back. Flash drivers, I2C and
  the positions of the images belong to the platform (\<open>fw_plat\<close>, \<open>vr_plat\<close>, over a state \<open>'w\<close>).
\<close>

section \<open>Platform services\<close>

datatype gpio_level = GPIO_LOW | GPIO_HIGH

datatype fw_status =
    FWUPDATE_SUCCESS | FWUPDATE_OUT_OF_HEAP | FWUPDATE_OVER_LENGTH | FWUPDATE_REPEATED_UPDATED
  | FWUPDATE_UPDATE_FAIL | FWUPDATE_ERROR_OFFSET | FWUPDATE_NOT_SUPPORT | FWUPDATE_OTHER

record 'w fw_plat =
  pal_get_bios_flash_position :: "'w \<Rightarrow> int \<times> 'w"
  pal_get_prot_flash_position :: "'w \<Rightarrow> int \<times> 'w"
  pal_switch_bios_spi_mux :: "gpio_level \<Rightarrow> 'w \<Rightarrow> bool \<times> 'w"
  fw_update :: "u32 \<Rightarrow> u16 \<Rightarrow> u8 list \<Rightarrow> u8 \<Rightarrow> int \<Rightarrow> 'w \<Rightarrow> fw_status \<times> 'w"
  cpld_altera_max10_fw_update :: "u32 \<Rightarrow> u16 \<Rightarrow> u8 list \<Rightarrow> 'w \<Rightarrow> fw_status \<times> 'w"
  fw_update_cxl :: "u32 \<Rightarrow> u16 \<Rightarrow> u8 list \<Rightarrow> u8 \<Rightarrow> 'w \<Rightarrow> fw_status \<times> 'w"
  DEVSPI_FMC_CS0 :: int
  BIC_UPDATE_MAX_OFFSET :: u32
  read_fw_image :: "u32 \<Rightarrow> u8 \<Rightarrow> u8 list \<Rightarrow> int \<Rightarrow> 'w \<Rightarrow> int \<times> u8 list \<times> 'w"
  CONFIG_CRYPTO_ASPEED :: bool
  get_fw_sha256 :: "u8 list \<Rightarrow> u32 \<Rightarrow> u32 \<Rightarrow> int \<Rightarrow> 'w \<Rightarrow> u8 \<times> u8 list \<times> 'w"
  SHA256_DIGEST_SIZE :: nat

abbreviation (input) BIOS_UPDATE_MAX_OFFSET :: u32 where "BIOS_UPDATE_MAX_OFFSET \<equiv> 0x4000000"

section \<open>Updating\<close>

definition is_target :: "u8 \<Rightarrow> u8 \<Rightarrow> bool" where
  "is_target target t \<longleftrightarrow> target = t \<or> target = (t OR IS_SECTOR_END_MASK)"

text \<open>One branch for each target. \<open>Inl\<close> is a completion code with which the command returns at once,
  \<open>Inr\<close> the status of the update.\<close>

definition fw_update_bios ::
    "'w fw_plat \<Rightarrow> u8 \<Rightarrow> u32 \<Rightarrow> u16 \<Rightarrow> u8 list \<Rightarrow> 'w \<Rightarrow> (u8 + fw_status) \<times> 'w" where
  "fw_update_bios p target offset len buf w =
     (if offset > BIOS_UPDATE_MAX_OFFSET then (Inl CC_PARAM_OUT_OF_RANGE, w)
      else
        let (pos, w) = pal_get_bios_flash_position p w in
        if pos = -1 then (Inl CC_INVALID_PARAM, w)
        else
          let (ret, w) = pal_switch_bios_spi_mux p GPIO_HIGH w in
          if \<not> ret then (Inl CC_UNSPECIFIED_ERROR, w)
          else
            let (status, w) = fw_update p offset len buf (target AND IS_SECTOR_END_MASK) pos w;
                (ret, w) = pal_switch_bios_spi_mux p GPIO_LOW w in
            if \<not> ret then (Inl CC_UNSPECIFIED_ERROR, w) else (Inr status, w))"

definition fw_update_prot ::
    "'w fw_plat \<Rightarrow> u8 \<Rightarrow> u32 \<Rightarrow> u16 \<Rightarrow> u8 list \<Rightarrow> 'w \<Rightarrow> (u8 + fw_status) \<times> 'w" where
  "fw_update_prot p target offset len buf w =
     (if offset > BIOS_UPDATE_MAX_OFFSET then (Inl CC_PARAM_OUT_OF_RANGE, w)
      else
        let (pos, w) = pal_get_prot_flash_position p w in
        if pos = -1 then (Inl CC_INVALID_PARAM, w)
        else
          let (status, w) = fw_update p offset len buf (target AND IS_SECTOR_END_MASK) pos w in (Inr status, w))"

definition fw_update_target ::
    "'w fw_plat \<Rightarrow> u8 \<Rightarrow> u32 \<Rightarrow> u16 \<Rightarrow> u8 list \<Rightarrow> 'w \<Rightarrow> (u8 + fw_status) \<times> 'w" where
  "fw_update_target p target offset len buf w =
     (if is_target target BIOS_UPDATE then fw_update_bios p target offset len buf w
      else if is_target target BIC_UPDATE then
        if offset > BIC_UPDATE_MAX_OFFSET p then (Inl CC_PARAM_OUT_OF_RANGE, w)
        else
          let (status, w) = fw_update p offset len buf (target AND IS_SECTOR_END_MASK) (DEVSPI_FMC_CS0 p) w in
          (Inr status, w)
      else if is_target target CPLD_UPDATE then
        let (status, w) = cpld_altera_max10_fw_update p offset len buf w in (Inr status, w)
      else if is_target target CXL_UPDATE then
        let (status, w) = fw_update_cxl p offset len buf (target AND IS_SECTOR_END_MASK) w in (Inr status, w)
      else if is_target target PRoT_FLASH_UPDATE then fw_update_prot p target offset len buf w
      else (Inl CC_INVALID_DATA_FIELD, w))"

definition fw_completion :: "fw_status \<Rightarrow> u8" where
  "fw_completion status = (case status of
     FWUPDATE_SUCCESS \<Rightarrow> CC_SUCCESS
   | FWUPDATE_OUT_OF_HEAP \<Rightarrow> CC_LENGTH_EXCEEDED
   | FWUPDATE_OVER_LENGTH \<Rightarrow> CC_OUT_OF_SPACE
   | FWUPDATE_REPEATED_UPDATED \<Rightarrow> CC_INVALID_DATA_FIELD
   | FWUPDATE_UPDATE_FAIL \<Rightarrow> CC_TIMEOUT
   | FWUPDATE_ERROR_OFFSET \<Rightarrow> CC_PARAM_OUT_OF_RANGE
   | FWUPDATE_NOT_SUPPORT \<Rightarrow> CC_INVALID_PARAM
   | FWUPDATE_OTHER \<Rightarrow> CC_UNSPECIFIED_ERROR)"

definition OEM_1S_FW_UPDATE :: "'w fw_plat \<Rightarrow> 'w \<Rightarrow> ipmi_msg \<Rightarrow> 'w \<times> ipmi_msg" where
  "OEM_1S_FW_UPDATE p w msg =
     (if data_len msg < 8 then (w, msg\<lparr>completion_code := CC_INVALID_LENGTH\<rparr>)
      else
        let target = data msg ! 0;
            offset = le32 (data msg ! 1) (data msg ! 2) (data msg ! 3) (data msg ! 4);
            len = le16 (data msg ! 5) (data msg ! 6) in
        if len = 0 \<or> unat len \<noteq> unat (data_len msg) - 7 then (w, msg\<lparr>completion_code := CC_INVALID_LENGTH\<rparr>)
        else
          let (r, w) = fw_update_target p target offset len (drop 7 (data msg)) w in
          (w, case r of
             Inl c \<Rightarrow> msg\<lparr>completion_code := c\<rparr>
           | Inr status \<Rightarrow> msg\<lparr>data_len := 0, completion_code := fw_completion status\<rparr>))"

section \<open>Reading and hashing\<close>

text \<open>The common part of the two readable targets.\<close>

definition read_image_at :: "'w fw_plat \<Rightarrow> int \<Rightarrow> u32 \<Rightarrow> u8 \<Rightarrow> 'w \<Rightarrow> ipmi_msg \<Rightarrow> 'w \<times> ipmi_msg" where
  "read_image_at p pos offset len w msg =
     (if pos = -1 then (w, msg\<lparr>completion_code := CC_INVALID_PARAM\<rparr>)
      else
        let (ret, d, w) = read_fw_image p offset len (data msg) pos w;
            msg = msg\<lparr>data := d\<rparr> in
        (w, if ret \<noteq> 0 then msg\<lparr>completion_code := CC_UNSPECIFIED_ERROR\<rparr>
            else msg\<lparr>data_len := ucast len, completion_code := CC_SUCCESS\<rparr>))"

definition OEM_1S_READ_FW_IMAGE :: "'w fw_plat \<Rightarrow> 'w \<Rightarrow> ipmi_msg \<Rightarrow> 'w \<times> ipmi_msg" where
  "OEM_1S_READ_FW_IMAGE p w msg =
     (if data_len msg \<noteq> 6 then (w, msg\<lparr>completion_code := CC_INVALID_LENGTH\<rparr>)
      else
        let target = data msg ! 0;
            offset = le32 (data msg ! 1) (data msg ! 2) (data msg ! 3) (data msg ! 4);
            len = data msg ! 5 in
        if target = BIOS_UPDATE then
          let (ret, w) = pal_switch_bios_spi_mux p GPIO_HIGH w in
          if \<not> ret then (w, msg\<lparr>completion_code := CC_UNSPECIFIED_ERROR\<rparr>)
          else
            let (pos, w) = pal_get_bios_flash_position p w;
                (w, msg) = read_image_at p pos offset len w msg;
                (ret, w) = pal_switch_bios_spi_mux p GPIO_LOW w in
            (w, if \<not> ret then msg\<lparr>completion_code := CC_UNSPECIFIED_ERROR\<rparr> else msg)
        else if target = PRoT_FLASH_UPDATE then
          let (pos, w) = pal_get_prot_flash_position p w in
          read_image_at p pos offset len w msg
        else (w, msg\<lparr>completion_code := CC_INVALID_DATA_FIELD\<rparr>))"

definition OEM_1S_GET_FW_SHA256 :: "'w fw_plat \<Rightarrow> 'w \<Rightarrow> ipmi_msg \<Rightarrow> 'w \<times> ipmi_msg" where
  "OEM_1S_GET_FW_SHA256 p w msg =
     (let target = data msg ! 0;
          offset = le32 (data msg ! 1) (data msg ! 2) (data msg ! 3) (data msg ! 4);
          len = le32 (data msg ! 5) (data msg ! 6) (data msg ! 7) (data msg ! 8);
          answer = (\<lambda>status d. msg\<lparr>data := d, completion_code := status, data_len := of_nat (SHA256_DIGEST_SIZE p)\<rparr>) in
      if data_len msg \<noteq> 9 then (w, msg\<lparr>completion_code := CC_INVALID_LENGTH\<rparr>)
      else if target = BIOS_UPDATE then
        let (pos, w) = pal_get_bios_flash_position p w in
        if pos = -1 then (w, msg\<lparr>completion_code := CC_INVALID_PARAM\<rparr>)
        else
          let (ret, w) = pal_switch_bios_spi_mux p GPIO_HIGH w in
          if \<not> ret then (w, msg\<lparr>completion_code := CC_UNSPECIFIED_ERROR\<rparr>)
          else
            let (status, d, w) = get_fw_sha256 p (data msg) offset len pos w;
                (ret, w) = pal_switch_bios_spi_mux p GPIO_LOW w in
            (w, if \<not> ret then msg\<lparr>data := d, completion_code := CC_UNSPECIFIED_ERROR\<rparr> else answer status d)
      else if target = PRoT_FLASH_UPDATE then
        let (pos, w) = pal_get_prot_flash_position p w in
        if pos = -1 then (w, msg\<lparr>completion_code := CC_INVALID_PARAM\<rparr>)
        else let (status, d, w) = get_fw_sha256 p (data msg) offset len pos w in (w, answer status d)
      else (w, msg\<lparr>completion_code := CC_UNSPECIFIED_ERROR\<rparr>))"

section \<open>Versions\<close>

definition PLATFORM_NAME :: "u8 list" where
  "PLATFORM_NAME = map of_char ''Yosemite V3.5''"

definition PROJECT_NAME :: "u8 list" where
  "PROJECT_NAME = map of_char ''Crater Lake''"

abbreviation (input) BIC_FW_YEAR_MSB :: u8 where "BIC_FW_YEAR_MSB \<equiv> 0x20"
abbreviation (input) BIC_FW_YEAR_LSB :: u8 where "BIC_FW_YEAR_LSB \<equiv> 0x24"
abbreviation (input) BIC_FW_WEEK :: u8 where "BIC_FW_WEEK \<equiv> 0x25"
abbreviation (input) BIC_FW_VER :: u8 where "BIC_FW_VER \<equiv> 0x01"
abbreviation (input) BIC_FW_platform_0 :: u8 where "BIC_FW_platform_0 \<equiv> 0x63"
abbreviation (input) BIC_FW_platform_1 :: u8 where "BIC_FW_platform_1 \<equiv> 0x6c"
abbreviation (input) BIC_FW_platform_2 :: u8 where "BIC_FW_platform_2 \<equiv> 0x00"

definition OEM_1S_GET_BIC_FW_INFO :: "ipmi_msg \<Rightarrow> ipmi_msg" where
  "OEM_1S_GET_BIC_FW_INFO msg =
     (if data_len msg \<noteq> 1 then msg\<lparr>completion_code := CC_INVALID_LENGTH\<rparr>
      else
        let component = data msg ! 0; msg = msg\<lparr>data_len := 0\<rparr>;
            answer = (\<lambda>bs. msg\<lparr>data := blit (data msg) 0 bs, data_len := of_nat (length bs),
                               completion_code := CC_SUCCESS\<rparr>) in
        if component = BIC_PLAT_NAME then answer PLATFORM_NAME
        else if component = BIC_PLAT_BOARD_ID then answer [BOARD_ID]
        else if component = BIC_PROJ_NAME then answer PROJECT_NAME
        else if component = BIC_PROJ_STAGE then answer [PROJECT_STAGE]
        else msg\<lparr>completion_code := CC_INVALID_DATA_FIELD\<rparr>)"

text \<open>The voltage regulators are queried over I2C; \<open>i2c_buf\<close> is the array \<open>data\<close> of \<open>I2C_MSG\<close>.\<close>

record i2c_message =
  i2c_bus :: u8
  i2c_addr :: u8
  tx_len :: u8
  rx_len :: u8
  i2c_buf :: "u8 list"

record 'w vr_plat =
  HAS_IPMB :: bool
  ENABLE_ISL69260 :: bool
  i2c_master_read :: "i2c_message \<Rightarrow> u8 \<Rightarrow> 'w \<Rightarrow> int \<times> i2c_message \<times> 'w"
  i2c_master_write :: "i2c_message \<Rightarrow> u8 \<Rightarrow> 'w \<Rightarrow> int \<times> i2c_message \<times> 'w"
  PVCCIN_ADDR :: u8
  PVCCD_HV_ADDR :: u8
  PVCCFA_EHV_ADDR :: u8
  I2C_BUS5 :: u8
  PMBUS_IC_DEVICE_ID :: u8
  i2c_junk :: i2c_message

definition vr_answer :: "ipmi_msg \<Rightarrow> u8 list \<Rightarrow> ipmi_msg" where
  "vr_answer msg bs = msg\<lparr>data := blit (data msg) 0 bs, data_len := of_nat (length bs), completion_code := CC_SUCCESS\<rparr>"

definition vr_read_renesas :: "'w vr_plat \<Rightarrow> i2c_message \<Rightarrow> 'w \<Rightarrow> ipmi_msg \<Rightarrow> 'w \<times> ipmi_msg" where
  "vr_read_renesas p im w msg =
     (let err = msg\<lparr>completion_code := CC_UNSPECIFIED_ERROR\<rparr>;
          (r, im, w) = i2c_master_write p (im\<lparr>tx_len := 3, i2c_buf := blit (i2c_buf im) 0 [0xC7, 0x94, 0x00]\<rparr>) 3 w in
      if r \<noteq> 0 then (w, err)
      else
        let (r, im, w) = i2c_master_read p (im\<lparr>tx_len := 1, rx_len := 4, i2c_buf := (i2c_buf im)[0 := 0xC5]\<rparr>) 3 w in
        (w, if r \<noteq> 0 then err
            else vr_answer msg [i2c_buf im ! 3, i2c_buf im ! 2, i2c_buf im ! 1, i2c_buf im ! 0]))"

definition vr_read_ti :: "'w vr_plat \<Rightarrow> i2c_message \<Rightarrow> 'w \<Rightarrow> ipmi_msg \<Rightarrow> 'w \<times> ipmi_msg" where
  "vr_read_ti p im w msg =
     (let (r, im, w) = i2c_master_read p (im\<lparr>tx_len := 1, rx_len := 2, i2c_buf := (i2c_buf im)[0 := 0xF4]\<rparr>) 3 w in
      (w, if r \<noteq> 0 then msg\<lparr>completion_code := CC_UNSPECIFIED_ERROR\<rparr>
          else vr_answer msg [i2c_buf im ! 1, i2c_buf im ! 0]))"

definition vr_read_infineon :: "'w vr_plat \<Rightarrow> i2c_message \<Rightarrow> 'w \<Rightarrow> ipmi_msg \<Rightarrow> 'w \<times> ipmi_msg" where
  "vr_read_infineon p im w msg =
     (let err = msg\<lparr>completion_code := CC_UNSPECIFIED_ERROR\<rparr>;
          (r, im, w) = i2c_master_write p
            (im\<lparr>tx_len := 6, i2c_buf := blit (i2c_buf im) 0 [0xFD, 0x04, 0x00, 0x00, 0x00, 0x00]\<rparr>) 3 w in
      if r \<noteq> 0 then (w, err)
      else
        let (r, im, w) = i2c_master_write p (im\<lparr>tx_len := 2, i2c_buf := blit (i2c_buf im) 0 [0xFE, 0x2D]\<rparr>) 3 w in
        if r \<noteq> 0 then (w, err)
        else
          let (r, im, w) = i2c_master_read p (im\<lparr>tx_len := 1, rx_len := 5, i2c_buf := (i2c_buf im)[0 := 0xFD]\<rparr>) 3 w in
          (w, if r \<noteq> 0 then err
              else vr_answer msg [i2c_buf im ! 4, i2c_buf im ! 3, i2c_buf im ! 2, i2c_buf im ! 1]))"

definition vr_fw_version :: "'w vr_plat \<Rightarrow> u8 \<Rightarrow> 'w \<Rightarrow> ipmi_msg \<Rightarrow> 'w \<times> ipmi_msg" where
  "vr_fw_version p component w msg =
     (let ad = (if component = COMPNT_PVCCIN \<or> component = COMPNT_PVCCFA_EHV_FIVRA then PVCCIN_ADDR p
                else if component = COMPNT_PVCCD_HV then PVCCD_HV_ADDR p
                else PVCCFA_EHV_ADDR p);
          im = (i2c_junk p)\<lparr>i2c_addr := ad, tx_len := 1, rx_len := 7, i2c_bus := I2C_BUS5 p,
                 i2c_buf := (i2c_buf (i2c_junk p))[0 := PMBUS_IC_DEVICE_ID p]\<rparr>;
          (r, im, w) = i2c_master_read p im 3 w; d = i2c_buf im in
      if r \<noteq> 0 then (w, msg\<lparr>completion_code := CC_UNSPECIFIED_ERROR\<rparr>)
      else if d ! 0 = 0x04 \<and> d ! 1 = 0x00 \<and> d ! 2 = 0x81 \<and> d ! 3 = 0xD2 \<and> d ! 4 = 0x49
        then vr_read_renesas p im w msg
      else if d ! 0 = 0x06 \<and> d ! 1 = 0x54 \<and> d ! 2 = 0x49 \<and> d ! 3 = 0x53 \<and> d ! 4 = 0x68 \<and> d ! 5 = 0x90 \<and> d ! 6 = 0x00
        then vr_read_ti p im w msg
      else if d ! 0 = 0x02 \<and> d ! 2 = 0x8A then vr_read_infineon p im w msg
      else (w, msg\<lparr>completion_code := CC_UNSPECIFIED_ERROR\<rparr>))"

text \<open>The version of the management engine is asked for over IPMB; \<open>junk\<close> is the allocated message.
  The environment answers the allocation and the calls of \<open>ipmb_read\<close>.\<close>

definition me_fw_version :: "sel_env \<Rightarrow> ipmi_msg \<Rightarrow> ipmb_st \<Rightarrow> ipmi_msg \<Rightarrow> (ipmb_st \<times> ipmi_msg) option" where
  "me_fw_version ev junk s msg = do {
     i \<leftarrow> load (IPMB_inf_index_map s) (unat ME_IPMB);
     disabled \<leftarrow> (if i = RESERVED then Some True
                 else do { c \<leftarrow> load (IPMB_config_table s) (unat i); Some (\<not> enable_status c) });
     if disabled then Some (s, msg\<lparr>completion_code := CC_UNSPECIFIED_ERROR\<rparr>)
     else if \<not> sel_malloc ev then Some (s, msg\<lparr>completion_code := CC_OUT_OF_SPACE\<rparr>)
     else do {
       let bridge_msg = junk\<lparr>data_len := 0, seq_source := 0xff, InF_source := SELF, InF_target := ME_IPMB,
         netfn := NETFN_APP_REQ, cmd := CMD_APP_GET_DEVICE_ID\<rparr>;
       (status, b, s) \<leftarrow> ipmb_read (sel_send ev) (sel_rxq_init ev) (sel_read_mutex_init ev)
         (sel_read_lock ev) (sel_got ev) (sel_clear_lock ev) (Some bridge_msg) i s;
       if status \<noteq> IPMB_ERROR_SUCCESS then Some (s, msg\<lparr>completion_code := CC_BRIDGE_MSG_ERR\<rparr>)
       else do {
         b \<leftarrow> b;
         Some (s, msg\<lparr>data := blit (data msg) 0 [data b ! 2 AND 0x7F, drop_bit 4 (data b ! 3), data b ! 3 AND 0x0F,
                 data b ! 12, drop_bit 4 (data b ! 13)], data_len := 5, completion_code := CC_SUCCESS\<rparr>)
       }
     }
   }"

definition OEM_1S_GET_FW_VERSION ::
    "'w vr_plat \<Rightarrow> sel_env \<Rightarrow> ipmi_msg \<Rightarrow> 'w \<times> ipmb_st \<Rightarrow> ipmi_msg \<Rightarrow> (('w \<times> ipmb_st) \<times> ipmi_msg) option" where
  "OEM_1S_GET_FW_VERSION p ev junk ws msg =
     (let (w, s) = ws in
      if data_len msg \<noteq> 1 then Some (ws, msg\<lparr>completion_code := CC_INVALID_LENGTH\<rparr>)
      else
        let component = data msg ! 0 in
        if component = COMPNT_CPLD then Some (ws, msg\<lparr>completion_code := CC_UNSPECIFIED_ERROR\<rparr>)
        else if component = COMPNT_BIC then
          Some (ws, msg\<lparr>data := blit (data msg) 0 [BIC_FW_YEAR_MSB, BIC_FW_YEAR_LSB, BIC_FW_WEEK, BIC_FW_VER,
            BIC_FW_platform_0, BIC_FW_platform_1, BIC_FW_platform_2], data_len := 7, completion_code := CC_SUCCESS\<rparr>)
        else if HAS_IPMB p \<and> component = COMPNT_ME then do {
          (s, msg) \<leftarrow> me_fw_version ev junk s msg;
          Some ((w, s), msg)
        }
        else if ENABLE_ISL69260 p \<and> component \<in> {COMPNT_PVCCIN, COMPNT_PVCCFA_EHV_FIVRA, COMPNT_PVCCD_HV,
            COMPNT_PVCCINFAON, COMPNT_PVCCFA_EHV} then
          let (w, msg) = vr_fw_version p component w msg in Some ((w, s), msg)
        else Some (ws, msg\<lparr>completion_code := CC_UNSPECIFIED_ERROR\<rparr>))"

section \<open>The contract\<close>

text \<open>The flash drivers keep the size of the buffer they fill, and a digest fits into a message.\<close>

definition fw_plat_ok :: "'w fw_plat \<Rightarrow> bool" where
  "fw_plat_ok p \<longleftrightarrow> SHA256_DIGEST_SIZE p \<le> IPMI_MSG_MAX_LENGTH \<and>
     (\<forall>o' n d pos w. length (fst (snd (read_fw_image p o' n d pos w))) = length d) \<and>
     (\<forall>d o' n pos w. length (fst (snd (get_fw_sha256 p d o' n pos w))) = length d)"

lemma good1s_FW_UPDATE: "request_ok m \<Longrightarrow> good1s m (snd (OEM_1S_FW_UPDATE p w m))"
  by (auto simp: OEM_1S_FW_UPDATE_def Let_def split_beta good1s_defs split: sum.splits)

lemma good1s_read_image_at:
  assumes p: "fw_plat_ok p" and m: "request_ok m"
  shows "good1s m (snd (read_image_at p pos off n w m))"
proof -
  have "length (fst (snd (read_fw_image p off n (data m) pos w))) = IPMI_MSG_MAX_LENGTH"
    using p m by (simp add: fw_plat_ok_def)
  moreover have "unat (ucast n :: u16) \<le> IPMI_MSG_MAX_LENGTH" by (simp add: order_trans [OF unat_u8_le])
  ultimately show ?thesis
    using m by (auto simp: read_image_at_def Let_def split_beta same_route_def intro!: good1sI)
qed

lemma good1s_error_after: "good1s m m' \<Longrightarrow> c \<noteq> CC_SUCCESS \<Longrightarrow> good1s m (m'\<lparr>completion_code := c\<rparr>)"
  by (simp add: good1s_defs)

lemma good1s_READ_FW_IMAGE:
  assumes p: "fw_plat_ok p" and m: "request_ok m"
  shows "good1s m (snd (OEM_1S_READ_FW_IMAGE p w m))"
  using m good1s_read_image_at [OF p m] good1s_error_after [OF good1s_read_image_at [OF p m]]
  by (simp add: OEM_1S_READ_FW_IMAGE_def Let_def split_beta)

lemma good1s_GET_FW_SHA256:
  assumes p: "fw_plat_ok p" and m: "request_ok m"
  shows "good1s m (snd (OEM_1S_GET_FW_SHA256 p w m))"
proof -
  have l: "length (fst (snd (get_fw_sha256 p (data m) off n pos w))) = IPMI_MSG_MAX_LENGTH" for off n pos w
    using p m by (simp add: fw_plat_ok_def)
  have "SHA256_DIGEST_SIZE p \<le> IPMI_MSG_MAX_LENGTH" using p by (simp add: fw_plat_ok_def)
  then have u: "unat (of_nat (SHA256_DIGEST_SIZE p) :: u16) \<le> IPMI_MSG_MAX_LENGTH" by simp
  have a: "good1s m (m\<lparr>data := fst (snd (get_fw_sha256 p (data m) off n pos w)), completion_code := c,
      data_len := of_nat (SHA256_DIGEST_SIZE p)\<rparr>)" for off n pos w c
    using l u by (intro good1sI) (simp_all add: same_route_def)
  have b: "good1s m (m\<lparr>data := fst (snd (get_fw_sha256 p (data m) off n pos w)), completion_code := CC_UNSPECIFIED_ERROR\<rparr>)"
    for off n pos w using l m by (intro good1sI) (simp_all add: same_route_def)
  show ?thesis
    unfolding OEM_1S_GET_FW_SHA256_def Let_def split_beta snd_conv if_distrib [of snd]
    by (intro good1s_if a b good1s_error m)
qed

lemma length_names [simp]: "length PLATFORM_NAME = 13" "length PROJECT_NAME = 11"
  by (simp_all add: PLATFORM_NAME_def PROJECT_NAME_def)

lemma good1s_GET_BIC_FW_INFO: "request_ok m \<Longrightarrow> good1s m (OEM_1S_GET_BIC_FW_INFO m)"
  by (simp add: OEM_1S_GET_BIC_FW_INFO_def Let_def good1s_defs)

lemma good1s_vr_answer: "request_ok m \<Longrightarrow> length bs \<le> 4 \<Longrightarrow> good1s m (vr_answer m bs)"
  unfolding vr_answer_def by (intro good1s_set) simp_all

lemma good1s_vr_fw_version:
  assumes "request_ok m"
  shows "good1s m (snd (vr_fw_version p c w m))"
proof -
  have r: "good1s m (snd (vr_read_renesas p im w m))" for im w
    unfolding vr_read_renesas_def Let_def split_beta snd_conv if_distrib [of snd]
    by (intro good1s_if good1s_vr_answer good1s_error assms) simp_all
  have t: "good1s m (snd (vr_read_ti p im w m))" for im w
    unfolding vr_read_ti_def Let_def split_beta snd_conv if_distrib [of snd]
    by (intro good1s_if good1s_vr_answer good1s_error assms) simp_all
  have i: "good1s m (snd (vr_read_infineon p im w m))" for im w
    unfolding vr_read_infineon_def Let_def split_beta snd_conv if_distrib [of snd]
    by (intro good1s_if good1s_vr_answer good1s_error assms) simp_all
  show ?thesis
    unfolding vr_fw_version_def Let_def split_beta snd_conv if_distrib [of snd]
    by (intro good1s_if good1s_error assms r t i)
qed

section \<open>Properties\<close>

text \<open>The documented behaviour of the multiplexer in front of the BIOS flash: a successful switch selects
  the requested side, a failed one leaves it, and no other service moves it.\<close>

definition mux_laws :: "'w fw_plat \<Rightarrow> ('w \<Rightarrow> gpio_level) \<Rightarrow> bool" where
  "mux_laws p mux \<longleftrightarrow>
     (\<forall>l w. mux (snd (pal_switch_bios_spi_mux p l w)) = (if fst (pal_switch_bios_spi_mux p l w) then l else mux w)) \<and>
     (\<forall>w. mux (snd (pal_get_bios_flash_position p w)) = mux w) \<and>
     (\<forall>w. mux (snd (pal_get_prot_flash_position p w)) = mux w) \<and>
     (\<forall>o' n b k pos w. mux (snd (fw_update p o' n b k pos w)) = mux w) \<and>
     (\<forall>o' n b w. mux (snd (cpld_altera_max10_fw_update p o' n b w)) = mux w) \<and>
     (\<forall>o' n b k w. mux (snd (fw_update_cxl p o' n b k w)) = mux w) \<and>
     (\<forall>o' n d pos w. mux (snd (snd (read_fw_image p o' n d pos w))) = mux w) \<and>
     (\<forall>d o' n pos w. mux (snd (snd (get_fw_sha256 p d o' n pos w))) = mux w)"

lemma read_image_at_mux: "mux_laws p mux \<Longrightarrow> mux (fst (read_image_at p pos off n w m)) = mux w"
  by (simp add: read_image_at_def mux_laws_def Let_def split_beta)

lemma fw_update_target_mux:
  assumes "mux_laws p mux" "mux w = GPIO_LOW"
  shows "mux (snd (fw_update_target p t off n b w)) = GPIO_LOW \<or> fst (fw_update_target p t off n b w) = Inl CC_UNSPECIFIED_ERROR"
  using assms
  by (simp add: fw_update_target_def fw_update_bios_def fw_update_prot_def mux_laws_def Let_def split_beta)

text \<open>C33. The BIOS flash is handed back to the host. Updating, reading and hashing firmware switch the
  flash multiplexer to the controller for the BIOS target; whatever the flash drivers answer, when the
  command returns the multiplexer is on the host's side again, or the command reports an unspecified
  error.\<close>

theorem bios_mux_returned:
  assumes "mux_laws p mux" "mux w = GPIO_LOW"
  shows "(mux (fst (OEM_1S_FW_UPDATE p w m)) = GPIO_LOW \<or>
      completion_code (snd (OEM_1S_FW_UPDATE p w m)) = CC_UNSPECIFIED_ERROR) \<and>
    (mux (fst (OEM_1S_READ_FW_IMAGE p w m)) = GPIO_LOW \<or>
      completion_code (snd (OEM_1S_READ_FW_IMAGE p w m)) = CC_UNSPECIFIED_ERROR) \<and>
    (mux (fst (OEM_1S_GET_FW_SHA256 p w m)) = GPIO_LOW \<or>
      completion_code (snd (OEM_1S_GET_FW_SHA256 p w m)) = CC_UNSPECIFIED_ERROR)"
proof (intro conjI)
  show "mux (fst (OEM_1S_FW_UPDATE p w m)) = GPIO_LOW \<or> completion_code (snd (OEM_1S_FW_UPDATE p w m)) = CC_UNSPECIFIED_ERROR"
    using fw_update_target_mux [OF assms] assms(2)
    by (simp add: OEM_1S_FW_UPDATE_def Let_def split_beta split: sum.splits) fastforce
  show "mux (fst (OEM_1S_READ_FW_IMAGE p w m)) = GPIO_LOW \<or> completion_code (snd (OEM_1S_READ_FW_IMAGE p w m)) = CC_UNSPECIFIED_ERROR"
    using read_image_at_mux [OF assms(1)] assms by (simp add: OEM_1S_READ_FW_IMAGE_def mux_laws_def Let_def split_beta)
  show "mux (fst (OEM_1S_GET_FW_SHA256 p w m)) = GPIO_LOW \<or> completion_code (snd (OEM_1S_GET_FW_SHA256 p w m)) = CC_UNSPECIFIED_ERROR"
    using assms by (simp add: OEM_1S_GET_FW_SHA256_def mux_laws_def Let_def split_beta)
qed

text \<open>A board whose state is the side of the multiplexer, with a flash driver that always fails.\<close>

definition demo_fw :: "gpio_level fw_plat" where
  "demo_fw = \<lparr>pal_get_bios_flash_position = \<lambda>w. (2, w), pal_get_prot_flash_position = \<lambda>w. (1, w),
     pal_switch_bios_spi_mux = \<lambda>l w. (True, l), fw_update = \<lambda>_ _ _ _ _ w. (FWUPDATE_UPDATE_FAIL, w),
     cpld_altera_max10_fw_update = \<lambda>_ _ _ w. (FWUPDATE_UPDATE_FAIL, w),
     fw_update_cxl = \<lambda>_ _ _ _ w. (FWUPDATE_UPDATE_FAIL, w), DEVSPI_FMC_CS0 = 0, BIC_UPDATE_MAX_OFFSET = 0x60000,
     read_fw_image = \<lambda>_ _ d _ w. (-5, d, w), CONFIG_CRYPTO_ASPEED = True,
     get_fw_sha256 = \<lambda>d _ _ _ w. (0, d, w), SHA256_DIGEST_SIZE = 32\<rparr>"

theorem bios_mux_returned_witness:
  "fst (OEM_1S_READ_FW_IMAGE demo_fw GPIO_LOW (zero_msg\<lparr>data := [BIOS_UPDATE, 0, 0, 0, 0, 16] @ replicate 521 0, data_len := 6\<rparr>)) = GPIO_LOW \<or>
   completion_code (snd (OEM_1S_READ_FW_IMAGE demo_fw GPIO_LOW (zero_msg\<lparr>data := [BIOS_UPDATE, 0, 0, 0, 0, 16] @ replicate 521 0, data_len := 6\<rparr>))) = CC_UNSPECIFIED_ERROR"
  using bios_mux_returned [of demo_fw "\<lambda>w. w" GPIO_LOW "zero_msg\<lparr>data := [BIOS_UPDATE, 0, 0, 0, 0, 16] @ replicate 521 0, data_len := 6\<rparr>"]
  by (simp add: mux_laws_def demo_fw_def)

end
