(* ===== verification/Ipmb_Channels.thy ===== *)
theory Ipmb_Channels
  imports Ipmb_Tasks
begin

text \<open>
  All channels of \<open>samples/ipmi_openbic/src/ipmb/ipmb.c\<close> at once. The request lists of the channels
  share one heap; an operation on one channel follows pointers of its own ring only, so the rings
  stay apart. The invariant is stated for every enabled channel and kept by every operation of the
  layer, in whatever order the threads run.
\<close>

section \<open>Sets of nodes closed under next\<close>

definition next_closed :: "heap \<Rightarrow> addr set \<Rightarrow> bool" where
  "next_closed h S \<longleftrightarrow> (\<forall>a \<in> S. \<forall>n b. h a = Some n \<longrightarrow> next_ptr n = Some b \<longrightarrow> b \<in> S)"

definition nodes :: "ipmb_chan \<Rightarrow> addr list \<Rightarrow> addr set" where
  "nodes ch ns = insert (the (P_start ch)) (set ns)"

lemma next_closedD: "next_closed h S \<Longrightarrow> a \<in> S \<Longrightarrow> h a = Some n \<Longrightarrow> next_ptr n = Some b \<Longrightarrow> b \<in> S"
  by (auto simp: next_closed_def)

lemma path_closed: "path h a xs b \<Longrightarrow> next_closed h S \<Longrightarrow> a \<in> S \<Longrightarrow> set xs \<subseteq> S"
  by (induction xs arbitrary: a) (auto dest: next_closedD)

lemma path_next: "path h a xs b \<Longrightarrow> c \<in> set (a # xs) \<Longrightarrow> h c = Some n \<Longrightarrow> next_ptr n = Some d \<Longrightarrow> d \<in> set xs \<union> {b}"
  by (induction xs arbitrary: a) auto

lemma chan_ok_closed: "chan_ok h ch ns \<Longrightarrow> next_closed h (nodes ch ns)"
  unfolding chan_ok_def ring_def next_closed_def nodes_def using path_next by fastforce

text \<open>\<open>keeps S h h' ch ch'\<close>: an operation stayed inside \<open>S\<close>.\<close>

definition keeps :: "addr set \<Rightarrow> heap \<Rightarrow> heap \<Rightarrow> ipmb_chan \<Rightarrow> ipmb_chan \<Rightarrow> bool" where
  "keeps S h h' ch ch' \<longleftrightarrow> next_closed h' S \<and> (\<forall>a. a \<notin> S \<longrightarrow> h' a = h a) \<and> P_start ch' = P_start ch"

lemma keeps_refl [simp]: "next_closed h S \<Longrightarrow> keeps S h h ch ch"
  by (simp add: keeps_def)

lemma keeps_trans: "keeps S h h1 ch ch1 \<Longrightarrow> keeps S h1 h2 ch1 ch2 \<Longrightarrow> keeps S h h2 ch ch2"
  by (simp add: keeps_def)

lemma unlink_next_keeps:
  assumes "unlink_next h ch a x = Some (h', ch')" and S: "next_closed h S" "a \<in> S" "x \<in> S"
  shows "keeps S h h' ch ch'"
  using assms by (auto simp: unlink_next_def unregister_seq_def store_def keeps_def next_closed_def split: bind_splits if_splits)

lemma clear_loop_keeps:
  assumes "clear_loop h ch msg a = Some r" and "next_closed h S" and "a \<in> S"
  shows "keeps S h (fst r) ch (snd r)"
  using assms
proof (induction rule: clear_loop.raw_induct [rotated, consumes 1, case_names step])
  case (step f h ch msg a r)
  from step obtain n where n: "h a = Some n" by (cases "h a") auto
  show ?case
  proof (cases "next_ptr n = P_start ch")
    case True
    with step n show ?thesis by auto
  next
    case False
    with step n obtain x t where x: "next_ptr n = Some x" "h x = Some t" by (auto split: bind_splits)
    have "x \<in> S" by (rule next_closedD [OF step(3,4) n x(1)])
    with step n x False show ?thesis
      by (cases "clear_matches (buffer t) msg"; cases r) (auto dest: unlink_next_keeps)
  qed
qed

lemma seq_timeout_scan_keeps:
  assumes "seq_timeout_scan e k h ch a = Some r" and "next_closed h S" and "a \<in> S"
  shows "keeps S h (fst r) ch (snd r)"
  using assms
proof (induction rule: seq_timeout_scan.raw_induct [rotated, consumes 1, case_names step])
  case (step f e k h ch a r)
  from step obtain n where n: "h a = Some n" by (cases "h a") auto
  show ?case
  proof (cases "next_ptr n = P_start ch")
    case True
    with step n show ?thesis by auto
  next
    case False
    with step n obtain x t where x: "next_ptr n = Some x" "h x = Some t" by (auto split: bind_splits)
    have xS: "x \<in> S" by (rule next_closedD [OF step(3,4) n x(1)])
    show ?thesis
    proof (cases "e (buffer t) k")
      case True
      with step n x False obtain h1 ch1 n1 p1 where u: "unlink_next h ch a x = Some (h1, ch1)"
        "h1 a = Some n1" "next_ptr n1 = Some p1" "f e (Suc k) h1 ch1 p1 = Some r"
        by (auto split: bind_splits)
      have k1: "keeps S h h1 ch ch1" by (rule unlink_next_keeps [OF u(1) step(3,4) xS])
      then have "p1 \<in> S" using u step(4) by (auto simp: keeps_def dest: next_closedD)
      with step(1) [OF u(4)] k1 show ?thesis by (auto simp: keeps_def)
    next
      case False
      with step n x xS \<open>next_ptr n \<noteq> P_start ch\<close> show ?thesis by auto
    qed
  qed
qed

lemma find_prev_closed:
  assumes "find_prev h p msg a = Some r" and "next_closed h S" and "a \<in> S"
  shows "r \<in> S"
  using assms
proof (induction rule: find_prev.raw_induct [rotated, consumes 1, case_names step])
  case (step f h p msg a r)
  from step obtain n where n: "h a = Some n" by (cases "h a") auto
  from step n obtain x where "r = a \<or> (next_ptr n = Some x \<and> f h p msg x = Some r)"
    by (auto split: bind_splits if_splits)
  with step n show ?case by (blast dest: next_closedD)
qed

lemma last_node_closed:
  assumes "last_node h p c = Some r" and "next_closed h S" and "set_option c \<subseteq> S"
  shows "set_option r \<subseteq> S"
  using assms
proof (induction rule: last_node.raw_induct [rotated, consumes 1, case_names step])
  case (step f h p c r)
  show ?case
  proof (cases c)
    case None
    with step show ?thesis by simp
  next
    case (Some a)
    then obtain n where n: "h a = Some n" using step by (cases "h a") auto
    from step n Some have "r = Some a \<or> f h p (next_ptr n) = Some r" by (auto split: if_splits)
    moreover have "set_option (next_ptr n) \<subseteq> S"
      using step n Some by (cases "next_ptr n") (auto dest: next_closedD)
    ultimately show ?thesis using step.IH [of h p "next_ptr n" r] step.prems Some by fastforce
  qed
qed

lemma find_req_keeps:
  assumes "find_req_ipmi_msg l h ch (P_start ch) msg = Some (found, h', ch', msg')"
    and S: "next_closed h S" "set_option (P_start ch) \<subseteq> S"
  shows "keeps S h h' ch ch'"
proof (cases "P_start ch = None \<or> l \<noteq> 0")
  case True
  with assms show ?thesis by (auto simp: find_req_ipmi_msg_def split: option.splits)
next
  case False
  then obtain p where p: "P_start ch = Some p" "l = 0" by auto
  with assms(1) obtain a n where a: "find_prev h p msg p = Some a" "h a = Some n"
    by (auto simp: find_req_ipmi_msg_def split: bind_splits)
  have aS: "a \<in> S" using find_prev_closed [OF a(1) S(1)] S(2) p(1) by simp
  show ?thesis
  proof (cases "next_ptr n = Some p \<or> next_ptr n = None")
    case True
    with assms a p show ?thesis by (auto simp: find_req_ipmi_msg_def)
  next
    case False
    then obtain x where x: "next_ptr n = Some x" "x \<noteq> p" by auto
    with assms(1) a p have "unlink_next h ch a x = Some (h', ch')"
      by (auto simp: find_req_ipmi_msg_def split: bind_splits)
    then show ?thesis
      by (rule unlink_next_keeps [OF _ S(1) aS next_closedD [OF S(1) aS a(2) x(1)]])
  qed
qed

lemma clear_req_keeps:
  assumes "clear_req_ipmi_msg l h ch (P_start ch) msg = Some (h', ch')"
    and S: "next_closed h S" "set_option (P_start ch) \<subseteq> S"
  shows "keeps S h h' ch ch'"
  using assms clear_loop_keeps [of h ch msg _ "(h', ch')", OF _ S(1)]
  by (auto simp: clear_req_ipmi_msg_def split: option.splits if_splits)

lemma seq_timeout_keeps:
  assumes "IPMB_SeqTimeout_channel l tick_fix freq clock en h ch = Some (h', ch')"
    and S: "next_closed h S" "set_option (P_start ch) \<subseteq> S"
  shows "keeps S h h' ch ch'"
  using assms seq_timeout_scan_keeps [of _ 0 h ch _ "(h', ch')", OF _ S(1)]
  by (auto simp: IPMB_SeqTimeout_channel_def split: bind_splits if_splits)

lemma evict_first_keeps:
  assumes "evict_first h ch p = Some (c, h1, ch1)" and S: "next_closed h S" "p \<in> S"
  shows "keeps S h h1 ch ch1"
  using assms
  by (auto simp: evict_first_def keeps_def next_closed_def split: if_splits bind_splits option.splits)
    metis

lemma insert_req_keeps:
  assumes ins: "insert_req_ipmi_msg l (Some (new, junk)) now h ch (P_start ch) msg = Some (h', ch', msg')"
    and S: "next_closed h S" "P_start ch = Some p" "p \<in> S"
    and ev: "evict_first h ch p = Some (c, h1, ch1)" "h1 new = None"
  shows "keeps (insert new S) h h' ch ch' \<or> (h' = h \<and> ch' = ch)"
proof -
  have k: "keeps S h h1 ch ch1" by (rule evict_first_keeps [OF ev(1) S(1,3)])
  then have k1: "keeps (insert new S) h h1 ch ch1"
    using ev(2) by (auto simp: keeps_def next_closed_def)
  show ?thesis
  proof (cases "l \<noteq> 0 \<or> \<not> c")
    case True
    then show ?thesis using ins ev(1) S(2) k1 by (auto simp: insert_req_ipmi_msg_def split: if_splits)
  next
    case False
    with ins ev(1) S(2) obtain r where r: "last_node h1 p (Some p) = Some r"
      by (cases "last_node h1 p (Some p)") (auto simp: insert_req_ipmi_msg_def)
    have "next_closed h1 S" using k by (simp add: keeps_def)
    from last_node_closed [OF r this] S(3) have rS: "set_option r \<subseteq> S" by simp
    show ?thesis
    proof (cases r)
      case None
      then show ?thesis using ins ev(1) S(2) k1 r False by (auto simp: insert_req_ipmi_msg_def)
    next
      case (Some a)
      let ?m = "msg\<lparr>timestamp := now\<rparr>"
      from Some r ins ev(1) S(2) False obtain n where n: "h1 a = Some n"
        by (cases "h1 a") (auto simp: insert_req_ipmi_msg_def)
      with Some r ins ev(1) S(2) False obtain ch2 where c2: "register_seq ch1 (seq_target ?m) = Some ch2"
        by (cases "register_seq ch1 (seq_target ?m)") (auto simp: insert_req_ipmi_msg_def Let_def)
      have h': "h' = (h1(a \<mapsto> n\<lparr>next_ptr := Some new\<rparr>))(new \<mapsto> junk\<lparr>buffer := ?m, next_ptr := Some p\<rparr>)"
        and ch': "ch' = ch2\<lparr>seq_current_count := seq_current_count ch2 + 1\<rparr>"
        using Some r ins ev(1) S(2) False n c2 by (auto simp: insert_req_ipmi_msg_def Let_def)
      have "P_start ch2 = P_start ch1"
        using c2 by (auto simp: register_seq_def split: bind_splits)
      moreover have "next_closed h' (insert new S)"
        using \<open>next_closed h1 S\<close> rS Some S(3) unfolding h' by (auto simp: next_closed_def split: if_splits)
      moreover have "\<forall>b. b \<notin> insert new S \<longrightarrow> h' b = h b"
        using k rS Some unfolding h' by (auto simp: keeps_def)
      ultimately show ?thesis using k ch' by (simp add: keeps_def)
    qed
  qed
qed

section \<open>The invariant of all channels\<close>

text \<open>The table and the channels have the same size. Every enabled channel has an intact request
  list (of the nodes \<open>nss ! j\<close>), and the lists of two channels share no node.\<close>

definition live :: "ipmb_st \<Rightarrow> nat \<Rightarrow> bool" where
  "live s j \<longleftrightarrow> j < length (ip_chans s) \<and> enable_status (IPMB_config_table s ! j)"

definition channels_ok :: "ipmb_st \<Rightarrow> addr list list \<Rightarrow> bool" where
  "channels_ok s nss \<longleftrightarrow>
     length nss = length (ip_chans s) \<and> length (IPMB_config_table s) = length (ip_chans s) \<and>
     (\<forall>j. live s j \<longrightarrow> chan_ok (ip_heap s) (ip_chans s ! j) (nss ! j)) \<and>
     (\<forall>i j. live s i \<longrightarrow> live s j \<longrightarrow> i \<noteq> j \<longrightarrow>
        nodes (ip_chans s ! i) (nss ! i) \<inter> nodes (ip_chans s ! j) (nss ! j) = {})"

lemma chan_ok_cong:
  assumes "\<forall>a \<in> nodes ch ns. h' a = h a"
  shows "chan_ok h' ch ns = chan_ok h ch ns"
proof -
  have "path h' p ns q = path h p ns q" if "P_start ch = Some p" for p q
    using assms that by (intro path_cong) (auto simp: nodes_def)
  moreover have "reqs h' ns = reqs h ns" using assms by (auto simp: reqs_def nodes_def)
  ultimately show ?thesis by (auto simp: chan_ok_def ring_def)
qed

lemma chan_ok_allocated: "chan_ok h ch ns \<Longrightarrow> a \<in> nodes ch ns \<Longrightarrow> h a \<noteq> None"
  using path_node by (fastforce simp: chan_ok_def ring_def nodes_def)

lemma chan_ok_nodes:
  assumes "chan_ok h ch ns" and "next_closed h S" and "set_option (P_start ch) \<subseteq> S"
  shows "nodes ch ns \<subseteq> S"
  using assms path_closed by (fastforce simp: chan_ok_def ring_def nodes_def)

text \<open>An operation on one channel that stays inside of the channel's nodes and fresh ones.\<close>

lemma channels_ok_update:
  assumes s: "channels_ok s nss" "live s i" and ok: "chan_ok h' ch' ns'"
    and k: "keeps (nodes (ip_chans s ! i) (nss ! i) \<union> N) (ip_heap s) h' (ip_chans s ! i) ch'"
    and N: "\<forall>a \<in> N - nodes (ip_chans s ! i) (nss ! i). ip_heap s a = None"
  shows "channels_ok (set_chan i ch' (s\<lparr>ip_heap := h'\<rparr>)) (nss[i := ns'])"
proof -
  let ?S = "nodes (ip_chans s ! i) (nss ! i) \<union> N"
  let ?s = "set_chan i ch' (s\<lparr>ip_heap := h'\<rparr>)"
  have live [simp]: "live ?s j = live s j" for j by (simp add: live_def)
  have i: "i < length (ip_chans s)" "i < length nss" using s by (auto simp: live_def channels_ok_def)
  have oki: "chan_ok (ip_heap s) (ip_chans s ! i) (nss ! i)" using s by (auto simp: channels_ok_def)
  then have "set_option (P_start ch') \<subseteq> ?S" using k by (auto simp: keeps_def chan_ok_def nodes_def)
  then have sub: "nodes ch' ns' \<subseteq> ?S" using chan_ok_nodes [OF ok] k by (simp add: keeps_def)
  have other: "nodes (ip_chans s ! j) (nss ! j) \<inter> ?S = {}" if "live s j" "j \<noteq> i" for j
  proof -
    have "chan_ok (ip_heap s) (ip_chans s ! j) (nss ! j)" using s that by (auto simp: channels_ok_def)
    then have "nodes (ip_chans s ! j) (nss ! j) \<inter> (N - nodes (ip_chans s ! i) (nss ! i)) = {}"
      using N chan_ok_allocated by blast
    moreover have "nodes (ip_chans s ! j) (nss ! j) \<inter> nodes (ip_chans s ! i) (nss ! i) = {}"
      using s that unfolding channels_ok_def by blast
    ultimately show ?thesis by blast
  qed
  have "chan_ok h' (ip_chans s ! j) (nss ! j)" if "live s j" "j \<noteq> i" for j
  proof -
    have "\<forall>a \<in> nodes (ip_chans s ! j) (nss ! j). h' a = ip_heap s a"
      using other [OF that] k by (auto simp: keeps_def)
    from chan_ok_cong [OF this] show ?thesis using s(1) that by (simp add: channels_ok_def)
  qed
  then have "\<forall>j. live s j \<longrightarrow> chan_ok h' (ip_chans ?s ! j) (nss[i := ns'] ! j)"
    using ok i by (simp add: nth_list_update)
  moreover have "nodes (ip_chans ?s ! a) (nss[i := ns'] ! a) \<inter> nodes (ip_chans ?s ! b) (nss[i := ns'] ! b) = {}"
    if "live s a" "live s b" "a \<noteq> b" for a b
  proof -
    have "nodes (ip_chans s ! a) (nss ! a) \<inter> nodes (ip_chans s ! b) (nss ! b) = {}"
      using s that unfolding channels_ok_def by blast
    then show ?thesis
      using other [of a] other [of b] sub that i by (auto simp: nth_list_update)
  qed
  ultimately show ?thesis using s i unfolding channels_ok_def by (simp add: live_def)
qed

text \<open>One operation on one channel: the list stays intact and the rest of the heap as it was, apart from
  fresh blocks \<open>N\<close>.\<close>

definition chan_step :: "addr set \<Rightarrow> heap \<Rightarrow> ipmb_chan \<Rightarrow> addr list \<Rightarrow> heap \<Rightarrow> ipmb_chan \<Rightarrow> bool" where
  "chan_step N h ch ns h' ch' \<longleftrightarrow> (\<exists>ns'. chan_ok h' ch' ns') \<and> keeps (nodes ch ns \<union> N) h h' ch ch'"

lemma chan_ok_P_start: "chan_ok h ch ns \<Longrightarrow> set_option (P_start ch) \<subseteq> nodes ch ns"
  by (auto simp: chan_ok_def nodes_def)

lemma chan_ok_pending: "chan_ok h ch ns \<Longrightarrow> pending h ch (reqs h ns)"
  by (auto simp: pending_def)

lemma chan_step_refl: "chan_ok h ch ns \<Longrightarrow> chan_step {} h ch ns h ch"
  by (auto simp: chan_step_def chan_ok_closed)

lemma pending_chan_step:
  assumes "pending h' ch' rs" and "keeps (nodes ch ns) h h' ch ch'"
  shows "chan_step {} h ch ns h' ch'"
  using assms by (auto simp: chan_step_def pending_def)

lemma find_req_step:
  assumes "chan_ok h ch ns"
  shows "\<exists>found h' ch' msg'. find_req_ipmi_msg l h ch (P_start ch) msg = Some (found, h', ch', msg') \<and>
    chan_step {} h ch ns h' ch'"
proof -
  let ?rs = "reqs h ns"
  have "\<exists>found h' ch' msg' rs. find_req_ipmi_msg l h ch (P_start ch) msg = Some (found, h', ch', msg') \<and> pending h' ch' rs"
  proof (cases "l = 0")
    case True
    show ?thesis
    proof (cases "\<forall>r \<in> set ?rs. \<not> req_matches r msg")
      case True
      with \<open>l = 0\<close> pending_find_miss [OF chan_ok_pending [OF assms] True] chan_ok_pending [OF assms]
      show ?thesis by blast
    next
      case False
      then obtain pre r post where r: "?rs = pre @ r # post" "req_matches r msg" "\<forall>x \<in> set pre. \<not> req_matches x msg"
        using split_list_first_prop [of ?rs "\<lambda>r. req_matches r msg"] by blast
      from pending_find_hit [OF _ r(3,2)] chan_ok_pending [OF assms] r(1) \<open>l = 0\<close>
      show ?thesis by metis
    qed
  next
    case False
    then show ?thesis
      using chan_ok_pending [OF assms] by (auto simp: find_req_ipmi_msg_def split: option.splits)
  qed
  then show ?thesis
    using pending_chan_step find_req_keeps [OF _ chan_ok_closed [OF assms] chan_ok_P_start [OF assms]] by blast
qed

lemma clear_req_step:
  assumes "chan_ok h ch ns"
  shows "\<exists>h' ch'. clear_req_ipmi_msg l h ch (P_start ch) msg = Some (h', ch') \<and> chan_step {} h ch ns h' ch'"
proof -
  have "\<exists>h' ch' rs. clear_req_ipmi_msg l h ch (P_start ch) msg = Some (h', ch') \<and> pending h' ch' rs"
    using clear_req_pending [OF chan_ok_pending [OF assms], of msg] chan_ok_pending [OF assms]
    by (cases "l = 0") (auto simp: clear_req_ipmi_msg_def split: option.splits)
  then show ?thesis
    using pending_chan_step clear_req_keeps [OF _ chan_ok_closed [OF assms] chan_ok_P_start [OF assms]] by blast
qed

lemma seq_timeout_step:
  assumes "chan_ok h ch ns"
  shows "\<exists>h' ch'. IPMB_SeqTimeout_channel l tick_fix freq clock en h ch = Some (h', ch') \<and> chan_step {} h ch ns h' ch'"
proof -
  have "\<exists>h' ch' rs. IPMB_SeqTimeout_channel l tick_fix freq clock en h ch = Some (h', ch') \<and> pending h' ch' rs"
    using IPMB_SeqTimeout_channel_scan [OF chan_ok_pending [OF assms], of tick_fix freq clock] chan_ok_pending [OF assms]
    by (cases "l = 0 \<and> en") (auto simp: IPMB_SeqTimeout_channel_def)
  then show ?thesis
    using pending_chan_step seq_timeout_keeps [OF _ chan_ok_closed [OF assms] chan_ok_P_start [OF assms]] by blast
qed

text \<open>The allocator gives a block that is free when it is asked, after the eviction; that may be the
  evicted node itself.\<close>

definition fresh_block :: "heap \<Rightarrow> ipmb_chan \<Rightarrow> addr \<Rightarrow> bool" where
  "fresh_block h ch new \<longleftrightarrow> (\<forall>p c h1 ch1. P_start ch = Some p \<longrightarrow> evict_first h ch p = Some (c, h1, ch1) \<longrightarrow> h1 new = None)"

lemma insert_req_step:
  assumes ok: "chan_ok h ch ns" and fresh: "fresh_block h ch new" and sq: "unat (seq_target msg) < SEQ_NUM"
  shows "\<exists>h' ch' msg'. insert_req_ipmi_msg l (Some (new, junk)) now h ch (P_start ch) msg = Some (h', ch', msg') \<and>
    chan_step {new} h ch ns h' ch' \<and> (new \<in> nodes ch ns \<or> h new = None)"
proof -
  obtain p where p: "P_start ch = Some p" using ok by (auto simp: chan_ok_def)
  obtain h1 ch1 where e: "evict_first h ch p = Some (True, h1, ch1)" "chan_ok h1 ch1 (kept_nodes ns)" "P_start ch1 = Some p"
    using evict_first_ok [OF ok p] by blast
  have n: "h1 new = None" using fresh p e(1) by (auto simp: fresh_block_def)
  have pn: "p \<in> nodes ch ns" using p by (simp add: nodes_def)
  have k1: "keeps (nodes ch ns) h h1 ch ch1" by (rule evict_first_keeps [OF e(1) chan_ok_closed [OF ok] pn])
  then have free: "new \<in> nodes ch ns \<or> h new = None" using n by (auto simp: keeps_def)
  have "new \<notin> set (p # kept_nodes ns)"
    using chan_ok_allocated [OF e(2), of new] n e(3) by (auto simp: nodes_def)
  note ins = insert_req_ok [OF ok p this sq, of junk now]
  have closed: "next_closed h (insert new (nodes ch ns))"
    using chan_ok_closed [OF ok] free by (auto simp: next_closed_def)
  show ?thesis
  proof (cases "l = 0")
    case True
    obtain h' ch' where r: "insert_req_ipmi_msg 0 (Some (new, junk)) now h ch (P_start ch) msg =
        Some (h', ch', msg\<lparr>timestamp := now\<rparr>)" "chan_ok h' ch' (kept_nodes ns @ [new])"
      using ins by blast
    have "keeps (insert new (nodes ch ns)) h h' ch ch'"
      using insert_req_keeps [OF r(1) chan_ok_closed [OF ok] p pn e(1) n] closed by auto
    with r True free show ?thesis by (auto simp: chan_step_def)
  next
    case False
    then show ?thesis using ok closed free p by (auto simp: insert_req_ipmi_msg_def chan_step_def)
  qed
qed

section \<open>The operations of the layer\<close>

definition ipmb_ok :: "ipmb_st \<Rightarrow> bool" where
  "ipmb_ok s \<longleftrightarrow> (\<exists>nss. channels_ok s nss)"

text \<open>\<open>upholds s s'\<close>: the step from \<open>s\<close> to \<open>s'\<close> keeps the invariant, and the tables stay as they were.\<close>

definition upholds :: "ipmb_st \<Rightarrow> ipmb_st \<Rightarrow> bool" where
  "upholds s s' \<longleftrightarrow> (ipmb_ok s \<longrightarrow> ipmb_ok s') \<and> IPMB_config_table s' = IPMB_config_table s \<and>
     IPMB_inf_index_map s' = IPMB_inf_index_map s \<and> length (ip_chans s') = length (ip_chans s)"

lemma upholds_refl [simp]: "upholds s s"
  by (simp add: upholds_def)

lemma upholds_trans [trans]: "upholds a b \<Longrightarrow> upholds b c \<Longrightarrow> upholds a c"
  by (simp add: upholds_def)

lemma upholds_ok: "upholds s s' \<Longrightarrow> ipmb_ok s \<Longrightarrow> ipmb_ok s'"
  by (simp add: upholds_def)

lemma upholds_live: "upholds s s' \<Longrightarrow> live s' j = live s j"
  by (simp add: upholds_def live_def)

lemma live_emit [simp]: "live (emit e s) j = live s j"
  by (simp add: live_def)

lemma channels_ok_emit [simp]: "channels_ok (emit e s) nss = channels_ok s nss"
  by (simp add: channels_ok_def)

lemma upholds_emit [simp]: "upholds s (emit e s)"
  by (simp add: upholds_def ipmb_ok_def)

lemma upholds_emitI: "upholds s s' \<Longrightarrow> upholds s (emit e s')"
  by (rule upholds_trans [OF _ upholds_emit])

text \<open>The fields that the lists do not depend on.\<close>

lemma upholds_set_chan:
  assumes "\<And>h ns. chan_ok h ch' ns = chan_ok h (ip_chans s ! i) ns" and "P_start ch' = P_start (ip_chans s ! i)"
  shows "upholds s (set_chan i ch' s)"
proof -
  have live: "live (set_chan i ch' s) j = live s j" for j by (simp add: live_def)
  have n: "nodes ((ip_chans s)[i := ch'] ! j) ns = nodes (ip_chans s ! j) ns" for j ns
    using assms by (cases "i < length (ip_chans s)") (auto simp: nth_list_update nodes_def not_less list_update_beyond)
  have c: "chan_ok h ((ip_chans s)[i := ch'] ! j) ns = chan_ok h (ip_chans s ! j) ns" for h j ns
    using assms by (cases "i < length (ip_chans s)") (auto simp: nth_list_update not_less list_update_beyond)
  have "channels_ok (set_chan i ch' s) nss = channels_ok s nss" for nss
    unfolding channels_ok_def live by (simp add: n c)
  then show ?thesis by (simp add: upholds_def ipmb_ok_def)
qed

lemma upholds_current_seq: "upholds s (set_chan i ((ip_chans s ! i)\<lparr>current_seq := x\<rparr>) s)"
  by (rule upholds_set_chan) (simp_all add: chan_ok_def)

lemma upholds_tx_disable: "upholds s (set_chan i ((ip_chans s ! i)\<lparr>ipmb_tx_disable := x\<rparr>) s)"
  by (rule upholds_set_chan) (simp_all add: chan_ok_def)

lemma upholds_chan_step:
  assumes i: "live s i" and step: "\<And>ns. chan_ok (ip_heap s) (ip_chans s ! i) ns \<Longrightarrow>
      chan_step N (ip_heap s) (ip_chans s ! i) ns h' ch' \<and>
      (\<forall>a \<in> N. a \<in> nodes (ip_chans s ! i) ns \<or> ip_heap s a = None)"
  shows "upholds s (set_chan i ch' (s\<lparr>ip_heap := h'\<rparr>))"
proof -
  have "ipmb_ok (set_chan i ch' (s\<lparr>ip_heap := h'\<rparr>))" if "ipmb_ok s"
  proof -
    obtain nss where nss: "channels_ok s nss" using \<open>ipmb_ok s\<close> by (auto simp: ipmb_ok_def)
    then have "chan_ok (ip_heap s) (ip_chans s ! i) (nss ! i)" using i by (simp add: channels_ok_def)
    from step [OF this] obtain ns' where "chan_ok h' ch' ns'"
      "keeps (nodes (ip_chans s ! i) (nss ! i) \<union> N) (ip_heap s) h' (ip_chans s ! i) ch'"
      "\<forall>a \<in> N - nodes (ip_chans s ! i) (nss ! i). ip_heap s a = None"
      by (auto simp: chan_step_def)
    from channels_ok_update [OF nss i this] show ?thesis by (auto simp: ipmb_ok_def)
  qed
  then show ?thesis by (simp add: upholds_def)
qed

lemma send_request_upholds:
  assumes "ipmb_send_request ev req index s = Some (e, r, s')"
  shows "upholds s s'"
proof -
  have "s' = s \<or> (\<exists>x ef. s' = emit ef (set_chan (unat index) ((ip_chans s ! unat index)\<lparr>current_seq := x\<rparr>) s))"
    using assms
    by (auto simp: ipmb_send_request_def get_free_seq_def load_eq_Some Let_def
        split: option.splits bind_splits if_splits)
  then show ?thesis by (auto intro: upholds_emitI upholds_current_seq)
qed

lemma send_response_upholds:
  assumes "ipmb_send_response ev resp index s = Some (e, s')"
  shows "upholds s s'"
  using assms
  by (auto simp: ipmb_send_response_def Let_def split: option.splits bind_splits if_splits)

lemma clear_upholds:
  assumes "live s i" and "clear_req_ipmi_msg l (ip_heap s) (ip_chans s ! i) (P_start (ip_chans s ! i)) m = Some (h, ch)"
  shows "upholds s (set_chan i ch (s\<lparr>ip_heap := h\<rparr>))"
  using clear_req_step [of "ip_heap s" "ip_chans s ! i" _ l m] assms
  by (intro upholds_chan_step [where N = "{}"]) auto

lemma find_upholds:
  assumes "live s i" and "find_req_ipmi_msg l (ip_heap s) (ip_chans s ! i) (P_start (ip_chans s ! i)) m = Some (f, h, ch, m')"
  shows "upholds s (set_chan i ch (s\<lparr>ip_heap := h\<rparr>))"
  using find_req_step [of "ip_heap s" "ip_chans s ! i" _ l m] assms
  by (intro upholds_chan_step [where N = "{}"]) auto

lemma timeout_upholds:
  assumes "live s i"
    and "IPMB_SeqTimeout_channel l tick_fix freq clock en (ip_heap s) (ip_chans s ! i) = Some (h, ch)"
  shows "upholds s (set_chan i ch (s\<lparr>ip_heap := h\<rparr>))"
  using seq_timeout_step [of "ip_heap s" "ip_chans s ! i" _ l tick_fix freq clock en] assms
  by (intro upholds_chan_step [where N = "{}"]) auto

lemma insert_upholds:
  assumes "live s i" and "fresh_block (ip_heap s) (ip_chans s ! i) new" "unat (seq_target m) < SEQ_NUM"
    and "insert_req_ipmi_msg l (Some (new, junk)) now (ip_heap s) (ip_chans s ! i) (P_start (ip_chans s ! i)) m = Some (h, ch, m')"
  shows "upholds s (set_chan i ch (s\<lparr>ip_heap := h\<rparr>))"
  using insert_req_step [of "ip_heap s" "ip_chans s ! i" _ new m l junk now] assms
  by (intro upholds_chan_step [where N = "{new}"]) auto

lemma ipmb_read_upholds:
  assumes "live s (unat index)"
    and "ipmb_read ev a b c got d m index s = Some (e, m', s')"
  shows "upholds s s'"
proof -
  consider "s' = s" | e1 r s1 where "ipmb_send_request ev m index (emit (Purge_rx (unat index)) s) = Some (e1, r, s1)"
      "s' = s1 \<or> (\<exists>q h ch. clear_req_ipmi_msg d (ip_heap s1) (ip_chans s1 ! unat index)
          (P_start (ip_chans s1 ! unat index)) q = Some (h, ch) \<and> s' = set_chan (unat index) ch (s1\<lparr>ip_heap := h\<rparr>))"
    using assms(2)
    by (auto simp: ipmb_read_def Let_def load_eq_Some split: option.splits bind_splits if_splits) blast
  then show ?thesis
  proof cases
    case 1
    then show ?thesis by simp
  next
    case 2
    have u: "upholds s s1" by (rule upholds_trans [OF upholds_emit send_request_upholds [OF 2(1)]])
    have "live s1 (unat index)" using assms(1) upholds_live [OF u] by simp
    with 2(2) clear_upholds upholds_trans [OF u] u show ?thesis by blast
  qed
qed

text \<open>The tasks: an iteration of the transmit task, of the receive task and of the timeout thread.\<close>

lemma tx_give_up_upholds:
  assumes "tx_give_up b ev m s = Some s'"
  shows "upholds s s'"
  using assms
  by (auto simp: tx_give_up_def Let_def dest: send_response_upholds split: bind_splits if_splits)

lemma tx_response_upholds:
  assumes "tx_response b ev cfg m txbuf s = Some (t, s')"
  shows "upholds s s'"
  using assms
  by (auto simp: tx_response_def Let_def intro!: upholds_emitI split: bind_splits if_splits)

lemma tx_request_upholds:
  assumes "tx_request b ev cfg m txbuf s = Some (t, s')" and i: "live s (unat (cfg_index cfg))"
    and mal: "ins_malloc ev = Some (new, junk)" "fresh_block (ip_heap s) (ip_chans s ! unat (cfg_index cfg)) new"
    and sq: "unat (seq (buffer m)) < SEQ_NUM"
  shows "upholds s s'"
proof -
  let ?i = "unat (cfg_index cfg)"
  let ?m = "(buffer m)\<lparr>seq_target := seq (buffer m)\<rparr>"
  consider "s' = s" | h ch q ef where
      "insert_req_ipmi_msg (ins_lock ev) (Some (new, junk)) (ins_now ev) (ip_heap s) (ip_chans s ! ?i)
         (P_start (ip_chans s ! ?i)) ?m = Some (h, ch, q)"
      "s' = emit ef (set_chan ?i ch (s\<lparr>ip_heap := h\<rparr>)) \<or>
       (\<exists>f h2 ch2 q2. find_req_ipmi_msg (find_lock ev) h ch (P_start ch) q = Some (f, h2, ch2, q2) \<and>
         (let s2 = set_chan ?i ch2 ((emit ef (set_chan ?i ch (s\<lparr>ip_heap := h\<rparr>)))\<lparr>ip_heap := h2\<rparr>) in
          (\<exists>e2. s' = emit e2 s2) \<or> (\<exists>m2. tx_give_up b ev m2 s2 = Some s')))"
    using assms(1) mal(1)
    by (auto simp: tx_request_def Let_def load_eq_Some split: bind_splits if_splits) blast+
  then show ?thesis
  proof cases
    case 1
    then show ?thesis by simp
  next
    case (2 h ch q ef)
    let ?s1 = "emit ef (set_chan ?i ch (s\<lparr>ip_heap := h\<rparr>))"
    have u1: "upholds s ?s1"
      by (rule upholds_emitI [OF insert_upholds [OF i mal(2) _ 2(1)]]) (simp add: sq)
    have l1: "live ?s1 ?i" using upholds_live [OF u1] i by simp
    have ch: "ip_chans ?s1 ! ?i = ch" "ip_heap ?s1 = h" using i by (simp_all add: live_def)
    from 2(2) show ?thesis
    proof (elim disjE exE conjE)
      assume "s' = ?s1"
      then show ?thesis using u1 by simp
    next
      fix f h2 ch2 q2
      assume f: "find_req_ipmi_msg (find_lock ev) h ch (P_start ch) q = Some (f, h2, ch2, q2)"
        and r: "let s2 = set_chan ?i ch2 (?s1\<lparr>ip_heap := h2\<rparr>) in
          (\<exists>e2. s' = emit e2 s2) \<or> (\<exists>m2. tx_give_up b ev m2 s2 = Some s')"
      have "upholds ?s1 (set_chan ?i ch2 (?s1\<lparr>ip_heap := h2\<rparr>))"
        by (rule find_upholds [OF l1]) (use f ch in simp)
      from upholds_trans [OF u1 this] r show ?thesis
        by (auto simp: Let_def intro: upholds_emitI upholds_trans [OF _ tx_give_up_upholds])
    qed
  qed
qed

lemma rx_deliver_upholds:
  assumes "rx_deliver b ev cfg msg s = Some s'"
  shows "upholds s s'"
proof -
  have "upholds s s'" if "rx_to_kcs b ev msg s = Some s'"
    using that by (auto simp: rx_to_kcs_def split: if_splits)
  moreover have "upholds s s'" if "rx_to_me ev msg s = Some s'"
    using that by (auto simp: rx_to_me_def Let_def dest: send_response_upholds split: bind_splits if_splits)
  moreover have "upholds s s'" if "rx_to_bridge b ev cfg msg s = Some s'"
    using that by (auto simp: rx_to_bridge_def dest: send_response_upholds split: bind_splits if_splits)
  ultimately show ?thesis
    using assms by (auto simp: rx_deliver_def split: bind_splits if_splits)
qed

lemma rx_me_request_upholds:
  assumes "rx_me_request ev msg s = Some s'"
  shows "upholds s s'"
proof (cases "bridge_malloc ev")
  case True
  have r: "upholds s s'" if "ipmb_send_response e (Some x) i (emit y s) = Some (z, s')" for e x i y z
    using upholds_trans [OF upholds_emit send_response_upholds [OF that]] .
  have q: "upholds s s'" if "ipmb_send_request e (Some x) i s = Some (z, a, s1)"
    "ipmb_send_response e2 (Some x2) i2 s1 = Some (z2, s')" for e x i z a s1 e2 x2 i2 z2
    using upholds_trans [OF send_request_upholds [OF that(1)] send_response_upholds [OF that(2)]] .
  show ?thesis
    using assms True
    by (auto simp: rx_me_request_def Let_def split: bind_splits if_splits intro: r q send_request_upholds)
next
  case False
  with assms show ?thesis by (simp add: rx_me_request_def)
qed

lemma IPMB_RXTask_upholds:
  assumes "IPMB_RXTask b ev cfg s = Some s'" and i: "live s (unat (cfg_index cfg))"
  shows "upholds s s'"
proof -
  have resp: "upholds s s'" if "rx_response b ev cfg msg s = Some s'" for msg
  proof -
    let ?i = "unat (cfg_index cfg)"
    from that obtain f h ch q where q: "find_req_ipmi_msg (rx_find_lock ev) (ip_heap s) (ip_chans s ! ?i)
        (P_start (ip_chans s ! ?i)) (msg\<lparr>seq_target := seq msg\<rparr>) = Some (f, h, ch, q)"
      "s' = set_chan ?i ch (s\<lparr>ip_heap := h\<rparr>) \<or> rx_deliver b ev cfg q (set_chan ?i ch (s\<lparr>ip_heap := h\<rparr>)) = Some s'"
      by (auto simp: rx_response_def Let_def load_eq_Some split: bind_splits if_splits)
    show ?thesis
      using q(2) find_upholds [OF i q(1)] upholds_trans [OF find_upholds [OF i q(1)] rx_deliver_upholds] by auto
  qed
  have req: "upholds s s'" if "rx_request ev cfg m s = Some s'" for m
    using that by (auto simp: rx_request_def dest: rx_me_request_upholds split: bind_splits if_splits)
  show ?thesis
    using assms(1) by (auto simp: IPMB_RXTask_def Let_def split: bind_splits if_splits intro: resp req)
qed

lemma IPMB_TXTask_upholds:
  assumes "IPMB_TXTask b ev cfg m txbuf s = Some (t, s')" and "live s (unat (cfg_index cfg))"
    and "ins_malloc ev = Some (new, junk)" "fresh_block (ip_heap s) (ip_chans s ! unat (cfg_index cfg)) new"
    and "unat (seq (buffer m)) < SEQ_NUM"
  shows "upholds s s'"
  using assms(1) tx_request_upholds [OF _ assms(2-5)]
  by (auto simp: IPMB_TXTask_def dest: tx_response_upholds split: bind_splits if_splits)

text \<open>The timeout thread skips the channels that are not enabled; over the others it always returns.\<close>

lemma IPMB_SeqTimeout_handler_runs:
  assumes "ipmb_ok s" and "\<forall>i \<in> set ixs. i < length (ip_chans s)"
  shows "\<exists>s'. IPMB_SeqTimeout_handler lock tick_fix freq clock ixs s = Some s' \<and> upholds s s'"
  using assms
proof (induction ixs arbitrary: s)
  case Nil
  then show ?case by simp
next
  case (Cons i ixs)
  obtain nss where nss: "channels_ok s nss" using Cons.prems(1) by (auto simp: ipmb_ok_def)
  have i: "i < length (ip_chans s)" "i < length (IPMB_config_table s)"
    using Cons.prems nss by (auto simp: channels_ok_def)
  let ?en = "enable_status (IPMB_config_table s ! i)"
  obtain h ch where t: "IPMB_SeqTimeout_channel (lock i) tick_fix freq (clock i) ?en (ip_heap s) (ip_chans s ! i) = Some (h, ch)"
    "upholds s (set_chan i ch (s\<lparr>ip_heap := h\<rparr>))"
  proof (cases ?en)
    case True
    then have "live s i" "chan_ok (ip_heap s) (ip_chans s ! i) (nss ! i)"
      using nss i by (auto simp: live_def channels_ok_def)
    with that seq_timeout_step [of "ip_heap s" "ip_chans s ! i" "nss ! i" "lock i" tick_fix freq "clock i" ?en]
      timeout_upholds [of s i "lock i" tick_fix freq "clock i" ?en] show ?thesis by auto
  next
    case False
    with that [of "ip_heap s" "ip_chans s ! i"] show ?thesis
      by (simp add: IPMB_SeqTimeout_channel_def set_chan_def)
  qed
  let ?s = "set_chan i ch (s\<lparr>ip_heap := h\<rparr>)"
  obtain s' where "IPMB_SeqTimeout_handler lock tick_fix freq clock ixs ?s = Some s'" "upholds ?s s'"
    using Cons.IH [of ?s] Cons.prems upholds_ok [OF t(2)] by auto
  with t i upholds_trans [OF t(2)] show ?case by auto
qed

section \<open>The threads in any order\<close>

text \<open>The steps of the layer, one call or iteration each: requests and responses sent by any thread,
  a blocking read on a channel, an iteration of the transmit and of the receive task of a channel, a
  round of the timeout thread, and the suspension of a channel. The task of channel \<open>j\<close> works on its
  table entry. A message in the transmit queue has a sequence number of six bits, and the allocation
  of a list node succeeds with a block that is free.\<close>

inductive ipmb_step :: "ipmb_build \<Rightarrow> ipmb_st \<Rightarrow> ipmb_st \<Rightarrow> bool" for b where
  send_request: "ipmb_send_request ev req index s = Some (e, r, s') \<Longrightarrow> ipmb_step b s s'"
| send_response: "ipmb_send_response ev resp index s = Some (e', s') \<Longrightarrow> ipmb_step b s s'"
| read_channel: "live s (unat index) \<Longrightarrow> ipmb_read ev rq rm lk got cl m index s = Some (e, m', s') \<Longrightarrow> ipmb_step b s s'"
| transmit: "live s j \<Longrightarrow> cfg = IPMB_config_table s ! j \<Longrightarrow> unat (cfg_index cfg) = j \<Longrightarrow>
    ins_malloc tev = Some (new, junk) \<Longrightarrow> fresh_block (ip_heap s) (ip_chans s ! j) new \<Longrightarrow>
    unat (seq (buffer q)) < SEQ_NUM \<Longrightarrow> IPMB_TXTask b tev cfg q txbuf s = Some (t, s') \<Longrightarrow> ipmb_step b s s'"
| receive: "live s j \<Longrightarrow> cfg = IPMB_config_table s ! j \<Longrightarrow> unat (cfg_index cfg) = j \<Longrightarrow>
    IPMB_RXTask b rxev cfg s = Some s' \<Longrightarrow> ipmb_step b s s'"
| timeout: "IPMB_SeqTimeout_handler lock tick_fix freq clock [0..<length (ip_chans s)] s = Some s' \<Longrightarrow> ipmb_step b s s'"
| suspend: "ipmb_step b s (ipmb_tx_suspend index s)"
| resume: "ipmb_step b s (ipmb_tx_resume index s)"

lemma ipmb_step_ok: "ipmb_step b s s' \<Longrightarrow> ipmb_ok s \<Longrightarrow> upholds s s'"
proof (induction rule: ipmb_step.induct)
  case (timeout lock tick_fix freq clock s s')
  then show ?case
    using IPMB_SeqTimeout_handler_runs [of s "[0..<length (ip_chans s)]" lock tick_fix freq clock] by auto
next
  case (transmit s j cfg tev new junk q txbuf t s')
  then show ?case using IPMB_TXTask_upholds [of b tev cfg q txbuf s t s' new junk] by auto
qed (auto intro: send_request_upholds send_response_upholds ipmb_read_upholds IPMB_RXTask_upholds
    simp: ipmb_tx_suspend_def ipmb_tx_resume_def upholds_tx_disable)

lemma ipmb_steps_ok: "(ipmb_step b)\<^sup>*\<^sup>* s s' \<Longrightarrow> ipmb_ok s \<Longrightarrow> upholds s s'"
proof (induction rule: rtranclp_induct)
  case (step y z)
  then have "upholds s y" by blast
  with step show ?case using ipmb_step_ok upholds_ok upholds_trans by blast
qed simp

text \<open>After the initialisation every enabled channel has an empty list of its own.\<close>

lemma pending_Nil_chan_ok: "pending h ch [] \<Longrightarrow> chan_ok h ch []"
  by (auto simp: pending_def reqs_def)

lemma init_channels_ok:
  assumes "length (ip_chans s) = length (IPMB_config_table s)" "inj_on blk {..<length (ip_chans s)}"
    and "\<forall>i < length (ip_chans s). enable_status (IPMB_config_table s ! i) \<longrightarrow>
      pending (ip_heap s) (ip_chans s ! i) [] \<and> P_start (ip_chans s ! i) = Some (blk i)"
  shows "ipmb_ok s"
proof -
  have "channels_ok s (replicate (length (ip_chans s)) [])"
    using assms
    by (auto simp: channels_ok_def live_def nodes_def pending_Nil_chan_ok dest: inj_onD)
  then show ?thesis by (auto simp: ipmb_ok_def)
qed

text \<open>What the invariant gives: every list operation on every enabled channel returns.\<close>

definition lists_usable :: "ipmb_st \<Rightarrow> bool" where
  "lists_usable s \<longleftrightarrow>
     (\<forall>j. live s j \<longrightarrow> (let ch = ip_chans s ! j in
        (\<forall>l m. find_req_ipmi_msg l (ip_heap s) ch (P_start ch) m \<noteq> None) \<and>
        (\<forall>l m. clear_req_ipmi_msg l (ip_heap s) ch (P_start ch) m \<noteq> None) \<and>
        (\<forall>l new junk now m. fresh_block (ip_heap s) ch new \<longrightarrow> unat (seq_target m) < SEQ_NUM \<longrightarrow>
           insert_req_ipmi_msg l (Some (new, junk)) now (ip_heap s) ch (P_start ch) m \<noteq> None))) \<and>
     (\<forall>lock tick_fix freq clock.
        IPMB_SeqTimeout_handler lock tick_fix freq clock [0..<length (ip_chans s)] s \<noteq> None)"

lemma ipmb_ok_usable:
  assumes "ipmb_ok s"
  shows "lists_usable s"
proof -
  obtain nss where nss: "channels_ok s nss" using assms by (auto simp: ipmb_ok_def)
  have "find_req_ipmi_msg l (ip_heap s) (ip_chans s ! j) (P_start (ip_chans s ! j)) m \<noteq> None \<and>
      clear_req_ipmi_msg l (ip_heap s) (ip_chans s ! j) (P_start (ip_chans s ! j)) m \<noteq> None \<and>
      (fresh_block (ip_heap s) (ip_chans s ! j) new \<longrightarrow> unat (seq_target m) < SEQ_NUM \<longrightarrow>
        insert_req_ipmi_msg l (Some (new, junk)) now (ip_heap s) (ip_chans s ! j) (P_start (ip_chans s ! j)) m \<noteq> None)"
    if "live s j" for j l m new junk now
  proof -
    have ok: "chan_ok (ip_heap s) (ip_chans s ! j) (nss ! j)" using nss that by (simp add: channels_ok_def)
    show ?thesis
      using find_req_step [OF ok, of l m] clear_req_step [OF ok, of l m]
        insert_req_step [OF ok, of new m l junk now] by auto
  qed
  moreover have "IPMB_SeqTimeout_handler lock tick_fix freq clock [0..<length (ip_chans s)] s \<noteq> None"
    for lock tick_fix freq clock
    using IPMB_SeqTimeout_handler_runs [OF assms, of "[0..<length (ip_chans s)]" lock tick_fix freq clock] by auto
  ultimately show ?thesis by (simp add: lists_usable_def Let_def)
qed

section \<open>Properties\<close>

text \<open>C3. The request lists survive every interleaving. After the initialisation with a loaded
  configuration, whatever calls and task iterations follow, in whatever order and on whatever
  channels: the list of every enabled channel is an intact ring, no two of them share a node, and
  in the state reached every search, removal and insertion on every enabled channel and the whole
  timeout round return, without following a dangling or null pointer. Node allocations are assumed
  to succeed, and sequence numbers in the transmit queues to have six bits.\<close>

theorem request_lists_stay_intact:
  assumes tab: "length tab = length (ip_chans s0)" "t < length tab" "t < 256" "cfg_index (tab ! t) = RESERVED_IDX"
      "\<forall>j < t. cfg_index (tab ! j) \<noteq> RESERVED_IDX"
    and mal: "\<forall>i < length tab. mal i = Some (blk i, junk i)" "inj_on blk {..<length tab}"
    and zero: "\<forall>i < length tab. seq_current_count (ip_chans s0 ! i) = 0"
    and init: "ipmb_init True (True, tab) freq mal minit s0 = Some (s, r)" and steps: "(ipmb_step b)\<^sup>*\<^sup>* s s'"
  shows "ipmb_ok s' \<and> lists_usable s' \<and> IPMB_config_table s' = tab"
proof -
  have s: "IPMB_config_table s = tab" "length (ip_chans s) = length tab"
    "\<forall>i < length tab. enable_status (tab ! i) \<longrightarrow>
      pending (ip_heap s) (ip_chans s ! i) [] \<and> P_start (ip_chans s ! i) = Some (blk i)"
    using ipmb_init_result [OF tab mal zero, of freq minit] init by auto
  have "ipmb_ok s" by (rule init_channels_ok [of s blk]) (use s mal(2) in simp_all)
  from ipmb_steps_ok [OF steps this] this s(1) have "ipmb_ok s'" "IPMB_config_table s' = tab"
    by (simp_all add: upholds_def)
  with ipmb_ok_usable show ?thesis by blast
qed

theorem request_lists_stay_intact_witness:
  "\<exists>s r s'. ipmb_init True (True, [demo_cfg, demo_cfg\<lparr>cfg_index := RESERVED_IDX\<rparr>]) 1000000
      (\<lambda>i. Some (i + 50, demo_node)) (\<lambda>_ _. 0) ((demo_st 0)\<lparr>ip_chans := [demo_chan 0, demo_chan 0]\<rparr>) = Some (s, r) \<and>
    (ipmb_step demo_build)\<^sup>*\<^sup>* s s' \<and> s' \<noteq> s \<and> live s' 0 \<and> live s' 1 \<and> ipmb_ok s' \<and> lists_usable s'"
proof -
  let ?tab = "[demo_cfg, demo_cfg\<lparr>cfg_index := RESERVED_IDX\<rparr>]"
  let ?s0 = "(demo_st 0)\<lparr>ip_chans := [demo_chan 0, demo_chan 0]\<rparr>"
  have h: "length ?tab = length (ip_chans ?s0)" "(1 :: nat) < length ?tab" "(1 :: nat) < 256"
    "cfg_index (?tab ! 1) = RESERVED_IDX" "\<forall>j < 1. cfg_index (?tab ! j) \<noteq> RESERVED_IDX"
    "\<forall>i < length ?tab. (\<lambda>i. Some (i + 50, demo_node)) i = Some ((\<lambda>i. i + 50) i, (\<lambda>_. demo_node) i)"
    "inj_on (\<lambda>i. i + 50 :: nat) {..<length ?tab}"
    "\<forall>i < length ?tab. seq_current_count (ip_chans ?s0 ! i) = 0"
    by (auto simp: demo_cfg_def demo_chan_def less_Suc_eq inj_on_def nth_Cons split: nat.splits)
  from ipmb_init_result [OF this, of 1000000 "\<lambda>_ _. 0"] obtain s r where
    s: "ipmb_init True (True, ?tab) 1000000 (\<lambda>i. Some (i + 50, demo_node)) (\<lambda>_ _. 0) ?s0 = Some (s, r)"
    "length (ip_chans s) = 2" "IPMB_config_table s = ?tab" by fastforce
  obtain e' s' where r: "ipmb_send_response demo_send (Some zero_msg) 0 (ipmb_tx_suspend 1 s) = Some (e', s')"
    "ip_out s' \<noteq> ip_out s"
    using s(2,3)
    by (auto simp: ipmb_send_response_def demo_send_def demo_node_def zero_msg_def ipmb_tx_suspend_def)
  have steps: "(ipmb_step demo_build)\<^sup>*\<^sup>* s s'"
    using rtranclp.rtrancl_into_rtrancl [OF r_into_rtranclp [of "ipmb_step demo_build", OF suspend [of demo_build s 1]]
        send_response [OF r(1)]] .
  have "s' \<noteq> s" using r(2) by auto
  moreover from request_lists_stay_intact [OF h s(1) steps]
  have "ipmb_ok s' \<and> lists_usable s' \<and> IPMB_config_table s' = ?tab" .
  moreover have "length (ip_chans s') = 2"
    using calculation(2) by (auto simp: ipmb_ok_def channels_ok_def)
  ultimately show ?thesis using s(1) steps by (fastforce simp: live_def demo_cfg_def)
qed

end
