(* ===== verification/Oem1s_Handler.thy ===== *)
theory Oem1s_Handler
  imports Oem1s_Gpio Oem1s_Io Oem1s_Sensor Oem1s_Firmware Ipmb_Channels
begin

text \<open>
  The bridging commands and the dispatch of \<open>samples/ipmi_openbic/src/ipmi/oem_1s_handler.c\<close>. Message
  Out forwards a request to another interface over IPMB, and BMC IPMB Access asks the BMC and waits for
  the answer; both work on the state of the IPMB layer. \<open>IPMI_OEM_1S_handler\<close> is the dispatch over
  all commands; its state collects what they change.
\<close>

section \<open>Bridging\<close>

text \<open>The answers to the calls of one Message Out: the allocation, the queue of the target and the
  queue of the source.\<close>

record bridge_env =
  br_malloc :: bool
  br_request :: send_env
  br_response :: send_env

definition pal_extend_msg_out_interface_handler :: "ipmi_msg \<Rightarrow> int" where
  "pal_extend_msg_out_interface_handler msg = -1"

text \<open>An interface that no channel serves, or a disabled one.\<close>

definition bridge_disabled :: "ipmb_st \<Rightarrow> u8 \<Rightarrow> bool option" where
  "bridge_disabled s target_IF = do {
     i \<leftarrow> load (IPMB_inf_index_map s) (unat target_IF);
     if i = RESERVED then Some True
     else do {
       c \<leftarrow> load (IPMB_config_table s) (unat i);
       Some (cfg_interface c = RESERVED_IF \<or> \<not> enable_status c)
     }
   }"

text \<open>The checks before the target is looked up: the completion code, the length, and the exchange
  of the two slots for a request to the peer.\<close>

definition msg_out_prepare :: "ipmi_msg \<Rightarrow> ipmi_msg" where
  "msg_out_prepare msg =
     (let msg = (if completion_code msg \<noteq> CC_INVALID_IANA then msg\<lparr>completion_code := CC_SUCCESS\<rparr> else msg);
          msg = (if data_len msg \<le> 2 then msg\<lparr>completion_code := CC_INVALID_LENGTH\<rparr> else msg) in
      if data msg ! 0 = PEER_BMC_IPMB then
        let msg = (if InF_source msg = SLOT1_BIC then msg\<lparr>data := (data msg)[0 := SLOT3_BIC]\<rparr>
                   else if InF_source msg = SLOT3_BIC then msg\<lparr>data := (data msg)[0 := SLOT1_BIC]\<rparr>
                   else msg\<lparr>completion_code := CC_INVALID_DATA_FIELD\<rparr>) in
        if data msg ! 1 = NETFN_STORAGE_REQ then msg\<lparr>data := (data msg)[1 := push_bit 2 (data msg ! 1)]\<rparr> else msg
      else msg)"

definition msg_out_send :: "bridge_env \<Rightarrow> ipmb_st \<Rightarrow> ipmi_msg \<Rightarrow> (ipmb_st \<times> ipmi_msg) option" where
  "msg_out_send ev s msg =
     (if \<not> br_malloc ev then Some (s, msg\<lparr>completion_code := CC_OUT_OF_SPACE\<rparr>)
      else do {
        let bridge_msg = zero_msg\<lparr>data_len := data_len msg - 3, seq_source := seq_source msg,
          InF_target := data msg ! 0, InF_source := InF_source msg, netfn := drop_bit 2 (data msg ! 1),
          cmd := data msg ! 2, pldm_inst_id := pldm_inst_id msg\<rparr>;
        d \<leftarrow> (if data_len bridge_msg \<noteq> 0
             then memcpy (data bridge_msg) 0 (data msg) 3 (unat (data_len bridge_msg)) else Some (data bridge_msg));
        i \<leftarrow> load (IPMB_inf_index_map s) (unat (data msg ! 0));
        (status, _, s) \<leftarrow> ipmb_send_request (br_request ev) (Some (bridge_msg\<lparr>data := d\<rparr>)) i s;
        Some (s, if status \<noteq> IPMB_ERROR_SUCCESS then msg\<lparr>completion_code := CC_BRIDGE_MSG_ERR\<rparr> else msg)
      })"

definition msg_out_reject :: "bridge_env \<Rightarrow> ipmb_st \<Rightarrow> ipmi_msg \<Rightarrow> (ipmb_st \<times> ipmi_msg) option" where
  "msg_out_reject ev s msg =
     (let msg = msg\<lparr>data_len := 0\<rparr> in
      if InF_source msg = PLDM \<or> InF_source msg = MCTP then Some (emit (Pldm_response (InF_source msg) msg) s, msg)
      else do {
        i \<leftarrow> load (IPMB_inf_index_map s) (unat (InF_source msg));
        (_, s) \<leftarrow> ipmb_send_response (br_response ev) (Some msg) i s;
        Some (s, msg)
      })"

definition OEM_1S_MSG_OUT :: "bool \<Rightarrow> bridge_env \<Rightarrow> ipmb_st \<Rightarrow> ipmi_msg \<Rightarrow> (ipmb_st \<times> ipmi_msg) option" where
  "OEM_1S_MSG_OUT has_ipmb ev s msg =
     (if \<not> has_ipmb then Some (s, msg\<lparr>completion_code := CC_UNSPECIFIED_ERROR\<rparr>)
      else do {
        let msg = msg_out_prepare msg;
        bad \<leftarrow> bridge_disabled s (data msg ! 0);
        if bad \<and> pal_extend_msg_out_interface_handler msg = 0 then Some (s, msg)
        else do {
          let msg = (if bad then msg\<lparr>completion_code := CC_NOT_SUPP_IN_CURR_STATE\<rparr> else msg);
          (s, msg) \<leftarrow> (if completion_code msg = CC_SUCCESS then msg_out_send ev s msg else Some (s, msg));
          if completion_code msg \<noteq> CC_SUCCESS then msg_out_reject ev s msg else Some (s, msg)
        }
      })"

definition OEM_1S_BMC_IPMB_ACCESS :: "bool \<Rightarrow> sel_env \<Rightarrow> ipmb_st \<Rightarrow> ipmi_msg \<Rightarrow> (ipmb_st \<times> ipmi_msg) option" where
  "OEM_1S_BMC_IPMB_ACCESS has_ipmb ev s msg =
     (if \<not> has_ipmb then Some (s, msg\<lparr>completion_code := CC_UNSPECIFIED_ERROR\<rparr>)
      else if data_len msg < 2 then Some (s, msg\<lparr>completion_code := CC_INVALID_LENGTH\<rparr>)
      else do {
        bad \<leftarrow> bridge_disabled s BMC_IPMB;
        if bad then Some (s, msg\<lparr>completion_code := CC_NOT_SUPP_IN_CURR_STATE\<rparr>)
        else do {
          d \<leftarrow> memcpy (data zero_msg) 0 (data msg) 2 (unat (data_len msg - 2));
          let msgtobmc = zero_msg\<lparr>InF_source := SELF, InF_target := BMC_IPMB, netfn := data msg ! 0,
            cmd := data msg ! 1, data_len := data_len msg - 2, data := d\<rparr>;
          i \<leftarrow> load (IPMB_inf_index_map s) (unat (InF_target msgtobmc));
          (status, b, s) \<leftarrow> ipmb_read (sel_send ev) (sel_rxq_init ev) (sel_read_mutex_init ev)
            (sel_read_lock ev) (sel_got ev) (sel_clear_lock ev) (Some msgtobmc) i s;
          if status \<noteq> IPMB_ERROR_SUCCESS then Some (s, msg\<lparr>completion_code := CC_UNSPECIFIED_ERROR\<rparr>)
          else do {
            b \<leftarrow> b;
            d \<leftarrow> memcpy ((data msg)[0 := completion_code b]) 1 (data b) 0 (unat (data_len b));
            Some (s, msg\<lparr>data := d, data_len := 1 + data_len b, completion_code := CC_SUCCESS\<rparr>)
          }
        }
      })"

section \<open>Sensor data records\<close>

definition OEM_1S_GET_SDR :: "'w storage_plat \<Rightarrow> 'w \<Rightarrow> ipmi_msg \<Rightarrow> ipmi_msg option" where
  "OEM_1S_GET_SDR p w msg =
     (let rsv_table_index = (if InF_source msg = SLOT3_BIC then RSV_TABLE_INDEX_1 else RSV_TABLE_INDEX_0);
          rsv_ID = le16 (data msg ! 0) (data msg ! 1);
          record_ID = le16 (data msg ! 2) (data msg ! 3);
          offset = data msg ! 4;
          req_len = data msg ! 5 in
      if data_len msg \<noteq> 6 then Some (msg\<lparr>completion_code := CC_INVALID_LENGTH\<rparr>)
      else if \<not> SDR_RSV_ID_check p rsv_ID rsv_table_index w
        then Some (msg\<lparr>completion_code := CC_INVALID_RESERVATION\<rparr>)
      else if \<not> SDR_check_record_ID p record_ID then Some (msg\<lparr>completion_code := CC_INVALID_DATA_FIELD\<rparr>)
      else if unat req_len + 2 > IPMI_DATA_MAX_LENGTH then Some (msg\<lparr>completion_code := CC_LENGTH_EXCEEDED\<rparr>)
      else if unat offset + unat req_len > IPMI_SDR_HEADER_LEN p + sdr_record_len p record_ID
        then Some (msg\<lparr>completion_code := CC_PARAM_OUT_OF_RANGE\<rparr>)
      else do {
        let next_record_ID = SDR_get_record_ID p record_ID;
        let d = blit (data msg) 0 [ucast (next_record_ID AND 0xFF), ucast (drop_bit 8 next_record_ID AND 0xFF)];
        d \<leftarrow> memcpy d 2 (full_sdr_table p record_ID) (unat offset) (unat req_len);
        Some (msg\<lparr>data := d, data_len := ucast req_len + 2, completion_code := CC_SUCCESS\<rparr>)
      })"

lemma GET_SDR_same: "OEM_1S_GET_SDR = STORAGE_GET_SDR"
  by (intro ext) (simp only: OEM_1S_GET_SDR_def STORAGE_GET_SDR_def)

section \<open>Dispatch\<close>

text \<open>The services of the platform and what the environment answers during a command; \<open>i1s_junk\<close> is the
  contents of an allocated message.\<close>

record 'w oem1s_plat =
  i1s_board :: "'w board_plat"
  i1s_oem :: "'w oem_plat"
  i1s_gpio :: "'w gpio_plat"
  i1s_peci :: "'w peci_plat"
  i1s_jtag :: "'w jtag_plat"
  i1s_apml :: "'w apml_plat"
  i1s_post :: "'w post_plat"
  i1s_pldm :: "'w pldm_plat"
  i1s_sensor :: "'w sensor1s_plat"
  i1s_fw :: "'w fw_plat"
  i1s_vr :: "'w vr_plat"
  i1s_storage :: "'w storage_plat"
  CONFIG_I3C_ASPEED :: bool
  i1s_bridge :: bridge_env
  i1s_sel :: sel_env
  i1s_junk :: ipmi_msg

text \<open>The state the commands work on: the board behind the services, the power flags, the IPMB layer, the
  address space, the polling flags of the sensor table and the request counter of APML.\<close>

record 'w oem1s_st =
  st_world :: 'w
  st_power :: power_state
  st_ipmb :: ipmb_st
  st_mem :: memory
  st_polling :: "u8 list"
  st_apml :: u8

definition on_world :: "'w oem1s_st \<Rightarrow> ('w \<times> ipmi_msg) option \<Rightarrow> ('w oem1s_st \<times> ipmi_msg) option" where
  "on_world st x = do { (w, m) \<leftarrow> x; Some (st\<lparr>st_world := w\<rparr>, m) }"

definition on_ipmb :: "'w oem1s_st \<Rightarrow> (ipmb_st \<times> ipmi_msg) option \<Rightarrow> ('w oem1s_st \<times> ipmi_msg) option" where
  "on_ipmb st x = do { (s, m) \<leftarrow> x; Some (st\<lparr>st_ipmb := s\<rparr>, m) }"

definition IPMI_OEM_1S_handler ::
    "'w oem1s_plat \<Rightarrow> 'w oem1s_st \<Rightarrow> ipmi_msg \<Rightarrow> ('w oem1s_st \<times> ipmi_msg) option" where
  "IPMI_OEM_1S_handler p st msg =
     (let c = cmd msg; w = st_world st; s = st_ipmb st; same = (\<lambda>m. Some (st, m));
          world = (\<lambda>x. on_world st (Some x)) in
      if c = CMD_OEM_1S_MSG_IN then same msg
      else if c = CMD_OEM_1S_MSG_OUT then on_ipmb st (OEM_1S_MSG_OUT (HAS_IPMB (i1s_vr p)) (i1s_bridge p) s msg)
      else if c = CMD_OEM_1S_GET_GPIO then on_world st (OEM_1S_GET_GPIO (i1s_gpio p) w msg)
      else if c = CMD_OEM_1S_SET_GPIO then same msg
      else if c = CMD_OEM_1S_GET_GPIO_CONFIG then same (OEM_1S_GET_GPIO_CONFIG msg)
      else if c = CMD_OEM_1S_SET_GPIO_CONFIG then same (OEM_1S_SET_GPIO_CONFIG msg)
      else if c = CMD_OEM_1S_FW_UPDATE then world (OEM_1S_FW_UPDATE (i1s_fw p) w msg)
      else if c = CMD_OEM_1S_GET_BIC_FW_INFO then same (OEM_1S_GET_BIC_FW_INFO msg)
      else if c = CMD_OEM_1S_GET_FW_VERSION then do {
        ((w, s), msg) \<leftarrow> OEM_1S_GET_FW_VERSION (i1s_vr p) (i1s_sel p) (i1s_junk p) (w, s) msg;
        Some (st\<lparr>st_world := w, st_ipmb := s\<rparr>, msg)
      }
      else if c = CMD_OEM_1S_INFORM_BMC_TO_CONTROL_POWER then same (OEM_1S_INFORM_BMC_TO_CONTROL_POWER msg)
      else if c = CMD_OEM_1S_RESET_BMC then world (OEM_1S_RESET_BMC (i1s_board p) w msg)
      else if c = CMD_OEM_1S_READ_FW_IMAGE then world (OEM_1S_READ_FW_IMAGE (i1s_fw p) w msg)
      else if c = CMD_OEM_1S_SET_WDT_FEED then world (OEM_1S_SET_WDT_FEED (i1s_board p) w msg)
      else if c = CMD_OEM_1S_SENSOR_POLL_EN then world (OEM_1S_SENSOR_POLL_EN (i1s_sensor p) w msg)
      else if c = CMD_OEM_1S_ACCURACY_SENSOR_READING then
        on_world st (OEM_1S_ACCURACY_SENSOR_READING (i1s_sensor p) w msg)
      else if c = CMD_OEM_1S_GET_SET_GPIO then on_world st (OEM_1S_GET_SET_GPIO (i1s_gpio p) w msg)
      else if c = CMD_OEM_1S_GET_SET_BIC_VGPIO then world (OEM_1S_GET_SET_BIC_VGPIO (i1s_gpio p) w msg)
      else if c = CMD_OEM_1S_CONTROL_SENSOR_POLLING then do {
        (pol, msg) \<leftarrow> OEM_1S_CONTROL_SENSOR_POLLING (i1s_sensor p) (st_polling st) msg;
        Some (st\<lparr>st_polling := pol\<rparr>, msg)
      }
      else if CONFIG_CRYPTO_ASPEED (i1s_fw p) \<and> c = CMD_OEM_1S_GET_FW_SHA256 then
        world (OEM_1S_GET_FW_SHA256 (i1s_fw p) w msg)
      else if c = CMD_OEM_1S_I2C_DEV_SCAN then world (OEM_1S_I2C_DEV_SCAN (i1s_board p) w msg)
      else if c = CMD_OEM_1S_GET_BIC_STATUS then same (OEM_1S_GET_BIC_STATUS msg)
      else if c = CMD_OEM_1S_SET_VR_MONITOR_STATUS then
        (let (pw, msg) = OEM_1S_SET_VR_MONITOR_STATUS (st_power st) msg in Some (st\<lparr>st_power := pw\<rparr>, msg))
      else if c = CMD_OEM_1S_GET_VR_MONITOR_STATUS then same (OEM_1S_GET_VR_MONITOR_STATUS (st_power st) msg)
      else if c = CMD_OEM_1S_RESET_BIC then world (OEM_1S_RESET_BIC (i1s_board p) w msg)
      else if c = CMD_OEM_1S_GET_SET_M2 then same (OEM_1S_GET_SET_M2 msg)
      else if c = CMD_OEM_1S_SET_SSD_LED then same (OEM_1S_SET_SSD_LED msg)
      else if c = CMD_OEM_1S_GET_SSD_STATUS then same (OEM_1S_GET_SSD_STATUS msg)
      else if c = CMD_OEM_1S_12V_CYCLE_SLOT then world (OEM_1S_12V_CYCLE_SLOT (i1s_board p) w msg)
      else if c = CMD_OEM_1S_READ_BIC_REGISTER then do {
        msg \<leftarrow> OEM_1S_READ_BIC_REGISTER (st_mem st) msg;
        same msg
      }
      else if c = CMD_OEM_1S_WRITE_BIC_REGISTER then do {
        (mem, msg) \<leftarrow> OEM_1S_WRITE_BIC_REGISTER (st_mem st) msg;
        Some (st\<lparr>st_mem := mem\<rparr>, msg)
      }
      else if c = CMD_OEM_1S_CLEAR_CMOS then world (OEM_1S_CLEAR_CMOS (i1s_board p) w msg)
      else if CONFIG_SNOOP_ASPEED (i1s_post p) \<and> c = CMD_OEM_1S_GET_POST_CODE then do {
        msg \<leftarrow> OEM_1S_GET_POST_CODE (i1s_post p) w msg;
        same msg
      }
      else if c = CMD_OEM_1S_GET_4BYTE_POST_CODE then world (OEM_1S_GET_4BYTE_POST_CODE (i1s_post p) w msg)
      else if CONFIG_PECI (i1s_peci p) \<and> c = CMD_OEM_1S_PECI_ACCESS then
        on_world st (OEM_1S_PECI_ACCESS (i1s_peci p) w msg)
      else if ENABLE_APML (i1s_apml p) \<and> c = CMD_OEM_1S_APML_READ then world (OEM_1S_APML_READ (i1s_apml p) w msg)
      else if ENABLE_APML (i1s_apml p) \<and> c = CMD_OEM_1S_APML_WRITE then world (OEM_1S_APML_WRITE (i1s_apml p) w msg)
      else if ENABLE_APML (i1s_apml p) \<and> c = CMD_OEM_1S_SEND_APML_REQUEST then do {
        (i, w, msg) \<leftarrow> OEM_1S_SEND_APML_REQUEST (i1s_apml p) (st_apml st) w msg;
        Some (st\<lparr>st_world := w, st_apml := i\<rparr>, msg)
      }
      else if ENABLE_APML (i1s_apml p) \<and> c = CMD_OEM_1S_GET_APML_RESPONSE then
        on_world st (OEM_1S_GET_APML_RESPONSE (i1s_apml p) w msg)
      else if CONFIG_JTAG (i1s_jtag p) \<and> c = CMD_OEM_1S_SET_JTAG_TAP_STA then
        world (OEM_1S_SET_JTAG_TAP_STA (i1s_jtag p) w msg)
      else if CONFIG_JTAG (i1s_jtag p) \<and> c = CMD_OEM_1S_JTAG_DATA_SHIFT then
        on_world st (OEM_1S_JTAG_DATA_SHIFT (i1s_jtag p) w msg)
      else if CONFIG_JTAG (i1s_jtag p) \<and> ENABLE_ASD (i1s_jtag p) \<and> c = CMD_OEM_1S_ASD_INIT then
        world (OEM_1S_ASD_INIT (i1s_jtag p) w msg)
      else if ENABLE_FAN (i1s_oem p) \<and> c = CMD_OEM_1S_SET_FAN_DUTY_AUTO then
        world (OEM_1S_SET_FAN_DUTY_AUTO (i1s_oem p) w msg)
      else if ENABLE_FAN (i1s_oem p) \<and> c = CMD_OEM_1S_GET_FAN_DUTY then
        world (OEM_1S_GET_FAN_DUTY (i1s_oem p) (i1s_board p) w msg)
      else if ENABLE_FAN (i1s_oem p) \<and> c = CMD_OEM_1S_GET_FAN_RPM then
        world (OEM_1S_GET_FAN_RPM (i1s_board p) w msg)
      else if c = CMD_OEM_1S_COPY_FLASH_IMAGE then same (OEM_1S_COPY_FLASH_IMAGE msg)
      else if c = CMD_GET_COPY_FLASH_STATUS then same (GET_COPY_FLASH_STATUS msg)
      else if c = CMD_OEM_1S_INFORM_PEER_SLED_CYCLE then same (OEM_1S_INFORM_PEER_SLED_CYCLE msg)
      else if c = CMD_OEM_1S_PEX_FLASH_READ then same (OEM_1S_PEX_FLASH_READ msg)
      else if c = CMD_OEM_1S_GET_FPGA_USER_CODE then same (OEM_1S_GET_FPGA_USER_CODE msg)
      else if c = CMD_OEM_1S_GET_BOARD_ID then same (OEM_1S_GET_BOARD_ID msg)
      else if c = CMD_OEM_1S_GET_CARD_TYPE then same (OEM_1S_GET_CARD_TYPE msg)
      else if c = CMD_OEM_1S_MULTI_ACCURACY_SENSOR_READING then
        on_world st (OEM_1S_MULTI_ACCURACY_SENSOR_READING (i1s_sensor p) w msg)
      else if c = CMD_OEM_1S_BRIDGE_I2C_MSG_BY_COMPNT then same (OEM_1S_BRIDGE_I2C_MSG_BY_COMPNT msg)
      else if c = CMD_OEM_1S_NOTIFY_PMIC_ERROR then world (OEM_1S_NOTIFY_PMIC_ERROR (i1s_board p) w msg)
      else if c = CMD_OEM_1S_GET_SDR then do {
        msg \<leftarrow> OEM_1S_GET_SDR (i1s_storage p) w msg;
        same msg
      }
      else if c = CMD_OEM_1S_BMC_IPMB_ACCESS then
        on_ipmb st (OEM_1S_BMC_IPMB_ACCESS (HAS_IPMB (i1s_vr p)) (i1s_sel p) s msg)
      else if c = CMD_OEM_1S_GET_HSC_STATUS then same (OEM_1S_GET_HSC_STATUS msg)
      else if c = CMD_OEM_1S_GET_BIOS_VERSION then same (OEM_1S_GET_BIOS_VERSION msg)
      else if c = CMD_OEM_1S_GET_PCIE_CARD_STATUS then same (OEM_1S_GET_PCIE_CARD_STATUS msg)
      else if c = CMD_OEM_1S_GET_PCIE_CARD_SENSOR_READING then same (OEM_1S_GET_PCIE_CARD_SENSOR_READING msg)
      else if CONFIG_I3C_ASPEED p \<and> c = CMD_OEM_1S_WRITE_READ_DIMM then same (OEM_1S_WRITE_READ_DIMM msg)
      else if c = CMD_OEM_1S_GET_DIMM_I3C_MUX_SELECTION then same (OEM_1S_GET_DIMM_I3C_MUX_SELECTION msg)
      else if c = CMD_OEM_1S_SAFE_WRITE_READ_M2_DATA then same (OEM_1S_SAFE_WRITE_READ_M2_DATA msg)
      else if c = CMD_OEM_1S_PRE_POWER_OFF_CONTROL then same (OEM_1S_PRE_POWER_OFF_CONTROL msg)
      else if c = CMD_OEM_1S_SET_DEVICE_ACTIVE then same (OEM_1S_SET_DEVICE_ACTIVE msg)
      else if c = CMD_OEM_1S_SET_ADD_DEBUG_SEL_MODE then world (OEM_1S_SET_ADD_DEBUG_SEL_MODE (i1s_board p) w msg)
      else if c = CMD_OEM_1S_GET_PCIE_RETIMER_TYPE then same (OEM_1S_GET_PCIE_RETIMER_TYPE msg)
      else if c = CMD_OEM_1S_DEBUG_GET_HW_SIGNAL then same (OEM_1S_DEBUG_GET_HW_SIGNAL msg)
      else if c = CMD_OEM_1S_SEND_MCTP_PLDM_COMMAND then
        on_world st (OEM_1S_SEND_MCTP_PLDM_COMMAND (i1s_pldm p) w msg)
      else if c = CMD_OEM_1S_CLEAR_CMET then same (OEM_1S_CLEAR_CMET msg)
      else same (msg\<lparr>data_len := 0, completion_code := CC_INVALID_CMD\<rparr>))"

section \<open>Bridging keeps the contract\<close>

text \<open>The channel map covers every interface, and its entries are channels or \<open>RESERVED\<close>.\<close>

definition map_ok :: "ipmb_st \<Rightarrow> bool" where
  "map_ok s \<longleftrightarrow> length (IPMB_inf_index_map s) = unat RESERVED \<and>
     (\<forall>i \<in> set (IPMB_inf_index_map s). i = RESERVED \<or> unat i < length (ip_chans s))"

definition bridge_ok :: "ipmb_st \<Rightarrow> bool" where
  "bridge_ok s \<longleftrightarrow> ipmb_ok s \<and> map_ok s"

lemma bridge_ok_upholds: "bridge_ok s \<Longrightarrow> upholds s s' \<Longrightarrow> bridge_ok s'"
  by (auto simp: bridge_ok_def map_ok_def upholds_def)

lemma ipmb_ok_ready:
  assumes "ipmb_ok s" "live s j"
  shows "chan_ready s j"
  using assms by (auto simp: ipmb_ok_def channels_ok_def chan_ready_def live_def pending_def)

text \<open>The answers of the kernel: the local message has its full size, and a delivered answer leaves room
  for the completion code.\<close>

definition bridge_env_ok :: "bridge_env \<Rightarrow> bool" where
  "bridge_env_ok ev \<longleftrightarrow> wf_msg (buffer (stk (br_request ev))) \<and> wf_msg (buffer (stk (br_response ev)))"

definition sel_env_ok :: "sel_env \<Rightarrow> bool" where
  "sel_env_ok ev \<longleftrightarrow> wf_msg (buffer (stk (sel_send ev))) \<and>
     (\<forall>b. sel_got ev = Some b \<longrightarrow> wf_msg b \<and> unat (data_len b) < IPMI_MSG_MAX_LENGTH)"

lemma bridge_disabled_cases:
  assumes "bridge_ok s" and "unat t < unat RESERVED"
  shows "bridge_disabled s t = Some True \<or> (\<exists>i. bridge_disabled s t = Some False \<and>
    load (IPMB_inf_index_map s) (unat t) = Some i \<and> live s (unat i))"
proof -
  obtain nss where s: "channels_ok s nss" "map_ok s" using assms(1) by (auto simp: bridge_ok_def ipmb_ok_def)
  have l: "unat t < length (IPMB_inf_index_map s)" using s(2) assms(2) by (simp add: map_ok_def)
  let ?i = "IPMB_inf_index_map s ! unat t"
  have "?i = RESERVED \<or> unat ?i < length (ip_chans s)" using s(2) l nth_mem [OF l] by (auto simp: map_ok_def)
  then show ?thesis
    using l s(1) by (auto simp: bridge_disabled_def live_def channels_ok_def)
qed

lemma msg_out_prepare_shape:
  assumes "unat (data m ! 0) < unat RESERVED" "length (data m) = IPMI_MSG_MAX_LENGTH"
  shows "\<exists>d c. msg_out_prepare m = m\<lparr>data := d, completion_code := c\<rparr> \<and> length d = IPMI_MSG_MAX_LENGTH \<and>
    unat (d ! 0) < unat RESERVED \<and> (c = CC_SUCCESS \<longrightarrow> 2 < data_len m)"
proof -
  have "msg_out_prepare m = m\<lparr>data := data (msg_out_prepare m), completion_code := completion_code (msg_out_prepare m)\<rparr>"
    by (simp add: msg_out_prepare_def Let_def)
  moreover have "length (data (msg_out_prepare m)) = IPMI_MSG_MAX_LENGTH"
    using assms(2) by (simp add: msg_out_prepare_def Let_def)
  moreover have "unat (data (msg_out_prepare m) ! 0) < unat RESERVED"
    using assms by (simp add: msg_out_prepare_def Let_def)
  moreover have "completion_code (msg_out_prepare m) = CC_SUCCESS \<longrightarrow> 2 < data_len m"
    by (auto simp: msg_out_prepare_def Let_def)
  ultimately show ?thesis by metis
qed

lemma length_zero_data [simp]: "length (data zero_msg) = IPMI_MSG_MAX_LENGTH"
  by (simp add: zero_msg_def)

lemma unat_sub_le: "k \<le> n \<Longrightarrow> unat (n - k) = unat n - unat (k :: u16)"
  by (simp add: unat_sub)

lemma msg_out_send_runs:
  assumes s: "bridge_ok s" and ev: "bridge_env_ok ev" and m: "request_ok m" "2 < data_len m"
    and i: "load (IPMB_inf_index_map s) (unat (data m ! 0)) = Some i" "live s (unat i)"
  shows "\<exists>s' c. msg_out_send ev s m = Some (s', m\<lparr>completion_code := c\<rparr>) \<and> upholds s s'"
proof (cases "br_malloc ev")
  case True
  let ?n = "data_len m - 3"
  have n: "unat ?n = unat (data_len m) - 3" "3 \<le> unat (data_len m)"
    using m(2) by (simp_all add: unat_sub_le word_le_nat_alt word_less_nat_alt)
  define q where "q = zero_msg\<lparr>data_len := ?n, seq_source := seq_source m,
      InF_target := data m ! 0, InF_source := InF_source m, netfn := drop_bit 2 (data m ! 1),
      cmd := data m ! 2, pldm_inst_id := pldm_inst_id m\<rparr>"
  obtain d where d: "(if data_len q \<noteq> 0 then memcpy (data q) 0 (data m) 3 (unat (data_len q)) else Some (data q)) = Some d"
    "length d = IPMI_MSG_MAX_LENGTH"
  proof -
    have "length (data q) = IPMI_MSG_MAX_LENGTH" "unat (data_len q) + 3 \<le> IPMI_MSG_MAX_LENGTH"
      using n request_ok_len [OF m(1)] by (simp_all add: q_def)
    with that m(1) show thesis by (cases "data_len q = 0") auto
  qed
  have "wf_msg (q\<lparr>data := d\<rparr>)" "unat (data_len (q\<lparr>data := d\<rparr>)) \<le> IPMI_MSG_MAX_LENGTH"
    using d(2) n request_ok_len [OF m(1)] by (simp_all add: wf_msg_def q_def)
  then obtain e r s' where r: "ipmb_send_request (br_request ev) (Some (q\<lparr>data := d\<rparr>)) i s = Some (e, Some r, s')"
    using ipmb_send_request_runs [OF ipmb_ok_ready [OF _ i(2)], of "br_request ev" "q\<lparr>data := d\<rparr>"] s ev
    by (auto simp: bridge_ok_def bridge_env_ok_def)
  have "msg_out_send ev s m = Some (s', m\<lparr>completion_code :=
      (if e \<noteq> IPMB_ERROR_SUCCESS then CC_BRIDGE_MSG_ERR else completion_code m)\<rparr>)"
    unfolding msg_out_send_def Let_def q_def [symmetric] d(1) bind.bind_lunit i(1) r prod.case using True by simp
  then show ?thesis using send_request_upholds [OF r] by blast
next
  case False
  then show ?thesis by (auto simp: msg_out_send_def)
qed

text \<open>The interface a request came from: PLDM and MCTP answer on their own, any other source is one
  that the channel map knows.\<close>

definition source_ok :: "ipmb_st \<Rightarrow> ipmi_msg \<Rightarrow> bool" where
  "source_ok s m \<longleftrightarrow> InF_source m = PLDM \<or> InF_source m = MCTP \<or>
     (unat (InF_source m) < unat RESERVED \<and> IPMB_inf_index_map s ! unat (InF_source m) \<noteq> RESERVED)"

lemma msg_out_reject_runs:
  assumes s: "bridge_ok s" "source_ok s m" and ev: "bridge_env_ok ev" and m: "length (data m) = IPMI_MSG_MAX_LENGTH"
  shows "\<exists>s'. msg_out_reject ev s m = Some (s', m\<lparr>data_len := 0\<rparr>) \<and> upholds s s'"
proof (cases "InF_source m = PLDM \<or> InF_source m = MCTP")
  case True
  then show ?thesis by (auto simp: msg_out_reject_def Let_def)
next
  case False
  let ?i = "IPMB_inf_index_map s ! unat (InF_source m)"
  have l: "unat (InF_source m) < length (IPMB_inf_index_map s)" "?i \<noteq> RESERVED"
    using s False by (auto simp: source_ok_def bridge_ok_def map_ok_def)
  then have i: "unat ?i < length (ip_chans s)" "unat ?i < length (IPMB_config_table s)"
    using s(1) nth_mem [OF l(1)] by (auto simp: bridge_ok_def map_ok_def ipmb_ok_def channels_ok_def)
  have "\<exists>e s'. ipmb_send_response (br_response ev) (Some (m\<lparr>data_len := 0\<rparr>)) ?i s = Some (e, s')"
    using i ev m by (auto simp: ipmb_send_response_def bridge_env_ok_def Let_def)
  then obtain e s' where r: "ipmb_send_response (br_response ev) (Some (m\<lparr>data_len := 0\<rparr>)) ?i s = Some (e, s')" by blast
  have ld: "load (IPMB_inf_index_map s) (unat (InF_source (m\<lparr>data_len := 0\<rparr>))) = Some ?i" using l by simp
  have "msg_out_reject ev s m = Some (s', m\<lparr>data_len := 0\<rparr>)"
    unfolding msg_out_reject_def Let_def ld bind.bind_lunit r prod.case using False by simp
  with send_response_upholds [OF r] show ?thesis by blast
qed

text \<open>A Message Out request that the code handles safely: the target and the source are interfaces below
  \<open>RESERVED\<close>, and the source is mapped. The code does not check this itself.\<close>

definition msg_out_ok :: "ipmb_st \<Rightarrow> ipmi_msg \<Rightarrow> bool" where
  "msg_out_ok s m \<longleftrightarrow> unat (data m ! 0) < unat RESERVED \<and> source_ok s m"

lemma MSG_OUT_runs:
  assumes s: "bridge_ok s" and ev: "bridge_env_ok ev" and m: "request_ok m" "msg_out_ok s m"
  shows "\<exists>s' m'. OEM_1S_MSG_OUT h ev s m = Some (s', m') \<and> good1s m m' \<and> upholds s s'"
proof (cases h)
  case False
  then show ?thesis using m by (simp add: OEM_1S_MSG_OUT_def)
next
  case True
  obtain d c where p: "msg_out_prepare m = m\<lparr>data := d, completion_code := c\<rparr>" "length d = IPMI_MSG_MAX_LENGTH"
    "unat (d ! 0) < unat RESERVED" "c = CC_SUCCESS \<longrightarrow> 2 < data_len m"
    using msg_out_prepare_shape [of m] m by (auto simp: msg_out_ok_def)
  let ?m = "\<lambda>c. m\<lparr>data := d, completion_code := c\<rparr>"
  have ok: "request_ok (?m c')" for c' using p(2) m(1) by (intro request_okI) simp_all
  have g: "good1s m (?m c')" "good1s m (?m c'\<lparr>data_len := 0\<rparr>)" for c'
    using p(2) m(1) by (auto intro!: good1sI simp: same_route_def)
  have rej: "\<exists>s' m'. msg_out_reject ev s1 (?m c') = Some (s', m') \<and> good1s m m' \<and> upholds s s'"
    if u: "upholds s s1" for s1 c'
  proof -
    have "source_ok s1 (?m c')" using m(2) u by (simp add: msg_out_ok_def source_ok_def upholds_def)
    from msg_out_reject_runs [OF bridge_ok_upholds [OF s u] this ev] p(2) g(2) upholds_trans [OF u]
    show ?thesis by fastforce
  qed
  have fin: "\<exists>s' m'. (if completion_code (?m c') \<noteq> CC_SUCCESS then msg_out_reject ev s1 (?m c') else Some (s1, ?m c')) =
      Some (s', m') \<and> good1s m m' \<and> upholds s s'" if "upholds s s1" for s1 c'
    using rej [OF that] g(1) that by auto
  from bridge_disabled_cases [OF s p(3)] show ?thesis
  proof (elim disjE exE conjE)
    assume b: "bridge_disabled s (d ! 0) = Some True"
    show ?thesis
      using True fin [of s CC_NOT_SUPP_IN_CURR_STATE] b
      by (simp add: OEM_1S_MSG_OUT_def Let_def p(1) pal_extend_msg_out_interface_handler_def)
  next
    fix i assume b: "bridge_disabled s (d ! 0) = Some False" "load (IPMB_inf_index_map s) (unat (d ! 0)) = Some i" "live s (unat i)"
    show ?thesis
    proof (cases "c = CC_SUCCESS")
      case c: True
      obtain s1 c1 where "msg_out_send ev s (?m c) = Some (s1, ?m c1)" "upholds s s1"
        using msg_out_send_runs [OF s ev ok [of c]] b p(4) c by auto
      with True fin [of s1 c1] b c show ?thesis by (simp add: OEM_1S_MSG_OUT_def Let_def p(1))
    next
      case False
      with True fin [of s c] b show ?thesis by (simp add: OEM_1S_MSG_OUT_def Let_def p(1))
    qed
  qed
qed

lemma ipmb_read_success:
  assumes "ipmb_read ev a b c got d (Some m) index s = Some (IPMB_ERROR_SUCCESS, m', s')"
  shows "\<exists>x. got = Some x \<and> m' = Some x"
  using assms by (auto simp: ipmb_read_def Let_def split: bind_splits if_splits option.splits)

text \<open>A blocking read on an enabled channel, with an answer that fits.\<close>

lemma bridge_read_runs:
  assumes s: "bridge_ok s" "live s (unat i)" and ev: "sel_env_ok ev" and q: "wf_msg q" "unat (data_len q) \<le> IPMI_MSG_MAX_LENGTH"
  shows "\<exists>e b s'. ipmb_read (sel_send ev) (sel_rxq_init ev) (sel_read_mutex_init ev) (sel_read_lock ev)
      (sel_got ev) (sel_clear_lock ev) (Some q) i s = Some (e, b, s') \<and> upholds s s' \<and>
    (e = IPMB_ERROR_SUCCESS \<longrightarrow> (\<exists>x. b = Some x \<and> wf_msg x \<and> unat (data_len x) < IPMI_MSG_MAX_LENGTH))"
proof -
  have w: "wf_msg (buffer (stk (sel_send ev)))" using ev by (simp add: sel_env_ok_def)
  have "chan_ready s (unat i)" using s ipmb_ok_ready by (auto simp: bridge_ok_def)
  from ipmb_read_runs [OF this w q, of "sel_rxq_init ev" "sel_read_mutex_init ev" "sel_read_lock ev" "sel_got ev" "sel_clear_lock ev"]
  obtain e b s' where r: "ipmb_read (sel_send ev) (sel_rxq_init ev) (sel_read_mutex_init ev) (sel_read_lock ev)
      (sel_got ev) (sel_clear_lock ev) (Some q) i s = Some (e, b, s')" by blast
  have "\<exists>x. b = Some x \<and> wf_msg x \<and> unat (data_len x) < IPMI_MSG_MAX_LENGTH" if "e = IPMB_ERROR_SUCCESS"
    using ipmb_read_success [OF r [unfolded that]] ev by (auto simp: sel_env_ok_def)
  with r ipmb_read_upholds [OF s(2) r] show ?thesis by blast
qed

lemma BMC_IPMB_ACCESS_runs:
  assumes s: "bridge_ok s" and ev: "sel_env_ok ev" and m: "request_ok m"
  shows "\<exists>s' m'. OEM_1S_BMC_IPMB_ACCESS h ev s m = Some (s', m') \<and> good1s m m' \<and> upholds s s'"
proof (cases "\<not> h \<or> data_len m < 2 \<or> bridge_disabled s BMC_IPMB = Some True")
  case True
  then show ?thesis using m by (auto simp: OEM_1S_BMC_IPMB_ACCESS_def)
next
  case False
  then have c: "h" "\<not> data_len m < 2" by auto
  obtain i where i: "bridge_disabled s BMC_IPMB = Some False" "load (IPMB_inf_index_map s) (unat BMC_IPMB) = Some i" "live s (unat i)"
    using bridge_disabled_cases [OF s, of BMC_IPMB] False by auto
  have n: "unat (data_len m - 2) = unat (data_len m) - 2" "2 \<le> unat (data_len m)"
    using c by (simp_all add: unat_sub_le word_le_nat_alt word_less_nat_alt not_less)
  obtain d where d: "memcpy (data zero_msg) 0 (data m) 2 (unat (data_len m - 2)) = Some d" "length d = IPMI_MSG_MAX_LENGTH"
  proof -
    have "unat (data_len m - 2) + 2 \<le> IPMI_MSG_MAX_LENGTH" using n request_ok_len [OF m] by simp
    with that m show thesis by simp
  qed
  define q where "q = zero_msg\<lparr>InF_source := SELF, InF_target := BMC_IPMB, netfn := data m ! 0,
            cmd := data m ! 1, data_len := data_len m - 2, data := d\<rparr>"
  have "wf_msg q" "unat (data_len q) \<le> IPMI_MSG_MAX_LENGTH"
    using d n request_ok_len [OF m] by (simp_all add: q_def wf_msg_def)
  from bridge_read_runs [OF s i(3) ev this] obtain e b s' where
    r: "ipmb_read (sel_send ev) (sel_rxq_init ev) (sel_read_mutex_init ev) (sel_read_lock ev)
      (sel_got ev) (sel_clear_lock ev) (Some q) i s = Some (e, b, s')" "upholds s s'"
    and b: "e = IPMB_ERROR_SUCCESS \<Longrightarrow> \<exists>x. b = Some x \<and> wf_msg x \<and> unat (data_len x) < IPMI_MSG_MAX_LENGTH" by blast
  have tgt: "InF_target q = BMC_IPMB" by (simp add: q_def)
  show ?thesis
  proof (cases "e = IPMB_ERROR_SUCCESS")
    case True
    then obtain x where x: "b = Some x" "wf_msg x" "unat (data_len x) < IPMI_MSG_MAX_LENGTH" using b by blast
    let ?d = "blit ((data m)[0 := completion_code x]) 1 (take (unat (data_len x)) (data x))"
    have cp: "memcpy ((data m)[0 := completion_code x]) 1 (data x) 0 (unat (data_len x)) = Some ?d"
      using x m by simp
    have "unat (1 + data_len x) \<le> IPMI_MSG_MAX_LENGTH"
      using x(3) unat_plus_if' [of 1 "data_len x"] by (simp split: if_splits)
    then have "good1s m (m\<lparr>data := ?d, data_len := 1 + data_len x, completion_code := CC_SUCCESS\<rparr>)"
      using m x by (intro good1s_set) simp_all
    moreover have "OEM_1S_BMC_IPMB_ACCESS h ev s m =
        Some (s', m\<lparr>data := ?d, data_len := 1 + data_len x, completion_code := CC_SUCCESS\<rparr>)"
      unfolding OEM_1S_BMC_IPMB_ACCESS_def i(1) d(1) bind.bind_lunit Let_def q_def [symmetric] tgt i(2) r(1) prod.case
        x(1) cp using c True by simp
    ultimately show ?thesis using r(2) by blast
  next
    case False
    then have "OEM_1S_BMC_IPMB_ACCESS h ev s m = Some (s', m\<lparr>completion_code := CC_UNSPECIFIED_ERROR\<rparr>)"
      unfolding OEM_1S_BMC_IPMB_ACCESS_def i(1) d(1) bind.bind_lunit Let_def q_def [symmetric] tgt i(2) r(1) prod.case
      using c by simp
    then show ?thesis using r(2) m by auto
  qed
qed

lemma me_fw_version_runs:
  assumes s: "bridge_ok s" and ev: "sel_env_ok ev" and junk: "wf_msg junk" and m: "request_ok m"
  shows "\<exists>s' m'. me_fw_version ev junk s m = Some (s', m') \<and> good1s m m' \<and> upholds s s'"
proof -
  obtain nss where nss: "channels_ok s nss" "map_ok s" using s by (auto simp: bridge_ok_def ipmb_ok_def)
  have l: "unat ME_IPMB < length (IPMB_inf_index_map s)" using nss(2) by (simp add: map_ok_def)
  define i where "i = IPMB_inf_index_map s ! unat ME_IPMB"
  have ld: "load (IPMB_inf_index_map s) (unat ME_IPMB) = Some i" using l by (simp add: i_def)
  have i: "i = RESERVED \<or> unat i < length (ip_chans s)" using nss(2) nth_mem [OF l] by (auto simp: map_ok_def i_def)
  have tab: "length (IPMB_config_table s) = length (ip_chans s)" using nss(1) by (simp add: channels_ok_def)
  show ?thesis
  proof (cases "live s (unat i) \<and> i \<noteq> RESERVED \<and> sel_malloc ev")
    case False
    have "me_fw_version ev junk s m = Some (s, m\<lparr>completion_code := CC_UNSPECIFIED_ERROR\<rparr>) \<or>
        me_fw_version ev junk s m = Some (s, m\<lparr>completion_code := CC_OUT_OF_SPACE\<rparr>)"
      unfolding me_fw_version_def ld bind.bind_lunit using i tab False by (auto simp: live_def)
    then show ?thesis using m by auto
  next
    case True
    let ?q = "junk\<lparr>data_len := 0, seq_source := 0xff, InF_source := SELF, InF_target := ME_IPMB,
         netfn := NETFN_APP_REQ, cmd := CMD_APP_GET_DEVICE_ID\<rparr>"
    have "wf_msg ?q" "unat (data_len ?q) \<le> IPMI_MSG_MAX_LENGTH" using junk by (simp_all add: wf_msg_def)
    from bridge_read_runs [OF s _ ev this, of i] True obtain e b s' where
      r: "ipmb_read (sel_send ev) (sel_rxq_init ev) (sel_read_mutex_init ev) (sel_read_lock ev)
        (sel_got ev) (sel_clear_lock ev) (Some ?q) i s = Some (e, b, s')" "upholds s s'"
      and b: "e = IPMB_ERROR_SUCCESS \<Longrightarrow> \<exists>x. b = Some x" by blast
    have en: "(if i = RESERVED then Some True else do { c \<leftarrow> load (IPMB_config_table s) (unat i); Some (\<not> enable_status c) }) = Some False"
      using True tab by (auto simp: live_def)
    have "runs1s m (me_fw_version ev junk s m) \<and> (\<forall>s'' m''. me_fw_version ev junk s m = Some (s'', m'') \<longrightarrow> s'' = s')"
    proof (cases "e = IPMB_ERROR_SUCCESS")
      case e: True
      then obtain x where x: "b = Some x" using b by blast
      show ?thesis
        unfolding me_fw_version_def ld bind.bind_lunit en Let_def r(1) prod.case x
        using True e m by (auto intro!: runs1s_set)
    next
      case False
      then show ?thesis
        unfolding me_fw_version_def ld bind.bind_lunit en Let_def r(1) prod.case
        using True m by (auto intro!: runs1s_error)
    qed
    with r(2) show ?thesis unfolding runs1s_def by blast
  qed
qed

lemma GET_FW_VERSION_runs:
  assumes s: "bridge_ok s" and ev: "sel_env_ok ev" and junk: "wf_msg junk" and m: "request_ok m"
  shows "\<exists>w' s' m'. OEM_1S_GET_FW_VERSION p ev junk (w, s) m = Some ((w', s'), m') \<and> good1s m m' \<and> upholds s s'"
proof -
  obtain s' m' where me: "me_fw_version ev junk s m = Some (s', m')" "good1s m m'" "upholds s s'"
    using me_fw_version_runs [OF assms] by blast
  have g: "good1s m (m\<lparr>data := blit (data m) 0 [x1, x2, x3, x4, x5, x6, x7], data_len := 7, completion_code := CC_SUCCESS\<rparr>)"
    for x1 x2 x3 x4 x5 x6 x7
    by (rule good1s_set) (use m in simp_all)
  have v: "good1s m (snd (vr_fw_version p c w m))" for c by (rule good1s_vr_fw_version [OF m])
  show ?thesis
    unfolding OEM_1S_GET_FW_VERSION_def Let_def prod.case me(1) bind.bind_lunit
    using m g me(2,3) v [of "data m ! 0"] by (auto split: prod.splits)
qed

section \<open>The dispatch keeps the contract\<close>

definition oem1s_plat_ok :: "'w oem1s_plat \<Rightarrow> bool" where
  "oem1s_plat_ok p \<longleftrightarrow> board_plat_ok (i1s_board p) \<and> gpio_plat_ok (i1s_gpio p) \<and> peci_plat_ok (i1s_peci p) \<and>
     jtag_plat_ok (i1s_jtag p) \<and> apml_plat_ok (i1s_apml p) \<and> post_plat_ok (i1s_post p) \<and> pldm_plat_ok (i1s_pldm p) \<and>
     fw_plat_ok (i1s_fw p) \<and> storage_plat_ok (i1s_storage p) \<and> bridge_env_ok (i1s_bridge p) \<and>
     sel_env_ok (i1s_sel p) \<and> wf_msg (i1s_junk p)"

definition oem1s_ok :: "'w oem1s_plat \<times> 'w oem1s_st \<Rightarrow> bool" where
  "oem1s_ok pst \<longleftrightarrow> oem1s_plat_ok (fst pst) \<and> bridge_ok (st_ipmb (snd pst)) \<and>
     sensor1s_plat_ok (i1s_sensor (fst pst)) (length (st_polling (snd pst)))"

text \<open>The requests that the code handles safely. The conditions are the checks that the code misses: the
  index of a pin, the bit counts of a JTAG shift, the address of a register and the width of a write,
  the interfaces of a bridged message, the length of a PLDM payload, and the range of the readings of
  the sensors that are asked for.\<close>

definition oem1s_guard :: "'w oem1s_plat \<times> 'w oem1s_st \<Rightarrow> ipmi_msg \<Rightarrow> bool" where
  "oem1s_guard pst m \<longleftrightarrow> request_ok m \<and>
     (cmd m = CMD_OEM_1S_GET_SET_GPIO \<longrightarrow> gpio_index_ok (i1s_gpio (fst pst)) m) \<and>
     (cmd m = CMD_OEM_1S_JTAG_DATA_SHIFT \<longrightarrow> jtag_msg_ok m) \<and>
     (cmd m = CMD_OEM_1S_READ_BIC_REGISTER \<longrightarrow> mapped (st_mem (snd pst)) (reg_addr m) (unat (data m ! 4))) \<and>
     (cmd m = CMD_OEM_1S_WRITE_BIC_REGISTER \<longrightarrow> mapped (st_mem (snd pst)) (reg_addr m) 4 \<and> unat (data m ! 4) \<le> 3) \<and>
     (cmd m = CMD_OEM_1S_MSG_OUT \<longrightarrow> msg_out_ok (st_ipmb (snd pst)) m) \<and>
     (cmd m = CMD_OEM_1S_SEND_MCTP_PLDM_COMMAND \<longrightarrow> pldm_payload_ok (i1s_pldm (fst pst)) m) \<and>
     (cmd m = CMD_OEM_1S_ACCURACY_SENSOR_READING \<longrightarrow> reading_fits (i1s_sensor (fst pst)) (data m ! 0)) \<and>
     (cmd m = CMD_OEM_1S_MULTI_ACCURACY_SENSOR_READING \<longrightarrow> multi_reading_fits (i1s_sensor (fst pst)) m)"

definition oem1s_run ::
    "'w oem1s_plat \<times> 'w oem1s_st \<Rightarrow> ipmi_msg \<Rightarrow> (('w oem1s_plat \<times> 'w oem1s_st) \<times> ipmi_msg) option" where
  "oem1s_run pst m = do { (st, m') \<leftarrow> IPMI_OEM_1S_handler (fst pst) (snd pst) m; Some ((fst pst, st), m') }"

text \<open>What a command may do to the state: the IPMB layer keeps its invariant and tables, mapped addresses
  stay mapped, and the sensor table keeps its size.\<close>

definition st_keeps :: "'w oem1s_st \<Rightarrow> 'w oem1s_st \<Rightarrow> bool" where
  "st_keeps st st' \<longleftrightarrow> upholds (st_ipmb st) (st_ipmb st') \<and> (\<forall>a. st_mem st a \<noteq> None \<longrightarrow> st_mem st' a \<noteq> None) \<and>
     length (st_polling st') = length (st_polling st)"

definition handles :: "'w oem1s_st \<Rightarrow> ipmi_msg \<Rightarrow> ('w oem1s_st \<times> ipmi_msg) option \<Rightarrow> bool" where
  "handles st m x \<longleftrightarrow> (\<exists>st' m'. x = Some (st', m') \<and> good1s m m' \<and> st_keeps st st')"

lemma handles_if:
  "(c \<Longrightarrow> handles st m a) \<Longrightarrow> (\<not> c \<Longrightarrow> handles st m b) \<Longrightarrow> handles st m (if c then a else b)"
  by simp

lemma handles_same: "good1s m m' \<Longrightarrow> handles st m (Some (st, m'))"
  by (simp add: handles_def st_keeps_def)

lemma handles_same_opt: "\<exists>m'. x = Some m' \<and> good1s m m' \<Longrightarrow> handles st m (do { m' \<leftarrow> x; Some (st, m') })"
  by (auto simp: handles_same)

lemma handles_world: "good1s m (snd x) \<Longrightarrow> handles st m (on_world st (Some x))"
  by (cases x) (simp add: handles_def st_keeps_def on_world_def)

lemma handles_on_world: "runs1s m x \<Longrightarrow> handles st m (on_world st x)"
  by (auto simp: handles_def st_keeps_def on_world_def runs1s_def)

lemma handles_on_ipmb:
  "\<exists>s' m'. x = Some (s', m') \<and> good1s m m' \<and> upholds (st_ipmb st) s' \<Longrightarrow> handles st m (on_ipmb st x)"
  by (auto simp: handles_def st_keeps_def on_ipmb_def)

lemma IPMI_OEM_1S_handler_handles:
  assumes ok: "oem1s_ok (p, st)" and g: "oem1s_guard (p, st) m"
  shows "handles st m (IPMI_OEM_1S_handler p st m)"
proof -
  have m: "request_ok m" using g by (simp add: oem1s_guard_def)
  have p: "board_plat_ok (i1s_board p)" "gpio_plat_ok (i1s_gpio p)" "peci_plat_ok (i1s_peci p)"
    "jtag_plat_ok (i1s_jtag p)" "apml_plat_ok (i1s_apml p)" "post_plat_ok (i1s_post p)" "pldm_plat_ok (i1s_pldm p)"
    "fw_plat_ok (i1s_fw p)" "storage_plat_ok (i1s_storage p)" "bridge_env_ok (i1s_bridge p)"
    "sel_env_ok (i1s_sel p)" "wf_msg (i1s_junk p)" "sensor1s_plat_ok (i1s_sensor p) (length (st_polling st))"
    "bridge_ok (st_ipmb st)"
    using ok by (simp_all add: oem1s_ok_def oem1s_plat_ok_def)
  note plain = good1s_stubs [OF m] good1s_status [OF m] good1s_fans [OF m] good1s_board [OF p(1) m]
    good1s_apml [OF m] good1s_refl [OF m] good1s_jtag [OF m] good1s_FW_UPDATE [OF m] good1s_GET_BIC_FW_INFO [OF m]
    good1s_READ_FW_IMAGE [OF p(8) m] good1s_GET_FW_SHA256 [OF p(8) m] good1s_SENSOR_POLL_EN [OF m]
    good1s_VGPIO [OF p(2) m] good1s_GET_4BYTE_POST_CODE [OF p(6) m]
  note runs = good1s_PECI_ACCESS [OF p(3) m] good1s_GET_APML_RESPONSE [OF p(5) m] good1s_GET_GPIO [OF p(2) m, folded runs1s_def]
  have gpio: "cmd m = CMD_OEM_1S_GET_SET_GPIO \<Longrightarrow> runs1s m (OEM_1S_GET_SET_GPIO (i1s_gpio p) w m)" for w
    using good1s_GET_SET_GPIO [OF p(2) _ m] g by (simp add: oem1s_guard_def runs1s_def)
  have checked: "cmd m = CMD_OEM_1S_ACCURACY_SENSOR_READING \<Longrightarrow> runs1s m (OEM_1S_ACCURACY_SENSOR_READING (i1s_sensor p) w m)"
    "cmd m = CMD_OEM_1S_MULTI_ACCURACY_SENSOR_READING \<Longrightarrow> runs1s m (OEM_1S_MULTI_ACCURACY_SENSOR_READING (i1s_sensor p) w m)"
    "cmd m = CMD_OEM_1S_SEND_MCTP_PLDM_COMMAND \<Longrightarrow> runs1s m (OEM_1S_SEND_MCTP_PLDM_COMMAND (i1s_pldm p) w m)" for w
    using good1s_ACCURACY_SENSOR_READING [of "i1s_sensor p", OF _ m] good1s_MULTI_ACCURACY_SENSOR_READING [of "i1s_sensor p", OF _ m]
      good1s_SEND_MCTP_PLDM_COMMAND [OF p(7) _ m] g by (simp_all add: oem1s_guard_def)
  have jtag: "cmd m = CMD_OEM_1S_JTAG_DATA_SHIFT \<Longrightarrow> runs1s m (OEM_1S_JTAG_DATA_SHIFT (i1s_jtag p) w m)" for w
    using good1s_JTAG_DATA_SHIFT [OF p(4) m] g by (simp add: oem1s_guard_def)
  have sdr: "\<exists>m'. OEM_1S_GET_SDR (i1s_storage p) w m = Some m' \<and> good1s m m'" for w
    using good_GET_SDR [OF p(9) request_ok_wf [OF m], of w] by (auto simp: GET_SDR_same good_answer_def)
  have rd: "cmd m = CMD_OEM_1S_READ_BIC_REGISTER \<Longrightarrow> \<exists>m'. OEM_1S_READ_BIC_REGISTER (st_mem st) m = Some m' \<and> good1s m m'"
    using good1s_READ_BIC_REGISTER [OF m] g by (simp add: oem1s_guard_def)
  have wr: "cmd m = CMD_OEM_1S_WRITE_BIC_REGISTER \<Longrightarrow> handles st m (do {
      (mem, m) \<leftarrow> OEM_1S_WRITE_BIC_REGISTER (st_mem st) m; Some (st\<lparr>st_mem := mem\<rparr>, m) })"
    using good1s_WRITE_BIC_REGISTER [OF m, of "st_mem st"] g
    by (auto simp: oem1s_guard_def handles_def st_keeps_def)
  have out: "cmd m = CMD_OEM_1S_MSG_OUT \<Longrightarrow>
      \<exists>s' m'. OEM_1S_MSG_OUT h (i1s_bridge p) (st_ipmb st) m = Some (s', m') \<and> good1s m m' \<and> upholds (st_ipmb st) s'" for h
    using MSG_OUT_runs [OF p(14,10) m] g by (simp add: oem1s_guard_def)
  have fwv: "handles st m (do {
      ((w, s), m) \<leftarrow> OEM_1S_GET_FW_VERSION (i1s_vr p) (i1s_sel p) (i1s_junk p) (st_world st, st_ipmb st) m;
      Some (st\<lparr>st_world := w, st_ipmb := s\<rparr>, m) })"
    using GET_FW_VERSION_runs [OF p(14,11,12) m, of "i1s_vr p" "st_world st"] by (auto simp: handles_def st_keeps_def)
  have pol: "handles st m (do {
      (pol, m) \<leftarrow> OEM_1S_CONTROL_SENSOR_POLLING (i1s_sensor p) (st_polling st) m; Some (st\<lparr>st_polling := pol\<rparr>, m) })"
    using good1s_CONTROL_SENSOR_POLLING [OF p(13) m] by (auto simp: handles_def st_keeps_def)
  have vr: "handles st m (case OEM_1S_SET_VR_MONITOR_STATUS (st_power st) m of (pw, m) \<Rightarrow> Some (st\<lparr>st_power := pw\<rparr>, m))"
    using good1s_status(4) [OF m, of "st_power st"]
    by (cases "OEM_1S_SET_VR_MONITOR_STATUS (st_power st) m") (simp add: handles_def st_keeps_def)
  have apml: "handles st m (do {
      (i, w, m) \<leftarrow> OEM_1S_SEND_APML_REQUEST (i1s_apml p) (st_apml st) (st_world st) m;
      Some (st\<lparr>st_world := w, st_apml := i\<rparr>, m) })"
    using good1s_SEND_APML_REQUEST [OF p(5) m, of "st_apml st" "st_world st"] by (auto simp: handles_def st_keeps_def)
  show ?thesis
    unfolding IPMI_OEM_1S_handler_def Let_def
    by (intro handles_if; (elim conjE)?;
        intro handles_same handles_world handles_on_world handles_on_ipmb handles_same_opt plain runs gpio checked jtag sdr rd wr
          out fwv pol vr apml BMC_IPMB_ACCESS_runs [OF p(14,11) m] good1s_GET_POST_CODE [OF p(6) m]; assumption?)
qed

lemma oem1s_guard_stable:
  assumes "st_keeps st st'" and "oem1s_guard (p, st) q"
  shows "oem1s_guard (p, st') q"
  using assms by (auto simp: oem1s_guard_def st_keeps_def mapped_def msg_out_ok_def source_ok_def upholds_def)

interpretation oem1s: guarded_handler oem1s_run oem1s_ok oem1s_guard IPMI_MSG_MAX_LENGTH
proof unfold_locales
  fix pst :: "'w oem1s_plat \<times> 'w oem1s_st" and m
  assume a: "oem1s_ok pst" "oem1s_guard pst m"
  obtain p st where pst: "pst = (p, st)" by (cases pst)
  obtain st' m' where r: "IPMI_OEM_1S_handler p st m = Some (st', m')" "good1s m m'" "st_keeps st st'"
    using IPMI_OEM_1S_handler_handles [OF a [unfolded pst]] by (auto simp: handles_def)
  have "oem1s_ok (p, st')"
    using a(1) r(3) by (auto simp: pst oem1s_ok_def st_keeps_def intro: bridge_ok_upholds)
  with r oem1s_guard_stable [OF r(3)]
  show "\<exists>st' m'. oem1s_run pst m = Some (st', m') \<and> oem1s_ok st' \<and> wf_msg m' \<and> same_route m m' \<and>
      (completion_code m' = CC_SUCCESS \<longrightarrow> unat (data_len m') \<le> IPMI_MSG_MAX_LENGTH) \<and>
      (\<forall>q. oem1s_guard pst q \<longrightarrow> oem1s_guard st' q)"
    by (auto simp: pst oem1s_run_def good_answer_def)
qed

section \<open>A concrete board\<close>

text \<open>A platform with one enabled IPMB channel, whose drivers answer nothing of interest.\<close>

definition demo1s :: "unit oem1s_plat" where
  "demo1s = \<lparr>
     i1s_board = \<lparr>pal_submit_bmc_cold_reset = \<lambda>w. (0, w), set_wdt_continue_feed = \<lambda>_ w. w, submit_bic_warm_reset = \<lambda>w. w,
       pal_submit_12v_cycle_slot = \<lambda>m w. (SUCCESS_12V_CYCLE_SLOT, m, w), pal_clear_cmos = \<lambda>w. (0, w),
       pal_set_pmic_error_flag = \<lambda>_ _ w. (0, w), pal_get_set_add_debug_sel_mode_status = \<lambda>_ x w. (0, x, w),
       i2c_scan = \<lambda>_ d n w. (d, n, w), pal_get_fan_duty = \<lambda>_ x _ w. (0, x, w), pal_get_fan_rpm = \<lambda>_ x w. (0, x, w)\<rparr>,
     i1s_oem = \<lparr>CONFIG_ESPI = False, ENABLE_FAN = False, hsc_pwr_reading = get_hsc_pwr_reading_weak 0,
       set_system_guid = \<lambda>n d w. (GUID_WRITE_SUCCESS, n, d, w), pal_get_fan_ctrl_mode = \<lambda>w. (0, 0, w),
       pal_set_fan_ctrl_mode = \<lambda>_ w. w, pal_set_fan_duty = \<lambda>_ _ _ w. (0, w), MAX_FAN_DUTY_VALUE = 100,
       MAX_FAN_PWM_INDEX_COUNT = 0, INDEX_ALL_PWM = 0xFF, FAN_MANUAL_MODE = 0, FAN_AUTO_MODE = 1,
       FAN_SET_MANUAL_MODE = 0, FAN_SET_AUTO_MODE = 1, FAN_GET_MODE = 2\<rparr>,
     i1s_gpio = \<lparr>gpio_ind_to_num_table = [0, 1], gpio_ind_to_num_table_cnt = 2, gpio_get = \<lambda>_ w. (1, w),
       gpio_set = \<lambda>_ _ w. w, gpio_get_direction = \<lambda>_ w. (0, w), gpio_conf = \<lambda>_ _ w. w, TOTAL_GPIO_NUM = 2,
       gpio_is_init = [True, True], vw_gpio_get = \<lambda>_ d w. (True, d, w), vw_gpio_set = \<lambda>_ _ w. (True, w)\<rparr>,
     i1s_peci = \<lparr>CONFIG_PECI = True, malloc_bytes = \<lambda>n w. (Some (replicate n 0), w), PECI_GET_DIB_CMD = 0xF7,
       PECI_GET_TEMP0_CMD = 0x01, peci_ping = \<lambda>_ w. (0, w), peci_write = \<lambda>_ _ _ rb _ _ w. (0, rb, w)\<rparr>,
     i1s_jtag = demo_jtag,
     i1s_apml = \<lparr>ENABLE_APML = False, apml_get_bus = \<lambda>w. (0, w), SB_RMI_ADDR = 0, SB_TSI_ADDR = 0,
       apml_read_byte = \<lambda>_ _ _ w. (0, 0, w), apml_write_byte = \<lambda>_ _ _ _ w. (0, w), APML_MSG_TYPE_MAILBOX = 0,
       APML_MSG_TYPE_CPUID = 1, APML_MSG_TYPE_MCA = 2, command_code_two_byte = \<lambda>_. False, mailbox_sizes = (5, 5),
       cpuid_sizes = (6, 7, 9), mca_sizes = (6, 7, 9), WrData_size = 16, RdData_size = 16,
       apml_read = \<lambda>_ w. (0, w), get_apml_response_by_index = \<lambda>_ w. (-1, \<lparr>msg_type = 0, msg_bus = 0, target_addr = 0,
         WrData = replicate 16 0, RdData = replicate 16 0, ui32_arg = 0\<rparr>, w)\<rparr>,
     i1s_post = \<lparr>CONFIG_SNOOP_ASPEED = True, POST_CODE_BUF_SIZE = 244, SNOOP_MAX_LEN = 256, snoop_read_num = \<lambda>_. 0,
       copy_snoop_read_buffer = \<lambda>_ _ d _. d, post_code_driver = NO_POST_DRIVER,
       copy_post_read_buffer = \<lambda>_ _ d _ w. (0, d, w)\<rparr>,
     i1s_pldm = \<lparr>PLDM_MAX_DATA_SIZE = 512, pldm_buf_size = 527, get_mctp_info_by_eid = \<lambda>_ w. (None, w),
       mctp_pldm_read = \<lambda>_ _ b w. (0, b, w)\<rparr>,
     i1s_sensor = \<lparr>sensor_poll_thread = \<lambda>_. True, enable_sensor_poll = \<lambda>w. w, disable_sensor_poll = \<lambda>w. w,
       GET_FROM_CACHE = 0, GET_FROM_SENSOR = 1, read_sensor = \<lambda>_ _ w. (SENSOR_NOT_FOUND, 0, w),
       DISABLE_SENSOR_POLLING = 0, ENABLE_SENSOR_POLLING = 1, SENSOR_FAIL = 0xFF,
       sensor_config_index_map = replicate 256 0xFF\<rparr>,
     i1s_fw = \<lparr>pal_get_bios_flash_position = \<lambda>w. (2, w), pal_get_prot_flash_position = \<lambda>w. (1, w),
       pal_switch_bios_spi_mux = \<lambda>_ w. (True, w), fw_update = \<lambda>_ _ _ _ _ w. (FWUPDATE_SUCCESS, w),
       cpld_altera_max10_fw_update = \<lambda>_ _ _ w. (FWUPDATE_SUCCESS, w), fw_update_cxl = \<lambda>_ _ _ _ w. (FWUPDATE_SUCCESS, w),
       DEVSPI_FMC_CS0 = 0, BIC_UPDATE_MAX_OFFSET = 0x60000, read_fw_image = \<lambda>_ _ d _ w. (0, d, w),
       CONFIG_CRYPTO_ASPEED = True, get_fw_sha256 = \<lambda>d _ _ _ w. (0, d, w), SHA256_DIGEST_SIZE = 32\<rparr>,
     i1s_vr = \<lparr>HAS_IPMB = True, ENABLE_ISL69260 = False, i2c_master_read = \<lambda>i _ w. (-1, i, w),
       i2c_master_write = \<lambda>i _ w. (-1, i, w), PVCCIN_ADDR = 0, PVCCD_HV_ADDR = 0, PVCCFA_EHV_ADDR = 0, I2C_BUS5 = 4,
       PMBUS_IC_DEVICE_ID = 0xAD,
       i2c_junk = \<lparr>i2c_bus = 0, i2c_addr = 0, tx_len = 0, rx_len = 0, i2c_buf = []\<rparr>\<rparr>,
     i1s_storage = \<lparr>MAX_FRU_ID = 0, find_FRU_size = \<lambda>_. 0, get_FRU_access = \<lambda>_. 0,
       FRU_read = \<lambda>e w. (FRU_OUT_OF_RANGE, e\<lparr>fru_data := replicate 32 0\<rparr>, w), FRU_write = \<lambda>e w. (FRU_OUT_OF_RANGE, w),
       SDR_get_RSV_ID = \<lambda>_ w. (1, w), SDR_RSV_ID_check = \<lambda>r _ _. r = 1, SDR_check_record_ID = \<lambda>r. False,
       SDR_get_record_ID = \<lambda>_. 0xFFFF, full_sdr_table = \<lambda>_. [], sdr_record_len = \<lambda>_. 0, IPMI_SDR_HEADER_LEN = 5\<rparr>,
     CONFIG_I3C_ASPEED = False,
     i1s_bridge = \<lparr>br_malloc = True, br_request = demo_send, br_response = demo_send\<rparr>,
     i1s_sel = demo_sel, i1s_junk = zero_msg\<rparr>"

definition demo1s_st :: "unit oem1s_st" where
  "demo1s_st = \<lparr>st_world = (), st_power = power_state_init, st_ipmb = demo_st 2, st_mem = Map.empty, st_polling = [], st_apml = 0\<rparr>"

lemma demo_bridge_ok: "bridge_ok (demo_st 2)"
proof -
  obtain ns where "chan_ok (demo_heap 2 (\<lambda>_. 7)) (demo_chan 2) ns"
    using pending_demo [of 2 "\<lambda>_. 7"] by (auto simp: pending_def)
  then have "channels_ok (demo_st 2) [ns]" by (simp add: channels_ok_def live_def demo_st_def)
  then show ?thesis by (auto simp: bridge_ok_def ipmb_ok_def map_ok_def demo_st_def)
qed

lemma demo1s_ok: "oem1s_ok (demo1s, demo1s_st)"
proof -
  have "board_plat_ok (i1s_board demo1s)" by (simp add: board_plat_ok_def demo1s_def)
  moreover have "gpio_plat_ok (i1s_gpio demo1s)" by (simp add: gpio_plat_ok_def demo1s_def)
  moreover have "peci_plat_ok (i1s_peci demo1s)" by (simp add: peci_plat_ok_def demo1s_def)
  moreover have "jtag_plat_ok (i1s_jtag demo1s)" by (simp add: demo_jtag_ok demo1s_def)
  moreover have "apml_plat_ok (i1s_apml demo1s)" by (simp add: apml_plat_ok_def apml_wr_len_def demo1s_def)
  moreover have "post_plat_ok (i1s_post demo1s)" by (simp add: post_plat_ok_def demo1s_def)
  moreover have "pldm_plat_ok (i1s_pldm demo1s)" by (simp add: pldm_plat_ok_def demo1s_def)
  moreover have "fw_plat_ok (i1s_fw demo1s)" by (simp add: fw_plat_ok_def demo1s_def)
  moreover have "storage_plat_ok (i1s_storage demo1s)" by (simp add: storage_plat_ok_def demo1s_def)
  moreover have "wf_msg (buffer (stk demo_send))" by (simp add: demo_send_def demo_node_def)
  then have "bridge_env_ok (i1s_bridge demo1s)" "sel_env_ok (i1s_sel demo1s)"
    by (simp_all add: bridge_env_ok_def sel_env_ok_def demo1s_def demo_sel_def)
  moreover have "wf_msg (i1s_junk demo1s)" by (simp add: demo1s_def)
  moreover have "sensor1s_plat_ok (i1s_sensor demo1s) (length (st_polling demo1s_st))"
    by (simp add: sensor1s_plat_ok_def demo1s_def demo1s_st_def)
  moreover have "bridge_ok (st_ipmb demo1s_st)" by (simp add: demo1s_st_def demo_bridge_ok)
  ultimately show ?thesis by (simp add: oem1s_ok_def oem1s_plat_ok_def)
qed

section \<open>Properties\<close>

text \<open>C4. Every sequence of OEM 1S commands is handled without undefined behaviour, for all commands of
  the dispatch, on an intact IPMB layer, as long as each request passes the checks that the code misses:
  a length inside the message, the pin index of a GPIO request inside the index table, the bit counts of
  a JTAG shift inside the message, mapped addresses for register accesses and at most three bytes to
  write, known interfaces on both sides of a bridged message, a PLDM payload no longer than \<open>pmsg.buf\<close>,
  and sensors whose plain readings, if there are any, are numbers of 16 bits (a negative reading, or one
  above 65535, makes the conversion to the fraction undefined: \<open>sensor_reading_out_of_range\<close>). Of the
  platform it assumes that a driver that fills a buffer keeps its size and reports no more than that
  size, that tables have an entry for each index their count announces and records that are accepted are
  stored completely, that the slot power service keeps the header of the message, that an answer out of
  a queue is a message with room for one more byte, and that the fixed sizes of the protocols (POST code
  buffer, APML registers, digest, PLDM response) are at most the 527 bytes of a message. The IPMB layer stays
  intact, each answer keeps the routing fields of its request, and a successful one fits into the
  message.\<close>

theorem oem1s_commands_safe:
  assumes "oem1s_ok (p, st)" and "\<forall>m \<in> set ms. oem1s_guard (p, st) m"
  shows "\<exists>st' rs. run_all oem1s_run (p, st) ms = Some (st', rs) \<and> oem1s_ok st' \<and> list_all2 same_route ms rs \<and>
    (\<forall>r \<in> set rs. wf_msg r \<and> (completion_code r = CC_SUCCESS \<longrightarrow> unat (data_len r) \<le> IPMI_MSG_MAX_LENGTH))"
  using assms by (rule oem1s.handler_sequence)

theorem oem1s_commands_safe_witness:
  "\<exists>st' rs. run_all oem1s_run (demo1s, demo1s_st) [zero_msg\<lparr>cmd := CMD_OEM_1S_GET_GPIO\<rparr>,
      zero_msg\<lparr>cmd := CMD_OEM_1S_MSG_OUT, InF_source := BMC_IPMB, data_len := 3\<rparr>] = Some (st', rs) \<and> oem1s_ok st' \<and>
    list_all2 same_route [zero_msg\<lparr>cmd := CMD_OEM_1S_GET_GPIO\<rparr>,
      zero_msg\<lparr>cmd := CMD_OEM_1S_MSG_OUT, InF_source := BMC_IPMB, data_len := 3\<rparr>] rs \<and>
    (\<forall>r \<in> set rs. wf_msg r \<and> (completion_code r = CC_SUCCESS \<longrightarrow> unat (data_len r) \<le> IPMI_MSG_MAX_LENGTH))"
proof (rule oem1s_commands_safe [OF demo1s_ok])
  have r: "request_ok (zero_msg\<lparr>cmd := c, InF_source := i, data_len := n\<rparr>)" if "unat n \<le> 3" for n c i
    using that by (intro request_okI) simp_all
  from r [where n = 0 and c = CMD_OEM_1S_GET_GPIO and i = SELF] r [where n = 3 and c = CMD_OEM_1S_MSG_OUT and i = BMC_IPMB]
  show "\<forall>m \<in> set [zero_msg\<lparr>cmd := CMD_OEM_1S_GET_GPIO\<rparr>,
      zero_msg\<lparr>cmd := CMD_OEM_1S_MSG_OUT, InF_source := BMC_IPMB, data_len := 3\<rparr>]. oem1s_guard (demo1s, demo1s_st) m"
    by (simp add: oem1s_guard_def msg_out_ok_def source_ok_def demo1s_st_def demo_st_def) (simp add: zero_msg_def)
qed

lemma send_request_queues:
  assumes s: "chan_ready s (unat index)" and stk: "wf_msg (buffer (stk ev))"
    and ev: "msgq_init ev" "mutex_init ev" "lock_ret ev = 0" "put_ret ev = 0"
    and r: "wf_msg r" "unat (data_len r) \<le> IPMI_MSG_MAX_LENGTH"
  shows "\<exists>q r' s'. ipmb_send_request ev (Some r) index s = Some (IPMB_ERROR_SUCCESS, r', s') \<and>
    ip_out s' = ip_out s @ [Put_tx (unat index) q] \<and> netfn (buffer q) = netfn r \<and> cmd (buffer q) = cmd r \<and>
    msg_bytes (buffer q) = msg_bytes r \<and> InF_source (buffer q) = InF_source r \<and> seq_source (buffer q) = seq_source r \<and>
    dest_addr (buffer q) = channel_target_address (IPMB_config_table s ! unat index)"
proof -
  let ?ch = "ip_chans s ! unat index"
  obtain rs where a: "unat index < length (ip_chans s)" "unat index < length (IPMB_config_table s)" "pending (ip_heap s) ?ch rs"
    using s by (auto simp: chan_ready_def)
  obtain sq where sq: "get_free_seq ?ch = Some (sq, ?ch\<lparr>current_seq := sq\<rparr>)"
    using get_free_seq_result [OF pending_table [OF a(3)]] by blast
  have "take (unat (data_len r)) (blit (data (buffer (stk ev))) 0 (take (unat (data_len r)) (data r))) = msg_bytes r"
    using stk r by (simp add: blit_def msg_bytes_def)
  then show ?thesis
    using a sq stk r ev by (simp add: ipmb_send_request_def Let_def msg_bytes_def emit_def)
qed

text \<open>C5. Message Out forwards a request: with a target on an enabled channel, allocation and queue in
  order, it succeeds and queues exactly one message, on the channel of the target. That message has the
  network function, command and payload from the body of the request, the source and sequence number by
  which the answer finds its way back, and the address of the target.\<close>

theorem msg_out_bridges:
  assumes s: "bridge_ok s" and ev: "bridge_env_ok ev" "br_malloc ev" "msgq_init (br_request ev)" "mutex_init (br_request ev)"
      "lock_ret (br_request ev) = 0" "put_ret (br_request ev) = 0"
    and m: "request_ok m" "2 < data_len m" "completion_code m \<noteq> CC_INVALID_IANA" "data m ! 0 \<noteq> PEER_BMC_IPMB"
    and i: "load (IPMB_inf_index_map s) (unat (data m ! 0)) = Some i" "i \<noteq> RESERVED" "unat i < length (ip_chans s)"
      "enable_status (IPMB_config_table s ! unat i)" "cfg_interface (IPMB_config_table s ! unat i) \<noteq> RESERVED_IF"
  shows "\<exists>s' q. OEM_1S_MSG_OUT True ev s m = Some (s', m\<lparr>completion_code := CC_SUCCESS\<rparr>) \<and>
    ip_out s' = ip_out s @ [Put_tx (unat i) q] \<and>
    netfn (buffer q) = drop_bit 2 (data m ! 1) \<and> cmd (buffer q) = data m ! 2 \<and>
    msg_bytes (buffer q) = take (unat (data_len m) - 3) (drop 3 (data m)) \<and>
    InF_source (buffer q) = InF_source m \<and> seq_source (buffer q) = seq_source m \<and>
    dest_addr (buffer q) = channel_target_address (IPMB_config_table s ! unat i)"
proof -
  let ?m = "m\<lparr>completion_code := CC_SUCCESS\<rparr>"
  have ne: "\<not> data_len m \<le> 2" using m(2) by simp
  have prep: "msg_out_prepare m = ?m" unfolding msg_out_prepare_def Let_def using ne m(3,4) by simp
  have live: "live s (unat i)" using i by (simp add: live_def)
  have tab: "unat i < length (IPMB_config_table s)" using s i(3) by (auto simp: bridge_ok_def ipmb_ok_def channels_ok_def)
  have dis: "bridge_disabled s (data ?m ! 0) = Some False"
    unfolding bridge_disabled_def using i tab by simp
  have n: "unat (data_len m - 3) = unat (data_len m) - 3" "3 \<le> unat (data_len m)"
    using m(2) by (simp_all add: unat_sub_le word_le_nat_alt word_less_nat_alt)
  define r where "r = zero_msg\<lparr>data_len := data_len m - 3, seq_source := seq_source m,
      InF_target := data m ! 0, InF_source := InF_source m, netfn := drop_bit 2 (data m ! 1),
      cmd := data m ! 2, pldm_inst_id := pldm_inst_id m\<rparr>"
  let ?pay = "take (unat (data_len m) - 3) (drop 3 (data m))"
  let ?d = "blit (data zero_msg) 0 ?pay"
  have le: "unat (data_len r) + 3 \<le> IPMI_MSG_MAX_LENGTH" "length (data r) = IPMI_MSG_MAX_LENGTH" "length ?pay = unat (data_len r)"
    using n request_ok_len [OF m(1)] request_ok_length [OF m(1)] by (simp_all add: r_def del: request_ok_length request_ok_len)
  have d: "(if data_len r \<noteq> 0 then memcpy (data r) 0 (data ?m) 3 (unat (data_len r)) else Some (data r)) = Some ?d"
    using le m(1) n by (auto simp: r_def blit_def unat_eq_zero)
  have w: "wf_msg (r\<lparr>data := ?d\<rparr>)" "unat (data_len (r\<lparr>data := ?d\<rparr>)) \<le> IPMI_MSG_MAX_LENGTH"
    using le by (simp_all add: wf_msg_def)
  have mb: "msg_bytes (r\<lparr>data := ?d\<rparr>) = ?pay"
  proof -
    have "unat (data_len r) = unat (data_len m) - 3" using n by (simp add: r_def)
    then show ?thesis using le by (simp add: msg_bytes_def blit_def)
  qed
  have rdy: "chan_ready s (unat i)" using s live ipmb_ok_ready by (simp add: bridge_ok_def)
  have stk: "wf_msg (buffer (stk (br_request ev)))" using ev(1) by (simp add: bridge_env_ok_def)
  obtain q r' s' where q: "ipmb_send_request (br_request ev) (Some (r\<lparr>data := ?d\<rparr>)) i s = Some (IPMB_ERROR_SUCCESS, r', s')"
    "ip_out s' = ip_out s @ [Put_tx (unat i) q]" "netfn (buffer q) = netfn r" "cmd (buffer q) = cmd r"
    "msg_bytes (buffer q) = ?pay" "InF_source (buffer q) = InF_source r" "seq_source (buffer q) = seq_source r"
    "dest_addr (buffer q) = channel_target_address (IPMB_config_table s ! unat i)"
    using send_request_queues [OF rdy stk ev(3-6) w] mb by auto
  have ld: "load (IPMB_inf_index_map s) (unat (data ?m ! 0)) = Some i" using i(1) by simp
  have r': "zero_msg\<lparr>data_len := data_len ?m - 3, seq_source := seq_source ?m,
      InF_target := data ?m ! 0, InF_source := InF_source ?m, netfn := drop_bit 2 (data ?m ! 1),
      cmd := data ?m ! 2, pldm_inst_id := pldm_inst_id ?m\<rparr> = r" by (simp add: r_def)
  have send: "msg_out_send ev s ?m = Some (s', ?m)"
    unfolding msg_out_send_def Let_def r' d bind.bind_lunit ld q(1) prod.case using ev(2) by simp
  have "OEM_1S_MSG_OUT True ev s m = Some (s', ?m)"
    unfolding OEM_1S_MSG_OUT_def Let_def prep dis bind.bind_lunit using send by simp
  then show ?thesis using q by (auto simp: r_def)
qed

theorem msg_out_bridges_witness:
  "\<exists>s' q. OEM_1S_MSG_OUT True \<lparr>br_malloc = True, br_request = demo_send, br_response = demo_send\<rparr> (demo_st 2)
      (zero_msg\<lparr>data := [BMC_IPMB, 0x18, 0x01, 0xAA] @ replicate 523 0, data_len := 4, InF_source := SELF\<rparr>) =
      Some (s', zero_msg\<lparr>data := [BMC_IPMB, 0x18, 0x01, 0xAA] @ replicate 523 0, data_len := 4, InF_source := SELF\<rparr>) \<and>
    ip_out s' = [Put_tx 0 q] \<and> netfn (buffer q) = 0x06 \<and> cmd (buffer q) = 0x01 \<and> msg_bytes (buffer q) = [0xAA] \<and>
    InF_source (buffer q) = SELF \<and> seq_source (buffer q) = 0 \<and> dest_addr (buffer q) = 0x10"
proof -
  let ?m = "zero_msg\<lparr>data := [BMC_IPMB, 0x18, 0x01, 0xAA] @ replicate 523 0, data_len := 4, InF_source := SELF\<rparr>"
  let ?ev = "\<lparr>br_malloc = True, br_request = demo_send, br_response = demo_send\<rparr>"
  have "\<exists>s' q. OEM_1S_MSG_OUT True ?ev (demo_st 2) ?m = Some (s', ?m\<lparr>completion_code := CC_SUCCESS\<rparr>) \<and>
    ip_out s' = ip_out (demo_st 2) @ [Put_tx (unat (0 :: u8)) q] \<and>
    netfn (buffer q) = drop_bit 2 (data ?m ! 1) \<and> cmd (buffer q) = data ?m ! 2 \<and>
    msg_bytes (buffer q) = take (unat (data_len ?m) - 3) (drop 3 (data ?m)) \<and>
    InF_source (buffer q) = InF_source ?m \<and> seq_source (buffer q) = seq_source ?m \<and>
    dest_addr (buffer q) = channel_target_address (IPMB_config_table (demo_st 2) ! unat (0 :: u8))"
  proof (rule msg_out_bridges [OF demo_bridge_ok])
    show "bridge_env_ok ?ev" by (simp add: bridge_env_ok_def demo_send_def demo_node_def)
    show "request_ok ?m" by (intro request_okI) simp_all
    show "completion_code ?m \<noteq> CC_INVALID_IANA" by (simp add: zero_msg_def)
  qed (simp_all add: demo_send_def demo_st_def demo_cfg_def)
  then show ?thesis by (simp add: demo_st_def demo_cfg_def) (simp add: zero_msg_def)
qed

text \<open>Message Out to an interface number that does not exist, at or above \<open>RESERVED\<close>, reads past the
  end of the channel map: the code uses the first byte of the request as an index without a check.\<close>

theorem msg_out_unchecked_target:
  assumes "length (IPMB_inf_index_map s) = unat RESERVED" "unat RESERVED \<le> unat (data m ! 0)"
  shows "OEM_1S_MSG_OUT True ev s m = None"
proof -
  have "data m ! 0 \<noteq> PEER_BMC_IPMB" using assms(2) by auto
  then have "data (msg_out_prepare m) = data m" by (simp add: msg_out_prepare_def Let_def)
  then have "bridge_disabled s (data (msg_out_prepare m) ! 0) = None"
    using assms by (simp add: bridge_disabled_def)
  then show ?thesis by (simp add: OEM_1S_MSG_OUT_def Let_def)
qed

theorem msg_out_unchecked_target_witness:
  "OEM_1S_MSG_OUT True \<lparr>br_malloc = True, br_request = demo_send, br_response = demo_send\<rparr> (demo_st 2)
     (zero_msg\<lparr>data := 0x61 # replicate 526 0, data_len := 3\<rparr>) = None"
  by (rule msg_out_unchecked_target) (simp_all add: demo_st_def)

end
