(* ===== verification/Gpio_Types.thy ===== *)
theory Gpio_Types
  imports Prelude
begin

text \<open>
  The data of \<open>samples/gpio_fs/src/gpio_fs.c\<close> and its interface \<open>gpio_fs.h\<close>, \<open>ioctl.h\<close>: the character
  device interface to GPIO pins. A chip hands out \<^emph>\<open>line handles\<close> (a set of its pins, to read and
  write) and \<^emph>\<open>line events\<close> (one pin whose edges are queued); the chip's \<open>pin_mask\<close> records the
  pins that are handed out.

  The kernel, the GPIO driver and the device file system are not in the repository: their services
  are the fields of \<open>gpio_os\<close> over a state \<open>'w\<close>, together with the numbers of their header files.
  A chip, a line handle and an event are named by their index in the source's static arrays.
\<close>

section \<open>Requests\<close>

abbreviation (input) GPIO_MAX_NAME_SIZE :: nat where "GPIO_MAX_NAME_SIZE \<equiv> 32"
abbreviation (input) GPIOHANDLES_MAX :: nat where "GPIOHANDLES_MAX \<equiv> 64"
abbreviation (input) GPIO_LINE_HANDLE_MAX :: nat where "GPIO_LINE_HANDLE_MAX \<equiv> 64"
abbreviation (input) GPIO_LINE_EVENT_MAX :: nat where "GPIO_LINE_EVENT_MAX \<equiv> 64"
abbreviation (input) GPIO_LINE_EVENT_DATA_MAX :: nat where "GPIO_LINE_EVENT_DATA_MAX \<equiv> 16"

text \<open>\<open>sizeof(struct gpioevent_data)\<close>: eight bytes of time, four of identifier, four of padding.\<close>

abbreviation (input) sizeof_gpioevent_data :: nat where "sizeof_gpioevent_data \<equiv> 16"

record gpiochip_info =
  info_name :: string
  info_label :: string
  info_lines :: u32

record gpioline_info =
  line_offset :: u32
  info_flags :: u32
  line_name :: string
  consumer :: string

record gpiohandle_request =
  lineoffsets :: "u32 list"
  flags :: u32
  default_values :: "u8 list"
  consumer_label :: string
  lines :: u32
  fd :: int

record gpiohandle_config =
  config_flags :: u32
  config_values :: "u8 list"

record gpioevent_request =
  lineoffset :: u32
  handleflags :: u32
  eventflags :: u32
  event_label :: string
  event_fd :: int

record gpioevent_data =
  timestamp :: "64 word"
  event_id :: u32

section \<open>Flags\<close>

abbreviation (input) GPIOLINE_FLAG_KERNEL :: u32 where "GPIOLINE_FLAG_KERNEL \<equiv> 1"
abbreviation (input) GPIOHANDLE_REQUEST_INPUT :: u32 where "GPIOHANDLE_REQUEST_INPUT \<equiv> 0x01"
abbreviation (input) GPIOHANDLE_REQUEST_OUTPUT :: u32 where "GPIOHANDLE_REQUEST_OUTPUT \<equiv> 0x02"
abbreviation (input) GPIOHANDLE_REQUEST_ACTIVE_LOW :: u32 where "GPIOHANDLE_REQUEST_ACTIVE_LOW \<equiv> 0x04"
abbreviation (input) GPIOHANDLE_REQUEST_OPEN_DRAIN :: u32 where "GPIOHANDLE_REQUEST_OPEN_DRAIN \<equiv> 0x08"
abbreviation (input) GPIOHANDLE_REQUEST_OPEN_SOURCE :: u32 where "GPIOHANDLE_REQUEST_OPEN_SOURCE \<equiv> 0x10"
abbreviation (input) GPIOHANDLE_REQUEST_BIAS_PULL_UP :: u32 where "GPIOHANDLE_REQUEST_BIAS_PULL_UP \<equiv> 0x20"
abbreviation (input) GPIOHANDLE_REQUEST_BIAS_PULL_DOWN :: u32 where "GPIOHANDLE_REQUEST_BIAS_PULL_DOWN \<equiv> 0x40"
abbreviation (input) GPIOHANDLE_REQUEST_BIAS_DISABLE :: u32 where "GPIOHANDLE_REQUEST_BIAS_DISABLE \<equiv> 0x80"
abbreviation (input) GPIOEVENT_REQUEST_RISING_EDGE :: u32 where "GPIOEVENT_REQUEST_RISING_EDGE \<equiv> 0x01"
abbreviation (input) GPIOEVENT_REQUEST_FALLING_EDGE :: u32 where "GPIOEVENT_REQUEST_FALLING_EDGE \<equiv> 0x02"
abbreviation (input) GPIOEVENT_REQUEST_BOTH_EDGES :: u32 where "GPIOEVENT_REQUEST_BOTH_EDGES \<equiv> 0x03"
abbreviation (input) GPIOEVENT_EVENT_RISING_EDGE :: u32 where "GPIOEVENT_EVENT_RISING_EDGE \<equiv> 0x01"
abbreviation (input) GPIOEVENT_EVENT_FALLING_EDGE :: u32 where "GPIOEVENT_EVENT_FALLING_EDGE \<equiv> 0x02"

definition GPIOHANDLE_REQUEST_VALID_FLAGS :: u32 where
  "GPIOHANDLE_REQUEST_VALID_FLAGS =
     GPIOHANDLE_REQUEST_INPUT OR GPIOHANDLE_REQUEST_OUTPUT OR GPIOHANDLE_REQUEST_ACTIVE_LOW OR
     GPIOHANDLE_REQUEST_OPEN_DRAIN OR GPIOHANDLE_REQUEST_OPEN_SOURCE"

definition GPIOEVENT_REQUEST_VALID_FLAGS :: u32 where
  "GPIOEVENT_REQUEST_VALID_FLAGS = GPIOEVENT_REQUEST_RISING_EDGE OR GPIOEVENT_REQUEST_FALLING_EDGE"

text \<open>\<open>flags & mask\<close> as a condition.\<close>

abbreviation has :: "u32 \<Rightarrow> u32 \<Rightarrow> bool" where
  "has fs m \<equiv> fs AND m \<noteq> 0"

text \<open>\<open>BIT(n)\<close> shifts a 32-bit \<open>unsigned long\<close>; a count of 32 or more is undefined.\<close>

definition BIT :: "u32 \<Rightarrow> u32 option" where
  "BIT n = (if unat n < 32 then Some (push_bit (unat n) 1) else None)"

section \<open>Request numbers\<close>

abbreviation (input) IOC_NONE :: u32 where "IOC_NONE \<equiv> 0"
abbreviation (input) IOC_WRITE :: u32 where "IOC_WRITE \<equiv> 1"
abbreviation (input) IOC_READ :: u32 where "IOC_READ \<equiv> 2"

definition IOC :: "u32 \<Rightarrow> u32 \<Rightarrow> u32 \<Rightarrow> u32 \<Rightarrow> u32" where
  "IOC dir ty nr sz = push_bit 30 dir OR push_bit 8 ty OR nr OR push_bit 16 sz"

definition IOR :: "u32 \<Rightarrow> u32 \<Rightarrow> u32 \<Rightarrow> u32" where
  "IOR ty nr sz = IOC IOC_READ ty nr sz"

definition IOWR :: "u32 \<Rightarrow> u32 \<Rightarrow> u32 \<Rightarrow> u32" where
  "IOWR ty nr sz = IOC (IOC_READ OR IOC_WRITE) ty nr sz"

definition GPIO_GET_CHIPINFO_IOCTL :: u32 where "GPIO_GET_CHIPINFO_IOCTL = IOR 0xB4 0x01 68"
definition GPIO_GET_LINEINFO_IOCTL :: u32 where "GPIO_GET_LINEINFO_IOCTL = IOWR 0xB4 0x02 72"
definition GPIO_GET_LINEHANDLE_IOCTL :: u32 where "GPIO_GET_LINEHANDLE_IOCTL = IOWR 0xB4 0x03 364"
definition GPIO_GET_LINEEVENT_IOCTL :: u32 where "GPIO_GET_LINEEVENT_IOCTL = IOWR 0xB4 0x04 48"
definition GPIOHANDLE_GET_LINE_VALUES_IOCTL :: u32 where "GPIOHANDLE_GET_LINE_VALUES_IOCTL = IOWR 0xB4 0x08 64"
definition GPIOHANDLE_SET_LINE_VALUES_IOCTL :: u32 where "GPIOHANDLE_SET_LINE_VALUES_IOCTL = IOWR 0xB4 0x09 64"
definition GPIOHANDLE_SET_CONFIG_IOCTL :: u32 where "GPIOHANDLE_SET_CONFIG_IOCTL = IOWR 0xB4 0x0A 84"

abbreviation (input) EINVAL :: int where "EINVAL \<equiv> 22"
abbreviation (input) ENOMEM :: int where "ENOMEM \<equiv> 12"
abbreviation (input) ENODEV :: int where "ENODEV \<equiv> 19"
abbreviation (input) ENOTTY :: int where "ENOTTY \<equiv> 25"

section \<open>State\<close>

record gpio_chip =
  dev :: nat
  dev_name :: string
  label :: string
  line_names :: "string option list"
  pin_count :: u32
  pin_mask :: u32
  ref_cnt :: u32

record gpio_line =
  line_chip :: "nat option"
  req :: gpiohandle_request
  handle_name :: string

record 'rb gpio_event =
  event_chip :: "nat option"
  event_req :: gpioevent_request
  cb_pins :: u32
  rb :: 'rb
  event_name :: string

record ('w, 'rb) gfs =
  gpio_devices :: "gpio_chip list"
  gpio_line_handle :: "gpio_line list"
  gpio_line_event :: "'rb gpio_event list"
  world :: 'w

text \<open>What \<open>zfp->filep\<close> points to.\<close>

datatype filep = FChip nat | FLine nat | FEvent nat

text \<open>The open operation of a driver: result, file pointer, state.\<close>

type_synonym ('w, 'rb) open_op =
  "string \<Rightarrow> ('w, 'rb) gfs \<Rightarrow> (int \<times> filep option \<times> ('w, 'rb) gfs) option"

section \<open>Services of the kernel\<close>

record ('w, 'rb) gpio_os =
  GPIO_INPUT :: u32
  GPIO_OUTPUT :: u32
  GPIO_OUTPUT_INIT_LOW :: u32
  GPIO_OPEN_DRAIN :: u32
  GPIO_OPEN_SOURCE :: u32
  GPIO_PULL_UP :: u32
  GPIO_PULL_DOWN :: u32
  GPIO_DISCONNECTED :: u32
  GPIO_INT_EDGE_BOTH :: u32
  GPIO_INT_EDGE_RISING :: u32
  GPIO_INT_EDGE_FALLING :: u32
  GPIO_INT_DISABLE :: u32
  F_GETFL :: u32
  F_SETFL :: u32
  O_RDWR :: int
  ZFD_IOCTL_POLL_PREPARE :: u32
  ZFD_IOCTL_POLL_UPDATE :: u32
  ZVFS_POLLIN :: u16
  CONFIG_ASSERT :: bool
  gpio_pin_configure :: "nat \<Rightarrow> u32 \<Rightarrow> u32 \<Rightarrow> 'w \<Rightarrow> int \<times> 'w"
  gpio_pin_set :: "nat \<Rightarrow> u32 \<Rightarrow> u8 \<Rightarrow> 'w \<Rightarrow> 'w"
  gpio_pin_get :: "nat \<Rightarrow> u32 \<Rightarrow> 'w \<Rightarrow> int \<times> 'w"
  gpio_port_get :: "nat \<Rightarrow> u32 \<Rightarrow> 'w \<Rightarrow> u32 \<times> 'w"
  gpio_pin_interrupt_configure :: "nat \<Rightarrow> u32 \<Rightarrow> u32 \<Rightarrow> 'w \<Rightarrow> int \<times> 'w"
  gpio_add_callback :: "nat \<Rightarrow> nat \<Rightarrow> 'w \<Rightarrow> 'w"
  gpio_remove_callback :: "nat \<Rightarrow> nat \<Rightarrow> 'w \<Rightarrow> 'w"
  device_is_ready :: "nat \<Rightarrow> 'w \<Rightarrow> bool"
  devfs_register :: "string \<Rightarrow> 'w \<Rightarrow> 'w"
  devfs_register_anon :: "string \<Rightarrow> 'w \<Rightarrow> int \<times> 'w"
  devfs_unregister_anon :: "string \<Rightarrow> 'w \<Rightarrow> 'w"
  open_file :: "string \<Rightarrow> ('w, 'rb) open_op \<Rightarrow> ('w, 'rb) gfs \<Rightarrow> (int \<times> int \<times> ('w, 'rb) gfs) option"
  k_uptime_get :: "'w \<Rightarrow> 64 word \<times> 'w"
  k_poll_signal_init :: "nat \<Rightarrow> 'w \<Rightarrow> 'w"
  k_poll_signal_raise :: "nat \<Rightarrow> int \<Rightarrow> 'w \<Rightarrow> 'w"
  k_poll_signal_reset :: "nat \<Rightarrow> 'w \<Rightarrow> 'w"
  ring_buf_init :: "nat \<Rightarrow> 'rb"
  ring_buf_put :: "'rb \<Rightarrow> u8 list \<Rightarrow> nat \<times> 'rb"
  ring_buf_get :: "'rb \<Rightarrow> nat \<Rightarrow> u8 list \<times> 'rb"
  ring_buf_reset :: "'rb \<Rightarrow> 'rb"
  ring_buf_size_get :: "'rb \<Rightarrow> nat"

text \<open>
  What the code relies on. Opening a path of the device file system either fails before it reaches
  the driver, or calls the driver's open operation once, with the name behind \<open>/dev/\<close>; it answers a
  descriptor exactly when the driver's result is zero, and sets a positive \<open>errno\<close> otherwise.
\<close>

definition open_laws :: "('w, 'rb) gpio_os \<Rightarrow> bool" where
  "open_laws os \<longleftrightarrow> (\<forall>path drv s.
     (\<exists>fd errno w. fd < 0 \<and> 0 < errno \<and> open_file os path drv s = Some (fd, errno, s\<lparr>world := w\<rparr>)) \<or>
     (\<exists>w. case drv (drop 5 path) (s\<lparr>world := w\<rparr>) of
        None \<Rightarrow> open_file os path drv s = None
      | Some (rc, _, s1) \<Rightarrow> (\<exists>fd errno w1. open_file os path drv s = Some (fd, errno, s1\<lparr>world := w1\<rparr>) \<and>
           (if rc = 0 then 0 \<le> fd else fd < 0 \<and> 0 < errno))))"

text \<open>A ring buffer of \<open>cap\<close> bytes is a queue: \<open>put\<close> takes as many bytes as fit, \<open>get\<close> as many as
  there are.\<close>

definition ring_laws :: "('w, 'rb) gpio_os \<Rightarrow> ('rb \<Rightarrow> u8 list) \<Rightarrow> nat \<Rightarrow> bool" where
  "ring_laws os content cap \<longleftrightarrow>
     content (ring_buf_init os cap) = [] \<and>
     (\<forall>r. content (ring_buf_reset os r) = []) \<and>
     (\<forall>r. ring_buf_size_get os r = length (content r)) \<and>
     (\<forall>r bs. ring_buf_put os r bs =
        (min (length bs) (cap - length (content r)), snd (ring_buf_put os r bs)) \<and>
        content (snd (ring_buf_put os r bs)) = content r @ take (cap - length (content r)) bs) \<and>
     (\<forall>r n. ring_buf_get os r n = (take n (content r), snd (ring_buf_get os r n)) \<and>
        content (snd (ring_buf_get os r n)) = drop n (content r))"

end
