(* ===== verification/Gpio_Fs.thy ===== *)
theory Gpio_Fs
  imports Gpio_Types
begin

text \<open>
  The operations of \<open>samples/gpio_fs/src/gpio_fs.c\<close>, in the order of the file. The result \<open>None\<close>
  means undefined behaviour: an index outside of an array, a shift by the width of the type, or a
  file pointer whose chip is \<open>NULL\<close>.
\<close>

section \<open>The tables\<close>

text \<open>Decimal numbers and \<open>snprintf\<close>, which keeps one byte less than the size for the text.\<close>

fun decimal :: "nat \<Rightarrow> string" where
  "decimal n = (if n < 10 then [char_of (48 + n)] else decimal (n div 10) @ [char_of (48 + n mod 10)])"

declare decimal.simps [simp del]

definition snprintf :: "nat \<Rightarrow> string \<Rightarrow> string" where
  "snprintf n s = take (n - 1) s"

definition dev_path :: "string \<Rightarrow> string" where
  "dev_path nm = snprintf 31 (''/dev/'' @ nm)"

fun find_index :: "('a \<Rightarrow> bool) \<Rightarrow> 'a list \<Rightarrow> nat option" where
  "find_index P [] = None"
| "find_index P (x # xs) = (if P x then Some 0 else map_option Suc (find_index P xs))"

definition gpio_chip_find :: "string \<Rightarrow> ('w, 'rb) gfs \<Rightarrow> nat option" where
  "gpio_chip_find nm s = find_index (\<lambda>c. nm = label c) (gpio_devices s)"

definition gpio_line_handle_find :: "string \<Rightarrow> ('w, 'rb) gfs \<Rightarrow> nat option" where
  "gpio_line_handle_find nm s = find_index (\<lambda>l. nm = handle_name l) (gpio_line_handle s)"

definition gpio_line_handle_alloc :: "('w, 'rb) gfs \<Rightarrow> nat option" where
  "gpio_line_handle_alloc s = find_index (\<lambda>l. line_chip l = None) (gpio_line_handle s)"

definition upd_line :: "nat \<Rightarrow> (gpio_line \<Rightarrow> gpio_line) \<Rightarrow> ('w, 'rb) gfs \<Rightarrow> ('w, 'rb) gfs" where
  "upd_line i f s = s\<lparr>gpio_line_handle := (gpio_line_handle s)[i := f (gpio_line_handle s ! i)]\<rparr>"

definition upd_event :: "nat \<Rightarrow> ('rb gpio_event \<Rightarrow> 'rb gpio_event) \<Rightarrow> ('w, 'rb) gfs \<Rightarrow> ('w, 'rb) gfs" where
  "upd_event i f s = s\<lparr>gpio_line_event := (gpio_line_event s)[i := f (gpio_line_event s ! i)]\<rparr>"

definition upd_chip :: "nat \<Rightarrow> (gpio_chip \<Rightarrow> gpio_chip) \<Rightarrow> ('w, 'rb) gfs \<Rightarrow> ('w, 'rb) gfs" where
  "upd_chip c f s = s\<lparr>gpio_devices := (gpio_devices s)[c := f (gpio_devices s ! c)]\<rparr>"

definition gpio_line_handle_init :: "('w, 'rb) gfs \<Rightarrow> ('w, 'rb) gfs" where
  "gpio_line_handle_init s =
     fold (\<lambda>i. upd_line i (\<lambda>l. l\<lparr>handle_name := snprintf 8 (''line'' @ decimal i)\<rparr>))
       [0..<length (gpio_line_handle s)] s"

definition gpio_line_handle_free :: "nat \<Rightarrow> ('w, 'rb) gfs \<Rightarrow> ('w, 'rb) gfs" where
  "gpio_line_handle_free i s = upd_line i (\<lambda>l. l\<lparr>line_chip := None\<rparr>) s"

definition gpio_line_event_find :: "string \<Rightarrow> ('w, 'rb) gfs \<Rightarrow> nat option" where
  "gpio_line_event_find nm s = find_index (\<lambda>e. nm = event_name e) (gpio_line_event s)"

definition gpio_line_event_alloc :: "('w, 'rb) gfs \<Rightarrow> nat option" where
  "gpio_line_event_alloc s = find_index (\<lambda>e. event_chip e = None) (gpio_line_event s)"

definition gpio_line_event_init :: "('w, 'rb) gfs \<Rightarrow> ('w, 'rb) gfs" where
  "gpio_line_event_init s =
     fold (\<lambda>i. upd_event i (\<lambda>e. e\<lparr>event_name := snprintf 8 (''event'' @ decimal i)\<rparr>))
       [0..<length (gpio_line_event s)] s"

definition gpio_line_event_free :: "nat \<Rightarrow> ('w, 'rb) gfs \<Rightarrow> ('w, 'rb) gfs" where
  "gpio_line_event_free i s = upd_event i (\<lambda>e. e\<lparr>event_chip := None\<rparr>) s"

definition req_flag_2_gpio_flag :: "('w, 'rb) gpio_os \<Rightarrow> u32 \<Rightarrow> u32" where
  "req_flag_2_gpio_flag os fs =
     (let g = 0;
          g = (if has fs GPIOHANDLE_REQUEST_INPUT then g OR GPIO_INPUT os else g);
          g = (if has fs GPIOHANDLE_REQUEST_OUTPUT then g OR GPIO_OUTPUT os else g);
          g = (if has fs GPIOHANDLE_REQUEST_ACTIVE_LOW then g OR GPIO_OUTPUT_INIT_LOW os else g);
          g = (if has fs GPIOHANDLE_REQUEST_OPEN_DRAIN then g OR GPIO_OPEN_DRAIN os else g);
          g = (if has fs GPIOHANDLE_REQUEST_OPEN_SOURCE then g OR GPIO_OPEN_SOURCE os else g);
          g = (if has fs GPIOHANDLE_REQUEST_BIAS_PULL_UP then g OR GPIO_PULL_UP os else g);
          g = (if has fs GPIOHANDLE_REQUEST_BIAS_PULL_DOWN then g OR GPIO_PULL_DOWN os else g);
          g = (if has fs GPIOHANDLE_REQUEST_BIAS_DISABLE then GPIO_DISCONNECTED os else g)
      in g)"

section \<open>Line handles\<close>

text \<open>Configuring one pin: \<open>gpio_pin_configure\<close>, and the value of an output.\<close>

definition configure_pin :: "('w, 'rb) gpio_os \<Rightarrow> nat \<Rightarrow> u32 \<Rightarrow> u32 list \<Rightarrow> u8 list \<Rightarrow> nat \<Rightarrow> 'w \<Rightarrow> 'w option" where
  "configure_pin os d fs offs vals i w = do {
     off \<leftarrow> load offs i;
     let (_, w) = gpio_pin_configure os d off fs w;
     if has fs (GPIO_OUTPUT os) then do {
       v \<leftarrow> load vals i;
       Some (gpio_pin_set os d off v w)
     } else Some w
   }"

fun configure_pins :: "('w, 'rb) gpio_os \<Rightarrow> nat \<Rightarrow> u32 \<Rightarrow> u32 list \<Rightarrow> u8 list \<Rightarrow> nat list \<Rightarrow> 'w \<Rightarrow> 'w option" where
  "configure_pins os d fs offs vals [] w = Some w"
| "configure_pins os d fs offs vals (i # is) w =
     do { w \<leftarrow> configure_pin os d fs offs vals i w; configure_pins os d fs offs vals is w }"

text \<open>The loop of \<open>gpio_line_open\<close>: the pin's bit is set, then the pin is configured.\<close>

fun line_open_loop :: "('w, 'rb) gpio_os \<Rightarrow> nat \<Rightarrow> u32 \<Rightarrow> u32 list \<Rightarrow> u8 list \<Rightarrow> nat list \<Rightarrow> u32 \<Rightarrow> 'w
    \<Rightarrow> (u32 \<times> 'w) option" where
  "line_open_loop os d fs offs vals [] m w = Some (m, w)"
| "line_open_loop os d fs offs vals (i # is) m w = do {
     off \<leftarrow> load offs i;
     b \<leftarrow> BIT off;
     w \<leftarrow> configure_pin os d fs offs vals i w;
     line_open_loop os d fs offs vals is (m OR b) w
   }"

definition line_indices :: "gpiohandle_request \<Rightarrow> nat list" where
  "line_indices r = [0..<unat (lines r)]"

definition gpio_line_open :: "('w, 'rb) gpio_os \<Rightarrow> ('w, 'rb) open_op" where
  "gpio_line_open os file_name s =
     (case gpio_line_handle_find file_name s of
        None \<Rightarrow> Some (- EINVAL, None, s)
      | Some i \<Rightarrow>
          let line_handle = gpio_line_handle s ! i in
          case line_chip line_handle of
            None \<Rightarrow> Some (- EINVAL, None, s)
          | Some c \<Rightarrow> do {
              ch \<leftarrow> load (gpio_devices s) c;
              let r = req line_handle;
              let fs = req_flag_2_gpio_flag os (flags r);
              (m, w) \<leftarrow> line_open_loop os (dev ch) fs (lineoffsets r) (default_values r) (line_indices r)
                 (pin_mask ch) (world s);
              Some (0, Some (FLine i), upd_chip c (\<lambda>ch. ch\<lparr>pin_mask := m\<rparr>) (s\<lparr>world := w\<rparr>))
            })"

fun line_close_loop :: "('w, 'rb) gpio_os \<Rightarrow> nat \<Rightarrow> u32 list \<Rightarrow> nat list \<Rightarrow> u32 \<Rightarrow> 'w \<Rightarrow> (u32 \<times> 'w) option" where
  "line_close_loop os d offs [] m w = Some (m, w)"
| "line_close_loop os d offs (i # is) m w = do {
     off \<leftarrow> load offs i;
     b \<leftarrow> BIT off;
     let (_, w) = gpio_pin_configure os d off (GPIO_DISCONNECTED os) w;
     line_close_loop os d offs is (m AND NOT b) w
   }"

definition gpio_line_close :: "('w, 'rb) gpio_os \<Rightarrow> nat \<Rightarrow> ('w, 'rb) gfs \<Rightarrow> (int \<times> ('w, 'rb) gfs) option" where
  "gpio_line_close os i s = do {
     line_handle \<leftarrow> load (gpio_line_handle s) i;
     let path = dev_path (handle_name line_handle);
     c \<leftarrow> line_chip line_handle;
     ch \<leftarrow> load (gpio_devices s) c;
     (m, w) \<leftarrow> line_close_loop os (dev ch) (lineoffsets (req line_handle)) (line_indices (req line_handle))
        (pin_mask ch) (world s);
     let s = upd_chip c (\<lambda>ch. ch\<lparr>pin_mask := m\<rparr>) (s\<lparr>world := devfs_unregister_anon os path w\<rparr>);
     Some (0, gpio_line_handle_free i s)
   }"

fun set_values_loop :: "('w, 'rb) gpio_os \<Rightarrow> nat \<Rightarrow> u32 list \<Rightarrow> u8 list \<Rightarrow> nat list \<Rightarrow> 'w \<Rightarrow> 'w option" where
  "set_values_loop os d offs vals [] w = Some w"
| "set_values_loop os d offs vals (i # is) w = do {
     off \<leftarrow> load offs i;
     v \<leftarrow> load vals i;
     set_values_loop os d offs vals is (gpio_pin_set os d off v w)
   }"

fun get_values_loop :: "u32 \<Rightarrow> u32 list \<Rightarrow> nat list \<Rightarrow> u8 list \<Rightarrow> u8 list option" where
  "get_values_loop v offs [] vals = Some vals"
| "get_values_loop v offs (i # is) vals = do {
     pin \<leftarrow> load offs i;
     b \<leftarrow> BIT pin;
     vals \<leftarrow> store vals i (if has v b then 1 else 0);
     get_values_loop v offs is vals
   }"

text \<open>The third argument of \<open>ioctl\<close>, as the operations read it from the argument list. In the poll
  requests, \<open>pev\<close> and \<open>pev_end\<close> are positions in the caller's array of poll events.\<close>

datatype poll_state = K_POLL_STATE_NOT_READY | K_POLL_STATE_SIGNALED
datatype poll_obj = No_obj | Event_signal nat

record poll_arg =
  poll_events :: u16
  poll_revents :: u16
  pev :: nat
  pev_end :: nat
  pev_slots :: "(poll_obj \<times> poll_state) list"

datatype ioctl_arg =
    HandleData "u8 list"
  | HandleConfig gpiohandle_config
  | HandleRequest gpiohandle_request
  | EventRequest gpioevent_request
  | ChipInfo gpiochip_info
  | LineInfo gpioline_info
  | PollArg poll_arg
  | NoArg

definition gpio_line_ioctl :: "('w, 'rb) gpio_os \<Rightarrow> nat \<Rightarrow> u32 \<Rightarrow> ioctl_arg \<Rightarrow> ('w, 'rb) gfs
    \<Rightarrow> (int \<times> ioctl_arg \<times> ('w, 'rb) gfs) option" where
  "gpio_line_ioctl os i request arg s = do {
     line_handle \<leftarrow> load (gpio_line_handle s) i;
     let r = req line_handle;
     if request = GPIOHANDLE_SET_LINE_VALUES_IOCTL then
       (case arg of HandleData vals \<Rightarrow> do {
          c \<leftarrow> line_chip line_handle;
          ch \<leftarrow> load (gpio_devices s) c;
          w \<leftarrow> set_values_loop os (dev ch) (lineoffsets r) vals (line_indices r) (world s);
          Some (0, arg, s\<lparr>world := w\<rparr>) }
        | _ \<Rightarrow> None)
     else if request = GPIOHANDLE_GET_LINE_VALUES_IOCTL then
       (case arg of HandleData vals \<Rightarrow> do {
          c \<leftarrow> line_chip line_handle;
          ch \<leftarrow> load (gpio_devices s) c;
          let (v, w) = gpio_port_get os (dev ch) 0 (world s);
          vals \<leftarrow> get_values_loop v (lineoffsets r) (line_indices r) vals;
          Some (0, HandleData vals, s\<lparr>world := w\<rparr>) }
        | _ \<Rightarrow> None)
     else if request = GPIOHANDLE_SET_CONFIG_IOCTL then
       (case arg of HandleConfig config \<Rightarrow> do {
          c \<leftarrow> line_chip line_handle;
          ch \<leftarrow> load (gpio_devices s) c;
          let fs = req_flag_2_gpio_flag os (config_flags config);
          w \<leftarrow> configure_pins os (dev ch) fs (lineoffsets r) (config_values config) (line_indices r) (world s);
          Some (0, arg, s\<lparr>world := w\<rparr>) }
        | _ \<Rightarrow> None)
     else Some (- ENOTTY, arg, s)
   }"

text \<open>The checks of \<open>gpio_line_handle_create\<close> on the offsets, the taken pins and the flags. They run
  before \<open>gpio_lock\<close>.\<close>

fun offsets_in_range :: "u32 list \<Rightarrow> u32 \<Rightarrow> nat list \<Rightarrow> bool option" where
  "offsets_in_range offs n [] = Some True"
| "offsets_in_range offs n (i # is) =
     do { off \<leftarrow> load offs i; if off \<ge> n then Some False else offsets_in_range offs n is }"

fun offsets_free :: "u32 list \<Rightarrow> u32 \<Rightarrow> nat list \<Rightarrow> bool option" where
  "offsets_free offs m [] = Some True"
| "offsets_free offs m (i # is) =
     do { pin \<leftarrow> load offs i; b \<leftarrow> BIT pin; if has b m then Some False else offsets_free offs m is }"

definition line_flags_ok :: "u32 \<Rightarrow> bool" where
  "line_flags_ok lflags =
     (if has lflags (NOT GPIOHANDLE_REQUEST_VALID_FLAGS) then False
      else if has lflags GPIOHANDLE_REQUEST_INPUT \<and> has lflags GPIOHANDLE_REQUEST_OUTPUT then False
      else if has lflags GPIOHANDLE_REQUEST_OPEN_DRAIN \<and> has lflags GPIOHANDLE_REQUEST_OPEN_SOURCE then False
      else if \<not> has lflags GPIOHANDLE_REQUEST_OUTPUT \<and>
        (has lflags GPIOHANDLE_REQUEST_OPEN_DRAIN \<or> has lflags GPIOHANDLE_REQUEST_OPEN_SOURCE) then False
      else True)"

definition line_request_check :: "gpiohandle_request \<Rightarrow> gpio_chip \<Rightarrow> bool option" where
  "line_request_check r ch =
     (if lines r = 0 \<or> lines r > pin_count ch then Some False
      else do {
        in_range \<leftarrow> offsets_in_range (lineoffsets r) (pin_count ch) (line_indices r);
        if \<not> in_range then Some False
        else do {
          unused \<leftarrow> offsets_free (lineoffsets r) (pin_mask ch) (line_indices r);
          if \<not> unused then Some False
          else Some (line_flags_ok (flags r))
        }
      })"

text \<open>The part under the lock. The driver's open operation of the new path is \<open>gpio_line_open\<close>; the
  result \<open>res\<close> is \<open>!devfs_register_anon(...)\<close>, one when the registration answered zero.\<close>

definition line_handle_commit :: "('w, 'rb) gpio_os \<Rightarrow> gpiohandle_request \<Rightarrow> nat \<Rightarrow> ('w, 'rb) gfs
    \<Rightarrow> (int \<times> gpiohandle_request \<times> ('w, 'rb) gfs) option" where
  "line_handle_commit os r c s =
     (case gpio_line_handle_alloc s of
        None \<Rightarrow> Some (- ENOMEM, r, s)
      | Some i \<Rightarrow>
          let path = dev_path (handle_name (gpio_line_handle s ! i));
              (reg, w) = devfs_register_anon os path (world s);
              s = s\<lparr>world := w\<rparr> in
          if reg = 0 then do {
            let s = upd_line i (\<lambda>l. l\<lparr>line_chip := Some c, req := r\<rparr>) s;
            (fd', errno, s) \<leftarrow> open_file os path (gpio_line_open os) s;
            let r = r\<lparr>fd := fd'\<rparr>;
            let (res, s) = (if fd' < 0
              then (- errno, gpio_line_handle_free i (s\<lparr>world := devfs_unregister_anon os path (world s)\<rparr>))
              else (1, s));
            Some (res, r, upd_line i (\<lambda>l. l\<lparr>req := (req l)\<lparr>fd := fd'\<rparr>\<rparr>) s)
          }
          else Some (0, r, gpio_line_handle_free i s))"

definition gpio_line_handle_create :: "('w, 'rb) gpio_os \<Rightarrow> gpiohandle_request \<Rightarrow> nat \<Rightarrow> ('w, 'rb) gfs
    \<Rightarrow> (int \<times> gpiohandle_request \<times> ('w, 'rb) gfs) option" where
  "gpio_line_handle_create os r c s = do {
     ch \<leftarrow> load (gpio_devices s) c;
     ok \<leftarrow> line_request_check r ch;
     if \<not> ok then Some (- EINVAL, r, s) else line_handle_commit os r c s
   }"

end
