(* ===== verification/Gpio_Events.thy ===== *)
theory Gpio_Events
  imports Gpio_Fs
begin

text \<open>
  Line events, the chip's own file operations and the initialisation of
  \<open>samples/gpio_fs/src/gpio_fs.c\<close>. An event queues one record of sixteen bytes for each edge that its
  interrupt sees; a reader takes any number of bytes.
\<close>

section \<open>Event records\<close>

definition le_bytes :: "nat \<Rightarrow> 'a :: len word \<Rightarrow> u8 list" where
  "le_bytes n w = map (\<lambda>i. ucast (drop_bit (8 * i) w)) [0..<n]"

text \<open>The bytes of a \<open>struct gpioevent_data\<close>; \<open>pad\<close> are its four bytes of padding.\<close>

definition event_bytes :: "gpioevent_data \<Rightarrow> u8 list \<Rightarrow> u8 list" where
  "event_bytes d pad = le_bytes 8 (timestamp d) @ le_bytes 4 (event_id d) @ pad"

text \<open>The interrupt handler. \<open>undef_id\<close> and \<open>pad\<close> are the contents of the local variable
  \<open>event_data\<close> that nothing initialises. A full buffer fails an assertion where assertions are
  compiled in.\<close>

definition edge_id :: "('w, 'rb) gpio_os \<Rightarrow> 'rb gpio_event \<Rightarrow> u32 \<Rightarrow> ('w, 'rb) gfs \<Rightarrow> 'w \<Rightarrow> (u32 \<times> 'w) option" where
  "edge_id os event undef_id s w =
     (let eflags = eventflags (event_req event) in
      if has eflags GPIOEVENT_REQUEST_RISING_EDGE \<and> has eflags GPIOEVENT_REQUEST_FALLING_EDGE then do {
        c \<leftarrow> event_chip event;
        ch \<leftarrow> load (gpio_devices s) c;
        let (pin_val, w) = gpio_pin_get os (dev ch) (lineoffset (event_req event)) w;
        Some (if pin_val \<noteq> 0 then GPIOEVENT_EVENT_RISING_EDGE else GPIOEVENT_EVENT_FALLING_EDGE, w)
      }
      else if has eflags GPIOEVENT_REQUEST_RISING_EDGE then Some (GPIOEVENT_EVENT_RISING_EDGE, w)
      else if has eflags GPIOEVENT_REQUEST_FALLING_EDGE then Some (GPIOEVENT_EVENT_FALLING_EDGE, w)
      else Some (undef_id, w))"

definition gpio_irq :: "('w, 'rb) gpio_os \<Rightarrow> u32 \<Rightarrow> u8 list \<Rightarrow> nat \<Rightarrow> u32 \<Rightarrow> ('w, 'rb) gfs \<Rightarrow> ('w, 'rb) gfs option" where
  "gpio_irq os undef_id pad i pins s = do {
     event \<leftarrow> load (gpio_line_event s) i;
     b \<leftarrow> BIT (lineoffset (event_req event));
     if \<not> has pins b then Some s
     else do {
       let (now, w) = k_uptime_get os (world s);
       (eid, w) \<leftarrow> edge_id os event undef_id s w;
       let event_data = \<lparr>timestamp = now * 1000000, event_id = eid\<rparr>;
       let (w_size, rb') = ring_buf_put os (rb event) (event_bytes event_data pad);
       if w_size \<noteq> sizeof_gpioevent_data \<and> CONFIG_ASSERT os then None
       else Some (upd_event i (\<lambda>e. e\<lparr>rb := rb'\<rparr>) (s\<lparr>world := k_poll_signal_raise os i 1 w\<rparr>))
     }
   }"

section \<open>File operations of an event\<close>

definition event_int_flag :: "('w, 'rb) gpio_os \<Rightarrow> u32 \<Rightarrow> u32" where
  "event_int_flag os eflags =
     (if eflags = GPIOEVENT_REQUEST_BOTH_EDGES then GPIO_INT_EDGE_BOTH os
      else if has eflags GPIOEVENT_REQUEST_RISING_EDGE then GPIO_INT_EDGE_RISING os
      else if has eflags GPIOEVENT_REQUEST_FALLING_EDGE then GPIO_INT_EDGE_FALLING os
      else 0)"

definition gpio_event_open :: "('w, 'rb) gpio_os \<Rightarrow> ('w, 'rb) open_op" where
  "gpio_event_open os file_name s =
     (case gpio_line_event_find file_name s of
        None \<Rightarrow> Some (- EINVAL, None, s)
      | Some i \<Rightarrow>
          let event = gpio_line_event s ! i in
          case event_chip event of
            None \<Rightarrow> Some (- EINVAL, None, s)
          | Some c \<Rightarrow> do {
              ch \<leftarrow> load (gpio_devices s) c;
              let pin = lineoffset (event_req event);
              let int_flag = event_int_flag os (eventflags (event_req event));
              b \<leftarrow> BIT pin;
              let s = upd_event i (\<lambda>e. e\<lparr>rb := ring_buf_init os (GPIO_LINE_EVENT_DATA_MAX * sizeof_gpioevent_data),
                 cb_pins := b\<rparr>) s;
              let (ret, w) = gpio_pin_configure os (dev ch) pin (GPIO_INPUT os)
                 (k_poll_signal_init os i (world s));
              if ret \<noteq> 0 then Some (ret, None, s\<lparr>world := w\<rparr>)
              else do {
                let (ret, w) = gpio_pin_interrupt_configure os (dev ch) pin int_flag w;
                if ret \<noteq> 0 then Some (ret, None, s\<lparr>world := w\<rparr>)
                else Some (0, Some (FEvent i), upd_chip c (\<lambda>ch. ch\<lparr>pin_mask := pin_mask ch OR b\<rparr>)
                   (s\<lparr>world := gpio_add_callback os (dev ch) i w\<rparr>))
              }
            })"

definition gpio_event_close :: "('w, 'rb) gpio_os \<Rightarrow> nat \<Rightarrow> ('w, 'rb) gfs \<Rightarrow> (int \<times> ('w, 'rb) gfs) option" where
  "gpio_event_close os i s = do {
     event \<leftarrow> load (gpio_line_event s) i;
     c \<leftarrow> event_chip event;
     ch \<leftarrow> load (gpio_devices s) c;
     let pin = lineoffset (event_req event);
     b \<leftarrow> BIT pin;
     let (_, w) = gpio_pin_interrupt_configure os (dev ch) pin (GPIO_INT_DISABLE os) (world s);
     let w = gpio_remove_callback os (dev ch) i w;
     let w = k_poll_signal_reset os i w;
     let s = upd_chip c (\<lambda>ch. ch\<lparr>pin_mask := pin_mask ch AND NOT b\<rparr>) (s\<lparr>world := w\<rparr>);
     let s = upd_event i (\<lambda>e. e\<lparr>rb := ring_buf_reset os (rb e)\<rparr>) s;
     let s = gpio_line_event_free i s;
     let path = dev_path (event_name event);
     Some (0, s\<lparr>world := devfs_unregister_anon os path (world s)\<rparr>)
   }"

definition gpio_event_read :: "('w, 'rb) gpio_os \<Rightarrow> nat \<Rightarrow> nat \<Rightarrow> ('w, 'rb) gfs \<Rightarrow> (u8 list \<times> ('w, 'rb) gfs) option" where
  "gpio_event_read os i nbytes s = do {
     event \<leftarrow> load (gpio_line_event s) i;
     let (bs, rb') = ring_buf_get os (rb event) nbytes;
     Some (bs, upd_event i (\<lambda>e. e\<lparr>rb := rb'\<rparr>) s)
   }"

definition gpio_event_ioctl :: "('w, 'rb) gpio_os \<Rightarrow> nat \<Rightarrow> u32 \<Rightarrow> ioctl_arg \<Rightarrow> ('w, 'rb) gfs
    \<Rightarrow> (int \<times> ioctl_arg \<times> ('w, 'rb) gfs) option" where
  "gpio_event_ioctl os i request arg s =
     (if request = GPIOHANDLE_GET_LINE_VALUES_IOCTL then
        (case arg of HandleData vals \<Rightarrow> do {
           event \<leftarrow> load (gpio_line_event s) i;
           c \<leftarrow> event_chip event;
           ch \<leftarrow> load (gpio_devices s) c;
           let (v, w) = gpio_pin_get os (dev ch) (lineoffset (event_req event)) (world s);
           vals \<leftarrow> store vals 0 (word_of_int v);
           Some (0, HandleData vals, s\<lparr>world := w\<rparr>) }
         | _ \<Rightarrow> None)
      else if request = ZFD_IOCTL_POLL_PREPARE os then
        (case arg of PollArg a \<Rightarrow>
           if poll_events a AND ZVFS_POLLIN os = 0 then Some (0, arg, s)
           else if pev a = pev_end a then Some (- ENOMEM, arg, s)
           else do {
             slots \<leftarrow> store (pev_slots a) (pev a) (Event_signal i, K_POLL_STATE_NOT_READY);
             Some (0, PollArg (a\<lparr>pev_slots := slots, pev := pev a + 1\<rparr>), s)
           }
         | _ \<Rightarrow> None)
      else if request = ZFD_IOCTL_POLL_UPDATE os then
        (case arg of PollArg a \<Rightarrow>
           if poll_events a AND ZVFS_POLLIN os = 0 then Some (0, arg, s)
           else do {
             event \<leftarrow> load (gpio_line_event s) i;
             if ring_buf_size_get os (rb event) \<ge> sizeof_gpioevent_data then do {
               (obj, _) \<leftarrow> load (pev_slots a) (pev a);
               slots \<leftarrow> store (pev_slots a) (pev a) (obj, K_POLL_STATE_NOT_READY);
               Some (0, PollArg (a\<lparr>pev_slots := slots, pev := pev a + 1, poll_revents := ZVFS_POLLIN os\<rparr>),
                 s\<lparr>world := k_poll_signal_reset os i (world s)\<rparr>)
             }
             else Some (0, PollArg (a\<lparr>pev := pev a + 1\<rparr>), s)
           }
         | _ \<Rightarrow> None)
      else Some (- ENOTTY, arg, s))"

section \<open>Creating an event\<close>

definition event_flags_ok :: "u32 \<Rightarrow> u32 \<Rightarrow> bool" where
  "event_flags_ok lflags eflags =
     (if has lflags (NOT GPIOHANDLE_REQUEST_VALID_FLAGS) \<or> has eflags (NOT GPIOEVENT_REQUEST_VALID_FLAGS) then False
      else if has lflags GPIOHANDLE_REQUEST_OUTPUT \<or> has lflags GPIOHANDLE_REQUEST_OPEN_DRAIN \<or>
        has lflags GPIOHANDLE_REQUEST_OPEN_SOURCE then False
      else if (has lflags GPIOHANDLE_REQUEST_BIAS_DISABLE \<and>
          has lflags (GPIOHANDLE_REQUEST_BIAS_PULL_DOWN OR GPIOHANDLE_REQUEST_BIAS_PULL_UP)) \<or>
        (has lflags GPIOHANDLE_REQUEST_BIAS_PULL_DOWN \<and> has lflags GPIOHANDLE_REQUEST_BIAS_PULL_UP) then False
      else True)"

definition event_request_check :: "gpioevent_request \<Rightarrow> gpio_chip \<Rightarrow> bool option" where
  "event_request_check r ch =
     (if lineoffset r \<ge> pin_count ch then Some False
      else do {
        b \<leftarrow> BIT (lineoffset r);
        if has b (pin_mask ch) then Some False
        else Some (event_flags_ok (handleflags r) (eventflags r))
      })"

definition line_event_commit :: "('w, 'rb) gpio_os \<Rightarrow> gpioevent_request \<Rightarrow> nat \<Rightarrow> ('w, 'rb) gfs
    \<Rightarrow> (int \<times> gpioevent_request \<times> ('w, 'rb) gfs) option" where
  "line_event_commit os r c s =
     (case gpio_line_event_alloc s of
        None \<Rightarrow> Some (- ENOMEM, r, s)
      | Some i \<Rightarrow>
          let path = dev_path (event_name (gpio_line_event s ! i));
              (reg, w) = devfs_register_anon os path (world s);
              s = s\<lparr>world := w\<rparr> in
          if reg = 0 then do {
            let s = upd_event i (\<lambda>e. e\<lparr>event_chip := Some c, event_req := r\<rparr>) s;
            (fd', errno, s) \<leftarrow> open_file os path (gpio_event_open os) s;
            let r = r\<lparr>event_fd := fd'\<rparr>;
            let (res, s) = (if fd' < 0
              then (- errno, gpio_line_event_free i (s\<lparr>world := devfs_unregister_anon os path (world s)\<rparr>))
              else (1, s));
            Some (res, r, upd_event i (\<lambda>e. e\<lparr>event_req := (event_req e)\<lparr>event_fd := fd'\<rparr>\<rparr>) s)
          }
          else Some (0, r, gpio_line_event_free i s))"

definition gpio_line_event_create :: "('w, 'rb) gpio_os \<Rightarrow> gpioevent_request \<Rightarrow> nat \<Rightarrow> ('w, 'rb) gfs
    \<Rightarrow> (int \<times> gpioevent_request \<times> ('w, 'rb) gfs) option" where
  "gpio_line_event_create os r c s = do {
     ch \<leftarrow> load (gpio_devices s) c;
     ok \<leftarrow> event_request_check r ch;
     if \<not> ok then Some (- EINVAL, r, s) else line_event_commit os r c s
   }"

section \<open>The chip\<close>

definition gpio_chip_open :: "('w, 'rb) gpio_os \<Rightarrow> ('w, 'rb) open_op" where
  "gpio_chip_open os file_name s =
     (case gpio_chip_find file_name s of
        None \<Rightarrow> Some (- EINVAL, None, s)
      | Some c \<Rightarrow>
          if \<not> device_is_ready os (dev (gpio_devices s ! c)) (world s) then Some (- ENODEV, None, s)
          else Some (0, Some (FChip c), upd_chip c (\<lambda>ch. ch\<lparr>ref_cnt := ref_cnt ch + 1\<rparr>) s))"

text \<open>The second component is the file pointer afterwards.\<close>

definition gpio_chip_close :: "nat \<Rightarrow> ('w, 'rb) gfs \<Rightarrow> (int \<times> filep option \<times> ('w, 'rb) gfs) option" where
  "gpio_chip_close c s = do {
     _ \<leftarrow> load (gpio_devices s) c;
     let s = upd_chip c (\<lambda>ch. ch\<lparr>ref_cnt := ref_cnt ch - 1\<rparr>) s;
     Some (0, if ref_cnt (gpio_devices s ! c) = 0 then None else Some (FChip c), s)
   }"

definition strncpy :: "string \<Rightarrow> string \<Rightarrow> nat \<Rightarrow> string" where
  "strncpy dst src n = take n (src @ replicate n (CHR 0x00)) @ drop n dst"

definition get_chipinfo :: "gpio_chip \<Rightarrow> gpiochip_info \<Rightarrow> gpiochip_info" where
  "get_chipinfo ch info =
     info\<lparr>info_lines := pin_count ch,
       info_name := strncpy (info_name info) (dev_name ch) (GPIO_MAX_NAME_SIZE - 1),
       info_label := strncpy (info_label info) (label ch) (GPIO_MAX_NAME_SIZE - 1)\<rparr>"

definition get_lineinfo :: "gpio_chip \<Rightarrow> gpioline_info \<Rightarrow> (int \<times> gpioline_info) option" where
  "get_lineinfo ch info =
     (let off = line_offset info in
      if off \<ge> pin_count ch then Some (- EINVAL, info)
      else do {
        nm \<leftarrow> load (line_names ch) (unat off);
        let info = info\<lparr>line_name := (case nm of
            Some n \<Rightarrow> strncpy (line_name info) n (GPIO_MAX_NAME_SIZE - 1)
          | None \<Rightarrow> (line_name info)[0 := CHR 0x00])\<rparr>;
        Some (0, info\<lparr>consumer := strncpy (consumer info) ''zephyr-gpio'' (GPIO_MAX_NAME_SIZE - 1),
          info_flags := GPIOLINE_FLAG_KERNEL\<rparr>)
      })"

definition gpio_chip_ioctl :: "('w, 'rb) gpio_os \<Rightarrow> nat \<Rightarrow> u32 \<Rightarrow> ioctl_arg \<Rightarrow> ('w, 'rb) gfs
    \<Rightarrow> (int \<times> ioctl_arg \<times> ('w, 'rb) gfs) option" where
  "gpio_chip_ioctl os c request arg s = do {
     ch \<leftarrow> load (gpio_devices s) c;
     if request = GPIO_GET_CHIPINFO_IOCTL then
       (case arg of ChipInfo info \<Rightarrow> Some (0, ChipInfo (get_chipinfo ch info), s) | _ \<Rightarrow> None)
     else if request = GPIO_GET_LINEINFO_IOCTL then
       (case arg of LineInfo info \<Rightarrow> do {
          (res, info) \<leftarrow> get_lineinfo ch info;
          Some (res, LineInfo info, s) }
        | _ \<Rightarrow> None)
     else if request = GPIO_GET_LINEHANDLE_IOCTL then
       (case arg of HandleRequest r \<Rightarrow> do {
          (res, r, s) \<leftarrow> gpio_line_handle_create os r c s;
          Some (res, HandleRequest r, s) }
        | _ \<Rightarrow> None)
     else if request = GPIO_GET_LINEEVENT_IOCTL then
       (case arg of EventRequest r \<Rightarrow> do {
          (res, r, s) \<leftarrow> gpio_line_event_create os r c s;
          Some (res, EventRequest r, s) }
        | _ \<Rightarrow> None)
     else if request = F_GETFL os then Some (O_RDWR os, arg, s)
     else if request = F_SETFL os then Some (0, arg, s)
     else Some (- ENOTTY, arg, s)
   }"

section \<open>Initialisation\<close>

definition gpio_fs_init :: "('w, 'rb) gpio_os \<Rightarrow> ('w, 'rb) gfs \<Rightarrow> ('w, 'rb) gfs" where
  "gpio_fs_init os s =
     (let w = fold (\<lambda>ch. devfs_register os (dev_path (label ch))) (gpio_devices s) (world s)
      in gpio_line_event_init (gpio_line_handle_init (s\<lparr>world := w\<rparr>)))"

end
