(* ===== verification/Gpio_Own.thy ===== *)
theory Gpio_Own
  imports Gpio_Events
begin

text \<open>
  Who holds which pin. Every line handle and event in use \<open>owns\<close> pins of one chip; the invariant
  \<open>gfs_ok\<close> says that no pin has two owners and that a chip's \<open>pin_mask\<close> holds exactly the owned
  pins. Every operation keeps it and stays clear of undefined behaviour, as long as requests are
  not interleaved between their checks and their commit.
\<close>

section \<open>Lookup\<close>

lemma find_index_None: "find_index P xs = None \<longleftrightarrow> (\<forall>x\<in>set xs. \<not> P x)"
  by (induction xs) auto

lemma find_index_Some: "find_index P xs = Some i \<Longrightarrow> i < length xs \<and> P (xs ! i)"
  by (induction xs arbitrary: i) (auto split: if_splits simp: nth_Cons split: nat.splits)

lemma find_index_unique:
  "i < length xs \<Longrightarrow> P (xs ! i) \<Longrightarrow> (\<And>j. j < length xs \<Longrightarrow> P (xs ! j) \<Longrightarrow> j = i) \<Longrightarrow> find_index P xs = Some i"
proof (induction xs arbitrary: i)
  case (Cons x xs)
  show ?case
  proof (cases i)
    case 0
    with Cons.prems show ?thesis by simp
  next
    case (Suc k)
    have "\<not> P x" using Cons.prems(3) [of 0] Suc by auto
    moreover have "find_index P xs = Some k"
    proof (rule Cons.IH)
      show "k < length xs" "P (xs ! k)" using Cons.prems(1,2) Suc by auto
      show "j = k" if "j < length xs" "P (xs ! j)" for j
        using Cons.prems(3) [of "Suc j"] that Suc by simp
    qed
    ultimately show ?thesis using Suc by simp
  qed
qed simp

section \<open>Names\<close>

definition undecimal :: "string \<Rightarrow> nat" where
  "undecimal s = foldl (\<lambda>a c. 10 * a + (of_char c - 48)) 0 s"

lemma undecimal_decimal [simp]: "undecimal (decimal n) = n"
proof (induction n rule: decimal.induct)
  case (1 n)
  show ?case
  proof (cases "n < 10")
    case True
    then show ?thesis by (simp add: decimal.simps [of n] undecimal_def)
  next
    case False
    have "undecimal (decimal n) = 10 * undecimal (decimal (n div 10)) + n mod 10"
      using False by (simp add: decimal.simps [of n] undecimal_def)
    also have "\<dots> = n" using "1.IH" [OF False] by simp
    finally show ?thesis .
  qed
qed

lemma decimal_inject: "decimal m = decimal n \<longleftrightarrow> m = n"
  by (metis undecimal_decimal)

lemma length_decimal: "n < 100 \<Longrightarrow> length (decimal n) \<le> 2"
  by (auto simp: decimal.simps [of n] decimal.simps [of "n div 10"])

definition handle_label :: "nat \<Rightarrow> string" where "handle_label i = snprintf 8 (''line'' @ decimal i)"
definition event_label_of :: "nat \<Rightarrow> string" where "event_label_of i = snprintf 8 (''event'' @ decimal i)"

lemma labels_plain:
  "i < 100 \<Longrightarrow> handle_label i = ''line'' @ decimal i"
  "i < 100 \<Longrightarrow> event_label_of i = ''event'' @ decimal i"
  using length_decimal [of i] by (simp_all add: handle_label_def event_label_of_def snprintf_def)

lemma labels_inject [simp]:
  "i < 100 \<Longrightarrow> j < 100 \<Longrightarrow> handle_label i = handle_label j \<longleftrightarrow> i = j"
  "i < 100 \<Longrightarrow> j < 100 \<Longrightarrow> event_label_of i = event_label_of j \<longleftrightarrow> i = j"
  by (simp_all add: labels_plain decimal_inject)

lemma drop_dev_path: "length nm \<le> 25 \<Longrightarrow> drop 5 (dev_path nm) = nm"
  by (simp add: dev_path_def snprintf_def)

lemma labels_short [simp]: "length (handle_label i) \<le> 25" "length (event_label_of i) \<le> 25"
  by (simp_all add: handle_label_def event_label_of_def snprintf_def)

lemma path_labels [simp]:
  "drop 5 (dev_path (handle_label i)) = handle_label i"
  "drop 5 (dev_path (event_label_of i)) = event_label_of i"
  by (intro drop_dev_path labels_short)+

section \<open>Loops over the pins of a request\<close>

definition req_pins :: "gpiohandle_request \<Rightarrow> nat set" where
  "req_pins r = (\<lambda>i. unat (lineoffsets r ! i)) ` {..<unat (lines r)}"

text \<open>The arrays of a request have the length of their declaration.\<close>

definition wf_req :: "gpiohandle_request \<Rightarrow> bool" where
  "wf_req r \<longleftrightarrow> length (lineoffsets r) = GPIOHANDLES_MAX \<and> length (default_values r) = GPIOHANDLES_MAX"

definition req_fits :: "gpio_chip \<Rightarrow> gpiohandle_request \<Rightarrow> bool" where
  "req_fits ch r \<longleftrightarrow> wf_req r \<and> 0 < unat (lines r) \<and> unat (lines r) \<le> 32 \<and>
     (\<forall>p\<in>req_pins r. p < unat (pin_count ch))"

lemma BIT_Some: "unat n < 32 \<Longrightarrow> BIT n = Some (2 ^ unat n)"
  by (simp add: BIT_def)

lemma bit_power2 [simp]: "bit (2 ^ n :: u32) p \<longleftrightarrow> p = n \<and> p < 32"
  by (auto simp: bit_exp_iff)

lemma bit_u32_less: "bit (m :: u32) p \<Longrightarrow> p < 32"
  using bit_imp_le_length [of m p] by simp

lemma has_bit [simp]: "n < 32 \<Longrightarrow> 2 ^ n AND (v :: u32) = 0 \<longleftrightarrow> \<not> bit v n"
proof
  assume n: "n < 32" and "2 ^ n AND v = 0"
  then have "\<not> bit (2 ^ n AND v) n" by simp
  with n show "\<not> bit v n" by (simp add: bit_and_iff)
next
  assume "\<not> bit v n"
  then show "2 ^ n AND v = 0"
    by (intro bit_eqI) (auto simp: bit_and_iff)
qed

lemma has_bit' [simp]: "n < 32 \<Longrightarrow> (v :: u32) AND 2 ^ n = 0 \<longleftrightarrow> \<not> bit v n"
  using has_bit [of n v] by (simp add: and.commute)

lemma configure_pin_Some:
  "i < length offs \<Longrightarrow> i < length vals \<Longrightarrow> \<exists>w'. configure_pin os d fs offs vals i w = Some w'"
  by (auto simp: configure_pin_def split: prod.split)

lemma configure_pins_Some:
  "\<forall>i\<in>set is. i < length offs \<and> i < length vals \<Longrightarrow> \<exists>w'. configure_pins os d fs offs vals is w = Some w'"
proof (induction "is" arbitrary: w)
  case (Cons i "is")
  obtain w1 where "configure_pin os d fs offs vals i w = Some w1"
    using configure_pin_Some Cons.prems by (metis list.set_intros(1))
  then show ?case using Cons by simp
qed simp

lemma line_open_loop_Some:
  assumes "\<forall>i\<in>set js. i < length offs \<and> i < length vals \<and> unat (offs ! i) < 32"
  shows "\<exists>m' w'. line_open_loop os d fs offs vals js m w = Some (m', w') \<and>
    (\<forall>p. bit m' p \<longleftrightarrow> bit m p \<or> p \<in> (\<lambda>i. unat (offs ! i)) ` set js)"
  using assms
proof (induction js arbitrary: m w)
  case (Cons i js)
  obtain w1 where "configure_pin os d fs offs vals i w = Some w1"
    using configure_pin_Some Cons.prems by (metis list.set_intros(1))
  then show ?case
    using Cons.prems Cons.IH [of "m OR 2 ^ unat (offs ! i)" w1]
    by (auto simp: BIT_Some bit_or_iff)
qed simp

lemma line_close_loop_Some:
  assumes "\<forall>i\<in>set js. i < length offs \<and> unat (offs ! i) < 32"
  shows "\<exists>m' w'. line_close_loop os d offs js m w = Some (m', w') \<and>
    (\<forall>p. bit m' p \<longleftrightarrow> bit m p \<and> p \<notin> (\<lambda>i. unat (offs ! i)) ` set js)"
  using assms
proof (induction js arbitrary: m w)
  case (Cons i js)
  show ?case
    using Cons.prems Cons.IH [of "m AND NOT (2 ^ unat (offs ! i))"
      "snd (gpio_pin_configure os d (offs ! i) (GPIO_DISCONNECTED os) w)"]
    by (auto simp: BIT_Some bit_and_iff bit_not_iff dest: bit_u32_less split: prod.split)
qed simp


lemma set_values_loop_Some:
  "\<forall>i\<in>set js. i < length offs \<and> i < length vals \<Longrightarrow> \<exists>w'. set_values_loop os d offs vals js w = Some w'"
  by (induction js arbitrary: w) auto

lemma get_values_loop_Some:
  "\<forall>i\<in>set js. i < length offs \<and> i < length vals \<and> unat (offs ! i) < 32 \<Longrightarrow>
   \<exists>vals'. get_values_loop v offs js vals = Some vals' \<and> length vals' = length vals"
proof (induction js arbitrary: vals)
  case (Cons i js)
  then show ?case
    using Cons.IH [of "vals[i := 1]"] Cons.IH [of "vals[i := 0]"] by (auto simp: BIT_Some)
qed simp

lemma offsets_in_range_eq:
  "\<forall>i\<in>set js. i < length offs \<Longrightarrow>
   offsets_in_range offs n js = Some (\<forall>i\<in>set js. unat (offs ! i) < unat n)"
  by (induction js) (auto simp: word_le_nat_alt not_le)

lemma offsets_free_eq:
  "\<forall>i\<in>set js. i < length offs \<and> unat (offs ! i) < 32 \<Longrightarrow>
   offsets_free offs m js = Some (\<forall>i\<in>set js. \<not> bit m (unat (offs ! i)))"
  by (induction js) (auto simp: BIT_Some)

section \<open>The request checks\<close>

text \<open>The flags a request may have: input, or output with at most one of open drain and open source,
  each with or without active low, or no direction at all.\<close>

definition legal_line_flags :: "u32 set" where
  "legal_line_flags = {0, 1, 2, 4, 5, 6, 10, 14, 18, 22}"

lemma small_u32: "unat (f :: u32) < 32 \<Longrightarrow> (\<forall>k\<in>set [0..<32]. P (of_nat k :: u32)) \<Longrightarrow> P f"
proof -
  assume f: "unat f < 32" and all: "\<forall>k\<in>set [0..<32]. P (of_nat k)"
  from f have "unat f \<in> set [0..<32]" by simp
  with all have "P (of_nat (unat f))" by blast
  then show "P f" by simp
qed

lemma small_flags: "(f :: u32) AND NOT 0x1F = 0 \<longleftrightarrow> unat f < 32"
proof
  assume a: "f AND NOT 0x1F = 0"
  have "f = (f AND 0x1F) OR (f AND NOT 0x1F)" by (simp flip: bit.conj_disj_distrib)
  with a have "f = f AND 0x1F" by simp
  then have "f \<le> 0x1F" by (metis word_and_le1)
  then show "unat f < 32" by (simp add: word_le_nat_alt)
next
  assume "unat f < 32"
  moreover have "\<forall>k\<in>set [0..<32]. (of_nat k :: u32) AND NOT 0x1F = 0" by code_simp
  ultimately show "f AND NOT 0x1F = 0" by (rule small_u32)
qed

lemma VALID_FLAGS_value [simp]:
  "GPIOHANDLE_REQUEST_VALID_FLAGS = 0x1F" "GPIOEVENT_REQUEST_VALID_FLAGS = 0x3"
  by (simp_all add: GPIOHANDLE_REQUEST_VALID_FLAGS_def GPIOEVENT_REQUEST_VALID_FLAGS_def)

lemma line_flags_ok_iff: "line_flags_ok f \<longleftrightarrow> f \<in> legal_line_flags"
proof (cases "unat f < 32")
  case True
  moreover have "\<forall>k\<in>set [0..<32]. line_flags_ok (of_nat k) \<longleftrightarrow> of_nat k \<in> legal_line_flags" by code_simp
  ultimately show ?thesis by (rule small_u32)
next
  case False
  then have "\<not> line_flags_ok f" using small_flags [of f] by (simp add: line_flags_ok_def)
  moreover have "f \<notin> legal_line_flags" using False by (auto simp: legal_line_flags_def)
  ultimately show ?thesis by simp
qed

text \<open>What a request has to fulfil, as a predicate.\<close>

definition line_request_valid :: "gpiohandle_request \<Rightarrow> gpio_chip \<Rightarrow> bool" where
  "line_request_valid r ch \<longleftrightarrow>
     0 < unat (lines r) \<and> unat (lines r) \<le> unat (pin_count ch) \<and>
     (\<forall>p\<in>req_pins r. p < unat (pin_count ch) \<and> \<not> bit (pin_mask ch) p) \<and> flags r \<in> legal_line_flags"

lemma line_request_check_eq:
  assumes "wf_req r" "unat (pin_count ch) \<le> 32"
  shows "line_request_check r ch = Some (line_request_valid r ch)"
proof -
  let ?js = "line_indices r"
  have js: "set ?js = {..<unat (lines r)}" by (auto simp: line_indices_def)
  show ?thesis
  proof (cases "lines r = 0 \<or> lines r > pin_count ch")
    case True
    then show ?thesis
      by (auto simp: line_request_check_def line_request_valid_def word_less_nat_alt unat_eq_0)
  next
    case False
    then have n: "0 < unat (lines r)" "unat (lines r) \<le> unat (pin_count ch)"
      by (auto simp: word_less_nat_alt not_less unat_gt_0)
    have l: "\<forall>i\<in>set ?js. i < length (lineoffsets r)" using assms n js by (auto simp: wf_req_def)
    note r = offsets_in_range_eq [OF l, of "pin_count ch"]
    show ?thesis
    proof (cases "\<forall>i\<in>set ?js. unat (lineoffsets r ! i) < unat (pin_count ch)")
      case out: False
      then have "\<not> line_request_valid r ch" by (auto simp: line_request_valid_def req_pins_def js)
      moreover have "line_request_check r ch = Some False"
        using r False out unfolding line_request_check_def by (auto split: if_splits)
      ultimately show ?thesis by simp
    next
      case True
      then have "\<forall>i\<in>set ?js. i < length (lineoffsets r) \<and> unat (lineoffsets r ! i) < 32"
        using l assms by fastforce
      note f = offsets_free_eq [OF this, of "pin_mask ch"]
      show ?thesis
        using r f False True n unfolding line_request_check_def line_request_valid_def
        by (auto simp: req_pins_def js line_flags_ok_iff)
    qed
  qed
qed


text \<open>The same for an event: its handle flags are input and active low at most, any combination of the
  two edges will do, none included.\<close>

definition event_request_valid :: "gpioevent_request \<Rightarrow> gpio_chip \<Rightarrow> bool" where
  "event_request_valid r ch \<longleftrightarrow>
     unat (lineoffset r) < unat (pin_count ch) \<and> \<not> bit (pin_mask ch) (unat (lineoffset r)) \<and>
     handleflags r \<in> {0, 1, 4, 5} \<and> eventflags r \<in> {0, 1, 2, 3}"

lemma event_flags_ok_iff: "event_flags_ok lf ef \<longleftrightarrow> lf \<in> {0, 1, 4, 5} \<and> ef \<in> {0, 1, 2, 3}"
proof -
  define E where "E \<longleftrightarrow> ef AND NOT 3 = 0"
  have E: "E \<longleftrightarrow> ef \<in> {0, 1, 2, 3}"
  proof
    assume "E"
    have "ef = (ef AND 3) OR (ef AND NOT 3)" by (simp flip: bit.conj_disj_distrib)
    with \<open>E\<close> have "ef \<le> 3" unfolding E_def by (metis or.right_neutral word_and_le1)
    then have "unat ef < 32" "unat ef \<le> 3" by (simp_all add: word_le_nat_alt)
    moreover have "\<forall>k\<in>set [0..<32]. unat (of_nat k :: u32) \<le> 3 \<longrightarrow> (of_nat k :: u32) \<in> {0, 1, 2, 3}" by code_simp
    ultimately show "ef \<in> {0, 1, 2, 3}" using small_u32 [of ef "\<lambda>f. unat f \<le> 3 \<longrightarrow> f \<in> {0, 1, 2, 3}"] by blast
  qed (auto simp: E_def)
  show ?thesis
  proof (cases "unat lf < 32")
    case True
    moreover have "\<forall>k\<in>set [0..<32]. event_flags_ok (of_nat k) 0 \<longleftrightarrow> (of_nat k :: u32) \<in> {0, 1, 4, 5}" by code_simp
    ultimately have "event_flags_ok lf 0 \<longleftrightarrow> lf \<in> {0, 1, 4, 5}" by (rule small_u32)
    moreover have "event_flags_ok lf ef \<longleftrightarrow> event_flags_ok lf 0 \<and> E"
      by (simp add: event_flags_ok_def E_def)
    ultimately show ?thesis using E by simp
  next
    case False
    then have "\<not> event_flags_ok lf ef" using small_flags [of lf] by (simp add: event_flags_ok_def)
    moreover have "lf \<notin> {0, 1, 4, 5}" using False by auto
    ultimately show ?thesis by simp
  qed
qed

lemma event_request_check_eq:
  "unat (pin_count ch) \<le> 32 \<Longrightarrow> event_request_check r ch = Some (event_request_valid r ch)"
  by (auto simp: event_request_check_def event_request_valid_def word_le_nat_alt not_le BIT_Some event_flags_ok_iff)

section \<open>Ownership\<close>

fun owns :: "('w, 'rb) gfs \<Rightarrow> filep \<Rightarrow> nat \<Rightarrow> nat \<Rightarrow> bool" where
  "owns s (FLine i) c p \<longleftrightarrow> i < length (gpio_line_handle s) \<and>
     line_chip (gpio_line_handle s ! i) = Some c \<and> p \<in> req_pins (req (gpio_line_handle s ! i))"
| "owns s (FEvent i) c p \<longleftrightarrow> i < length (gpio_line_event s) \<and>
     event_chip (gpio_line_event s ! i) = Some c \<and> p = unat (lineoffset (event_req (gpio_line_event s ! i)))"
| "owns s (FChip _) c p \<longleftrightarrow> False"

definition chip_ok :: "gpio_chip \<Rightarrow> bool" where
  "chip_ok ch \<longleftrightarrow> unat (pin_count ch) \<le> 32 \<and> unat (pin_count ch) \<le> length (line_names ch)"

definition line_ok :: "gpio_chip list \<Rightarrow> gpio_line \<Rightarrow> bool" where
  "line_ok chips l \<longleftrightarrow> (\<forall>c. line_chip l = Some c \<longrightarrow> c < length chips \<and> req_fits (chips ! c) (req l))"

definition event_ok :: "gpio_chip list \<Rightarrow> 'rb gpio_event \<Rightarrow> bool" where
  "event_ok chips e \<longleftrightarrow> (\<forall>c. event_chip e = Some c \<longrightarrow>
     c < length chips \<and> unat (lineoffset (event_req e)) < unat (pin_count (chips ! c)))"

definition tables_ok :: "('w, 'rb) gfs \<Rightarrow> bool" where
  "tables_ok s \<longleftrightarrow>
     map handle_name (gpio_line_handle s) = map handle_label [0..<GPIO_LINE_HANDLE_MAX] \<and>
     map event_name (gpio_line_event s) = map event_label_of [0..<GPIO_LINE_EVENT_MAX] \<and>
     list_all chip_ok (gpio_devices s) \<and>
     list_all (line_ok (gpio_devices s)) (gpio_line_handle s) \<and>
     list_all (event_ok (gpio_devices s)) (gpio_line_event s)"

definition masked :: "('w, 'rb) gfs \<Rightarrow> nat \<Rightarrow> nat \<Rightarrow> bool" where
  "masked s c p \<longleftrightarrow> c < length (gpio_devices s) \<and> bit (pin_mask (gpio_devices s ! c)) p"

definition exclusive :: "('w, 'rb) gfs \<Rightarrow> bool" where
  "exclusive s \<longleftrightarrow> (\<forall>h h' c p. owns s h c p \<longrightarrow> owns s h' c p \<longrightarrow> h = h')"

definition mask_exact :: "('w, 'rb) gfs \<Rightarrow> bool" where
  "mask_exact s \<longleftrightarrow> (\<forall>c p. masked s c p \<longleftrightarrow> (\<exists>h. owns s h c p))"

definition gfs_ok :: "('w, 'rb) gfs \<Rightarrow> bool" where
  "gfs_ok s \<longleftrightarrow> tables_ok s \<and> exclusive s \<and> mask_exact s"

text \<open>Three ways in which an operation changes who owns what: not at all, a new owner takes free pins,
  an owner returns all of its pins.\<close>

definition same_owners :: "('w, 'rb) gfs \<Rightarrow> ('w, 'rb) gfs \<Rightarrow> bool" where
  "same_owners s s' \<longleftrightarrow> owns s' = owns s \<and> masked s' = masked s"

definition takes :: "filep \<Rightarrow> nat \<Rightarrow> nat set \<Rightarrow> ('w, 'rb) gfs \<Rightarrow> ('w, 'rb) gfs \<Rightarrow> bool" where
  "takes h c P s s' \<longleftrightarrow>
     (\<forall>c' p. \<not> owns s h c' p) \<and>
     (\<forall>h' c' p. owns s' h' c' p \<longleftrightarrow> owns s h' c' p \<or> h' = h \<and> c' = c \<and> p \<in> P) \<and>
     (\<forall>c' p. masked s' c' p \<longleftrightarrow> masked s c' p \<or> c' = c \<and> p \<in> P)"

definition returns :: "filep \<Rightarrow> ('w, 'rb) gfs \<Rightarrow> ('w, 'rb) gfs \<Rightarrow> bool" where
  "returns h s s' \<longleftrightarrow>
     (\<forall>h' c' p. owns s' h' c' p \<longleftrightarrow> owns s h' c' p \<and> h' \<noteq> h) \<and>
     (\<forall>c' p. masked s' c' p \<longleftrightarrow> masked s c' p \<and> \<not> owns s h c' p)"

lemma same_owners_ok: "gfs_ok s \<Longrightarrow> same_owners s s' \<Longrightarrow> tables_ok s' \<Longrightarrow> gfs_ok s'"
  by (simp add: gfs_ok_def same_owners_def exclusive_def mask_exact_def)

lemma takes_ok:
  assumes ok: "gfs_ok s" and t: "takes h c P s s'" and un: "\<forall>p\<in>P. \<not> masked s c p" and tab: "tables_ok s'"
  shows "gfs_ok s'"
proof -
  have m: "masked s c' p \<longleftrightarrow> (\<exists>h. owns s h c' p)" for c' p
    using ok by (simp add: gfs_ok_def mask_exact_def)
  have x: "h1 = h2" if "owns s h1 c' p" "owns s h2 c' p" for h1 h2 c' p
    using ok that by (simp add: gfs_ok_def exclusive_def)
  have o: "owns s' h' c' p \<longleftrightarrow> owns s h' c' p \<or> h' = h \<and> c' = c \<and> p \<in> P" for h' c' p
    using t by (simp add: takes_def)
  have k: "masked s' c' p \<longleftrightarrow> masked s c' p \<or> c' = c \<and> p \<in> P" for c' p
    using t by (simp add: takes_def)
  have free: "\<not> owns s h1 c p" if "p \<in> P" for h1 p
    using un that m by auto
  have "exclusive s'"
    unfolding exclusive_def o using x free by blast
  moreover have "mask_exact s'"
    unfolding mask_exact_def k o m by auto
  ultimately show ?thesis using tab by (simp add: gfs_ok_def)
qed

lemma returns_ok:
  assumes ok: "gfs_ok s" and t: "returns h s s'" and tab: "tables_ok s'"
  shows "gfs_ok s'"
proof -
  have m: "masked s c' p \<longleftrightarrow> (\<exists>h. owns s h c' p)" for c' p
    using ok by (simp add: gfs_ok_def mask_exact_def)
  have x: "h1 = h2" if "owns s h1 c' p" "owns s h2 c' p" for h1 h2 c' p
    using ok that by (simp add: gfs_ok_def exclusive_def)
  have o: "owns s' h' c' p \<longleftrightarrow> owns s h' c' p \<and> h' \<noteq> h" for h' c' p
    using t by (simp add: returns_def)
  have k: "masked s' c' p \<longleftrightarrow> masked s c' p \<and> \<not> owns s h c' p" for c' p
    using t by (simp add: returns_def)
  have "exclusive s'"
    unfolding exclusive_def o using x by blast
  moreover have "mask_exact s'"
    unfolding mask_exact_def k o m using x by metis
  ultimately show ?thesis using tab by (simp add: gfs_ok_def)
qed

text \<open>Taking and returning are inverse.\<close>

lemma takes_returns:
  assumes t: "takes h c P s s1" and un: "\<forall>p\<in>P. \<not> masked s c p" and r: "returns h s1 s2"
  shows "same_owners s s2"
proof -
  have n: "\<not> owns s h c' p" for c' p using t by (simp add: takes_def)
  have o: "owns s2 h' c' p \<longleftrightarrow> owns s h' c' p" for h' c' p
    using t r n by (auto simp: takes_def returns_def)
  have "masked s2 c' p \<longleftrightarrow> masked s c' p" for c' p
    using t r n un by (auto simp: takes_def returns_def)
  with o show ?thesis by (simp add: same_owners_def fun_eq_iff)
qed


section \<open>Effect of the updates\<close>

lemma owns_world [simp]: "owns (s\<lparr>world := w\<rparr>) h c p \<longleftrightarrow> owns s h c p"
  by (cases h) auto

lemma masked_world [simp]: "masked (s\<lparr>world := w\<rparr>) c p \<longleftrightarrow> masked s c p"
  by (simp add: masked_def)

lemma tables_ok_world [simp]: "tables_ok (s\<lparr>world := w\<rparr>) \<longleftrightarrow> tables_ok s"
  by (simp add: tables_ok_def)

lemma upd_fields [simp]:
  "gpio_devices (upd_line i f s) = gpio_devices s"
  "gpio_line_event (upd_line i f s) = gpio_line_event s"
  "world (upd_line i f s) = world s"
  "gpio_devices (upd_event i g s) = gpio_devices s"
  "gpio_line_handle (upd_event i g s) = gpio_line_handle s"
  "world (upd_event i g s) = world s"
  "gpio_line_handle (upd_chip c k s) = gpio_line_handle s"
  "gpio_line_event (upd_chip c k s) = gpio_line_event s"
  "world (upd_chip c k s) = world s"
  "gpio_line_handle (upd_line i f s) = (gpio_line_handle s)[i := f (gpio_line_handle s ! i)]"
  "gpio_line_event (upd_event i g s) = (gpio_line_event s)[i := g (gpio_line_event s ! i)]"
  "gpio_devices (upd_chip c k s) = (gpio_devices s)[c := k (gpio_devices s ! c)]"
  by (simp_all add: upd_line_def upd_event_def upd_chip_def)

lemma upd_world [simp]:
  "(upd_line i f s)\<lparr>world := w\<rparr> = upd_line i f (s\<lparr>world := w\<rparr>)"
  "(upd_event i g s)\<lparr>world := w\<rparr> = upd_event i g (s\<lparr>world := w\<rparr>)"
  "(upd_chip c k s)\<lparr>world := w\<rparr> = upd_chip c k (s\<lparr>world := w\<rparr>)"
  by (simp_all add: upd_line_def upd_event_def upd_chip_def)

lemma tables_length:
  assumes "tables_ok s"
  shows "length (gpio_line_handle s) = 64" "length (gpio_line_event s) = 64"
  using assms unfolding tables_ok_def by (metis length_map length_upt diff_zero)+

lemma tables_name:
  assumes "tables_ok s" "i < 64"
  shows "handle_name (gpio_line_handle s ! i) = handle_label i"
    "event_name (gpio_line_event s ! i) = event_label_of i"
proof -
  have "map handle_name (gpio_line_handle s) ! i = map handle_label [0..<64] ! i"
    "map event_name (gpio_line_event s) ! i = map event_label_of [0..<64] ! i"
    using assms unfolding tables_ok_def by simp_all
  then show "handle_name (gpio_line_handle s ! i) = handle_label i"
    "event_name (gpio_line_event s ! i) = event_label_of i"
    using assms tables_length [OF assms(1)] by (simp_all add: nth_map)
qed

lemma tables_line:
  assumes "tables_ok s"
  shows "i < 64 \<Longrightarrow> line_ok (gpio_devices s) (gpio_line_handle s ! i)"
    "i < 64 \<Longrightarrow> event_ok (gpio_devices s) (gpio_line_event s ! i)"
    "c < length (gpio_devices s) \<Longrightarrow> chip_ok (gpio_devices s ! c)"
  using assms tables_length [OF assms] by (simp_all add: tables_ok_def list_all_length)

lemma map_update_same: "g (f (xs ! i)) = g (xs ! i) \<Longrightarrow> map g (xs[i := f (xs ! i)]) = map g xs"
  by (cases "i < length xs") (simp_all add: map_update list_update_same_conv list_update_beyond)

lemma list_all_update: "list_all P xs \<Longrightarrow> P v \<Longrightarrow> list_all P (xs[i := v])"
  using set_update_subset_insert [of xs i v] by (auto simp: list_all_iff)

lemma tables_ok_line:
  assumes "tables_ok s" "handle_name (f (gpio_line_handle s ! i)) = handle_name (gpio_line_handle s ! i)"
    "line_ok (gpio_devices s) (f (gpio_line_handle s ! i))"
  shows "tables_ok (upd_line i f s)"
  using assms unfolding tables_ok_def upd_fields by (simp only: map_update_same list_all_update simp_thms)

lemma tables_ok_event:
  assumes "tables_ok s" "event_name (f (gpio_line_event s ! i)) = event_name (gpio_line_event s ! i)"
    "event_ok (gpio_devices s) (f (gpio_line_event s ! i))"
  shows "tables_ok (upd_event i f s)"
  using assms unfolding tables_ok_def upd_fields by (simp only: map_update_same list_all_update simp_thms)

lemma tables_ok_chip:
  assumes "tables_ok s" "pin_count (f (gpio_devices s ! c)) = pin_count (gpio_devices s ! c)"
    "line_names (f (gpio_devices s ! c)) = line_names (gpio_devices s ! c)"
  shows "tables_ok (upd_chip c f s)"
proof -
  let ?d = "(gpio_devices s)[c := f (gpio_devices s ! c)]"
  have pc: "pin_count (?d ! k) = pin_count (gpio_devices s ! k) \<and>
    line_names (?d ! k) = line_names (gpio_devices s ! k)" for k
  proof (cases "k = c \<and> c < length (gpio_devices s)")
    case False
    then have "?d ! k = gpio_devices s ! k" by (cases "k = c") (auto simp: list_update_beyond)
    then show ?thesis by simp
  qed (use assms in simp)
  have "line_ok ?d = line_ok (gpio_devices s)"
    by (simp add: fun_eq_iff line_ok_def req_fits_def pc)
  moreover have "(event_ok ?d :: 'b gpio_event \<Rightarrow> bool) = event_ok (gpio_devices s)"
    by (simp add: fun_eq_iff event_ok_def pc)
  moreover have "list_all chip_ok ?d = list_all chip_ok (gpio_devices s)"
    by (simp add: list_all_length chip_ok_def pc)
  ultimately show ?thesis using assms(1) unfolding tables_ok_def upd_fields by simp
qed

lemma owns_upd_line:
  "owns (upd_line i f s) h c p \<longleftrightarrow>
     (if h = FLine i then i < length (gpio_line_handle s) \<and> line_chip (f (gpio_line_handle s ! i)) = Some c \<and>
        p \<in> req_pins (req (f (gpio_line_handle s ! i)))
      else owns s h c p)"
  by (cases h) auto

lemma owns_upd_event:
  "owns (upd_event i f s) h c p \<longleftrightarrow>
     (if h = FEvent i then i < length (gpio_line_event s) \<and> event_chip (f (gpio_line_event s ! i)) = Some c \<and>
        p = unat (lineoffset (event_req (f (gpio_line_event s ! i))))
      else owns s h c p)"
  by (cases h) auto

lemma owns_upd_chip [simp]: "owns (upd_chip c f s) h c' p \<longleftrightarrow> owns s h c' p"
  by (cases h) auto

lemma masked_upd_line [simp]:
  "masked (upd_line i f s) c p \<longleftrightarrow> masked s c p"
  "masked (upd_event i g s) c p \<longleftrightarrow> masked s c p"
  by (simp_all add: masked_def)

lemma masked_upd_chip:
  "masked (upd_chip c f s) c' p \<longleftrightarrow>
     (if c' = c then c < length (gpio_devices s) \<and> bit (pin_mask (f (gpio_devices s ! c))) p else masked s c' p)"
  by (auto simp: masked_def)

end
