(* ===== verification/Gpio_Steps.thy ===== *)
theory Gpio_Steps
  imports Gpio_Own
begin

text \<open>
  Every operation of the GPIO file system against the ownership invariant: a step relation over the
  calls of its clients and the interrupts, whose reachable states satisfy \<open>gfs_ok\<close>, and the
  properties of single operations.
\<close>

section \<open>Line handles\<close>

lemma line_handle_find_label:
  assumes "tables_ok s" "i < 64"
  shows "gpio_line_handle_find (handle_label i) s = Some i"
  unfolding gpio_line_handle_find_def
proof (rule find_index_unique)
  show "i < length (gpio_line_handle s)" using assms tables_length [OF assms(1)] by simp
  show "handle_label i = handle_name (gpio_line_handle s ! i)" using assms by (simp add: tables_name)
  show "j = i" if "j < length (gpio_line_handle s)" "handle_label i = handle_name (gpio_line_handle s ! j)" for j
    using that assms tables_length [OF assms(1)] by (simp add: tables_name)
qed

lemma event_find_label:
  assumes "tables_ok s" "i < 64"
  shows "gpio_line_event_find (event_label_of i) s = Some i"
  unfolding gpio_line_event_find_def
proof (rule find_index_unique)
  show "i < length (gpio_line_event s)" using assms tables_length [OF assms(1)] by simp
  show "event_label_of i = event_name (gpio_line_event s ! i)" using assms by (simp add: tables_name)
  show "j = i" if "j < length (gpio_line_event s)" "event_label_of i = event_name (gpio_line_event s ! j)" for j
    using that assms tables_length [OF assms(1)] by (simp add: tables_name)
qed

lemma set_line_indices [simp]: "set (line_indices r) = {..<unat (lines r)}"
  by (auto simp: line_indices_def)

text \<open>What a line handle in use guarantees about the indices of its loops.\<close>

lemma line_in_use:
  assumes "tables_ok s" "i < 64" "line_chip (gpio_line_handle s ! i) = Some c"
  shows "c < length (gpio_devices s)" "wf_req (req (gpio_line_handle s ! i))"
    "unat (lines (req (gpio_line_handle s ! i))) \<le> 32"
    "\<forall>k<unat (lines (req (gpio_line_handle s ! i))).
       unat (lineoffsets (req (gpio_line_handle s ! i)) ! k) < 32"
proof -
  have l: "c < length (gpio_devices s)" "req_fits (gpio_devices s ! c) (req (gpio_line_handle s ! i))"
    using tables_line(1) [OF assms(1,2)] assms(3) by (simp_all add: line_ok_def)
  then show "c < length (gpio_devices s)" "wf_req (req (gpio_line_handle s ! i))"
    "unat (lines (req (gpio_line_handle s ! i))) \<le> 32"
    by (simp_all add: req_fits_def)
  have "unat (pin_count (gpio_devices s ! c)) \<le> 32"
    using tables_line(3) [OF assms(1) l(1)] by (simp add: chip_ok_def)
  with l(2) show "\<forall>k<unat (lines (req (gpio_line_handle s ! i))).
       unat (lineoffsets (req (gpio_line_handle s ! i)) ! k) < 32"
    by (force simp: req_fits_def req_pins_def)
qed

lemma gpio_line_open_runs:
  assumes "tables_ok s" "i < 64" "line_chip (gpio_line_handle s ! i) = Some c"
  shows "\<exists>m w. gpio_line_open os (handle_label i) s =
      Some (0, Some (FLine i), upd_chip c (\<lambda>ch. ch\<lparr>pin_mask := m\<rparr>) (s\<lparr>world := w\<rparr>)) \<and>
    (\<forall>p. bit m p \<longleftrightarrow> bit (pin_mask (gpio_devices s ! c)) p \<or> p \<in> req_pins (req (gpio_line_handle s ! i)))"
proof -
  let ?r = "req (gpio_line_handle s ! i)" and ?ch = "gpio_devices s ! c"
  note u = line_in_use [OF assms]
  have "\<forall>k\<in>set (line_indices ?r). k < length (lineoffsets ?r) \<and> k < length (default_values ?r) \<and>
      unat (lineoffsets ?r ! k) < 32"
    using u by (auto simp: wf_req_def)
  from line_open_loop_Some [OF this, of os "dev ?ch" "req_flag_2_gpio_flag os (flags ?r)" "pin_mask ?ch" "world s"]
  obtain m w where "line_open_loop os (dev ?ch) (req_flag_2_gpio_flag os (flags ?r)) (lineoffsets ?r)
      (default_values ?r) (line_indices ?r) (pin_mask ?ch) (world s) = Some (m, w)"
    "\<forall>p. bit m p \<longleftrightarrow> bit (pin_mask ?ch) p \<or> p \<in> req_pins ?r"
    by (auto simp: req_pins_def)
  then show ?thesis
    using assms u(1) by (intro exI [of _ m] exI [of _ w]) (simp add: gpio_line_open_def line_handle_find_label)
qed

lemma gpio_line_close_runs:
  assumes "tables_ok s" "i < 64" "line_chip (gpio_line_handle s ! i) = Some c"
  shows "\<exists>m w. gpio_line_close os i s =
      Some (0, gpio_line_handle_free i (upd_chip c (\<lambda>ch. ch\<lparr>pin_mask := m\<rparr>) (s\<lparr>world := w\<rparr>))) \<and>
    (\<forall>p. bit m p \<longleftrightarrow> bit (pin_mask (gpio_devices s ! c)) p \<and> p \<notin> req_pins (req (gpio_line_handle s ! i)))"
proof -
  let ?r = "req (gpio_line_handle s ! i)" and ?ch = "gpio_devices s ! c"
  note u = line_in_use [OF assms]
  have "\<forall>k\<in>set (line_indices ?r). k < length (lineoffsets ?r) \<and> unat (lineoffsets ?r ! k) < 32"
    using u by (auto simp: wf_req_def)
  from line_close_loop_Some [OF this, of os "dev ?ch" "pin_mask ?ch" "world s"]
  obtain m w where "line_close_loop os (dev ?ch) (lineoffsets ?r) (line_indices ?r) (pin_mask ?ch) (world s) = Some (m, w)"
    "\<forall>p. bit m p \<longleftrightarrow> bit (pin_mask ?ch) p \<and> p \<notin> req_pins ?r"
    by (auto simp: req_pins_def)
  then show ?thesis
    using assms u(1) tables_length [OF assms(1)] by (auto simp: gpio_line_close_def Let_def)
qed

text \<open>Freeing a handle that owns nothing, and the error paths of a request.\<close>

lemma owns_line_free:
  "line_chip (gpio_line_handle s ! i) = None \<Longrightarrow> \<not> owns s (FLine i) c p"
  "event_chip (gpio_line_event s ! i) = None \<Longrightarrow> \<not> owns s (FEvent i) c p"
  by auto

lemma idle_line:
  assumes "tables_ok s" "i < 64" "line_chip (gpio_line_handle s ! i) = None"
    "line_chip (f (gpio_line_handle s ! i)) = None"
    "handle_name (f (gpio_line_handle s ! i)) = handle_name (gpio_line_handle s ! i)"
  shows "tables_ok (upd_line i f s) \<and> same_owners s (upd_line i f s)"
proof
  show "tables_ok (upd_line i f s)"
    using assms by (intro tables_ok_line) (simp_all add: line_ok_def)
  show "same_owners s (upd_line i f s)"
    using assms(3,4) by (auto simp: same_owners_def fun_eq_iff owns_upd_line)
qed

lemma idle_event:
  assumes "tables_ok s" "i < 64" "event_chip (gpio_line_event s ! i) = None"
    "event_chip (f (gpio_line_event s ! i)) = None"
    "event_name (f (gpio_line_event s ! i)) = event_name (gpio_line_event s ! i)"
  shows "tables_ok (upd_event i f s) \<and> same_owners s (upd_event i f s)"
proof
  show "tables_ok (upd_event i f s)"
    using assms by (intro tables_ok_event) (simp_all add: event_ok_def)
  show "same_owners s (upd_event i f s)"
    using assms(3,4) by (auto simp: same_owners_def fun_eq_iff owns_upd_event)
qed

lemma same_owners_world [simp]: "same_owners s (s'\<lparr>world := w\<rparr>) \<longleftrightarrow> same_owners s s'"
  "same_owners (s\<lparr>world := w\<rparr>) s' \<longleftrightarrow> same_owners s s'"
  by (simp_all add: same_owners_def fun_eq_iff)

lemma same_owners_refl [simp]: "same_owners s s"
  by (simp add: same_owners_def)

lemma line_handle_alloc_Some:
  assumes "gpio_line_handle_alloc s = Some i" "tables_ok s"
  shows "i < 64" "line_chip (gpio_line_handle s ! i) = None"
  using assms find_index_Some tables_length [OF assms(2)] unfolding gpio_line_handle_alloc_def by fastforce+

lemma event_alloc_Some:
  assumes "gpio_line_event_alloc s = Some i" "tables_ok s"
  shows "i < 64" "event_chip (gpio_line_event s ! i) = None"
  using assms find_index_Some tables_length [OF assms(2)] unfolding gpio_line_event_alloc_def by fastforce+


text \<open>The state after a path of the device file system has been opened.\<close>

lemma open_lawsE:
  assumes "open_laws os"
  obtains (unreached) fd' errno w where "fd' < 0" "0 < errno" "open_file os path drv s = Some (fd', errno, s\<lparr>world := w\<rparr>)"
  | (undefined) w where "drv (drop 5 path) (s\<lparr>world := w\<rparr>) = None" "open_file os path drv s = None"
  | (failed) w rc fp s1 fd' errno w1 where
      "drv (drop 5 path) (s\<lparr>world := w\<rparr>) = Some (rc, fp, s1)" "rc \<noteq> 0"
      "fd' < 0" "0 < errno" "open_file os path drv s = Some (fd', errno, s1\<lparr>world := w1\<rparr>)"
  | (opened) w fp s1 fd' errno w1 where
      "drv (drop 5 path) (s\<lparr>world := w\<rparr>) = Some (0, fp, s1)"
      "0 \<le> fd'" "open_file os path drv s = Some (fd', errno, s1\<lparr>world := w1\<rparr>)"
proof -
  consider (a) "\<exists>fd errno w. fd < 0 \<and> 0 < errno \<and> open_file os path drv s = Some (fd, errno, s\<lparr>world := w\<rparr>)"
    | (b) w where "case drv (drop 5 path) (s\<lparr>world := w\<rparr>) of
        None \<Rightarrow> open_file os path drv s = None
      | Some (rc, _, s1) \<Rightarrow> (\<exists>fd errno w1. open_file os path drv s = Some (fd, errno, s1\<lparr>world := w1\<rparr>) \<and>
           (if rc = 0 then 0 \<le> fd else fd < 0 \<and> 0 < errno))"
    using assms unfolding open_laws_def by meson
  then show thesis
  proof cases
    case a
    then show thesis using unreached by blast
  next
    case b
    show thesis
    proof (cases "drv (drop 5 path) (s\<lparr>world := w\<rparr>)")
      case None
      with b show thesis using undefined [of w] by simp
    next
      case (Some a)
      obtain rc fp s1 where a: "a = (rc, fp, s1)" by (cases a)
      from b Some a obtain fd' errno w1 where o: "open_file os path drv s = Some (fd', errno, s1\<lparr>world := w1\<rparr>)"
        and r: "if rc = 0 then 0 \<le> fd' else fd' < 0 \<and> 0 < errno" by auto
      show thesis
      proof (cases "rc = 0")
        case True
        then show thesis using opened [of w fp s1 fd' errno w1] Some a o r by simp
      next
        case False
        then show thesis using failed [of w rc fp s1 fd' errno w1] Some a o r by simp
      qed
    qed
  qed
qed

lemma upd_line_twice:
  "i < length (gpio_line_handle s) \<Longrightarrow> upd_line i f (upd_line i g s) = upd_line i (\<lambda>l. f (g l)) s"
  by (simp add: upd_line_def)

lemma upd_event_twice:
  "i < length (gpio_line_event s) \<Longrightarrow> upd_event i f (upd_event i g s) = upd_event i (\<lambda>e. f (g e)) s"
  by (simp add: upd_event_def)

lemma world_twice [simp]: "(s\<lparr>world := w\<rparr>)\<lparr>world := w'\<rparr> = (s :: ('w, 'rb) gfs)\<lparr>world := w'\<rparr>"
  by simp

lemma masked_mask: "c < length (gpio_devices s) \<Longrightarrow> masked s c p \<longleftrightarrow> bit (pin_mask (gpio_devices s ! c)) p"
  by (simp add: masked_def)

text \<open>What remains of a commit in each case: the handle as it was, or the new owner.\<close>

lemma line_handle_commit_runs:
  assumes ok: "tables_ok s" and os: "open_laws os" and c: "c < length (gpio_devices s)"
    and r: "req_fits (gpio_devices s ! c) r"
  shows "\<exists>res r' s'. line_handle_commit os r c s = Some (res, r', s') \<and> tables_ok s' \<and>
    map pin_count (gpio_devices s') = map pin_count (gpio_devices s) \<and>
    (res \<le> 0 \<and> same_owners s s' \<or>
     res = 1 \<and> 0 \<le> fd r' \<and> r' = r\<lparr>fd := fd r'\<rparr> \<and>
     (\<exists>i<64. gpio_line_handle_alloc s = Some i \<and> takes (FLine i) c (req_pins r) s s'))"
proof (cases "gpio_line_handle_alloc s")
  case None
  then show ?thesis using ok by (simp add: line_handle_commit_def)
next
  case (Some i)
  note i = line_handle_alloc_Some [OF Some ok]
  let ?path = "dev_path (handle_label i)"
  obtain reg w where reg: "devfs_register_anon os ?path (world s) = (reg, w)" by fastforce
  show ?thesis
  proof (cases "reg = 0")
    case False
    have "tables_ok (gpio_line_handle_free i (s\<lparr>world := w\<rparr>)) \<and>
        same_owners (s\<lparr>world := w\<rparr>) (gpio_line_handle_free i (s\<lparr>world := w\<rparr>))"
      unfolding gpio_line_handle_free_def by (rule idle_line) (use ok i in simp_all)
    then show ?thesis
      using False Some i ok reg by (simp add: line_handle_commit_def tables_name gpio_line_handle_free_def)
  next
    case True
    define s0 where "s0 = upd_line i (\<lambda>l. l\<lparr>line_chip := Some c, req := r\<rparr>) (s\<lparr>world := w\<rparr>)"
    have ok0: "tables_ok s0"
      unfolding s0_def by (rule tables_ok_line) (use ok c r in \<open>simp_all add: line_ok_def\<close>)
    have l0: "gpio_line_handle s0 ! i = (gpio_line_handle s ! i)\<lparr>line_chip := Some c, req := r\<rparr>"
      using i tables_length [OF ok] by (simp add: s0_def)
    have run: "line_handle_commit os r c s = (case open_file os ?path (gpio_line_open os) s0 of
        None \<Rightarrow> None
      | Some (fd', errno, s) \<Rightarrow> Some (if fd' < 0 then - errno else 1, r\<lparr>fd := fd'\<rparr>,
          upd_line i (\<lambda>l. l\<lparr>req := (req l)\<lparr>fd := fd'\<rparr>\<rparr>) (if fd' < 0
            then gpio_line_handle_free i (s\<lparr>world := devfs_unregister_anon os ?path (world s)\<rparr>) else s)))"
      using True Some i ok reg
      by (auto simp: line_handle_commit_def tables_name s0_def Let_def split: option.split)
    show ?thesis
    proof (cases rule: open_lawsE [OF os, of ?path "gpio_line_open os" s0])
      case (1 fd' errno w1)
      let ?f = "\<lambda>l. l\<lparr>line_chip := None, req := r\<lparr>fd := fd'\<rparr>\<rparr>"
      let ?s = "s\<lparr>world := devfs_unregister_anon os ?path w1\<rparr>"
      have "tables_ok (upd_line i ?f ?s) \<and> same_owners ?s (upd_line i ?f ?s)"
        by (rule idle_line) (use ok i in simp_all)
      moreover have "line_handle_commit os r c s = Some (- errno, r\<lparr>fd := fd'\<rparr>, upd_line i ?f ?s)"
        unfolding run using 1 i tables_length [OF ok]
        by (simp add: gpio_line_handle_free_def s0_def upd_line_twice)
      ultimately show ?thesis using 1 by simp
    next
      case (2 w1)
      from gpio_line_open_runs [of "s0\<lparr>world := w1\<rparr>" i c os] ok0 i l0 2 show ?thesis by auto
    next
      case (3 w1 rc fp s1 fd' errno w2)
      from gpio_line_open_runs [of "s0\<lparr>world := w1\<rparr>" i c os] ok0 i l0 3 show ?thesis by auto
    next
      case (4 w1 fp s1 fd' errno w2)
      from gpio_line_open_runs [of "s0\<lparr>world := w1\<rparr>" i c os] ok0 i l0 4 obtain m w3 where
        s1: "s1 = upd_chip c (\<lambda>ch. ch\<lparr>pin_mask := m\<rparr>) (s0\<lparr>world := w3\<rparr>)"
        and m: "\<forall>p. bit m p \<longleftrightarrow> bit (pin_mask (gpio_devices s0 ! c)) p \<or> p \<in> req_pins r"
        by auto
      let ?s' = "upd_line i (\<lambda>l. l\<lparr>req := (req l)\<lparr>fd := fd'\<rparr>\<rparr>) (s1\<lparr>world := w2\<rparr>)"
      have commit: "line_handle_commit os r c s = Some (1, r\<lparr>fd := fd'\<rparr>, ?s')"
        unfolding run using 4 by simp
      have ok1: "tables_ok s1" unfolding s1 by (rule tables_ok_chip) (use ok0 in simp_all)
      have l1: "gpio_line_handle s1 ! i = (gpio_line_handle s ! i)\<lparr>line_chip := Some c, req := r\<rparr>"
        by (simp add: s1 l0)
      have "tables_ok ?s'"
        by (rule tables_ok_line) (use ok1 tables_line(1) [OF ok1 i(1)] in
            \<open>simp_all add: line_ok_def req_fits_def wf_req_def req_pins_def\<close>)
      moreover have "takes (FLine i) c (req_pins r) s ?s'"
        unfolding takes_def
        using i c tables_length [OF ok] m
        by (auto simp: owns_upd_line l1 s1 s0_def masked_upd_chip req_pins_def masked_mask [OF c])
      moreover have "map pin_count (gpio_devices ?s') = map pin_count (gpio_devices s)"
        by (simp add: s1 s0_def map_update_same)
      ultimately show ?thesis
        using commit 4 Some i by (intro exI [of _ 1] exI [of _ "r\<lparr>fd := fd'\<rparr>"] exI [of _ ?s']) simp
    qed
  qed
qed


lemma pins_unmasked: "c < length (gpio_devices s) \<Longrightarrow> line_request_valid r (gpio_devices s ! c) \<Longrightarrow>
   p \<in> req_pins r \<Longrightarrow> \<not> masked s c p"
  by (simp add: line_request_valid_def masked_def)

lemma valid_fits: "wf_req r \<Longrightarrow> chip_ok ch \<Longrightarrow> line_request_valid r ch \<Longrightarrow> req_fits ch r"
  by (auto simp: line_request_valid_def req_fits_def chip_ok_def)

text \<open>Requesting a line handle, with its checks.\<close>

lemma gpio_line_handle_create_runs:
  assumes ok: "gfs_ok s" and os: "open_laws os" and c: "c < length (gpio_devices s)" and r: "wf_req r"
  shows "\<exists>res r' s'. gpio_line_handle_create os r c s = Some (res, r', s') \<and> gfs_ok s' \<and>
    (res \<le> 0 \<and> same_owners s s' \<or>
     res = 1 \<and> line_request_valid r (gpio_devices s ! c) \<and> 0 \<le> fd r' \<and>
     (\<exists>i<64. gpio_line_handle_alloc s = Some i \<and> takes (FLine i) c (req_pins r) s s'))"
proof -
  let ?ch = "gpio_devices s ! c"
  have tab: "tables_ok s" using ok by (simp add: gfs_ok_def)
  have ch: "chip_ok ?ch" by (rule tables_line(3) [OF tab c])
  have check: "line_request_check r ?ch = Some (line_request_valid r ?ch)"
    using r ch by (intro line_request_check_eq) (simp_all add: chip_ok_def)
  show ?thesis
  proof (cases "line_request_valid r ?ch")
    case False
    then show ?thesis using c check ok by (simp add: gpio_line_handle_create_def)
  next
    case True
    from line_handle_commit_runs [OF tab os c valid_fits [OF r ch True]] obtain res r' s' where
      run: "line_handle_commit os r c s = Some (res, r', s')" and tab': "tables_ok s'" and
      cases: "res \<le> 0 \<and> same_owners s s' \<or> res = 1 \<and> 0 \<le> fd r' \<and> r' = r\<lparr>fd := fd r'\<rparr> \<and>
        (\<exists>i<64. gpio_line_handle_alloc s = Some i \<and> takes (FLine i) c (req_pins r) s s')"
      by blast
    have "gfs_ok s'"
      using cases same_owners_ok [OF ok _ tab'] takes_ok [OF ok _ _ tab'] pins_unmasked [OF c True] by blast
    then show ?thesis
      using run cases c check True by (auto simp: gpio_line_handle_create_def)
  qed
qed

lemma gpio_line_close_returns:
  assumes ok: "gfs_ok s" and i: "i < 64" and used: "line_chip (gpio_line_handle s ! i) = Some c"
  shows "\<exists>s'. gpio_line_close os i s = Some (0, s') \<and> gfs_ok s' \<and> returns (FLine i) s s' \<and>
    line_chip (gpio_line_handle s' ! i) = None"
proof -
  have tab: "tables_ok s" using ok by (simp add: gfs_ok_def)
  from gpio_line_close_runs [OF tab i used] obtain m w where
    run: "gpio_line_close os i s = Some (0, gpio_line_handle_free i (upd_chip c (\<lambda>ch. ch\<lparr>pin_mask := m\<rparr>) (s\<lparr>world := w\<rparr>)))"
    and m: "\<forall>p. bit m p \<longleftrightarrow> bit (pin_mask (gpio_devices s ! c)) p \<and> p \<notin> req_pins (req (gpio_line_handle s ! i))"
    by blast
  let ?s1 = "upd_chip c (\<lambda>ch. ch\<lparr>pin_mask := m\<rparr>) (s\<lparr>world := w\<rparr>)"
  let ?s' = "gpio_line_handle_free i ?s1"
  have c: "c < length (gpio_devices s)" by (rule line_in_use(1) [OF tab i used])
  have "tables_ok ?s1" by (rule tables_ok_chip) (use tab in simp_all)
  then have tab': "tables_ok ?s'"
    unfolding gpio_line_handle_free_def by (rule tables_ok_line) (simp_all add: line_ok_def)
  have "returns (FLine i) s ?s'"
    unfolding returns_def gpio_line_handle_free_def
    using m used i c tables_length [OF tab]
    by (auto simp: owns_upd_line masked_upd_chip masked_mask [OF c])
  then show ?thesis
    using run returns_ok [OF ok _ tab'] i tables_length [OF tab] by (simp add: gpio_line_handle_free_def)
qed


section \<open>Line events\<close>

lemma event_in_use:
  assumes "tables_ok s" "i < 64" "event_chip (gpio_line_event s ! i) = Some c"
  shows "c < length (gpio_devices s)"
    "unat (lineoffset (event_req (gpio_line_event s ! i))) < unat (pin_count (gpio_devices s ! c))"
    "unat (lineoffset (event_req (gpio_line_event s ! i))) < 32"
proof -
  show *: "c < length (gpio_devices s)"
    "unat (lineoffset (event_req (gpio_line_event s ! i))) < unat (pin_count (gpio_devices s ! c))"
    using tables_line(2) [OF assms(1,2)] assms(3) by (simp_all add: event_ok_def)
  have "unat (pin_count (gpio_devices s ! c)) \<le> 32"
    using tables_line(3) [OF assms(1) *(1)] by (simp add: chip_ok_def)
  with * show "unat (lineoffset (event_req (gpio_line_event s ! i))) < 32" by simp
qed

text \<open>The fields of an event that the ownership does not look at.\<close>

lemma event_frame:
  assumes ok: "tables_ok s"
    and f: "event_chip (f (gpio_line_event s ! i)) = event_chip (gpio_line_event s ! i)"
      "event_name (f (gpio_line_event s ! i)) = event_name (gpio_line_event s ! i)"
      "lineoffset (event_req (f (gpio_line_event s ! i))) = lineoffset (event_req (gpio_line_event s ! i))"
  shows "tables_ok (upd_event i f s) \<and> same_owners s (upd_event i f s)"
proof (cases "i < 64")
  case True
  have "event_ok (gpio_devices s) (f (gpio_line_event s ! i))"
    using tables_line(2) [OF ok True] f by (simp add: event_ok_def)
  then show ?thesis
    using ok f by (auto intro!: tables_ok_event simp: same_owners_def fun_eq_iff owns_upd_event)
next
  case False
  then have "upd_event i f s = s" using tables_length [OF ok] by (simp add: upd_event_def list_update_beyond)
  with ok show ?thesis by simp
qed

definition fresh_event :: "('w, 'rb) gpio_os \<Rightarrow> u32 \<Rightarrow> 'rb gpio_event \<Rightarrow> 'rb gpio_event" where
  "fresh_event os b e = e\<lparr>rb := ring_buf_init os 256, cb_pins := b\<rparr>"

lemma fresh_event_fields [simp]:
  "event_chip (fresh_event os b e) = event_chip e" "event_name (fresh_event os b e) = event_name e"
  "event_req (fresh_event os b e) = event_req e"
  by (simp_all add: fresh_event_def)

lemma gpio_event_open_runs:
  assumes ok: "tables_ok s" and i: "i < 64" and used: "event_chip (gpio_line_event s ! i) = Some c"
    and n: "unat (lineoffset (event_req (gpio_line_event s ! i))) = n"
  shows "(\<exists>fp w. gpio_event_open os (event_label_of i) s = Some (0, fp,
      upd_chip c (\<lambda>ch. ch\<lparr>pin_mask := pin_mask ch OR 2 ^ n\<rparr>) (upd_event i (fresh_event os (2 ^ n)) (s\<lparr>world := w\<rparr>)))) \<or>
    (\<exists>ret fp w. ret \<noteq> 0 \<and> gpio_event_open os (event_label_of i) s =
      Some (ret, fp, upd_event i (fresh_event os (2 ^ n)) (s\<lparr>world := w\<rparr>)))"
proof -
  note u = event_in_use [OF ok i used]
  show ?thesis
    using i u used n event_find_label [OF ok i]
    by (auto simp: gpio_event_open_def Let_def BIT_Some fresh_event_def [abs_def] split: prod.splits if_splits)
qed

lemma line_event_commit_runs:
  assumes ok: "tables_ok s" and os: "open_laws os" and c: "c < length (gpio_devices s)"
    and r: "unat (lineoffset r) < unat (pin_count (gpio_devices s ! c))"
  shows "\<exists>res r' s'. line_event_commit os r c s = Some (res, r', s') \<and> tables_ok s' \<and>
    (res \<le> 0 \<and> same_owners s s' \<or>
     res = 1 \<and> 0 \<le> event_fd r' \<and>
     (\<exists>i<64. gpio_line_event_alloc s = Some i \<and> takes (FEvent i) c {unat (lineoffset r)} s s'))"
proof (cases "gpio_line_event_alloc s")
  case None
  then show ?thesis using ok by (simp add: line_event_commit_def)
next
  case (Some i)
  note i = event_alloc_Some [OF Some ok]
  have len: "i < length (gpio_line_event s)" using i tables_length [OF ok] by simp
  let ?path = "dev_path (event_label_of i)" and ?b = "2 ^ unat (lineoffset r) :: u32"
  obtain reg w where reg: "devfs_register_anon os ?path (world s) = (reg, w)" by fastforce
  show ?thesis
  proof (cases "reg = 0")
    case False
    have "tables_ok (gpio_line_event_free i (s\<lparr>world := w\<rparr>)) \<and>
        same_owners (s\<lparr>world := w\<rparr>) (gpio_line_event_free i (s\<lparr>world := w\<rparr>))"
      unfolding gpio_line_event_free_def by (rule idle_event) (use ok i in simp_all)
    then show ?thesis
      using False Some i ok reg by (simp add: line_event_commit_def tables_name)
  next
    case True
    define s0 where "s0 = upd_event i (\<lambda>e. e\<lparr>event_chip := Some c, event_req := r\<rparr>) (s\<lparr>world := w\<rparr>)"
    have ok0: "tables_ok s0"
      unfolding s0_def by (rule tables_ok_event) (use ok c r in \<open>simp_all add: event_ok_def\<close>)
    have l0: "gpio_line_event s0 ! i = (gpio_line_event s ! i)\<lparr>event_chip := Some c, event_req := r\<rparr>"
      using len by (simp add: s0_def)
    have run: "line_event_commit os r c s = (case open_file os ?path (gpio_event_open os) s0 of
        None \<Rightarrow> None
      | Some (fd', errno, s) \<Rightarrow> Some (if fd' < 0 then - errno else 1, r\<lparr>event_fd := fd'\<rparr>,
          upd_event i (\<lambda>e. e\<lparr>event_req := (event_req e)\<lparr>event_fd := fd'\<rparr>\<rparr>) (if fd' < 0
            then gpio_line_event_free i (s\<lparr>world := devfs_unregister_anon os ?path (world s)\<rparr>) else s)))"
      using True Some i ok reg
      by (auto simp: line_event_commit_def tables_name s0_def Let_def split: option.split)
    text \<open>Every failing case frees the event again.\<close>
    have fails: ?thesis if fd': "fd' < 0" "0 < errno"
      and o: "open_file os ?path (gpio_event_open os) s0 = Some (fd', errno, upd_event i f (s\<lparr>world := w1\<rparr>))"
      and f: "\<And>e. event_name (f e) = event_name e" for fd' errno f w1
    proof -
      let ?f = "\<lambda>e. (f e)\<lparr>event_chip := None, event_req := (event_req (f e))\<lparr>event_fd := fd'\<rparr>\<rparr>"
      let ?s = "s\<lparr>world := devfs_unregister_anon os ?path w1\<rparr>"
      have "tables_ok (upd_event i ?f ?s) \<and> same_owners ?s (upd_event i ?f ?s)"
        by (rule idle_event) (use ok i f in simp_all)
      moreover have "line_event_commit os r c s = Some (- errno, r\<lparr>event_fd := fd'\<rparr>, upd_event i ?f ?s)"
        unfolding run using fd' o len by (simp add: gpio_line_event_free_def upd_event_twice)
      ultimately show ?thesis using fd' by simp
    qed
    note opens = gpio_event_open_runs [of "s0\<lparr>world := w1\<rparr>" i c "unat (lineoffset r)" os for w1]
    show ?thesis
    proof (cases rule: open_lawsE [OF os, of ?path "gpio_event_open os" s0])
      case (1 fd' errno w1)
      then have "open_file os ?path (gpio_event_open os) s0 = Some (fd', errno,
          upd_event i (\<lambda>e. e\<lparr>event_chip := Some c, event_req := r\<rparr>) (s\<lparr>world := w1\<rparr>))"
        by (simp add: s0_def)
      then show ?thesis by (rule fails [OF 1(1,2)]) simp
    next
      case (2 w1)
      with opens [of w1] ok0 i l0 show ?thesis by auto
    next
      case (3 w1 rc fp s1 fd' errno w2)
      with opens [of w1] ok0 i l0 obtain w3 where "s1 = upd_event i (fresh_event os ?b) (s0\<lparr>world := w3\<rparr>)"
        by auto
      then have "open_file os ?path (gpio_event_open os) s0 = Some (fd', errno,
          upd_event i (\<lambda>e. fresh_event os ?b (e\<lparr>event_chip := Some c, event_req := r\<rparr>))
            (s\<lparr>world := w2\<rparr>))"
        using 3 len by (simp add: s0_def upd_event_twice)
      then show ?thesis by (rule fails [OF 3(3,4)]) simp
    next
      case (4 w1 fp s1 fd' errno w2)
      with opens [of w1] ok0 i l0 obtain w3 where
        s1: "s1 = upd_chip c (\<lambda>ch. ch\<lparr>pin_mask := pin_mask ch OR ?b\<rparr>) (upd_event i (fresh_event os ?b) (s0\<lparr>world := w3\<rparr>))"
        by auto
      let ?s' = "upd_event i (\<lambda>e. e\<lparr>event_req := (event_req e)\<lparr>event_fd := fd'\<rparr>\<rparr>) (s1\<lparr>world := w2\<rparr>)"
      have commit: "line_event_commit os r c s = Some (1, r\<lparr>event_fd := fd'\<rparr>, ?s')"
        unfolding run using 4 by simp
      have ok1: "tables_ok s1" unfolding s1
        by (intro tables_ok_chip event_frame [THEN conjunct1]) (use ok0 in simp_all)
      then have "tables_ok ?s'" using event_frame [of "s1\<lparr>world := w2\<rparr>"] by simp
      moreover have "takes (FEvent i) c {unat (lineoffset r)} s ?s'"
        unfolding takes_def
        using i c len r tables_line(3) [OF ok c]
        by (auto simp: owns_upd_event l0 s1 s0_def masked_upd_chip masked_mask [OF c] bit_or_iff chip_ok_def)
      ultimately show ?thesis
        using commit 4 Some i by (intro exI [of _ 1] exI [of _ "r\<lparr>event_fd := fd'\<rparr>"] exI [of _ ?s']) simp
    qed
  qed
qed


lemma gpio_line_event_create_runs:
  assumes ok: "gfs_ok s" and os: "open_laws os" and c: "c < length (gpio_devices s)"
  shows "\<exists>res r' s'. gpio_line_event_create os r c s = Some (res, r', s') \<and> gfs_ok s' \<and>
    (res \<le> 0 \<and> same_owners s s' \<or>
     res = 1 \<and> event_request_valid r (gpio_devices s ! c) \<and> 0 \<le> event_fd r' \<and>
     (\<exists>i<64. gpio_line_event_alloc s = Some i \<and> takes (FEvent i) c {unat (lineoffset r)} s s'))"
proof -
  let ?ch = "gpio_devices s ! c"
  have tab: "tables_ok s" using ok by (simp add: gfs_ok_def)
  have "unat (pin_count ?ch) \<le> 32" using tables_line(3) [OF tab c] by (simp add: chip_ok_def)
  note check = event_request_check_eq [OF this, of r]
  show ?thesis
  proof (cases "event_request_valid r ?ch")
    case False
    then show ?thesis using c check ok by (simp add: gpio_line_event_create_def)
  next
    case True
    then have r: "unat (lineoffset r) < unat (pin_count ?ch)" "\<not> masked s c (unat (lineoffset r))"
      by (simp_all add: event_request_valid_def masked_def)
    from line_event_commit_runs [OF tab os c r(1)] obtain res r' s' where
      run: "line_event_commit os r c s = Some (res, r', s')" and tab': "tables_ok s'" and
      cases: "res \<le> 0 \<and> same_owners s s' \<or> res = 1 \<and> 0 \<le> event_fd r' \<and>
        (\<exists>i<64. gpio_line_event_alloc s = Some i \<and> takes (FEvent i) c {unat (lineoffset r)} s s')"
      by blast
    have "gfs_ok s'"
      using cases same_owners_ok [OF ok _ tab'] takes_ok [OF ok _ _ tab'] r(2) by blast
    then show ?thesis
      using run cases c check True by (auto simp: gpio_line_event_create_def)
  qed
qed

lemma gpio_event_close_returns:
  assumes ok: "gfs_ok s" and i: "i < 64" and used: "event_chip (gpio_line_event s ! i) = Some c"
  shows "\<exists>s'. gpio_event_close os i s = Some (0, s') \<and> gfs_ok s' \<and> returns (FEvent i) s s' \<and>
    event_chip (gpio_line_event s' ! i) = None"
proof -
  have tab: "tables_ok s" using ok by (simp add: gfs_ok_def)
  note u = event_in_use [OF tab i used] and len = tables_length [OF tab]
  let ?n = "unat (lineoffset (event_req (gpio_line_event s ! i)))"
  let ?f = "\<lambda>e. e\<lparr>rb := ring_buf_reset os (rb e), event_chip := None\<rparr>"
  have "\<exists>w. gpio_event_close os i s = Some (0, upd_event i ?f
      (upd_chip c (\<lambda>ch. ch\<lparr>pin_mask := pin_mask ch AND NOT (2 ^ ?n)\<rparr>) (s\<lparr>world := w\<rparr>)))"
    using u i used len
    by (auto simp: gpio_event_close_def Let_def BIT_Some gpio_line_event_free_def upd_event_twice split: prod.splits)
  then obtain w where run: "gpio_event_close os i s = Some (0, upd_event i ?f
      (upd_chip c (\<lambda>ch. ch\<lparr>pin_mask := pin_mask ch AND NOT (2 ^ ?n)\<rparr>) (s\<lparr>world := w\<rparr>)))" ..
  let ?s1 = "upd_chip c (\<lambda>ch. ch\<lparr>pin_mask := pin_mask ch AND NOT (2 ^ ?n)\<rparr>) (s\<lparr>world := w\<rparr>)"
  have "tables_ok ?s1" by (rule tables_ok_chip) (use tab in simp_all)
  then have tab': "tables_ok (upd_event i ?f ?s1)"
    by (rule tables_ok_event) (simp_all add: event_ok_def)
  have "returns (FEvent i) s (upd_event i ?f ?s1)"
    unfolding returns_def
    using used i u(1) len
    by (auto simp: owns_upd_event masked_upd_chip masked_mask [OF u(1)] bit_and_iff bit_not_iff dest: bit_u32_less)
  then show ?thesis
    using run returns_ok [OF ok _ tab'] i len by simp
qed

lemma same_owners_trans: "same_owners s s1 \<Longrightarrow> same_owners s1 s2 \<Longrightarrow> same_owners s s2"
  by (simp add: same_owners_def)

text \<open>Interrupts and reads work on the buffer of the event alone.\<close>

lemma rb_frame:
  assumes "gfs_ok s"
  shows "gfs_ok (upd_event i (\<lambda>e. e\<lparr>rb := r\<rparr>) (s\<lparr>world := w\<rparr>)) \<and>
    same_owners s (upd_event i (\<lambda>e. e\<lparr>rb := r\<rparr>) (s\<lparr>world := w\<rparr>))"
proof -
  have tab: "tables_ok (s\<lparr>world := w\<rparr>)" using assms by (simp add: gfs_ok_def)
  from event_frame [OF tab, of "\<lambda>e. e\<lparr>rb := r\<rparr>" i] same_owners_ok [OF assms] show ?thesis
    by (simp del: upd_world)
qed

lemma gpio_irq_frame:
  assumes "gfs_ok s" "gpio_irq os u pad i pins s = Some s'"
  shows "gfs_ok s' \<and> same_owners s s'"
  using assms rb_frame [OF assms(1)]
  by (auto simp: gpio_irq_def Let_def split: bind_splits if_splits prod.splits simp del: upd_fields)

lemma gpio_event_read_frame:
  assumes "gfs_ok s" "gpio_event_read os i n s = Some (bs, s')"
  shows "gfs_ok s' \<and> same_owners s s'"
  using assms(2) rb_frame [OF assms(1), of i _ "world s"]
  by (auto simp: gpio_event_read_def Let_def split: bind_splits prod.splits)


section \<open>The contract of line handles and events\<close>

text \<open>Both hand out pins: a request takes free pins for a new holder or changes no owner, and
  releasing the holder returns them.\<close>

locale pin_resource =
  fixes os :: "('w, 'rb) gpio_os"
    and request :: "'r \<Rightarrow> nat \<Rightarrow> ('w, 'rb) gfs \<Rightarrow> (int \<times> 'r \<times> ('w, 'rb) gfs) option"
    and release :: "nat \<Rightarrow> ('w, 'rb) gfs \<Rightarrow> (int \<times> ('w, 'rb) gfs) option"
    and alloc :: "('w, 'rb) gfs \<Rightarrow> nat option"
    and holder :: "nat \<Rightarrow> filep"
    and pins :: "'r \<Rightarrow> nat set"
    and wf :: "'r \<Rightarrow> bool"
  assumes request_runs: "gfs_ok s \<Longrightarrow> open_laws os \<Longrightarrow> c < length (gpio_devices s) \<Longrightarrow> wf r \<Longrightarrow>
      \<exists>res r' s'. request r c s = Some (res, r', s') \<and> gfs_ok s' \<and>
        (res \<le> 0 \<and> same_owners s s' \<or>
         res = 1 \<and> pins r \<noteq> {} \<and> (\<forall>p\<in>pins r. \<not> masked s c p) \<and>
         (\<exists>i. alloc s = Some i \<and> takes (holder i) c (pins r) s s'))"
    and release_runs: "gfs_ok s \<Longrightarrow> owns s (holder i) c p \<Longrightarrow>
      \<exists>s'. release i s = Some (0, s') \<and> gfs_ok s' \<and> returns (holder i) s s'"
begin

lemma granted:
  assumes "gfs_ok s" "open_laws os" "c < length (gpio_devices s)" "wf r" "request r c s = Some (1, r', s1)"
  shows "\<exists>i. alloc s = Some i \<and> gfs_ok s1 \<and> takes (holder i) c (pins r) s s1 \<and> (\<forall>p\<in>pins r. \<not> masked s c p) \<and>
    (\<exists>p. owns s1 (holder i) c p)"
  using request_runs [OF assms(1-4)] assms(5) by (auto simp: takes_def)

lemma request_release:
  assumes "gfs_ok s" "open_laws os" "c < length (gpio_devices s)" "wf r" "request r c s = Some (1, r', s1)"
  shows "\<exists>i s2. alloc s = Some i \<and> release i s1 = Some (0, s2) \<and> gfs_ok s2 \<and> same_owners s s2"
proof -
  from granted [OF assms] obtain i p where i: "alloc s = Some i" and ok: "gfs_ok s1"
    and t: "takes (holder i) c (pins r) s s1" "\<forall>p\<in>pins r. \<not> masked s c p" and o: "owns s1 (holder i) c p" by blast
  from release_runs [OF ok o] obtain s2 where
    r: "release i s1 = Some (0, s2)" "gfs_ok s2" "returns (holder i) s1 s2" by blast
  with i takes_returns [OF t r(3)] show ?thesis by blast
qed

end

lemma line_valid_pins: "line_request_valid r ch \<Longrightarrow> req_pins r \<noteq> {}"
  by (auto simp: line_request_valid_def req_pins_def)

interpretation line_resource: pin_resource os "gpio_line_handle_create os" "gpio_line_close os"
    gpio_line_handle_alloc FLine req_pins wf_req for os
proof
  fix s :: "('a, 'b) gfs" and c r
  assume a: "gfs_ok s" "open_laws os" "c < length (gpio_devices s)" "wf_req r"
  have v: "line_request_valid r (gpio_devices s ! c) \<Longrightarrow> req_pins r \<noteq> {} \<and> (\<forall>p\<in>req_pins r. \<not> masked s c p)"
    using pins_unmasked [OF a(3), of r] line_valid_pins by blast
  obtain res r' s' where "gpio_line_handle_create os r c s = Some (res, r', s')" "gfs_ok s'"
    "res \<le> 0 \<and> same_owners s s' \<or>
     res = 1 \<and> line_request_valid r (gpio_devices s ! c) \<and> 0 \<le> fd r' \<and>
     (\<exists>i<64. gpio_line_handle_alloc s = Some i \<and> takes (FLine i) c (req_pins r) s s')"
    using gpio_line_handle_create_runs [OF a] by blast
  then show "\<exists>res r' s'. gpio_line_handle_create os r c s = Some (res, r', s') \<and> gfs_ok s' \<and>
        (res \<le> 0 \<and> same_owners s s' \<or>
         res = 1 \<and> req_pins r \<noteq> {} \<and> (\<forall>p\<in>req_pins r. \<not> masked s c p) \<and>
         (\<exists>i. gpio_line_handle_alloc s = Some i \<and> takes (FLine i) c (req_pins r) s s'))"
    using v by (intro exI [of _ res] exI [of _ r'] exI [of _ s']) auto
next
  fix s :: "('a, 'b) gfs" and i c p
  assume ok: "gfs_ok s" and o: "owns s (FLine i) c p"
  then have "i < 64" "line_chip (gpio_line_handle s ! i) = Some c"
    using tables_length [of s] by (simp_all add: gfs_ok_def)
  with gpio_line_close_returns [OF ok this, of os]
  show "\<exists>s'. gpio_line_close os i s = Some (0, s') \<and> gfs_ok s' \<and> returns (FLine i) s s'" by blast
qed

interpretation event_resource: pin_resource os "gpio_line_event_create os" "gpio_event_close os"
    gpio_line_event_alloc FEvent "\<lambda>r. {unat (lineoffset r)}" "\<lambda>_. True" for os
proof
  fix s :: "('a, 'b) gfs" and c r
  assume a: "gfs_ok s" "open_laws os" "c < length (gpio_devices s)"
  have "event_request_valid r (gpio_devices s ! c) \<Longrightarrow> \<not> masked s c (unat (lineoffset r))"
    by (simp add: event_request_valid_def masked_def)
  with gpio_line_event_create_runs [OF a, of r]
  show "\<exists>res r' s'. gpio_line_event_create os r c s = Some (res, r', s') \<and> gfs_ok s' \<and>
        (res \<le> 0 \<and> same_owners s s' \<or>
         res = 1 \<and> {unat (lineoffset r)} \<noteq> {} \<and> (\<forall>p\<in>{unat (lineoffset r)}. \<not> masked s c p) \<and>
         (\<exists>i. gpio_line_event_alloc s = Some i \<and> takes (FEvent i) c {unat (lineoffset r)} s s'))"
    by blast
next
  fix s :: "('a, 'b) gfs" and i c p
  assume ok: "gfs_ok s" and o: "owns s (FEvent i) c p"
  then have "i < 64" "event_chip (gpio_line_event s ! i) = Some c"
    using tables_length [of s] by (simp_all add: gfs_ok_def)
  with gpio_event_close_returns [OF ok this, of os]
  show "\<exists>s'. gpio_event_close os i s = Some (0, s') \<and> gfs_ok s' \<and> returns (FEvent i) s s'" by blast
qed

section \<open>Requests on open files\<close>

text \<open>The caller passes the structure that the request names, with arrays of their declared length.\<close>

fun arg_ok :: "('w, 'rb) gpio_os \<Rightarrow> u32 \<Rightarrow> ioctl_arg \<Rightarrow> bool" where
  "arg_ok os request (HandleData vals) \<longleftrightarrow> length vals = GPIOHANDLES_MAX \<and>
     request \<in> {GPIOHANDLE_SET_LINE_VALUES_IOCTL, GPIOHANDLE_GET_LINE_VALUES_IOCTL}"
| "arg_ok os request (HandleConfig cfg) \<longleftrightarrow> length (config_values cfg) = GPIOHANDLES_MAX \<and>
     request = GPIOHANDLE_SET_CONFIG_IOCTL"
| "arg_ok os request (HandleRequest r) \<longleftrightarrow> wf_req r \<and> request = GPIO_GET_LINEHANDLE_IOCTL"
| "arg_ok os request (EventRequest r) \<longleftrightarrow> request = GPIO_GET_LINEEVENT_IOCTL"
| "arg_ok os request (ChipInfo info) \<longleftrightarrow> request = GPIO_GET_CHIPINFO_IOCTL"
| "arg_ok os request (LineInfo info) \<longleftrightarrow> request = GPIO_GET_LINEINFO_IOCTL"
| "arg_ok os request (PollArg a) \<longleftrightarrow> pev a < length (pev_slots a) \<and>
     request \<in> {ZFD_IOCTL_POLL_PREPARE os, ZFD_IOCTL_POLL_UPDATE os}"
| "arg_ok os request NoArg \<longleftrightarrow> request \<notin> {GPIOHANDLE_SET_LINE_VALUES_IOCTL, GPIOHANDLE_GET_LINE_VALUES_IOCTL,
     GPIOHANDLE_SET_CONFIG_IOCTL, GPIO_GET_LINEHANDLE_IOCTL, GPIO_GET_LINEEVENT_IOCTL, GPIO_GET_CHIPINFO_IOCTL,
     GPIO_GET_LINEINFO_IOCTL, ZFD_IOCTL_POLL_PREPARE os, ZFD_IOCTL_POLL_UPDATE os}"

text \<open>The numbers of the kernel's own requests are different from the ones defined here.\<close>

definition ioctl_numbers_ok :: "('w, 'rb) gpio_os \<Rightarrow> bool" where
  "ioctl_numbers_ok os \<longleftrightarrow> distinct [GPIOHANDLE_SET_LINE_VALUES_IOCTL, GPIOHANDLE_GET_LINE_VALUES_IOCTL,
     GPIOHANDLE_SET_CONFIG_IOCTL, GPIO_GET_LINEHANDLE_IOCTL, GPIO_GET_LINEEVENT_IOCTL, GPIO_GET_CHIPINFO_IOCTL,
     GPIO_GET_LINEINFO_IOCTL, ZFD_IOCTL_POLL_PREPARE os, ZFD_IOCTL_POLL_UPDATE os, F_GETFL os, F_SETFL os]"

definition line_used :: "('w, 'rb) gfs \<Rightarrow> nat \<Rightarrow> bool" where
  "line_used s i \<longleftrightarrow> i < GPIO_LINE_HANDLE_MAX \<and> line_chip (gpio_line_handle s ! i) \<noteq> None"

definition event_used :: "('w, 'rb) gfs \<Rightarrow> nat \<Rightarrow> bool" where
  "event_used s i \<longleftrightarrow> i < GPIO_LINE_EVENT_MAX \<and> event_chip (gpio_line_event s ! i) \<noteq> None"

lemma gpio_line_ioctl_runs:
  assumes ok: "gfs_ok s" and nums: "ioctl_numbers_ok os" and used: "line_used s i" and arg: "arg_ok os request arg"
  shows "\<exists>res arg' w. gpio_line_ioctl os i request arg s = Some (res, arg', s\<lparr>world := w\<rparr>)"
proof -
  have tab: "tables_ok s" using ok by (simp add: gfs_ok_def)
  from used obtain c where i: "i < 64" and c: "line_chip (gpio_line_handle s ! i) = Some c"
    by (auto simp: line_used_def)
  let ?r = "req (gpio_line_handle s ! i)"
  note u = line_in_use [OF tab i c] and len = tables_length [OF tab]
  have js: "\<forall>k\<in>set (line_indices ?r). k < 64 \<and> k < length (lineoffsets ?r) \<and> unat (lineoffsets ?r ! k) < 32"
    using u by (auto simp: wf_req_def)
  consider (set) vals where "arg = HandleData vals" "request = GPIOHANDLE_SET_LINE_VALUES_IOCTL" "length vals = 64"
    | (get) vals where "arg = HandleData vals" "request = GPIOHANDLE_GET_LINE_VALUES_IOCTL" "length vals = 64"
    | (config) cfg where "arg = HandleConfig cfg" "request = GPIOHANDLE_SET_CONFIG_IOCTL" "length (config_values cfg) = 64"
    | (other) "request \<noteq> GPIOHANDLE_SET_LINE_VALUES_IOCTL" "request \<noteq> GPIOHANDLE_GET_LINE_VALUES_IOCTL"
        "request \<noteq> GPIOHANDLE_SET_CONFIG_IOCTL"
    using arg nums by (cases arg) (auto simp: ioctl_numbers_ok_def)
  then show ?thesis
  proof cases
    case (set vals)
    have "\<forall>k\<in>set (line_indices ?r). k < length (lineoffsets ?r) \<and> k < length vals" using js set by auto
    from set_values_loop_Some [OF this, of os "dev (gpio_devices s ! c)" "world s"] obtain w where
      "set_values_loop os (dev (gpio_devices s ! c)) (lineoffsets ?r) vals (line_indices ?r) (world s) = Some w" by blast
    then show ?thesis using set i c u(1) len by (auto simp: gpio_line_ioctl_def)
  next
    case (get vals)
    obtain v w where p: "gpio_port_get os (dev (gpio_devices s ! c)) 0 (world s) = (v, w)" by fastforce
    have "\<forall>k\<in>set (line_indices ?r). k < length (lineoffsets ?r) \<and> k < length vals \<and> unat (lineoffsets ?r ! k) < 32"
      using js get by auto
    from get_values_loop_Some [OF this, of v] obtain vals' where
      "get_values_loop v (lineoffsets ?r) (line_indices ?r) vals = Some vals'" by blast
    moreover have "GPIOHANDLE_GET_LINE_VALUES_IOCTL \<noteq> GPIOHANDLE_SET_LINE_VALUES_IOCTL"
      using nums by (auto simp: ioctl_numbers_ok_def)
    ultimately show ?thesis using get i c u(1) len p by (auto simp: gpio_line_ioctl_def)
  next
    case (config cfg)
    have "\<forall>k\<in>set (line_indices ?r). k < length (lineoffsets ?r) \<and> k < length (config_values cfg)" using js config by auto
    from configure_pins_Some [OF this, of os "dev (gpio_devices s ! c)"
        "req_flag_2_gpio_flag os (config_flags cfg)" "world s"] obtain w where
      "configure_pins os (dev (gpio_devices s ! c)) (req_flag_2_gpio_flag os (config_flags cfg)) (lineoffsets ?r)
         (config_values cfg) (line_indices ?r) (world s) = Some w" by blast
    moreover have "GPIOHANDLE_SET_CONFIG_IOCTL \<noteq> GPIOHANDLE_SET_LINE_VALUES_IOCTL"
      "GPIOHANDLE_SET_CONFIG_IOCTL \<noteq> GPIOHANDLE_GET_LINE_VALUES_IOCTL"
      using nums by (auto simp: ioctl_numbers_ok_def)
    ultimately show ?thesis using config i c u(1) len by (auto simp: gpio_line_ioctl_def)
  next
    case other
    then show ?thesis using i len
      by (intro exI [of _ "- ENOTTY"] exI [of _ arg] exI [of _ "world s"]) (simp add: gpio_line_ioctl_def)
  qed
qed


lemma gpio_event_ioctl_runs:
  assumes ok: "gfs_ok s" and nums: "ioctl_numbers_ok os" and used: "event_used s i" and arg: "arg_ok os request arg"
  shows "\<exists>res arg' w. gpio_event_ioctl os i request arg s = Some (res, arg', s\<lparr>world := w\<rparr>)"
proof -
  have tab: "tables_ok s" using ok by (simp add: gfs_ok_def)
  from used obtain c where i: "i < 64" and c: "event_chip (gpio_line_event s ! i) = Some c"
    by (auto simp: event_used_def)
  note u = event_in_use [OF tab i c] and len = tables_length [OF tab]
  have self: "\<exists>res arg' w. Some (r, a, s) = Some (res, arg', s\<lparr>world := w\<rparr>)" for r :: int and a :: ioctl_arg
    by (intro exI [of _ r] exI [of _ a] exI [of _ "world s"]) simp
  show ?thesis
    using arg nums i c u(1) len self
    by (cases arg) (auto simp: gpio_event_ioctl_def ioctl_numbers_ok_def Let_def split: prod.splits)
qed

lemma gpio_chip_ioctl_runs:
  assumes ok: "gfs_ok s" and os: "open_laws os" and nums: "ioctl_numbers_ok os"
    and c: "c < length (gpio_devices s)" and arg: "arg_ok os request arg"
  shows "\<exists>res arg' s'. gpio_chip_ioctl os c request arg s = Some (res, arg', s') \<and> gfs_ok s'"
proof -
  have ch: "chip_ok (gpio_devices s ! c)"
    using ok c by (auto simp: gfs_ok_def intro: tables_line)
  have info: "\<exists>res info'. get_lineinfo (gpio_devices s ! c) info = Some (res, info')" for info
    using ch by (auto simp: get_lineinfo_def Let_def word_le_nat_alt not_le chip_ok_def)
  show ?thesis
  proof (cases arg)
    case (HandleRequest r)
    with arg have r: "wf_req r" "request = GPIO_GET_LINEHANDLE_IOCTL" by simp_all
    from gpio_line_handle_create_runs [OF ok os c r(1)] HandleRequest r c nums show ?thesis
      by (auto simp: gpio_chip_ioctl_def ioctl_numbers_ok_def)
  next
    case (EventRequest r)
    with arg have "request = GPIO_GET_LINEEVENT_IOCTL" by simp
    with gpio_line_event_create_runs [OF ok os c, of r] EventRequest c nums show ?thesis
      by (auto simp: gpio_chip_ioctl_def ioctl_numbers_ok_def)
  next
    case (LineInfo a)
    with arg info [of a] c nums ok show ?thesis
      by (auto simp: gpio_chip_ioctl_def ioctl_numbers_ok_def)
  qed (use arg c nums ok in \<open>auto simp: gpio_chip_ioctl_def ioctl_numbers_ok_def\<close>)
qed

lemma ref_cnt_frame:
  assumes "gfs_ok s" "\<And>ch. pin_count (f ch) = pin_count ch \<and> line_names (f ch) = line_names ch \<and> pin_mask (f ch) = pin_mask ch"
  shows "gfs_ok (upd_chip c f s)"
proof (rule same_owners_ok [OF assms(1)])
  show "same_owners s (upd_chip c f s)"
  proof -
    have "masked (upd_chip c f s) c' p \<longleftrightarrow> masked s c' p" for c' p
      unfolding masked_upd_chip using assms(2) by (simp add: masked_def)
    then show ?thesis by (auto simp: same_owners_def fun_eq_iff)
  qed
  show "tables_ok (upd_chip c f s)"
    using assms by (intro tables_ok_chip) (simp_all add: gfs_ok_def)
qed

lemma gpio_chip_open_runs: "gfs_ok s \<Longrightarrow> \<exists>res fp s'. gpio_chip_open os nm s = Some (res, fp, s') \<and> gfs_ok s'"
  by (auto simp: gpio_chip_open_def intro: ref_cnt_frame split: option.split)

lemma gpio_chip_close_runs:
  "gfs_ok s \<Longrightarrow> c < length (gpio_devices s) \<Longrightarrow> \<exists>fp s'. gpio_chip_close c s = Some (0, fp, s') \<and> gfs_ok s'"
  by (auto simp: gpio_chip_close_def Let_def intro: ref_cnt_frame)


section \<open>Reachable states\<close>

text \<open>A call of a client on one of its open files, or an interrupt. A line handle and an event have one
  open file each: the one their chip's request returned.\<close>

inductive gpio_step :: "('w, 'rb) gpio_os \<Rightarrow> ('w, 'rb) gfs \<Rightarrow> ('w, 'rb) gfs \<Rightarrow> bool" for os where
  chip_open: "gpio_chip_open os nm s = Some (res, fp, s') \<Longrightarrow> gpio_step os s s'"
| chip_ioctl: "c < length (gpio_devices s) \<Longrightarrow> arg_ok os request arg \<Longrightarrow>
    gpio_chip_ioctl os c request arg s = Some (res, arg', s') \<Longrightarrow> gpio_step os s s'"
| chip_close: "c < length (gpio_devices s) \<Longrightarrow> gpio_chip_close c s = Some (res, fp, s') \<Longrightarrow> gpio_step os s s'"
| line_ioctl: "line_used s i \<Longrightarrow> arg_ok os request arg \<Longrightarrow>
    gpio_line_ioctl os i request arg s = Some (res, arg', s') \<Longrightarrow> gpio_step os s s'"
| line_close: "line_used s i \<Longrightarrow> gpio_line_close os i s = Some (res, s') \<Longrightarrow> gpio_step os s s'"
| event_ioctl: "event_used s i \<Longrightarrow> arg_ok os request arg \<Longrightarrow>
    gpio_event_ioctl os i request arg s = Some (res, arg', s') \<Longrightarrow> gpio_step os s s'"
| event_read: "event_used s i \<Longrightarrow> gpio_event_read os i n s = Some (bs, s') \<Longrightarrow> gpio_step os s s'"
| event_close: "event_used s i \<Longrightarrow> gpio_event_close os i s = Some (res, s') \<Longrightarrow> gpio_step os s s'"
| irq: "event_used s i \<Longrightarrow> gpio_irq os u pad i pins s = Some s' \<Longrightarrow> gpio_step os s s'"

lemma gfs_ok_world [simp]: "gfs_ok (s\<lparr>world := w\<rparr>) \<longleftrightarrow> gfs_ok s"
  by (simp add: gfs_ok_def exclusive_def mask_exact_def)

lemma gpio_step_ok:
  assumes "gpio_step os s s'" "gfs_ok s" "open_laws os" "ioctl_numbers_ok os"
  shows "gfs_ok s'"
  using assms
proof cases
  case (chip_open nm res fp)
  then show ?thesis using gpio_chip_open_runs [OF assms(2), of os nm] by auto
next
  case (chip_ioctl c request arg res arg')
  then show ?thesis using gpio_chip_ioctl_runs [OF assms(2-4), of c request arg] by auto
next
  case (chip_close c res fp)
  then show ?thesis using gpio_chip_close_runs [OF assms(2), of c] by auto
next
  case (line_ioctl i request arg res arg')
  then show ?thesis using gpio_line_ioctl_runs [OF assms(2,4), of i request arg] assms(2) by auto
next
  case (line_close i res)
  then show ?thesis using gpio_line_close_returns [OF assms(2), of i _ os] by (auto simp: line_used_def)
next
  case (event_ioctl i request arg res arg')
  then show ?thesis using gpio_event_ioctl_runs [OF assms(2,4), of i request arg] assms(2) by auto
next
  case (event_read i n bs)
  then show ?thesis using gpio_event_read_frame [OF assms(2)] by auto
next
  case (event_close i res)
  then show ?thesis using gpio_event_close_returns [OF assms(2), of i _ os] by (auto simp: event_used_def)
next
  case (irq i u pad pins)
  then show ?thesis using gpio_irq_frame [OF assms(2)] by auto
qed

text \<open>The static tables before \<open>gpio_fs_init\<close>: zeroed handles and events, chips as the device tree has
  them.\<close>

definition static_state :: "('w, 'rb) gfs \<Rightarrow> bool" where
  "static_state s \<longleftrightarrow> length (gpio_line_handle s) = GPIO_LINE_HANDLE_MAX \<and>
     length (gpio_line_event s) = GPIO_LINE_EVENT_MAX \<and>
     list_all (\<lambda>l. line_chip l = None) (gpio_line_handle s) \<and>
     list_all (\<lambda>e. event_chip e = None) (gpio_line_event s) \<and>
     list_all (\<lambda>ch. chip_ok ch \<and> pin_mask ch = 0) (gpio_devices s)"

lemma fold_upd_line:
  "gpio_line_handle (fold (\<lambda>i. upd_line i (f i)) [0..<n] s) =
     map (\<lambda>j. if j < n then f j (gpio_line_handle s ! j) else gpio_line_handle s ! j) [0..<length (gpio_line_handle s)]
   \<and> gpio_line_event (fold (\<lambda>i. upd_line i (f i)) [0..<n] s) = gpio_line_event s
   \<and> gpio_devices (fold (\<lambda>i. upd_line i (f i)) [0..<n] s) = gpio_devices s"
proof (induction n)
  case 0
  show ?case by (simp add: map_nth)
next
  case (Suc n)
  then show ?case by (auto intro!: nth_equalityI simp: nth_list_update less_Suc_eq)
qed

lemma fold_upd_event:
  "gpio_line_event (fold (\<lambda>i. upd_event i (f i)) [0..<n] s) =
     map (\<lambda>j. if j < n then f j (gpio_line_event s ! j) else gpio_line_event s ! j) [0..<length (gpio_line_event s)]
   \<and> gpio_line_handle (fold (\<lambda>i. upd_event i (f i)) [0..<n] s) = gpio_line_handle s
   \<and> gpio_devices (fold (\<lambda>i. upd_event i (f i)) [0..<n] s) = gpio_devices s"
proof (induction n)
  case 0
  show ?case by (simp add: map_nth)
next
  case (Suc n)
  then show ?case by (auto intro!: nth_equalityI simp: nth_list_update less_Suc_eq)
qed

lemma gpio_fs_init_tables:
  assumes "static_state s"
  shows "gpio_line_handle (gpio_fs_init os s) =
      map (\<lambda>j. (gpio_line_handle s ! j)\<lparr>handle_name := handle_label j\<rparr>) [0..<64]"
    "gpio_line_event (gpio_fs_init os s) =
      map (\<lambda>j. (gpio_line_event s ! j)\<lparr>event_name := event_label_of j\<rparr>) [0..<64]"
    "gpio_devices (gpio_fs_init os s) = gpio_devices s"
  using assms
  by (auto simp: gpio_fs_init_def gpio_line_handle_init_def gpio_line_event_init_def fold_upd_line fold_upd_event
      static_state_def handle_label_def event_label_of_def)

lemma gpio_fs_init_ok:
  assumes "static_state s"
  shows "gfs_ok (gpio_fs_init os s)"
proof -
  let ?s = "gpio_fs_init os s"
  note l = gpio_fs_init_tables(1) [OF assms, of os] and e = gpio_fs_init_tables(2) [OF assms, of os]
    and d = gpio_fs_init_tables(3) [OF assms, of os]
  have none: "\<not> owns ?s h c p" for h c p
    using assms by (cases h) (auto simp: l e static_state_def list_all_length)
  have "tables_ok ?s"
    using assms by (auto simp: tables_ok_def l e d static_state_def list_all_length line_ok_def event_ok_def)
  moreover have "\<not> masked ?s c p" for c p
    using assms by (auto simp: masked_def d static_state_def list_all_length)
  ultimately show ?thesis using none by (simp add: gfs_ok_def exclusive_def mask_exact_def)
qed

lemma gpio_reachable_ok:
  assumes "(gpio_step os)\<^sup>*\<^sup>* (gpio_fs_init os s0) s" "static_state s0" "open_laws os" "ioctl_numbers_ok os"
  shows "gfs_ok s"
  using assms(1)
proof (induction rule: rtranclp_induct)
  case base
  show ?case by (rule gpio_fs_init_ok [OF assms(2)])
next
  case (step s1 s2)
  then show ?case using gpio_step_ok [OF step.hyps(2)] assms(3,4) by simp
qed

end
