(* ===== verification/Gpio_Safe.thy ===== *)
theory Gpio_Safe
  imports Gpio_Steps
begin

text \<open>
  Properties of the GPIO file system: exclusive ownership of pins in every reachable state, the
  decisions on requests, what opening and closing change, the queue of events, and the cases in
  which the code does not do what it should. \<open>demo_os\<close> is a kernel that satisfies the hypotheses.
\<close>

section \<open>A kernel\<close>

definition demo_open :: "string \<Rightarrow> (nat, u8 list) open_op \<Rightarrow> (nat, u8 list) gfs \<Rightarrow> (int \<times> int \<times> (nat, u8 list) gfs) option" where
  "demo_open path drv s = (case drv (drop 5 path) s of
     None \<Rightarrow> None
   | Some (rc, _, s1) \<Rightarrow> Some (if rc = 0 then 3 else -1, if rc < 0 then - rc else 5, s1))"

definition demo_os :: "(nat, u8 list) gpio_os" where
  "demo_os = \<lparr>GPIO_INPUT = 0x10000, GPIO_OUTPUT = 0x20000, GPIO_OUTPUT_INIT_LOW = 0x40000, GPIO_OPEN_DRAIN = 6,
     GPIO_OPEN_SOURCE = 2, GPIO_PULL_UP = 0x10, GPIO_PULL_DOWN = 0x20, GPIO_DISCONNECTED = 0,
     GPIO_INT_EDGE_BOTH = 7, GPIO_INT_EDGE_RISING = 5, GPIO_INT_EDGE_FALLING = 3, GPIO_INT_DISABLE = 8,
     F_GETFL = 3, F_SETFL = 4, O_RDWR = 2, ZFD_IOCTL_POLL_PREPARE = 0x102, ZFD_IOCTL_POLL_UPDATE = 0x103,
     ZVFS_POLLIN = 1, CONFIG_ASSERT = False,
     gpio_pin_configure = (\<lambda>d p f w. (0, w)), gpio_pin_set = (\<lambda>d p v w. w),
     gpio_pin_get = (\<lambda>d p w. (1, w)), gpio_port_get = (\<lambda>d v w. (0x88, w)),
     gpio_pin_interrupt_configure = (\<lambda>d p f w. (0, w)),
     gpio_add_callback = (\<lambda>d e w. w), gpio_remove_callback = (\<lambda>d e w. w), device_is_ready = (\<lambda>d w. True),
     devfs_register = (\<lambda>p w. w), devfs_register_anon = (\<lambda>p w. (if w = 1 then -1 else 0, w)),
     devfs_unregister_anon = (\<lambda>p w. w), open_file = demo_open,
     k_uptime_get = (\<lambda>w. (7, w)), k_poll_signal_init = (\<lambda>e w. w), k_poll_signal_raise = (\<lambda>e r w. w),
     k_poll_signal_reset = (\<lambda>e w. w),
     ring_buf_init = (\<lambda>n. []), ring_buf_put = (\<lambda>r bs. (min (length bs) (256 - length r), r @ take (256 - length r) bs)),
     ring_buf_get = (\<lambda>r n. (take n r, drop n r)), ring_buf_reset = (\<lambda>r. []), ring_buf_size_get = length\<rparr>"

lemma demo_open_laws: "open_laws demo_os"
  unfolding open_laws_def
proof (intro allI disjI2)
  fix path drv and s :: "(nat, u8 list) gfs"
  have same: "s1\<lparr>world := world s1\<rparr> = s1" for s1 :: "(nat, u8 list) gfs" by simp
  show "\<exists>w. case drv (drop 5 path) (s\<lparr>world := w\<rparr>) of
        None \<Rightarrow> open_file demo_os path drv s = None
      | Some (rc, _, s1) \<Rightarrow> (\<exists>fd errno w1. open_file demo_os path drv s = Some (fd, errno, s1\<lparr>world := w1\<rparr>) \<and>
           (if rc = 0 then 0 \<le> fd else fd < 0 \<and> 0 < errno))"
  proof (intro exI [of _ "world s"], unfold same, cases "drv (drop 5 path) s")
    case (Some a)
    obtain rc fp s1 where a: "a = (rc, fp, s1)" by (cases a)
    have "open_file demo_os path drv s = Some (if rc = 0 then 3 else -1, if rc < 0 then - rc else 5, s1\<lparr>world := world s1\<rparr>)"
      using Some a by (simp add: demo_os_def demo_open_def)
    then show "case drv (drop 5 path) s of None \<Rightarrow> open_file demo_os path drv s = None
      | Some (rc, _, s1) \<Rightarrow> (\<exists>fd errno w1. open_file demo_os path drv s = Some (fd, errno, s1\<lparr>world := w1\<rparr>) \<and>
           (if rc = 0 then 0 \<le> fd else fd < 0 \<and> 0 < errno))"
      unfolding Some a by (auto split: if_splits intro: exI [of _ "world s1"])
  qed (simp add: demo_os_def demo_open_def)
qed

lemma demo_ring_laws: "ring_laws demo_os id 256"
  by (auto simp: ring_laws_def demo_os_def)

lemma demo_ioctl_numbers: "ioctl_numbers_ok demo_os"
  by (simp add: ioctl_numbers_ok_def demo_os_def GPIOHANDLE_SET_LINE_VALUES_IOCTL_def
      GPIOHANDLE_GET_LINE_VALUES_IOCTL_def GPIOHANDLE_SET_CONFIG_IOCTL_def GPIO_GET_LINEHANDLE_IOCTL_def
      GPIO_GET_LINEEVENT_IOCTL_def GPIO_GET_CHIPINFO_IOCTL_def GPIO_GET_LINEINFO_IOCTL_def IOWR_def IOR_def IOC_def)

text \<open>One chip with sixteen pins, and a request for its pins 3 and 7 as outputs.\<close>

definition demo_chip :: gpio_chip where
  "demo_chip = \<lparr>dev = 0, dev_name = ''gpio@0'', label = ''gpiochip0'', line_names = replicate 16 None,
     pin_count = 16, pin_mask = 0, ref_cnt = 0\<rparr>"

definition demo_request :: "u32 list \<Rightarrow> gpiohandle_request" where
  "demo_request offs = \<lparr>lineoffsets = offs @ replicate (64 - length offs) 0, flags = GPIOHANDLE_REQUEST_OUTPUT,
     default_values = replicate 64 1, consumer_label = [], lines = of_nat (length offs), fd = 0\<rparr>"

definition demo_event_request :: gpioevent_request where
  "demo_event_request = \<lparr>lineoffset = 5, handleflags = GPIOHANDLE_REQUEST_INPUT,
     eventflags = GPIOEVENT_REQUEST_BOTH_EDGES, event_label = [], event_fd = 0\<rparr>"

definition demo_static :: "(nat, u8 list) gfs" where
  "demo_static = \<lparr>gpio_devices = [demo_chip],
     gpio_line_handle = replicate 64 \<lparr>line_chip = None, req = demo_request [], handle_name = []\<rparr>,
     gpio_line_event = replicate 64 \<lparr>event_chip = None, event_req = demo_event_request, cb_pins = 0, rb = [], event_name = []\<rparr>,
     world = 0\<rparr>"

lemma demo_static_ok: "static_state demo_static"
  by (simp add: static_state_def demo_static_def demo_chip_def chip_ok_def list_all_length)

definition demo_start :: "(nat, u8 list) gfs" where
  "demo_start = gpio_fs_init demo_os demo_static"

lemma demo_start_ok: "gfs_ok demo_start"
  unfolding demo_start_def by (rule gpio_fs_init_ok [OF demo_static_ok])

lemma demo_devices: "gpio_devices demo_start = [demo_chip]"
  unfolding demo_start_def gpio_fs_init_tables(3) [OF demo_static_ok] by (simp add: demo_static_def)

lemma demo_wf: "length offs \<le> 64 \<Longrightarrow> wf_req (demo_request offs)"
  by (simp add: wf_req_def demo_request_def)

lemma demo_check:
  "line_request_check (demo_request [3, 7]) demo_chip = Some True"
  "line_request_check (demo_request [7]) demo_chip = Some True"
  by code_simp+

lemma demo_valid: "line_request_valid (demo_request [3, 7]) demo_chip"
  using line_request_check_eq [of "demo_request [3, 7]" demo_chip] demo_check(1)
  by (simp add: demo_wf) (simp add: demo_chip_def)

text \<open>The request for pins 3 and 7 succeeds, and the handle is the first one.\<close>

definition demo_opened :: "(nat, u8 list) gfs" where
  "demo_opened = (case gpio_line_handle_create demo_os (demo_request [3, 7]) 0 demo_start of
     Some (_, _, s) \<Rightarrow> s | None \<Rightarrow> demo_start)"

lemma demo_opens:
  "gpio_line_handle_create demo_os (demo_request [3, 7]) 0 demo_start =
     Some (1, (demo_request [3, 7])\<lparr>fd := 3\<rparr>, demo_opened)"
proof -
  have "(case gpio_line_handle_create demo_os (demo_request [3, 7]) 0 demo_start of
     Some (res, r, s) \<Rightarrow> res = 1 \<and> r = (demo_request [3, 7])\<lparr>fd := 3\<rparr> | None \<Rightarrow> False)"
    by code_simp
  then show ?thesis by (auto simp: demo_opened_def split: option.splits prod.splits)
qed

lemma demo_opened_step: "gpio_step demo_os demo_start demo_opened"
proof (rule chip_ioctl [where c = 0 and request = GPIO_GET_LINEHANDLE_IOCTL and arg = "HandleRequest (demo_request [3, 7])"])
  show "0 < length (gpio_devices demo_start)"
    by (simp add: demo_devices)
  then show "gpio_chip_ioctl demo_os 0 GPIO_GET_LINEHANDLE_IOCTL (HandleRequest (demo_request [3, 7])) demo_start =
      Some (1, HandleRequest ((demo_request [3, 7])\<lparr>fd := 3\<rparr>), demo_opened)"
    using demo_ioctl_numbers by (simp add: gpio_chip_ioctl_def demo_opens ioctl_numbers_ok_def)
  show "arg_ok demo_os GPIO_GET_LINEHANDLE_IOCTL (HandleRequest (demo_request [3, 7]))"
    by (simp add: demo_wf)
qed

lemma demo_opened_ok: "gfs_ok demo_opened"
  by (rule gpio_step_ok [OF demo_opened_step demo_start_ok demo_open_laws demo_ioctl_numbers])

lemma demo_opened_owns: "\<exists>i. owns demo_opened (FLine i) 0 3 \<and> line_used demo_opened i"
proof -
  have c: "0 < length (gpio_devices demo_start)"
    by (simp add: demo_devices)
  have "wf_req (demo_request [3, 7])" by (simp add: demo_wf)
  from gpio_line_handle_create_runs [OF demo_start_ok demo_open_laws c this] demo_opens
  obtain i where i: "i < 64" and t: "takes (FLine i) 0 (req_pins (demo_request [3, 7])) demo_start demo_opened" by auto
  have "(3 :: nat) \<in> req_pins (demo_request [3, 7])"
    by (auto simp: req_pins_def demo_request_def intro: image_eqI [of _ _ 0])
  with t have "owns demo_opened (FLine i) 0 3" unfolding takes_def by blast
  with i show ?thesis by (auto simp: line_used_def intro: exI [of _ i])
qed

lemma demo_reachable: "(gpio_step demo_os)\<^sup>*\<^sup>* (gpio_fs_init demo_os demo_static) demo_opened"
  using demo_opened_step by (auto simp: demo_start_def)

section \<open>Ownership of pins\<close>

text \<open>C6. After initialisation, and after any sequence of calls of clients on their open files and of
  interrupts, no pin of a chip belongs to two line handles or events, and the chip's mask of taken
  pins holds exactly the pins that belong to one.\<close>

theorem gpio_pins_exclusively_owned:
  assumes "(gpio_step os)\<^sup>*\<^sup>* (gpio_fs_init os s0) s" "static_state s0" "open_laws os" "ioctl_numbers_ok os"
  shows "(\<forall>h h' c p. owns s h c p \<and> owns s h' c p \<longrightarrow> h = h') \<and>
    (\<forall>c<length (gpio_devices s). \<forall>p. bit (pin_mask (gpio_devices s ! c)) p \<longleftrightarrow> (\<exists>h. owns s h c p))"
proof -
  have "exclusive s" "mask_exact s" using gpio_reachable_ok [OF assms] by (simp_all add: gfs_ok_def)
  then show ?thesis unfolding exclusive_def mask_exact_def masked_def by blast
qed

theorem gpio_pins_exclusively_owned_witness:
  "\<exists>i. owns demo_opened (FLine i) 0 3 \<and> \<not> owns demo_opened (FEvent i) 0 3 \<and>
     bit (pin_mask (gpio_devices demo_opened ! 0)) 3"
proof -
  obtain i where i: "owns demo_opened (FLine i) 0 3" using demo_opened_owns by blast
  note th = gpio_pins_exclusively_owned [OF demo_reachable demo_static_ok demo_open_laws demo_ioctl_numbers]
  have "masked demo_opened 0 3" using demo_opened_ok i unfolding gfs_ok_def mask_exact_def by blast
  then have "0 < length (gpio_devices demo_opened)" by (simp add: masked_def)
  with th i have "bit (pin_mask (gpio_devices demo_opened ! 0)) 3" by blast
  moreover have "\<not> owns demo_opened (FEvent i) 0 3" using th i by blast
  ultimately show ?thesis using i by blast
qed

text \<open>C7. In such a state every call on a file in use runs without undefined behaviour, provided that
  the caller passes the structure that the request names.\<close>

theorem gpio_calls_defined:
  assumes "(gpio_step os)\<^sup>*\<^sup>* (gpio_fs_init os s0) s" "static_state s0" "open_laws os" "ioctl_numbers_ok os"
  shows "(\<forall>c request arg. c < length (gpio_devices s) \<and> arg_ok os request arg \<longrightarrow> gpio_chip_ioctl os c request arg s \<noteq> None) \<and>
    (\<forall>i. line_used s i \<longrightarrow> gpio_line_close os i s \<noteq> None \<and>
       (\<forall>request arg. arg_ok os request arg \<longrightarrow> gpio_line_ioctl os i request arg s \<noteq> None)) \<and>
    (\<forall>i. event_used s i \<longrightarrow> gpio_event_close os i s \<noteq> None \<and>
       (\<forall>request arg. arg_ok os request arg \<longrightarrow> gpio_event_ioctl os i request arg s \<noteq> None))"
proof -
  note ok = gpio_reachable_ok [OF assms]
  show ?thesis
  proof (intro conjI allI impI)
    show "gpio_chip_ioctl os c request arg s \<noteq> None" if "c < length (gpio_devices s) \<and> arg_ok os request arg" for c request arg
      using gpio_chip_ioctl_runs [OF ok assms(3,4)] that by fastforce
    show "gpio_line_close os i s \<noteq> None" if "line_used s i" for i
      using gpio_line_close_returns [OF ok] that by (fastforce simp: line_used_def)
    show "gpio_line_ioctl os i request arg s \<noteq> None" if "line_used s i" "arg_ok os request arg" for i request arg
      using gpio_line_ioctl_runs [OF ok assms(4) that] by auto
    show "gpio_event_close os i s \<noteq> None" if "event_used s i" for i
      using gpio_event_close_returns [OF ok] that by (fastforce simp: event_used_def)
    show "gpio_event_ioctl os i request arg s \<noteq> None" if "event_used s i" "arg_ok os request arg" for i request arg
      using gpio_event_ioctl_runs [OF ok assms(4) that] by auto
  qed
qed

theorem gpio_calls_defined_witness:
  "\<exists>i. line_used demo_opened i \<and> gpio_line_close demo_os i demo_opened \<noteq> None"
  using gpio_calls_defined [OF demo_reachable demo_static_ok demo_open_laws demo_ioctl_numbers]
    demo_opened_owns by blast


section \<open>Requests\<close>

lemma line_create_decided:
  assumes "gfs_ok s" "c < length (gpio_devices s)" "wf_req r"
  shows "gpio_line_handle_create os r c s =
    (if line_request_valid r (gpio_devices s ! c) then line_handle_commit os r c s else Some (- EINVAL, r, s))"
proof -
  have "unat (pin_count (gpio_devices s ! c)) \<le> 32"
    using assms(1,2) tables_line(3) [of s c] by (simp add: gfs_ok_def chip_ok_def)
  from line_request_check_eq [OF assms(3) this] show ?thesis
    using assms(2) by (simp add: gpio_line_handle_create_def)
qed

lemma event_create_decided:
  assumes "gfs_ok s" "c < length (gpio_devices s)"
  shows "gpio_line_event_create os e c s =
    (if event_request_valid e (gpio_devices s ! c) then line_event_commit os e c s else Some (- EINVAL, e, s))"
proof -
  have "unat (pin_count (gpio_devices s ! c)) \<le> 32"
    using assms(1,2) tables_line(3) [of s c] by (simp add: gfs_ok_def chip_ok_def)
  from event_request_check_eq [OF this, of e] show ?thesis
    using assms(2) by (simp add: gpio_line_event_create_def)
qed

text \<open>C18. The checks of a request for line handles accept exactly the requests that name between one
  and all of the chip's pins, all existing and none taken, with a legal combination of flags; the
  checks of a request for an event accept exactly an existing free pin with input flags. Anything
  else is answered -EINVAL and changes nothing.\<close>

theorem gpio_requests_decided:
  assumes "gfs_ok s" "c < length (gpio_devices s)" "wf_req r"
  defines "ch \<equiv> gpio_devices s ! c"
  shows "gpio_line_handle_create os r c s =
      (if line_request_valid r ch then line_handle_commit os r c s else Some (- EINVAL, r, s)) \<and>
    gpio_line_event_create os e c s =
      (if event_request_valid e ch then line_event_commit os e c s else Some (- EINVAL, e, s))"
  unfolding ch_def using line_create_decided [OF assms(1-3)] event_create_decided [OF assms(1,2)] by blast

theorem gpio_requests_decided_witness:
  "gpio_line_handle_create demo_os (demo_request [3, 16]) 0 demo_opened = Some (- EINVAL, demo_request [3, 16], demo_opened)"
proof -
  obtain i where i: "owns demo_opened (FLine i) 0 3" using demo_opened_owns by blast
  have m: "masked demo_opened 0 3" using demo_opened_ok i unfolding gfs_ok_def mask_exact_def by blast
  then have c: "0 < length (gpio_devices demo_opened)" by (simp add: masked_def)
  have "(3 :: nat) \<in> req_pins (demo_request [3, 16])"
    by (auto simp: req_pins_def demo_request_def intro: image_eqI [of _ _ 0])
  then have "\<not> line_request_valid (demo_request [3, 16]) (gpio_devices demo_opened ! 0)"
    using m by (auto simp: line_request_valid_def masked_def)
  moreover have "wf_req (demo_request [3, 16])" by (simp add: demo_wf)
  ultimately show ?thesis using gpio_requests_decided [OF demo_opened_ok c] by simp
qed

text \<open>C19. Closing a line handle or an event undoes its request: the file that closes is the one that was
  allocated, and the chips' masks and the owners of all pins are what they were before.\<close>

theorem open_close_restores:
  assumes "gfs_ok s" "open_laws os" "c < length (gpio_devices s)"
  shows "(\<forall>r r' s1. wf_req r \<and> gpio_line_handle_create os r c s = Some (1, r', s1) \<longrightarrow>
      (\<exists>i s2. gpio_line_handle_alloc s = Some i \<and> gpio_line_close os i s1 = Some (0, s2) \<and>
        owns s2 = owns s \<and> masked s2 = masked s)) \<and>
    (\<forall>r r' s1. gpio_line_event_create os r c s = Some (1, r', s1) \<longrightarrow>
      (\<exists>i s2. gpio_line_event_alloc s = Some i \<and> gpio_event_close os i s1 = Some (0, s2) \<and>
        owns s2 = owns s \<and> masked s2 = masked s))"
proof (intro conjI allI impI)
  fix r r' s1
  assume r: "wf_req r \<and> gpio_line_handle_create os r c s = Some (1, r', s1)"
  show "\<exists>i s2. gpio_line_handle_alloc s = Some i \<and> gpio_line_close os i s1 = Some (0, s2) \<and>
        owns s2 = owns s \<and> masked s2 = masked s"
    using line_resource.request_release [OF assms, of r r' s1] r unfolding same_owners_def by blast
next
  fix r r' s1
  assume r: "gpio_line_event_create os r c s = Some (1, r', s1)"
  show "\<exists>i s2. gpio_line_event_alloc s = Some i \<and> gpio_event_close os i s1 = Some (0, s2) \<and>
        owns s2 = owns s \<and> masked s2 = masked s"
    using event_resource.request_release [OF assms TrueI r] unfolding same_owners_def by blast
qed

theorem open_close_restores_witness:
  "\<exists>i s2. gpio_line_close demo_os i demo_opened = Some (0, s2) \<and> owns s2 = owns demo_start"
proof -
  have "0 < length (gpio_devices demo_start)" by (simp add: demo_devices)
  moreover have "wf_req (demo_request [3, 7])" by (simp add: demo_wf)
  ultimately show ?thesis
    using open_close_restores [OF demo_start_ok demo_open_laws] demo_opens by blast
qed

section \<open>The queue of events\<close>

text \<open>The abstract queue holds at most sixteen records; a record that arrives when it is full is lost.\<close>

definition enqueue_record :: "'a list \<Rightarrow> 'a \<Rightarrow> 'a list" where
  "enqueue_record recs b = (if length recs < GPIO_LINE_EVENT_DATA_MAX then recs @ [b] else recs)"

definition event_queue :: "('rb \<Rightarrow> u8 list) \<Rightarrow> ('w, 'rb) gfs \<Rightarrow> nat \<Rightarrow> u8 list list \<Rightarrow> bool" where
  "event_queue content s i recs \<longleftrightarrow> content (rb (gpio_line_event s ! i)) = concat recs \<and>
     (\<forall>b\<in>set recs. length b = sizeof_gpioevent_data) \<and> length recs \<le> GPIO_LINE_EVENT_DATA_MAX"

lemma length_concat_records: "\<forall>b\<in>set recs. length b = 16 \<Longrightarrow> length (concat recs) = 16 * length recs"
  by (induction recs) auto

lemma take_drop_concat:
  "\<forall>b\<in>set recs. length b = 16 \<Longrightarrow>
   take (16 * k) (concat recs) = concat (take k recs) \<and> drop (16 * k) (concat recs) = concat (drop k recs)"
proof (induction recs arbitrary: k)
  case (Cons b recs)
  then show ?case by (cases k) auto
qed simp

lemma length_event_bytes: "length pad = 4 \<Longrightarrow> length (event_bytes d pad) = 16"
  by (simp add: event_bytes_def le_bytes_def)

lemma edge_id_runs:
  assumes "tables_ok s" "i < 64" "event_chip (gpio_line_event s ! i) = Some c"
  shows "\<exists>n w'. edge_id os (gpio_line_event s ! i) u s w = Some (n, w') \<and>
    (has (eventflags (event_req (gpio_line_event s ! i))) 1 \<or> has (eventflags (event_req (gpio_line_event s ! i))) 2
      \<longrightarrow> n \<in> {GPIOEVENT_EVENT_RISING_EDGE, GPIOEVENT_EVENT_FALLING_EDGE})"
  using assms event_in_use(1) [OF assms]
  by (auto simp: edge_id_def Let_def split: prod.splits)

text \<open>What an interrupt on the event's pin does to the buffer.\<close>

lemma gpio_irq_puts:
  assumes ok: "gfs_ok s" and used: "event_used s i" and no_assert: "\<not> CONFIG_ASSERT os"
    and pin: "bit pins (unat (lineoffset (event_req (gpio_line_event s ! i))))"
  shows "\<exists>d s'. gpio_irq os u pad i pins s = Some s' \<and>
    rb (gpio_line_event s' ! i) = snd (ring_buf_put os (rb (gpio_line_event s ! i)) (event_bytes d pad)) \<and>
    timestamp d = fst (k_uptime_get os (world s)) * 1000000 \<and>
    (has (eventflags (event_req (gpio_line_event s ! i))) 1 \<or> has (eventflags (event_req (gpio_line_event s ! i))) 2
      \<longrightarrow> event_id d \<in> {GPIOEVENT_EVENT_RISING_EDGE, GPIOEVENT_EVENT_FALLING_EDGE})"
proof -
  have tab: "tables_ok s" using ok by (simp add: gfs_ok_def)
  from used obtain c where i: "i < 64" and c: "event_chip (gpio_line_event s ! i) = Some c"
    by (auto simp: event_used_def)
  note u = event_in_use [OF tab i c] and len = tables_length [OF tab]
  obtain now w where now: "k_uptime_get os (world s) = (now, w)" by fastforce
  from edge_id_runs [OF tab i c, of os u w] obtain n w' where
    n: "edge_id os (gpio_line_event s ! i) u s w = Some (n, w')" and
    legal: "has (eventflags (event_req (gpio_line_event s ! i))) 1 \<or> has (eventflags (event_req (gpio_line_event s ! i))) 2
      \<longrightarrow> n \<in> {GPIOEVENT_EVENT_RISING_EDGE, GPIOEVENT_EVENT_FALLING_EDGE}" by blast
  let ?d = "\<lparr>timestamp = now * 1000000, event_id = n\<rparr>"
  obtain sz r where put: "ring_buf_put os (rb (gpio_line_event s ! i)) (event_bytes ?d pad) = (sz, r)" by fastforce
  have "gpio_irq os u pad i pins s =
      Some (upd_event i (\<lambda>e. e\<lparr>rb := r\<rparr>) (s\<lparr>world := k_poll_signal_raise os i 1 w'\<rparr>))"
    using u(3) i len no_assert pin now n put by (simp add: gpio_irq_def BIT_Some)
  then show ?thesis
    using now put legal i len by (intro exI [of _ ?d]) simp
qed

lemma gpio_event_read_takes:
  assumes "gfs_ok s" "i < 64" "ring_laws os content cap"
  shows "\<exists>s'. gpio_event_read os i n s = Some (take n (content (rb (gpio_line_event s ! i))), s') \<and>
    content (rb (gpio_line_event s' ! i)) = drop n (content (rb (gpio_line_event s ! i)))"
proof -
  have len: "i < length (gpio_line_event s)" using assms(1,2) tables_length [of s] by (simp add: gfs_ok_def)
  let ?r = "rb (gpio_line_event s ! i)"
  have "ring_buf_get os ?r n = (take n (content ?r), snd (ring_buf_get os ?r n))"
    "content (snd (ring_buf_get os ?r n)) = drop n (content ?r)"
    using assms(3) by (auto simp: ring_laws_def)
  then show ?thesis using len by (cases "ring_buf_get os ?r n") (simp add: gpio_event_read_def)
qed

text \<open>C8. As long as its reader takes whole records, an event's byte buffer is a queue of records of
  sixteen: an interrupt on the pin appends a record with the time and a valid edge, or loses it when
  the queue is full, and a read of \<open>k\<close> records returns the oldest \<open>k\<close>.\<close>

theorem event_buffer_is_queue:
  assumes "gfs_ok s" "event_used s i" "ring_laws os content 256" "\<not> CONFIG_ASSERT os"
    and "event_queue content s i recs" "length pad = 4"
    and "bit pins (unat (lineoffset (event_req (gpio_line_event s ! i))))"
    and "eventflags (event_req (gpio_line_event s ! i)) \<in> {1, 2, 3}"
  shows "(\<exists>d s'. gpio_irq os u pad i pins s = Some s' \<and>
      event_queue content s' i (enqueue_record recs (event_bytes d pad)) \<and>
      timestamp d = fst (k_uptime_get os (world s)) * 1000000 \<and>
      event_id d \<in> {GPIOEVENT_EVENT_RISING_EDGE, GPIOEVENT_EVENT_FALLING_EDGE}) \<and>
    (\<exists>s'. gpio_event_read os i (sizeof_gpioevent_data * k) s = Some (concat (take k recs), s') \<and>
      event_queue content s' i (drop k recs))"
proof
  let ?r = "rb (gpio_line_event s ! i)"
  have q: "content ?r = concat recs" "\<forall>b\<in>set recs. length b = 16" "length recs \<le> 16"
    using assms(5) by (simp_all add: event_queue_def)
  have l: "length (content ?r) = 16 * length recs" using length_concat_records [OF q(2)] q(1) by simp
  have edges: "has (eventflags (event_req (gpio_line_event s ! i))) 1 \<or> has (eventflags (event_req (gpio_line_event s ! i))) 2"
    using assms(8) by auto
  from gpio_irq_puts [OF assms(1,2,4,7), of u pad] edges obtain d s' where
    irq: "gpio_irq os u pad i pins s = Some s'" and
    put: "rb (gpio_line_event s' ! i) = snd (ring_buf_put os ?r (event_bytes d pad))" and
    d: "timestamp d = fst (k_uptime_get os (world s)) * 1000000"
      "event_id d \<in> {GPIOEVENT_EVENT_RISING_EDGE, GPIOEVENT_EVENT_FALLING_EDGE}" by blast
  have "content (rb (gpio_line_event s' ! i)) = content ?r @ take (256 - length (content ?r)) (event_bytes d pad)"
    unfolding put using assms(3) unfolding ring_laws_def by blast
  moreover have "take (256 - 16 * length recs) (event_bytes d pad) = (if length recs < 16 then event_bytes d pad else [])"
    using length_event_bytes [OF assms(6), of d] q(3) by auto
  ultimately have "event_queue content s' i (enqueue_record recs (event_bytes d pad))"
    using q length_event_bytes [OF assms(6), of d] unfolding event_queue_def enqueue_record_def l by auto
  with irq d show "\<exists>d s'. gpio_irq os u pad i pins s = Some s' \<and>
      event_queue content s' i (enqueue_record recs (event_bytes d pad)) \<and>
      timestamp d = fst (k_uptime_get os (world s)) * 1000000 \<and>
      event_id d \<in> {GPIOEVENT_EVENT_RISING_EDGE, GPIOEVENT_EVENT_FALLING_EDGE}" by blast
  have i: "i < 64" using assms(2) by (simp add: event_used_def)
  have "\<forall>b\<in>set (drop k recs). length b = 16" using q(2) by (meson in_set_dropD)
  moreover have "length (drop k recs) \<le> 16" using q(3) by simp
  moreover note gpio_event_read_takes [OF assms(1) i assms(3), of "16 * k"]
  ultimately show "\<exists>s'. gpio_event_read os i (16 * k) s = Some (concat (take k recs), s') \<and>
      event_queue content s' i (drop k recs)"
    using take_drop_concat [OF q(2), of k] q(1) by (auto simp: event_queue_def)
qed

text \<open>An event on pin 5, with an empty queue.\<close>

definition demo_event :: "(nat, u8 list) gfs" where
  "demo_event = (case gpio_line_event_create demo_os demo_event_request 0 demo_start of
     Some (_, _, s) \<Rightarrow> s | None \<Rightarrow> demo_start)"

lemma demo_event_created:
  "gpio_line_event_create demo_os demo_event_request 0 demo_start =
     Some (1, demo_event_request\<lparr>event_fd := 3\<rparr>, demo_event) \<and>
   gpio_line_event demo_event ! 0 = \<lparr>event_chip = Some 0, event_req = demo_event_request\<lparr>event_fd := 3\<rparr>,
     cb_pins = 32, rb = [], event_name = ''event0''\<rparr>"
proof -
  have "(case gpio_line_event_create demo_os demo_event_request 0 demo_start of
     Some (res, r, s) \<Rightarrow> res = 1 \<and> r = demo_event_request\<lparr>event_fd := 3\<rparr> \<and>
       gpio_line_event s ! 0 = \<lparr>event_chip = Some 0, event_req = demo_event_request\<lparr>event_fd := 3\<rparr>,
     cb_pins = 32, rb = [], event_name = ''event0''\<rparr> | None \<Rightarrow> False)"
    by code_simp
  then show ?thesis by (auto simp: demo_event_def split: option.splits prod.splits)
qed

lemma demo_event_ok: "gfs_ok demo_event"
proof -
  have "0 < length (gpio_devices demo_start)"
    by (simp add: demo_devices)
  from gpio_line_event_create_runs [OF demo_start_ok demo_open_laws this, of demo_event_request]
  show ?thesis using demo_event_created by auto
qed

theorem event_buffer_is_queue_witness:
  "\<exists>d s'. gpio_irq demo_os 0 [0, 0, 0, 0] 0 32 demo_event = Some s' \<and>
     event_queue id s' 0 [event_bytes d [0, 0, 0, 0]] \<and> timestamp d = 7000000"
proof -
  have "event_used demo_event 0" "event_queue id demo_event 0 []"
    "bit (32 :: u32) (unat (lineoffset (event_req (gpio_line_event demo_event ! 0))))"
    "eventflags (event_req (gpio_line_event demo_event ! 0)) \<in> {1, 2, 3}"
    using demo_event_created
    by (auto simp: event_used_def event_queue_def demo_event_request_def bit_numeral_rec)
  moreover have "\<not> CONFIG_ASSERT demo_os" "fst (k_uptime_get demo_os (world demo_event)) = 7"
    by (simp_all add: demo_os_def)
  ultimately show ?thesis
    using event_buffer_is_queue [OF demo_event_ok _ demo_ring_laws, of 0 "[]" "[0, 0, 0, 0]" 32 0]
    by (simp add: enqueue_record_def) blast
qed

section \<open>Where the code falls short\<close>

text \<open>A read that is not a multiple of the record size breaks the framing: after a read of \<open>n < 16\<close>
  bytes from a full buffer, the next edge stores only the first \<open>n\<close> bytes of its record.\<close>

theorem partial_read_breaks_records:
  assumes "gfs_ok s" "event_used s i" "ring_laws os content 256" "\<not> CONFIG_ASSERT os" "length pad = 4"
    and "length (content (rb (gpio_line_event s ! i))) = 256" "n < sizeof_gpioevent_data"
    and "bit pins (unat (lineoffset (event_req (gpio_line_event s ! i))))"
  shows "\<exists>bs s1 d s2. gpio_event_read os i n s = Some (bs, s1) \<and> gpio_irq os u pad i pins s1 = Some s2 \<and>
    content (rb (gpio_line_event s2 ! i)) =
      drop n (content (rb (gpio_line_event s ! i))) @ take n (event_bytes d pad)"
proof -
  have i: "i < 64" using assms(2) by (simp add: event_used_def)
  have len: "i < length (gpio_line_event s)" using assms(1) i tables_length [of s] by (simp add: gfs_ok_def)
  from gpio_event_read_takes [OF assms(1) i assms(3), of n] obtain bs s1 where
    read: "gpio_event_read os i n s = Some (bs, s1)" and
    c1: "content (rb (gpio_line_event s1 ! i)) = drop n (content (rb (gpio_line_event s ! i)))" by blast
  have ok1: "gfs_ok s1" using gpio_event_read_frame [OF assms(1) read] by simp
  have keep: "event_chip (gpio_line_event s1 ! i) = event_chip (gpio_line_event s ! i)"
    "event_req (gpio_line_event s1 ! i) = event_req (gpio_line_event s ! i)"
    using read len by (auto simp: gpio_event_read_def Let_def split: prod.splits)
  have "event_used s1 i" using assms(2) keep by (simp add: event_used_def)
  from gpio_irq_puts [OF ok1 this assms(4), of pins u pad] assms(8) keep obtain d s2 where
    irq: "gpio_irq os u pad i pins s1 = Some s2" and
    put: "rb (gpio_line_event s2 ! i) = snd (ring_buf_put os (rb (gpio_line_event s1 ! i)) (event_bytes d pad))" by auto
  have "content (rb (gpio_line_event s2 ! i)) = content (rb (gpio_line_event s1 ! i)) @
      take (256 - length (content (rb (gpio_line_event s1 ! i)))) (event_bytes d pad)"
    unfolding put using assms(3) unfolding ring_laws_def by blast
  then show ?thesis using read irq c1 assms(6,7) by (intro exI [of _ bs] exI [of _ s1] exI [of _ d] exI [of _ s2]) simp
qed

theorem partial_read_breaks_records_witness:
  "\<exists>bs s1 d s2. gpio_event_read demo_os 0 8 (upd_event 0 (\<lambda>e. e\<lparr>rb := replicate 256 0\<rparr>) demo_event) = Some (bs, s1) \<and>
    gpio_irq demo_os 0 [0, 0, 0, 0] 0 32 s1 = Some s2 \<and>
    rb (gpio_line_event s2 ! 0) = replicate 248 0 @ take 8 (event_bytes d [0, 0, 0, 0])"
proof -
  let ?s = "upd_event 0 (\<lambda>e. e\<lparr>rb := replicate 256 0\<rparr>) demo_event"
  have ok: "gfs_ok ?s" using rb_frame [OF demo_event_ok, of 0 "replicate 256 0" "world demo_event"] by simp
  have len: "length (gpio_line_event demo_event) = 64" using demo_event_ok tables_length by (auto simp: gfs_ok_def)
  have "event_used ?s 0" "bit (32 :: u32) (unat (lineoffset (event_req (gpio_line_event ?s ! 0))))"
    "rb (gpio_line_event ?s ! 0) = replicate 256 0"
    using demo_event_created len by (auto simp: event_used_def demo_event_request_def bit_numeral_rec)
  moreover have "\<not> CONFIG_ASSERT demo_os" by (simp add: demo_os_def)
  ultimately show ?thesis
    using partial_read_breaks_records [OF ok _ demo_ring_laws, of 0 "[0, 0, 0, 0]" 8 32 0] by simp
qed

text \<open>When the device file cannot be registered, the request is answered with zero, which is not an
  error, and no descriptor; a request that succeeds is answered with one.\<close>

theorem failed_registration_reports_success:
  assumes "gfs_ok s" "c < length (gpio_devices s)" "wf_req r" "line_request_valid r (gpio_devices s ! c)"
    and "gpio_line_handle_alloc s = Some i"
    and "fst (devfs_register_anon os (dev_path (handle_name (gpio_line_handle s ! i))) (world s)) \<noteq> 0"
  shows "\<exists>s'. gpio_line_handle_create os r c s = Some (0, r, s') \<and> owns s' = owns s \<and> gfs_ok s'"
proof -
  have tab: "tables_ok s" using assms(1) by (simp add: gfs_ok_def)
  obtain reg w where reg: "devfs_register_anon os (dev_path (handle_name (gpio_line_handle s ! i))) (world s) = (reg, w)"
    by fastforce
  note i = line_handle_alloc_Some [OF assms(5) tab]
  let ?s' = "gpio_line_handle_free i (s\<lparr>world := w\<rparr>)"
  have "gpio_line_handle_create os r c s = Some (0, r, ?s')"
    using line_create_decided [OF assms(1-3), of os] assms(4-6) reg by (simp add: line_handle_commit_def)
  moreover have "tables_ok ?s' \<and> same_owners (s\<lparr>world := w\<rparr>) ?s'"
    unfolding gpio_line_handle_free_def by (rule idle_line) (use tab i in simp_all)
  then have "tables_ok ?s'" "same_owners s ?s'" by simp_all
  ultimately show ?thesis using same_owners_ok [OF assms(1)] unfolding same_owners_def by blast
qed

text \<open>The kernel of the examples refuses to register a file in its state 1.\<close>

theorem failed_registration_reports_success_witness:
  "\<exists>s'. gpio_line_handle_create demo_os (demo_request [3, 7]) 0 (demo_start\<lparr>world := 1\<rparr>) = Some (0, demo_request [3, 7], s') \<and>
    owns s' = owns (demo_start\<lparr>world := 1\<rparr>)"
proof -
  let ?s = "demo_start\<lparr>world := 1\<rparr>"
  have c: "0 < length (gpio_devices ?s)" and v: "line_request_valid (demo_request [3, 7]) (gpio_devices ?s ! 0)"
    using demo_valid by (simp_all add: demo_devices)
  have "gpio_line_handle_alloc ?s = Some 0"
    using gpio_fs_init_tables(1) [OF demo_static_ok, of demo_os]
    by (simp add: gpio_line_handle_alloc_def demo_start_def demo_static_def upt_conv_Cons)
  moreover have "gfs_ok ?s" using demo_start_ok by simp
  moreover have "wf_req (demo_request [3, 7])" by (simp add: demo_wf)
  ultimately show ?thesis
    using failed_registration_reports_success [OF _ c _ v, of 0 demo_os]
    by (fastforce simp: demo_os_def)
qed




text \<open>The device file of a line handle can be opened a second time while the handle is in use. The
  first of the two descriptors that is closed frees the handle; closing the second dereferences its
  null chip.\<close>

theorem second_close_undefined:
  assumes "gfs_ok s" "line_used s i"
  shows "\<exists>s1 s2. gpio_line_open os (handle_name (gpio_line_handle s ! i)) s = Some (0, Some (FLine i), s1) \<and>
    gpio_line_close os i s1 = Some (0, s2) \<and> gpio_line_close os i s2 = None"
proof -
  have tab: "tables_ok s" using assms(1) by (simp add: gfs_ok_def)
  from assms(2) obtain c where i: "i < 64" and c: "line_chip (gpio_line_handle s ! i) = Some c"
    by (auto simp: line_used_def)
  from gpio_line_open_runs [OF tab i c, of os] obtain m w where
    o: "gpio_line_open os (handle_label i) s =
      Some (0, Some (FLine i), upd_chip c (\<lambda>ch. ch\<lparr>pin_mask := m\<rparr>) (s\<lparr>world := w\<rparr>))" by blast
  let ?s1 = "upd_chip c (\<lambda>ch. ch\<lparr>pin_mask := m\<rparr>) (s\<lparr>world := w\<rparr>)"
  have tab1: "tables_ok ?s1" by (rule tables_ok_chip) (use tab in simp_all)
  have "line_chip (gpio_line_handle ?s1 ! i) = Some c" using c by simp
  from gpio_line_close_runs [OF tab1 i this, of os] obtain s' where
    close: "gpio_line_close os i ?s1 = Some (0, gpio_line_handle_free i s')"
    and l: "length (gpio_line_handle s') = 64" using tables_length [OF tab] by auto
  have "gpio_line_close os i (gpio_line_handle_free i s') = None"
    using i l by (simp add: gpio_line_close_def gpio_line_handle_free_def)
  with o close tab i show ?thesis by (auto simp: tables_name)
qed

theorem second_close_undefined_witness:
  "\<exists>i s1 s2. gpio_line_open demo_os (handle_name (gpio_line_handle demo_opened ! i)) demo_opened = Some (0, Some (FLine i), s1) \<and>
    gpio_line_close demo_os i s1 = Some (0, s2) \<and> gpio_line_close demo_os i s2 = None"
  using second_close_undefined [OF demo_opened_ok] demo_opened_owns by blast

end
