(* ===== verification/Xhci_Types.thy ===== *)
theory Xhci_Types
  imports Prelude
begin

text \<open>
  The data of the USB host controller driver \<open>samples/dwc3_host/src\<close>: \<open>xhci_def.h\<close>. The controller
  shares three kinds of memory with the driver: transfer request blocks (TRBs) in rings, device and
  input contexts, and its registers. A ring and a context exist twice, as the driver sees them and as
  the controller sees them (\<open>mem\<close>): \<open>xhci_cache_flush\<close> copies one way, \<open>xhci_cache_invalid\<close> the other.

  Registers, the allocator and what the controller does while the driver waits are parameters
  (\<open>xhci_hw\<close>) over a state \<open>'w\<close>.
\<close>

type_synonym u64 = "64 word"

section \<open>Constants\<close>

abbreviation (input) XHCI_RING_TRB_MAX_NUM :: u32 where "XHCI_RING_TRB_MAX_NUM \<equiv> 32"
abbreviation (input) XHCI_SLOT_MAX :: nat where "XHCI_SLOT_MAX \<equiv> 16"

abbreviation (input) TRB_TYPE_BITMASK :: u32 where "TRB_TYPE_BITMASK \<equiv> 0xfc00"
definition TRB_TYPE :: "u32 \<Rightarrow> u32" where "TRB_TYPE p = push_bit 10 p"
abbreviation (input) TRB_IDT :: u32 where "TRB_IDT \<equiv> 0x40"
definition TRB_TRT :: "u32 \<Rightarrow> u32" where "TRB_TRT p = push_bit 16 p"
abbreviation (input) TRB_ISP :: u32 where "TRB_ISP \<equiv> 0x04"
abbreviation (input) TRB_DIR_IN :: u32 where "TRB_DIR_IN \<equiv> 0x10000"
abbreviation (input) TRB_IOC :: u32 where "TRB_IOC \<equiv> 0x20"
abbreviation (input) TRB_DATA_IN :: u32 where "TRB_DATA_IN \<equiv> 3"
abbreviation (input) TRB_DATA_OUT :: u32 where "TRB_DATA_OUT \<equiv> 2"
abbreviation (input) TRB_BSR :: u32 where "TRB_BSR \<equiv> 0x200"
abbreviation (input) TRB_CYCLE :: u32 where "TRB_CYCLE \<equiv> 1"
abbreviation (input) LINK_TOGGLE :: u32 where "LINK_TOGGLE \<equiv> 2"
abbreviation (input) STS_HALT :: u32 where "STS_HALT \<equiv> 1"
abbreviation (input) STS_CNR :: u32 where "STS_CNR \<equiv> 0x800"
abbreviation (input) CMD_RUN :: u32 where "CMD_RUN \<equiv> 1"
abbreviation (input) CMD_RESET :: u32 where "CMD_RESET \<equiv> 2"
abbreviation (input) CMD_EIE :: u32 where "CMD_EIE \<equiv> 4"
abbreviation (input) ERST_EHB :: u64 where "ERST_EHB \<equiv> 8"
abbreviation (input) ERST_PTR_MASK :: u64 where "ERST_PTR_MASK \<equiv> 0xf"
abbreviation (input) SLOT_FLAG :: u32 where "SLOT_FLAG \<equiv> 1"
abbreviation (input) EP0_FLAG :: u32 where "EP0_FLAG \<equiv> 2"
abbreviation (input) XHCI_OP_PORTSC_PRC :: u32 where "XHCI_OP_PORTSC_PRC \<equiv> 0x200000"
abbreviation (input) XHCI_OP_PORTSC_RESET :: u32 where "XHCI_OP_PORTSC_RESET \<equiv> 0x10"
abbreviation (input) XHCI_OP_PORTSC_CSC :: u32 where "XHCI_OP_PORTSC_CSC \<equiv> 0x20000"
abbreviation (input) XHCI_USBSTS_EINT :: u32 where "XHCI_USBSTS_EINT \<equiv> 8"
abbreviation (input) XHCI_IMAIN_IP :: u32 where "XHCI_IMAIN_IP \<equiv> 1"
abbreviation (input) XHCI_CTX_TYPE_DEVICE :: nat where "XHCI_CTX_TYPE_DEVICE \<equiv> 1"
abbreviation (input) XHCI_CTX_TYPE_INPUT :: nat where "XHCI_CTX_TYPE_INPUT \<equiv> 2"

text \<open>\<open>GET_PORT_ID\<close> masks a 64-bit parameter with \<open>0xff << 24\<close>, a negative \<open>int\<close> that is sign
  extended: the bits above the port number are kept.\<close>

definition GET_PORT_ID :: "u64 \<Rightarrow> u64" where "GET_PORT_ID p = drop_bit 24 (p AND 0xFFFFFFFFFF000000)"
definition GET_COMP_CODE :: "u32 \<Rightarrow> u32" where "GET_COMP_CODE p = drop_bit 24 (p AND 0xFF000000)"
definition TRB_TO_SLOT_ID :: "u32 \<Rightarrow> u32" where "TRB_TO_SLOT_ID p = drop_bit 24 (p AND 0xFF000000)"
definition SLOT_ID_FOR_TRB :: "u32 \<Rightarrow> u32" where "SLOT_ID_FOR_TRB p = push_bit 24 (p AND 0xff)"
definition HCC_64BYTE_CONTEXT :: "u32 \<Rightarrow> bool" where "HCC_64BYTE_CONTEXT p \<longleftrightarrow> p AND 4 \<noteq> 0"
definition CTX_SIZE :: "u32 \<Rightarrow> nat" where "CTX_SIZE hcc = (if HCC_64BYTE_CONTEXT hcc then 64 else 32)"
definition XHCI_OP_PORTSC_SPEED :: "u32 \<Rightarrow> u32" where "XHCI_OP_PORTSC_SPEED psc = drop_bit 10 psc AND 0xf"
definition XHCI_OP_PORTSC_LINK_STATE :: "u32 \<Rightarrow> u32" where "XHCI_OP_PORTSC_LINK_STATE psc = drop_bit 5 psc AND 0xf"
definition EP_ID_FOR_TRB :: "u32 \<Rightarrow> u32" where "EP_ID_FOR_TRB p = push_bit 16 ((p + 1) AND 0x1f)"
definition HCSPARAMS2_SCRATPAD_NUM :: "u32 \<Rightarrow> u32" where
  "HCSPARAMS2_SCRATPAD_NUM p = (drop_bit 16 p AND 0x3e0) OR (drop_bit 27 p AND 0x1f)"
definition EP_CTX_MAX_PACKET :: "u32 \<Rightarrow> u32" where "EP_CTX_MAX_PACKET n = push_bit 16 n"
definition EP_CTX_TYPE :: "u32 \<Rightarrow> u32" where "EP_CTX_TYPE n = push_bit 3 n"
definition EP_CTX_ERR_CNT :: "u32 \<Rightarrow> u32" where "EP_CTX_ERR_CNT n = push_bit 1 (n AND 3)"
definition SLOT_CTX_ENTRIES :: "u32 \<Rightarrow> u32" where "SLOT_CTX_ENTRIES n = push_bit 27 n"
definition SLOT_CTX_ROOT_STR :: "u32 \<Rightarrow> u32" where "SLOT_CTX_ROOT_STR n = n"
definition SLOT_CTX_SPEED :: "u32 \<Rightarrow> u32" where "SLOT_CTX_SPEED n = push_bit 20 n"
definition SLOT_CTX_ROOTHUB_PORT_NUM :: "u32 \<Rightarrow> u32" where "SLOT_CTX_ROOTHUB_PORT_NUM n = push_bit 16 n"
definition XHCI_PORT_RO :: u32 where
  "XHCI_PORT_RO = 1 OR push_bit 3 1 OR push_bit 10 0xf OR push_bit 30 1"
definition XHCI_PORT_RWS :: u32 where
  "XHCI_PORT_RWS = push_bit 5 0xf OR push_bit 9 1 OR push_bit 14 3 OR push_bit 25 7"

abbreviation (input) TRB_NORMAL :: u32 where "TRB_NORMAL \<equiv> 1"
abbreviation (input) TRB_SETUP :: u32 where "TRB_SETUP \<equiv> 2"
abbreviation (input) TRB_DATA :: u32 where "TRB_DATA \<equiv> 3"
abbreviation (input) TRB_STATUS :: u32 where "TRB_STATUS \<equiv> 4"
abbreviation (input) TRB_LINK :: u32 where "TRB_LINK \<equiv> 6"
abbreviation (input) TRB_TR_NOOP :: u32 where "TRB_TR_NOOP \<equiv> 8"
abbreviation (input) TRB_ENABLE_SLOT :: u32 where "TRB_ENABLE_SLOT \<equiv> 9"
abbreviation (input) TRB_DISABLE_SLOT :: u32 where "TRB_DISABLE_SLOT \<equiv> 10"
abbreviation (input) TRB_ADDR_DEV :: u32 where "TRB_ADDR_DEV \<equiv> 11"
abbreviation (input) TRB_CONFIG_EP :: u32 where "TRB_CONFIG_EP \<equiv> 12"
abbreviation (input) TRB_RESET_EP :: u32 where "TRB_RESET_EP \<equiv> 14"
abbreviation (input) TRB_SET_DEQ :: u32 where "TRB_SET_DEQ \<equiv> 16"
abbreviation (input) TRB_RESET_DEV :: u32 where "TRB_RESET_DEV \<equiv> 17"
abbreviation (input) TRB_CMD_NOOP :: u32 where "TRB_CMD_NOOP \<equiv> 23"
abbreviation (input) TRB_TRANSFER :: u32 where "TRB_TRANSFER \<equiv> 32"
abbreviation (input) TRB_COMPLETION :: u32 where "TRB_COMPLETION \<equiv> 33"
abbreviation (input) TRB_PORT_STATUS :: u32 where "TRB_PORT_STATUS \<equiv> 34"
abbreviation (input) COMP_SUCCESS :: u32 where "COMP_SUCCESS \<equiv> 1"
abbreviation (input) COMP_STALL_ERROR :: u32 where "COMP_STALL_ERROR \<equiv> 6"
abbreviation (input) COMP_SHORT_PACKET :: u32 where "COMP_SHORT_PACKET \<equiv> 13"
abbreviation (input) PLS_U0_STATE :: u32 where "PLS_U0_STATE \<equiv> 0"
abbreviation (input) PLS_RXDETECT_STATE :: u32 where "PLS_RXDETECT_STATE \<equiv> 5"
abbreviation (input) PLS_POLLING_STATE :: u32 where "PLS_POLLING_STATE \<equiv> 7"

datatype xhci_usb_speed = USB_SPEED_UNKNOWN | USB_SPEED_FULL | USB_SPEED_LOW | USB_SPEED_HIGH | Speed_other u32

text \<open>The C enumeration also takes the values of a register that have no enumerator.\<close>

definition speed_of :: "u32 \<Rightarrow> xhci_usb_speed" where
  "speed_of n = (if n = 0 then USB_SPEED_UNKNOWN else if n = 1 then USB_SPEED_FULL
     else if n = 2 then USB_SPEED_LOW else if n = 3 then USB_SPEED_HIGH else Speed_other n)"

fun speed_value :: "xhci_usb_speed \<Rightarrow> u32" where
  "speed_value USB_SPEED_UNKNOWN = 0"
| "speed_value USB_SPEED_FULL = 1"
| "speed_value USB_SPEED_LOW = 2"
| "speed_value USB_SPEED_HIGH = 3"
| "speed_value (Speed_other n) = n"

datatype xhci_ep_type = EP_ISO_OUT | EP_BULK_OUT | EP_INT_OUT | EP_CONTROL_BIDIR | EP_ISO_IN | EP_BULK_IN | EP_INT_IN

fun ep_type_value :: "xhci_ep_type \<Rightarrow> u32" where
  "ep_type_value EP_ISO_OUT = 1"
| "ep_type_value EP_BULK_OUT = 2"
| "ep_type_value EP_INT_OUT = 3"
| "ep_type_value EP_CONTROL_BIDIR = 4"
| "ep_type_value EP_ISO_IN = 5"
| "ep_type_value EP_BULK_IN = 6"
| "ep_type_value EP_INT_IN = 7"

datatype ring_type = EVENT_RING | COMMAND_RING | CTRL_RING | BULK_RING | INTR_RING
datatype xhci_addr_dev_type = DEFAULT_TYPE | ADDRESSED_TYPE
datatype xhci_ep_state = DISABLE_STATE | RUNING_STATE | HALTED_STATE | STOPPED_STATE | ERROR_STATE

section \<open>Structures\<close>

record xhci_trb =
  paramater :: u64
  status :: u32
  control :: u32

abbreviation zero_trb :: xhci_trb where "zero_trb \<equiv> \<lparr>paramater = 0, status = 0, control = 0\<rparr>"

text \<open>\<open>trb\<close> is a pointer; \<open>base\<close> is its value. \<open>mem\<close> is the array as the controller sees it.\<close>

record xhci_ring =
  trb :: "xhci_trb list"
  mem :: "xhci_trb list"
  base :: u64
  num_trb :: u32
  rtype :: ring_type
  write_index :: u32
  read_index :: u32
  cycle_bit :: u32

text \<open>A context is an array of 32-bit words at the address \<open>ctx_addr\<close>.\<close>

record xhci_ctx =
  ctx_type :: nat
  ctx_size :: nat
  ctx :: "u32 list"
  ctx_mem :: "u32 list"
  ctx_addr :: u64

record xhci_ep =
  ep_ring :: xhci_ring
  ep_state :: xhci_ep_state

record xhci_device =
  slot :: u32
  device_ctx :: xhci_ctx
  input_ctx :: xhci_ctx
  ep :: "xhci_ep list"
  speed :: xhci_usb_speed

record usb_setup_packet =
  bmRequestType :: u8
  bRequest :: u8
  wValue :: u16
  wIndex :: u16
  wLength :: u16

record xhci_ep_config =
  ep_type :: xhci_ep_type
  ep_addr :: u8
  ep_interval :: u8
  ep_mps :: u16

record xhci_cap_regs =
  caplength :: u32
  hcsparams1 :: u32
  hcsparams2 :: u32
  hccparams1 :: u32

record 'w xhci_hcd =
  base_addr :: u32
  cap_reg :: xhci_cap_regs
  event_ring :: xhci_ring
  cmd_ring :: xhci_ring
  erst_addr :: u64
  erst_entry :: "u64 \<times> u32"
  device :: "xhci_device list"
  dev_ctx_tab :: "u64 list"
  dev_ctx_addr :: u64
  scratchpad_tab :: "u64 list"
  scratchpad_buf :: "u32 list"
  evt_trb :: xhci_trb
  version :: u32
  page_size :: u16
  max_slots :: u8
  max_port :: u8
  event_sync :: bool
  event_wait :: bool
  world :: 'w

text \<open>The registers of \<open>xhci_op_regs\<close>, \<open>xhci_runtime_regs\<close> and \<open>xhci_doorbell_arry\<close>, and the word
  at another address: the extended capability list, the clock and PHY registers of the board.\<close>

datatype xhci_reg = R_command | R_status | R_page_size | R_cmd_ring | R_dcbaa_ptr | R_config_reg
  | R_portsc u32 | R_iman | R_imod | R_erstsz | R_erstba | R_erdp | R_doorbell u32 | R_mmio u32

section \<open>Services\<close>

text \<open>A register can have another value at each read. \<open>idle\<close> is what the controller does while the
  driver waits for an event; it says whether the controller raises its interrupt. An allocation
  returns an address and the 32-bit words that happen to be there. \<open>dma_buf a n\<close> is what a transfer
  left in the \<open>n\<close> bytes at \<open>a\<close>.\<close>

record 'w xhci_hw =
  reg_read :: "xhci_reg \<Rightarrow> 'w \<Rightarrow> u64 \<times> 'w"
  reg_write :: "xhci_reg \<Rightarrow> u64 \<Rightarrow> 'w \<Rightarrow> 'w"
  xhci_mem_alloc :: "nat \<Rightarrow> nat \<Rightarrow> 'w \<Rightarrow> (u64 \<times> u32 list) option \<times> 'w"
  xhci_mem_free :: "u64 \<Rightarrow> 'w \<Rightarrow> 'w"
  dma_buf :: "u32 \<Rightarrow> nat \<Rightarrow> 'w \<Rightarrow> u8 list"
  idle :: "'w xhci_hcd \<Rightarrow> bool \<times> 'w xhci_hcd"

text \<open>Volatile accesses; the 32-bit registers read and write the low half.\<close>

definition rd :: "'w xhci_hw \<Rightarrow> xhci_reg \<Rightarrow> 'w xhci_hcd \<Rightarrow> u64 \<times> 'w xhci_hcd" where
  "rd hw r h = (let (v, w) = reg_read hw r (world h) in (v, h\<lparr>world := w\<rparr>))"

definition rd32 :: "'w xhci_hw \<Rightarrow> xhci_reg \<Rightarrow> 'w xhci_hcd \<Rightarrow> u32 \<times> 'w xhci_hcd" where
  "rd32 hw r h = (let (v, h) = rd hw r h in (ucast v, h))"

definition wr :: "'w xhci_hw \<Rightarrow> xhci_reg \<Rightarrow> u64 \<Rightarrow> 'w xhci_hcd \<Rightarrow> 'w xhci_hcd" where
  "wr hw r v h = h\<lparr>world := reg_write hw r v (world h)\<rparr>"

definition wr32 :: "'w xhci_hw \<Rightarrow> xhci_reg \<Rightarrow> u32 \<Rightarrow> 'w xhci_hcd \<Rightarrow> 'w xhci_hcd" where
  "wr32 hw r v = wr hw r (ucast v)"

definition trb_addr :: "xhci_ring \<Rightarrow> u32 \<Rightarrow> u64" where
  "trb_addr r i = base r + 16 * ucast i"

end
