(* ===== verification/Xhci_Ring.thy ===== *)
theory Xhci_Ring
  imports Xhci_Types
begin

text \<open>
  The rings of \<open>samples/dwc3_host/src/xhci.c\<close>: \<open>xhci_ring_init\<close> and \<open>xhci_enqueue_trb\<close>. The
  driver marks each block with its cycle bit, which it inverts at each lap; the controller reads
  blocks as long as their cycle bit is the one it expects, and a link block sends it back to the
  start. The locale \<open>bounded_fifo\<close> is the contract between the two sides; it is interpreted on the
  ring operations and the controller's reading rule.
\<close>

section \<open>Operations\<close>

fun trbs_of_words :: "u32 list \<Rightarrow> xhci_trb list" where
  "trbs_of_words (a # b # c # d # r) =
     \<lparr>paramater = ucast a OR push_bit 32 (ucast b), status = c, control = d\<rparr> # trbs_of_words r"
| "trbs_of_words _ = []"

text \<open>\<open>old\<close> is what the controller sees at the address: clearing the array is not flushed.\<close>

definition xhci_ring_init :: "u64 \<Rightarrow> xhci_trb list \<Rightarrow> u32 \<Rightarrow> ring_type \<Rightarrow> xhci_ring option" where
  "xhci_ring_init addr old n ty =
     (if length old \<noteq> unat n then None
      else do {
        let trbs = replicate (unat n) zero_trb;
        trbs \<leftarrow> (if ty \<noteq> EVENT_RING
          then store trbs (unat (n - 1)) \<lparr>paramater = addr, status = 0, control = TRB_TYPE TRB_LINK OR LINK_TOGGLE\<rparr>
          else Some trbs);
        Some \<lparr>trb = trbs, mem = old, base = addr, num_trb = n, rtype = ty, write_index = 0, read_index = 0, cycle_bit = 1\<rparr>
      })"

definition xhci_enqueue_trb :: "xhci_ring \<Rightarrow> xhci_trb \<Rightarrow> xhci_ring option" where
  "xhci_enqueue_trb ring t = do {
     trbs \<leftarrow> store (trb ring) (unat (write_index ring)) t;
     let wi = write_index ring + 1;
     let ring = ring\<lparr>trb := trbs, mem := trbs, write_index := wi\<rparr>;
     if rtype ring \<noteq> EVENT_RING \<and> wi = num_trb ring - 1 then do {
       link \<leftarrow> load trbs (unat wi);
       trbs \<leftarrow> store trbs (unat wi) (link\<lparr>control := control link XOR TRB_CYCLE\<rparr>);
       Some (ring\<lparr>trb := trbs, cycle_bit := cycle_bit ring XOR 1, write_index := 0\<rparr>)
     } else Some ring
   }"

section \<open>The reading side\<close>

abbreviation cyc :: "xhci_trb \<Rightarrow> u32" where "cyc t \<equiv> control t AND 1"

definition is_link :: "xhci_trb \<Rightarrow> bool" where
  "is_link t \<longleftrightarrow> control t AND TRB_TYPE_BITMASK = TRB_TYPE TRB_LINK"

definition hc_at :: "xhci_trb list \<Rightarrow> nat \<Rightarrow> u32 \<Rightarrow> xhci_trb option" where
  "hc_at m d cc = (if d < length m \<and> cyc (m ! d) = cc then Some (m ! d) else None)"

text \<open>The controller's next block and its position afterwards.\<close>

definition hc_next :: "xhci_trb list \<Rightarrow> nat \<times> u32 \<Rightarrow> (xhci_trb \<times> nat \<times> u32) option" where
  "hc_next m = (\<lambda>(d, cc). case hc_at m d cc of
     None \<Rightarrow> None
   | Some t \<Rightarrow>
       if is_link t then
         (let cc' = (if control t AND LINK_TOGGLE \<noteq> 0 then cc XOR 1 else cc) in
          map_option (\<lambda>t. (t, 1, cc')) (hc_at m 0 cc'))
       else Some (t, d + 1, cc))"

section \<open>The contract of a queue of bounded length\<close>

datatype 'a queue_op = Put 'a | Take

fun puts :: "'a queue_op list \<Rightarrow> 'a list" where
  "puts [] = []"
| "puts (Put x # ops) = x # puts ops"
| "puts (Take # ops) = puts ops"

text \<open>\<open>k\<close> elements are queued; no \<open>Put\<close> exceeds the capacity \<open>c\<close>.\<close>

fun within :: "nat \<Rightarrow> nat \<Rightarrow> 'a queue_op list \<Rightarrow> bool" where
  "within c k [] = True"
| "within c k (Put x # ops) = (k < c \<and> within c (k + 1) ops)"
| "within c k (Take # ops) = within c (k - 1) ops"

text \<open>Running a sequence of operations; the result lists what was taken.\<close>

fun run_queue :: "('a \<Rightarrow> 's \<Rightarrow> 's option) \<Rightarrow> ('s \<Rightarrow> ('a \<times> 's) option) \<Rightarrow> 'a queue_op list \<Rightarrow> 's \<Rightarrow> ('a list \<times> 's) option" where
  "run_queue enq deq [] s = Some ([], s)"
| "run_queue enq deq (Put x # ops) s = do { s \<leftarrow> enq x s; run_queue enq deq ops s }"
| "run_queue enq deq (Take # ops) s =
     (case deq s of
        None \<Rightarrow> run_queue enq deq ops s
      | Some (x, s) \<Rightarrow> do { (xs, s) \<leftarrow> run_queue enq deq ops s; Some (x # xs, s) })"

locale bounded_fifo =
  fixes enq :: "'a \<Rightarrow> 's \<Rightarrow> 's option"
    and deq :: "'s \<Rightarrow> ('a \<times> 's) option"
    and holds :: "'s \<Rightarrow> 'a list \<Rightarrow> bool"
    and cap :: "'s \<Rightarrow> nat"
    and legal :: "'a \<Rightarrow> bool"
  assumes enq_holds: "holds s q \<Longrightarrow> length q < cap s \<Longrightarrow> legal x \<Longrightarrow>
      \<exists>s'. enq x s = Some s' \<and> holds s' (q @ [x]) \<and> cap s' = cap s"
    and deq_Cons: "holds s (x # q) \<Longrightarrow> \<exists>s'. deq s = Some (x, s') \<and> holds s' q \<and> cap s' = cap s"
    and deq_Nil: "holds s [] \<Longrightarrow> deq s = None"
begin

lemma run_order:
  assumes "holds s q" "within (cap s) (length q) ops" "\<forall>x\<in>set (puts ops). legal x"
  shows "\<exists>out s' q'. run_queue enq deq ops s = Some (out, s') \<and> holds s' q' \<and> out @ q' = q @ puts ops"
  using assms
proof (induction ops arbitrary: s q rule: puts.induct)
  case 1
  then show ?case by auto
next
  case (2 x ops)
  from enq_holds [OF 2(2), of x] 2(3,4) obtain s' where
    s': "enq x s = Some s'" "holds s' (q @ [x])" "cap s' = cap s" by auto
  from 2(1) [OF s'(2)] 2(3,4) s' show ?case by auto
next
  case (3 ops)
  show ?case
  proof (cases q)
    case Nil
    with 3(2) have "deq s = None" by (simp add: deq_Nil)
    with 3(1) [OF 3(2)] 3(3,4) Nil show ?thesis by auto
  next
    case (Cons x r)
    from deq_Cons [of s x r] 3(2) Cons obtain s' where
      s': "deq s = Some (x, s')" "holds s' r" "cap s' = cap s" by auto
    from 3(1) [OF s'(2)] 3(3,4) s' Cons obtain out s2 q' where
      "run_queue enq deq ops s' = Some (out, s2)" "holds s2 q'" "out @ q' = r @ puts ops" by auto
    with s' Cons show ?thesis by auto
  qed
qed

end

section \<open>Command and transfer rings are queues\<close>

definition link_trb :: "u64 \<Rightarrow> u32 \<Rightarrow> xhci_trb" where
  "link_trb b c = \<lparr>paramater = b, status = 0, control = TRB_TYPE TRB_LINK OR LINK_TOGGLE OR c\<rparr>"

text \<open>What the driver keeps of a ring it produces: the blocks before \<open>write_index\<close> carry the current
  cycle bit, the others its inverse, and the link block is armed for the controller's arrival. The
  controller sees the same array, except that the link block inverted last is not flushed yet.\<close>

definition ring_inv :: "xhci_ring \<Rightarrow> bool" where
  "ring_inv r \<longleftrightarrow>
     (let n = unat (num_trb r); w = unat (write_index r); c = cycle_bit r in
      3 \<le> n \<and> rtype r \<noteq> EVENT_RING \<and> length (trb r) = n \<and> length (mem r) = n \<and> w < n - 1 \<and>
      (c = 0 \<or> c = 1) \<and>
      (\<forall>i<n - 1. cyc (trb r ! i) = (if i < w then c else c XOR 1) \<and> \<not> is_link (trb r ! i) \<and> mem r ! i = trb r ! i) \<and>
      trb r ! (n - 1) = link_trb (base r) (c XOR 1) \<and>
      mem r ! (n - 1) = link_trb (base r) (if w = 0 then c else c XOR 1))"

text \<open>A request without its cycle bit, and with it.\<close>

definition unstamped :: "xhci_trb \<Rightarrow> xhci_trb" where
  "unstamped t = t\<lparr>control := control t AND NOT 1\<rparr>"

definition stamped :: "xhci_trb \<Rightarrow> u32 \<Rightarrow> xhci_trb" where
  "stamped t c = t\<lparr>control := control t OR c\<rparr>"

definition is_request :: "xhci_trb \<Rightarrow> bool" where
  "is_request t \<longleftrightarrow> control t AND 1 = 0 \<and> \<not> is_link t"

text \<open>The blocks between the controller's position \<open>(d, cc)\<close> and the driver's.\<close>

definition in_flight :: "xhci_ring \<Rightarrow> nat \<times> u32 \<Rightarrow> nat list option" where
  "in_flight r = (\<lambda>(d, cc).
     (let n = unat (num_trb r); w = unat (write_index r) in
      if cc = cycle_bit r then (if d \<le> w then Some [d..<w] else None)
      else if cc = cycle_bit r XOR 1 \<and> w < d \<and> d < n then Some ([d..<n - 1] @ [0..<w])
      else None))"

definition ring_holds :: "xhci_ring \<times> nat \<times> u32 \<Rightarrow> xhci_trb list \<Rightarrow> bool" where
  "ring_holds s q \<longleftrightarrow> ring_inv (fst s) \<and>
     (\<exists>is. in_flight (fst s) (snd s) = Some is \<and> q = map (\<lambda>i. unstamped (trb (fst s) ! i)) is)"

definition ring_put :: "xhci_trb \<Rightarrow> xhci_ring \<times> nat \<times> u32 \<Rightarrow> (xhci_ring \<times> nat \<times> u32) option" where
  "ring_put t = (\<lambda>(r, p). map_option (\<lambda>r. (r, p)) (xhci_enqueue_trb r (stamped t (cycle_bit r))))"

definition ring_get :: "xhci_ring \<times> nat \<times> u32 \<Rightarrow> (xhci_trb \<times> xhci_ring \<times> nat \<times> u32) option" where
  "ring_get = (\<lambda>(r, p). map_option (\<lambda>(t, p). (unstamped t, r, p)) (hc_next (mem r) p))"

definition ring_room :: "xhci_ring \<times> nat \<times> u32 \<Rightarrow> nat" where
  "ring_room s = unat (num_trb (fst s)) - 2"

lemma cyc_stamped [simp]:
  assumes "control t AND 1 = 0" "c = 0 \<or> c = 1"
  shows "cyc (stamped t c) = c"
  using assms by (auto simp: stamped_def bit.conj_disj_distrib2)

lemma unstamped_stamped [simp]:
  assumes "control t AND 1 = 0" "c = 0 \<or> c = 1"
  shows "unstamped (stamped t c) = t"
proof -
  have "bit (control t) i \<Longrightarrow> i \<noteq> 0" for i
    using assms(1) by (metis and_one_eq bit_0 mod2_eq_if odd_one even_iff_mod_2_eq_zero)
  then have "(control t OR c) AND NOT 1 = control t"
    using assms(2) by (intro bit_eqI) (auto simp: bit_simps)
  then show ?thesis by (simp add: unstamped_def stamped_def)
qed

lemma is_link_stamped [simp]: "c = 0 \<or> c = 1 \<Longrightarrow> is_link (stamped t c) = is_link t"
  by (auto simp: is_link_def stamped_def bit.conj_disj_distrib2)

lemma xor_one_swap [simp]: "((c :: u32) XOR 1) XOR 1 = c"
  by (simp add: xor.assoc)

lemma link_trb_simps [simp]:
  assumes "c = 0 \<or> c = 1"
  shows "is_link (link_trb b c)" "cyc (link_trb b c) = c" "control (link_trb b c) AND 2 \<noteq> 0"
    "(link_trb b c)\<lparr>control := control (link_trb b c) XOR 1\<rparr> = link_trb b (c XOR 1)"
  using assms by (auto simp: link_trb_def is_link_def TRB_TYPE_def)

lemma ring_holds_cases [consumes 1, case_names same lap]:
  assumes "ring_holds (r, d, cc) q"
  obtains "ring_inv r" "cc = cycle_bit r" "d \<le> unat (write_index r)"
      "q = map (\<lambda>i. unstamped (trb r ! i)) [d..<unat (write_index r)]"
    | "ring_inv r" "cc = cycle_bit r XOR 1" "cc \<noteq> cycle_bit r" "unat (write_index r) < d" "d < unat (num_trb r)"
      "q = map (\<lambda>i. unstamped (trb r ! i)) ([d..<unat (num_trb r) - 1] @ [0..<unat (write_index r)])"
  using assms unfolding ring_holds_def in_flight_def Let_def by (auto split: if_splits)

lemma ring_holds_same:
  "ring_inv r \<Longrightarrow> d \<le> unat (write_index r) \<Longrightarrow> q = map (\<lambda>i. unstamped (trb r ! i)) [d..<unat (write_index r)] \<Longrightarrow>
   ring_holds (r, d, cycle_bit r) q"
  by (simp add: ring_holds_def in_flight_def)

lemma cycle_flip [simp]: "c = 0 \<or> c = 1 \<Longrightarrow> (c :: u32) XOR 1 \<noteq> c"
  by auto

lemma ring_holds_lap:
  "ring_inv r \<Longrightarrow> unat (write_index r) < d \<Longrightarrow> d < unat (num_trb r) \<Longrightarrow>
   q = map (\<lambda>i. unstamped (trb r ! i)) ([d..<unat (num_trb r) - 1] @ [0..<unat (write_index r)]) \<Longrightarrow>
   ring_holds (r, d, cycle_bit r XOR 1) q"
  by (auto simp: ring_holds_def in_flight_def ring_inv_def Let_def)

lemma unat_succ_below:
  assumes "unat (x :: u32) < unat (y :: u32)"
  shows "unat (x + 1) = unat x + 1"
proof -
  have "unat y < 2 ^ LENGTH(32)" by (rule unsigned_less)
  with assms show ?thesis by (simp add: unat_word_ariths)
qed

lemma unat_pred: "0 < unat (y :: u32) \<Longrightarrow> unat (y - 1) = unat y - 1"
  by (simp add: unat_sub word_le_nat_alt)

text \<open>The two outcomes of an enqueue.\<close>

lemma enqueue_cases:
  assumes "ring_inv r"
  shows "xhci_enqueue_trb r t = Some
    (let w = unat (write_index r); n = unat (num_trb r); ts = (trb r)[w := t]; c = cycle_bit r in
     if w + 1 = n - 1
     then r\<lparr>trb := ts[n - 1 := link_trb (base r) c], mem := ts, cycle_bit := c XOR 1, write_index := 0\<rparr>
     else r\<lparr>trb := ts, mem := ts, write_index := write_index r + 1\<rparr>)"
proof -
  from assms have i: "3 \<le> unat (num_trb r)" "unat (write_index r) < unat (num_trb r) - 1" "length (trb r) = unat (num_trb r)"
    "rtype r \<noteq> EVENT_RING" "trb r ! (unat (num_trb r) - 1) = link_trb (base r) (cycle_bit r XOR 1)"
    "cycle_bit r = 0 \<or> cycle_bit r = 1"
    by (simp_all add: ring_inv_def Let_def)
  then have w: "unat (write_index r + 1) = unat (write_index r) + 1"
    by (intro unat_succ_below [of _ "num_trb r"]) linarith
  have eq: "write_index r + 1 = num_trb r - 1 \<longleftrightarrow> unat (write_index r) + 1 = unat (num_trb r) - 1"
  proof -
    have "unat (num_trb r - 1) = unat (num_trb r) - 1" using i(1) by (intro unat_pred) linarith
    with w show ?thesis by (simp only: word_unat_eq_iff)
  qed
  have l: "link_trb (base r) (cycle_bit r XOR 1)\<lparr>control := control (link_trb (base r) (cycle_bit r XOR 1)) XOR 1\<rparr>
      = link_trb (base r) (cycle_bit r)"
    using i(6) link_trb_simps(4) [of "cycle_bit r XOR 1" "base r"] by auto
  have st: "store (trb r) (unat (write_index r)) t = Some ((trb r)[unat (write_index r) := t])"
    using i(2,3) by (intro store_Some) linarith
  show ?thesis
  proof (cases "unat (write_index r) + 1 = unat (num_trb r) - 1")
    case True
    have ld: "load ((trb r)[unat (write_index r) := t]) (unat (num_trb r) - 1) = Some (link_trb (base r) (cycle_bit r XOR 1))"
      using i True by (simp add: load_eq_Some)
    have sl: "store ((trb r)[unat (write_index r) := t]) (unat (num_trb r) - 1) x
        = Some ((trb r)[unat (write_index r) := t, unat (num_trb r) - 1 := x])" for x
      using i(1,3) by (intro store_Some) simp
    show ?thesis
      unfolding xhci_enqueue_trb_def st
      using i(4) by (simp add: Let_def eq w True ld l sl del: load_Some store_Some One_nat_def)
  next
    case False
    then show ?thesis
      unfolding xhci_enqueue_trb_def st by (simp add: Let_def eq del: load_Some store_Some One_nat_def)
  qed
qed

lemma enqueue_inner:
  assumes "ring_inv r" "unat (write_index r) + 1 \<noteq> unat (num_trb r) - 1" "is_request t"
  shows "\<exists>r'. xhci_enqueue_trb r (stamped t (cycle_bit r)) = Some r' \<and> ring_inv r' \<and>
    num_trb r' = num_trb r \<and> cycle_bit r' = cycle_bit r \<and> unat (write_index r') = unat (write_index r) + 1 \<and>
    trb r' = (trb r)[unat (write_index r) := stamped t (cycle_bit r)]"
proof -
  from assms(1) have i: "unat (write_index r) < unat (num_trb r) - 1" by (simp add: ring_inv_def Let_def)
  then have w: "unat (write_index r + 1) = unat (write_index r) + 1"
    by (intro unat_succ_below [of _ "num_trb r"]) linarith
  then show ?thesis
    using assms i unfolding enqueue_cases [OF assms(1)]
    by (auto simp: ring_inv_def is_request_def Let_def nth_list_update less_Suc_eq)
qed

lemma enqueue_wraps:
  assumes "ring_inv r" "unat (write_index r) + 1 = unat (num_trb r) - 1" "is_request t"
  shows "\<exists>r'. xhci_enqueue_trb r (stamped t (cycle_bit r)) = Some r' \<and> ring_inv r' \<and>
    num_trb r' = num_trb r \<and> cycle_bit r' = cycle_bit r XOR 1 \<and> unat (write_index r') = 0 \<and>
    (\<forall>i<unat (num_trb r) - 1. trb r' ! i = ((trb r)[unat (write_index r) := stamped t (cycle_bit r)]) ! i)"
proof -
  have "cycle_bit r = 0 \<or> cycle_bit r = 1" using assms(1) by (simp add: ring_inv_def Let_def)
  then show ?thesis
    using assms unfolding enqueue_cases [OF assms(1)]
    by (auto simp: ring_inv_def is_request_def Let_def nth_list_update less_Suc_eq)
qed

lemma ring_inv_cycle: "ring_inv r \<Longrightarrow> cycle_bit r = 0 \<or> cycle_bit r = 1"
  by (simp add: ring_inv_def Let_def)

lemma ring_inv_index: "ring_inv r \<Longrightarrow> unat (write_index r) < unat (num_trb r) - 1 \<and> length (trb r) = unat (num_trb r)"
  by (simp add: ring_inv_def Let_def)

lemma ring_put_holds:
  assumes h: "ring_holds (r, d, cc) q" and room: "length q < unat (num_trb r) - 2" and t: "is_request t"
  shows "\<exists>r'. ring_put t (r, d, cc) = Some (r', d, cc) \<and> ring_holds (r', d, cc) (q @ [t]) \<and> num_trb r' = num_trb r"
proof -
  define w where "w = unat (write_index r)"
  define n where "n = unat (num_trb r)"
  have inv: "ring_inv r" using h by (auto simp: ring_holds_def)
  have wn: "w < n - 1" "length (trb r) = n" using ring_inv_index [OF inv] by (simp_all add: w_def n_def)
  have c: "cycle_bit r = 0 \<or> cycle_bit r = 1" by (rule ring_inv_cycle [OF inv])
  have u: "unstamped (stamped t (cycle_bit r)) = t" using c t by (simp add: is_request_def)
  let ?ts = "(trb r)[w := stamped t (cycle_bit r)]"
  show ?thesis
  proof (cases "w + 1 = n - 1")
    case False
    then obtain r' where r': "xhci_enqueue_trb r (stamped t (cycle_bit r)) = Some r'" "ring_inv r'"
        "num_trb r' = num_trb r" "cycle_bit r' = cycle_bit r" "unat (write_index r') = w + 1" "trb r' = ?ts"
      using enqueue_inner [OF inv _ t] by (auto simp: w_def n_def)
    from h have "ring_holds (r', d, cc) (q @ [t])"
    proof (cases rule: ring_holds_cases)
      case same
      have d: "d \<le> w" using same(3) by (simp add: w_def)
      then have "q @ [t] = map (\<lambda>i. unstamped (trb r' ! i)) [d..<w + 1]"
        using same(4) wn u by (simp add: r'(6) w_def [symmetric])
      then show ?thesis
        using ring_holds_same [OF r'(2), of d "q @ [t]"] d same(2) by (simp only: r'(4,5) le_SucI Suc_eq_plus1 [symmetric])
    next
      case lap
      have d: "w < d" "d < n" using lap(4,5) by (simp_all add: w_def n_def)
      have "w + 1 < d" using d lap(6) room by (simp add: w_def [symmetric] n_def [symmetric])
      moreover have "q @ [t] = map (\<lambda>i. unstamped (trb r' ! i)) ([d..<n - 1] @ [0..<w + 1])"
        using lap(6) wn u d by (simp add: r'(6) w_def [symmetric] n_def [symmetric])
      ultimately show ?thesis
        using ring_holds_lap [OF r'(2), of d "q @ [t]"] d(2) lap(2) by (simp only: r'(3,4,5) n_def)
    qed
    with r' show ?thesis by (auto simp: ring_put_def)
  next
    case True
    then obtain r' where r': "xhci_enqueue_trb r (stamped t (cycle_bit r)) = Some r'" "ring_inv r'"
        "num_trb r' = num_trb r" "cycle_bit r' = cycle_bit r XOR 1" "unat (write_index r') = 0"
        "\<forall>i<n - 1. trb r' ! i = ?ts ! i"
      using enqueue_wraps [OF inv _ t] by (auto simp: w_def n_def)
    from h have "ring_holds (r', d, cc) (q @ [t])"
    proof (cases rule: ring_holds_cases)
      case same
      have d: "0 < d" "d < n" using same(3,4) room True by (auto simp: w_def [symmetric] n_def [symmetric])
      have "[d..<n - 1] = [d..<w] @ [w]"
        unfolding True [symmetric] using same(3) by (simp add: w_def)
      then have "q @ [t] = map (\<lambda>i. unstamped (trb r' ! i)) [d..<n - 1]"
        using same(4) r'(6) wn u by (auto simp: w_def [symmetric])
      then show ?thesis
        using ring_holds_lap [OF r'(2), of d "q @ [t]"] d r'(3,4,5) same(2) by (simp add: n_def)
    next
      case lap
      then have False using room True by (auto simp: w_def [symmetric] n_def [symmetric])
      then show ?thesis ..
    qed
    with r' show ?thesis by (auto simp: ring_put_def)
  qed
qed

lemma ring_inv_mem:
  assumes "ring_inv r" "i < unat (num_trb r) - 1"
  shows "mem r ! i = trb r ! i" "cyc (trb r ! i) = (if i < unat (write_index r) then cycle_bit r else cycle_bit r XOR 1)"
    "\<not> is_link (trb r ! i)" "length (mem r) = unat (num_trb r)"
  using assms by (simp_all add: ring_inv_def Let_def)

lemma ring_inv_link:
  "ring_inv r \<Longrightarrow> mem r ! (unat (num_trb r) - 1) =
     link_trb (base r) (if unat (write_index r) = 0 then cycle_bit r else cycle_bit r XOR 1)"
  by (simp add: ring_inv_def Let_def)

text \<open>The controller's view of one block, and of the link block.\<close>

lemma hc_next_block:
  assumes "ring_inv r" "d < unat (num_trb r) - 1" "cyc (trb r ! d) = cc"
  shows "hc_next (mem r) (d, cc) = Some (trb r ! d, d + 1, cc)"
  using assms ring_inv_mem [OF assms(1,2)] by (simp add: hc_next_def hc_at_def)

lemma hc_next_stops:
  assumes "ring_inv r" "d < unat (num_trb r) - 1" "cyc (trb r ! d) \<noteq> cc"
  shows "hc_next (mem r) (d, cc) = None"
  using assms ring_inv_mem [OF assms(1,2)] by (simp add: hc_next_def hc_at_def)

lemma hc_next_link:
  assumes "ring_inv r"
  shows "hc_next (mem r) (unat (num_trb r) - 1, cycle_bit r XOR 1) =
    (if unat (write_index r) = 0 then None else Some (trb r ! 0, 1, cycle_bit r))"
proof -
  have n: "3 \<le> unat (num_trb r)" "length (mem r) = unat (num_trb r)"
    using assms by (simp_all add: ring_inv_def Let_def)
  have c: "cycle_bit r = 0 \<or> cycle_bit r = 1" by (rule ring_inv_cycle [OF assms])
  then have c': "cycle_bit r XOR 1 = 0 \<or> cycle_bit r XOR 1 = 1" by auto
  have z: "0 < unat (num_trb r) - 1" using n by linarith
  show ?thesis
    using n c c' ring_inv_link [OF assms] ring_inv_mem [OF assms z]
    by (auto simp: hc_next_def hc_at_def Let_def link_trb_simps(2) [OF c'])
qed

lemma ring_get_holds:
  assumes h: "ring_holds (r, d, cc) (x # q)"
  shows "\<exists>p. ring_get (r, d, cc) = Some (x, r, p) \<and> ring_holds (r, p) q"
  using h
proof (cases rule: ring_holds_cases)
  case same
  then have d: "d < unat (write_index r)" by (cases "d < unat (write_index r)") auto
  then have ix: "[d..<unat (write_index r)] = d # [d + 1..<unat (write_index r)]" by (simp add: upt_conv_Cons)
  have dn: "d < unat (num_trb r) - 1" using d ring_inv_index [OF same(1)] by linarith
  from hc_next_block [OF same(1) dn] ring_inv_mem(2) [OF same(1) dn] d same(2)
  have "ring_get (r, d, cc) = Some (x, r, d + 1, cc)" using same(4) ix by (simp add: ring_get_def)
  moreover have "ring_holds (r, d + 1, cc) q"
    unfolding same(2) using same(4) ix d by (intro ring_holds_same [OF same(1)]) simp_all
  ultimately show ?thesis by blast
next
  case lap
  show ?thesis
  proof (cases "d = unat (num_trb r) - 1")
    case True
    then have w: "0 < unat (write_index r)" using lap(6) by (cases "unat (write_index r)") auto
    then have ix: "[0..<unat (write_index r)] = 0 # [1..<unat (write_index r)]" by (simp add: upt_conv_Cons)
    have "ring_get (r, d, cc) = Some (x, r, 1, cycle_bit r)"
      unfolding True lap(2) using w lap(6) ix True by (simp add: ring_get_def hc_next_link [OF lap(1), unfolded One_nat_def])
    moreover have "ring_holds (r, 1, cycle_bit r) q"
      using lap(6) ix w True by (intro ring_holds_same [OF lap(1)]) simp_all
    ultimately show ?thesis by blast
  next
    case False
    then have dn: "d < unat (num_trb r) - 1" using lap(5) by linarith
    then have ix: "[d..<unat (num_trb r) - 1] = d # [d + 1..<unat (num_trb r) - 1]" by (simp add: upt_conv_Cons)
    from hc_next_block [OF lap(1) dn] ring_inv_mem(2) [OF lap(1) dn] lap(2,4)
    have "ring_get (r, d, cc) = Some (x, r, d + 1, cc)" using lap(6) ix by (simp add: ring_get_def)
    moreover have "ring_holds (r, d + 1, cc) q"
      unfolding lap(2) using lap(4,6) ix dn by (intro ring_holds_lap [OF lap(1)]) simp_all
    ultimately show ?thesis by blast
  qed
qed

lemma ring_get_empty:
  assumes h: "ring_holds (r, d, cc) []"
  shows "ring_get (r, d, cc) = None"
  using h
proof (cases rule: ring_holds_cases)
  case same
  then have d: "d = unat (write_index r)" by (cases "d < unat (write_index r)") auto
  then have dn: "d < unat (num_trb r) - 1" using ring_inv_index [OF same(1)] by simp
  have "cyc (trb r ! d) \<noteq> cc"
    using ring_inv_mem(2) [OF same(1) dn] d same(2) ring_inv_cycle [OF same(1)] by auto
  then show ?thesis by (simp add: ring_get_def hc_next_stops [OF same(1) dn])
next
  case lap
  then have "d = unat (num_trb r) - 1" "unat (write_index r) = 0" by auto
  then show ?thesis by (simp add: ring_get_def lap(2) hc_next_link [OF lap(1), unfolded One_nat_def])
qed

interpretation trb_ring: bounded_fifo ring_put ring_get ring_holds ring_room is_request
proof
  fix s :: "xhci_ring \<times> nat \<times> u32" and q x
  obtain r d cc where s: "s = (r :: xhci_ring, d :: nat, cc :: u32)" by (cases s)
  assume "ring_holds s q" "length q < ring_room s" "is_request x"
  then show "\<exists>s'. ring_put x s = Some s' \<and> ring_holds s' (q @ [x]) \<and> ring_room s' = ring_room s"
    using ring_put_holds [of r d cc q x] by (auto simp: ring_room_def s)
next
  fix s q x
  assume "ring_holds s (x # q)"
  then show "\<exists>s'. ring_get s = Some (x, s') \<and> ring_holds s' q \<and> ring_room s' = ring_room s"
    using ring_get_holds [of "fst s" "fst (snd s)" "snd (snd s)" x q] by (auto simp: ring_room_def)
next
  fix s
  assume "ring_holds s []"
  then show "ring_get s = None" using ring_get_empty [of "fst s" "fst (snd s)" "snd (snd s)"] by simp
qed

section \<open>The first block of a ring\<close>

text \<open>Before the first enqueue the controller may see anything; \<open>xhci_enqueue_trb\<close> flushes the whole array.\<close>

lemma ring_init_Some:
  assumes "3 \<le> unat n" "length old = unat n" "ty \<noteq> EVENT_RING"
  shows "xhci_ring_init addr old n ty =
    Some \<lparr>trb = (replicate (unat n) zero_trb)[unat n - 1 := link_trb addr 0], mem = old, base = addr, num_trb = n,
      rtype = ty, write_index = 0, read_index = 0, cycle_bit = 1\<rparr>"
proof -
  have n: "unat (n - 1) = unat n - 1" using assms(1) by (intro unat_pred) linarith
  then have "unat (n - 1) < unat n" using assms(1) by linarith
  then show ?thesis
    using assms n by (simp add: xhci_ring_init_def link_trb_def Let_def)
qed

lemma fresh_enqueue:
  assumes n: "3 \<le> unat n" and r: "xhci_ring_init addr old n ty = Some r" "length old = unat n" "ty \<noteq> EVENT_RING"
  shows "xhci_enqueue_trb r t = Some (r\<lparr>trb := (trb r)[0 := t], mem := (trb r)[0 := t], write_index := 1\<rparr>)"
proof -
  let ?ts = "(replicate (unat n) zero_trb)[unat n - 1 := link_trb addr 0]"
  have r': "r = \<lparr>trb = ?ts, mem = old, base = addr, num_trb = n, rtype = ty, write_index = 0, read_index = 0, cycle_bit = 1\<rparr>"
    using r ring_init_Some [OF n r(2,3), of addr] by simp
  have "unat (n - 1) = unat n - 1" using n by (intro unat_pred) linarith
  then have ne: "1 \<noteq> n - 1" using n by auto
  have st: "store ?ts 0 t = Some (?ts[0 := t])" using n by (intro store_Some) (simp; linarith)
  show ?thesis
    using ne unfolding r' by (simp add: xhci_enqueue_trb_def st Let_def del: store_Some One_nat_def)
qed

lemma ring_first_put:
  assumes n: "3 \<le> unat n" and r: "xhci_ring_init addr old n ty = Some r" "length old = unat n" "ty \<noteq> EVENT_RING"
    and t: "is_request t"
  shows "\<exists>r'. ring_put t (r, 0, 1) = Some (r', 0, 1) \<and> ring_holds (r', 0, 1) [t] \<and> num_trb r' = n"
proof -
  let ?ts = "(replicate (unat n) zero_trb)[unat n - 1 := link_trb addr 0]"
  let ?t = "stamped t 1"
  let ?r = "r\<lparr>trb := (trb r)[0 := ?t], mem := (trb r)[0 := ?t], write_index := 1\<rparr>"
  have r': "r = \<lparr>trb = ?ts, mem = old, base = addr, num_trb = n, rtype = ty, write_index = 0, read_index = 0, cycle_bit = 1\<rparr>"
    using r ring_init_Some [OF n r(2,3), of addr] by simp
  have "ring_inv ?r"
  proof -
    have nl: "\<not> is_link zero_trb" by (simp add: is_link_def TRB_TYPE_def)
    show ?thesis
      using n t r(3) unfolding r'
      by (auto simp: ring_inv_def Let_def nth_list_update nl is_request_def)
  qed
  then have "ring_holds (?r, 0, cycle_bit ?r) [t]"
    using n t by (intro ring_holds_same) (auto simp: r' nth_list_update is_request_def)
  moreover have "cycle_bit r = 1" "num_trb r = n" by (simp_all add: r')
  ultimately show ?thesis using fresh_enqueue [OF n r, of ?t] by (simp add: ring_put_def)
qed

text \<open>A ring with nothing outstanding: just set up, or used before.\<close>

definition ring_ready :: "xhci_ring \<times> nat \<times> u32 \<Rightarrow> bool" where
  "ring_ready s \<longleftrightarrow> 3 \<le> unat (num_trb (fst s)) \<and> (ring_holds s [] \<or>
     (snd s = (0, 1) \<and> rtype (fst s) \<noteq> EVENT_RING \<and> length (mem (fst s)) = unat (num_trb (fst s)) \<and>
      xhci_ring_init (base (fst s)) (mem (fst s)) (num_trb (fst s)) (rtype (fst s)) = Some (fst s)))"

lemma ring_ready_put:
  assumes "ring_ready (r, p)" "is_request t"
  shows "\<exists>r'. ring_put t (r, p) = Some (r', p) \<and> ring_holds (r', p) [t] \<and> num_trb r' = num_trb r"
proof -
  obtain d cc where p: "p = (d, cc)" by (cases p)
  have n: "3 \<le> unat (num_trb r)" using assms(1) by (simp add: ring_ready_def)
  consider (used) "ring_holds (r, d, cc) []"
    | (fresh) "d = 0" "cc = 1" "rtype r \<noteq> EVENT_RING" "length (mem r) = unat (num_trb r)"
        "xhci_ring_init (base r) (mem r) (num_trb r) (rtype r) = Some r"
    using assms(1) by (auto simp: ring_ready_def p)
  then show ?thesis
  proof cases
    case used
    from ring_put_holds [OF used _ assms(2)] n show ?thesis by (auto simp: p)
  next
    case fresh
    from ring_first_put [OF n fresh(5,4,3) assms(2)] show ?thesis by (simp add: p fresh(1,2))
  qed
qed

fun put_all :: "xhci_trb list \<Rightarrow> xhci_ring \<Rightarrow> xhci_ring option" where
  "put_all [] r = Some r"
| "put_all (t # ts) r = do { r \<leftarrow> xhci_enqueue_trb r (stamped t (cycle_bit r)); put_all ts r }"

lemma put_all_holds:
  assumes "ring_holds (r, p) q" "length q + length ts \<le> unat (num_trb r) - 2" "list_all is_request ts"
  shows "\<exists>r'. put_all ts r = Some r' \<and> ring_holds (r', p) (q @ ts) \<and> num_trb r' = num_trb r"
  using assms
proof (induction ts arbitrary: r q)
  case (Cons t ts)
  obtain d cc where p: "p = (d, cc)" by (cases p)
  from ring_put_holds [of r d cc q t] Cons.prems obtain r1 where
    r1: "xhci_enqueue_trb r (stamped t (cycle_bit r)) = Some r1" "ring_holds (r1, p) (q @ [t])" "num_trb r1 = num_trb r"
    by (auto simp: p ring_put_def)
  with Cons.IH [OF r1(2)] Cons.prems show ?case by simp
qed simp

lemma put_all_ready:
  assumes "ring_ready (r, p)" "list_all is_request (t # ts)" "length (t # ts) \<le> unat (num_trb r) - 2"
  shows "\<exists>r'. put_all (t # ts) r = Some r' \<and> ring_holds (r', p) (t # ts) \<and> num_trb r' = num_trb r"
proof -
  from ring_ready_put [OF assms(1), of t] assms(2) obtain r1 where
    r1: "xhci_enqueue_trb r (stamped t (cycle_bit r)) = Some r1" "ring_holds (r1, p) [t]" "num_trb r1 = num_trb r"
    by (cases p) (auto simp: ring_put_def)
  from put_all_holds [OF r1(2), of ts] assms(2,3) r1 show ?thesis by simp
qed

section \<open>Properties\<close>

text \<open>C9. A command or transfer ring of \<open>xhci_ring_init\<close> and \<open>xhci_enqueue_trb\<close> is a queue to the
  controller: whatever junk the memory held, whatever the interleaving of enqueues and controller
  reads and however often the ring wraps, the controller reads the requests in the order they were
  enqueued, each once, as long as no more than \<open>num_trb - 2\<close> are outstanding.\<close>

theorem trb_ring_is_a_queue:
  assumes "3 \<le> unat n" "length old = unat n" "ty \<noteq> EVENT_RING"
    and "list_all is_request (t # puts ops)" "within (unat n - 2) 1 ops"
  shows "\<exists>r out s' q'. xhci_ring_init addr old n ty = Some r \<and>
    run_queue ring_put ring_get (Put t # ops) (r, 0, 1) = Some (out, s') \<and> ring_holds s' q' \<and> out @ q' = t # puts ops"
proof -
  obtain r where r: "xhci_ring_init addr old n ty = Some r" using ring_init_Some [OF assms(1-3)] by blast
  from ring_first_put [OF assms(1) r assms(2,3), of t] assms(4) obtain r1 where
    r1: "ring_put t (r, 0, 1) = Some (r1, 0, 1)" "ring_holds (r1, 0, 1) [t]" "num_trb r1 = n" by auto
  from trb_ring.run_order [OF r1(2), of ops] assms(4,5) r1(3) obtain out s' q' where
    "run_queue ring_put ring_get ops (r1, 0, 1) = Some (out, s')" "ring_holds s' q'" "out @ q' = [t] @ puts ops"
    by (auto simp: ring_room_def list_all_iff)
  with r r1(1) show ?thesis by (cases s') auto
qed

text \<open>Five requests through a ring of four blocks: the ring wraps twice.\<close>

definition demo_noop :: "u32 \<Rightarrow> xhci_trb" where
  "demo_noop k = \<lparr>paramater = 0, status = k, control = TRB_TYPE TRB_CMD_NOOP\<rparr>"

definition demo_ops :: "xhci_trb queue_op list" where
  "demo_ops = [Take, Put (demo_noop 1), Put (demo_noop 2), Take, Take, Put (demo_noop 3), Take, Put (demo_noop 4)]"

lemma trb_ring_is_a_queue_witness:
  "\<exists>r out s' q'. xhci_ring_init 64 (replicate 4 (demo_noop 9)) 4 COMMAND_RING = Some r \<and>
    run_queue ring_put ring_get (Put (demo_noop 0) # demo_ops) (r, 0, 1) = Some (out, s') \<and>
    ring_holds s' q' \<and> out @ q' = demo_noop 0 # puts demo_ops"
  by (rule trb_ring_is_a_queue) (simp_all add: demo_ops_def demo_noop_def is_request_def is_link_def TRB_TYPE_def)

end
