(* ===== verification/Xhci_Events.thy ===== *)
theory Xhci_Events
  imports Xhci_Ring
begin

text \<open>
  The interrupt side of \<open>samples/dwc3_host/src/xhci.c\<close> (\<open>xhci_isr\<close> and the event handlers) and the
  thread that waits for it (\<open>xhci_port.c\<close>). \<open>None\<close> stands for an access outside its object or for a
  wait that never ends.
\<close>

section \<open>Event handlers\<close>

text \<open>The command block an address designates; the driver reads it through a pointer.\<close>

definition command_at :: "xhci_ring \<Rightarrow> u32 \<Rightarrow> xhci_trb option" where
  "command_at r a =
     (let k = ucast a - base r in
      if k AND 15 = 0 then load (trb r) (unat (drop_bit 4 k)) else None)"

text \<open>The handler logs the kind of command, nothing else.\<close>

definition command_complete_handle :: "'w xhci_hcd \<Rightarrow> xhci_trb \<Rightarrow> string option" where
  "command_complete_handle h e = do {
     cmd_trb \<leftarrow> command_at (cmd_ring h) (ucast (paramater e));
     let ty = control cmd_trb AND TRB_TYPE_BITMASK;
     Some (if ty = TRB_TYPE TRB_ENABLE_SLOT then ''TRB_ENABLE_SLOT''
       else if ty = TRB_TYPE TRB_DISABLE_SLOT then ''TRB_DISABLE_SLOT''
       else if ty = TRB_TYPE TRB_ADDR_DEV then ''TRB_ADDR_DEV''
       else if ty = TRB_TYPE TRB_CONFIG_EP then []
       else if ty = TRB_TYPE TRB_CMD_NOOP then ''TRB_CMD_NOOP''
       else [])
   }"

definition speed_map :: "string list" where
  "speed_map = [''invalid'', ''full-speed'', ''low-speed'', ''high-speed'', ''supper-speed'', ''supper-speed-plus'']"

definition xhci_port_state_to_neutral :: "u32 \<Rightarrow> u32" where
  "xhci_port_state_to_neutral state = (state AND XHCI_PORT_RO) OR (state AND XHCI_PORT_RWS)"

text \<open>A loop that reads a register until a condition holds.\<close>

partial_function (option) poll :: "'w xhci_hw \<Rightarrow> xhci_reg \<Rightarrow> (u32 \<Rightarrow> bool) \<Rightarrow> 'w xhci_hcd \<Rightarrow> 'w xhci_hcd option" where
  "poll hw r ok h = (let (v, h) = rd32 hw r h in if ok v then Some h else poll hw r ok h)"

definition port_status_handle :: "'w xhci_hw \<Rightarrow> 'w xhci_hcd \<Rightarrow> xhci_trb \<Rightarrow> 'w xhci_hcd option" where
  "port_status_handle hw h e = do {
     let port_id = ucast (ucast (GET_PORT_ID (paramater e) - 1) :: u16);
     let (port_sc, h) = rd32 hw (R_portsc port_id) h;
     let link = XHCI_OP_PORTSC_LINK_STATE port_sc;
     if link = PLS_U0_STATE then do {
       let dev_speed = XHCI_OP_PORTSC_SPEED port_sc;
       let port_sc = xhci_port_state_to_neutral port_sc OR XHCI_OP_PORTSC_PRC;
       let h = wr32 hw (R_portsc port_id) port_sc h;
       name \<leftarrow> load speed_map (unat dev_speed);
       Some h
     } else if link = PLS_POLLING_STATE then do {
       let port_sc = xhci_port_state_to_neutral port_sc OR XHCI_OP_PORTSC_RESET;
       let (old, h) = rd32 hw (R_portsc port_id) h;
       let h = wr32 hw (R_portsc port_id) (old OR port_sc) h;
       h \<leftarrow> poll hw (R_portsc port_id) (\<lambda>v. v AND XHCI_OP_PORTSC_PRC \<noteq> 0) h;
       let (v, h) = rd32 hw (R_portsc port_id) h;
       Some h
     } else if link = PLS_RXDETECT_STATE then do {
       let port_sc = xhci_port_state_to_neutral port_sc OR XHCI_OP_PORTSC_CSC;
       Some (wr32 hw (R_portsc port_id) port_sc h)
     } else Some h
   }"

section \<open>The interrupt\<close>

definition xhci_event_complete :: "'w xhci_hcd \<Rightarrow> 'w xhci_hcd" where
  "xhci_event_complete h = (if event_wait h then h\<lparr>event_sync := True\<rparr> else h)"

text \<open>The body of the loop: one event.\<close>

definition isr_event :: "'w xhci_hw \<Rightarrow> xhci_trb \<Rightarrow> 'w xhci_hcd \<Rightarrow> 'w xhci_hcd option" where
  "isr_event hw e h =
     (let ty = control e AND TRB_TYPE_BITMASK in
      if ty = TRB_TYPE TRB_COMPLETION then do {
        log \<leftarrow> command_complete_handle h e;
        Some (xhci_event_complete (h\<lparr>evt_trb := e\<rparr>))
      } else if ty = TRB_TYPE TRB_PORT_STATUS then port_status_handle hw h e
      else if ty = TRB_TYPE TRB_TRANSFER then Some (xhci_event_complete (h\<lparr>evt_trb := e\<rparr>))
      else Some h)"

definition event_advance :: "xhci_ring \<Rightarrow> xhci_ring" where
  "event_advance r =
     (let i = (read_index r + 1) mod num_trb r in
      r\<lparr>read_index := i, cycle_bit := (if i = 0 then cycle_bit r XOR 1 else cycle_bit r)\<rparr>)"

partial_function (option) isr_loop :: "'w xhci_hw \<Rightarrow> 'w xhci_hcd \<Rightarrow> 'w xhci_hcd option" where
  "isr_loop hw h = do {
     event_trb \<leftarrow> load (trb (event_ring h)) (unat (read_index (event_ring h)));
     if control event_trb AND TRB_CYCLE \<noteq> cycle_bit (event_ring h) then Some h
     else do {
       h \<leftarrow> isr_event hw event_trb h;
       isr_loop hw (h\<lparr>event_ring := event_advance (event_ring h)\<rparr>)
     }
   }"

definition xhci_isr :: "'w xhci_hw \<Rightarrow> 'w xhci_hcd \<Rightarrow> 'w xhci_hcd option" where
  "xhci_isr hw h = do {
     let cur_rd_index = read_index (event_ring h);
     let (erdp, h) = rd hw R_erdp h;
     let (v, h) = rd32 hw R_status h;
     let h = wr32 hw R_status (v OR XHCI_USBSTS_EINT) h;
     let (v, h) = rd32 hw R_iman h;
     let h = wr32 hw R_iman (v OR XHCI_IMAIN_IP) h;
     let h = h\<lparr>event_ring := (event_ring h)\<lparr>trb := mem (event_ring h)\<rparr>\<rparr>;
     h \<leftarrow> isr_loop hw h;
     let i = read_index (event_ring h);
     let erdp = (if cur_rd_index \<noteq> i then (erdp AND ERST_PTR_MASK) OR trb_addr (event_ring h) i else erdp);
     Some (wr hw R_erdp (erdp OR ERST_EHB) h)
   }"

section \<open>Waiting for an event\<close>

text \<open>What happens between two instructions of the thread: the controller acts, and may interrupt.\<close>

definition preempt :: "'w xhci_hw \<Rightarrow> 'w xhci_hcd \<Rightarrow> 'w xhci_hcd option" where
  "preempt hw h = (let (irq, h) = idle hw h in if irq then xhci_isr hw h else Some h)"

partial_function (option) wait_loop :: "'w xhci_hw \<Rightarrow> 'w xhci_hcd \<Rightarrow> 'w xhci_hcd option" where
  "wait_loop hw h = (if event_sync h then Some h else do { h \<leftarrow> preempt hw h; wait_loop hw h })"

declare poll.simps [code] isr_loop.simps [code] wait_loop.simps [code]

definition xhci_event_wait :: "'w xhci_hw \<Rightarrow> 'w xhci_hcd \<Rightarrow> 'w xhci_hcd option" where
  "xhci_event_wait hw h = do {
     h \<leftarrow> wait_loop hw (h\<lparr>event_wait := True\<rparr>);
     Some (h\<lparr>event_wait := False, event_sync := False\<rparr>)
   }"

section \<open>Doorbells, port operations and the command ring\<close>

definition xhci_ring_cmd_doorbell :: "'w xhci_hw \<Rightarrow> 'w xhci_hcd \<Rightarrow> 'w xhci_hcd" where
  "xhci_ring_cmd_doorbell hw h = wr32 hw (R_doorbell 0) 0 h"

definition xhci_ring_ep_doorbell :: "'w xhci_hw \<Rightarrow> u32 \<Rightarrow> u32 \<Rightarrow> u32 \<Rightarrow> 'w xhci_hcd \<Rightarrow> 'w xhci_hcd" where
  "xhci_ring_ep_doorbell hw sl ep_num stream_id h =
     wr32 hw (R_doorbell sl) (ep_num OR push_bit 16 stream_id) h"

definition xhci_port_reset :: "'w xhci_hw \<Rightarrow> u32 \<Rightarrow> 'w xhci_hcd \<Rightarrow> 'w xhci_hcd" where
  "xhci_port_reset hw port h =
     (let (v, h) = rd32 hw (R_portsc port) h in
      wr32 hw (R_portsc port) (xhci_port_state_to_neutral v OR XHCI_OP_PORTSC_RESET) h)"

definition xhci_get_portsc :: "'w xhci_hw \<Rightarrow> u32 \<Rightarrow> 'w xhci_hcd \<Rightarrow> u32 \<times> 'w xhci_hcd" where
  "xhci_get_portsc hw port h = rd32 hw (R_portsc port) h"

definition xhci_get_port_speed :: "'w xhci_hw \<Rightarrow> u32 \<Rightarrow> 'w xhci_hcd \<Rightarrow> xhci_usb_speed \<times> 'w xhci_hcd" where
  "xhci_get_port_speed hw port_id h =
     (let (v, h) = rd32 hw (R_portsc port_id) h in (speed_of (XHCI_OP_PORTSC_SPEED v), h))"

text \<open>The completion event replaces the command. The interrupt can come between the doorbell and the wait.\<close>

definition xhci_command_submit :: "'w xhci_hw \<Rightarrow> xhci_trb \<Rightarrow> 'w xhci_hcd \<Rightarrow> (xhci_trb \<times> 'w xhci_hcd) option" where
  "xhci_command_submit hw t h = do {
     ring \<leftarrow> xhci_enqueue_trb (cmd_ring h) t;
     let h = h\<lparr>cmd_ring := ring\<rparr>;
     h \<leftarrow> preempt hw (xhci_ring_cmd_doorbell hw h);
     h \<leftarrow> xhci_event_wait hw h;
     Some (evt_trb h, h)
   }"

section \<open>The event ring is a queue\<close>

text \<open>\<open>(w, pc)\<close> is the controller's position: it writes events from \<open>w\<close> on with cycle bit \<open>pc\<close>. The
  events between the driver's position and the controller's are pending.\<close>

definition event_pending :: "xhci_ring \<Rightarrow> nat \<times> u32 \<Rightarrow> xhci_trb list \<Rightarrow> bool" where
  "event_pending r = (\<lambda>(w, pc) q.
     (let n = unat (num_trb r); d = unat (read_index r); cc = cycle_bit r in
      length (mem r) = n \<and> d < n \<and> w < n \<and> (cc = 0 \<or> cc = 1) \<and>
      (\<forall>i<n. cyc (mem r ! i) = (if i < w then pc else pc XOR 1)) \<and>
      (pc = cc \<and> d \<le> w \<and> q = map ((!) (mem r)) [d..<w] \<or>
       pc = cc XOR 1 \<and> w < d \<and> q = map ((!) (mem r)) ([d..<n] @ [0..<w]))))"

text \<open>The controller writes an event, the driver takes one.\<close>

definition event_put :: "xhci_trb \<Rightarrow> xhci_ring \<times> nat \<times> u32 \<Rightarrow> (xhci_ring \<times> nat \<times> u32) option" where
  "event_put e = (\<lambda>(r, w, pc).
     map_option (\<lambda>m. (r\<lparr>mem := m\<rparr>, if w + 1 = unat (num_trb r) then (0, pc XOR 1) else (w + 1, pc)))
       (store (mem r) w (stamped e pc)))"

definition event_get :: "xhci_ring \<times> nat \<times> u32 \<Rightarrow> (xhci_trb \<times> xhci_ring \<times> nat \<times> u32) option" where
  "event_get = (\<lambda>(r, p).
     map_option (\<lambda>e. (unstamped e, event_advance r, p)) (hc_at (mem r) (unat (read_index r)) (cycle_bit r)))"

definition event_holds :: "xhci_ring \<times> nat \<times> u32 \<Rightarrow> xhci_trb list \<Rightarrow> bool" where
  "event_holds s q \<longleftrightarrow> (\<exists>es. event_pending (fst s) (snd s) es \<and> q = map unstamped es)"

definition event_room :: "xhci_ring \<times> nat \<times> u32 \<Rightarrow> nat" where
  "event_room s = unat (num_trb (fst s)) - 1"

definition is_event :: "xhci_trb \<Rightarrow> bool" where
  "is_event e \<longleftrightarrow> control e AND 1 = 0"

lemma event_advance_simps [simp]:
  "mem (event_advance r) = mem r" "num_trb (event_advance r) = num_trb r" "trb (event_advance r) = trb r"
  "base (event_advance r) = base r"
  by (simp_all add: event_advance_def Let_def)

lemma event_advance_index:
  assumes "unat (read_index r) < unat (num_trb r)"
  shows "unat (read_index (event_advance r)) =
      (if unat (read_index r) + 1 = unat (num_trb r) then 0 else unat (read_index r) + 1)"
    "cycle_bit (event_advance r) =
      (if unat (read_index r) + 1 = unat (num_trb r) then cycle_bit r XOR 1 else cycle_bit r)"
proof -
  let ?i = "read_index r + 1"
  have i: "unat (?i mod num_trb r) = (if unat (read_index r) + 1 = unat (num_trb r) then 0 else unat (read_index r) + 1)"
    using assms by (simp add: unat_mod unat_succ_below [OF assms])
  then have "?i mod num_trb r = 0 \<longleftrightarrow> unat (read_index r) + 1 = unat (num_trb r)"
    by (simp add: word_unat_eq_iff split: if_splits)
  with i show "unat (read_index (event_advance r)) =
      (if unat (read_index r) + 1 = unat (num_trb r) then 0 else unat (read_index r) + 1)"
    "cycle_bit (event_advance r) =
      (if unat (read_index r) + 1 = unat (num_trb r) then cycle_bit r XOR 1 else cycle_bit r)"
    by (simp_all add: event_advance_def Let_def)
qed

lemma event_pending_Cons:
  assumes "event_pending r p (e # q)"
  shows "hc_at (mem r) (unat (read_index r)) (cycle_bit r) = Some e" "event_pending (event_advance r) p q"
proof -
  obtain w pc where p: "p = (w, pc)" by (cases p)
  let ?d = "unat (read_index r)" and ?n = "unat (num_trb r)"
  have b: "length (mem r) = ?n" "?d < ?n" "w < ?n" "cycle_bit r = 0 \<or> cycle_bit r = 1"
      "\<forall>i<?n. cyc (mem r ! i) = (if i < w then pc else pc XOR 1)"
    using assms by (simp_all add: event_pending_def p Let_def)
  consider (same) "pc = cycle_bit r" "?d \<le> w" "e # q = map ((!) (mem r)) [?d..<w]"
    | (lap) "pc = cycle_bit r XOR 1" "w < ?d" "e # q = map ((!) (mem r)) ([?d..<?n] @ [0..<w])"
    using assms by (auto simp: event_pending_def p Let_def)
  then show "hc_at (mem r) ?d (cycle_bit r) = Some e"
  proof cases
    case same
    then have "?d < w" by (cases "?d < w") auto
    then show ?thesis using same b by (simp add: hc_at_def upt_conv_Cons)
  next
    case lap
    then show ?thesis using b by (simp add: hc_at_def upt_conv_Cons)
  qed
  note adv = event_advance_index [OF b(2)]
  from b(4) have flip: "cycle_bit r XOR 1 = 0 \<or> cycle_bit r XOR 1 = 1" by auto
  consider (same) "pc = cycle_bit r" "?d \<le> w" "e # q = map ((!) (mem r)) [?d..<w]"
    | (lap) "pc = cycle_bit r XOR 1" "w < ?d" "e # q = map ((!) (mem r)) ([?d..<?n] @ [0..<w])"
    using assms by (auto simp: event_pending_def p Let_def)
  then show "event_pending (event_advance r) p q"
  proof cases
    case same
    then have "?d < w" by (cases "?d < w") auto
    then show ?thesis using same b adv by (simp add: event_pending_def p Let_def upt_conv_Cons)
  next
    case lap
    show ?thesis
    proof (cases "?d + 1 = ?n")
      case True
      then have "[?d..<?n] = [?d]" by (simp flip: True)
      then show ?thesis using lap b adv flip True by (simp add: event_pending_def p Let_def)
    next
      case False
      then have "[?d..<?n] = ?d # [?d + 1..<?n]" using b(2) by (simp add: upt_conv_Cons)
      then show ?thesis using lap b adv False by (simp add: event_pending_def p Let_def)
    qed
  qed
qed

lemma event_pending_Nil:
  assumes "event_pending r p []"
  shows "hc_at (mem r) (unat (read_index r)) (cycle_bit r) = None" "unat (read_index r) < length (mem r)"
proof -
  obtain w pc where p: "p = (w, pc)" by (cases p)
  have b: "unat (read_index r) = w" "w < unat (num_trb r)" "pc = cycle_bit r" "length (mem r) = unat (num_trb r)"
      "cycle_bit r = 0 \<or> cycle_bit r = 1" "\<forall>i<unat (num_trb r). cyc (mem r ! i) = (if i < w then pc else pc XOR 1)"
    using assms by (auto simp: event_pending_def p Let_def)
  then show "hc_at (mem r) (unat (read_index r)) (cycle_bit r) = None" by (auto simp: hc_at_def)
  show "unat (read_index r) < length (mem r)" using b by simp
qed

lemma event_put_pending:
  assumes "event_pending r p es" "length es < unat (num_trb r) - 1" "is_event e"
  shows "\<exists>r' p'. event_put e (r, p) = Some (r', p') \<and>
    event_pending r' p' (es @ [stamped e (snd p)]) \<and> num_trb r' = num_trb r"
proof -
  obtain w pc where p: "p = (w, pc)" by (cases p)
  let ?d = "unat (read_index r)" and ?n = "unat (num_trb r)"
  let ?m = "(mem r)[w := stamped e pc]"
  have b: "length (mem r) = ?n" "?d < ?n" "w < ?n" "cycle_bit r = 0 \<or> cycle_bit r = 1"
      "\<forall>i<?n. cyc (mem r ! i) = (if i < w then pc else pc XOR 1)"
    using assms(1) by (simp_all add: event_pending_def p Let_def)
  have pc: "pc = 0 \<or> pc = 1" using assms(1) by (auto simp: event_pending_def p Let_def)
  have c: "cyc (stamped e pc) = pc" using assms(3) pc by (simp add: is_event_def)
  have put: "event_put e (r, p) = Some (r\<lparr>mem := ?m\<rparr>, if w + 1 = ?n then (0, pc XOR 1) else (w + 1, pc))"
    using b by (simp add: event_put_def p)
  consider (same) "pc = cycle_bit r" "?d \<le> w" "es = map ((!) (mem r)) [?d..<w]"
    | (lap) "pc = cycle_bit r XOR 1" "w < ?d" "es = map ((!) (mem r)) ([?d..<?n] @ [0..<w])"
    using assms(1) by (auto simp: event_pending_def p Let_def)
  then have "event_pending (r\<lparr>mem := ?m\<rparr>) (if w + 1 = ?n then (0, pc XOR 1) else (w + 1, pc)) (es @ [stamped e pc])"
  proof cases
    case same
    show ?thesis
    proof (cases "w + 1 = ?n")
      case True
      then have "0 < ?d" using same assms(2) by auto
      moreover have "[?d..<?n] = [?d..<w] @ [w]" unfolding True [symmetric] using same(2) by simp
      ultimately show ?thesis
        using True same b c by (auto simp: event_pending_def Let_def nth_list_update less_Suc_eq)
    next
      case False
      then show ?thesis
        using same b c by (auto simp: event_pending_def Let_def nth_list_update less_Suc_eq)
    qed
  next
    case lap
    then have "w + 1 < ?d" using assms(2) by auto
    then show ?thesis
      using lap b c by (auto simp: event_pending_def Let_def nth_list_update less_Suc_eq)
  qed
  with put show ?thesis by (auto simp: p)
qed

interpretation event_fifo: bounded_fifo event_put event_get event_holds event_room is_event
proof
  fix s :: "xhci_ring \<times> nat \<times> u32" and q x
  assume h: "event_holds s q" "length q < event_room s" "is_event x"
  obtain r p where s: "s = (r :: xhci_ring, p :: nat \<times> u32)" by (cases s)
  from h obtain es where es: "event_pending r p es" "q = map unstamped es" by (auto simp: event_holds_def s)
  then have "snd p = 0 \<or> snd p = 1" by (cases p) (auto simp: event_pending_def Let_def)
  with event_put_pending [OF es(1), of x] h es show
    "\<exists>s'. event_put x s = Some s' \<and> event_holds s' (q @ [x]) \<and> event_room s' = event_room s"
    by (auto simp: s event_room_def event_holds_def is_event_def intro!: exI [of _ "es @ [stamped x (snd p)]"])
next
  fix s x q
  assume "event_holds s (x # q)"
  then obtain r p e es where s: "s = (r, p)" and e: "event_pending r p (e # es)" "x = unstamped e" "q = map unstamped es"
    by (cases s) (auto simp: event_holds_def Cons_eq_map_conv)
  from event_pending_Cons [OF e(1)] e(2,3)
  show "\<exists>s'. event_get s = Some (x, s') \<and> event_holds s' q \<and> event_room s' = event_room s"
    by (auto simp: s event_holds_def event_get_def event_room_def)
next
  fix s
  assume "event_holds s []"
  then show "event_get s = None"
    by (cases s) (auto simp: event_holds_def event_get_def dest!: event_pending_Nil(1))
qed

section \<open>What the handlers leave alone\<close>

text \<open>Handlers and waits write registers, the event of the last completion and the wake-up flag; the
  interrupt also consumes events.\<close>

definition irq_frame :: "'w xhci_hcd \<Rightarrow> 'w xhci_hcd \<Rightarrow> bool" where
  "irq_frame h h' \<longleftrightarrow> h' = h\<lparr>evt_trb := evt_trb h', event_sync := event_sync h', world := world h'\<rparr>"

lemma irq_frame_refl [simp, intro]: "irq_frame h h"
  by (simp add: irq_frame_def)

lemma irq_frame_trans [trans]: "irq_frame h h' \<Longrightarrow> irq_frame h' h'' \<Longrightarrow> irq_frame h h''"
  by (cases h; cases h'; cases h'') (simp add: irq_frame_def)

lemma irq_frameD [frame_simps]:
  assumes "irq_frame h h'"
  shows "event_ring h' = event_ring h" "cmd_ring h' = cmd_ring h" "event_wait h' = event_wait h"
    "device h' = device h" "dev_ctx_tab h' = dev_ctx_tab h" "cap_reg h' = cap_reg h"
  using assms by (cases h; cases h'; simp add: irq_frame_def)+

lemma irq_frameE:
  assumes "irq_frame h h'"
  obtains e s w where "h' = h\<lparr>evt_trb := e, event_sync := s, world := w\<rparr>"
  using assms unfolding irq_frame_def by blast

lemma irq_frame_rd [simp, intro]: "rd hw r h = (v, h') \<Longrightarrow> irq_frame h h'"
  by (auto simp: rd_def irq_frame_def split: prod.splits)

lemma irq_frame_rd32 [simp, intro]: "rd32 hw r h = (v, h') \<Longrightarrow> irq_frame h h'"
  by (auto simp: rd32_def split: prod.splits)

lemma irq_frame_wr [simp, intro]: "irq_frame h (wr hw r v h)" "irq_frame h (wr32 hw r v' h)"
  by (simp_all add: wr_def wr32_def irq_frame_def)

lemma irq_frame_complete [simp, intro]: "irq_frame h (xhci_event_complete h)"
  by (simp add: xhci_event_complete_def irq_frame_def)

lemma irq_frame_evt [simp, intro]: "irq_frame h (xhci_event_complete (h\<lparr>evt_trb := e\<rparr>))"
  by (simp add: xhci_event_complete_def irq_frame_def)

lemma irq_frame_poll: "poll hw r ok h = Some h' \<Longrightarrow> irq_frame h h'"
proof (induction rule: poll.raw_induct [rotated, consumes 1, case_names step])
  case (step f hw r ok h h')
  then show ?case
    by (auto simp: Let_def split: prod.splits if_splits intro: irq_frame_trans)
qed

lemma irq_frame_port:
  assumes "port_status_handle hw h e = Some h'"
  shows "irq_frame h h'"
  using assms
  by (auto simp: port_status_handle_def Let_def rd32_def rd_def wr32_def wr_def irq_frame_def [of h]
      split: prod.splits if_splits bind_splits dest!: irq_frame_poll elim!: irq_frameE)

lemma irq_frame_isr_event:
  "isr_event hw e h = Some h' \<Longrightarrow> irq_frame h h'"
  by (auto simp: isr_event_def Let_def irq_frame_port split: if_splits bind_splits)

section \<open>The interrupt against a reference\<close>

text \<open>The specification of the interrupt: acknowledge it, handle the pending events in their order,
  and tell the controller how far the driver has read.\<close>

fun handle_events :: "'w xhci_hw \<Rightarrow> xhci_trb list \<Rightarrow> 'w xhci_hcd \<Rightarrow> 'w xhci_hcd option" where
  "handle_events hw [] h = Some h"
| "handle_events hw (e # q) h = do {
     h \<leftarrow> isr_event hw e h;
     handle_events hw q (h\<lparr>event_ring := event_advance (event_ring h)\<rparr>)
   }"

definition isr_acknowledge :: "'w xhci_hw \<Rightarrow> 'w xhci_hcd \<Rightarrow> 'w xhci_hcd" where
  "isr_acknowledge hw h =
     (let (v, h) = rd32 hw R_status h; h = wr32 hw R_status (v OR XHCI_USBSTS_EINT) h;
          (v, h) = rd32 hw R_iman h in
      wr32 hw R_iman (v OR XHCI_IMAIN_IP) h)"

definition isr_enter :: "'w xhci_hw \<Rightarrow> 'w xhci_hcd \<Rightarrow> u64 \<times> 'w xhci_hcd" where
  "isr_enter hw h =
     (let (erdp, h) = rd hw R_erdp h; h = isr_acknowledge hw h in
      (erdp, h\<lparr>event_ring := (event_ring h)\<lparr>trb := mem (event_ring h)\<rparr>\<rparr>))"

definition isr_leave :: "'w xhci_hw \<Rightarrow> u64 \<Rightarrow> bool \<Rightarrow> 'w xhci_hcd \<Rightarrow> 'w xhci_hcd" where
  "isr_leave hw erdp moved h =
     (let here = trb_addr (event_ring h) (read_index (event_ring h)) in
      wr hw R_erdp (if moved then (erdp AND ERST_PTR_MASK) OR here OR ERST_EHB else erdp OR ERST_EHB) h)"

definition isr_reference :: "'w xhci_hw \<Rightarrow> xhci_trb list \<Rightarrow> 'w xhci_hcd \<Rightarrow> 'w xhci_hcd option" where
  "isr_reference hw q h = do {
     let (erdp, h) = isr_enter hw h;
     h \<leftarrow> handle_events hw q h;
     Some (isr_leave hw erdp (q \<noteq> []) h)
   }"

lemma event_pending_trb [simp]: "event_pending (r\<lparr>trb := t\<rparr>) p q = event_pending r p q"
  by (simp add: event_pending_def Let_def split: prod.splits)

lemma event_pending_index:
  "event_pending r (w, pc) q \<Longrightarrow> q = [] \<longleftrightarrow> unat (read_index r) = w"
  by (auto simp: event_pending_def Let_def)

lemma isr_loop_step:
  assumes "trb (event_ring h) = mem (event_ring h)" "unat (read_index (event_ring h)) < length (mem (event_ring h))"
  shows "isr_loop hw h =
    (case hc_at (mem (event_ring h)) (unat (read_index (event_ring h))) (cycle_bit (event_ring h)) of
       None \<Rightarrow> Some h
     | Some e \<Rightarrow> do { h \<leftarrow> isr_event hw e h; isr_loop hw (h\<lparr>event_ring := event_advance (event_ring h)\<rparr>) })"
  using assms by (subst isr_loop.simps) (simp add: hc_at_def)

lemma isr_loop_handles:
  assumes "event_pending (event_ring h) p q" "trb (event_ring h) = mem (event_ring h)"
  shows "isr_loop hw h = handle_events hw q h"
  using assms
proof (induction q arbitrary: h)
  case Nil
  then show ?case using event_pending_Nil [OF Nil(1)] by (simp add: isr_loop_step)
next
  case (Cons e q)
  note step = event_pending_Cons [OF Cons.prems(1)]
  have "unat (read_index (event_ring h)) < length (mem (event_ring h))"
    using step(1) by (auto simp: hc_at_def split: if_splits)
  then show ?case
    using step Cons.prems(2) Cons.IH irq_frame_isr_event [of hw e h]
    by (cases "isr_event hw e h") (simp_all add: isr_loop_step frame_simps)
qed

lemma handle_events_ring:
  assumes "event_pending (event_ring h) p q" "handle_events hw q h = Some h'"
  shows "event_pending (event_ring h') p [] \<and> mem (event_ring h') = mem (event_ring h)"
  using assms
proof (induction q arbitrary: h)
  case Nil
  then show ?case by simp
next
  case (Cons e q)
  from Cons.prems(2) obtain h1 where h1: "isr_event hw e h = Some h1"
      "handle_events hw q (h1\<lparr>event_ring := event_advance (event_ring h1)\<rparr>) = Some h'"
    by (auto split: bind_splits)
  have "event_ring h1 = event_ring h" by (rule irq_frameD [OF irq_frame_isr_event [OF h1(1)]])
  with Cons.IH [of "h1\<lparr>event_ring := event_advance (event_ring h1)\<rparr>"] h1(2) event_pending_Cons(2) [OF Cons.prems(1)]
  show ?case by simp
qed

lemma isr_acknowledge_ring [simp]: "event_ring (isr_acknowledge hw h) = event_ring h"
  by (simp add: isr_acknowledge_def rd32_def rd_def wr32_def wr_def Let_def split: prod.splits)

lemma isr_enter_fields:
  assumes "isr_enter hw h = (erdp, h1)"
  shows "event_ring h1 = (event_ring h)\<lparr>trb := mem (event_ring h)\<rparr>" "cmd_ring h1 = cmd_ring h" "event_sync h1 = event_sync h"
    "event_wait h1 = event_wait h" "device h1 = device h" "dev_ctx_tab h1 = dev_ctx_tab h" "cap_reg h1 = cap_reg h"
  using assms
  by (auto simp: isr_enter_def isr_acknowledge_def rd32_def rd_def wr32_def wr_def Let_def split: prod.splits)

lemma isr_leave_fields [simp]:
  "event_ring (isr_leave hw a m h) = event_ring h" "cmd_ring (isr_leave hw a m h) = cmd_ring h"
  "event_sync (isr_leave hw a m h) = event_sync h" "event_wait (isr_leave hw a m h) = event_wait h"
  "device (isr_leave hw a m h) = device h" "dev_ctx_tab (isr_leave hw a m h) = dev_ctx_tab h"
  "cap_reg (isr_leave hw a m h) = cap_reg h" "evt_trb (isr_leave hw a m h) = evt_trb h"
  by (simp_all add: isr_leave_def wr_def Let_def)

lemma isr_code:
  assumes "isr_enter hw h = (erdp, h1)"
  shows "xhci_isr hw h = map_option
    (\<lambda>h2. isr_leave hw erdp (read_index (event_ring h) \<noteq> read_index (event_ring h2)) h2) (isr_loop hw h1)"
proof -
  obtain a b where ab: "rd hw R_erdp h = (a, b)" by fastforce
  obtain v c where vc: "rd32 hw R_status b = (v, c)" by fastforce
  obtain x d where xd: "rd32 hw R_iman (wr32 hw R_status (v OR XHCI_USBSTS_EINT) c) = (x, d)" by fastforce
  let ?d = "wr32 hw R_iman (x OR XHCI_IMAIN_IP) d"
  have h1: "erdp = a" "h1 = ?d\<lparr>event_ring := (event_ring ?d)\<lparr>trb := mem (event_ring ?d)\<rparr>\<rparr>"
    using assms by (simp_all add: isr_enter_def isr_acknowledge_def ab vc xd Let_def)
  have "xhci_isr hw h = do {
      h2 \<leftarrow> isr_loop hw h1;
      Some (wr hw R_erdp ((if read_index (event_ring h) \<noteq> read_index (event_ring h2)
        then (a AND ERST_PTR_MASK) OR trb_addr (event_ring h2) (read_index (event_ring h2)) else a) OR ERST_EHB) h2) }"
    by (simp add: xhci_isr_def ab vc xd h1 Let_def)
  then show ?thesis
    by (cases "isr_loop hw h1") (simp_all add: isr_leave_def h1(1) or.assoc Let_def)
qed

lemma isr_is_reference:
  assumes "event_pending (event_ring h) p q"
  shows "xhci_isr hw h = isr_reference hw q h"
proof -
  obtain w pc where p: "p = (w, pc)" by (cases p)
  obtain erdp h1 where h1: "isr_enter hw h = (erdp, h1)" by fastforce
  have pend: "event_pending (event_ring h1) p q" using assms by (simp add: isr_enter_fields [OF h1])
  have loop: "isr_loop hw h1 = handle_events hw q h1"
    by (rule isr_loop_handles [OF pend]) (simp add: isr_enter_fields [OF h1])
  have "read_index (event_ring h) \<noteq> read_index (event_ring h2) \<longleftrightarrow> q \<noteq> []"
    if "handle_events hw q h1 = Some h2" for h2
  proof -
    have "unat (read_index (event_ring h2)) = w"
      using handle_events_ring [OF pend that] event_pending_index [of _ w pc "[]"] by (simp add: p)
    moreover have "q = [] \<longleftrightarrow> unat (read_index (event_ring h)) = w"
      using event_pending_index assms by (simp add: p)
    ultimately show ?thesis by (auto simp: word_unat_eq_iff)
  qed
  then show ?thesis
    unfolding isr_code [OF h1] loop by (cases "handle_events hw q h1") (simp_all add: isr_reference_def h1)
qed

lemma isr_consumes:
  assumes "event_pending (event_ring h) p q" "xhci_isr hw h = Some h'"
  shows "event_pending (event_ring h') p []"
proof -
  obtain erdp h1 where h1: "isr_enter hw h = (erdp, h1)" by fastforce
  have pend: "event_pending (event_ring h1) p q" using assms(1) by (simp add: isr_enter_fields [OF h1])
  have "isr_reference hw q h = Some h'" using assms isr_is_reference by metis
  then obtain h2 where h2: "handle_events hw q h1 = Some h2" "event_ring h' = event_ring h2"
    by (auto simp: isr_reference_def h1 split: bind_splits)
  with handle_events_ring [OF pend h2(1)] show ?thesis by simp
qed

section \<open>The interrupt returns\<close>

text \<open>What the port registers are documented to do: the speed field names one of the six speeds, and
  a port reset ends.\<close>

definition port_settles :: "'w xhci_hw \<Rightarrow> bool" where
  "port_settles hw \<longleftrightarrow> (\<forall>p w. XHCI_OP_PORTSC_SPEED (ucast (fst (reg_read hw (R_portsc p) w))) < 6 \<and>
     (\<exists>k. ucast (fst (reg_read hw (R_portsc p) (((\<lambda>w. snd (reg_read hw (R_portsc p) w)) ^^ k) w))) AND XHCI_OP_PORTSC_PRC \<noteq> 0))"

text \<open>A completion event points into the command ring.\<close>

definition completion_ok :: "xhci_ring \<Rightarrow> xhci_trb \<Rightarrow> bool" where
  "completion_ok r e \<longleftrightarrow>
     (control e AND TRB_TYPE_BITMASK \<noteq> TRB_TYPE TRB_COMPLETION \<or> command_at r (ucast (paramater e)) \<noteq> None)"

lemma poll_returns:
  assumes "ok (ucast (fst (reg_read hw r (((\<lambda>w. snd (reg_read hw r w)) ^^ k) (world h)))))"
  shows "\<exists>h'. poll hw r ok h = Some h'"
  using assms
proof (induction k arbitrary: h)
  case 0
  then show ?case by (subst poll.simps) (auto simp: rd32_def rd_def split: prod.splits)
next
  case (Suc k)
  obtain v w where vw: "reg_read hw r (world h) = (v, w)" by fastforce
  have "\<exists>h'. poll hw r ok (h\<lparr>world := w\<rparr>) = Some h'"
    using Suc.prems vw by (intro Suc.IH) (simp add: funpow_Suc_right del: funpow.simps)
  then show ?case by (subst poll.simps) (simp add: rd32_def rd_def vw)
qed

lemma port_status_returns:
  assumes "port_settles hw"
  shows "\<exists>h'. port_status_handle hw h e = Some h'"
proof -
  have sp: "unat (XHCI_OP_PORTSC_SPEED (ucast v)) < length speed_map" if "reg_read hw (R_portsc p) w = (v, w')" for p v w w'
  proof -
    have "XHCI_OP_PORTSC_SPEED (ucast v) < 6" using assms that unfolding port_settles_def by (metis fst_conv)
    then show ?thesis by (simp add: speed_map_def word_less_nat_alt)
  qed
  have po: "\<exists>h'. poll hw (R_portsc p) (\<lambda>v. v AND XHCI_OP_PORTSC_PRC \<noteq> 0) h = Some h'" for p h
  proof -
    obtain k where "ucast (fst (reg_read hw (R_portsc p) (((\<lambda>w. snd (reg_read hw (R_portsc p) w)) ^^ k) (world h))))
        AND XHCI_OP_PORTSC_PRC \<noteq> 0" using assms unfolding port_settles_def by blast
    then show ?thesis by (intro poll_returns)
  qed
  then have pk: "\<exists>h'. poll hw (R_portsc p) (\<lambda>v. v AND 2097152 \<noteq> 0) h = Some h'" for p h by simp
  obtain p where p: "ucast (ucast (GET_PORT_ID (paramater e) - 1) :: u16) = (p :: u32)" by blast
  obtain v w where vw: "reg_read hw (R_portsc p) (world h) = (v, w)" by fastforce
  obtain v2 w2 where vw2: "reg_read hw (R_portsc p) w = (v2, w2)" by fastforce
  obtain h3 where h3: "poll hw (R_portsc p) (\<lambda>v. v AND 2097152 \<noteq> 0)
      (wr32 hw (R_portsc p) (ucast v2 OR (xhci_port_state_to_neutral (ucast v) OR XHCI_OP_PORTSC_RESET)) (h\<lparr>world := w2\<rparr>)) = Some h3"
    using pk by blast
  show ?thesis
    using sp [OF vw] h3
    by (simp add: port_status_handle_def p rd32_def rd_def vw vw2 Let_def split: prod.splits)
qed

lemma isr_event_returns:
  assumes "port_settles hw" "completion_ok (cmd_ring h) e"
  shows "\<exists>h'. isr_event hw e h = Some h'"
proof -
  have "command_complete_handle h e \<noteq> None" if "control e AND TRB_TYPE_BITMASK = TRB_TYPE TRB_COMPLETION"
    using assms(2) that by (auto simp: completion_ok_def command_complete_handle_def Let_def)
  with port_status_returns [OF assms(1)] show ?thesis
    by (cases "control e AND TRB_TYPE_BITMASK = TRB_TYPE TRB_COMPLETION") (auto simp: isr_event_def Let_def)
qed

text \<open>The events that the driver finds in a ring whose memory is arbitrary: from its position on while the
  cycle bit is its own, and once past the end of the ring from the start on while it is the other one.\<close>

definition visible_events :: "xhci_ring \<Rightarrow> xhci_trb list" where
  "visible_events r =
     (let d = unat (read_index r); cc = cycle_bit r; ahead = takeWhile (\<lambda>e. cyc e = cc) (drop d (mem r)) in
      if length ahead = length (drop d (mem r)) then ahead @ takeWhile (\<lambda>e. cyc e = cc XOR 1) (take d (mem r)) else ahead)"

text \<open>The interrupt over a list of events. The code tells that it has handled some by comparing the read
  index, so after exactly one round it leaves the dequeue pointer as it was.\<close>

definition isr_outcome :: "'w xhci_hw \<Rightarrow> xhci_trb list \<Rightarrow> 'w xhci_hcd \<Rightarrow> 'w xhci_hcd option" where
  "isr_outcome hw q h = do {
     let (erdp, h) = isr_enter hw h;
     h \<leftarrow> handle_events hw q h;
     Some (isr_leave hw erdp (q \<noteq> [] \<and> length q < unat (num_trb (event_ring h))) h)
   }"

definition ring_geometry :: "xhci_ring \<Rightarrow> bool" where
  "ring_geometry r \<longleftrightarrow> unat (read_index r) < unat (num_trb r) \<and> length (mem r) = unat (num_trb r)"

lemma cyc_bit: "cyc t = 0 \<or> cyc t = 1"
  by (cases "odd (control t)") (simp_all add: and_one_eq mod_2_eq_odd)

lemma ring_geometry_advance: "ring_geometry r \<Longrightarrow> ring_geometry (event_advance r)"
  using event_advance_index [of r] by (auto simp: ring_geometry_def)

lemma handle_events_append: "handle_events hw (xs @ ys) h = handle_events hw xs h \<bind> handle_events hw ys"
  by (induction xs arbitrary: h) (simp_all add: bind_assoc)

lemma handle_events_advances:
  "handle_events hw q h = Some h' \<Longrightarrow> event_ring h' = (event_advance ^^ length q) (event_ring h)"
proof (induction q arbitrary: h)
  case (Cons e q)
  then show ?case
    by (auto simp: funpow_Suc_right frame_simps simp del: funpow.simps split: bind_splits dest!: irq_frame_isr_event)
qed simp

lemma event_advance_times_keeps [simp]:
  "mem ((event_advance ^^ k) r) = mem r" "trb ((event_advance ^^ k) r) = trb r" "num_trb ((event_advance ^^ k) r) = num_trb r"
  by (induction k) simp_all

lemma event_advance_times:
  assumes "ring_geometry r" "k \<le> unat (num_trb r)"
  shows "unat (read_index ((event_advance ^^ k) r)) =
      (if unat (read_index r) + k < unat (num_trb r) then unat (read_index r) + k else unat (read_index r) + k - unat (num_trb r)) \<and>
    cycle_bit ((event_advance ^^ k) r) =
      (if unat (read_index r) + k < unat (num_trb r) then cycle_bit r else cycle_bit r XOR 1) \<and>
    ring_geometry ((event_advance ^^ k) r)"
  using assms(2)
proof (induction k)
  case 0
  then show ?case using assms(1) by (simp add: ring_geometry_def)
next
  case (Suc k)
  let ?r = "(event_advance ^^ k) r"
  have g: "ring_geometry ?r" using Suc by simp
  then have "unat (read_index ?r) < unat (num_trb ?r)" by (simp add: ring_geometry_def)
  note adv = event_advance_index [OF this]
  have "ring_geometry (event_advance ?r)" using g by (rule ring_geometry_advance)
  with adv Suc assms(1) show ?case by (auto simp: ring_geometry_def)
qed

lemma isr_loop_ahead:
  assumes "ring_geometry (event_ring h)" "trb (event_ring h) = mem (event_ring h)"
  defines "ahead \<equiv> takeWhile (\<lambda>e. cyc e = cycle_bit (event_ring h)) (drop (unat (read_index (event_ring h))) (mem (event_ring h)))"
  shows "isr_loop hw h = do {
    h' \<leftarrow> handle_events hw ahead h;
    if length ahead = length (drop (unat (read_index (event_ring h))) (mem (event_ring h))) then isr_loop hw h' else Some h' }"
  using assms(1,2) unfolding ahead_def
proof (induction "unat (num_trb (event_ring h)) - unat (read_index (event_ring h))" arbitrary: h rule: less_induct)
  case less
  let ?r = "event_ring h" let ?d = "unat (read_index ?r)" and ?n = "unat (num_trb ?r)"
  have b: "?d < ?n" "length (mem ?r) = ?n" using less.prems(1) by (simp_all add: ring_geometry_def)
  have dr: "drop ?d (mem ?r) = mem ?r ! ?d # drop (Suc ?d) (mem ?r)" using b by (simp add: Cons_nth_drop_Suc)
  note adv = event_advance_index [OF b(1)]
  have step: "isr_loop hw h = (if cyc (mem ?r ! ?d) = cycle_bit ?r
      then do { h \<leftarrow> isr_event hw (mem ?r ! ?d) h; isr_loop hw (h\<lparr>event_ring := event_advance (event_ring h)\<rparr>) } else Some h)"
    using less.prems(2) b by (simp add: isr_loop_step hc_at_def)
  show ?case
  proof (cases "cyc (mem ?r ! ?d) = cycle_bit ?r")
    case False
    then show ?thesis unfolding step dr by simp
  next
    case True
    show ?thesis
    proof (cases "isr_event hw (mem ?r ! ?d) h")
      case None
      then show ?thesis unfolding step dr using True by simp
    next
      case (Some h1)
      have fr: "event_ring h1 = ?r" by (rule irq_frameD [OF irq_frame_isr_event [OF Some]])
      let ?h = "h1\<lparr>event_ring := event_advance ?r\<rparr>"
      show ?thesis
      proof (cases "Suc ?d = ?n")
        case True
        then show ?thesis unfolding step dr using \<open>cyc _ = _\<close> Some b fr by simp
      next
        case False
        then have "unat (read_index (event_ring ?h)) = Suc ?d" "cycle_bit (event_ring ?h) = cycle_bit ?r" using adv by simp_all
        with less.hyps [of ?h] less.prems ring_geometry_advance [OF less.prems(1)] b show ?thesis
          unfolding step dr using \<open>cyc _ = _\<close> Some fr by simp
      qed
    qed
  qed
qed

text \<open>The loop goes round at most once: when it comes back to where it started, that block carries the
  wrong cycle bit.\<close>

lemma visible_events_length:
  assumes "ring_geometry r"
  shows "length (visible_events r) \<le> unat (num_trb r)"
proof -
  let ?d = "unat (read_index r)"
  let ?a = "takeWhile (\<lambda>e. cyc e = cycle_bit r) (drop ?d (mem r))"
    and ?w = "takeWhile (\<lambda>e. cyc e = cycle_bit r XOR 1) (take ?d (mem r))"
  have "length ?a \<le> length (drop ?d (mem r))" "length ?w \<le> length (take ?d (mem r))" by (rule length_takeWhile_le)+
  moreover have "length (drop ?d (mem r)) + length (take ?d (mem r)) = unat (num_trb r)"
    using assms by (simp add: ring_geometry_def)
  ultimately have "length ?a + length ?w \<le> unat (num_trb r)" by linarith
  then show ?thesis by (auto simp only: visible_events_def Let_def length_append split: if_split)
qed

lemma isr_loop_visible:
  assumes "ring_geometry (event_ring h)" "trb (event_ring h) = mem (event_ring h)"
  shows "isr_loop hw h = handle_events hw (visible_events (event_ring h)) h"
proof -
  let ?r = "event_ring h" let ?d = "unat (read_index ?r)" and ?n = "unat (num_trb ?r)" and ?cc = "cycle_bit ?r" and ?m = "mem ?r"
  let ?ahead = "takeWhile (\<lambda>e. cyc e = ?cc) (drop ?d ?m)" and ?wrapped = "takeWhile (\<lambda>e. cyc e = ?cc XOR 1) (take ?d ?m)"
  have b: "?d < ?n" "length ?m = ?n" using assms(1) by (simp_all add: ring_geometry_def)
  note ahead = isr_loop_ahead [OF assms, of hw]
  show ?thesis
  proof (cases "length ?ahead = length (drop ?d ?m)")
    case False
    then show ?thesis unfolding ahead by (simp add: visible_events_def Let_def)
  next
    case True
    have "?ahead = drop ?d ?m" by (subst takeWhile_eq_take) (simp only: True take_all order_refl)
    moreover have "drop ?d ?m = ?m ! ?d # drop (Suc ?d) ?m" using b by (simp add: Cons_nth_drop_Suc)
    ultimately have "?m ! ?d \<in> set ?ahead" by (simp only: list.set_intros)
    then have here: "cyc (?m ! ?d) = ?cc" by (rule set_takeWhileD [THEN conjunct2])
    have flip: "?cc XOR 1 \<noteq> ?cc" using cyc_bit [of "?m ! ?d"] unfolding here by (elim disjE) simp_all
    have wrapped: "takeWhile (\<lambda>e. cyc e = ?cc XOR 1) ?m = ?wrapped"
    proof -
      have "takeWhile (\<lambda>e. cyc e = ?cc XOR 1) (take ?d ?m @ ?m ! ?d # drop (Suc ?d) ?m) = ?wrapped"
        using here flip by (simp add: takeWhile_tail)
      then show ?thesis using b by (simp add: id_take_nth_drop [symmetric])
    qed
    have "isr_loop hw h' = handle_events hw ?wrapped h'" if h': "handle_events hw ?ahead h = Some h'" for h'
    proof -
      have r: "event_ring h' = (event_advance ^^ (?n - ?d)) ?r" using handle_events_advances [OF h'] True b by simp
      from event_advance_times [OF assms(1), of "?n - ?d"] b have
        f: "unat (read_index (event_ring h')) = 0" "cycle_bit (event_ring h') = ?cc XOR 1" "ring_geometry (event_ring h')"
          "mem (event_ring h') = ?m" "trb (event_ring h') = ?m"
        by (simp_all add: r assms(2))
      have "length ?wrapped \<le> ?d" using length_takeWhile_le [of _ "take ?d ?m"] b by simp
      then have "length ?wrapped \<noteq> ?n" using b by simp
      then show ?thesis using isr_loop_ahead [OF f(3), of hw] f(1,2,4,5) b by (simp add: wrapped)
    qed
    then have "isr_loop hw h = handle_events hw ?ahead h \<bind> handle_events hw ?wrapped"
      unfolding ahead using True by (cases "handle_events hw ?ahead h") simp_all
    then show ?thesis using True by (simp add: visible_events_def Let_def handle_events_append)
  qed
qed

text \<open>So the interrupt is a function of the visible events, whatever the rest of the memory holds.\<close>

lemma isr_handles_visible:
  assumes "ring_geometry (event_ring h)"
  shows "xhci_isr hw h = isr_outcome hw (visible_events (event_ring h)) h"
proof -
  let ?q = "visible_events (event_ring h)" and ?n = "unat (num_trb (event_ring h))"
  obtain erdp h1 where h1: "isr_enter hw h = (erdp, h1)" by fastforce
  note f = isr_enter_fields [OF h1]
  have g: "ring_geometry (event_ring h1)" using assms by (simp add: f ring_geometry_def)
  have v: "visible_events (event_ring h1) = ?q" by (simp add: f visible_events_def Let_def)
  have loop: "isr_loop hw h1 = handle_events hw ?q h1" using isr_loop_visible [OF g, of hw] unfolding v by (simp add: f)
  have "read_index (event_ring h) \<noteq> read_index (event_ring h2) \<longleftrightarrow> ?q \<noteq> [] \<and> length ?q < unat (num_trb (event_ring h2))"
    if "handle_events hw ?q h1 = Some h2" for h2
  proof -
    have r: "event_ring h2 = (event_advance ^^ length ?q) (event_ring h1)" by (rule handle_events_advances [OF that])
    have le: "length ?q \<le> ?n" by (rule visible_events_length [OF assms])
    have "unat (read_index (event_ring h)) < ?n" using assms by (simp add: ring_geometry_def)
    moreover have "num_trb (event_ring h1) = num_trb (event_ring h)" "read_index (event_ring h1) = read_index (event_ring h)"
      by (simp_all add: f)
    ultimately show ?thesis
      using event_advance_times [OF g, of "length ?q"] le by (auto simp: r word_unat_eq_iff split: if_splits)
  qed
  then show ?thesis
    unfolding isr_code [OF h1] loop by (cases "handle_events hw ?q h1") (simp_all add: isr_outcome_def h1)
qed

lemma handle_events_returns:
  "port_settles hw \<Longrightarrow> list_all (completion_ok (cmd_ring h)) q \<Longrightarrow> \<exists>h'. handle_events hw q h = Some h'"
proof (induction q arbitrary: h)
  case (Cons e q)
  then obtain h1 where h1: "isr_event hw e h = Some h1" using isr_event_returns [of hw h e] by auto
  have "cmd_ring h1 = cmd_ring h" by (rule irq_frameD [OF irq_frame_isr_event [OF h1]])
  with Cons h1 show ?case by simp
qed simp

text \<open>The controller has posted only completion events that point into the command ring.\<close>

definition isr_ready :: "'w xhci_hw \<Rightarrow> 'w xhci_hcd \<Rightarrow> bool" where
  "isr_ready hw h \<longleftrightarrow> port_settles hw \<and> ring_geometry (event_ring h) \<and>
     list_all (completion_ok (cmd_ring h)) (visible_events (event_ring h))"

lemma isr_outcome_returns:
  assumes "isr_ready hw h"
  shows "\<exists>h'. isr_outcome hw (visible_events (event_ring h)) h = Some h'"
proof -
  obtain erdp h1 where h1: "isr_enter hw h = (erdp, h1)" by fastforce
  have "list_all (completion_ok (cmd_ring h1)) (visible_events (event_ring h))"
    using assms by (simp add: isr_ready_def isr_enter_fields [OF h1])
  with handle_events_returns [of hw h1] assms obtain h2 where "handle_events hw (visible_events (event_ring h)) h1 = Some h2"
    by (auto simp: isr_ready_def)
  then show ?thesis by (simp add: isr_outcome_def h1)
qed

text \<open>When the ring holds pending events, they are what is visible.\<close>

lemma event_pending_visible:
  assumes "event_pending r p q"
  shows "visible_events r = q"
proof -
  obtain w pc where p: "p = (w, pc)" by (cases p)
  let ?d = "unat (read_index r)" and ?n = "unat (num_trb r)" and ?cc = "cycle_bit r"
  have b: "length (mem r) = ?n" "?d < ?n" "w < ?n" "?cc = 0 \<or> ?cc = 1"
      "\<forall>i<?n. cyc (mem r ! i) = (if i < w then pc else pc XOR 1)"
    using assms by (simp_all add: event_pending_def p Let_def)
  have tw: "takeWhile P (map ((!) (mem r)) ([i..<j] @ [j..<k])) = map ((!) (mem r)) [i..<j]"
    if "\<forall>x. i \<le> x \<and> x < j \<longrightarrow> P (mem r ! x)" "j < k \<Longrightarrow> \<not> P (mem r ! j)" for P i j k
  proof -
    have "takeWhile P (map ((!) (mem r)) [i..<j]) = map ((!) (mem r)) [i..<j]"
      using that(1) by (simp only: takeWhile_eq_all_conv) auto
    moreover have "takeWhile P (map ((!) (mem r)) [j..<k]) = []" using that(2) by (cases "j < k") (simp_all add: upt_conv_Cons)
    ultimately show ?thesis by (simp only: map_append takeWhile_append) (use that(1) in simp)
  qed
  have cut: "[i..<k] = [i..<j] @ [j..<k]" if "i \<le> j" "j \<le> k" for i j k
    using upt_add_eq_append [OF that(1), of "k - j"] that(2) by simp
  have dr: "drop i (mem r) = map ((!) (mem r)) [i..<?n]" for i using map_nth [of "mem r"] b(1) by (metis drop_map drop_upt add_0)
  have tk: "take i (mem r) = map ((!) (mem r)) [0..<i]" if "i \<le> ?n" for i
    using map_nth [of "mem r"] b(1) that by (metis take_map take_upt add_0)
  consider (same) "pc = ?cc" "?d \<le> w" "q = map ((!) (mem r)) [?d..<w]"
    | (lap) "pc = ?cc XOR 1" "w < ?d" "q = map ((!) (mem r)) ([?d..<?n] @ [0..<w])"
    using assms by (auto simp: event_pending_def p Let_def)
  then show ?thesis
  proof cases
    case same
    have s: "[?d..<?n] = [?d..<w] @ [w..<?n]" using same(2) b(3) by (intro cut) simp_all
    have "takeWhile (\<lambda>e. cyc e = ?cc) (drop ?d (mem r)) = q"
      unfolding dr s same(3) by (rule tw) (use same b in auto)
    moreover have "length q \<noteq> length (drop ?d (mem r))" using same b by simp
    ultimately show ?thesis by (simp add: visible_events_def Let_def)
  next
    case lap
    have s: "[0..<?d] = [0..<w] @ [w..<?d]" using lap(2) by (intro cut) simp_all
    have "takeWhile (\<lambda>e. cyc e = ?cc) (drop ?d (mem r)) = drop ?d (mem r)"
      unfolding dr takeWhile_eq_all_conv using lap b by auto
    moreover have "takeWhile (\<lambda>e. cyc e = ?cc XOR 1) (take ?d (mem r)) = map ((!) (mem r)) [0..<w]"
      unfolding tk [OF less_imp_le [OF b(2)]] s by (rule tw) (use lap b in auto)
    ultimately have "visible_events r = drop ?d (mem r) @ map ((!) (mem r)) [0..<w]"
      by (simp only: visible_events_def Let_def simp_thms if_True)
    then show ?thesis by (simp only: dr lap(3) map_append)
  qed
qed

section \<open>One event, one wake-up\<close>

definition wakes :: "xhci_ring \<Rightarrow> xhci_trb \<Rightarrow> bool" where
  "wakes r e \<longleftrightarrow> completion_ok r e \<and>
     (let ty = control e AND TRB_TYPE_BITMASK in ty = TRB_TYPE TRB_COMPLETION \<or> ty = TRB_TYPE TRB_TRANSFER)"

lemma isr_event_wakes:
  assumes "wakes (cmd_ring h) e"
  shows "isr_event hw e h = Some (xhci_event_complete (h\<lparr>evt_trb := e\<rparr>))"
  using assms
  by (auto simp: wakes_def isr_event_def completion_ok_def command_complete_handle_def Let_def TRB_TYPE_def)

text \<open>What the interrupt keeps: everything but the event ring, the last event, the flag and the registers.\<close>

definition same_driver :: "'w xhci_hcd \<Rightarrow> 'w xhci_hcd \<Rightarrow> bool" where
  "same_driver h h' \<longleftrightarrow> cmd_ring h' = cmd_ring h \<and> device h' = device h \<and> event_wait h' = event_wait h \<and>
     dev_ctx_tab h' = dev_ctx_tab h \<and> cap_reg h' = cap_reg h"

lemma isr_one_event:
  assumes p: "event_pending (event_ring h) p [e]" and e: "wakes (cmd_ring h) e"
  shows "\<exists>h'. xhci_isr hw h = Some h' \<and> evt_trb h' = e \<and> event_sync h' = (event_sync h \<or> event_wait h) \<and>
    same_driver h h' \<and> event_pending (event_ring h') p []"
proof -
  obtain erdp h1 where h1: "isr_enter hw h = (erdp, h1)" by fastforce
  note f = isr_enter_fields [OF h1]
  define h2 where "h2 = (xhci_event_complete (h1\<lparr>evt_trb := e\<rparr>))\<lparr>event_ring := event_advance (event_ring h1)\<rparr>"
  have "handle_events hw [e] h1 = Some h2"
    using e by (simp add: isr_event_wakes f h2_def xhci_event_complete_def)
  then have isr: "xhci_isr hw h = Some (isr_leave hw erdp True h2)"
    unfolding isr_is_reference [OF p] by (simp add: isr_reference_def h1 del: handle_events.simps)
  have "evt_trb h2 = e \<and> event_sync h2 = (event_sync h \<or> event_wait h) \<and> same_driver h h2"
    by (auto simp: h2_def f xhci_event_complete_def same_driver_def)
  with isr isr_consumes [OF p isr] show ?thesis by (auto simp: same_driver_def)
qed

text \<open>The controller posts the event \<open>e\<close> after some idle time; meanwhile only its own state changes.\<close>

inductive posts :: "'w xhci_hw \<Rightarrow> xhci_trb \<Rightarrow> nat \<times> u32 \<Rightarrow> 'w xhci_hcd \<Rightarrow> 'w xhci_hcd \<Rightarrow> nat \<times> u32 \<Rightarrow> bool"
  for hw :: "'w xhci_hw" and e p where
  now: "idle hw h = (True, h\<lparr>event_ring := r, world := w\<rparr>) \<Longrightarrow> event_put e (event_ring h, p) = Some (r, p') \<Longrightarrow>
    posts hw e p h (h\<lparr>event_ring := r, world := w\<rparr>) p'"
| later: "idle hw h = (False, h\<lparr>world := w\<rparr>) \<Longrightarrow> posts hw e p (h\<lparr>world := w\<rparr>) h' p' \<Longrightarrow> posts hw e p h h' p'"

lemma wait_returns:
  assumes "posts hw e p h h1 p'" "event_pending (event_ring h) p []" "is_event e" "2 \<le> unat (num_trb (event_ring h))"
    and "wakes (cmd_ring h) (stamped e (snd p))" "event_wait h" "\<not> event_sync h"
  shows "\<exists>h'. wait_loop hw h = Some h' \<and> evt_trb h' = stamped e (snd p) \<and> event_sync h' \<and> same_driver h h' \<and>
    event_pending (event_ring h') p' []"
  using assms
proof (induction rule: posts.induct)
  case (now h w r p')
  from event_put_pending [OF now.prems(1) _ now.prems(2)] now.hyps(2) now.prems(3) have
    pend: "event_pending r p' [stamped e (snd p)]" by auto
  from isr_one_event [of "h\<lparr>event_ring := r, world := w\<rparr>" p' "stamped e (snd p)" hw] pend now.prems
  obtain h' where h': "xhci_isr hw (h\<lparr>event_ring := r, world := w\<rparr>) = Some h'" "evt_trb h' = stamped e (snd p)" "event_sync h'"
      "same_driver (h\<lparr>event_ring := r, world := w\<rparr>) h'" "event_pending (event_ring h') p' []" by auto
  have "wait_loop hw h = wait_loop hw h'"
    using now.hyps(1) now.prems(6) h'(1) by (subst wait_loop.simps) (simp add: preempt_def)
  also have "\<dots> = Some h'" using h'(3) by (subst wait_loop.simps) simp
  finally show ?case using h' by (auto simp: same_driver_def)
next
  case (later h w h1 p')
  have "wait_loop hw h = wait_loop hw (h\<lparr>world := w\<rparr>)"
    using later.hyps(1) later.prems(6) by (subst wait_loop.simps) (simp add: preempt_def)
  with later.IH later.prems show ?case by (auto simp: same_driver_def)
qed

text \<open>A controller that stays silent leaves the driver waiting for ever.\<close>

lemma wait_loop_silent:
  assumes "wait_loop hw h = Some h'"
  shows "(\<forall>h. Q h \<longrightarrow> (\<exists>w. idle hw h = (False, h\<lparr>world := w\<rparr>) \<and> Q (h\<lparr>world := w\<rparr>))) \<longrightarrow> \<not> event_sync h \<longrightarrow> \<not> Q h"
  using assms
proof (induction rule: wait_loop.raw_induct [rotated, consumes 1, case_names step])
  case (step f hw h h')
  show ?case
  proof (intro impI notI)
    assume q: "\<forall>h. Q h \<longrightarrow> (\<exists>w. idle hw h = (False, h\<lparr>world := w\<rparr>) \<and> Q (h\<lparr>world := w\<rparr>))" "\<not> event_sync h" "Q h"
    then obtain w where w: "idle hw h = (False, h\<lparr>world := w\<rparr>)" "Q (h\<lparr>world := w\<rparr>)" by blast
    with step(2) q(2) have "f hw (h\<lparr>world := w\<rparr>) = Some h'" by (simp add: preempt_def)
    with step(1) q w(2) show False by fastforce
  qed
qed

end
