(* ===== verification/Xhci_Device.thy ===== *)
theory Xhci_Device
  imports Xhci_Events
begin

text \<open>
  Commands, device slots, contexts and transfers of \<open>samples/dwc3_host/src/xhci.c\<close>. A slot or an
  endpoint number outside its table, a context word outside its context and a block written to a ring
  that was never set up are \<open>None\<close>.
\<close>

section \<open>Commands without a context\<close>

definition command_result :: "xhci_trb \<Rightarrow> int" where
  "command_result t = (if GET_COMP_CODE (status t) = COMP_SUCCESS then 0 else - 1)"

definition xhci_cmd_disable_slot :: "'w xhci_hw \<Rightarrow> int \<Rightarrow> 'w xhci_hcd \<Rightarrow> (int \<times> 'w xhci_hcd) option" where
  "xhci_cmd_disable_slot hw sl h = do {
     (t, h) \<leftarrow> xhci_command_submit hw \<lparr>paramater = 0, status = 0,
       control = TRB_TYPE TRB_DISABLE_SLOT OR SLOT_ID_FOR_TRB (word_of_int sl) OR cycle_bit (cmd_ring h)\<rparr> h;
     Some (command_result t, h)
   }"

definition xhci_cmd_enable_slot :: "'w xhci_hw \<Rightarrow> 'w xhci_hcd \<Rightarrow> (int \<times> 'w xhci_hcd) option" where
  "xhci_cmd_enable_slot hw h = do {
     (t, h) \<leftarrow> xhci_command_submit hw \<lparr>paramater = 0, status = 0,
       control = TRB_TYPE TRB_ENABLE_SLOT OR cycle_bit (cmd_ring h)\<rparr> h;
     Some (if GET_COMP_CODE (status t) = COMP_SUCCESS then uint (TRB_TO_SLOT_ID (control t)) else - 1, h)
   }"

definition xhci_cmd_noop :: "'w xhci_hw \<Rightarrow> 'w xhci_hcd \<Rightarrow> (int \<times> 'w xhci_hcd) option" where
  "xhci_cmd_noop hw h = do {
     (t, h) \<leftarrow> xhci_command_submit hw \<lparr>paramater = 0, status = 0,
       control = TRB_TYPE TRB_CMD_NOOP OR cycle_bit (cmd_ring h)\<rparr> h;
     Some (command_result t, h)
   }"

text \<open>The type of this command is written to the status word.\<close>

definition reset_device_trb :: "int \<Rightarrow> u32 \<Rightarrow> xhci_trb" where
  "reset_device_trb sl c = \<lparr>paramater = 0,
     status = TRB_TYPE TRB_RESET_DEV OR SLOT_ID_FOR_TRB (word_of_int sl) OR c, control = 0\<rparr>"

definition xhci_cmd_reset_device :: "'w xhci_hw \<Rightarrow> int \<Rightarrow> 'w xhci_hcd \<Rightarrow> (int \<times> 'w xhci_hcd) option" where
  "xhci_cmd_reset_device hw sl h = do {
     (t, h) \<leftarrow> xhci_command_submit hw (reset_device_trb sl (cycle_bit (cmd_ring h))) h;
     Some (0, h)
   }"

definition xhci_free_device :: "int \<Rightarrow> 'w xhci_hcd \<Rightarrow> int \<times> 'w xhci_hcd" where
  "xhci_free_device sl h = (0, h)"

definition xhci_cmd_drop_endpoint :: "int \<Rightarrow> u8 \<Rightarrow> 'w xhci_hcd \<Rightarrow> int \<times> 'w xhci_hcd" where
  "xhci_cmd_drop_endpoint sl e h = (0, h)"

section \<open>Devices and contexts\<close>

definition get_device :: "'w xhci_hcd \<Rightarrow> int \<Rightarrow> xhci_device option" where
  "get_device h sl = (if 0 \<le> sl then load (device h) (nat sl) else None)"

definition put_device :: "int \<Rightarrow> xhci_device \<Rightarrow> 'w xhci_hcd \<Rightarrow> 'w xhci_hcd" where
  "put_device sl d h = h\<lparr>device := (device h)[nat sl := d]\<rparr>"

text \<open>Word offsets of the contexts inside a context array.\<close>

definition xhci_get_slot_ctx :: "'w xhci_hcd \<Rightarrow> xhci_ctx \<Rightarrow> nat" where
  "xhci_get_slot_ctx h c =
     (if ctx_type c = XHCI_CTX_TYPE_DEVICE then 0 else CTX_SIZE (hccparams1 (cap_reg h)) div 4)"

definition xhci_get_ep_ctx :: "'w xhci_hcd \<Rightarrow> xhci_ctx \<Rightarrow> nat \<Rightarrow> nat" where
  "xhci_get_ep_ctx h c ep_index =
     (let i = ep_index + 1; i = (if ctx_type c = XHCI_CTX_TYPE_INPUT then i + 1 else i) in
      i * (CTX_SIZE (hccparams1 (cap_reg h)) div 4))"

definition set_words :: "nat \<Rightarrow> u32 list \<Rightarrow> u32 list \<Rightarrow> u32 list option" where
  "set_words off vs ws = (if off + length vs \<le> length ws then Some (blit ws off vs) else None)"

definition clear_words :: "nat \<Rightarrow> u32 list \<Rightarrow> u32 list option" where
  "clear_words n = set_words 0 (replicate n 0)"

definition flush_words :: "nat \<Rightarrow> u32 list \<Rightarrow> u32 list \<Rightarrow> u32 list" where
  "flush_words n ws m = take n ws @ drop n m"

definition deq_words :: "u64 \<Rightarrow> u32 list" where
  "deq_words a = [ucast a, ucast (drop_bit 32 a)]"

definition mem_alloc :: "'w xhci_hw \<Rightarrow> nat \<Rightarrow> nat \<Rightarrow> 'w xhci_hcd \<Rightarrow> (u64 \<times> u32 list) option \<times> 'w xhci_hcd" where
  "mem_alloc hw al n h = (let (p, w) = xhci_mem_alloc hw al n (world h) in (p, h\<lparr>world := w\<rparr>))"

definition mem_free :: "'w xhci_hw \<Rightarrow> (u64 \<times> u32 list) option \<Rightarrow> 'w xhci_hcd \<Rightarrow> 'w xhci_hcd" where
  "mem_free hw p h = (case p of None \<Rightarrow> h | Some (a, _) \<Rightarrow> h\<lparr>world := xhci_mem_free hw a (world h)\<rparr>)"

definition new_ctx :: "nat \<Rightarrow> nat \<Rightarrow> u64 \<times> u32 list \<Rightarrow> xhci_ctx option" where
  "new_ctx ty sz = (\<lambda>(a, ws). do {
     cs \<leftarrow> clear_words (sz div 4) ws;
     Some \<lparr>ctx_type = ty, ctx_size = sz, ctx = cs, ctx_mem = ws, ctx_addr = a\<rparr>
   })"

definition attach_device :: "int \<Rightarrow> u64 \<times> u32 list \<Rightarrow> u64 \<times> u32 list \<Rightarrow> u64 \<times> u32 list \<Rightarrow> 'w xhci_hcd \<Rightarrow> 'w xhci_hcd option" where
  "attach_device sl out inp ep0_trb h = do {
     let big = HCC_64BYTE_CONTEXT (hccparams1 (cap_reg h));
     d \<leftarrow> get_device h sl;
     tab \<leftarrow> store (dev_ctx_tab h) (nat sl) (fst out);
     dc \<leftarrow> new_ctx XHCI_CTX_TYPE_DEVICE (if big then 2048 else 1024) out;
     ic \<leftarrow> new_ctx XHCI_CTX_TYPE_INPUT (if big then 2112 else 1056) inp;
     ring \<leftarrow> xhci_ring_init (fst ep0_trb) (trbs_of_words (snd ep0_trb)) XHCI_RING_TRB_MAX_NUM CTRL_RING;
     ep0 \<leftarrow> load (ep d) 0;
     let eps = (ep d)[0 := ep0\<lparr>ep_ring := ring\<rparr>];
     Some (put_device sl (d\<lparr>device_ctx := dc, input_ctx := ic,
       ep := map (\<lambda>e. e\<lparr>ep_state := DISABLE_STATE\<rparr>) eps, slot := word_of_int sl\<rparr>) (h\<lparr>dev_ctx_tab := tab\<rparr>))
   }"

definition xhci_alloc_device :: "'w xhci_hw \<Rightarrow> 'w xhci_hcd \<Rightarrow> (int \<times> 'w xhci_hcd) option" where
  "xhci_alloc_device hw h = do {
     (sl, h) \<leftarrow> xhci_cmd_enable_slot hw h;
     let (out_ctx, h) = mem_alloc hw 64 2048 h;
     let (in_ctx, h) = mem_alloc hw 64 2112 h;
     let (ep0_trb, h) = mem_alloc hw 64 512 h;
     (case (out_ctx, in_ctx, ep0_trb) of
       (Some out, Some inp, Some ep0) \<Rightarrow> do { h \<leftarrow> attach_device sl out inp ep0 h; Some (sl, h) }
     | _ \<Rightarrow> Some (- 1, mem_free hw ep0_trb (mem_free hw in_ctx (mem_free hw out_ctx h))))
   }"

definition xhci_set_dev_speed :: "int \<Rightarrow> xhci_usb_speed \<Rightarrow> 'w xhci_hcd \<Rightarrow> 'w xhci_hcd option" where
  "xhci_set_dev_speed sl sp h = do {
     d \<leftarrow> get_device h sl;
     Some (put_device sl (d\<lparr>speed := sp\<rparr>) h)
   }"

text \<open>The packet size of endpoint 0; \<open>-1\<close> in a \<open>uint16_t\<close> for the other speeds.\<close>

definition ep0_max_packet :: "xhci_usb_speed \<Rightarrow> u16" where
  "ep0_max_packet sp = (case sp of USB_SPEED_LOW \<Rightarrow> 8 | USB_SPEED_FULL \<Rightarrow> 64 | USB_SPEED_HIGH \<Rightarrow> 64 | _ \<Rightarrow> - 1)"

definition xhci_cmd_address_device ::
    "'w xhci_hw \<Rightarrow> int \<Rightarrow> xhci_addr_dev_type \<Rightarrow> 'w xhci_hcd \<Rightarrow> (int \<times> 'w xhci_hcd) option" where
  "xhci_cmd_address_device hw sl ty h = do {
     d \<leftarrow> get_device h sl;
     let c = input_ctx d;
     let so = xhci_get_slot_ctx h c;
     let eo = xhci_get_ep_ctx h c 0;
     ep0 \<leftarrow> load (ep d) 0;
     let ring = ep_ring ep0;
     ws \<leftarrow> set_words 0 [0, SLOT_FLAG OR EP0_FLAG] (ctx c);
     ws \<leftarrow> set_words so [SLOT_CTX_ENTRIES 1 OR SLOT_CTX_ROOT_STR 0 OR SLOT_CTX_SPEED (speed_value (speed d)),
       SLOT_CTX_ROOTHUB_PORT_NUM 1] ws;
     ws \<leftarrow> (if ty = DEFAULT_TYPE then
         set_words eo ([0, EP_CTX_TYPE (ep_type_value EP_CONTROL_BIDIR) OR
           EP_CTX_MAX_PACKET (ucast (ep0_max_packet (speed d))) OR EP_CTX_ERR_CNT 3] @
           deq_words (base ring OR ucast (cycle_bit ring))) ws
       else set_words (eo + 2) (deq_words (trb_addr ring (write_index ring) OR ucast (cycle_bit ring))) ws);
     let c = c\<lparr>ctx := ws, ctx_mem := flush_words (ctx_size c div 4) ws (ctx_mem c)\<rparr>;
     let h = put_device sl (d\<lparr>input_ctx := c\<rparr>) h;
     (t, h) \<leftarrow> xhci_command_submit hw \<lparr>paramater = ctx_addr c, status = 0,
       control = SLOT_ID_FOR_TRB (word_of_int sl) OR TRB_TYPE TRB_ADDR_DEV OR
         (if ty = DEFAULT_TYPE then TRB_BSR else 0) OR cycle_bit (cmd_ring h)\<rparr> h;
     Some (command_result t, h)
   }"

section \<open>Endpoints\<close>

definition xhci_ep_2_index :: "u8 \<Rightarrow> xhci_ep_type \<Rightarrow> u8" where
  "xhci_ep_2_index e ty =
     (if ty = EP_CONTROL_BIDIR then (e AND 0xf) * 2
      else (e AND 0xf) * 2 - (if e AND 0x80 \<noteq> 0 then 0 else 1))"

definition get_ep_ring :: "'w xhci_hcd \<Rightarrow> int \<Rightarrow> u8 \<Rightarrow> xhci_ring option" where
  "get_ep_ring h sl i = do {
     d \<leftarrow> get_device h sl;
     e \<leftarrow> load (ep d) (unat i);
     Some (ep_ring e)
   }"

definition put_ep_ring :: "int \<Rightarrow> u8 \<Rightarrow> xhci_ring \<Rightarrow> 'w xhci_hcd \<Rightarrow> 'w xhci_hcd option" where
  "put_ep_ring sl i r h = do {
     d \<leftarrow> get_device h sl;
     e \<leftarrow> load (ep d) (unat i);
     Some (put_device sl (d\<lparr>ep := (ep d)[unat i := e\<lparr>ep_ring := r\<rparr>]\<rparr>) h)
   }"

text \<open>Build a block with the ring's current cycle bit and enqueue it.\<close>

definition ep_enqueue :: "int \<Rightarrow> u8 \<Rightarrow> (u32 \<Rightarrow> xhci_trb) \<Rightarrow> 'w xhci_hcd \<Rightarrow> 'w xhci_hcd option" where
  "ep_enqueue sl i t h = do {
     r \<leftarrow> get_ep_ring h sl i;
     r \<leftarrow> xhci_enqueue_trb r (t (cycle_bit r));
     put_ep_ring sl i r h
   }"

definition xhci_set_deq_endpoint :: "'w xhci_hw \<Rightarrow> int \<Rightarrow> u8 \<Rightarrow> 'w xhci_hcd \<Rightarrow> (int \<times> 'w xhci_hcd) option" where
  "xhci_set_deq_endpoint hw sl i h = do {
     r \<leftarrow> get_ep_ring h sl i;
     (t, h) \<leftarrow> xhci_command_submit hw \<lparr>paramater = trb_addr r (write_index r) OR ucast (cycle_bit r), status = 0,
       control = TRB_TYPE TRB_SET_DEQ OR SLOT_ID_FOR_TRB (word_of_int sl) OR EP_ID_FOR_TRB (ucast i) OR
         cycle_bit (cmd_ring h)\<rparr> h;
     Some (command_result t, h)
   }"

definition xhci_reset_stall_endpoint :: "'w xhci_hw \<Rightarrow> int \<Rightarrow> u8 \<Rightarrow> 'w xhci_hcd \<Rightarrow> (int \<times> 'w xhci_hcd) option" where
  "xhci_reset_stall_endpoint hw sl i h = do {
     (t, h) \<leftarrow> xhci_command_submit hw \<lparr>paramater = 0, status = 0,
       control = TRB_TYPE TRB_RESET_EP OR SLOT_ID_FOR_TRB (word_of_int sl) OR EP_ID_FOR_TRB (ucast i) OR
         cycle_bit (cmd_ring h)\<rparr> h;
     Some (command_result t, h)
   }"

section \<open>Transfers\<close>

definition generic_trb :: "u32 \<Rightarrow> u32 \<Rightarrow> u32 \<Rightarrow> u32 \<Rightarrow> xhci_trb" where
  "generic_trb a b c d = \<lparr>paramater = ucast a OR push_bit 32 (ucast b), status = c, control = d\<rparr>"

definition setup_trb :: "usb_setup_packet \<Rightarrow> bool \<Rightarrow> u32 \<Rightarrow> xhci_trb" where
  "setup_trb req has_data c = generic_trb
     (ucast (bmRequestType req) OR push_bit 8 (ucast (bRequest req)) OR push_bit 16 (ucast (wValue req)))
     (ucast (wIndex req) OR push_bit 16 (ucast (wLength req)))
     8
     ((TRB_TYPE TRB_SETUP OR TRB_IDT OR c) OR
      (if has_data then (if bmRequestType req AND 0x80 \<noteq> 0 then TRB_TRT TRB_DATA_IN else TRB_TRT TRB_DATA_OUT) else 0))"

definition data_trb :: "usb_setup_packet \<Rightarrow> u32 \<Rightarrow> u32 \<Rightarrow> u32 \<Rightarrow> xhci_trb" where
  "data_trb req buf len c = generic_trb buf 0 len
     ((TRB_TYPE TRB_DATA OR c) OR (if bmRequestType req AND 0x80 \<noteq> 0 then TRB_ISP OR TRB_DIR_IN else 0))"

definition status_trb :: "usb_setup_packet \<Rightarrow> bool \<Rightarrow> u32 \<Rightarrow> xhci_trb" where
  "status_trb req has_data c = generic_trb 0 0 0
     ((TRB_TYPE TRB_STATUS OR c OR TRB_IOC) OR
      (if \<not> has_data \<or> bmRequestType req AND 0x80 = 0 then TRB_DIR_IN else 0))"

definition control_td :: "int \<Rightarrow> u8 \<Rightarrow> usb_setup_packet \<Rightarrow> u32 \<Rightarrow> u32 \<Rightarrow> 'w xhci_hcd \<Rightarrow> 'w xhci_hcd option" where
  "control_td sl i req buf len h = do {
     let has_data = (buf \<noteq> 0 \<and> len \<noteq> 0);
     h \<leftarrow> ep_enqueue sl i (setup_trb req has_data) h;
     h \<leftarrow> (if has_data then ep_enqueue sl i (data_trb req buf len) h else Some h);
     ep_enqueue sl i (status_trb req has_data) h
   }"

definition ep_submit :: "'w xhci_hw \<Rightarrow> int \<Rightarrow> u8 \<Rightarrow> 'w xhci_hcd \<Rightarrow> (xhci_trb \<times> 'w xhci_hcd) option" where
  "ep_submit hw sl i h = do {
     h \<leftarrow> preempt hw (xhci_ring_ep_doorbell hw (word_of_int sl) (ucast i + 1) 0 h);
     h \<leftarrow> xhci_event_wait hw h;
     Some (evt_trb h, h)
   }"

definition xhci_xfer_control ::
    "'w xhci_hw \<Rightarrow> int \<Rightarrow> u8 \<Rightarrow> usb_setup_packet \<Rightarrow> u32 \<Rightarrow> u32 \<Rightarrow> 'w xhci_hcd \<Rightarrow> (int \<times> 'w xhci_hcd) option" where
  "xhci_xfer_control hw sl e req buf len h = do {
     let i = xhci_ep_2_index e EP_CONTROL_BIDIR;
     h \<leftarrow> control_td sl i req buf len h;
     (t, h) \<leftarrow> ep_submit hw sl i h;
     let code = GET_COMP_CODE (status t);
     if code = COMP_SHORT_PACKET then Some (uint (status t AND 0xffffff), h)
     else if code = COMP_SUCCESS then Some (0, h)
     else if code = COMP_STALL_ERROR then do {
       (_, h) \<leftarrow> xhci_reset_stall_endpoint hw sl i h;
       (_, h) \<leftarrow> xhci_set_deq_endpoint hw sl i h;
       Some (- 1, h)
     } else Some (- 1, h)
   }"

definition xhci_xfer_noop :: "'w xhci_hw \<Rightarrow> int \<Rightarrow> u8 \<Rightarrow> xhci_ep_type \<Rightarrow> 'w xhci_hcd \<Rightarrow> (int \<times> 'w xhci_hcd) option" where
  "xhci_xfer_noop hw sl e ty h = do {
     let i = xhci_ep_2_index e ty;
     h \<leftarrow> ep_enqueue sl i (\<lambda>c. \<lparr>paramater = 0, status = 0, control = TRB_TYPE TRB_TR_NOOP OR push_bit 5 1 OR c\<rparr>) h;
     (t, h) \<leftarrow> ep_submit hw sl i h;
     Some (command_result t, h)
   }"

definition bulk_trb :: "u8 \<Rightarrow> u32 \<Rightarrow> u32 \<Rightarrow> u32 \<Rightarrow> xhci_trb" where
  "bulk_trb e buf len c = generic_trb buf 0 len
     ((TRB_IOC OR TRB_TYPE TRB_NORMAL OR c) OR (if e AND 0x80 \<noteq> 0 then TRB_ISP else 0))"

definition xhci_xfer_bulk :: "'w xhci_hw \<Rightarrow> int \<Rightarrow> u8 \<Rightarrow> u32 \<Rightarrow> u32 \<Rightarrow> 'w xhci_hcd \<Rightarrow> (int \<times> 'w xhci_hcd) option" where
  "xhci_xfer_bulk hw sl e buf len h = do {
     let i = xhci_ep_2_index e EP_BULK_IN;
     h \<leftarrow> ep_enqueue sl i (bulk_trb e buf len) h;
     (t, h) \<leftarrow> ep_submit hw sl i h;
     let code = GET_COMP_CODE (status t);
     Some (if code = COMP_SHORT_PACKET then uint (status t AND 0xffffff)
           else if code = COMP_SUCCESS then 0 else - 1, h)
   }"

definition xhci_xfer_interrupt :: "'w xhci_hw \<Rightarrow> int \<Rightarrow> u8 \<Rightarrow> u32 \<Rightarrow> u32 \<Rightarrow> 'w xhci_hcd \<Rightarrow> (int \<times> 'w xhci_hcd) option" where
  "xhci_xfer_interrupt hw sl e buf len h = xhci_xfer_bulk hw sl e buf len h"

section \<open>Configuring an endpoint\<close>

definition xhci_slot_ctx_copy :: "int \<Rightarrow> 'w xhci_hcd \<Rightarrow> 'w xhci_hcd option" where
  "xhci_slot_ctx_copy sl h = do {
     d \<leftarrow> get_device h sl;
     let ic = input_ctx d;
     ws \<leftarrow> memcpy (ctx ic) (xhci_get_slot_ctx h ic) (ctx (device_ctx d)) (xhci_get_slot_ctx h (device_ctx d)) 4;
     Some (put_device sl (d\<lparr>input_ctx := ic\<lparr>ctx := ws\<rparr>\<rparr>) h)
   }"

definition xhci_cmd_add_endpoint ::
    "'w xhci_hw \<Rightarrow> int \<Rightarrow> xhci_ep_config \<Rightarrow> 'w xhci_hcd \<Rightarrow> (int \<times> 'w xhci_hcd) option" where
  "xhci_cmd_add_endpoint hw sl cfg h = do {
     let i = xhci_ep_2_index (ep_addr cfg) (ep_type cfg);
     let (ep_trb, h) = mem_alloc hw 64 512 h;
     d \<leftarrow> get_device h sl;
     e \<leftarrow> load (ep d) (unat i);
     if ep_state e = RUNING_STATE then Some (- 2, h)
     else do {
       ws \<leftarrow> set_words 0 [0, SLOT_FLAG] (ctx (input_ctx d));
       h \<leftarrow> xhci_slot_ctx_copy sl (put_device sl (d\<lparr>input_ctx := (input_ctx d)\<lparr>ctx := ws\<rparr>\<rparr>) h);
       d \<leftarrow> get_device h sl;
       let c = input_ctx d;
       let so = xhci_get_slot_ctx h c;
       info \<leftarrow> load (ctx c) so;
       ws \<leftarrow> set_words so [(info AND NOT (SLOT_CTX_ENTRIES 0x1f)) OR SLOT_CTX_ENTRIES (ucast i + 1)] (ctx c);
       ws \<leftarrow> set_words 1 [SLOT_FLAG OR push_bit (unat i + 1) 1] ws;
       let eo = xhci_get_ep_ctx h c (unat i);
       (ea, ew) \<leftarrow> ep_trb;
       ring \<leftarrow> xhci_ring_init ea (trbs_of_words ew) XHCI_RING_TRB_MAX_NUM CTRL_RING;
       ws \<leftarrow> set_words eo ([push_bit 16 (ucast (ep_interval cfg)),
         EP_CTX_MAX_PACKET (ucast (ep_mps cfg)) OR EP_CTX_TYPE (ep_type_value (ep_type cfg)) OR EP_CTX_ERR_CNT 3] @
         deq_words (base ring OR ucast (cycle_bit ring)) @ [0]) ws;
       let c = c\<lparr>ctx := ws, ctx_mem := flush_words (ctx_size c div 4) ws (ctx_mem c)\<rparr>;
       let h = put_device sl (d\<lparr>input_ctx := c, ep := (ep d)[unat i := e\<lparr>ep_ring := ring\<rparr>]\<rparr>) h;
       (t, h) \<leftarrow> xhci_command_submit hw \<lparr>paramater = ctx_addr c, status = 0,
         control = SLOT_ID_FOR_TRB (word_of_int sl) OR TRB_TYPE TRB_CONFIG_EP OR cycle_bit (cmd_ring h)\<rparr> h;
       if GET_COMP_CODE (status t) = COMP_SUCCESS then do {
         d \<leftarrow> get_device h sl;
         e \<leftarrow> load (ep d) (unat i);
         Some (0, put_device sl (d\<lparr>ep := (ep d)[unat i := e\<lparr>ep_state := RUNING_STATE\<rparr>]\<rparr>) h)
       } else Some (- 1, h)
     }
   }"

text \<open>The words printed of the output contexts; only the slot context and endpoint 0 are read afresh.\<close>

definition show_words :: "nat \<Rightarrow> u32 list \<Rightarrow> u32 list option" where
  "show_words off ws = (if off + 5 \<le> length ws then Some [ws ! off, ws ! (off + 1), ws ! (off + 2), ws ! (off + 4)] else None)"

definition xhci_device_ctx_show :: "int \<Rightarrow> 'w xhci_hcd \<Rightarrow> (u32 list list \<times> 'w xhci_hcd) option" where
  "xhci_device_ctx_show sl h = do {
     d \<leftarrow> get_device h sl;
     let c = device_ctx d;
     let so = xhci_get_slot_ctx h c;
     let eo = xhci_get_ep_ctx h c 0;
     ws \<leftarrow> memcpy (ctx c) so (ctx_mem c) so 8;
     ws \<leftarrow> memcpy ws eo (ctx_mem c) eo 8;
     s \<leftarrow> (if so + 4 \<le> length ws then Some (take 4 (drop so ws)) else None);
     e0 \<leftarrow> show_words eo ws;
     es \<leftarrow> those (map (\<lambda>k. show_words (xhci_get_ep_ctx h c (k + 1)) ws) [0..<30]);
     Some (s # e0 # es, put_device sl (d\<lparr>device_ctx := c\<lparr>ctx := ws\<rparr>\<rparr>) h)
   }"

end
