(* ===== verification/Xhci_Init.thy ===== *)
theory Xhci_Init
  imports Xhci_Device
begin

text \<open>
  Start-up of the controller in \<open>samples/dwc3_host/src/xhci.c\<close> (\<open>xhci_init\<close>, \<open>xhci_reset\<close>,
  \<open>xhci_run\<close>) and the shell commands of \<open>samples/dwc3_host/src/main.c\<close>. A shell command returns what
  it prints; the static buffers are given by their addresses.
\<close>

section \<open>Reset and run\<close>

definition xhci_run :: "'w xhci_hw \<Rightarrow> 'w xhci_hcd \<Rightarrow> (int \<times> 'w xhci_hcd) option" where
  "xhci_run hw h = do {
     let (v, h) = rd32 hw R_command h;
     let h = wr32 hw R_command (v OR CMD_EIE) h;
     let h = wr32 hw R_iman (push_bit 1 1) h;
     let h = wr32 hw R_imod 500 h;
     let (v, h) = rd32 hw R_command h;
     let h = wr32 hw R_command (v OR CMD_RUN) h;
     h \<leftarrow> poll hw R_status (\<lambda>v. v AND STS_HALT = 0) h;
     Some (0, h)
   }"

definition xhci_reset :: "'w xhci_hw \<Rightarrow> 'w xhci_hcd \<Rightarrow> (int \<times> 'w xhci_hcd) option" where
  "xhci_reset hw h = do {
     let (v, h) = rd32 hw R_status h;
     h \<leftarrow> (if v AND STS_HALT = 0 then do {
         let (v, h) = rd32 hw R_command h;
         let h = wr32 hw R_command (v AND NOT CMD_RUN) h;
         poll hw R_status (\<lambda>v. v AND STS_HALT \<noteq> 0) h
       } else Some h);
     let (v, h) = rd32 hw R_command h;
     let h = wr32 hw R_command (v OR CMD_RESET) h;
     h \<leftarrow> poll hw R_command (\<lambda>v. v AND CMD_RESET = 0) h;
     h \<leftarrow> poll hw R_status (\<lambda>v. v AND STS_CNR = 0) h;
     Some (0, h)
   }"

text \<open>The walk over the extended capabilities; the result lists what is logged.\<close>

partial_function (option) ext_cap_loop ::
    "'w xhci_hw \<Rightarrow> u32 \<Rightarrow> 'w xhci_hcd \<Rightarrow> ((u32 \<times> u32 \<times> u32 \<times> u32) list \<times> 'w xhci_hcd) option" where
  "ext_cap_loop hw addr h =
     (let (cap, h) = rd32 hw (R_mmio addr) h;
          (out, h) = (if cap AND 0xff = 2 then
              let (name_str, h) = rd32 hw (R_mmio (addr + 4)) h; (port_info, h) = rd32 hw (R_mmio (addr + 8)) h in
              ([(drop_bit 24 cap AND 0xff, drop_bit 16 cap AND 0xff, name_str, port_info)], h)
            else ([], h));
          next_point = drop_bit 8 cap AND 0xff
      in if next_point = 0 then Some (out, h)
         else do {
           (r, h) \<leftarrow> ext_cap_loop hw (addr + push_bit 2 next_point) h;
           Some (out @ r, h)
         })"

declare ext_cap_loop.simps [code]

definition xhci_ext_cap_dump ::
    "'w xhci_hw \<Rightarrow> 'w xhci_hcd \<Rightarrow> ((u32 \<times> u32 \<times> u32 \<times> u32) list \<times> 'w xhci_hcd) option" where
  "xhci_ext_cap_dump hw h =
     ext_cap_loop hw (push_bit 2 (drop_bit 16 (hccparams1 (cap_reg h)) AND 0xffff) + base_addr h) h"

section \<open>Initialisation\<close>

definition xhci_command_ring_init :: "'w xhci_hw \<Rightarrow> u64 \<times> u32 list \<Rightarrow> 'w xhci_hcd \<Rightarrow> 'w xhci_hcd option" where
  "xhci_command_ring_init hw = (\<lambda>(a, ws) h. do {
     ring \<leftarrow> xhci_ring_init a (trbs_of_words ws) XHCI_RING_TRB_MAX_NUM COMMAND_RING;
     Some (wr hw R_cmd_ring (base ring OR ucast (cycle_bit ring)) (h\<lparr>cmd_ring := ring\<rparr>))
   })"

definition xhci_event_ring_init :: "'w xhci_hw \<Rightarrow> u64 \<times> u32 list \<Rightarrow> 'w xhci_hcd \<Rightarrow> 'w xhci_hcd option" where
  "xhci_event_ring_init hw = (\<lambda>(a, ws) h. do {
     ring \<leftarrow> xhci_ring_init a (trbs_of_words ws) XHCI_RING_TRB_MAX_NUM EVENT_RING;
     let h = h\<lparr>event_ring := ring, erst_entry := (base ring, num_trb ring)\<rparr>;
     let h = wr hw R_erstba (erst_addr h) h;
     let h = wr32 hw R_erstsz 1 h;
     Some (wr hw R_erdp (base ring) h)
   })"

fun u64s_of_words :: "u32 list \<Rightarrow> u64 list" where
  "u64s_of_words (a # b # r) = (ucast a OR push_bit 32 (ucast b)) # u64s_of_words r"
| "u64s_of_words _ = []"

text \<open>The byte at an offset of an array of little-endian words.\<close>

definition byte_at :: "u32 list \<Rightarrow> nat \<Rightarrow> u8 option" where
  "byte_at ws k = map_option (\<lambda>w. ucast (drop_bit (8 * (k mod 4)) w)) (load ws (k div 4))"

text \<open>The table gets the byte at the start of each page of the buffer.\<close>

primrec fill_scratchpad :: "u32 list \<Rightarrow> nat \<Rightarrow> nat \<Rightarrow> u64 list \<Rightarrow> u64 list option" where
  "fill_scratchpad buf page 0 tab = Some tab"
| "fill_scratchpad buf page (Suc i) tab = do {
     tab \<leftarrow> fill_scratchpad buf page i tab;
     b \<leftarrow> byte_at buf (i * page);
     store tab i (ucast b)
   }"

text \<open>What follows the allocations.\<close>

definition init_controller :: "'w xhci_hw \<Rightarrow> u32 \<Rightarrow> u64 \<times> u32 list \<Rightarrow> u64 \<times> u32 list \<Rightarrow> u64 \<times> u32 list \<Rightarrow>
    u64 \<times> u32 list \<Rightarrow> u64 \<times> u32 list \<Rightarrow> 'w xhci_hcd \<Rightarrow> 'w xhci_hcd option" where
  "init_controller hw n tab pad buf ctrb etrb h = do {
     (_, h) \<leftarrow> xhci_reset hw h;
     (_, h) \<leftarrow> xhci_ext_cap_dump hw h;
     let h = wr32 hw R_config_reg (ucast (max_slots h)) h;
     dt \<leftarrow> store (u64s_of_words (snd tab)) 0 (fst pad);
     let h = wr hw R_dcbaa_ptr (fst tab) (h\<lparr>dev_ctx_tab := dt, dev_ctx_addr := fst tab\<rparr>);
     pt \<leftarrow> fill_scratchpad (snd buf) (unat (page_size h)) (unat n) (u64s_of_words (snd pad));
     h \<leftarrow> xhci_command_ring_init hw ctrb (h\<lparr>scratchpad_tab := pt, scratchpad_buf := snd buf\<rparr>);
     h \<leftarrow> xhci_event_ring_init hw etrb h;
     (_, h) \<leftarrow> xhci_run hw h;
     Some h
   }"

definition xhci_init :: "'w xhci_hw \<Rightarrow> u32 \<Rightarrow> 'w xhci_hcd \<Rightarrow> (int \<times> 'w xhci_hcd) option" where
  "xhci_init hw addr h = do {
     let cap = cap_reg h;
     let n = HCSPARAMS2_SCRATPAD_NUM (hcsparams2 cap);
     let (ps, h) = rd32 hw R_page_size (h\<lparr>base_addr := addr\<rparr>);
     page \<leftarrow> (if unat (ps + 11) < 32 then Some (ucast (push_bit (unat (ps + 11)) (1 :: u32))) else None);
     let h = h\<lparr>version := drop_bit 16 (caplength cap) AND 0xfffff, max_slots := ucast (hcsparams1 cap AND 0xff),
       max_port := ucast (drop_bit 24 (hcsparams1 cap)), page_size := page\<rparr>;
     let (tab, h) = mem_alloc hw 64 (8 * unat (max_slots h)) h;
     let (pad, h) = mem_alloc hw 64 (8 * unat n) h;
     let (buf, h) = mem_alloc hw (unat page) (unat (ucast page * n)) h;
     let (ctrb, h) = mem_alloc hw 64 512 h;
     let (etrb, h) = mem_alloc hw 64 512 h;
     (case (tab, pad, buf, ctrb, etrb) of
       (Some tab, Some pad, Some buf, Some ctrb, Some etrb) \<Rightarrow> do {
         h \<leftarrow> init_controller hw n tab pad buf ctrb etrb h;
         Some (0, h)
       }
     | _ \<Rightarrow> Some (- 1, mem_free hw etrb (mem_free hw ctrb (mem_free hw buf (mem_free hw pad (mem_free hw tab h))))))
   }"

section \<open>Shell commands\<close>

definition alloc_dev :: "'w xhci_hw \<Rightarrow> 'w xhci_hcd \<Rightarrow> (u8 \<times> 'w xhci_hcd) option" where
  "alloc_dev hw h = do {
     (r, h) \<leftarrow> xhci_alloc_device hw h;
     let slot_id = word_of_int r;
     let (sp, h) = xhci_get_port_speed hw 0 h;
     h \<leftarrow> xhci_set_dev_speed (uint slot_id) sp h;
     (_, h) \<leftarrow> xhci_cmd_address_device hw (uint slot_id) DEFAULT_TYPE h;
     Some (slot_id, h)
   }"

definition address_dev :: "'w xhci_hw \<Rightarrow> int \<Rightarrow> 'w xhci_hcd \<Rightarrow> (bool \<times> 'w xhci_hcd) option" where
  "address_dev hw sl h = do {
     (res, h) \<leftarrow> xhci_cmd_address_device hw sl ADDRESSED_TYPE h;
     Some (res = 0, h)
   }"

definition get_descriptor :: "u16 \<Rightarrow> u16 \<Rightarrow> u16 \<Rightarrow> usb_setup_packet" where
  "get_descriptor v ix len = \<lparr>bmRequestType = 0x80, bRequest = 6, wValue = v, wIndex = ix, wLength = len\<rparr>"

definition get_dev_desc :: "'w xhci_hw \<Rightarrow> u32 \<Rightarrow> int \<Rightarrow> 'w xhci_hcd \<Rightarrow> (u8 list option \<times> 'w xhci_hcd) option" where
  "get_dev_desc hw dev_desc sl h = do {
     (xfer_len, h) \<leftarrow> xhci_xfer_control hw sl 0 (get_descriptor 0x100 0 64) dev_desc 64 h;
     Some (if 0 \<le> xfer_len then Some (take (nat (64 - xfer_len)) (dma_buf hw dev_desc 64 (world h))) else None, h)
   }"

definition get_config_desc :: "'w xhci_hw \<Rightarrow> u32 \<Rightarrow> int \<Rightarrow> 'w xhci_hcd \<Rightarrow> (u8 list option \<times> 'w xhci_hcd) option" where
  "get_config_desc hw config_desc sl h = do {
     (xfer_len, h) \<leftarrow> xhci_xfer_control hw sl 0 (get_descriptor 0x200 0 255) config_desc 255 h;
     Some (if 0 \<le> xfer_len then Some (take (nat (255 - xfer_len)) (dma_buf hw config_desc 255 (world h))) else None, h)
   }"

text \<open>Keep the low bytes of the UTF-16 characters, in place.\<close>

fun string_copy :: "nat \<Rightarrow> nat \<Rightarrow> u8 list \<Rightarrow> u8 list option" where
  "string_copy i 0 buf = Some buf"
| "string_copy i (Suc n) buf = do {
     c \<leftarrow> load buf (2 + i * 2);
     buf \<leftarrow> store buf i c;
     string_copy (i + 1) n buf
   }"

definition usb_string_desc_inplace :: "u8 list \<Rightarrow> u32 \<Rightarrow> (u32 \<times> u8 list) option" where
  "usb_string_desc_inplace buf buf_len =
     (if buf_len < 2 then Some (0, buf)
      else do {
        ty \<leftarrow> load buf 1;
        if ty \<noteq> 3 then Some (0, buf)
        else do {
          let str_len = (buf_len - 2) div 2;
          buf \<leftarrow> string_copy 0 (unat str_len) buf;
          buf \<leftarrow> store buf (unat str_len) 0;
          Some (str_len, buf)
        }
      })"

text \<open>The string printed: the bytes before the first null byte, which must be there.\<close>

definition c_string :: "u8 list \<Rightarrow> u8 list option" where
  "c_string buf = (if 0 \<in> set buf then Some (takeWhile (\<lambda>b. b \<noteq> 0) buf) else None)"

definition get_string_desc ::
    "'w xhci_hw \<Rightarrow> u32 \<Rightarrow> int \<Rightarrow> int \<Rightarrow> 'w xhci_hcd \<Rightarrow> (u8 list option \<times> 'w xhci_hcd) option" where
  "get_string_desc hw string_desc sl ix h = do {
     (xfer_len, h) \<leftarrow> xhci_xfer_control hw sl 0 (get_descriptor (0x300 OR word_of_int ix) 0x409 255) string_desc 255 h;
     if 0 \<le> xfer_len then do {
       (_, buf) \<leftarrow> usb_string_desc_inplace (dma_buf hw string_desc 255 (world h)) (word_of_int (255 - xfer_len));
       str \<leftarrow> c_string buf;
       Some (Some str, h)
     } else Some (None, h)
   }"

definition bulk_in :: "'w xhci_hw \<Rightarrow> u32 \<Rightarrow> int \<Rightarrow> int \<Rightarrow> 'w xhci_hcd \<Rightarrow> (int \<times> u8 list option \<times> 'w xhci_hcd) option" where
  "bulk_in hw in_buf sl n h = do {
     let e = 0x80 OR word_of_int n;
     (_, h) \<leftarrow> xhci_cmd_add_endpoint hw sl \<lparr>ep_type = EP_BULK_IN, ep_addr = e, ep_interval = 3, ep_mps = 512\<rparr> h;
     (xfer_len, h) \<leftarrow> xhci_xfer_bulk hw sl e in_buf 128 h;
     Some (xfer_len, if 0 \<le> xfer_len then Some (take (nat (128 - xfer_len)) (dma_buf hw in_buf 128 (world h))) else None, h)
   }"

text \<open>The buffer, on the stack, holds the text.\<close>

definition bulk_out_text :: string where "bulk_out_text = ''xhci bulk out''"

definition bulk_out :: "'w xhci_hw \<Rightarrow> u32 \<Rightarrow> int \<Rightarrow> int \<Rightarrow> 'w xhci_hcd \<Rightarrow> (int \<times> 'w xhci_hcd) option" where
  "bulk_out hw out_buf sl n h = do {
     let e = word_of_int n;
     (_, h) \<leftarrow> xhci_cmd_add_endpoint hw sl \<lparr>ep_type = EP_BULK_OUT, ep_addr = e, ep_interval = 3, ep_mps = 512\<rparr> h;
     (_, h) \<leftarrow> xhci_xfer_bulk hw sl e out_buf (of_nat (length bulk_out_text)) h;
     Some (0, h)
   }"

definition int_in :: "'w xhci_hw \<Rightarrow> u32 \<Rightarrow> int \<Rightarrow> int \<Rightarrow> 'w xhci_hcd \<Rightarrow> (int \<times> u8 list option \<times> 'w xhci_hcd) option" where
  "int_in hw int_buf sl n h = do {
     let e = 0x80 OR word_of_int n;
     (_, h) \<leftarrow> xhci_cmd_add_endpoint hw sl \<lparr>ep_type = EP_INT_IN, ep_addr = e, ep_interval = 3, ep_mps = 64\<rparr> h;
     (xfer_len, h) \<leftarrow> xhci_xfer_interrupt hw sl e int_buf 64 h;
     Some (xfer_len, if 0 \<le> xfer_len then Some (take (nat (64 - xfer_len)) (dma_buf hw int_buf 64 (world h))) else None, h)
   }"

definition set_config :: "'w xhci_hw \<Rightarrow> int \<Rightarrow> 'w xhci_hcd \<Rightarrow> (bool \<times> 'w xhci_hcd) option" where
  "set_config hw sl h = do {
     (r, h) \<leftarrow> xhci_xfer_control hw sl 0 \<lparr>bmRequestType = 0, bRequest = 9, wValue = 1, wIndex = 0, wLength = 0\<rparr> 0 0 h;
     Some (r = 0, h)
   }"

definition hub_port_setfeat :: "'w xhci_hw \<Rightarrow> int \<Rightarrow> 'w xhci_hcd \<Rightarrow> (bool \<times> 'w xhci_hcd) option" where
  "hub_port_setfeat hw sl h = do {
     (r, h) \<leftarrow> xhci_xfer_control hw sl 0 \<lparr>bmRequestType = 0x23, bRequest = 3, wValue = 8, wIndex = 4, wLength = 0\<rparr> 0 0 h;
     Some (r = 0, h)
   }"

section \<open>Board start-up\<close>

definition rmw :: "'w xhci_hw \<Rightarrow> u32 \<Rightarrow> (u32 \<Rightarrow> u32) \<Rightarrow> 'w xhci_hcd \<Rightarrow> 'w xhci_hcd" where
  "rmw hw a f h = (let (v, h) = rd32 hw (R_mmio a) h in wr32 hw (R_mmio a) (f v) h)"

definition dwc3_phy_cfg_read :: "'w xhci_hw \<Rightarrow> u8 \<Rightarrow> 'w xhci_hcd \<Rightarrow> u8 \<times> 'w xhci_hcd" where
  "dwc3_phy_cfg_read hw reg_addr h =
     (let a = 0x40058010;
          h = rmw hw a (\<lambda>v. v OR push_bit 25 1) h;
          h = rmw hw a (\<lambda>v. v AND NOT (push_bit 2 0xff)) h;
          h = rmw hw a (\<lambda>v. v OR push_bit 2 (ucast reg_addr)) h;
          h = rmw hw a (\<lambda>v. v OR 1) h;
          h = rmw hw a (\<lambda>v. v AND NOT 1) h;
          (res, h) = rd32 hw (R_mmio a) h
      in (ucast (drop_bit 8 res AND 0xff), h))"

definition dwc3_phy_cfg_write :: "'w xhci_hw \<Rightarrow> u8 \<Rightarrow> u8 \<Rightarrow> 'w xhci_hcd \<Rightarrow> 'w xhci_hcd" where
  "dwc3_phy_cfg_write hw reg_addr write_data h =
     (let a = 0x40058010;
          h = rmw hw a (\<lambda>v. v OR push_bit 25 1) h;
          h = rmw hw a (\<lambda>v. v AND NOT (push_bit 2 0xff)) h;
          h = rmw hw a (\<lambda>v. v OR push_bit 2 (ucast reg_addr)) h;
          h = rmw hw a (\<lambda>v. v AND NOT (push_bit 16 0xff)) h;
          h = rmw hw a (\<lambda>v. v OR push_bit 16 (ucast write_data)) h;
          h = rmw hw a (\<lambda>v. v OR push_bit 1 1) h
      in rmw hw a (\<lambda>v. v AND NOT (push_bit 1 1)) h)"

text \<open>\<open>main\<close> up to its idle loop.\<close>

definition host_main :: "'w xhci_hw \<Rightarrow> 'w xhci_hcd \<Rightarrow> 'w xhci_hcd option" where
  "host_main hw h = do {
     let h = wr32 hw (R_mmio 0x40062010) (push_bit 0xd 1) h;
     let h = wr32 hw (R_mmio 0x40062018) (push_bit 0xd 1) h;
     let h = wr32 hw (R_mmio 0x40062018) (push_bit 0xc 1) h;
     let h = wr32 hw (R_mmio 0x40062010) (push_bit 0xc 1) h;
     let h = wr32 hw (R_mmio 0x40058014) 0x131 h;
     let h = rmw hw 0x40058004 (\<lambda>v. v OR push_bit 8 1) h;
     let h = rmw hw 0x40058000 (\<lambda>v. v OR push_bit 5 1) h;
     let h = wr32 hw (R_mmio 0x4005C200) 0x40002407 h;
     let h = rmw hw 0x4005C110 (\<lambda>gctl. (gctl AND NOT (push_bit 12 3)) OR push_bit 12 1) h;
     let (value, h) = dwc3_phy_cfg_read hw 0xb h;
     let h = dwc3_phy_cfg_write hw 0xb (value AND NOT (push_bit 6 1)) h;
     (_, h) \<leftarrow> xhci_init hw 0x40050000 h;
     Some h
   }"

end
