(* ===== verification/Xhci_Session.thy ===== *)
theory Xhci_Session
  imports Xhci_Init
begin

text \<open>
  The conversation between the driver of \<open>samples/dwc3_host/src\<close> and the controller: what a command
  or a transfer puts on its ring, what comes back, and when the driver waits for ever.
\<close>

section \<open>Commands\<close>

text \<open>Nothing is outstanding: the controller has read every command up to \<open>cp\<close>, the driver every
  event up to \<open>evp\<close>, and nobody waits.\<close>

definition session_idle :: "'w xhci_hcd \<Rightarrow> nat \<times> u32 \<Rightarrow> nat \<times> u32 \<Rightarrow> bool" where
  "session_idle h cp evp \<longleftrightarrow> ring_ready (cmd_ring h, cp) \<and> event_pending (event_ring h) evp [] \<and>
     2 \<le> unat (num_trb (event_ring h)) \<and> \<not> event_wait h \<and> \<not> event_sync h"

text \<open>The doorbell has been rung and no interrupt comes before the driver waits; then the controller
  posts \<open>e\<close>.\<close>

definition answered :: "'w xhci_hw \<Rightarrow> xhci_trb \<Rightarrow> nat \<times> u32 \<Rightarrow> 'w xhci_hcd \<Rightarrow> nat \<times> u32 \<Rightarrow> bool" where
  "answered hw e evp h evp' \<longleftrightarrow>
     (\<exists>w h'. idle hw h = (False, h\<lparr>world := w\<rparr>) \<and> posts hw e evp (h\<lparr>world := w, event_wait := True\<rparr>) h' evp')"

lemma wr_fields [simp]:
  "event_ring (wr hw r v h) = event_ring h" "cmd_ring (wr hw r v h) = cmd_ring h" "event_wait (wr hw r v h) = event_wait h"
  "event_sync (wr hw r v h) = event_sync h" "device (wr hw r v h) = device h" "dev_ctx_tab (wr hw r v h) = dev_ctx_tab h"
  "cap_reg (wr hw r v h) = cap_reg h"
  by (simp_all add: wr_def)

lemma wr32_fields [simp]:
  "event_ring (wr32 hw r v h) = event_ring h" "cmd_ring (wr32 hw r v h) = cmd_ring h" "event_wait (wr32 hw r v h) = event_wait h"
  "event_sync (wr32 hw r v h) = event_sync h" "device (wr32 hw r v h) = device h" "dev_ctx_tab (wr32 hw r v h) = dev_ctx_tab h"
  "cap_reg (wr32 hw r v h) = cap_reg h"
  by (simp_all add: wr32_def)

lemma answered_wait:
  assumes "answered hw e evp h evp'" "event_pending (event_ring h) evp []" "2 \<le> unat (num_trb (event_ring h))"
    "is_event e" "wakes (cmd_ring h) (stamped e (snd evp))" "\<not> event_sync h" "\<not> event_wait h"
  shows "\<exists>h'. do { h \<leftarrow> preempt hw h; h \<leftarrow> xhci_event_wait hw h; Some (evt_trb h, h) } = Some (stamped e (snd evp), h') \<and>
    same_driver h h' \<and> event_pending (event_ring h') evp' [] \<and> \<not> event_sync h'"
proof -
  from assms(1) obtain w h1 where w: "idle hw h = (False, h\<lparr>world := w\<rparr>)"
      "posts hw e evp (h\<lparr>world := w, event_wait := True\<rparr>) h1 evp'" by (auto simp: answered_def)
  from wait_returns [OF w(2)] assms(2-7) obtain h2 where
    h2: "wait_loop hw (h\<lparr>world := w, event_wait := True\<rparr>) = Some h2" "evt_trb h2 = stamped e (snd evp)"
      "same_driver (h\<lparr>world := w, event_wait := True\<rparr>) h2" "event_pending (event_ring h2) evp' []" by auto
  show ?thesis
    using w(1) h2 assms(7) by (simp add: preempt_def xhci_event_wait_def same_driver_def)
qed

lemma command_submit_completes:
  assumes idle: "session_idle h cp evp" and t: "is_request t"
    and r: "xhci_enqueue_trb (cmd_ring h) (stamped t (cycle_bit (cmd_ring h))) = Some r"
    and ans: "answered hw e evp (xhci_ring_cmd_doorbell hw (h\<lparr>cmd_ring := r\<rparr>)) evp'"
    and e: "is_event e" "wakes r (stamped e (snd evp))"
  shows "\<exists>h'. xhci_command_submit hw (stamped t (cycle_bit (cmd_ring h))) h = Some (stamped e (snd evp), h') \<and>
    cmd_ring h' = r \<and> ring_holds (r, cp) [t] \<and> event_pending (event_ring h') evp' [] \<and>
    \<not> event_wait h' \<and> \<not> event_sync h' \<and> device h' = device h"
proof -
  let ?h = "xhci_ring_cmd_doorbell hw (h\<lparr>cmd_ring := r\<rparr>)"
  have f: "event_pending (event_ring ?h) evp []" "2 \<le> unat (num_trb (event_ring ?h))" "wakes (cmd_ring ?h) (stamped e (snd evp))"
      "\<not> event_sync ?h" "\<not> event_wait ?h"
    using idle e by (simp_all add: session_idle_def xhci_ring_cmd_doorbell_def)
  from answered_wait [OF ans f(1,2) e(1) f(3,4,5)] obtain h' where
    h': "do { h \<leftarrow> preempt hw ?h; h \<leftarrow> xhci_event_wait hw h; Some (evt_trb h, h) } = Some (stamped e (snd evp), h')"
      "same_driver ?h h'" "event_pending (event_ring h') evp' []" "\<not> event_sync h'" by blast
  have "ring_holds (r, cp) [t]"
    using ring_ready_put [of "cmd_ring h" cp t] idle t r by (cases cp) (auto simp: session_idle_def ring_put_def)
  with h' f show ?thesis
    by (simp add: xhci_command_submit_def r same_driver_def xhci_ring_cmd_doorbell_def)
qed

section \<open>A command nobody answers\<close>

lemma cyc_zero_control [simp]: "control t = 0 \<Longrightarrow> cyc t = 0"
  by simp

text \<open>A block with a clear control word is invisible while the ring's cycle bit is set.\<close>

lemma invisible_block:
  assumes "ring_ready (r, p)" "cycle_bit r = 1" "control t = 0"
  shows "\<exists>r'. xhci_enqueue_trb r t = Some r' \<and> hc_next (mem r') p = None"
proof -
  obtain d cc where p: "p = (d, cc)" by (cases p)
  have n: "3 \<le> unat (num_trb r)" using assms(1) by (simp add: ring_ready_def)
  have stop: "hc_next m (k, 1) = None" if "m ! k = t" for m k
    using that assms(3) by (simp add: hc_next_def hc_at_def)
  consider (used) "ring_holds (r, d, cc) []"
    | (fresh) "d = 0" "cc = 1" "xhci_ring_init (base r) (mem r) (num_trb r) (rtype r) = Some r"
        "rtype r \<noteq> EVENT_RING" "length (mem r) = unat (num_trb r)"
    using assms(1) by (auto simp: ring_ready_def p)
  then show ?thesis
  proof cases
    case used
    then have inv: "ring_inv r" by (simp add: ring_holds_def)
    note enq = enqueue_cases [OF inv, of t]
    let ?w = "unat (write_index r)"
    have w: "?w < unat (num_trb r) - 1" "length (trb r) = unat (num_trb r)" using ring_inv_index [OF inv] by simp_all
    obtain r' where r': "xhci_enqueue_trb r t = Some r'" "mem r' = (trb r)[?w := t]"
      by (auto simp: enq Let_def)
    from used have "hc_next ((trb r)[?w := t]) (d, cc) = None"
    proof (cases rule: ring_holds_cases)
      case same
      then have "d = ?w" by (cases "d < ?w") auto
      then show ?thesis using stop [of "(trb r)[?w := t]" d] w same(2) assms(2) by simp
    next
      case lap
      then have d: "d = unat (num_trb r) - 1" "?w = 0" by auto
      have l: "trb r ! (unat (num_trb r) - 1) = link_trb (base r) 0"
        using inv assms(2) by (simp add: ring_inv_def Let_def)
      show ?thesis
        using d l n w assms(2,3) lap(2)
        by (auto simp: hc_next_def hc_at_def nth_list_update Let_def link_trb_simps(2) [of 0])
    qed
    with r' show ?thesis by (simp add: p)
  next
    case fresh
    have "length (trb r) = unat (num_trb r)"
      using ring_init_Some [OF n fresh(5,4), of "base r"] fresh(3)
      by (metis length_list_update length_replicate option.inject xhci_ring.select_convs(1))
    then show ?thesis
      using fresh_enqueue [OF n fresh(3,5,4), of t] stop [of "(trb r)[0 := t]" 0] n by (simp add: p fresh(1,2))
  qed
qed

lemma wait_silent_None:
  assumes "\<not> event_sync h" "Q h" "\<And>h. Q h \<Longrightarrow> \<exists>w. idle hw h = (False, h\<lparr>world := w\<rparr>) \<and> Q (h\<lparr>world := w\<rparr>)"
  shows "wait_loop hw h = None"
proof (cases "wait_loop hw h")
  case (Some h')
  from wait_loop_silent [OF Some, of Q] assms show ?thesis by blast
qed

lemma ring_ready_cycle:
  assumes a: "ring_ready (r, p)"
  shows "cycle_bit r = 0 \<or> cycle_bit r = 1"
proof -
  obtain d cc where p: "p = (d, cc)" by (cases p)
  consider (used) "ring_holds (r, d, cc) []"
    | (fresh) "xhci_ring_init (base r) (mem r) (num_trb r) (rtype r) = Some r" "rtype r \<noteq> EVENT_RING"
        "length (mem r) = unat (num_trb r)" "3 \<le> unat (num_trb r)"
    using a by (auto simp: ring_ready_def p)
  then show ?thesis
  proof cases
    case used
    then have "ring_inv r" by (simp add: ring_holds_def)
    then show ?thesis by (simp add: ring_inv_def Let_def)
  next
    case fresh
    from ring_init_Some [OF fresh(4,3,2), of "base r"] fresh(1) have
      "cycle_bit r = 1" by (metis option.inject xhci_ring.select_convs(8))
    then show ?thesis by simp
  qed
qed

text \<open>The iterations of the wait while the controller is silent.\<close>

definition silent_for_ever :: "'w xhci_hw \<Rightarrow> 'w xhci_hcd \<Rightarrow> bool" where
  "silent_for_ever hw h \<longleftrightarrow> (\<forall>n. \<exists>w w'. ((\<lambda>h. snd (idle hw h)) ^^ n) h = h\<lparr>world := w\<rparr> \<and>
     idle hw (h\<lparr>world := w\<rparr>) = (False, h\<lparr>world := w'\<rparr>))"

lemma silent_for_everI:
  assumes "\<And>w. \<exists>w'. idle hw (h\<lparr>world := w\<rparr>) = (False, h\<lparr>world := w'\<rparr>)"
  shows "silent_for_ever hw h"
proof -
  have "\<exists>w. ((\<lambda>h. snd (idle hw h)) ^^ n) h = h\<lparr>world := w\<rparr>" for n
  proof (induction n)
    case 0
    show ?case by (intro exI [of _ "world h"]) simp
  next
    case (Suc n)
    then obtain w where "((\<lambda>h. snd (idle hw h)) ^^ n) h = h\<lparr>world := w\<rparr>" by blast
    with assms [of w] show ?case by auto
  qed
  with assms show ?thesis unfolding silent_for_ever_def by blast
qed

text \<open>C39. \<open>xhci_cmd_reset_device\<close> writes the type, the slot and the cycle bit of its command to
  \<open>.status\<close> and leaves \<open>.control\<close> clear. On an idle session, and a controller that posts nothing as long as
  it finds no command on the command ring: while the ring's cycle bit is set (the whole first lap) the
  block is put on the ring, but the controller does not find it; the wait then sees no event in any
  iteration, and the call never returns. While the bit is clear (every second lap) the controller finds
  the block, and it is a command of the reserved type 0; what it does with it, and so whether the call
  returns, is not known.\<close>

theorem reset_device_hangs:
  assumes "session_idle h cp evp"
    and "\<And>h. hc_next (mem (cmd_ring h)) cp = None \<Longrightarrow> \<exists>w. idle hw h = (False, h\<lparr>world := w\<rparr>)"
  shows "\<exists>r. xhci_enqueue_trb (cmd_ring h) (reset_device_trb sl (cycle_bit (cmd_ring h))) = Some r \<and>
    (if cycle_bit (cmd_ring h) = 1
     then hc_next (mem r) cp = None \<and>
       (\<exists>w. silent_for_ever hw (h\<lparr>cmd_ring := r, world := w, event_wait := True\<rparr>) \<and>
         xhci_cmd_reset_device hw sl h = map_option (\<lambda>h. (0, h\<lparr>event_wait := False, event_sync := False\<rparr>))
           (wait_loop hw (h\<lparr>cmd_ring := r, world := w, event_wait := True\<rparr>))) \<and>
       xhci_cmd_reset_device hw sl h = None
     else ring_holds (r, cp) [reset_device_trb sl 0] \<and> control (reset_device_trb sl 0) AND TRB_TYPE_BITMASK = 0)"
proof (cases "cycle_bit (cmd_ring h) = 1")
  case True
  have "ring_ready (cmd_ring h, cp)" and sync: "\<not> event_sync h" using assms(1) by (simp_all add: session_idle_def)
  from invisible_block [OF this(1) True, of "reset_device_trb sl 1"] obtain r where
    r: "xhci_enqueue_trb (cmd_ring h) (reset_device_trb sl 1) = Some r" "hc_next (mem r) cp = None"
    by (auto simp: reset_device_trb_def)
  let ?h = "xhci_ring_cmd_doorbell hw (h\<lparr>cmd_ring := r\<rparr>)"
  obtain w0 where d: "?h = h\<lparr>cmd_ring := r, world := w0\<rparr>" by (auto simp: xhci_ring_cmd_doorbell_def wr32_def wr_def)
  then obtain w where w: "idle hw ?h = (False, h\<lparr>cmd_ring := r, world := w\<rparr>)" using assms(2) [of ?h] r(2) by auto
  let ?w = "h\<lparr>cmd_ring := r, world := w, event_wait := True\<rparr>"
  have "wait_loop hw ?w = None"
    by (rule wait_silent_None [where Q = "\<lambda>h. hc_next (mem (cmd_ring h)) cp = None"])
      (use assms(2) r(2) sync in auto)
  moreover have "silent_for_ever hw ?w"
  proof (rule silent_for_everI)
    fix v
    show "\<exists>w'. idle hw (?w\<lparr>world := v\<rparr>) = (False, ?w\<lparr>world := w'\<rparr>)" using assms(2) [of "?w\<lparr>world := v\<rparr>"] r(2) by simp
  qed
  moreover have "xhci_cmd_reset_device hw sl h =
      map_option (\<lambda>h. (0, h\<lparr>event_wait := False, event_sync := False\<rparr>)) (wait_loop hw ?w)"
    using True by (cases "wait_loop hw ?w")
      (simp_all add: xhci_cmd_reset_device_def xhci_command_submit_def r(1) preempt_def w xhci_event_wait_def)
  ultimately show ?thesis using r True by auto
next
  case False
  let ?t = "reset_device_trb sl 0"
  have c: "cycle_bit (cmd_ring h) = 0" using assms(1) False ring_ready_cycle [of "cmd_ring h" cp] by (simp add: session_idle_def)
  have "is_request ?t" "stamped ?t 0 = ?t" by (simp_all add: reset_device_trb_def is_request_def is_link_def stamped_def TRB_TYPE_def)
  with ring_ready_put [of "cmd_ring h" cp ?t] assms(1) obtain r where
    "xhci_enqueue_trb (cmd_ring h) ?t = Some r" "ring_holds (r, cp) [?t]"
    by (cases cp) (auto simp: session_idle_def ring_put_def c)
  then show ?thesis by (simp add: c reset_device_trb_def)
qed

text \<open>The wake-up of \<open>xhci_port.c\<close> can be lost: \<open>xhci_event_complete\<close> only sets \<open>event_sync\<close> when
  \<open>event_wait\<close> is already set, and the driver rings the doorbell before it sets it. When the
  completion interrupt comes in between, the command has succeeded and the call never returns.\<close>

theorem early_completion_is_lost:
  assumes "session_idle h cp evp" "is_request t"
    and "xhci_enqueue_trb (cmd_ring h) (stamped t (cycle_bit (cmd_ring h))) = Some r"
    and "h1 = xhci_ring_cmd_doorbell hw (h\<lparr>cmd_ring := r\<rparr>)"
    and "idle hw h1 = (True, h1\<lparr>event_ring := r', world := w\<rparr>)" "event_put e (event_ring h1, evp) = Some (r', evp')"
    and "is_event e" "wakes r (stamped e (snd evp))"
    and "\<And>h. event_pending (event_ring h) evp' [] \<Longrightarrow> \<exists>w. idle hw h = (False, h\<lparr>world := w\<rparr>)"
  shows "xhci_command_submit hw (stamped t (cycle_bit (cmd_ring h))) h = None"
proof -
  have h1: "event_ring h1 = event_ring h" "cmd_ring h1 = r" "event_sync h1 = False" "event_wait h1 = False"
    using assms(1) by (simp_all add: assms(4) xhci_ring_cmd_doorbell_def session_idle_def)
  let ?h2 = "h1\<lparr>event_ring := r', world := w\<rparr>"
  from event_put_pending [of "event_ring h" evp "[]" e] assms(1,6,7) h1 have
    "event_pending r' evp' [stamped e (snd evp)]" by (auto simp: session_idle_def)
  then obtain h3 where h3: "xhci_isr hw ?h2 = Some h3" "\<not> event_sync h3" "event_pending (event_ring h3) evp' []"
    using isr_one_event [of ?h2 evp' "stamped e (snd evp)" hw] assms(8) h1 by auto
  have "wait_loop hw (h3\<lparr>event_wait := True\<rparr>) = None"
    by (rule wait_silent_None [where Q = "\<lambda>h. event_pending (event_ring h) evp' []"]) (use assms(9) h3 in auto)
  then show ?thesis
    using assms(5) h3(1)
    by (simp add: xhci_command_submit_def assms(3) assms(4) [symmetric] preempt_def xhci_event_wait_def)
qed

section \<open>Control transfers\<close>

text \<open>The requests of a transfer, without cycle bits.\<close>

definition control_requests :: "usb_setup_packet \<Rightarrow> u32 \<Rightarrow> u32 \<Rightarrow> xhci_trb list" where
  "control_requests req buf len =
     (let has_data = (buf \<noteq> 0 \<and> len \<noteq> 0) in
      [setup_trb req has_data 0] @ (if has_data then [data_trb req buf len 0] else []) @ [status_trb req has_data 0])"

lemma request_stamps [simp]:
  "stamped (setup_trb req b 0) = setup_trb req b" "stamped (data_trb req buf len 0) = data_trb req buf len"
  "stamped (status_trb req b 0) = status_trb req b"
  by (simp_all add: fun_eq_iff setup_trb_def data_trb_def status_trb_def stamped_def generic_trb_def ac_simps)

lemma get_put_ep_ring:
  assumes "get_ep_ring h sl i = Some r"
  shows "\<exists>h'. put_ep_ring sl i r' h = Some h' \<and> get_ep_ring h' sl i = Some r' \<and> cmd_ring h' = cmd_ring h \<and>
    event_ring h' = event_ring h \<and> event_wait h' = event_wait h \<and> event_sync h' = event_sync h \<and> world h' = world h"
  using assms
  by (auto simp: get_ep_ring_def put_ep_ring_def get_device_def put_device_def load_eq_Some split: bind_splits if_splits)

fun enqueue_all :: "int \<Rightarrow> u8 \<Rightarrow> xhci_trb list \<Rightarrow> 'w xhci_hcd \<Rightarrow> 'w xhci_hcd option" where
  "enqueue_all sl i [] h = Some h"
| "enqueue_all sl i (t # ts) h = do { h \<leftarrow> ep_enqueue sl i (stamped t) h; enqueue_all sl i ts h }"

lemma enqueue_all_puts:
  assumes "get_ep_ring h sl i = Some r" "put_all ts r = Some r'"
  shows "\<exists>h'. enqueue_all sl i ts h = Some h' \<and> get_ep_ring h' sl i = Some r' \<and> cmd_ring h' = cmd_ring h \<and>
    event_ring h' = event_ring h \<and> event_wait h' = event_wait h \<and> event_sync h' = event_sync h \<and> world h' = world h"
  using assms
proof (induction ts arbitrary: h r)
  case (Cons t ts)
  from Cons.prems(2) obtain r1 where r1: "xhci_enqueue_trb r (stamped t (cycle_bit r)) = Some r1" "put_all ts r1 = Some r'"
    by (auto split: bind_splits)
  from get_put_ep_ring [OF Cons.prems(1), of r1] obtain h1 where
    h1: "put_ep_ring sl i r1 h = Some h1" "get_ep_ring h1 sl i = Some r1" "cmd_ring h1 = cmd_ring h"
      "event_ring h1 = event_ring h" "event_wait h1 = event_wait h" "event_sync h1 = event_sync h"
      "world h1 = world h" by blast
  from Cons.IH [OF h1(2) r1(2)] show ?case
    using Cons.prems(1) r1(1) h1 by (auto simp: ep_enqueue_def)
qed simp

lemma enqueue_all_fun: "enqueue_all sl i [] = Some"
  "enqueue_all sl i (t # ts) = (\<lambda>h. ep_enqueue sl i (stamped t) h \<bind> enqueue_all sl i ts)"
  by (simp_all add: fun_eq_iff)

lemma control_td_enqueues: "control_td sl i req buf len h = enqueue_all sl i (control_requests req buf len) h"
  by (simp add: control_td_def control_requests_def Let_def enqueue_all_fun del: enqueue_all.simps)

lemma control_requests_legal: "list_all is_request (control_requests req buf len)"
  by (simp add: control_requests_def Let_def setup_trb_def data_trb_def status_trb_def generic_trb_def is_request_def
      is_link_def TRB_TYPE_def TRB_TRT_def)

lemma control_td_holds:
  assumes "get_ep_ring h sl i = Some r" "ring_ready (r, p)" "5 \<le> unat (num_trb r)"
  shows "\<exists>h' r'. control_td sl i req buf len h = Some h' \<and> get_ep_ring h' sl i = Some r' \<and>
    ring_holds (r', p) (control_requests req buf len) \<and> cmd_ring h' = cmd_ring h \<and> event_ring h' = event_ring h \<and>
    event_wait h' = event_wait h \<and> event_sync h' = event_sync h \<and> world h' = world h"
proof -
  obtain t ts where ts: "control_requests req buf len = t # ts" "length (t # ts) \<le> 3"
    by (auto simp: control_requests_def Let_def)
  have "length (t # ts) \<le> unat (num_trb r) - 2" using ts(2) assms(3) by linarith
  from put_all_ready [OF assms(2) _ this] control_requests_legal [of req buf len] ts(1) obtain r' where
    "put_all (control_requests req buf len) r = Some r'" "ring_holds (r', p) (control_requests req buf len)" by auto
  with enqueue_all_puts [OF assms(1)] show ?thesis by (fastforce simp: control_td_enqueues)
qed

text \<open>C12. A control transfer on an endpoint whose ring is idle: the setup, data and status stages, as the
  request asks for them, are what the controller finds on the ring, in this order. When it answers
  with a transfer event that is not a stall, the call returns the residue of a short packet, 0 on
  success and -1 on any other completion code.\<close>

theorem control_transfer_runs:
  assumes "get_ep_ring h sl (xhci_ep_2_index e EP_CONTROL_BIDIR) = Some r" "ring_ready (r, p)" "5 \<le> unat (num_trb r)"
    and "session_idle h cp evp"
    and "control_td sl (xhci_ep_2_index e EP_CONTROL_BIDIR) req buf len h = Some h1"
    and "answered hw v evp (xhci_ring_ep_doorbell hw (word_of_int sl)
      (ucast (xhci_ep_2_index e EP_CONTROL_BIDIR) + 1) 0 h1) evp'"
    and "is_event v" "wakes (cmd_ring h) (stamped v (snd evp))" "GET_COMP_CODE (status v) \<noteq> COMP_STALL_ERROR"
  shows "(\<exists>r'. get_ep_ring h1 sl (xhci_ep_2_index e EP_CONTROL_BIDIR) = Some r' \<and>
      ring_holds (r', p) (control_requests req buf len)) \<and>
    (\<exists>h'. xhci_xfer_control hw sl e req buf len h = Some
      (if GET_COMP_CODE (status v) = COMP_SHORT_PACKET then uint (status v AND 0xffffff)
       else if GET_COMP_CODE (status v) = COMP_SUCCESS then 0 else - 1, h') \<and>
      event_pending (event_ring h') evp' [] \<and> cmd_ring h' = cmd_ring h)"
proof -
  let ?i = "xhci_ep_2_index e EP_CONTROL_BIDIR"
  let ?h = "xhci_ring_ep_doorbell hw (word_of_int sl) (ucast ?i + 1) 0 h1"
  from control_td_holds [OF assms(1-3), of req buf len] assms(5) obtain r' where
    r': "get_ep_ring h1 sl ?i = Some r'" "ring_holds (r', p) (control_requests req buf len)" and
    f: "cmd_ring h1 = cmd_ring h" "event_ring h1 = event_ring h" "event_wait h1 = event_wait h" "event_sync h1 = event_sync h"
    by auto
  have g: "cmd_ring ?h = cmd_ring h" "event_ring ?h = event_ring h" "event_wait ?h = event_wait h" "event_sync ?h = event_sync h"
    by (simp_all add: xhci_ring_ep_doorbell_def f)
  from answered_wait [OF assms(6)] assms(4,7,8) g obtain h2 where
    h2: "do { h \<leftarrow> preempt hw ?h; h \<leftarrow> xhci_event_wait hw h; Some (evt_trb h, h) } = Some (stamped v (snd evp), h2)"
      "same_driver ?h h2" "event_pending (event_ring h2) evp' []" by (auto simp: session_idle_def)
  have "ep_submit hw sl ?i h1 = Some (stamped v (snd evp), h2)" using h2(1) by (simp add: ep_submit_def)
  moreover have "status (stamped v (snd evp)) = status v" by (simp add: stamped_def)
  ultimately show ?thesis
    using r' h2 g assms(9)
    by (simp add: xhci_xfer_control_def assms(5) Let_def same_driver_def)
qed

section \<open>Endpoint numbers\<close>

text \<open>The device context index of the xHCI specification: the slot context is 0, the control endpoint
  \<open>n\<close> is \<open>2 n + 1\<close>, the other endpoints \<open>n\<close> are \<open>2 n\<close> for OUT and \<open>2 n + 1\<close> for IN.\<close>

definition context_index :: "nat \<Rightarrow> bool \<Rightarrow> xhci_ep_type \<Rightarrow> nat" where
  "context_index n dir_in ty = (if ty = EP_CONTROL_BIDIR \<or> dir_in then 2 * n + 1 else 2 * n)"

lemma unat_nibble: "unat ((a :: u8) AND 15) < 16"
proof -
  have "unat (a AND 15) \<le> unat (15 :: u8)"
    by (rule word_and_le1 [THEN word_le_nat_alt [THEN iffD1]])
  then show ?thesis by simp
qed

text \<open>C23. \<open>xhci_ep_2_index\<close> is one less than the specification's device context index, and inside the
  31 endpoints of a device, for every endpoint address but OUT endpoint 0 of a type other than
  control, where it is 255.\<close>

theorem endpoint_index_is_context_index:
  "(if ty \<noteq> EP_CONTROL_BIDIR \<and> e AND 0xf = 0 \<and> e AND 0x80 = 0
    then xhci_ep_2_index e ty = 255
    else unat (xhci_ep_2_index e ty) + 1 = context_index (unat (e AND 0xf)) (e AND 0x80 \<noteq> 0) ty \<and>
      unat (xhci_ep_2_index e ty) < 31)"
proof -
  let ?k = "e AND 15"
  have k: "unat ?k < 16" by (rule unat_nibble)
  then have two: "unat (?k * 2) = 2 * unat ?k" by (simp add: unat_word_ariths)
  have pred: "unat (?k * 2 - 1) = 2 * unat ?k - 1" if "?k \<noteq> 0"
  proof -
    have "0 < unat ?k" using that by (simp add: word_unat_eq_iff)
    then show ?thesis using two by (simp add: unat_sub word_le_nat_alt)
  qed
  show ?thesis
  proof (cases "?k = 0")
    case True
    then show ?thesis
      by (auto simp: xhci_ep_2_index_def context_index_def)
  next
    case False
    then have "0 < unat ?k" by (simp add: word_unat_eq_iff)
    moreover have "2 * unat ?k - Suc 0 < 31" using k by linarith
    ultimately show ?thesis using False two pred k by (simp add: xhci_ep_2_index_def context_index_def)
  qed
qed

lemma bulk_out_zero_undefined:
  assumes "get_device h sl = Some d" "length (ep d) = 31" "e AND 0x8f = 0"
  shows "xhci_xfer_bulk hw sl e buf len h = None"
proof -
  have "e AND 15 = (e AND 0x8f) AND 15" "e AND 0x80 = (e AND 0x8f) AND 0x80"
    by (simp_all add: and.assoc)
  then have "e AND 15 = 0" "e AND 0x80 = 0" using assms(3) by simp_all
  then have "unat (xhci_ep_2_index e EP_BULK_IN) = 255"
    by (simp add: xhci_ep_2_index_def unsigned_minus_1_eq_mask mask_eq_exp_minus_1)
  then show ?thesis using assms(1,2) by (simp add: xhci_xfer_bulk_def ep_enqueue_def get_ep_ring_def Let_def)
qed

section \<open>String descriptors\<close>

lemma string_copy_nth:
  assumes "2 + 2 * (i + n) \<le> length buf + 1"
  shows "\<exists>buf'. string_copy i n buf = Some buf' \<and> length buf' = length buf \<and>
    (\<forall>j<length buf. buf' ! j = (if i \<le> j \<and> j < i + n then buf ! (2 + 2 * j) else buf ! j))"
  using assms
proof (induction n arbitrary: i buf)
  case (Suc n)
  have b: "2 + i * 2 < length buf" using Suc.prems by simp
  let ?b = "buf[i := buf ! (2 + i * 2)]"
  from Suc.IH [of "i + 1" ?b] Suc.prems obtain buf' where
    buf': "string_copy (i + 1) n ?b = Some buf'" "length buf' = length buf"
      "\<forall>j<length buf. buf' ! j = (if i + 1 \<le> j \<and> j < i + 1 + n then ?b ! (2 + 2 * j) else ?b ! j)" by auto
  have "buf' ! j = (if i \<le> j \<and> j < i + Suc n then buf ! (2 + 2 * j) else buf ! j)" if "j < length buf" for j
    using buf'(3) that b by (auto simp: nth_list_update mult.commute)
  with buf' b show ?case by simp
qed auto

text \<open>\<open>usb_string_desc_inplace\<close> of \<open>main.c\<close> extracts, in place, the low byte of every UTF-16
  character of a string descriptor: although it overwrites the buffer it reads, no character is
  overwritten before it is read. It returns their number, terminates them, keeps the rest of the
  buffer, and leaves other descriptors alone.\<close>

theorem string_descriptor_low_bytes:
  assumes "2 \<le> len" "unat len \<le> length buf" "n = (unat len - 2) div 2"
  shows "\<exists>buf'. usb_string_desc_inplace buf len = Some (if buf ! 1 = 3 then of_nat n else 0, buf') \<and>
    buf' = (if buf ! 1 = 3 then map (\<lambda>i. buf ! (2 + 2 * i)) [0..<n] @ [0] @ drop (n + 1) buf else buf)"
proof (cases "buf ! 1 = 3")
  case False
  then show ?thesis using assms by (auto simp: usb_string_desc_inplace_def word_le_nat_alt)
next
  case True
  have l: "2 \<le> unat len" using assms(1) by (simp add: word_le_nat_alt)
  have d: "unat ((len - 2) div 2) = n" using l assms(1,3) by (simp add: unat_div unat_sub)
  have "2 * n \<le> unat len - 2" using assms(3) by simp
  then have "2 + 2 * (0 + n) \<le> length buf + 1" using l assms(2) by auto
  from string_copy_nth [OF this] obtain buf' where
    buf': "string_copy 0 n buf = Some buf'" "length buf' = length buf"
      "\<forall>j<length buf. buf' ! j = (if j < n then buf ! (2 + 2 * j) else buf ! j)" by auto
  have n: "n < length buf" "1 < length buf" using l assms(2,3) by auto
  have "buf'[n := 0] = map (\<lambda>i. buf ! (2 + 2 * i)) [0..<n] @ [0] @ drop (n + 1) buf"
    using buf'(2,3) n by (intro nth_equalityI) (auto simp: nth_append nth_list_update nth_Cons' less_Suc_eq)
  moreover have w: "of_nat n = (len - 2) div 2" by (simp flip: d)
  ultimately have "usb_string_desc_inplace buf len =
      Some (of_nat n, map (\<lambda>i. buf ! (2 + 2 * i)) [0..<n] @ [0] @ drop (n + 1) buf)"
    using True buf'(1,2) n d assms(1) unfolding w by (simp add: usb_string_desc_inplace_def Let_def linorder_not_less [symmetric])
  then show ?thesis using True by simp
qed

section \<open>Enabling a slot\<close>

definition enable_slot_request :: xhci_trb where
  "enable_slot_request = \<lparr>paramater = 0, status = 0, control = TRB_TYPE TRB_ENABLE_SLOT\<rparr>"

lemma slot_id_stamped [simp]: "c = 0 \<or> c = 1 \<Longrightarrow> TRB_TO_SLOT_ID (control (stamped e c)) = TRB_TO_SLOT_ID (control e)"
  by (auto simp: TRB_TO_SLOT_ID_def stamped_def bit.conj_disj_distrib2)

lemma event_pending_cycle: "event_pending r p q \<Longrightarrow> snd p = 0 \<or> snd p = 1"
  by (cases p) (auto simp: event_pending_def Let_def)

text \<open>C11. A command end to end: the controller finds the Enable Slot command, and nothing else, on the
  command ring; when it posts the completion event, the interrupt hands it to the waiting call, which
  returns the slot of the event if the code is success and -1 otherwise. Afterwards nothing is pending
  and nobody waits.\<close>

theorem enable_slot_returns_the_slot:
  assumes "session_idle h cp evp"
    and "xhci_enqueue_trb (cmd_ring h) (stamped enable_slot_request (cycle_bit (cmd_ring h))) = Some r"
    and "answered hw e evp (xhci_ring_cmd_doorbell hw (h\<lparr>cmd_ring := r\<rparr>)) evp'"
    and "is_event e" "wakes r (stamped e (snd evp))"
  shows "\<exists>h'. xhci_cmd_enable_slot hw h =
      Some (if GET_COMP_CODE (status e) = COMP_SUCCESS then uint (TRB_TO_SLOT_ID (control e)) else - 1, h') \<and>
    ring_holds (cmd_ring h', cp) [enable_slot_request] \<and> event_pending (event_ring h') evp' [] \<and>
    \<not> event_wait h' \<and> \<not> event_sync h' \<and> device h' = device h"
proof -
  have t: "is_request enable_slot_request"
    by (simp add: is_request_def enable_slot_request_def is_link_def TRB_TYPE_def)
  from command_submit_completes [OF assms(1) t assms(2-5)] obtain h' where
    h': "xhci_command_submit hw (stamped enable_slot_request (cycle_bit (cmd_ring h))) h = Some (stamped e (snd evp), h')"
      "cmd_ring h' = r" "ring_holds (r, cp) [enable_slot_request]" "event_pending (event_ring h') evp' []"
      "\<not> event_wait h'" "\<not> event_sync h'" "device h' = device h" by blast
  have "snd evp = 0 \<or> snd evp = 1" using assms(1) event_pending_cycle [of "event_ring h" evp "[]"] by (simp add: session_idle_def)
  then have "TRB_TO_SLOT_ID (control (stamped e (snd evp))) = TRB_TO_SLOT_ID (control e)" by simp
  moreover have "status (stamped e (snd evp)) = status e" by (simp add: stamped_def)
  moreover have "\<lparr>paramater = 0, status = 0, control = TRB_TYPE TRB_ENABLE_SLOT OR cycle_bit (cmd_ring h)\<rparr>
      = stamped enable_slot_request (cycle_bit (cmd_ring h))"
    by (simp add: enable_slot_request_def stamped_def)
  ultimately show ?thesis using h' by (auto simp: xhci_cmd_enable_slot_def)
qed

section \<open>The output context\<close>

text \<open>What the driver sees of the device contexts. The controller writes them in memory; the driver's
  cached view changes only when the driver writes or invalidates.\<close>

definition seen :: "'w xhci_hcd \<Rightarrow> (nat \<times> u32 list) list" where
  "seen h = map (\<lambda>d. (ctx_type (device_ctx d), ctx (device_ctx d))) (device h)"

definition coherent_idle :: "'w xhci_hw \<Rightarrow> bool" where
  "coherent_idle hw \<longleftrightarrow> (\<forall>h. seen (snd (idle hw h)) = seen h \<and> cap_reg (snd (idle hw h)) = cap_reg h)"

lemma isr_loop_same: "isr_loop hw h = Some h' \<Longrightarrow> same_driver h h'"
proof (induction rule: isr_loop.raw_induct [rotated, consumes 1, case_names step])
  case (step f hw h h')
  then show ?case
    by (auto simp: same_driver_def frame_simps split: bind_splits if_splits dest!: irq_frame_isr_event)
qed

lemma isr_same: "xhci_isr hw h = Some h' \<Longrightarrow> same_driver h h'"
proof -
  assume isr: "xhci_isr hw h = Some h'"
  obtain erdp h1 where h1: "isr_enter hw h = (erdp, h1)" by fastforce
  from isr isr_code [OF h1] obtain h2 where "isr_loop hw h1 = Some h2" "same_driver h2 h'"
    by (auto simp: same_driver_def)
  with isr_loop_same [of hw h1 h2] isr_enter_fields [OF h1] show "same_driver h h'" by (simp add: same_driver_def)
qed

lemma preempt_seen:
  assumes "coherent_idle hw" "preempt hw h = Some h'"
  shows "seen h' = seen h \<and> cap_reg h' = cap_reg h"
proof -
  obtain irq h1 where h1: "idle hw h = (irq, h1)" by fastforce
  with assms(1) have "seen h1 = seen h \<and> cap_reg h1 = cap_reg h" unfolding coherent_idle_def by (metis snd_conv)
  with assms(2) h1 isr_same [of hw h1 h'] show ?thesis
    by (auto simp: preempt_def same_driver_def seen_def split: if_splits)
qed

lemma wait_loop_seen: "wait_loop hw h = Some h' \<Longrightarrow> coherent_idle hw \<longrightarrow> seen h' = seen h \<and> cap_reg h' = cap_reg h"
proof (induction rule: wait_loop.raw_induct [rotated, consumes 1, case_names step])
  case (step f hw h h')
  then show ?case by (auto split: if_splits bind_splits dest: preempt_seen)
qed

lemma seen_update [simp]:
  "seen (h\<lparr>event_wait := a\<rparr>) = seen h" "seen (h\<lparr>event_sync := a\<rparr>) = seen h" "seen (h\<lparr>cmd_ring := r\<rparr>) = seen h"
  "seen (wr hw x v h) = seen h" "seen (wr32 hw x y h) = seen h"
  by (simp_all add: seen_def)

lemma command_submit_seen:
  assumes "coherent_idle hw" "xhci_command_submit hw t h = Some (e, h')"
  shows "seen h' = seen h \<and> cap_reg h' = cap_reg h"
  using assms
  by (auto simp: xhci_command_submit_def xhci_event_wait_def xhci_ring_cmd_doorbell_def
      split: bind_splits dest!: preempt_seen wait_loop_seen)

lemma put_device_get [simp]: "get_device h sl = Some d \<Longrightarrow> get_device (put_device sl d' h) sl = Some d'"
  by (auto simp: get_device_def put_device_def load_eq_Some split: if_splits)

lemma seen_get:
  assumes "get_device h sl = Some d" "seen h' = seen h"
  shows "\<exists>d'. get_device h' sl = Some d' \<and> ctx_type (device_ctx d') = ctx_type (device_ctx d) \<and>
    ctx (device_ctx d') = ctx (device_ctx d)"
proof -
  have l: "length (device h') = length (device h)" using arg_cong [OF assms(2), of length] by (simp add: seen_def)
  have d: "0 \<le> sl" "nat sl < length (device h)" "device h ! nat sl = d"
    using assms(1) by (simp_all add: get_device_def load_eq_Some split: if_splits)
  let ?d = "device h' ! nat sl"
  have "seen h' ! nat sl = (ctx_type (device_ctx ?d), ctx (device_ctx ?d))" using d(2) l by (simp add: seen_def)
  moreover have "seen h ! nat sl = (ctx_type (device_ctx d), ctx (device_ctx d))" using d(2,3) by (simp add: seen_def)
  moreover have "get_device h' sl = Some ?d" using d(1,2) l by (simp add: get_device_def)
  ultimately show ?thesis using assms(2) by simp
qed

lemma seen_put_input:
  assumes "get_device h sl = Some d"
  shows "seen (put_device sl (d\<lparr>input_ctx := c\<rparr>) h) = seen h"
proof -
  have "device h ! nat sl = d" "nat sl < length (device h)"
    using assms by (auto simp: get_device_def load_eq_Some split: if_splits)
  then show ?thesis
    by (simp add: seen_def put_device_def map_update list_update_same_conv)
qed

lemma address_device_seen:
  assumes "coherent_idle hw" "xhci_cmd_address_device hw sl ty h = Some (r, h')"
  shows "seen h' = seen h \<and> cap_reg h' = cap_reg h"
proof -
  from assms(2) obtain d c t e where d: "get_device h sl = Some d" and
    s: "xhci_command_submit hw t (put_device sl (d\<lparr>input_ctx := c\<rparr>) h) = Some (e, h')"
    by (auto simp: xhci_cmd_address_device_def Let_def split: bind_splits)
  from command_submit_seen [OF assms(1) s] seen_put_input [OF d, of c] show ?thesis by (simp add: put_device_def)
qed

lemma alloc_device_clears:
  assumes "xhci_alloc_device hw h = Some (sl, h')" "0 \<le> sl"
  shows "\<exists>d. get_device h' sl = Some d \<and> ctx_type (device_ctx d) = XHCI_CTX_TYPE_DEVICE \<and>
    take 256 (ctx (device_ctx d)) = replicate 256 0"
proof -
  have ok: "\<exists>out inp ep0 h1. attach_device sl out inp ep0 h1 = Some h'"
    using assms by (fastforce simp: xhci_alloc_device_def Let_def split: bind_splits prod.splits option.splits)
  then obtain out inp ep0 h1 where a: "attach_device sl out inp ep0 h1 = Some h'" by blast
  obtain oa ow where out: "out = (oa, ow)" by (cases out)
  from a obtain d tab dc ic eps where d: "get_device h1 sl = Some d" and
    dc: "new_ctx XHCI_CTX_TYPE_DEVICE (if HCC_64BYTE_CONTEXT (hccparams1 (cap_reg h1)) then 2048 else 1024) out = Some dc" and
    h': "h' = put_device sl (d\<lparr>device_ctx := dc, input_ctx := ic, ep := eps, slot := word_of_int sl\<rparr>) (h1\<lparr>dev_ctx_tab := tab\<rparr>)"
    by (auto simp: attach_device_def Let_def split: bind_splits)
  have "get_device (h1\<lparr>dev_ctx_tab := tab\<rparr>) sl = Some d" using d by (simp add: get_device_def split: if_splits)
  moreover have "ctx_type dc = XHCI_CTX_TYPE_DEVICE \<and> take 256 (ctx dc) = replicate 256 0"
    using dc by (auto simp: new_ctx_def out clear_words_def set_words_def blit_def take_replicate split: bind_splits if_splits)
  ultimately show ?thesis by (simp add: h')
qed

text \<open>The output slot context is never read back. After a device is allocated and addressed, whatever
  the controller has written to its slot context, \<open>xhci_slot_ctx_copy\<close> copies the zeros the driver wrote
  when it allocated the context: the driver never invalidates it. The Configure Endpoint command
  of \<open>xhci_cmd_add_endpoint\<close>, which says "slot ctx no update", therefore clears the speed, the port and the state.\<close>

theorem slot_context_copy_is_stale:
  assumes "coherent_idle hw" "xhci_alloc_device hw h = Some (sl, h1)" "0 \<le> sl"
    and "xhci_cmd_address_device hw sl ty h1 = Some (r, h2)" "xhci_slot_ctx_copy sl h2 = Some h3"
  shows "\<exists>d. get_device h3 sl = Some d \<and>
    take 4 (drop (xhci_get_slot_ctx h3 (input_ctx d)) (ctx (input_ctx d))) = [0, 0, 0, 0]"
proof -
  from alloc_device_clears [OF assms(2,3)] obtain d1 where d1: "get_device h1 sl = Some d1"
      "ctx_type (device_ctx d1) = XHCI_CTX_TYPE_DEVICE" "take 256 (ctx (device_ctx d1)) = replicate 256 0" by blast
  from seen_get [OF d1(1), of h2] address_device_seen [OF assms(1,4)] d1 obtain d2 where d2: "get_device h2 sl = Some d2"
      "ctx_type (device_ctx d2) = XHCI_CTX_TYPE_DEVICE" "take 256 (ctx (device_ctx d2)) = replicate 256 0" by auto
  have four: "take 4 (ctx (device_ctx d2)) = [0, 0, 0, 0]"
  proof -
    have "take 4 (ctx (device_ctx d2)) = take 4 (take 256 (ctx (device_ctx d2)))" by simp
    then show ?thesis unfolding d2(3) by (simp add: numeral_eq_Suc)
  qed
  let ?ic = "input_ctx d2" and ?o = "xhci_get_slot_ctx h2 (input_ctx d2)"
  have z: "xhci_get_slot_ctx h2 (device_ctx d2) = 0" using d2(2) by (simp add: xhci_get_slot_ctx_def)
  from assms(5) d2(1) four z obtain ws where
    ws: "ws = blit (ctx ?ic) ?o [0, 0, 0, 0]" "?o + 4 \<le> length (ctx ?ic)"
      "h3 = put_device sl (d2\<lparr>input_ctx := ?ic\<lparr>ctx := ws\<rparr>\<rparr>) h2"
    by (auto simp: xhci_slot_ctx_copy_def memcpy_def Let_def split: if_splits bind_splits)
  have "get_device h3 sl = Some (d2\<lparr>input_ctx := ?ic\<lparr>ctx := ws\<rparr>\<rparr>)" using ws(3) d2(1) by simp
  moreover have "xhci_get_slot_ctx h3 (?ic\<lparr>ctx := ws\<rparr>) = ?o" by (simp add: ws(3) put_device_def xhci_get_slot_ctx_def)
  moreover have "take 4 (drop ?o ws) = [0, 0, 0, 0]"
    using take_drop_blit [of ?o "ctx ?ic" "[0, 0, 0, 0]"] ws(1,2) by (simp add: numeral_eq_Suc)
  ultimately show ?thesis by simp
qed

section \<open>The interrupt\<close>

text \<open>C10. \<open>xhci_isr\<close> refines its reference: it acknowledges the interrupt, handles exactly the pending
  events, each once and in the controller's order, and moves the dequeue pointer past them, keeping the
  low bits of the register; it does not move the pointer when nothing was pending. When it returns,
  nothing is pending.\<close>

theorem interrupt_handles_pending_events:
  assumes "event_pending (event_ring h) p q"
  shows "xhci_isr hw h = isr_reference hw q h \<and>
    (case xhci_isr hw h of None \<Rightarrow> True | Some h' \<Rightarrow> event_pending (event_ring h') p [])"
  using isr_is_reference [OF assms, of hw] isr_consumes [OF assms, of hw] by (auto split: option.split)

text \<open>C21. The interrupt handler returns, and its loop goes round the ring at most once, for an event ring
  with any contents: it handles exactly the blocks that are visible from its position, those whose cycle
  bit is its own and behind the end of the ring the other one, and these are no more than the ring has.
  After exactly one round it leaves the dequeue pointer as it was, because it compares the read index.
  It relies on a read index inside the ring, on the port registers as documented (a reset ends, the speed is one of the six known ones)
  and on the completion events among the visible blocks pointing into the command ring; blocks that are
  not visible may hold anything.\<close>

theorem interrupt_always_returns:
  assumes "isr_ready hw h"
  shows "length (visible_events (event_ring h)) \<le> unat (num_trb (event_ring h)) \<and>
    xhci_isr hw h = isr_outcome hw (visible_events (event_ring h)) h \<and> (\<exists>h'. xhci_isr hw h = Some h')"
proof -
  have g: "ring_geometry (event_ring h)" using assms by (simp add: isr_ready_def)
  from isr_handles_visible [OF g, of hw] visible_events_length [OF g] isr_outcome_returns [OF assms] show ?thesis by simp
qed

section \<open>After start-up\<close>

text \<open>Only the registers have changed.\<close>

definition reg_frame :: "'w xhci_hcd \<Rightarrow> 'w xhci_hcd \<Rightarrow> bool" where
  "reg_frame h h' \<longleftrightarrow> h' = h\<lparr>world := world h'\<rparr>"

lemma reg_frameI [simp]: "reg_frame h (h\<lparr>world := w\<rparr>)"
  by (simp add: reg_frame_def)

lemma reg_frameE:
  assumes "reg_frame h h'"
  obtains w where "h' = h\<lparr>world := w\<rparr>"
  using assms unfolding reg_frame_def by blast

lemma reg_frame_trans: "reg_frame h h' \<Longrightarrow> reg_frame h' h'' \<Longrightarrow> reg_frame h h''"
  by (auto elim!: reg_frameE)

lemma reg_frame_rd32: "rd32 hw r h = (v, h') \<Longrightarrow> reg_frame h h'"
  by (auto simp: rd32_def rd_def split: prod.splits)

lemma reg_frame_fields:
  assumes "reg_frame h h'"
  shows "event_ring h' = event_ring h \<and> cmd_ring h' = cmd_ring h \<and> event_wait h' = event_wait h \<and> event_sync h' = event_sync h"
  using assms by (auto elim!: reg_frameE)

lemma reg_frame_poll: "poll hw r ok h = Some h' \<Longrightarrow> reg_frame h h'"
proof (induction rule: poll.raw_induct [rotated, consumes 1, case_names step])
  case (step f hw r ok h h')
  then show ?case
    by (auto simp: Let_def split: prod.splits if_splits dest!: reg_frame_rd32 intro: reg_frame_trans)
qed

lemma reset_frame: "xhci_reset hw h = Some (r, h') \<Longrightarrow> reg_frame h h'"
  by (auto simp: xhci_reset_def Let_def rd32_def rd_def wr32_def wr_def
      split: prod.splits if_splits bind_splits dest!: reg_frame_poll elim!: reg_frameE)

lemma run_frame: "xhci_run hw h = Some (r, h') \<Longrightarrow> reg_frame h h'"
  by (auto simp: xhci_run_def Let_def rd32_def rd_def wr32_def wr_def
      split: prod.splits if_splits bind_splits dest!: reg_frame_poll elim!: reg_frameE)

lemma ext_cap_frame: "ext_cap_loop hw a h = Some x \<Longrightarrow> reg_frame h (snd x)"
proof (induction rule: ext_cap_loop.raw_induct [rotated, consumes 1, case_names step])
  case (step f hw a h x)
  obtain c h1 where c: "rd32 hw (R_mmio a) h = (c, h1)" by fastforce
  obtain n h2 where n: "rd32 hw (R_mmio (a + 4)) h1 = (n, h2)" by fastforce
  obtain q h3 where q: "rd32 hw (R_mmio (a + 8)) h2 = (q, h3)" by fastforce
  have "reg_frame h h1" "reg_frame h h3" using c n q by (blast intro: reg_frame_trans reg_frame_rd32)+
  moreover define h4 where "h4 = (if c AND 255 = 2 then h3 else h1)"
  ultimately have f: "reg_frame h h4" by simp
  show ?case
  proof (cases "drop_bit 8 c AND 255 = 0")
    case True
    then have "snd x = h4" using step(2) by (auto simp: c n q h4_def split: if_splits)
    with f show ?thesis by simp
  next
    case False
    then obtain y where "f hw (a + push_bit 2 (drop_bit 8 c AND 255)) h4 = Some y" "snd x = snd y"
      using step(2) by (auto simp: c n q h4_def split: if_splits bind_splits)
    with step(1) f show ?thesis by (metis reg_frame_trans)
  qed
qed

text \<open>A new event ring of 32 blocks: the driver starts at the first one with the cycle bit set. What it
  finds is what the allocated memory holds, because the ring is cleared in the cache only.\<close>

definition fresh_event_ring :: "xhci_ring \<Rightarrow> xhci_trb list \<Rightarrow> bool" where
  "fresh_event_ring r ts \<longleftrightarrow> mem r = ts \<and> length ts = 32 \<and> num_trb r = 32 \<and> read_index r = 0 \<and> cycle_bit r = 1"

lemma event_init_fresh:
  assumes "xhci_event_ring_init hw (a, ws) h = Some h'"
  shows "fresh_event_ring (event_ring h') (trbs_of_words ws)"
proof -
  from assms obtain r where r: "xhci_ring_init a (trbs_of_words ws) 32 EVENT_RING = Some r" "event_ring h' = r"
    by (auto simp: xhci_event_ring_init_def Let_def split: bind_splits)
  from r(1) have "mem r = trbs_of_words ws" "length (trbs_of_words ws) = 32" "num_trb r = 32" "read_index r = 0" "cycle_bit r = 1"
    by (auto simp: xhci_ring_init_def Let_def split: if_splits)
  with r(2) show ?thesis by (simp add: fresh_event_ring_def)
qed

lemma fresh_event_ring_visible: "fresh_event_ring r ts \<Longrightarrow> visible_events r = takeWhile (\<lambda>e. cyc e = 1) ts"
  by (auto simp: fresh_event_ring_def visible_events_def Let_def)

lemma fresh_event_ring_pending:
  assumes "fresh_event_ring r ts"
  shows "event_pending r (0, 1) [] \<longleftrightarrow> list_all (\<lambda>e. cyc e = 0) ts"
  using assms by (auto simp: fresh_event_ring_def event_pending_def Let_def list_all_length)

lemma init_controller_rings:
  assumes "init_controller hw n tab pad buf ctrb etrb h = Some h'"
  shows "ring_ready (cmd_ring h', 0, 1) \<and> fresh_event_ring (event_ring h') (trbs_of_words (snd etrb)) \<and>
    event_wait h' = event_wait h \<and> event_sync h' = event_sync h"
proof -
  from assms obtain r h1 x h2 dt pt h3 h4 q where
    h1: "xhci_reset hw h = Some (r, h1)" and h2: "ext_cap_loop hw x h1 = Some (q, h2)" and
    h3: "xhci_command_ring_init hw ctrb ((wr hw R_dcbaa_ptr (fst tab) ((wr32 hw R_config_reg (ucast (max_slots h2)) h2)
      \<lparr>dev_ctx_tab := dt, dev_ctx_addr := fst tab\<rparr>))\<lparr>scratchpad_tab := pt, scratchpad_buf := snd buf\<rparr>) = Some h3" and
    h4: "xhci_event_ring_init hw etrb h3 = Some h4" and run: "\<exists>r. xhci_run hw h4 = Some (r, h')"
    by (auto simp: init_controller_def xhci_ext_cap_dump_def Let_def split: bind_splits)
  have w2: "event_wait h2 = event_wait h \<and> event_sync h2 = event_sync h"
    using reg_frame_fields [OF reset_frame [OF h1]] reg_frame_fields [OF ext_cap_frame [OF h2]] by simp
  from h3 obtain cr where cr: "xhci_ring_init (fst ctrb) (trbs_of_words (snd ctrb)) 32 COMMAND_RING = Some cr"
      "cmd_ring h3 = cr" "event_wait h3 = event_wait h2" "event_sync h3 = event_sync h2"
    by (cases ctrb) (auto simp: xhci_command_ring_init_def split: bind_splits)
  have l: "length (trbs_of_words (snd ctrb)) = 32" using cr(1) by (auto simp: xhci_ring_init_def split: if_splits)
  have "ring_ready (cr, 0, 1)"
    using cr(1) l ring_init_Some [of 32 "trbs_of_words (snd ctrb)" COMMAND_RING "fst ctrb"] by (auto simp: ring_ready_def)
  moreover have "cmd_ring h4 = cmd_ring h3" "event_wait h4 = event_wait h3" "event_sync h4 = event_sync h3"
    using h4 by (cases etrb; auto simp: xhci_event_ring_init_def Let_def split: bind_splits)+
  moreover have "fresh_event_ring (event_ring h4) (trbs_of_words (snd etrb))"
    using event_init_fresh [of hw "fst etrb" "snd etrb" h3 h4] h4 by simp
  ultimately show ?thesis using run reg_frame_fields [OF run_frame] w2 cr by auto
qed

text \<open>C22. What a successful \<open>xhci_init\<close> leaves behind when nobody waited before, for any allocator (\<open>k_aligned_alloc\<close> does not clear
  memory): the command ring is empty where the controller starts reading, nobody waits, and the event
  ring's memory is what the allocator returned, because it is cleared in the cache only and the interrupt
  handler invalidates the cache before it reads. So the first interrupt handles exactly the blocks at
  the start of that memory whose cycle bits are set, although the controller has posted none of them;
  the session is idle, with no event pending, exactly when all cycle bits in it are clear.\<close>

theorem init_prepares_the_session:
  assumes "xhci_init hw a h = Some (0, h')" "\<not> event_wait h" "\<not> event_sync h"
  shows "\<exists>w b ws w'. xhci_mem_alloc hw 64 512 w = (Some (b, ws), w') \<and>
    ring_ready (cmd_ring h', 0, 1) \<and> \<not> event_wait h' \<and> \<not> event_sync h' \<and> mem (event_ring h') = trbs_of_words ws \<and>
    (\<forall>hw. xhci_isr hw h' = isr_outcome hw (takeWhile (\<lambda>e. cyc e = 1) (trbs_of_words ws)) h') \<and>
    (session_idle h' (0, 1) (0, 1) \<longleftrightarrow> list_all (\<lambda>e. cyc e = 0) (trbs_of_words ws))"
proof -
  from assms(1) obtain n tab pad buf ctrb b ws w w' g' where
    e: "xhci_mem_alloc hw 64 512 w = (Some (b, ws), w')" and i: "init_controller hw n tab pad buf ctrb (b, ws) g' = Some h'"
    and f: "event_wait g' = event_wait h" "event_sync g' = event_sync h"
    by (auto simp: xhci_init_def Let_def mem_alloc_def rd32_def rd_def split: bind_splits prod.splits option.splits if_splits)
  from init_controller_rings [OF i] f assms(2,3) have
    r: "ring_ready (cmd_ring h', 0, 1)" "fresh_event_ring (event_ring h') (trbs_of_words ws)" "\<not> event_wait h'" "\<not> event_sync h'"
    by simp_all
  have m: "mem (event_ring h') = trbs_of_words ws" "ring_geometry (event_ring h')" "2 \<le> unat (num_trb (event_ring h'))"
    using r(2) by (simp_all add: fresh_event_ring_def ring_geometry_def)
  have "xhci_isr hw h' = isr_outcome hw (takeWhile (\<lambda>e. cyc e = 1) (trbs_of_words ws)) h'" for hw
    using isr_handles_visible [OF m(2), of hw] by (simp only: fresh_event_ring_visible [OF r(2)])
  moreover have "session_idle h' (0, 1) (0, 1) \<longleftrightarrow> list_all (\<lambda>e. cyc e = 0) (trbs_of_words ws)"
    using r m(3) fresh_event_ring_pending [OF r(2)] by (simp add: session_idle_def)
  ultimately show ?thesis using e r(1,3,4) m(1) by blast
qed

section \<open>Concrete instances\<close>

text \<open>A controller whose registers read 0, except the ports, which are enabled, at high speed, and
  done with their reset; memory comes cleared.\<close>

definition demo_hw :: "('w xhci_hcd \<Rightarrow> bool \<times> 'w xhci_hcd) \<Rightarrow> 'w xhci_hw" where
  "demo_hw f = \<lparr>reg_read = (\<lambda>r w. (case r of R_portsc _ \<Rightarrow> 0x200C00 | _ \<Rightarrow> 0, w)), reg_write = (\<lambda>r v w. w),
     xhci_mem_alloc = (\<lambda>al n w. (Some (0x8000, replicate (n div 4) 0), w)), xhci_mem_free = (\<lambda>a w. w),
     dma_buf = (\<lambda>a n w. replicate n 0), idle = f\<rparr>"

text \<open>It answers every wait with the same event, at the position kept in its state.\<close>

definition answering :: "xhci_trb \<Rightarrow> (nat \<times> u32) xhci_hcd \<Rightarrow> bool \<times> (nat \<times> u32) xhci_hcd" where
  "answering e h = (if event_wait h then
       (case event_put e (event_ring h, world h) of
          None \<Rightarrow> (False, h) | Some (r, p) \<Rightarrow> (True, h\<lparr>event_ring := r, world := p\<rparr>))
     else (False, h))"

definition silent :: "'w xhci_hcd \<Rightarrow> bool \<times> 'w xhci_hcd" where "silent h = (False, h)"

text \<open>It answers at once, and once.\<close>

definition hasty :: "xhci_trb \<Rightarrow> (nat \<times> u32) xhci_hcd \<Rightarrow> bool \<times> (nat \<times> u32) xhci_hcd" where
  "hasty e h = (if cyc (mem (event_ring h) ! 0) = 0 then
       (case event_put e (event_ring h, 0, 1) of
          None \<Rightarrow> (False, h) | Some (r, p) \<Rightarrow> (True, h\<lparr>event_ring := r, world := p\<rparr>))
     else (False, h))"

definition demo_ring :: "u64 \<Rightarrow> u32 \<Rightarrow> ring_type \<Rightarrow> xhci_ring" where
  "demo_ring a n ty = the (xhci_ring_init a (replicate (unat n) zero_trb) n ty)"

definition demo_ctx :: "nat \<Rightarrow> xhci_ctx" where
  "demo_ctx ty = \<lparr>ctx_type = ty, ctx_size = 0, ctx = [], ctx_mem = [], ctx_addr = 0\<rparr>"

definition demo_device :: xhci_device where
  "demo_device = \<lparr>slot = 0, device_ctx = demo_ctx 1, input_ctx = demo_ctx 2,
     ep = \<lparr>ep_ring = demo_ring 0x3000 8 CTRL_RING, ep_state = DISABLE_STATE\<rparr> #
       replicate 30 \<lparr>ep_ring = demo_ring 0 0 EVENT_RING, ep_state = DISABLE_STATE\<rparr>, speed = USB_SPEED_HIGH\<rparr>"

definition demo_state :: "'w \<Rightarrow> 'w xhci_hcd" where
  "demo_state w = \<lparr>base_addr = 0, cap_reg = \<lparr>caplength = 0, hcsparams1 = 16, hcsparams2 = 0, hccparams1 = 0\<rparr>,
     event_ring = demo_ring 0x1000 4 EVENT_RING, cmd_ring = demo_ring 0x2000 4 COMMAND_RING, erst_addr = 0,
     erst_entry = (0, 0), device = replicate 4 demo_device, dev_ctx_tab = replicate 16 0, dev_ctx_addr = 0,
     scratchpad_tab = [], scratchpad_buf = [], evt_trb = zero_trb, version = 0, page_size = 0, max_slots = 16,
     max_port = 1, event_sync = False, event_wait = False, world = w\<rparr>"

definition demo_hcd :: "(nat \<times> u32) xhci_hcd" where "demo_hcd = demo_state (0, 1)"

definition demo_completion :: xhci_trb where
  "demo_completion = \<lparr>paramater = 0x2000, status = push_bit 24 1, control = TRB_TYPE TRB_COMPLETION OR push_bit 24 2\<rparr>"

definition demo_transfer :: xhci_trb where
  "demo_transfer = \<lparr>paramater = 0, status = push_bit 24 13 OR 46, control = TRB_TYPE TRB_TRANSFER\<rparr>"

lemma demo_ring_ready: "ring_ready (demo_ring a 4 COMMAND_RING, 0, 1)" "ring_ready (demo_ring a 8 CTRL_RING, 0, 1)"
  by (simp_all add: ring_ready_def demo_ring_def ring_init_Some)

lemma demo_ring_event:
  "demo_ring a 4 EVENT_RING = \<lparr>trb = replicate 4 zero_trb, mem = replicate 4 zero_trb, base = a, num_trb = 4, rtype = EVENT_RING,
     write_index = 0, read_index = 0, cycle_bit = 1\<rparr>"
  by (simp add: demo_ring_def xhci_ring_init_def)

lemma demo_idle: "session_idle demo_hcd (0, 1) (0, 1)"
  using demo_ring_ready
  by (simp add: session_idle_def demo_hcd_def demo_state_def demo_ring_event event_pending_def Let_def)

lemma demo_answers:
  assumes "event_put e (event_ring h, world h) = Some (r, p)" "\<not> event_wait h" "q = world h"
  shows "answered (demo_hw (answering e)) e q h p"
proof -
  let ?h = "h\<lparr>event_wait := True\<rparr>"
  have "posts (demo_hw (answering e)) e q ?h (?h\<lparr>event_ring := r, world := p\<rparr>) p"
    using assms by (intro posts.now) (simp_all add: demo_hw_def answering_def)
  moreover have "idle (demo_hw (answering e)) h = (False, h\<lparr>world := world h\<rparr>)"
    using assms(2) by (simp add: demo_hw_def answering_def)
  ultimately show ?thesis unfolding answered_def by (intro exI conjI) (assumption, simp)
qed

lemma demo_fields: "world demo_hcd = (0, 1)" "\<not> event_wait demo_hcd" "event_ring demo_hcd = demo_ring 0x1000 4 EVENT_RING"
  "cmd_ring demo_hcd = demo_ring 0x2000 4 COMMAND_RING"
  by (simp_all add: demo_hcd_def demo_state_def)

lemma demo_wakes: "wakes (demo_ring 0x2000 4 COMMAND_RING) (stamped demo_transfer 1)"
  "is_event demo_transfer" "is_event demo_completion"
  by (simp_all add: wakes_def completion_ok_def stamped_def demo_transfer_def demo_completion_def is_event_def TRB_TYPE_def)

lemma interrupt_handles_pending_events_witness:
  "let h = demo_hcd\<lparr>event_ring := (demo_ring 0x1000 4 EVENT_RING)\<lparr>mem := (replicate 4 zero_trb)[0 := stamped demo_transfer 1]\<rparr>\<rparr> in
   xhci_isr (demo_hw silent) h = isr_reference (demo_hw silent) [stamped demo_transfer 1] h \<and>
    (case xhci_isr (demo_hw silent) h of None \<Rightarrow> True | Some h' \<Rightarrow> event_pending (event_ring h') (1, 1) [])"
  unfolding Let_def
proof (rule interrupt_handles_pending_events)
  show "event_pending (event_ring (demo_hcd\<lparr>event_ring := (demo_ring 0x1000 4 EVENT_RING)
      \<lparr>mem := (replicate 4 zero_trb)[0 := stamped demo_transfer 1]\<rparr>\<rparr>)) (1, 1) [stamped demo_transfer 1]"
    by (simp add: demo_ring_event event_pending_def Let_def nth_list_update demo_transfer_def stamped_def TRB_TYPE_def)
qed

text \<open>A ring that is full of transfer events the driver has not seen.\<close>

lemma interrupt_always_returns_witness:
  "let h = demo_hcd\<lparr>event_ring := (demo_ring 0x1000 4 EVENT_RING)\<lparr>mem := replicate 4 (stamped demo_transfer 1)\<rparr>\<rparr> in
   length (visible_events (event_ring h)) = 4 \<and>
   xhci_isr (demo_hw silent) h = isr_outcome (demo_hw silent) (replicate 4 (stamped demo_transfer 1)) h \<and>
   (\<exists>h'. xhci_isr (demo_hw silent) h = Some h')"
proof -
  let ?h = "demo_hcd\<lparr>event_ring := (demo_ring 0x1000 4 EVENT_RING)\<lparr>mem := replicate 4 (stamped demo_transfer 1)\<rparr>\<rparr>"
  have c: "cyc (stamped demo_transfer 1) = 1" by (simp add: demo_transfer_def stamped_def TRB_TYPE_def)
  have v: "visible_events (event_ring ?h) = replicate 4 (stamped demo_transfer 1)"
    by (simp add: visible_events_def demo_ring_event Let_def c numeral_eq_Suc)
  have "isr_ready (demo_hw silent) ?h"
    unfolding isr_ready_def v
    by (auto simp: port_settles_def demo_hw_def ring_geometry_def demo_ring_event XHCI_OP_PORTSC_SPEED_def
        completion_ok_def TRB_TYPE_def list_all_length demo_transfer_def stamped_def)
  from interrupt_always_returns [OF this] show ?thesis unfolding v Let_def length_replicate by blast
qed

lemma demo_silent: "\<exists>w. idle (demo_hw silent) h = (False, h\<lparr>world := w\<rparr>)"
  by (rule exI [of _ "world h"]) (simp add: demo_hw_def silent_def)

lemma reset_device_hangs_witness:
  "\<exists>r. xhci_enqueue_trb (demo_ring 0x2000 4 COMMAND_RING) (reset_device_trb 1 1) = Some r \<and> hc_next (mem r) (0, 1) = None \<and>
    (\<exists>w. silent_for_ever (demo_hw silent) (demo_hcd\<lparr>cmd_ring := r, world := w, event_wait := True\<rparr>)) \<and>
    xhci_cmd_reset_device (demo_hw silent) 1 demo_hcd = None"
proof -
  have "cycle_bit (demo_ring 0x2000 4 COMMAND_RING) = 1" by (simp add: demo_ring_def xhci_ring_init_def)
  with reset_device_hangs [OF demo_idle demo_silent, of 1] show ?thesis by (auto simp: demo_fields)
qed

definition demo_command_ring :: "xhci_trb \<Rightarrow> xhci_ring" where
  "demo_command_ring t = (let r = demo_ring 0x2000 4 COMMAND_RING; ts = (trb r)[0 := stamped t 1] in
     r\<lparr>trb := ts, mem := ts, write_index := 1\<rparr>)"

lemma demo_enqueue: "cycle_bit (demo_ring 0x2000 4 COMMAND_RING) = 1"
  "xhci_enqueue_trb (demo_ring 0x2000 4 COMMAND_RING) (stamped t 1) = Some (demo_command_ring t)"
  by (simp_all add: demo_ring_def demo_command_ring_def xhci_ring_init_def xhci_enqueue_trb_def Let_def)

definition demo_event_ring :: "xhci_trb \<Rightarrow> xhci_ring" where
  "demo_event_ring e = (demo_ring 0x1000 4 EVENT_RING)\<lparr>mem := (replicate 4 zero_trb)[0 := stamped e 1]\<rparr>"

lemma demo_post: "event_put e (demo_ring 0x1000 4 EVENT_RING, 0, 1) = Some (demo_event_ring e, 1, 1)"
  by (simp add: event_put_def demo_event_ring_def demo_ring_event)

lemma demo_completes: "wakes (demo_command_ring t) (stamped demo_completion 1)"
  by (simp add: wakes_def completion_ok_def command_at_def demo_command_ring_def demo_ring_def xhci_ring_init_def
      demo_completion_def stamped_def TRB_TYPE_def Let_def)

lemma enable_slot_returns_the_slot_witness:
  "\<exists>h'. xhci_cmd_enable_slot (demo_hw (answering demo_completion)) demo_hcd =
      Some (if GET_COMP_CODE (status demo_completion) = COMP_SUCCESS then uint (TRB_TO_SLOT_ID (control demo_completion)) else - 1, h') \<and>
    ring_holds (cmd_ring h', 0, 1) [enable_slot_request] \<and> event_pending (event_ring h') (1, 1) [] \<and>
    \<not> event_wait h' \<and> \<not> event_sync h' \<and> device h' = device demo_hcd"
proof (rule enable_slot_returns_the_slot [OF demo_idle])
  show "xhci_enqueue_trb (cmd_ring demo_hcd) (stamped enable_slot_request (cycle_bit (cmd_ring demo_hcd))) =
      Some (demo_command_ring enable_slot_request)"
    by (simp add: demo_fields demo_enqueue)
  show "answered (demo_hw (answering demo_completion)) demo_completion (0, 1)
      (xhci_ring_cmd_doorbell (demo_hw (answering demo_completion)) (demo_hcd\<lparr>cmd_ring := demo_command_ring enable_slot_request\<rparr>)) (1, 1)"
    by (rule demo_answers [where r = "demo_event_ring demo_completion"])
      (simp_all add: xhci_ring_cmd_doorbell_def wr32_def wr_def demo_fields demo_post demo_hw_def)
qed (simp_all add: demo_wakes demo_completes)

lemma early_completion_is_lost_witness:
  "xhci_command_submit (demo_hw (hasty demo_completion)) (stamped enable_slot_request 1) demo_hcd = None"
proof -
  let ?hw = "demo_hw (hasty demo_completion)" and ?r = "demo_command_ring enable_slot_request"
  let ?h = "xhci_ring_cmd_doorbell ?hw (demo_hcd\<lparr>cmd_ring := ?r\<rparr>)"
  have "xhci_command_submit ?hw (stamped enable_slot_request (cycle_bit (cmd_ring demo_hcd))) demo_hcd = None"
  proof (rule early_completion_is_lost [OF demo_idle _ _ refl])
    show "xhci_enqueue_trb (cmd_ring demo_hcd) (stamped enable_slot_request (cycle_bit (cmd_ring demo_hcd))) = Some ?r"
      by (simp add: demo_fields demo_enqueue)
    show "idle ?hw ?h = (True, ?h\<lparr>event_ring := demo_event_ring demo_completion, world := (1, 1)\<rparr>)"
      using demo_post [of demo_completion]
      by (simp add: demo_hw_def hasty_def xhci_ring_cmd_doorbell_def wr32_def wr_def demo_fields demo_ring_event)
    show "event_put demo_completion (event_ring ?h, 0, 1) = Some (demo_event_ring demo_completion, 1, 1)"
      by (simp add: xhci_ring_cmd_doorbell_def demo_fields demo_post)
  next
    fix h :: "(nat \<times> u32) xhci_hcd"
    assume "event_pending (event_ring h) (1, 1) []"
    then have "cyc (mem (event_ring h) ! 0) = 1" by (auto simp: event_pending_def Let_def)
    then have "idle ?hw h = (False, h\<lparr>world := world h\<rparr>)" by (simp add: demo_hw_def hasty_def)
    then show "\<exists>w. idle ?hw h = (False, h\<lparr>world := w\<rparr>)" by blast
  qed (simp_all add: demo_wakes demo_completes, simp add: enable_slot_request_def is_request_def is_link_def TRB_TYPE_def)
  then show ?thesis by (simp add: demo_fields demo_enqueue)
qed

lemma demo_endpoint: "get_ep_ring demo_hcd 1 0 = Some (demo_ring 0x3000 8 CTRL_RING)"
  by (simp add: get_ep_ring_def get_device_def demo_hcd_def demo_state_def demo_device_def)

lemma demo_transfer_wakes: "wakes (cmd_ring demo_hcd) (stamped demo_transfer 1)"
  by (simp add: demo_fields demo_wakes)

text \<open>A device descriptor is asked for; 46 of the 64 bytes are not sent.\<close>

lemma control_transfer_runs_witness:
  "\<exists>h1. control_td 1 0 (get_descriptor 0x100 0 64) 0x5000 64 demo_hcd = Some h1 \<and>
    (\<exists>r'. get_ep_ring h1 1 0 = Some r' \<and> ring_holds (r', 0, 1) (control_requests (get_descriptor 0x100 0 64) 0x5000 64)) \<and>
    (\<exists>h'. xhci_xfer_control (demo_hw (answering demo_transfer)) 1 0 (get_descriptor 0x100 0 64) 0x5000 64 demo_hcd =
      Some (46, h'))"
proof -
  let ?hw = "demo_hw (answering demo_transfer)" and ?req = "get_descriptor 0x100 0 64"
  have n: "5 \<le> unat (num_trb (demo_ring 0x3000 8 CTRL_RING))" by (simp add: demo_ring_def ring_init_Some)
  have z: "xhci_ep_2_index 0 EP_CONTROL_BIDIR = 0" by (simp add: xhci_ep_2_index_def)
  from control_td_holds [OF demo_endpoint demo_ring_ready(2) n, of ?req "0x5000" 64] obtain h1 r' where
    h1: "control_td 1 0 ?req 0x5000 64 demo_hcd = Some h1" "event_ring h1 = event_ring demo_hcd" "event_wait h1 = event_wait demo_hcd" "world h1 = world demo_hcd"
    by blast
  then have w: "world h1 = (0, 1)" by (simp add: demo_fields)
  have "(\<exists>r'. get_ep_ring h1 1 (xhci_ep_2_index 0 EP_CONTROL_BIDIR) = Some r' \<and> ring_holds (r', 0, 1) (control_requests ?req 0x5000 64)) \<and>
    (\<exists>h'. xhci_xfer_control ?hw 1 0 ?req 0x5000 64 demo_hcd =
      Some (if GET_COMP_CODE (status demo_transfer) = COMP_SHORT_PACKET then uint (status demo_transfer AND 0xffffff)
       else if GET_COMP_CODE (status demo_transfer) = COMP_SUCCESS then 0 else - 1, h') \<and>
      event_pending (event_ring h') (1, 1) [] \<and> cmd_ring h' = cmd_ring demo_hcd)"
  proof (rule control_transfer_runs [OF _ demo_ring_ready(2) n demo_idle])
    show "answered ?hw demo_transfer (0, 1) (xhci_ring_ep_doorbell ?hw (word_of_int 1)
        (ucast (xhci_ep_2_index 0 EP_CONTROL_BIDIR) + 1) 0 h1) (1, 1)"
      by (rule demo_answers [where r = "demo_event_ring demo_transfer"])
        (simp_all add: xhci_ring_ep_doorbell_def wr32_def wr_def demo_hw_def h1(2,3) w demo_fields demo_post)
    show "GET_COMP_CODE (status demo_transfer) \<noteq> COMP_STALL_ERROR"
      by (simp add: GET_COMP_CODE_def demo_transfer_def)
  qed (simp_all add: z demo_endpoint h1(1) demo_wakes demo_transfer_wakes)
  then show ?thesis using h1(1) by (auto simp: z GET_COMP_CODE_def demo_transfer_def)
qed

lemma string_descriptor_low_bytes_witness:
  "\<exists>buf'. usb_string_desc_inplace [10, 3, 76, 0, 83, 0, 72, 0, 0, 0] 8 =
      Some (if [10, 3, 76, 0, 83, 0, 72, 0, 0, 0] ! 1 = (3 :: u8) then of_nat 3 else 0, buf') \<and>
    buf' = (if [10, 3, 76, 0, 83, 0, 72, 0, 0, 0] ! 1 = (3 :: u8)
      then map (\<lambda>i. [10, 3, 76, 0, 83, 0, 72, 0, 0, 0] ! (2 + 2 * i)) [0..<3] @ [0] @ drop (3 + 1) [10, 3, 76, 0, 83, 0, 72, 0, 0, 0]
      else [10, 3, 76, 0, 83, 0, 72, 0, 0, 0])"
  by (rule string_descriptor_low_bytes) simp_all

text \<open>A device is allocated in slot 2 and addressed; then its slot context is copied.\<close>

definition demo_allocation :: "((int \<times> (nat \<times> u32) xhci_hcd) \<times> (int \<times> (nat \<times> u32) xhci_hcd) \<times> (nat \<times> u32) xhci_hcd) option" where
  "demo_allocation = do {
     let hw = demo_hw (answering demo_completion);
     (sl, h1) \<leftarrow> xhci_alloc_device hw demo_hcd;
     (r, h2) \<leftarrow> xhci_cmd_address_device hw sl DEFAULT_TYPE h1;
     h3 \<leftarrow> xhci_slot_ctx_copy sl h2;
     Some ((sl, h1), (r, h2), h3)
   }"

lemma demo_allocation_runs: "(case demo_allocation of Some ((sl, _), _) \<Rightarrow> sl = 2 | None \<Rightarrow> False)"
  by code_simp

lemma demo_coherent: "coherent_idle (demo_hw (answering e))"
  by (simp add: coherent_idle_def demo_hw_def answering_def seen_def split: option.split)

lemma slot_context_copy_is_stale_witness:
  "case demo_allocation of None \<Rightarrow> False
   | Some ((sl, h1), (r, h2), h3) \<Rightarrow> (\<exists>d. get_device h3 sl = Some d \<and>
      take 4 (drop (xhci_get_slot_ctx h3 (input_ctx d)) (ctx (input_ctx d))) = [0, 0, 0, 0])"
proof -
  let ?hw = "demo_hw (answering demo_completion)"
  obtain h1 r h2 h3 where run: "demo_allocation = Some ((2, h1), (r, h2), h3)"
    using demo_allocation_runs by (auto split: option.splits prod.splits)
  then have "xhci_alloc_device ?hw demo_hcd = Some (2, h1)" "xhci_cmd_address_device ?hw 2 DEFAULT_TYPE h1 = Some (r, h2)"
      "xhci_slot_ctx_copy 2 h2 = Some h3"
    by (auto simp: demo_allocation_def Let_def split: bind_splits)
  from slot_context_copy_is_stale [OF demo_coherent this(1) _ this(2,3)] show ?thesis by (simp add: run)
qed

text \<open>A controller that halts until it is told to run, with pages of 4096 bytes and no scratchpad.\<close>

definition demo_boot_hw :: "bool xhci_hw" where
  "demo_boot_hw = \<lparr>reg_read = (\<lambda>r w. (case r of R_status \<Rightarrow> (if w then 0 else 1) | R_page_size \<Rightarrow> 1 | _ \<Rightarrow> 0, w)),
     reg_write = (\<lambda>r v w. if r = R_command then v AND 1 = 1 else w),
     xhci_mem_alloc = (\<lambda>al n w. (Some (0x8000, replicate (n div 4) 0), w)), xhci_mem_free = (\<lambda>a w. w),
     dma_buf = (\<lambda>a n w. replicate n 0), idle = silent\<rparr>"

definition demo_boot_state :: "bool xhci_hcd" where "demo_boot_state = (demo_state False)\<lparr>device := []\<rparr>"

lemma demo_boot_runs: "case xhci_init demo_boot_hw 0 demo_boot_state of None \<Rightarrow> False | Some (r, _) \<Rightarrow> r = 0"
  by code_simp

lemma init_prepares_the_session_witness:
  "case xhci_init demo_boot_hw 0 demo_boot_state of None \<Rightarrow> False
   | Some (_, h) \<Rightarrow> ring_ready (cmd_ring h, 0, 1) \<and> session_idle h (0, 1) (0, 1)"
proof -
  obtain h where h: "xhci_init demo_boot_hw 0 demo_boot_state = Some (0, h)"
    using demo_boot_runs by (auto split: option.splits prod.splits)
  have "\<not> event_wait demo_boot_state" "\<not> event_sync demo_boot_state" by (simp_all add: demo_boot_state_def demo_state_def)
  from init_prepares_the_session [OF h this] obtain w b ws w' where
    a: "xhci_mem_alloc demo_boot_hw 64 512 w = (Some (b, ws), w')" "ring_ready (cmd_ring h, 0, 1)"
      "session_idle h (0, 1) (0, 1) \<longleftrightarrow> list_all (\<lambda>e. cyc e = 0) (trbs_of_words ws)" by blast
  have "list_all (\<lambda>x. x = 0) ws" using a(1) by (auto simp: demo_boot_hw_def list_all_length)
  then have "list_all (\<lambda>e. cyc e = 0) (trbs_of_words ws)" by (induction ws rule: trbs_of_words.induct) auto
  with a h show ?thesis by simp
qed

end
