(* ===== verification/Jtag_Chain.thy ===== *)
theory Jtag_Chain
  imports Prelude
begin

text \<open>
  The JTAG chain test \<open>samples/jtag_asd/src/jtag_test.c\<close>. It finds the devices of a scan chain by
  shifting a known pattern behind their identification codes, and then reads the codes again and
  again. The JTAG driver, the bounds-checked memory functions, the clock and the interrupt key are
  parameters (\<open>jtag_os\<close>) over a state \<open>'w\<close>. \<open>None\<close> is an access outside an array, or a test that
  runs for ever.
\<close>

section \<open>Types\<close>

abbreviation (input) MAX_TAPS_SUPPORTED :: nat where "MAX_TAPS_SUPPORTED \<equiv> 16"
abbreviation (input) MAX_TDO_SIZE :: nat where "MAX_TDO_SIZE \<equiv> 2048"
abbreviation (input) DEFAULT_TAP_DATA_PATTERN :: "64 word" where "DEFAULT_TAP_DATA_PATTERN \<equiv> 0xdeadbeefbad4f00d"
abbreviation (input) DEFAULT_IR_SHIFT_SIZE :: u32 where "DEFAULT_IR_SHIFT_SIZE \<equiv> 11"
abbreviation (input) MAX_IR_SHIFT_SIZE :: u32 where "MAX_IR_SHIFT_SIZE \<equiv> 0x400"
abbreviation (input) DEFAULT_NUMBER_TEST_ITERATIONS :: int where "DEFAULT_NUMBER_TEST_ITERATIONS \<equiv> 10"
abbreviation (input) DEFAULT_IR_VALUE :: u32 where "DEFAULT_IR_VALUE \<equiv> 2"
abbreviation (input) DEFAULT_DR_SHIFT_SIZE :: u32 where "DEFAULT_DR_SHIFT_SIZE \<equiv> 32"
abbreviation (input) MAX_DR_SHIFT_SIZE :: u32 where "MAX_DR_SHIFT_SIZE \<equiv> 0x20000"
abbreviation (input) DEFAULT_JTAG_TCK :: u32 where "DEFAULT_JTAG_TCK \<equiv> 1"
abbreviation (input) UNCORE_DISCOVERY_SHIFT_SIZE_IN_BITS :: nat where "UNCORE_DISCOVERY_SHIFT_SIZE_IN_BITS \<equiv> 576"
abbreviation (input) IR_SIG_MASK :: u32 where "IR_SIG_MASK \<equiv> 0x0FFFFFFF"

datatype jtag_mode = SW_MODE | HW_MODE
datatype jtag_state = jtag_tlr | jtag_rti | jtag_shf_dr | jtag_shf_ir

record jtag_test_args =
  human_readable :: "64 word"
  ir_shift_size :: u32
  loop_forever :: bool
  numIterations :: int
  ir_value :: u32
  dr_shift_size :: u32
  manual_mode :: bool
  count_mode :: bool
  random_mode :: bool
  jmode :: jtag_mode
  tck :: u32
  tap_data_pattern :: "u8 list"

text \<open>The array \<open>idcode\<close> is kept as its bytes.\<close>

record uncore_info =
  idcode :: "u8 list"
  numUncores :: u32

definition ir_map :: "(u32 \<times> u32) list" where
  "ir_map = [(0x0E7BB013, 14), (0x00044113, 16), (0x00111113, 16), (0x0E7C5013, 14), (0x00155113, 16),
     (0x00128113, 12), (0x00125113, 16), (0x00138113, 12), (0x0E7D4113, 8), (0x0012d113, 16)]"

section \<open>Services\<close>

text \<open>\<open>memcpy_s dmax n\<close> tells whether the copy of \<open>n\<close> bytes into an object of \<open>dmax\<close> bytes is done;
  \<open>memcmp_s d dmax s n\<close> is the difference it reports. \<open>JTAG_shift n tdi tdo\<close> shifts \<open>n\<close> bits, the first
  of them from \<open>tdi\<close>, and gives what the output buffer \<open>tdo\<close> holds then.\<close>

record 'w jtag_os =
  sizeof_ptr :: nat
  memcpy_s :: "nat \<Rightarrow> nat \<Rightarrow> bool"
  memcmp_s :: "u8 list \<Rightarrow> nat \<Rightarrow> u8 list \<Rightarrow> nat \<Rightarrow> int"
  JTAGHandler :: "'w \<Rightarrow> bool \<times> 'w"
  JTAG_initialize :: "bool \<Rightarrow> 'w \<Rightarrow> bool \<times> 'w"
  JTAG_set_jtag_tck :: "u32 \<Rightarrow> 'w \<Rightarrow> bool \<times> 'w"
  JTAG_deinitialize :: "'w \<Rightarrow> bool \<times> 'w"
  JTAG_set_tap_state :: "jtag_state \<Rightarrow> 'w \<Rightarrow> bool \<times> 'w"
  JTAG_shift :: "u32 \<Rightarrow> u8 list \<Rightarrow> u8 list \<Rightarrow> jtag_state \<Rightarrow> 'w \<Rightarrow> (bool \<times> u8 list) \<times> 'w"
  continue_loop :: "'w \<Rightarrow> bool \<times> 'w"
  rand :: "'w \<Rightarrow> u32 \<times> 'w"

section \<open>Shifting arrays\<close>

fun shift_left_from :: "u8 \<Rightarrow> u8 list \<Rightarrow> u8 list" where
  "shift_left_from carry [] = []"
| "shift_left_from carry (b # bs) =
     (push_bit 1 b OR carry) # shift_left_from (if b AND 0x80 \<noteq> 0 then 1 else 0) bs"

definition shift_left :: "u8 list \<Rightarrow> nat \<Rightarrow> u8 list option" where
  "shift_left buf n = (if n \<le> length buf then Some (shift_left_from 0 (take n buf) @ drop n buf) else None)"

fun shift_right_from :: "u8 \<Rightarrow> u8 list \<Rightarrow> u8 list" where
  "shift_right_from carry [] = []"
| "shift_right_from carry (b # bs) =
     (carry OR drop_bit 1 b) # shift_right_from (if b AND 1 \<noteq> 0 then 0x80 else 0) bs"

text \<open>The loop runs from the last byte to the first.\<close>

definition shift_right :: "u8 list \<Rightarrow> nat \<Rightarrow> u8 list option" where
  "shift_right buf n = (if n \<le> length buf
     then Some (rev (shift_right_from 0 (rev (take n buf))) @ drop n buf) else None)"

primrec repeat_op :: "nat \<Rightarrow> ('a \<Rightarrow> 'a option) \<Rightarrow> 'a \<Rightarrow> 'a option" where
  "repeat_op 0 f x = Some x"
| "repeat_op (Suc n) f x = do { x \<leftarrow> f x; repeat_op n f x }"

section \<open>Finding the devices\<close>

text \<open>The comparison covers \<open>sizeof(haystack)\<close> bytes: the size of a pointer.\<close>

fun find_pattern_from :: "'w jtag_os \<Rightarrow> u8 list \<Rightarrow> nat \<Rightarrow> nat \<Rightarrow> u8 list \<Rightarrow> nat option" where
  "find_pattern_from os haystack i 0 needle = Some 0"
| "find_pattern_from os haystack i (Suc k) needle =
     (if i + sizeof_ptr os \<le> length haystack \<and> sizeof_ptr os \<le> length needle then
        (if memcmp_s os (drop i haystack) (sizeof_ptr os) needle (sizeof_ptr os) = 0 then Some i
         else find_pattern_from os haystack (i + 1) k needle)
      else None)"

definition find_pattern :: "'w jtag_os \<Rightarrow> u8 list \<Rightarrow> nat \<Rightarrow> u8 list \<Rightarrow> nat option" where
  "find_pattern os haystack haystack_size needle = find_pattern_from os haystack 0 (haystack_size div 8) needle"

definition reset_jtag_to_RTI :: "'w jtag_os \<Rightarrow> 'w \<Rightarrow> bool \<times> 'w" where
  "reset_jtag_to_RTI os w =
     (let (ok, w) = JTAG_set_tap_state os jtag_tlr w in
      if \<not> ok then (False, w)
      else let (ok, w) = JTAG_set_tap_state os jtag_rti w in (ok, w))"

definition uncore_discovery ::
    "'w jtag_os \<Rightarrow> uncore_info \<Rightarrow> jtag_test_args \<Rightarrow> 'w \<Rightarrow> (bool \<times> uncore_info \<times> 'w) option" where
  "uncore_discovery os u args w = do {
     let (ok, w) = reset_jtag_to_RTI os w;
     if \<not> ok then Some (False, u, w)
     else do {
       let (ok, w) = JTAG_set_tap_state os jtag_shf_dr w;
       if \<not> ok then Some (False, u, w)
       else do {
         let ((ok, tdo), w) = JTAG_shift os (of_nat UNCORE_DISCOVERY_SHIFT_SIZE_IN_BITS) (tap_data_pattern args)
             (replicate MAX_TDO_SIZE 0xff) jtag_rti w;
         if \<not> ok then Some (False, u, w)
         else do {
           i \<leftarrow> find_pattern os tdo UNCORE_DISCOVERY_SHIFT_SIZE_IN_BITS (tap_data_pattern args);
           let index = i * 8;
           if index = 0 then Some (False, u, w)
           else do {
             let n = index div 32;
             let u = u\<lparr>numUncores := of_nat n\<rparr>;
             if \<not> memcpy_s os (length (idcode u)) (4 * n) then Some (False, u, w)
             else do {
               ids \<leftarrow> memcpy (idcode u) 0 tdo 0 (4 * n);
               Some (True, u\<lparr>idcode := ids\<rparr>, w)
             }
           }
         }
       }
     }
   }"

section \<open>The test\<close>

text \<open>The variables of \<open>jtag_test\<close> that live across iterations, and the global \<open>failures\<close>.\<close>

record 'w jtag_run =
  jworld :: 'w
  pattern :: "u8 list"
  compare_data :: "u8 list"
  total_bits :: u32
  failures :: "64 word"
  printed :: "u8 list list"

datatype jtag_outcome = Next_iteration | Finish | Give_up

definition count_jtag_failure :: "'w jtag_os \<Rightarrow> jtag_test_args \<Rightarrow> 'w jtag_run \<Rightarrow> bool \<times> 'w jtag_run" where
  "count_jtag_failure os args s =
     (if count_mode args then
        (let (go, w) = continue_loop os (jworld s); s = s\<lparr>jworld := w\<rparr> in
         if go then (True, s\<lparr>failures := failures s + 1\<rparr>) else (False, s))
      else (False, s))"

definition jtag_failure :: "'w jtag_os \<Rightarrow> jtag_test_args \<Rightarrow> 'w jtag_run \<Rightarrow> jtag_outcome \<times> 'w jtag_run" where
  "jtag_failure os args s =
     (let (counted, s) = count_jtag_failure os args s in (if counted then Next_iteration else Give_up, s))"

definition ir_size :: "jtag_test_args \<Rightarrow> uncore_info \<Rightarrow> nat" where
  "ir_size args u = unat (numUncores u * ir_shift_size args + 7) div 8"

definition device_ir :: "jtag_test_args \<Rightarrow> nat \<Rightarrow> u8 list \<Rightarrow> u8 list option" where
  "device_ir args n ir_command = do {
     ir_command \<leftarrow> repeat_op (unat (ir_shift_size args)) (\<lambda>b. shift_left b n) ir_command;
     store ir_command 0 (ucast (ir_value args))
   }"

text \<open>\<open>junk\<close> is what the local array \<open>ir_command\<close> holds before it is cleared.\<close>

definition build_ir_command :: "jtag_test_args \<Rightarrow> uncore_info \<Rightarrow> u8 list \<Rightarrow> u8 list option" where
  "build_ir_command args u junk =
     (if ir_size args u \<le> length junk then
        repeat_op (unat (numUncores u)) (device_ir args (ir_size args u)) (blit junk 0 (replicate (ir_size args u) 0))
      else None)"

definition set_pattern :: "'w jtag_os \<Rightarrow> uncore_info \<Rightarrow> 'w jtag_run \<Rightarrow> (bool \<times> 'w jtag_run) option" where
  "set_pattern os u s =
     (let off = unat (4 * numUncores u) in
      if \<not> memcpy_s os (length (compare_data s) - off) (length (pattern s)) then Some (False, s)
      else do {
        cd \<leftarrow> memcpy (compare_data s) off (pattern s) 0 (length (pattern s));
        Some (True, s\<lparr>compare_data := cd\<rparr>)
      })"

text \<open>The bytes of two random integers.\<close>

definition word_bytes :: "u32 \<Rightarrow> u8 list" where
  "word_bytes v = map (\<lambda>k. ucast (drop_bit (8 * k) v)) [0..<4]"

definition random_pattern :: "'w jtag_os \<Rightarrow> 'w jtag_run \<Rightarrow> 'w jtag_run" where
  "random_pattern os s =
     (let (a, w) = rand os (jworld s); (b, w) = rand os w in s\<lparr>jworld := w, pattern := word_bytes a @ word_bytes b\<rparr>)"

text \<open>Manual mode prints the buffer for each device and shifts it by the register size.\<close>

primrec print_registers :: "nat \<Rightarrow> nat \<Rightarrow> u8 list \<Rightarrow> (u8 list list \<times> u8 list) option" where
  "print_registers 0 dr tdo = Some ([], tdo)"
| "print_registers (Suc n) dr tdo = do {
     tdo' \<leftarrow> repeat_op dr (\<lambda>b. shift_right b (length b)) tdo;
     (out, t) \<leftarrow> print_registers n dr tdo';
     Some (tdo # out, t)
   }"

definition jtag_compare :: "'w jtag_os \<Rightarrow> jtag_test_args \<Rightarrow> uncore_info \<Rightarrow> u8 list \<Rightarrow> u32 \<Rightarrow> 'w jtag_run \<Rightarrow>
    (jtag_outcome \<times> 'w jtag_run) option" where
  "jtag_compare os args u tdo number_of_bits s =
     (if manual_mode args then do {
        (out, t) \<leftarrow> print_registers (unat (numUncores u)) (unat (dr_shift_size args)) tdo;
        Some (Finish, s\<lparr>printed := printed s @ out @ [t]\<rparr>)
      }
      else do {
        let n = unat (number_of_bits + 7) div 8;
        if n \<le> length (compare_data s) \<and> length tdo < n then None
        else if memcmp_s os (compare_data s) (length (compare_data s)) tdo n \<noteq> 0 then Some (jtag_failure os args s)
        else Some (Finish, s)
      })"

text \<open>One iteration; \<open>Finish\<close> is an iteration that ran to its end.\<close>

definition jtag_iteration :: "'w jtag_os \<Rightarrow> jtag_test_args \<Rightarrow> uncore_info \<Rightarrow> u8 list \<Rightarrow> 'w jtag_run \<Rightarrow>
    (jtag_outcome \<times> 'w jtag_run) option" where
  "jtag_iteration os args u ir_command s = do {
     let (ok, w) = JTAG_set_tap_state os jtag_shf_ir (jworld s);
     let s = s\<lparr>jworld := w\<rparr>;
     if \<not> ok then Some (jtag_failure os args s)
     else do {
       let number_of_bits = ir_shift_size args * numUncores u;
       let ((ok, _), w) = JTAG_shift os number_of_bits (take (ir_size args u) ir_command) [] jtag_rti (jworld s);
       let s = s\<lparr>jworld := w\<rparr>;
       if \<not> ok then Some (jtag_failure os args s)
       else do {
         let s = s\<lparr>total_bits := total_bits s + number_of_bits\<rparr>;
         let (ok, w) = JTAG_set_tap_state os jtag_shf_dr (jworld s);
         let s = s\<lparr>jworld := w\<rparr>;
         if \<not> ok then Some (jtag_failure os args s)
         else do {
           let number_of_bits = numUncores u * dr_shift_size args + 64;
           (ok, s) \<leftarrow> (if random_mode args then set_pattern os u (random_pattern os s) else Some (True, s));
           if \<not> ok then Some (Give_up, s)
           else do {
             let ((ok, tdo), w) = JTAG_shift os number_of_bits (pattern s) (replicate MAX_TDO_SIZE 0) jtag_rti (jworld s);
             let s = s\<lparr>jworld := w\<rparr>;
             if \<not> ok then Some (jtag_failure os args s)
             else jtag_compare os args u tdo number_of_bits (s\<lparr>total_bits := total_bits s + number_of_bits\<rparr>)
           }
         }
       }
     }
   }"

partial_function (option) jtag_loop :: "'w jtag_os \<Rightarrow> jtag_test_args \<Rightarrow> uncore_info \<Rightarrow> u8 list \<Rightarrow> u32 \<Rightarrow> 'w jtag_run \<Rightarrow>
    (bool \<times> u32 \<times> 'w jtag_run) option" where
  "jtag_loop os args u ir_command iterations s =
     (if loop_forever args \<or> iterations < word_of_int (numIterations args) then do {
        (r, s) \<leftarrow> jtag_iteration os args u ir_command s;
        if r = Give_up then Some (False, iterations, s)
        else if r = Next_iteration then jtag_loop os args u ir_command (iterations + 1) s
        else do {
          let (go, w) = continue_loop os (jworld s);
          let s = s\<lparr>jworld := w\<rparr>;
          if \<not> go then Some (True, iterations, s)
          else jtag_loop os args u ir_command (iterations + 1) s
        }
      } else Some (True, iterations, s))"

declare jtag_loop.simps [code]

definition jtag_test :: "'w jtag_os \<Rightarrow> uncore_info \<Rightarrow> jtag_test_args \<Rightarrow> u8 list \<Rightarrow> 64 word \<Rightarrow> 'w \<Rightarrow>
    (bool \<times> u32 \<times> 'w jtag_run) option" where
  "jtag_test os u args junk fails w = do {
     ir_command \<leftarrow> build_ir_command args u junk;
     let n = unat (4 * numUncores u);
     let s = \<lparr>jworld = w, pattern = tap_data_pattern args, compare_data = replicate 72 0, total_bits = 0,
       failures = fails, printed = []\<rparr>;
     if \<not> memcpy_s os 72 n then Some (False, 0, s)
     else do {
       cd \<leftarrow> memcpy (compare_data s) 0 (idcode u) 0 n;
       (ok, s) \<leftarrow> (if random_mode args then Some (True, s\<lparr>compare_data := cd\<rparr>) else set_pattern os u (s\<lparr>compare_data := cd\<rparr>));
       if \<not> ok then Some (False, 0, s)
       else jtag_loop os args u ir_command 0 s
     }
   }"

section \<open>The command line\<close>

text \<open>An option with the value \<open>strtol\<close> or \<open>strtoull\<close> read; the logging options say whether their
  value is valid.\<close>

datatype jtag_option = Opt_f | Opt_c | Opt_r | Opt_i int | Opt_h | Opt_t u32 | ARG_IR_SIZE u32 | ARG_DR_SIZE u32
  | ARG_IR_VALUE u32 | ARG_DR_OVERSHIFT "64 word" | ARG_LOG_LEVEL bool | ARG_LOG_STREAMS bool | ARG_HELP

definition default_args :: jtag_test_args where
  "default_args = \<lparr>human_readable = DEFAULT_TAP_DATA_PATTERN, ir_shift_size = 0, loop_forever = False,
     numIterations = DEFAULT_NUMBER_TEST_ITERATIONS, ir_value = DEFAULT_IR_VALUE, dr_shift_size = DEFAULT_DR_SHIFT_SIZE,
     manual_mode = False, count_mode = False, random_mode = False, jmode = SW_MODE, tck = DEFAULT_JTAG_TCK,
     tap_data_pattern = []\<rparr>"

fun parse_option :: "jtag_option \<Rightarrow> jtag_test_args \<Rightarrow> jtag_test_args option" where
  "parse_option Opt_f a = Some (a\<lparr>loop_forever := True\<rparr>)"
| "parse_option Opt_c a = Some (a\<lparr>count_mode := True\<rparr>)"
| "parse_option Opt_r a = Some (a\<lparr>random_mode := True\<rparr>)"
| "parse_option (Opt_i n) a = (if n \<le> 0 then None else Some (a\<lparr>numIterations := n\<rparr>))"
| "parse_option Opt_h a = Some (a\<lparr>jmode := HW_MODE\<rparr>)"
| "parse_option (Opt_t n) a = Some (a\<lparr>tck := n\<rparr>)"
| "parse_option (ARG_IR_SIZE n) a = (if n > MAX_IR_SHIFT_SIZE then None else Some (a\<lparr>ir_shift_size := n\<rparr>))"
| "parse_option (ARG_DR_SIZE n) a =
     (if n > MAX_DR_SHIFT_SIZE then None else Some (a\<lparr>dr_shift_size := n, manual_mode := True\<rparr>))"
| "parse_option (ARG_IR_VALUE n) a = Some (a\<lparr>ir_value := n, manual_mode := True\<rparr>)"
| "parse_option (ARG_DR_OVERSHIFT n) a = Some (a\<lparr>human_readable := n\<rparr>)"
| "parse_option (ARG_LOG_LEVEL ok) a = (if ok then Some a else None)"
| "parse_option (ARG_LOG_STREAMS ok) a = (if ok then Some a else None)"
| "parse_option ARG_HELP a = None"

fun parse_options :: "jtag_option list \<Rightarrow> jtag_test_args \<Rightarrow> jtag_test_args option" where
  "parse_options [] a = Some a"
| "parse_options (x # xs) a = do { a \<leftarrow> parse_option x a; parse_options xs a }"

definition pattern_bytes :: "64 word \<Rightarrow> u8 list" where
  "pattern_bytes v = map (\<lambda>k. ucast (drop_bit (8 * k) v)) [0..<8]"

text \<open>\<open>None\<close>: the usage text is shown.\<close>

definition parse_arguments :: "'w jtag_os \<Rightarrow> jtag_option list \<Rightarrow> jtag_test_args option" where
  "parse_arguments os opts = do {
     a \<leftarrow> parse_options opts default_args;
     if unat (dr_shift_size a) > MAX_TDO_SIZE * 8 then None
     else if \<not> memcpy_s os 8 8 then None
     else Some (a\<lparr>tap_data_pattern := pattern_bytes (human_readable a)\<rparr>)
   }"

section \<open>The program\<close>

definition init_jtag :: "'w jtag_os \<Rightarrow> jtag_test_args \<Rightarrow> 'w \<Rightarrow> bool \<times> 'w" where
  "init_jtag os args w =
     (let (ok, w) = JTAGHandler os w in
      if \<not> ok then (False, w)
      else let (ok, w) = JTAG_initialize os (jmode args = SW_MODE) w in
        if \<not> ok then (False, w)
        else if jmode args = HW_MODE then JTAG_set_jtag_tck os (tck args) w
        else (True, w))"

definition first_idcode :: "uncore_info \<Rightarrow> u32" where
  "first_idcode u = ucast (idcode u ! 0) OR push_bit 8 (ucast (idcode u ! 1)) OR push_bit 16 (ucast (idcode u ! 2))
     OR push_bit 24 (ucast (idcode u ! 3))"

definition lookup_ir_size :: "uncore_info \<Rightarrow> u32" where
  "lookup_ir_size u = (case find (\<lambda>(sig, n). first_idcode u AND IR_SIG_MASK = sig) ir_map of
     Some (sig, n) \<Rightarrow> n | None \<Rightarrow> DEFAULT_IR_SHIFT_SIZE)"

definition jtag_session :: "'w jtag_os \<Rightarrow> jtag_test_args \<Rightarrow> u8 list \<Rightarrow> 'w \<Rightarrow> (bool \<times> 'w) option" where
  "jtag_session os args junk w = do {
     (ok, u, w) \<leftarrow> uncore_discovery os \<lparr>idcode = replicate 64 0, numUncores = 0\<rparr> args w;
     if \<not> ok then Some (False, w)
     else do {
       let args = (if ir_shift_size args = 0 then args\<lparr>ir_shift_size := lookup_ir_size u\<rparr> else args);
       let (ok, w) = reset_jtag_to_RTI os w;
       if \<not> ok then Some (False, w)
       else do {
         (ok, _, s) \<leftarrow> jtag_test os u args junk 0 w;
         Some (ok, jworld s)
       }
     }
   }"

definition jtag_test_main :: "'w jtag_os \<Rightarrow> jtag_option list \<Rightarrow> u8 list \<Rightarrow> 'w \<Rightarrow> (int \<times> 'w) option" where
  "jtag_test_main os opts junk w =
     (case parse_arguments os opts of
        None \<Rightarrow> Some (- 1, w)
      | Some args \<Rightarrow> do {
          let (ok, w) = init_jtag os args w;
          if \<not> ok then Some (- 1, w)
          else do {
            (ok, w) \<leftarrow> jtag_session os args junk w;
            let (closed, w) = JTAG_deinitialize os w;
            Some (if ok \<and> closed then 0 else - 1, w)
          }
        })"

end
