(* ===== verification/Jtag_Numbers.thy ===== *)
theory Jtag_Numbers
  imports Jtag_Chain
begin

text \<open>
  What the array operations of the JTAG chain test do to the number an array stands for (least
  significant byte first): shifting doubles and halves it, the instruction sent to the chain repeats the
  instruction of one device, and manual mode prints the number divided by the register size.
\<close>

section \<open>Arrays as numbers\<close>

primrec le_nat :: "u8 list \<Rightarrow> nat" where
  "le_nat [] = 0"
| "le_nat (b # bs) = unat b + 256 * le_nat bs"

lemma le_nat_append: "le_nat (xs @ ys) = le_nat xs + 256 ^ length xs * le_nat ys"
  by (induction xs) (simp_all add: algebra_simps)

lemma le_nat_zeros [simp]: "le_nat (replicate n 0) = 0"
  by (induction n) simp_all

lemma mod_low: "(low :: nat) < m \<Longrightarrow> (low + m * x) mod (m * k) = low + m * (x mod k)"
  by (simp add: mod_mult2_eq)

lemma u8_top_bit: "(b :: u8) AND 0x80 \<noteq> 0 \<longleftrightarrow> 128 \<le> unat b"
proof -
  have "b AND 2 ^ 7 \<noteq> 0 \<longleftrightarrow> bit b 7" by (simp only: and_exp_eq_0_iff_not_bit not_not)
  also have "\<dots> \<longleftrightarrow> bit (unat b) 7" by (simp add: bit_unsigned_iff)
  also have "\<dots> \<longleftrightarrow> odd (unat b div 128)" by (simp add: bit_iff_odd)
  also have "\<dots> \<longleftrightarrow> 128 \<le> unat b"
  proof -
    have "unat b div 128 = 0 \<or> unat b div 128 = 1" using unat_u8_less [of b] by linarith
    then show ?thesis by (cases "128 \<le> unat b") auto
  qed
  finally show ?thesis by simp
qed

lemma mod_256_once: "(x :: nat) < 512 \<Longrightarrow> x mod 256 = (if 256 \<le> x then x - 256 else x)"
  by (cases "256 \<le> x") (simp_all add: le_mod_geq)

lemma byte_doubled:
  fixes b c :: u8
  assumes "c = 0 \<or> c = 1"
  shows "unat (push_bit 1 b OR c) + 256 * unat (if b AND 0x80 \<noteq> 0 then 1 else 0 :: u8) = 2 * unat b + unat c"
proof -
  have e: "push_bit 1 b = 2 * b" by (simp add: push_bit_eq_mult)
  have "unat (2 * b) = 2 * unat b mod 256" by (simp add: unat_word_ariths)
  moreover have "unat (2 * b + 1) = (2 * unat b + 1) mod 256" by (simp add: unat_word_ariths mod_simps del: add_Suc_right)
  moreover have "2 * b OR 1 = 2 * b + 1" by (simp add: or_one_eq)
  moreover have "2 * unat b mod 256 = (if 256 \<le> 2 * unat b then 2 * unat b - 256 else 2 * unat b)"
    using unat_u8_less [of b] by (intro mod_256_once) linarith
  moreover have "(2 * unat b + 1) mod 256 = (if 256 \<le> 2 * unat b + 1 then 2 * unat b + 1 - 256 else 2 * unat b + 1)"
    using unat_u8_less [of b] by (intro mod_256_once) linarith
  ultimately show ?thesis
    using assms unfolding e u8_top_bit by (cases "128 \<le> unat b") auto
qed

lemma byte_halved:
  fixes b c :: u8
  assumes "c = 0 \<or> c = 0x80"
  shows "unat (c OR drop_bit 1 b) = unat c + unat b div 2"
    and "unat (if b AND 1 \<noteq> 0 then 0x80 else 0 :: u8) = 128 * (unat b mod 2)"
proof -
  have d: "unat (drop_bit 1 b) = unat b div 2"
    by (simp only: unat_drop_bit_eq) (simp add: drop_bit_eq_div)
  have "unat b div 2 < 128" using unat_u8_less [of b] by linarith
  then have "\<not> bit (unat b div 2) 7" by (simp add: bit_iff_odd)
  then have "128 OR unat b div 2 = 128 + unat b div 2"
    using set_bit_eq_or [of 7 "unat b div 2"] set_bit_eq [of 7 "unat b div 2"] by (simp add: ac_simps or.commute)
  then have "unat (0x80 OR drop_bit 1 b) = 128 + unat b div 2"
    by (simp only: unsigned_or_eq d) simp
  with assms d show "unat (c OR drop_bit 1 b) = unat c + unat b div 2" by auto
  have "odd b \<longleftrightarrow> odd (unat b)"
    using bit_unsigned_iff [of b 0, where 'a = nat] by (simp add: bit_0)
  moreover have "b AND 1 \<noteq> 0 \<longleftrightarrow> odd b"
    by (simp only: and_one_eq even_iff_mod_2_eq_zero)
  ultimately have "b AND 1 \<noteq> 0 \<longleftrightarrow> odd (unat b)" by simp
  then show "unat (if b AND 1 \<noteq> 0 then 0x80 else 0 :: u8) = 128 * (unat b mod 2)"
    by (simp add: mod_2_eq_odd)
qed
section \<open>Shifting\<close>

lemma shift_left_from_length [len_simps, simp]: "length (shift_left_from c bs) = length bs"
  by (induction bs arbitrary: c) simp_all

lemma shift_right_from_length [len_simps, simp]: "length (shift_right_from c bs) = length bs"
  by (induction bs arbitrary: c) simp_all

lemma shift_left_from_value:
  "c = 0 \<or> c = 1 \<Longrightarrow> le_nat (shift_left_from c bs) = (2 * le_nat bs + unat c) mod 256 ^ length bs"
proof (induction bs arbitrary: c)
  case (Cons b bs)
  let ?low = "unat (push_bit 1 b OR c)" and ?c = "if b AND 0x80 \<noteq> 0 then 1 else 0 :: u8"
  have e: "2 * le_nat (b # bs) + unat c = ?low + 256 * (2 * le_nat bs + unat ?c)"
    using byte_doubled [OF Cons.prems, of b] by simp
  have "le_nat (shift_left_from ?c bs) = (2 * le_nat bs + unat ?c) mod 256 ^ length bs"
    by (rule Cons.IH) simp
  moreover have "?low < 256" by simp
  ultimately show ?case
    unfolding e using mod_low [of ?low 256 "2 * le_nat bs + unat ?c" "256 ^ length bs"] by (simp del: push_bit_of_Suc_0)
qed simp

lemma shift_right_from_value:
  "c = 0 \<or> c = 0x80 \<Longrightarrow>
   le_nat (rev (shift_right_from c ys)) = (unat c div 128 * 256 ^ length ys + le_nat (rev ys)) div 2"
proof (induction ys arbitrary: c)
  case (Cons y ys)
  let ?c = "if y AND 1 \<noteq> 0 then 0x80 else 0 :: u8" and ?m = "256 ^ length ys :: nat" and ?v = "le_nat (rev ys)"
  have ih: "le_nat (rev (shift_right_from ?c ys)) = (unat ?c div 128 * ?m + ?v) div 2"
    by (rule Cons.IH) simp
  have c: "unat c div 128 * 256 = 2 * unat c" using Cons.prems by auto
  have y: "unat y = 2 * (unat y div 2) + unat y mod 2" by (rule mult_div_mod_eq [symmetric])
  have "unat c div 128 * 256 ^ length (y # ys) + le_nat (rev (y # ys)) = unat c div 128 * 256 * ?m + ?v + ?m * unat y"
    by (simp add: le_nat_append)
  also have "\<dots> = 2 * unat c * ?m + ?v + ?m * (2 * (unat y div 2) + unat y mod 2)"
    using c y by metis
  also have "\<dots> = (unat y mod 2 * ?m + ?v) + (?m * (unat c + unat y div 2)) * 2"
    by (simp only: distrib_left distrib_right mult.commute mult.left_commute mult.assoc add.commute add.left_commute add.assoc)
  finally have e: "(unat c div 128 * 256 ^ length (y # ys) + le_nat (rev (y # ys))) div 2 =
      (unat y mod 2 * ?m + ?v) div 2 + ?m * (unat c + unat y div 2)"
    by (simp del: mult_div_mod_eq)
  show ?case
    unfolding e using ih byte_halved [OF Cons.prems, of y]
    by (simp add: le_nat_append del: length_Cons)
qed (auto)

lemma shift_left_value:
  assumes "n \<le> length buf"
  shows "\<exists>r. shift_left buf n = Some r \<and> length r = length buf \<and> drop n r = drop n buf \<and>
    le_nat (take n r) = 2 * le_nat (take n buf) mod 256 ^ n"
  using assms shift_left_from_value [of 0 "take n buf"] by (simp add: shift_left_def min_absorb2)

lemma shift_right_value:
  "\<exists>r. shift_right buf (length buf) = Some r \<and> length r = length buf \<and> le_nat r = le_nat buf div 2"
  using shift_right_from_value [of 0 "rev buf"] by (simp add: shift_right_def)

lemma shift_left_times:
  assumes "n \<le> length buf"
  shows "\<exists>r. repeat_op k (\<lambda>b. shift_left b n) buf = Some r \<and> length r = length buf \<and>
    le_nat (take n r) = le_nat (take n buf) * 2 ^ k mod 256 ^ n"
  using assms
proof (induction k arbitrary: buf)
  case (Suc k)
  obtain r where r: "shift_left buf n = Some r" "length r = length buf"
      "le_nat (take n r) = 2 * le_nat (take n buf) mod 256 ^ n"
    using shift_left_value [OF Suc.prems] by blast
  obtain q where q: "repeat_op k (\<lambda>b. shift_left b n) r = Some q" "length q = length r"
      "le_nat (take n q) = le_nat (take n r) * 2 ^ k mod 256 ^ n"
    using Suc.IH [of r] Suc.prems r(2) by auto
  have "le_nat (take n q) = (2 * le_nat (take n buf)) * 2 ^ k mod 256 ^ n"
    unfolding q(3) r(3) by (rule mod_mult_left_eq)
  then show ?case using q(1,2) r(1,2) by (simp add: ac_simps)
next
  case 0
  have "le_nat xs < 256 ^ length xs" for xs
  proof (induction xs)
    case (Cons b xs)
    have "Suc (le_nat xs) * 256 \<le> 256 ^ length xs * 256" using Cons by (intro mult_right_mono) auto
    moreover have "le_nat (b # xs) < Suc (le_nat xs) * 256" using unat_u8_less [of b] by simp
    ultimately show ?case by (simp only: length_Cons power_Suc2)
  qed simp
  from this [of "take n buf"] 0 show ?case by (simp add: min_absorb2)
qed

lemma shift_right_times:
  "\<exists>r. repeat_op k (\<lambda>b. shift_right b (length b)) buf = Some r \<and> length r = length buf \<and> le_nat r = le_nat buf div 2 ^ k"
proof (induction k arbitrary: buf)
  case (Suc k)
  obtain r where r: "shift_right buf (length buf) = Some r" "length r = length buf" "le_nat r = le_nat buf div 2"
    using shift_right_value by blast
  with Suc.IH [of r] show ?case by (auto simp: div_mult2_eq)
qed simp

section \<open>The instruction of the chain\<close>

lemma le_nat_low: "0 < length bs \<Longrightarrow> le_nat bs mod 256 = unat (bs ! 0)"
  by (cases bs) simp_all

lemma le_nat_set_low: "0 < length bs \<Longrightarrow> le_nat (bs[0 := x]) + unat (bs ! 0) = le_nat bs + unat x"
  by (cases bs) simp_all

lemma pow256: "(256 :: nat) ^ n = 2 ^ (8 * n)"
  by (simp add: power_mult)

lemma device_ir_value:
  assumes n: "0 < n" "n \<le> length buf" and s: "8 \<le> unat (ir_shift_size args)"
    and fits: "le_nat (take n buf) * 2 ^ unat (ir_shift_size args) < 256 ^ n"
  shows "\<exists>r. device_ir args n buf = Some r \<and> length r = length buf \<and>
    le_nat (take n r) = le_nat (take n buf) * 2 ^ unat (ir_shift_size args) + unat (ucast (ir_value args) :: u8)"
proof -
  let ?s = "unat (ir_shift_size args)" and ?v = "ucast (ir_value args) :: u8"
  obtain r where r: "repeat_op ?s (\<lambda>b. shift_left b n) buf = Some r" "length r = length buf"
      "le_nat (take n r) = le_nat (take n buf) * 2 ^ ?s"
    using shift_left_times [OF n(2), of ?s] fits by auto
  have l: "0 < length (take n r)" using n r(2) by simp
  have "(256 :: nat) dvd 2 ^ ?s" using le_imp_power_dvd [OF s, of "2 :: nat"] by simp
  then have "le_nat (take n r) mod 256 = 0" using r(3) by simp
  then have "unat (take n r ! 0) = 0" using le_nat_low [OF l] by simp
  then have "le_nat ((take n r)[0 := ?v]) = le_nat (take n r) + unat ?v"
    using le_nat_set_low [OF l, of ?v] by simp
  moreover have "take n (r[0 := ?v]) = (take n r)[0 := ?v]" by (rule take_update_swap)
  moreover have "store r 0 ?v = Some (r[0 := ?v])" using n r(2) by (intro store_Some) auto
  ultimately show ?thesis using r by (simp add: device_ir_def)
qed

definition repeated_ir :: "jtag_test_args \<Rightarrow> nat \<Rightarrow> nat" where
  "repeated_ir args k = (\<Sum>d<k. unat (ucast (ir_value args) :: u8) * 2 ^ (unat (ir_shift_size args) * d))"

lemma repeated_ir_Suc:
  "repeated_ir args (Suc k) = repeated_ir args k * 2 ^ unat (ir_shift_size args) + unat (ucast (ir_value args) :: u8)"
proof -
  have "repeated_ir args (Suc k) = unat (ucast (ir_value args) :: u8) +
      (\<Sum>d<k. unat (ucast (ir_value args) :: u8) * 2 ^ (unat (ir_shift_size args) * Suc d))"
    unfolding repeated_ir_def by (subst sum.lessThan_Suc_shift) simp
  then show ?thesis by (simp only: repeated_ir_def sum_distrib_right) (simp add: power_add ac_simps)
qed

lemma repeated_ir_less:
  assumes "8 \<le> unat (ir_shift_size args)"
  shows "repeated_ir args k < 2 ^ (unat (ir_shift_size args) * k)"
proof (induction k)
  case (Suc k)
  let ?s = "unat (ir_shift_size args)"
  have "(256 :: nat) \<le> 2 ^ ?s" using power_increasing [OF assms, of "2 :: nat"] by simp
  then have "unat (ucast (ir_value args) :: u8) < 2 ^ ?s" using unat_u8_less by (rule less_le_trans [rotated])
  moreover have "Suc (repeated_ir args k) * 2 ^ ?s \<le> 2 ^ (?s * k) * 2 ^ ?s" using Suc by (intro mult_right_mono) auto
  ultimately show ?case by (simp add: repeated_ir_Suc power_add ac_simps)
qed (simp add: repeated_ir_def)

lemma device_ir_times:
  assumes n: "0 < n" "n \<le> length buf" and s: "8 \<le> unat (ir_shift_size args)"
    and "unat (ir_shift_size args) * (j + k) \<le> 8 * n" and "le_nat (take n buf) = repeated_ir args j"
  shows "\<exists>r. repeat_op k (device_ir args n) buf = Some r \<and> length r = length buf \<and> le_nat (take n r) = repeated_ir args (j + k)"
  using assms(2,4,5)
proof (induction k arbitrary: j buf)
  case (Suc k)
  let ?s = "unat (ir_shift_size args)"
  have "repeated_ir args j * 2 ^ ?s < 2 ^ (?s * j) * 2 ^ ?s" using repeated_ir_less [OF s, of j] by simp
  also have "\<dots> = 2 ^ (?s * Suc j)" by (simp add: power_add)
  also have "\<dots> \<le> 256 ^ n"
    unfolding pow256 using Suc.prems(2) by (intro power_increasing) (auto simp: algebra_simps)
  finally obtain r where r: "device_ir args n buf = Some r" "length r = length buf"
      "le_nat (take n r) = repeated_ir args (Suc j)"
    using device_ir_value [OF n(1) Suc.prems(1) s] Suc.prems(3) by (auto simp: repeated_ir_Suc)
  have "\<exists>q. repeat_op k (device_ir args n) r = Some q \<and> length q = length r \<and> le_nat (take n q) = repeated_ir args (Suc j + k)"
    using Suc.prems r by (intro Suc.IH) auto
  then show ?case using r by auto
qed simp

lemma build_ir_command_value:
  assumes "length junk = MAX_TDO_SIZE" and "ir_size args u \<le> MAX_TDO_SIZE" and "8 \<le> unat (ir_shift_size args)"
    and "unat (numUncores u) * unat (ir_shift_size args) + 7 < 2 ^ 32"
  shows "\<exists>cmd. build_ir_command args u junk = Some cmd \<and> length cmd = MAX_TDO_SIZE \<and>
    le_nat (take (ir_size args u) cmd) = repeated_ir args (unat (numUncores u))"
proof -
  let ?n = "ir_size args u" and ?k = "unat (numUncores u)" and ?s = "unat (ir_shift_size args)"
  let ?b = "blit junk 0 (replicate ?n 0)"
  have "?n = (?k * ?s + 7) div 8" using assms(4) by (simp add: ir_size_def unat_word_ariths)
  then have fit: "?s * ?k \<le> 8 * ?n" by (simp add: mult.commute)
  have b: "length ?b = MAX_TDO_SIZE" "take ?n ?b = replicate ?n 0" using assms(1,2) by (auto simp: blit_def)
  show ?thesis
  proof (cases "?k = 0")
    case True
    then show ?thesis using assms(1,2) b by (simp add: build_ir_command_def repeated_ir_def)
  next
    case False
    then have "0 < ?n" using fit assms(3) by (cases "?n = 0") auto
    then have "\<exists>r. repeat_op ?k (device_ir args ?n) ?b = Some r \<and> length r = length ?b \<and> le_nat (take ?n r) = repeated_ir args (0 + ?k)"
      using assms(2,3) fit b by (intro device_ir_times) (auto simp: repeated_ir_def)
    then show ?thesis using assms(1,2) b by (auto simp: build_ir_command_def)
  qed
qed

text \<open>A register of less than eight bits. The byte is written over the bits of the devices before it, so
  of each earlier byte only what has left the lowest byte remains.\<close>

definition narrow_ir :: "jtag_test_args \<Rightarrow> nat \<Rightarrow> nat" where
  "narrow_ir args k = (let v = unat (ucast (ir_value args) :: u8); s = unat (ir_shift_size args) in
     if k = 0 then 0 else v + 256 * (\<Sum>d<k - 1. v div 2 ^ (8 - s) * 2 ^ (s * d)))"

lemma narrow_ir_Suc:
  assumes s: "unat (ir_shift_size args) < 8"
  shows "narrow_ir args (Suc k) =
    narrow_ir args k * 2 ^ unat (ir_shift_size args) div 256 * 256 + unat (ucast (ir_value args) :: u8)"
proof (cases k)
  case (Suc j)
  let ?v = "unat (ucast (ir_value args) :: u8)" and ?s = "unat (ir_shift_size args)"
  let ?h = "?v div 2 ^ (8 - ?s)" and ?w = "\<Sum>d<j. ?v div 2 ^ (8 - ?s) * 2 ^ (?s * d)"
  have "(256 :: nat) = 2 ^ (8 - ?s) * 2 ^ ?s" using s by (simp flip: power_add)
  then have high: "?v * 2 ^ ?s div 256 = ?h" by (simp only:) (rule div_mult_mult2, simp)
  have "(\<Sum>d<Suc j. ?h * 2 ^ (?s * d)) = ?h + (\<Sum>d<j. ?h * 2 ^ (?s * Suc d))"
    by (subst sum.lessThan_Suc_shift) simp
  also have "(\<Sum>d<j. ?h * 2 ^ (?s * Suc d)) = ?w * 2 ^ ?s"
    unfolding sum_distrib_right by (simp add: power_add ac_simps)
  finally have w: "(\<Sum>d<Suc j. ?h * 2 ^ (?s * d)) = ?h + ?w * 2 ^ ?s" .
  have "(?v + 256 * ?w) * 2 ^ ?s div 256 = (?v * 2 ^ ?s + (?w * 2 ^ ?s) * 256) div 256"
    by (simp add: algebra_simps)
  also have "\<dots> = ?h + ?w * 2 ^ ?s" using high div_plus_div_distrib_dvd_right [of 256 "(?w * 2 ^ ?s) * 256" "?v * 2 ^ ?s"]
    by (simp only: dvd_triv_right div_mult_self_is_m zero_less_numeral)
  finally have "(?v + 256 * ?w) * 2 ^ ?s div 256 = ?h + ?w * 2 ^ ?s" .
  then show ?thesis unfolding narrow_ir_def Let_def Suc using w by simp
qed (simp add: narrow_ir_def)

lemma device_ir_narrow:
  assumes n: "n \<le> length buf" "0 < length buf" and s: "unat (ir_shift_size args) < 8"
    and v: "le_nat (take n buf) = narrow_ir args k mod 256 ^ n"
  shows "\<exists>r. device_ir args n buf = Some r \<and> length r = length buf \<and>
    le_nat (take n r) = narrow_ir args (Suc k) mod 256 ^ n"
proof -
  let ?s = "unat (ir_shift_size args)" and ?v = "ucast (ir_value args) :: u8"
  obtain r where r: "repeat_op ?s (\<lambda>b. shift_left b n) buf = Some r" "length r = length buf"
      "le_nat (take n r) = narrow_ir args k * 2 ^ ?s mod 256 ^ n"
    using shift_left_times [OF n(1), of ?s] v by (auto simp: mod_mult_left_eq)
  have "store r 0 ?v = Some (r[0 := ?v])" using n(2) r(2) by (intro store_Some) auto
  moreover have "le_nat (take n (r[0 := ?v])) = narrow_ir args (Suc k) mod 256 ^ n"
  proof (cases n)
    case (Suc j)
    then have l: "0 < length (take n r)" using n r(2) by simp
    let ?x = "narrow_ir args k * 2 ^ ?s"
    have "le_nat ((take n r)[0 := ?v]) = le_nat (take n r) div 256 * 256 + unat ?v"
      using le_nat_set_low [OF l, of ?v] le_nat_low [OF l] div_mult_mod_eq [of "le_nat (take n r)" 256] by linarith
    also have "le_nat (take n r) div 256 = ?x div 256 mod 256 ^ j"
      unfolding r(3) unfolding Suc power_Suc mod_mult2_eq by simp
    also have "?x div 256 mod 256 ^ j * 256 + unat ?v = (?x div 256 * 256 + unat ?v) mod 256 ^ n"
      using unat_u8_less [of ?v] mod_low [of "unat ?v" 256 "?x div 256" "256 ^ j"] by (simp add: Suc ac_simps)
    finally show ?thesis unfolding narrow_ir_Suc [OF s] take_update_swap .
  qed simp
  ultimately show ?thesis using r by (simp add: device_ir_def)
qed

lemma device_ir_narrow_times:
  assumes "n \<le> length buf" "0 < length buf" and s: "unat (ir_shift_size args) < 8"
    and "le_nat (take n buf) = narrow_ir args j mod 256 ^ n"
  shows "\<exists>r. repeat_op k (device_ir args n) buf = Some r \<and> length r = length buf \<and>
    le_nat (take n r) = narrow_ir args (j + k) mod 256 ^ n"
  using assms(1,2,4)
proof (induction k arbitrary: j buf)
  case (Suc k)
  obtain r where r: "device_ir args n buf = Some r" "length r = length buf"
      "le_nat (take n r) = narrow_ir args (Suc j) mod 256 ^ n"
    using device_ir_narrow [OF Suc.prems(1,2) s Suc.prems(3)] by blast
  have "\<exists>q. repeat_op k (device_ir args n) r = Some q \<and> length q = length r \<and>
      le_nat (take n q) = narrow_ir args (Suc j + k) mod 256 ^ n"
    using Suc.prems r by (intro Suc.IH) auto
  then show ?case using r by auto
qed simp

lemma build_ir_command_narrow:
  assumes "length junk = MAX_TDO_SIZE" and "ir_size args u \<le> MAX_TDO_SIZE" and "unat (ir_shift_size args) < 8"
  shows "\<exists>cmd. build_ir_command args u junk = Some cmd \<and> length cmd = MAX_TDO_SIZE \<and>
    le_nat (take (ir_size args u) cmd) = narrow_ir args (unat (numUncores u)) mod 256 ^ ir_size args u"
proof -
  let ?n = "ir_size args u" and ?b = "blit junk 0 (replicate (ir_size args u) 0)"
  have b: "length ?b = MAX_TDO_SIZE" "take ?n ?b = replicate ?n 0" using assms(1,2) by (auto simp: blit_def)
  have "\<exists>r. repeat_op (unat (numUncores u)) (device_ir args ?n) ?b = Some r \<and> length r = length ?b \<and>
      le_nat (take ?n r) = narrow_ir args (0 + unat (numUncores u)) mod 256 ^ ?n"
    using assms(2,3) b by (intro device_ir_narrow_times) (auto simp: narrow_ir_def)
  then show ?thesis using assms(1,2) b by (auto simp: build_ir_command_def)
qed

section \<open>The registers printed\<close>

lemma print_registers_value:
  "\<exists>out t. print_registers n dr tdo = Some (out, t) \<and> length out = n \<and>
    (\<forall>j<Suc n. le_nat ((out @ [t]) ! j) = le_nat tdo div 2 ^ (dr * j))"
proof (induction n arbitrary: tdo)
  case (Suc n)
  obtain r where r: "repeat_op dr (\<lambda>b. shift_right b (length b)) tdo = Some r" "le_nat r = le_nat tdo div 2 ^ dr"
    using shift_right_times by blast
  obtain out t where o: "print_registers n dr r = Some (out, t)" "length out = n"
      "\<forall>j<Suc n. le_nat ((out @ [t]) ! j) = le_nat r div 2 ^ (dr * j)"
    using Suc by blast
  have "le_nat ((tdo # out @ [t]) ! j) = le_nat tdo div 2 ^ (dr * j)" if "j < Suc (Suc n)" for j
    using that o(3) r(2) by (cases j) (auto simp: div_mult2_eq power_add)
  then show ?case using r o by simp
qed simp

text \<open>C28. In manual mode the chain test prints one value for each device and then the overshift, and they are
  the numbers read from the chain: for device \<open>j\<close> the number shifted out is divided by two to the power
  of \<open>j\<close> times the register size, so that the register of the device is at the least significant end.\<close>

theorem manual_mode_prints_registers:
  assumes "manual_mode args"
  shows "\<exists>out. jtag_compare os args u tdo bits s = Some (Finish, s\<lparr>printed := printed s @ out\<rparr>) \<and>
    length out = Suc (unat (numUncores u)) \<and>
    (\<forall>j<Suc (unat (numUncores u)). le_nat (out ! j) = le_nat tdo div 2 ^ (unat (dr_shift_size args) * j))"
proof -
  obtain out t where "print_registers (unat (numUncores u)) (unat (dr_shift_size args)) tdo = Some (out, t)"
      "length out = unat (numUncores u)"
      "\<forall>j<Suc (unat (numUncores u)). le_nat ((out @ [t]) ! j) = le_nat tdo div 2 ^ (unat (dr_shift_size args) * j)"
    using print_registers_value by blast
  with assms show ?thesis
    by (intro exI [of _ "out @ [t]"]) (simp add: jtag_compare_def)
qed

definition quiet_os :: "unit jtag_os" where
  "quiet_os = \<lparr>sizeof_ptr = 4, memcpy_s = (\<lambda>dmax n. n \<le> dmax), memcmp_s = (\<lambda>d dmax s n. 0), JTAGHandler = (\<lambda>w. (True, w)),
     JTAG_initialize = (\<lambda>sw w. (True, w)), JTAG_set_jtag_tck = (\<lambda>n w. (True, w)), JTAG_deinitialize = (\<lambda>w. (True, w)),
     JTAG_set_tap_state = (\<lambda>st w. (True, w)), JTAG_shift = (\<lambda>n tdi tdo st w. ((True, tdo), w)),
     continue_loop = (\<lambda>w. (True, w)), rand = (\<lambda>w. (0, w))\<rparr>"

theorem manual_mode_prints_registers_witness:
  "\<exists>out s'. jtag_compare quiet_os (default_args\<lparr>manual_mode := True, dr_shift_size := 8\<rparr>) \<lparr>idcode = [], numUncores = 1\<rparr>
       [0x78, 0x56] 72 \<lparr>jworld = (), pattern = [], compare_data = [], total_bits = 0, failures = 0, printed = []\<rparr> =
     Some (Finish, s') \<and> printed s' = out \<and> length out = 2 \<and> le_nat (out ! 0) = 0x5678 \<and> le_nat (out ! 1) = 0x56"
  using manual_mode_prints_registers [of "default_args\<lparr>manual_mode := True, dr_shift_size := 8\<rparr>" quiet_os
      "\<lparr>idcode = [], numUncores = 1\<rparr>" "[0x78, 0x56]" 72
      "\<lparr>jworld = (), pattern = [], compare_data = [], total_bits = 0, failures = 0, printed = []\<rparr>"]
  by (auto simp: default_args_def All_less_Suc)

end
