(* ===== verification/Jtag_Test.thy ===== *)
theory Jtag_Test
  imports Jtag_Numbers
begin

text \<open>
  The JTAG chain test as a whole: a run returns and stays inside its arrays, whatever the command line
  without \<open>-f\<close> and whatever the chain answers; the devices of a chain that passes the pattern through are
  found; and the instruction register of the chain gets one instruction for each device.
\<close>

section \<open>What the libraries promise\<close>

text \<open>\<open>memcpy_s\<close> refuses to copy more than the destination holds, and the driver fills the buffer it was
  given and nothing else.\<close>

definition jtag_os_laws :: "'w jtag_os \<Rightarrow> bool" where
  "jtag_os_laws os \<longleftrightarrow> sizeof_ptr os \<le> 8 \<and> (\<forall>dmax n. memcpy_s os dmax n \<longrightarrow> n \<le> dmax) \<and>
     (\<forall>n tdi tdo st w. length (snd (fst (JTAG_shift os n tdi tdo st w))) = length tdo)"

lemma jtag_os_lawsD:
  assumes "jtag_os_laws os"
  shows "sizeof_ptr os \<le> 8" "memcpy_s os dmax n \<Longrightarrow> n \<le> dmax"
    "JTAG_shift os k tdi tdo st w = ((ok, out), w') \<Longrightarrow> length out = length tdo"
proof -
  from assms show "sizeof_ptr os \<le> 8" "memcpy_s os dmax n \<Longrightarrow> n \<le> dmax" by (auto simp: jtag_os_laws_def)
  have "length (snd (fst (JTAG_shift os k tdi tdo st w))) = length tdo" using assms by (simp add: jtag_os_laws_def)
  then show "JTAG_shift os k tdi tdo st w = ((ok, out), w') \<Longrightarrow> length out = length tdo" by simp
qed

section \<open>The discovery\<close>

lemma find_pattern_from_defined:
  "i + k + sizeof_ptr os \<le> length hay + 1 \<Longrightarrow> sizeof_ptr os \<le> length needle \<Longrightarrow>
   \<exists>r. find_pattern_from os hay i k needle = Some r"
  by (induction os hay i k needle rule: find_pattern_from.induct) auto

lemma uncore_discovery_defined:
  assumes os: "jtag_os_laws os" and "length (idcode u) = 64" and "length (tap_data_pattern args) = 8"
  shows "\<exists>ok u' w'. uncore_discovery os u args w = Some (ok, u', w') \<and> (ok \<longrightarrow> length (idcode u') = 64 \<and> unat (numUncores u') \<le> 16)"
proof -
  obtain a w1 where r: "reset_jtag_to_RTI os w = (a, w1)" by fastforce
  obtain b w2 where t: "JTAG_set_tap_state os jtag_shf_dr w1 = (b, w2)" by fastforce
  obtain c tdo w3 where s: "JTAG_shift os (of_nat UNCORE_DISCOVERY_SHIFT_SIZE_IN_BITS) (tap_data_pattern args)
      (replicate MAX_TDO_SIZE 0xff) jtag_rti w2 = ((c, tdo), w3)" by (metis prod.exhaust)
  have tdo: "length tdo = MAX_TDO_SIZE" using jtag_os_lawsD(3) [OF os s] by simp
  obtain i where i: "find_pattern os tdo UNCORE_DISCOVERY_SHIFT_SIZE_IN_BITS (tap_data_pattern args) = Some i"
    unfolding find_pattern_def
    using find_pattern_from_defined [of 0 "UNCORE_DISCOVERY_SHIFT_SIZE_IN_BITS div 8" os tdo "tap_data_pattern args"]
      tdo jtag_os_lawsD(1) [OF os] assms(3) by auto
  have n: "4 * (i * 8 div 32) \<le> 64" if "memcpy_s os 64 (4 * (i * 8 div 32))" using jtag_os_lawsD(2) [OF os that] .
  then have "unat (of_nat (i * 8 div 32) :: u32) \<le> 16" if "memcpy_s os 64 (4 * (i * 8 div 32))"
    using that by (simp add: unat_of_nat)
  with n r t s i tdo assms(2) show ?thesis
    by (auto simp: uncore_discovery_def Let_def)
qed

section \<open>The iterations\<close>

definition run_ok :: "'w jtag_run \<Rightarrow> bool" where
  "run_ok s \<longleftrightarrow> length (pattern s) = 8 \<and> length (compare_data s) = 72"

lemma run_ok_frame [wf_intros]:
  "run_ok s \<Longrightarrow> run_ok (s\<lparr>jworld := w\<rparr>)" "run_ok s \<Longrightarrow> run_ok (s\<lparr>total_bits := t\<rparr>)"
  "run_ok s \<Longrightarrow> run_ok (s\<lparr>failures := f\<rparr>)" "run_ok s \<Longrightarrow> run_ok (s\<lparr>printed := p\<rparr>)"
  by (simp_all add: run_ok_def)

lemma jtag_failure_ok [wf_intros]: "run_ok s \<Longrightarrow> run_ok (snd (jtag_failure os args s))"
  by (auto simp: jtag_failure_def count_jtag_failure_def Let_def run_ok_def split: prod.splits)

lemma random_pattern_ok [wf_intros]: "run_ok s \<Longrightarrow> run_ok (random_pattern os s)"
  by (simp add: random_pattern_def run_ok_def word_bytes_def Let_def split: prod.splits)

lemma set_pattern_ok:
  assumes "jtag_os_laws os" and "run_ok s"
  shows "\<exists>ok s'. set_pattern os u s = Some (ok, s') \<and> run_ok s'"
proof (cases "memcpy_s os (length (compare_data s) - unat (4 * numUncores u)) (length (pattern s))")
  case True
  from jtag_os_lawsD(2) [OF assms(1) True] assms(2) show ?thesis
    using True by (auto simp: set_pattern_def run_ok_def Let_def)
qed (use assms(2) in \<open>auto simp: set_pattern_def Let_def\<close>)

lemma jtag_compare_ok:
  assumes "run_ok s" and "length tdo = MAX_TDO_SIZE"
  shows "\<exists>r s'. jtag_compare os args u tdo bits s = Some (r, s') \<and> run_ok s'"
proof (cases "manual_mode args")
  case True
  obtain out t where "print_registers (unat (numUncores u)) (unat (dr_shift_size args)) tdo = Some (out, t)"
    using print_registers_value by blast
  with True assms show ?thesis by (auto simp: jtag_compare_def intro: wf_intros)
next
  case False
  obtain r s' where "jtag_failure os args s = (r, s')" by fastforce
  moreover from this have "run_ok s'" using jtag_failure_ok [OF assms(1), of os args] by simp
  ultimately show ?thesis using False assms by (auto simp: jtag_compare_def run_ok_def Let_def)
qed

text \<open>Where an iteration fails, it ends as \<open>jtag_failure\<close> says.\<close>

lemma failure_defined: "run_ok s \<Longrightarrow> \<exists>r s'. Some (jtag_failure os args s) = Some (r, s') \<and> run_ok s'"
  using jtag_failure_ok [of s os args] by (cases "jtag_failure os args s") auto

lemma jtag_iteration_ok:
  assumes os: "jtag_os_laws os" and s: "run_ok s"
  shows "\<exists>r s'. jtag_iteration os args u cmd s = Some (r, s') \<and> run_ok s'"
proof -
  obtain a w1 where 1: "JTAG_set_tap_state os jtag_shf_ir (jworld s) = (a, w1)" by fastforce
  let ?n = "ir_shift_size args * numUncores u" and ?m = "numUncores u * dr_shift_size args + 64"
  obtain b o2 w2 where 2: "JTAG_shift os ?n (take (ir_size args u) cmd) [] jtag_rti w1 = ((b, o2), w2)" by (metis prod.exhaust)
  obtain c w3 where 3: "JTAG_set_tap_state os jtag_shf_dr w2 = (c, w3)" by fastforce
  let ?s3 = "s\<lparr>total_bits := total_bits s + ?n, jworld := w3\<rparr>"
  have ok3: "run_ok ?s3" using s by (simp add: run_ok_def)
  obtain d s4 where 4: "(if random_mode args then set_pattern os u (random_pattern os ?s3) else Some (True, ?s3)) = Some (d, s4)"
      "run_ok s4"
    using set_pattern_ok [OF os random_pattern_ok [OF ok3, of os], of u] ok3 by (cases "random_mode args") auto
  obtain e tdo w5 where 5: "JTAG_shift os ?m (pattern s4) (replicate MAX_TDO_SIZE 0) jtag_rti (jworld s4) = ((e, tdo), w5)"
    by (metis prod.exhaust)
  have tdo: "length tdo = MAX_TDO_SIZE" using jtag_os_lawsD(3) [OF os 5] by simp
  let ?s5 = "s4\<lparr>jworld := w5\<rparr>"
  have ok5: "run_ok ?s5" "run_ok (?s5\<lparr>total_bits := total_bits ?s5 + ?m\<rparr>)" using 4(2) by (simp_all add: run_ok_def)
  have f: "\<exists>r s'. Some (jtag_failure os args (s\<lparr>total_bits := t, jworld := w\<rparr>)) = Some (r, s') \<and> run_ok s'" for w and t :: u32
    using s by (intro failure_defined) (simp add: run_ok_def)
  have f1: "\<exists>r s'. Some (jtag_failure os args (s\<lparr>jworld := w\<rparr>)) = Some (r, s') \<and> run_ok s'" for w
    using s by (intro failure_defined) (simp add: run_ok_def)
  show ?thesis
    using 1 2 3 4 5 f f1 failure_defined [OF ok5(1), of os args] jtag_compare_ok [OF ok5(2) tdo, of os args u ?m]
    unfolding jtag_iteration_def Let_def by auto
qed

lemma unat_next: "i < (n :: u32) \<Longrightarrow> unat (i + 1) = Suc (unat i)"
proof -
  assume "i < n"
  then have "unat i + 1 < 2 ^ 32" using unsigned_less [of n, where 'a = nat] by (simp add: word_less_nat_alt)
  then show ?thesis by (simp add: unat_word_ariths)
qed

text \<open>The rounds still to go bound the recursion: the counter is compared with the number of iterations
  as an unsigned integer, and it does not wrap below that bound.\<close>

lemma jtag_loop_returns:
  assumes os: "jtag_os_laws os" and once: "\<not> loop_forever args"
  shows "run_ok s \<Longrightarrow> \<exists>ok n s'. jtag_loop os args u cmd i s = Some (ok, n, s')"
proof (induction "unat (word_of_int (numIterations args) :: u32) - unat i" arbitrary: i s rule: less_induct)
  case less
  let ?N = "word_of_int (numIterations args) :: u32"
  show ?case
  proof (cases "i < ?N")
    case True
    obtain r s1 where it: "jtag_iteration os args u cmd s = Some (r, s1)" "run_ok s1"
      using jtag_iteration_ok [OF os less.prems] by blast
    have "unat (i + 1) = Suc (unat i)"
      using True by (intro unat_next [of i ?N])
    then have m: "unat ?N - unat (i + 1) < unat ?N - unat i" using True by (simp add: word_less_nat_alt)
    obtain go w where go: "continue_loop os (jworld s1) = (go, w)" by fastforce
    have "\<exists>ok n s'. jtag_loop os args u cmd (i + 1) s1 = Some (ok, n, s')"
      by (rule less.hyps [OF m it(2)])
    moreover have "\<exists>ok n s'. jtag_loop os args u cmd (i + 1) (s1\<lparr>jworld := w\<rparr>) = Some (ok, n, s')"
      using it(2) by (intro less.hyps [OF m] wf_intros)
    ultimately show ?thesis
      using it(1) go by (subst jtag_loop.simps) (simp add: True Let_def ex_bool_eq)
  next
    case False
    then show ?thesis using once by (subst jtag_loop.simps) (simp add: ex_bool_eq)
  qed
qed

section \<open>The program returns\<close>

lemma device_ir_defined:
  "n \<le> length buf \<Longrightarrow> 0 < length buf \<Longrightarrow> \<exists>r. device_ir args n buf = Some r \<and> length r = length buf"
  using shift_left_times [of n buf "unat (ir_shift_size args)"] by (auto simp: device_ir_def)

lemma build_ir_command_defined:
  assumes "ir_size args u \<le> length junk" and "0 < length junk"
  shows "\<exists>cmd. build_ir_command args u junk = Some cmd"
proof -
  have "\<exists>r. repeat_op k (device_ir args n) buf = Some r" if "n \<le> length buf" "0 < length buf" for k n buf
    using that
  proof (induction k arbitrary: buf)
    case (Suc k)
    obtain r where "device_ir args n buf = Some r" "length r = length buf" using device_ir_defined [OF Suc.prems] by blast
    moreover from this have "\<exists>q. repeat_op k (device_ir args n) r = Some q" using Suc.prems by (intro Suc.IH) auto
    ultimately show ?case by simp
  qed simp
  from this [of "ir_size args u" "blit junk 0 (replicate (ir_size args u) 0)"] show ?thesis
    using assms by (simp add: build_ir_command_def)
qed

lemma jtag_test_returns:
  assumes os: "jtag_os_laws os" and u: "length (idcode u) = 64" "unat (numUncores u) \<le> 16"
    and args: "\<not> loop_forever args" "length (tap_data_pattern args) = 8" "unat (ir_shift_size args) \<le> 1024"
    and junk: "length junk = MAX_TDO_SIZE"
  shows "\<exists>ok n s. jtag_test os u args junk fails w = Some (ok, n, s)"
proof -
  let ?n = "unat (4 * numUncores u)"
  have prod: "unat (numUncores u) * unat (ir_shift_size args) \<le> 16 * 1024" using u(2) args(3) by (rule mult_le_mono)
  then have "ir_size args u \<le> MAX_TDO_SIZE" by (simp add: ir_size_def unat_word_ariths)
  then obtain cmd where cmd: "build_ir_command args u junk = Some cmd"
    using build_ir_command_defined [of args u junk] junk by auto
  have n: "?n \<le> 64" using u(2) by (simp add: unat_word_ariths)
  let ?s = "\<lparr>jworld = w, pattern = tap_data_pattern args, compare_data = blit (replicate 72 0) 0 (take ?n (idcode u)),
      total_bits = 0, failures = fails, printed = []\<rparr>"
  have ok: "run_ok ?s" using args(2) n u(1) by (simp add: run_ok_def)
  obtain d s where s: "(if random_mode args then Some (True, ?s) else set_pattern os u ?s) = Some (d, s)" "run_ok s"
    using set_pattern_ok [OF os ok, of u] ok by (cases "random_mode args") auto
  obtain r k s' where "jtag_loop os args u cmd 0 s = Some (r, k, s')"
    using jtag_loop_returns [OF os args(1) s(2)] by blast
  with cmd s n u(1) show ?thesis by (auto simp: jtag_test_def Let_def)
qed

lemma parse_option_keeps:
  "parse_option x a = Some b \<Longrightarrow> unat (ir_shift_size a) \<le> 1024 \<Longrightarrow> unat (ir_shift_size b) \<le> 1024"
  "parse_option x a = Some b \<Longrightarrow> x \<noteq> Opt_f \<Longrightarrow> \<not> loop_forever a \<Longrightarrow> \<not> loop_forever b"
  by (cases x; auto split: if_splits simp: word_less_nat_alt)+

lemma parse_options_keeps:
  "parse_options xs a = Some b \<Longrightarrow> unat (ir_shift_size a) \<le> 1024 \<Longrightarrow> unat (ir_shift_size b) \<le> 1024"
  "parse_options xs a = Some b \<Longrightarrow> Opt_f \<notin> set xs \<Longrightarrow> \<not> loop_forever a \<Longrightarrow> \<not> loop_forever b"
proof (induction xs arbitrary: a)
  case (Cons x xs)
  { case 1 with Cons.IH(1) show ?case by (auto split: bind_splits dest: parse_option_keeps(1)) }
  { case 2 with Cons.IH(2) show ?case by (auto split: bind_splits dest: parse_option_keeps(2)) }
qed auto

lemma parse_arguments_bounds:
  assumes "parse_arguments os opts = Some args"
  shows "unat (ir_shift_size args) \<le> 1024" "length (tap_data_pattern args) = 8"
    "Opt_f \<notin> set opts \<Longrightarrow> \<not> loop_forever args"
  using assms parse_options_keeps [of opts default_args]
  by (auto simp: parse_arguments_def default_args_def pattern_bytes_def split: bind_splits if_splits)

lemma lookup_ir_size_bound: "unat (lookup_ir_size u) \<le> 1024"
proof -
  have all: "\<forall>p\<in>set ir_map. unat (snd p) \<le> 1024" by (simp add: ir_map_def)
  show ?thesis
  proof (cases "find (\<lambda>(sig, n). first_idcode u AND IR_SIG_MASK = sig) ir_map")
    case (Some p)
    then obtain i where "i < length ir_map" "p = ir_map ! i" unfolding find_Some_iff by blast
    then have "p \<in> set ir_map" by simp
    with all Some show ?thesis by (auto simp: lookup_ir_size_def split: prod.split)
  qed (simp add: lookup_ir_size_def)
qed

text \<open>C24. A run of the chain test returns, and it stays inside its arrays, for every command line without
  the endless mode and whatever the chain and the driver answer: the options accepted bound the
  instruction of the whole chain by the 2048 bytes of its buffer, no more devices are accepted than the
  tables hold, and the iteration counter reaches its bound.\<close>

theorem jtag_test_main_returns:
  assumes os: "jtag_os_laws os" and "Opt_f \<notin> set opts" and junk: "length junk = MAX_TDO_SIZE"
  shows "\<exists>r w'. jtag_test_main os opts junk w = Some (r, w')"
proof -
  have "\<exists>ok w'. jtag_session os args junk w1 = Some (ok, w')" if p: "parse_arguments os opts = Some args" for args w1
  proof -
    let ?u = "\<lparr>idcode = replicate 64 0, numUncores = 0\<rparr>"
    obtain a u w2 where d: "uncore_discovery os ?u args w1 = Some (a, u, w2)"
        "a \<longrightarrow> length (idcode u) = 64 \<and> unat (numUncores u) \<le> 16"
      using uncore_discovery_defined [OF os _ parse_arguments_bounds(2) [OF p], of ?u w1] by auto
    let ?args = "if ir_shift_size args = 0 then args\<lparr>ir_shift_size := lookup_ir_size u\<rparr> else args"
    obtain b w3 where r: "reset_jtag_to_RTI os w2 = (b, w3)" by fastforce
    have t: "\<exists>ok n s. jtag_test os u ?args junk 0 w3 = Some (ok, n, s)" if a
      using that d(2) parse_arguments_bounds [OF p] assms(2) lookup_ir_size_bound [of u]
      by (intro jtag_test_returns [OF os _ _ _ _ _ junk]) auto
    show ?thesis using d(1) r t by (cases a) (auto simp: jtag_session_def Let_def)
  qed
  note session = this
  show ?thesis
  proof (cases "parse_arguments os opts")
    case (Some args)
    obtain a w1 where i: "init_jtag os args w = (a, w1)" by fastforce
    obtain ok w2 where "jtag_session os args junk w1 = Some (ok, w2)" using session [OF Some] by blast
    with Some i show ?thesis by (auto simp: jtag_test_main_def Let_def split: prod.split)
  qed (simp add: jtag_test_main_def)
qed

text \<open>C26. The instruction that is shifted into the chain, for every size \<open>s\<close> of the instruction register.
  From eight bits on it holds the low byte of the instruction once for each device found, at the
  distance of the size: as a number it is the sum of the byte times two to the power of \<open>d * s\<close> over
  the devices \<open>d\<close>. Below eight bits (the option for the size accepts it) this fails: each new byte is
  written over what is left of the byte before, so only the upper \<open>s\<close> bits of that byte survive, in
  front of the lowest byte. The size of the command is the number of bits of the chain, rounded up to
  bytes; it must fit into the array and not wrap, which up to 16 devices and 1024 bits do.\<close>

theorem ir_command_repeats_instruction:
  assumes "length junk = MAX_TDO_SIZE" and "ir_size args u \<le> MAX_TDO_SIZE"
    and "unat (numUncores u) * unat (ir_shift_size args) + 7 < 2 ^ 32"
  shows "let v = unat (ucast (ir_value args) :: u8); s = unat (ir_shift_size args); k = unat (numUncores u) in
    \<exists>cmd. build_ir_command args u junk = Some cmd \<and> length cmd = MAX_TDO_SIZE \<and>
    le_nat (take (ir_size args u) cmd) =
      (if 8 \<le> s then \<Sum>d<k. v * 2 ^ (s * d)
       else (if k = 0 then 0 else v + 256 * (\<Sum>d<k - 1. v div 2 ^ (8 - s) * 2 ^ (s * d))) mod 256 ^ ir_size args u)"
proof (cases "8 \<le> unat (ir_shift_size args)")
  case True
  with build_ir_command_value [OF assms(1,2) _ assms(3)] show ?thesis by (simp add: repeated_ir_def)
next
  case False
  with build_ir_command_narrow [OF assms(1,2)] show ?thesis
    by (cases "unat (numUncores u) = 0") (simp_all add: narrow_ir_def Let_def)
qed

section \<open>The devices found\<close>

text \<open>\<open>memcmp_s\<close> reports no difference exactly when the bytes compared are the same.\<close>

definition memcmp_law :: "'w jtag_os \<Rightarrow> bool" where
  "memcmp_law os \<longleftrightarrow> (\<forall>d n s. n \<le> length d \<longrightarrow> n \<le> length s \<longrightarrow> (memcmp_s os d n s n = 0 \<longleftrightarrow> take n d = take n s))"

lemma find_pattern_from_first:
  assumes "memcmp_law os" and "sizeof_ptr os \<le> length needle"
    and "i \<le> m" "m < i + k" "m + sizeof_ptr os \<le> length hay"
    and "\<forall>j. i \<le> j \<and> j < m \<longrightarrow> take (sizeof_ptr os) (drop j hay) \<noteq> take (sizeof_ptr os) needle"
    and "take (sizeof_ptr os) (drop m hay) = take (sizeof_ptr os) needle"
  shows "find_pattern_from os hay i k needle = Some m"
  using assms
proof (induction os hay i k needle rule: find_pattern_from.induct)
  case (2 os hay i k needle)
  have c: "memcmp_s os (drop i hay) (sizeof_ptr os) needle (sizeof_ptr os) = 0 \<longleftrightarrow>
      take (sizeof_ptr os) (drop i hay) = take (sizeof_ptr os) needle"
    using "2.prems" by (simp add: memcmp_law_def)
  show ?case
  proof (cases "i = m")
    case True
    then show ?thesis using "2.prems" c by simp
  next
    case False
    then have "find_pattern_from os hay (i + 1) k needle = Some m"
      using "2.prems" c by (intro "2.IH") auto
    moreover have "i + sizeof_ptr os \<le> length hay" using "2.prems" by simp
    moreover have "memcmp_s os (drop i hay) (sizeof_ptr os) needle (sizeof_ptr os) \<noteq> 0"
      using c "2.prems" False by simp
    ultimately show ?thesis using "2.prems"(2) by simp
  qed
qed simp

text \<open>C27. On a chain of \<open>k\<close> devices that shifts out their identification codes and then the pattern that
  was shifted in, the discovery reports \<open>k\<close> devices and saves their codes. It needs that the first bytes of
  the pattern, as many as a pointer has, do not occur before: this is all that is compared of its eight
  bytes.\<close>

theorem discovery_finds_the_chain:
  assumes "jtag_os_laws os" and cmp: "memcmp_law os" and copy: "memcpy_s os 64 (4 * k)"
    and u: "length (idcode u) = 64" and pat: "length (tap_data_pattern args) = 8"
    and k: "0 < k" "length ids = 4 * k" "length (ids @ over) = MAX_TDO_SIZE"
    and over: "take (sizeof_ptr os) over = take (sizeof_ptr os) (tap_data_pattern args)"
    and first: "\<forall>j<4 * k. take (sizeof_ptr os) (drop j (ids @ over)) \<noteq> take (sizeof_ptr os) (tap_data_pattern args)"
    and tap: "reset_jtag_to_RTI os w = (True, w1)" "JTAG_set_tap_state os jtag_shf_dr w1 = (True, w2)"
    and shift: "JTAG_shift os (of_nat UNCORE_DISCOVERY_SHIFT_SIZE_IN_BITS) (tap_data_pattern args)
      (replicate MAX_TDO_SIZE 0xff) jtag_rti w2 = ((True, ids @ over), w3)"
  shows "uncore_discovery os u args w = Some (True, u\<lparr>idcode := blit (idcode u) 0 ids, numUncores := of_nat k\<rparr>, w3)"
proof -
  have n: "4 * k \<le> 64" using jtag_os_lawsD(2) [OF assms(1) copy] .
  have "find_pattern_from os (ids @ over) 0 72 (tap_data_pattern args) = Some (4 * k)"
    using n k over first pat jtag_os_lawsD(1) [OF assms(1)] by (intro find_pattern_from_first [OF cmp]) auto
  then have "find_pattern os (ids @ over) UNCORE_DISCOVERY_SHIFT_SIZE_IN_BITS (tap_data_pattern args) = Some (4 * k)"
    by (simp add: find_pattern_def)
  then show ?thesis
    using n k u copy tap shift by (simp add: uncore_discovery_def Let_def)
qed

section \<open>A chain of one device\<close>

definition demo_chain :: "unit jtag_os" where
  "demo_chain = \<lparr>sizeof_ptr = 4, memcpy_s = (\<lambda>dmax n. n \<le> dmax),
     memcmp_s = (\<lambda>d dmax s n. if take n d = take n s then 0 else 1), JTAGHandler = (\<lambda>w. (True, w)),
     JTAG_initialize = (\<lambda>sw w. (True, w)), JTAG_set_jtag_tck = (\<lambda>n w. (True, w)), JTAG_deinitialize = (\<lambda>w. (True, w)),
     JTAG_set_tap_state = (\<lambda>st w. (True, w)),
     JTAG_shift = (\<lambda>n tdi tdo st w. ((True, take (length tdo) ([0x13, 0xB0, 0x7B, 0x0E] @ tdi @ drop (4 + length tdi) tdo)), w)),
     continue_loop = (\<lambda>w. (True, w)), rand = (\<lambda>w. (7, w))\<rparr>"

lemma demo_chain_laws: "jtag_os_laws demo_chain" "memcmp_law demo_chain"
  by (auto simp: jtag_os_laws_def memcmp_law_def demo_chain_def)

theorem jtag_test_main_returns_witness:
  "jtag_os_laws demo_chain \<and> (\<exists>r w'. jtag_test_main demo_chain [Opt_c, Opt_i 3] (replicate MAX_TDO_SIZE 0) () = Some (r, w'))"
proof
  show "jtag_os_laws demo_chain" by (rule demo_chain_laws)
  then show "\<exists>r w'. jtag_test_main demo_chain [Opt_c, Opt_i 3] (replicate MAX_TDO_SIZE 0) () = Some (r, w')"
    by (rule jtag_test_main_returns) simp_all
qed

text \<open>Two devices: with eleven bits each gets the instruction 2; with four bits the command is \<open>0x02\<close>, so
  that the second device gets 0 and not the instruction.\<close>

theorem ir_command_repeats_instruction_witness:
  "(\<exists>cmd. build_ir_command (default_args\<lparr>ir_shift_size := 11\<rparr>) \<lparr>idcode = [], numUncores = 2\<rparr> (replicate MAX_TDO_SIZE 0) = Some cmd \<and>
     le_nat (take 3 cmd) = 2 + 2 * 2 ^ 11) \<and>
   (\<exists>cmd. build_ir_command (default_args\<lparr>ir_shift_size := 4\<rparr>) \<lparr>idcode = [], numUncores = 2\<rparr> (replicate MAX_TDO_SIZE 0) = Some cmd \<and>
     le_nat (take 1 cmd) = 2)"
proof
  let ?u = "\<lparr>idcode = [], numUncores = 2\<rparr>" and ?j = "replicate MAX_TDO_SIZE 0 :: u8 list"
  have two: "(\<Sum>d<2. f d) = f 0 + f 1" for f :: "nat \<Rightarrow> nat" by (simp add: numeral_2_eq_2)
  let ?a = "default_args\<lparr>ir_shift_size := 11\<rparr>"
  have v: "ir_size ?a ?u = 3" "unat (ir_shift_size ?a) = 11" "unat (numUncores ?u) = 2" "unat (ucast (ir_value ?a) :: u8) = 2"
    by (simp_all add: ir_size_def default_args_def)
  from ir_command_repeats_instruction [of ?j ?a ?u, unfolded v]
  show "\<exists>cmd. build_ir_command ?a ?u ?j = Some cmd \<and> le_nat (take 3 cmd) = 2 + 2 * 2 ^ 11"
    by (auto simp: two Let_def)
  let ?b = "default_args\<lparr>ir_shift_size := 4\<rparr>"
  have w: "ir_size ?b ?u = 1" "unat (ir_shift_size ?b) = 4" "unat (numUncores ?u) = 2" "unat (ucast (ir_value ?b) :: u8) = 2"
    by (simp_all add: ir_size_def default_args_def)
  from ir_command_repeats_instruction [of ?j ?b ?u, unfolded w]
  show "\<exists>cmd. build_ir_command ?b ?u ?j = Some cmd \<and> le_nat (take 1 cmd) = 2"
    by (auto simp: Let_def)
qed

theorem discovery_finds_the_chain_witness:
  "uncore_discovery demo_chain \<lparr>idcode = replicate 64 0, numUncores = 0\<rparr>
     (default_args\<lparr>tap_data_pattern := [0x0D, 0xF0, 0xD4, 0xBA, 0xEF, 0xBE, 0xAD, 0xDE]\<rparr>) () =
   Some (True, \<lparr>idcode = blit (replicate 64 0) 0 [0x13, 0xB0, 0x7B, 0x0E], numUncores = 1\<rparr>, ())"
proof -
  have p: "sizeof_ptr demo_chain = 4" "memcpy_s demo_chain = (\<lambda>dmax n. n \<le> dmax)"
    "JTAG_set_tap_state demo_chain = (\<lambda>st w. (True, w))"
    "\<And>n tdi tdo st w. JTAG_shift demo_chain n tdi tdo st w =
      ((True, take (length tdo) ([0x13, 0xB0, 0x7B, 0x0E] @ tdi @ drop (4 + length tdi) tdo)), w)"
    by (simp_all add: demo_chain_def)
  let ?ids = "[0x13, 0xB0, 0x7B, 0x0E] :: u8 list" and ?pat = "[0x0D, 0xF0, 0xD4, 0xBA, 0xEF, 0xBE, 0xAD, 0xDE] :: u8 list"
  let ?over = "?pat @ replicate 2036 0xff"
  let ?args = "default_args\<lparr>tap_data_pattern := ?pat\<rparr>"
  have first: "\<forall>j<4 * 1. take (sizeof_ptr demo_chain) (drop j (?ids @ ?over)) \<noteq> take (sizeof_ptr demo_chain) (tap_data_pattern ?args)"
  proof (intro allI impI)
    fix j :: nat
    assume "j < 4 * 1"
    then have "j = 0 \<or> j = 1 \<or> j = 2 \<or> j = 3" by auto
    then show "take (sizeof_ptr demo_chain) (drop j (?ids @ ?over)) \<noteq> take (sizeof_ptr demo_chain) (tap_data_pattern ?args)"
      by (elim disjE) (simp_all add: p)
  qed
  have "JTAG_shift demo_chain (of_nat UNCORE_DISCOVERY_SHIFT_SIZE_IN_BITS) (tap_data_pattern ?args) (replicate MAX_TDO_SIZE 0xff)
      jtag_rti () = ((True, ?ids @ ?over), ())"
    unfolding p by (subst take_all) (simp_all add: drop_replicate)
  from discovery_finds_the_chain [OF demo_chain_laws, where k = 1 and u = "\<lparr>idcode = replicate 64 0, numUncores = 0\<rparr>",
      OF _ _ _ _ _ _ _ first _ _ this]
  show ?thesis by (simp add: p reset_jtag_to_RTI_def)
qed

end
