(* ===== verification/Hid_Bridge.thy ===== *)
theory Hid_Bridge
  imports Prelude
begin

text \<open>
  The MCP2221 emulation \<open>samples/mcp2221\<close>: \<open>hid_bridge.c\<close>, which answers the reports of the host, and the
  interrupt handler of \<open>main.c\<close>, which echoes a serial port through a ring buffer. The HID class keeps a
  pointer to the buffer of an answer until the host fetches it, so the four static buffers are a store and
  what is in flight are their names. The ring buffer and the UART are parameters.
\<close>

section \<open>The command protocol\<close>

abbreviation (input) MCP2221_I2C_WR_DATA :: u8 where "MCP2221_I2C_WR_DATA \<equiv> 0x90"
abbreviation (input) MCP2221_I2C_RD_DATA :: u8 where "MCP2221_I2C_RD_DATA \<equiv> 0x91"
abbreviation (input) MCP2221_I2C_GET_DATA :: u8 where "MCP2221_I2C_GET_DATA \<equiv> 0x40"
abbreviation (input) MCP2221_I2C_PARAM_OR_STATUS :: u8 where "MCP2221_I2C_PARAM_OR_STATUS \<equiv> 0x10"
abbreviation (input) MCP2221_SUCCESS :: u8 where "MCP2221_SUCCESS \<equiv> 0"
abbreviation (input) MCP2221_I2C_READ_COMPL :: u8 where "MCP2221_I2C_READ_COMPL \<equiv> 0x55"

text \<open>The static buffer of each handler.\<close>

datatype response_id = Write_response | Param_response | Read_response | Data_response

text \<open>\<open>connected\<close>: a function to send with is registered.\<close>

record mcp2221 =
  i2c_current_state :: u8
  responses :: "response_id \<Rightarrow> u8 list"
  connected :: bool
  awaiting :: "response_id list"

definition power_up :: mcp2221 where
  "power_up = \<lparr>i2c_current_state = 0, responses = (\<lambda>_. replicate 64 0), connected = False, awaiting = []\<rparr>"

definition hid_bridge_init :: "mcp2221 \<Rightarrow> mcp2221" where
  "hid_bridge_init s = s\<lparr>connected := True\<rparr>"

definition hid_bridge_raw_send :: "response_id \<Rightarrow> mcp2221 \<Rightarrow> mcp2221" where
  "hid_bridge_raw_send b s = (if connected s then s\<lparr>awaiting := awaiting s @ [b]\<rparr> else s)"

definition put_response :: "response_id \<Rightarrow> nat \<Rightarrow> u8 list \<Rightarrow> mcp2221 \<Rightarrow> mcp2221 option" where
  "put_response b i bytes s = do {
     buf \<leftarrow> memcpy (responses s b) i bytes 0 (length bytes);
     Some (s\<lparr>responses := (responses s)(b := buf)\<rparr>)
   }"

definition mcp2221_i2c_write_handle :: "u8 list \<Rightarrow> mcp2221 \<Rightarrow> mcp2221 option" where
  "mcp2221_i2c_write_handle command s = do {
     c \<leftarrow> load command 0;
     s \<leftarrow> put_response Write_response 0 [c, 0] s;
     Some ((hid_bridge_raw_send Write_response s)\<lparr>i2c_current_state := MCP2221_SUCCESS\<rparr>)
   }"

definition mcp2221_i2c_param_handle :: "u8 list \<Rightarrow> mcp2221 \<Rightarrow> mcp2221 option" where
  "mcp2221_i2c_param_handle command s = do {
     c \<leftarrow> load command 0;
     s \<leftarrow> put_response Param_response 0 [c, 0] s;
     s \<leftarrow> put_response Param_response 8 [i2c_current_state s] s;
     Some (hid_bridge_raw_send Param_response s)
   }"

definition mcp2221_i2c_read_handle :: "u8 list \<Rightarrow> mcp2221 \<Rightarrow> mcp2221 option" where
  "mcp2221_i2c_read_handle command s = do {
     let s = s\<lparr>i2c_current_state := MCP2221_I2C_READ_COMPL\<rparr>;
     c \<leftarrow> load command 0;
     s \<leftarrow> put_response Read_response 0 [c, 0] s;
     Some (hid_bridge_raw_send Read_response s)
   }"

text \<open>The string \<open>hello world!!\<close>, and the null that \<open>strcpy\<close> copies.\<close>

definition hello :: "u8 list" where
  "hello = [0x68, 0x65, 0x6C, 0x6C, 0x6F, 0x20, 0x77, 0x6F, 0x72, 0x6C, 0x64, 0x21, 0x21]"

definition mcp2221_i2c_get_data_handle :: "u8 list \<Rightarrow> mcp2221 \<Rightarrow> mcp2221 option" where
  "mcp2221_i2c_get_data_handle command s = do {
     c \<leftarrow> load command 0;
     s \<leftarrow> put_response Data_response 0 [c, 0] s;
     s \<leftarrow> put_response Data_response 3 [of_nat (length hello)] s;
     s \<leftarrow> put_response Data_response 4 (hello @ [0]) s;
     Some (hid_bridge_raw_send Data_response s)
   }"

definition hid_bridge_raw_event :: "u8 list \<Rightarrow> mcp2221 \<Rightarrow> mcp2221 option" where
  "hid_bridge_raw_event raw_data s = do {
     c \<leftarrow> load raw_data 0;
     if c = MCP2221_I2C_WR_DATA then mcp2221_i2c_write_handle raw_data s
     else if c = MCP2221_I2C_PARAM_OR_STATUS then mcp2221_i2c_param_handle raw_data s
     else if c = MCP2221_I2C_RD_DATA then mcp2221_i2c_read_handle raw_data s
     else if c = MCP2221_I2C_GET_DATA then mcp2221_i2c_get_data_handle raw_data s
     else Some s
   }"

primrec hid_session :: "u8 list list \<Rightarrow> mcp2221 \<Rightarrow> mcp2221 option" where
  "hid_session [] s = Some s"
| "hid_session (r # rs) s = do { s \<leftarrow> hid_bridge_raw_event r s; hid_session rs s }"

section \<open>What the host may expect\<close>

definition answer_to :: "u8 list \<Rightarrow> response_id option" where
  "answer_to r = (if hd r = MCP2221_I2C_WR_DATA then Some Write_response
     else if hd r = MCP2221_I2C_PARAM_OR_STATUS then Some Param_response
     else if hd r = MCP2221_I2C_RD_DATA then Some Read_response
     else if hd r = MCP2221_I2C_GET_DATA then Some Data_response else None)"

definition state_after :: "u8 list list \<Rightarrow> u8" where
  "state_after rs = foldl (\<lambda>st r. if hd r = MCP2221_I2C_WR_DATA then MCP2221_SUCCESS
     else if hd r = MCP2221_I2C_RD_DATA then MCP2221_I2C_READ_COMPL else st) 0 rs"

text \<open>The state that the last status command among the reports saw.\<close>

definition last_status :: "u8 list list \<Rightarrow> u8" where
  "last_status rs = state_after (rev (tl (dropWhile (\<lambda>r. answer_to r \<noteq> Some Param_response) (rev rs))))"

definition response_packet :: "u8 list list \<Rightarrow> response_id \<Rightarrow> u8 list" where
  "response_packet rs b = (case b of
     Write_response \<Rightarrow> MCP2221_I2C_WR_DATA # replicate 63 0
   | Read_response \<Rightarrow> MCP2221_I2C_RD_DATA # replicate 63 0
   | Data_response \<Rightarrow> [MCP2221_I2C_GET_DATA, 0, 0, 13] @ hello @ replicate 47 0
   | Param_response \<Rightarrow> MCP2221_I2C_PARAM_OR_STATUS # replicate 7 0 @ [last_status rs] @ replicate 55 0)"

definition bridge_inv :: "u8 list list \<Rightarrow> mcp2221 \<Rightarrow> bool" where
  "bridge_inv rs s \<longleftrightarrow> connected s \<and> i2c_current_state s = state_after rs \<and> awaiting s = List.map_filter answer_to rs \<and>
     (\<forall>b. responses s b = (if b \<in> set (awaiting s) then response_packet rs b else replicate 64 0))"

lemma last_status_snoc:
  "last_status (rs @ [r]) = (if answer_to r = Some Param_response then state_after rs else last_status rs)"
  by (simp add: last_status_def)

lemma state_after_snoc:
  "state_after (rs @ [r]) = (if hd r = MCP2221_I2C_WR_DATA then MCP2221_SUCCESS
     else if hd r = MCP2221_I2C_RD_DATA then MCP2221_I2C_READ_COMPL else state_after rs)"
  by (simp add: state_after_def)

lemma map_filter_append: "List.map_filter f (xs @ ys) = List.map_filter f xs @ List.map_filter f ys"
  by (simp add: List.map_filter_def)

lemma packet_snoc:
  "answer_to r \<noteq> Some Param_response \<Longrightarrow> response_packet (rs @ [r]) b = response_packet rs b"
  "b \<noteq> Param_response \<Longrightarrow> response_packet (rs @ [r]) b = response_packet rs b"
  by (simp_all add: response_packet_def last_status_snoc split: response_id.split)

lemma packets_written:
  "w = replicate 64 0 \<or> w = response_packet rs Write_response \<Longrightarrow> blit w 0 [MCP2221_I2C_WR_DATA, 0] = response_packet rs' Write_response"
  "w = replicate 64 0 \<or> w = response_packet rs Read_response \<Longrightarrow> blit w 0 [MCP2221_I2C_RD_DATA, 0] = response_packet rs' Read_response"
  "w = replicate 64 0 \<or> w = response_packet rs Param_response \<Longrightarrow>
     blit (blit w 0 [MCP2221_I2C_PARAM_OR_STATUS, 0]) 8 [last_status rs'] = response_packet rs' Param_response"
  "w = replicate 64 0 \<or> w = response_packet rs Data_response \<Longrightarrow>
     blit (blit (blit w 0 [MCP2221_I2C_GET_DATA, 0]) 3 [13]) 4 (hello @ [0]) = response_packet rs' Data_response"
  by (auto simp: response_packet_def blit_def hello_def numeral_eq_Suc)

lemma bridge_inv_length: "bridge_inv rs s \<Longrightarrow> length (responses s b) = 64"
  by (auto simp: bridge_inv_def response_packet_def hello_def split: response_id.split)

lemma bridge_inv_response: "bridge_inv rs s \<Longrightarrow> responses s b = replicate 64 0 \<or> responses s b = response_packet rs b"
  by (simp add: bridge_inv_def)

lemma raw_event_step:
  assumes inv: "bridge_inv rs s" and r: "r \<noteq> []"
  shows "\<exists>s'. hid_bridge_raw_event r s = Some s' \<and> bridge_inv (rs @ [r]) s'"
proof -
  have l: "load r 0 = Some (hd r)" using r by (simp add: hd_conv_nth)
  note len = bridge_inv_length [OF inv] and old = bridge_inv_response [OF inv]
  have "hd r = MCP2221_I2C_WR_DATA \<or> hd r = MCP2221_I2C_PARAM_OR_STATUS \<or> hd r = MCP2221_I2C_RD_DATA \<or>
      hd r = MCP2221_I2C_GET_DATA \<or> answer_to r = None"
    by (simp add: answer_to_def)
  then consider "hd r = MCP2221_I2C_WR_DATA" | "hd r = MCP2221_I2C_PARAM_OR_STATUS" | "hd r = MCP2221_I2C_RD_DATA"
    | "hd r = MCP2221_I2C_GET_DATA" | "answer_to r = None"
    by (elim disjE)
  then show ?thesis
  proof cases
    case 1
    then have a: "answer_to r = Some Write_response" by (simp add: answer_to_def)
    show ?thesis
      using 1 a l len inv packets_written(1) [OF old, of "rs @ [r]"]
      by (auto simp: hid_bridge_raw_event_def mcp2221_i2c_write_handle_def put_response_def hid_bridge_raw_send_def
          bridge_inv_def state_after_snoc map_filter_append map_filter_simps packet_snoc)
  next
    case 2
    then have a: "answer_to r = Some Param_response" by (simp add: answer_to_def)
    show ?thesis
      using 2 a l len inv packets_written(3) [OF old, of "rs @ [r]"]
      by (auto simp: hid_bridge_raw_event_def mcp2221_i2c_param_handle_def put_response_def hid_bridge_raw_send_def
          bridge_inv_def state_after_snoc last_status_snoc map_filter_append map_filter_simps packet_snoc)
  next
    case 3
    then have a: "answer_to r = Some Read_response" by (simp add: answer_to_def)
    show ?thesis
      using 3 a l len inv packets_written(2) [OF old, of "rs @ [r]"]
      by (auto simp: hid_bridge_raw_event_def mcp2221_i2c_read_handle_def put_response_def hid_bridge_raw_send_def
          bridge_inv_def state_after_snoc map_filter_append map_filter_simps packet_snoc)
  next
    case 4
    then have a: "answer_to r = Some Data_response" by (simp add: answer_to_def)
    have h: "length hello = 13" by (simp add: hello_def)
    show ?thesis
      using 4 a l len inv packets_written(4) [OF old, of "rs @ [r]"]
      by (auto simp: hid_bridge_raw_event_def mcp2221_i2c_get_data_handle_def put_response_def hid_bridge_raw_send_def
          bridge_inv_def state_after_snoc map_filter_append map_filter_simps packet_snoc h)
  next
    case 5
    then show ?thesis
      using l inv
      by (auto simp: hid_bridge_raw_event_def bridge_inv_def state_after_snoc map_filter_append map_filter_simps
          packet_snoc answer_to_def split: if_splits)
  qed
qed

lemma session_inv:
  "bridge_inv rs s \<Longrightarrow> \<forall>r\<in>set qs. r \<noteq> [] \<Longrightarrow> \<exists>s'. hid_session qs s = Some s' \<and> bridge_inv (rs @ qs) s'"
proof (induction qs arbitrary: rs s)
  case (Cons q qs)
  obtain s1 where s1: "hid_bridge_raw_event q s = Some s1" "bridge_inv (rs @ [q]) s1"
    using raw_event_step [OF Cons.prems(1)] Cons.prems(2) by auto
  with Cons.IH [OF s1(2)] Cons.prems(2) show ?case by simp
qed simp

lemma init_inv: "bridge_inv [] (hid_bridge_init power_up)"
  by (simp add: bridge_inv_def hid_bridge_init_def power_up_def state_after_def map_filter_simps)

text \<open>C29. From power-up, whatever reports the host sends, the bridge answers each write, read, status and data
  command once and in order, and nothing else. At any later time the buffers that wait for the host
  hold the packets of these answers, although the handlers reuse them: only the state in a status
  answer can be newer than the command, it is the one that the last status command saw.\<close>

theorem hid_bridge_answers:
  assumes "\<forall>r\<in>set reports. r \<noteq> []"
  shows "\<exists>s. hid_session reports (hid_bridge_init power_up) = Some s \<and> awaiting s = List.map_filter answer_to reports \<and>
    i2c_current_state s = state_after reports \<and> (\<forall>b\<in>set (awaiting s). responses s b = response_packet reports b)"
proof -
  obtain s where "hid_session reports (hid_bridge_init power_up) = Some s" "bridge_inv reports s"
    using session_inv [OF init_inv assms] by auto
  then show ?thesis by (auto simp: bridge_inv_def)
qed

theorem hid_bridge_answers_witness:
  "\<exists>s. hid_session [[0x90, 1], [0x10], [0x94], [0x91], [0x10]] (hid_bridge_init power_up) = Some s \<and>
     awaiting s = [Write_response, Param_response, Read_response, Param_response] \<and> i2c_current_state s = 0x55"
  using hid_bridge_answers [of "[[0x90, 1], [0x10], [0x94], [0x91], [0x10]]"]
  by (auto simp: map_filter_simps answer_to_def state_after_def)

section \<open>The serial echo\<close>

text \<open>\<open>uart_fifo_read n\<close> gives its result and the bytes read; \<open>uart_fifo_fill\<close> how many bytes it took.\<close>

record ('r, 'w) cdc_os =
  ringbuf_space_get :: "'r \<Rightarrow> nat"
  ringbuf_put :: "u8 list \<Rightarrow> 'r \<Rightarrow> nat \<times> 'r"
  ringbuf_get :: "nat \<Rightarrow> 'r \<Rightarrow> u8 list \<times> 'r"
  uart_irq_rx_enable :: "'w \<Rightarrow> 'w"
  uart_irq_rx_disable :: "'w \<Rightarrow> 'w"
  uart_irq_tx_enable :: "'w \<Rightarrow> 'w"
  uart_irq_tx_disable :: "'w \<Rightarrow> 'w"
  uart_irq_update :: "'w \<Rightarrow> bool \<times> 'w"
  uart_irq_is_pending :: "'w \<Rightarrow> bool \<times> 'w"
  uart_irq_rx_ready :: "'w \<Rightarrow> bool \<times> 'w"
  uart_irq_tx_ready :: "'w \<Rightarrow> bool \<times> 'w"
  uart_fifo_read :: "nat \<Rightarrow> 'w \<Rightarrow> (int \<times> u8 list) \<times> 'w"
  uart_fifo_fill :: "u8 list \<Rightarrow> 'w \<Rightarrow> int \<times> 'w"

text \<open>\<open>rx_irq\<close> and \<open>tx_irq\<close>: the interrupts that were enabled last; \<open>bytes_in\<close> and \<open>bytes_out\<close>: what was read
  from the UART and what was given to it.\<close>

record ('r, 'w) cdc_state =
  ringbuf :: 'r
  rx_throttled :: bool
  cdc_uart :: 'w
  rx_irq :: bool
  tx_irq :: bool
  bytes_in :: "u8 list"
  bytes_out :: "u8 list"

text \<open>The result \<open>True\<close> is the \<open>continue\<close> of the source.\<close>

definition cdc_receive :: "('r, 'w) cdc_os \<Rightarrow> ('r, 'w) cdc_state \<Rightarrow> bool \<times> ('r, 'w) cdc_state" where
  "cdc_receive os s =
     (let len = min (ringbuf_space_get os (ringbuf s)) 64 in
      if len = 0 then (True, s\<lparr>cdc_uart := uart_irq_rx_disable os (cdc_uart s), rx_irq := False, rx_throttled := True\<rparr>)
      else
        let ((recv_len, bytes), w) = uart_fifo_read os len (cdc_uart s);
            buffer = (if recv_len < 0 then [] else take (nat recv_len) bytes);
            (rb_len, r) = ringbuf_put os buffer (ringbuf s);
            s = s\<lparr>cdc_uart := w, ringbuf := r, bytes_in := bytes_in s @ buffer\<rparr> in
        (False, if rb_len \<noteq> 0 then s\<lparr>cdc_uart := uart_irq_tx_enable os (cdc_uart s), tx_irq := True\<rparr> else s))"

definition cdc_transmit :: "('r, 'w) cdc_os \<Rightarrow> ('r, 'w) cdc_state \<Rightarrow> ('r, 'w) cdc_state" where
  "cdc_transmit os s =
     (let (buffer, r) = ringbuf_get os 64 (ringbuf s); s = s\<lparr>ringbuf := r\<rparr> in
      if buffer = [] then s\<lparr>cdc_uart := uart_irq_tx_disable os (cdc_uart s), tx_irq := False\<rparr>
      else
        let s = (if rx_throttled s then s\<lparr>cdc_uart := uart_irq_rx_enable os (cdc_uart s), rx_irq := True, rx_throttled := False\<rparr> else s);
            (send_len, w) = uart_fifo_fill os buffer (cdc_uart s) in
        s\<lparr>cdc_uart := w, bytes_out := bytes_out s @ buffer\<rparr>)"

text \<open>One round of the loop.\<close>

definition cdc_round :: "('r, 'w) cdc_os \<Rightarrow> ('r, 'w) cdc_state \<Rightarrow> ('r, 'w) cdc_state" where
  "cdc_round os s =
     (let (ready, w) = (if rx_throttled s then (False, cdc_uart s) else uart_irq_rx_ready os (cdc_uart s));
          s = s\<lparr>cdc_uart := w\<rparr>;
          (skip, s) = (if ready then cdc_receive os s else (False, s)) in
      if skip then s
      else
        let (ready, w) = uart_irq_tx_ready os (cdc_uart s); s = s\<lparr>cdc_uart := w\<rparr> in
        if ready then cdc_transmit os s else s)"

definition cdc_pending :: "('r, 'w) cdc_os \<Rightarrow> ('r, 'w) cdc_state \<Rightarrow> bool \<times> ('r, 'w) cdc_state" where
  "cdc_pending os s =
     (let (up, w) = uart_irq_update os (cdc_uart s); s = s\<lparr>cdc_uart := w\<rparr> in
      if \<not> up then (False, s)
      else let (pend, w) = uart_irq_is_pending os (cdc_uart s) in (pend, s\<lparr>cdc_uart := w\<rparr>))"

partial_function (option) cdc_interrupt_handler ::
    "('r, 'w) cdc_os \<Rightarrow> ('r, 'w) cdc_state \<Rightarrow> ('r, 'w) cdc_state option" where
  "cdc_interrupt_handler os s =
     (let (go, s) = cdc_pending os s in if go then cdc_interrupt_handler os (cdc_round os s) else Some s)"

text \<open>What \<open>main\<close> leaves when the interrupts are set up.\<close>

definition cdc_start :: "('r, 'w) cdc_os \<Rightarrow> 'r \<Rightarrow> 'w \<Rightarrow> ('r, 'w) cdc_state" where
  "cdc_start os r w = \<lparr>ringbuf = r, rx_throttled = False, cdc_uart = uart_irq_rx_enable os w, rx_irq = True, tx_irq = False, bytes_in = [], bytes_out = []\<rparr>"

text \<open>The ring buffer is a queue of 1024 bytes; the UART reads at most what it was asked for.\<close>

definition cdc_laws :: "('r, 'w) cdc_os \<Rightarrow> ('r \<Rightarrow> u8 list) \<Rightarrow> bool" where
  "cdc_laws os cont \<longleftrightarrow>
     (\<forall>r. ringbuf_space_get os r = 1024 - length (cont r)) \<and>
     (\<forall>bs r. fst (ringbuf_put os bs r) = min (length bs) (1024 - length (cont r)) \<and>
        cont (snd (ringbuf_put os bs r)) = cont r @ take (1024 - length (cont r)) bs) \<and>
     (\<forall>n r. fst (ringbuf_get os n r) = take n (cont r) \<and> cont (snd (ringbuf_get os n r)) = drop n (cont r)) \<and>
     (\<forall>n w. fst (fst (uart_fifo_read os n w)) \<le> int n)"

definition cdc_inv :: "('r \<Rightarrow> u8 list) \<Rightarrow> ('r, 'w) cdc_state \<Rightarrow> bool" where
  "cdc_inv cont s \<longleftrightarrow> bytes_in s = bytes_out s @ cont (ringbuf s) \<and> (rx_irq s \<longleftrightarrow> \<not> rx_throttled s) \<and>
     (cont (ringbuf s) \<noteq> [] \<longrightarrow> tx_irq s) \<and> (rx_throttled s \<longrightarrow> cont (ringbuf s) \<noteq> [])"

lemma cdc_inv_uart [wf_intros]: "cdc_inv cont s \<Longrightarrow> cdc_inv cont (s\<lparr>cdc_uart := w\<rparr>)"
  by (simp add: cdc_inv_def)

lemma cdc_receive_inv:
  assumes laws: "cdc_laws os cont" and inv: "cdc_inv cont s" "\<not> rx_throttled s"
  shows "cdc_inv cont (snd (cdc_receive os s))"
proof (cases "length (cont (ringbuf s)) < 1024")
  case True
  let ?sp = "1024 - length (cont (ringbuf s))"
  obtain k bytes w where u: "uart_fifo_read os (min ?sp 64) (cdc_uart s) = ((k, bytes), w)" by (metis prod.exhaust)
  have "k \<le> int (min ?sp 64)" using laws u by (metis cdc_laws_def fst_conv)
  let ?buf = "if k < 0 then [] else take (nat k) bytes"
  have fit: "length ?buf \<le> ?sp" using \<open>k \<le> _\<close> by auto
  obtain n r where p: "ringbuf_put os ?buf (ringbuf s) = (n, r)" by fastforce
  have "n = min (length ?buf) ?sp" using laws p by (metis cdc_laws_def fst_conv)
  moreover have "cont r = cont (ringbuf s) @ take ?sp ?buf" using laws p by (metis cdc_laws_def snd_conv)
  ultimately have n: "n = length ?buf" "cont r = cont (ringbuf s) @ ?buf" using fit by auto
  have sp: "ringbuf_space_get os (ringbuf s) = ?sp" using laws by (simp add: cdc_laws_def)
  let ?s = "s\<lparr>cdc_uart := w, ringbuf := r, bytes_in := bytes_in s @ ?buf\<rparr>"
  have "cdc_receive os s = (False, if n \<noteq> 0 then ?s\<lparr>cdc_uart := uart_irq_tx_enable os w, tx_irq := True\<rparr> else ?s)"
    using True u p unfolding cdc_receive_def sp Let_def by simp
  moreover have "cdc_inv cont ?s" if "n = 0"
    using that n inv by (simp add: cdc_inv_def)
  moreover have "cdc_inv cont (?s\<lparr>cdc_uart := uart_irq_tx_enable os w, tx_irq := True\<rparr>)"
    using n inv by (simp add: cdc_inv_def)
  ultimately show ?thesis by simp
next
  case False
  then have "ringbuf_space_get os (ringbuf s) = 0" "cont (ringbuf s) \<noteq> []" using laws by (auto simp: cdc_laws_def)
  then show ?thesis using inv by (simp add: cdc_receive_def cdc_inv_def)
qed

lemma cdc_transmit_inv:
  assumes laws: "cdc_laws os cont" and inv: "cdc_inv cont s"
  shows "cdc_inv cont (cdc_transmit os s)"
proof -
  obtain b r where g: "ringbuf_get os 64 (ringbuf s) = (b, r)" by fastforce
  have b: "b = take 64 (cont (ringbuf s))" "cont r = drop 64 (cont (ringbuf s))"
    using laws g by (metis cdc_laws_def fst_conv, metis cdc_laws_def snd_conv)
  let ?w = "if rx_throttled s then uart_irq_rx_enable os (cdc_uart s) else cdc_uart s"
  obtain n w where f: "uart_fifo_fill os b ?w = (n, w)" by fastforce
  show ?thesis
    using g b f inv by (auto simp: cdc_transmit_def cdc_inv_def Let_def)
qed

lemma cdc_round_inv:
  assumes laws: "cdc_laws os cont" and inv: "cdc_inv cont s"
  shows "cdc_inv cont (cdc_round os s)"
proof -
  obtain ready w where r: "(if rx_throttled s then (False, cdc_uart s) else uart_irq_rx_ready os (cdc_uart s)) = (ready, w)"
    by fastforce
  let ?s = "s\<lparr>cdc_uart := w\<rparr>"
  obtain skip s1 where s1: "(if ready then cdc_receive os ?s else (False, ?s)) = (skip, s1)" by fastforce
  have nt: "\<not> rx_throttled ?s" if ready using r that by (auto split: if_splits)
  have i1: "cdc_inv cont s1"
  proof (cases ready)
    case True
    then have "s1 = snd (cdc_receive os ?s)" using s1 by simp
    then show ?thesis using cdc_receive_inv [OF laws cdc_inv_uart [OF inv] nt [OF True]] by simp
  next
    case False
    then show ?thesis using s1 cdc_inv_uart [OF inv, of w] by simp
  qed
  obtain t w2 where t: "uart_irq_tx_ready os (cdc_uart s1) = (t, w2)" by fastforce
  show ?thesis
    using r s1 t i1 cdc_inv_uart [OF i1, of w2] cdc_transmit_inv [OF laws cdc_inv_uart [OF i1, of w2]]
    by (simp add: cdc_round_def Let_def)
qed

lemma cdc_pending_inv: "cdc_inv cont s \<Longrightarrow> cdc_inv cont (snd (cdc_pending os s))"
  by (simp add: cdc_pending_def Let_def cdc_inv_def split: prod.split)

text \<open>The UART has nothing pending after at most \<open>k\<close> rounds.\<close>

fun quiet_after :: "('r, 'w) cdc_os \<Rightarrow> nat \<Rightarrow> ('r, 'w) cdc_state \<Rightarrow> bool" where
  "quiet_after os 0 s = (\<not> fst (cdc_pending os s))"
| "quiet_after os (Suc k) s = (\<not> fst (cdc_pending os s) \<or> quiet_after os k (cdc_round os (snd (cdc_pending os s))))"

lemma cdc_handler_inv:
  "cdc_laws os cont \<Longrightarrow> cdc_inv cont s \<Longrightarrow> quiet_after os k s \<Longrightarrow>
   \<exists>s'. cdc_interrupt_handler os s = Some s' \<and> cdc_inv cont s'"
proof (induction k arbitrary: s)
  case 0
  then show ?case
    using cdc_pending_inv [OF 0(2), of os] by (subst cdc_interrupt_handler.simps) (auto simp: Let_def split: prod.splits)
next
  case (Suc k)
  have p: "cdc_inv cont (snd (cdc_pending os s))" by (rule cdc_pending_inv [OF Suc.prems(2)])
  show ?case
  proof (cases "fst (cdc_pending os s)")
    case True
    then have "\<exists>s'. cdc_interrupt_handler os (cdc_round os (snd (cdc_pending os s))) = Some s' \<and> cdc_inv cont s'"
      using Suc.prems by (intro Suc.IH cdc_round_inv [OF _ p]) auto
    with True show ?thesis by (subst cdc_interrupt_handler.simps) (auto simp: Let_def split: prod.split)
  next
    case False
    then show ?thesis using p by (subst cdc_interrupt_handler.simps) (auto simp: Let_def split: prod.split)
  qed
qed

lemma cdc_start_inv: "cont r = [] \<Longrightarrow> cdc_inv cont (cdc_start os r w)"
  by (simp add: cdc_inv_def cdc_start_def)

text \<open>C30. When the UART has nothing pending after some number of rounds, the interrupt handler returns, and
  then the bytes read are the bytes given to the UART and the contents of the ring buffer, in order: the
  buffer never drops one. Reception is off exactly while it is throttled, the buffer holds bytes while it
  is, and while it holds bytes the transmit interrupt that empties it is enabled: the echo cannot get
  stuck.\<close>

theorem serial_echo_never_stuck:
  assumes "cdc_laws os cont" and "cdc_inv cont s" and "quiet_after os k s"
  shows "\<exists>s'. cdc_interrupt_handler os s = Some s' \<and> bytes_in s' = bytes_out s' @ cont (ringbuf s') \<and>
    (rx_irq s' \<longleftrightarrow> \<not> rx_throttled s') \<and> (rx_throttled s' \<longrightarrow> cont (ringbuf s') \<noteq> []) \<and> (cont (ringbuf s') \<noteq> [] \<longrightarrow> tx_irq s')"
  using cdc_handler_inv [OF assms] by (auto simp: cdc_inv_def)

text \<open>A UART with some bytes to read that is served for a number of rounds.\<close>

definition demo_cdc :: "(u8 list, nat \<times> u8 list) cdc_os" where
  "demo_cdc = \<lparr>ringbuf_space_get = (\<lambda>r. 1024 - length r),
     ringbuf_put = (\<lambda>bs r. (min (length bs) (1024 - length r), r @ take (1024 - length r) bs)),
     ringbuf_get = (\<lambda>n r. (take n r, drop n r)),
     uart_irq_rx_enable = (\<lambda>w. w), uart_irq_rx_disable = (\<lambda>w. w), uart_irq_tx_enable = (\<lambda>w. w), uart_irq_tx_disable = (\<lambda>w. w),
     uart_irq_update = (\<lambda>w. (True, w)), uart_irq_is_pending = (\<lambda>(k, i). (0 < k, (k - 1, i))),
     uart_irq_rx_ready = (\<lambda>(k, i). (i \<noteq> [], (k, i))), uart_irq_tx_ready = (\<lambda>w. (True, w)),
     uart_fifo_read = (\<lambda>n (k, i). ((int (length (take n i)), take n i), (k, drop n i))),
     uart_fifo_fill = (\<lambda>bs w. (int (length bs), w))\<rparr>"

theorem serial_echo_never_stuck_witness:
  "cdc_laws demo_cdc id \<and> (\<exists>s'. cdc_interrupt_handler demo_cdc (cdc_start demo_cdc [] (1, [5, 6])) = Some s' \<and>
     bytes_in s' = bytes_out s' @ ringbuf s')"
proof
  show l: "cdc_laws demo_cdc id" by (auto simp: cdc_laws_def demo_cdc_def)
  have "quiet_after demo_cdc 1 (cdc_start demo_cdc [] (1, [5, 6]))" by code_simp
  then have "\<exists>s'. cdc_interrupt_handler demo_cdc (cdc_start demo_cdc [] (1, [5, 6])) = Some s' \<and> bytes_in s' = bytes_out s' @ id (ringbuf s') \<and>
      (rx_irq s' \<longleftrightarrow> \<not> rx_throttled s') \<and> (rx_throttled s' \<longrightarrow> id (ringbuf s') \<noteq> []) \<and> (id (ringbuf s') \<noteq> [] \<longrightarrow> tx_irq s')"
    by (rule serial_echo_never_stuck [OF l cdc_start_inv, rotated]) simp
  then
  show "\<exists>s'. cdc_interrupt_handler demo_cdc (cdc_start demo_cdc [] (1, [5, 6])) = Some s' \<and> bytes_in s' = bytes_out s' @ ringbuf s'"
    by auto
qed

end
