(* ===== verification/Peci_Temp.thy ===== *)
theory Peci_Temp
  imports Prelude
begin

text \<open>
  The PECI temperature monitor \<open>samples/bhs_espi_peci/src/peci.c\<close>. The PECI driver and the lengths and codes
  of its header are parameters (\<open>peci_os\<close>). An \<open>int16_t\<close> is a word of 16 bits read with \<open>sint\<close>.
\<close>

section \<open>The driver\<close>

datatype peci_command = PECI_CMD_PING | PECI_CMD_RD_PKG_CFG0 | PECI_CMD_GET_TEMP0

text \<open>\<open>peci_xfer c tx rx w\<close>: the result and what the receive buffer \<open>rx\<close> holds then.\<close>

record 'w peci_os =
  PECI_GET_TEMP_RD_LEN :: nat
  PECI_RD_PKG_LEN_DWORD :: nat
  PECI_CC_RSP_SUCCESS :: u8
  peci_xfer :: "peci_command \<Rightarrow> u8 list \<Rightarrow> u8 list \<Rightarrow> 'w \<Rightarrow> (int \<times> u8 list) \<times> 'w"

abbreviation (input) PECI_CONFIGINDEX_TJMAX :: u8 where "PECI_CONFIGINDEX_TJMAX \<equiv> 16"
abbreviation (input) PECI_CONFIGHOSTID :: u8 where "PECI_CONFIGHOSTID \<equiv> 0"
abbreviation (input) PECI_CONFIGPARAM :: u8 where "PECI_CONFIGPARAM \<equiv> 0"
abbreviation (input) PECI_SAFE_TEMP :: int where "PECI_SAFE_TEMP \<equiv> 72"

section \<open>The operations\<close>

definition peci_ping_host :: "'w peci_os \<Rightarrow> 'w \<Rightarrow> int \<times> 'w" where
  "peci_ping_host os w = (let ((ret, _), w) = peci_xfer os PECI_CMD_PING [] [] w in (if ret \<noteq> 0 then ret else 0, w))"

text \<open>\<open>rx\<close> is the local response buffer: it keeps its bytes from one try to the next, and what it holds
  before the first is not initialised.\<close>

fun peci_tjmax_loop :: "'w peci_os \<Rightarrow> nat \<Rightarrow> u8 list \<Rightarrow> 'w \<Rightarrow> (u8 list \<times> 'w) option" where
  "peci_tjmax_loop os retries rx w = do {
     let ((ret, rx), w) = peci_xfer os PECI_CMD_RD_PKG_CFG0
       [PECI_CONFIGHOSTID, PECI_CONFIGINDEX_TJMAX, PECI_CONFIGPARAM, PECI_CONFIGPARAM] rx w;
     peci_resp \<leftarrow> load rx 0;
     rx_fcs \<leftarrow> load rx (PECI_RD_PKG_LEN_DWORD os);
     (if peci_resp \<noteq> PECI_CC_RSP_SUCCESS os \<and> 1 < retries then peci_tjmax_loop os (retries - 1) rx w
      else Some (rx, w))
   }"

declare peci_tjmax_loop.simps [simp del]

definition peci_get_tjmax :: "'w peci_os \<Rightarrow> u8 list \<Rightarrow> 'w \<Rightarrow> (int \<times> u8 \<times> 'w) option" where
  "peci_get_tjmax os junk w = do {
     (rx, w) \<leftarrow> peci_tjmax_loop os 3 junk w;
     tjmax \<leftarrow> load rx 3;
     Some (0, tjmax, w)
   }"

text \<open>The second component is what \<open>*temperature\<close> is set to, if it is.\<close>

definition peci_get_temp :: "'w peci_os \<Rightarrow> u8 \<Rightarrow> u8 list \<Rightarrow> 'w \<Rightarrow> (int \<times> int option \<times> 'w) option" where
  "peci_get_temp os cpu_tjmax junk w = do {
     let ((ret, rx), w) = peci_xfer os PECI_CMD_GET_TEMP0 [] junk w;
     if ret \<noteq> 0 then Some (ret, None, w)
     else do {
       rx_fcs \<leftarrow> load rx (PECI_GET_TEMP_RD_LEN os);
       b0 \<leftarrow> load rx 0;
       b1 \<leftarrow> load rx 1;
       let raw_cpu_temp = (ucast b0 OR push_bit 8 (ucast b1) :: u16);
       if sint raw_cpu_temp = 0x8000 then Some (- 1, Some PECI_SAFE_TEMP, w)
       else do {
         let raw_cpu_temp = signed_drop_bit 6 raw_cpu_temp OR 0x7E00;
         Some (0, Some (sint raw_cpu_temp + uint cpu_tjmax), w)
       }
     }
   }"

text \<open>One round of the monitor: the maximum is read again, then the temperature that is printed.\<close>

definition monitor_round :: "'w peci_os \<Rightarrow> u8 \<Rightarrow> u8 list \<Rightarrow> u8 list \<Rightarrow> 'w \<Rightarrow> (u8 \<times> int option \<times> 'w) option" where
  "monitor_round os cpu_tjmax junk1 junk2 w = do {
     (ret, cpu_tjmax, w) \<leftarrow> peci_get_tjmax os junk1 w;
     (ret, temp, w) \<leftarrow> peci_get_temp os cpu_tjmax junk2 w;
     Some (cpu_tjmax, if ret = 0 then temp else None, w)
   }"

section \<open>The temperature\<close>

lemma and_mask_low: "0 \<le> x \<Longrightarrow> x < 512 \<Longrightarrow> x AND push_bit 9 63 = (0 :: int)"
proof (rule bit_eqI)
  fix n
  assume x: "0 \<le> x" "x < 512"
  show "bit (x AND push_bit 9 63) n = bit (0 :: int) n"
  proof (cases "n < 9")
    case True
    then show ?thesis by (simp only: bit_and_iff bit_push_bit_iff) simp
  next
    case False
    have "(2 :: int) ^ 9 \<le> 2 ^ n" using False by (intro power_increasing) auto
    then have "x < 2 ^ n" using x(2) by simp
    then have "x div 2 ^ n = 0" using x(1) by simp
    then have "\<not> bit x n" by (simp add: bit_iff_odd)
    then show ?thesis by (simp only: bit_and_iff) simp
  qed
qed

lemma or_mask_low: "0 \<le> x \<Longrightarrow> x < 512 \<Longrightarrow> x OR 32256 = (x + 32256 :: int)"
  using and_mask_low [of x] disjunctive_add_eq_or [of x "push_bit 9 63"] by simp

lemma or_mask_negative:
  assumes "- 512 \<le> x" and "x < 0"
  shows "x OR 32256 = (x :: int)"
proof -
  have "NOT x AND push_bit 9 63 = 0" using assms by (intro and_mask_low) (auto simp: not_int_def)
  then have "bit (NOT x AND push_bit 9 63) n = bit (0 :: int) n" for n by simp
  then have "bit (push_bit 9 (63 :: int)) n \<Longrightarrow> bit x n" for n
    by (auto simp: bit_and_iff bit_not_iff)
  then have "x OR push_bit 9 63 = x" by (intro bit_eqI) (auto simp: bit_or_iff)
  then show ?thesis by simp
qed

lemma temperature_word:
  "sint (signed_drop_bit 6 (raw :: u16) OR 0x7E00) = (if sint raw < 0 then sint raw div 64 else sint raw div 64 + 32256)"
proof -
  have r: "- (2 ^ 15) \<le> sint raw" "sint raw < 2 ^ 15" using sint_range_size [of raw] by (simp_all add: word_size)
  have s: "sint (signed_drop_bit 6 raw) = sint raw div 64" by (simp add: sint_signed_drop_bit_eq drop_bit_eq_div)
  have c: "sint (0x7E00 :: u16) = 32256" by simp
  have e: "sint (signed_drop_bit 6 raw OR 0x7E00) = sint raw div 64 OR 32256"
    by (simp only: signed_or_eq s c)
  show ?thesis
  proof (cases "sint raw < 0")
    case True
    then show ?thesis unfolding e using r by (simp add: or_mask_negative)
  next
    case False
    then show ?thesis unfolding e using r by (simp add: or_mask_low)
  qed
qed

text \<open>C35. Whatever the sensor answers to a transfer that succeeds, the temperature operation reports success and
  computes from the reading, a signed number of sixty-fourths of a degree below the maximum, the
  maximum plus its quotient by 64 rounded down. This holds for readings below zero; a reading of zero
  or more is off by 32256 degrees. The marker 0x8000 of an invalid reading is taken for a temperature.\<close>

theorem peci_temperature_value:
  assumes "peci_xfer os PECI_CMD_GET_TEMP0 [] junk w = ((0, [b0, b1, fcs]), w')" and "PECI_GET_TEMP_RD_LEN os = 2"
  defines "raw \<equiv> sint (ucast b0 OR push_bit 8 (ucast b1) :: u16)"
  shows "peci_get_temp os cpu_tjmax junk w =
    Some (0, Some ((if raw < 0 then raw div 64 else raw div 64 + 32256) + uint cpu_tjmax), w')"
proof -
  have "raw < 2 ^ 15"
    unfolding raw_def using sint_range_size [of "ucast b0 OR push_bit 8 (ucast b1) :: u16"] by (simp add: word_size)
  then have "raw \<noteq> 0x8000" by simp
  then show ?thesis
    using assms(1,2) temperature_word [of "ucast b0 OR push_bit 8 (ucast b1)"]
    by (simp add: peci_get_temp_def raw_def)
qed

text \<open>A sensor that answers the reading \<open>raw\<close>.\<close>

definition demo_peci :: "u8 \<Rightarrow> u8 \<Rightarrow> unit peci_os" where
  "demo_peci b0 b1 = \<lparr>PECI_GET_TEMP_RD_LEN = 2, PECI_RD_PKG_LEN_DWORD = 5, PECI_CC_RSP_SUCCESS = 0x40,
     peci_xfer = (\<lambda>c tx rx w. ((0, [b0, b1, 0]), w))\<rparr>"

theorem peci_temperature_value_witness:
  "peci_get_temp (demo_peci 0x80 0xFD) 100 [0, 0, 0] () = Some (0, Some 90, ()) \<and>
   peci_get_temp (demo_peci 0x00 0x80) 100 [0, 0, 0] () = Some (0, Some (- 412), ()) \<and>
   peci_get_temp (demo_peci 0 0) 100 [0, 0, 0] () = Some (0, Some 32356, ())"
proof (intro conjI)
  let ?t = "\<lambda>b0 b1. (if sint (ucast b0 OR push_bit 8 (ucast b1) :: u16) < 0 then sint (ucast b0 OR push_bit 8 (ucast b1) :: u16) div 64
      else sint (ucast b0 OR push_bit 8 (ucast b1) :: u16) div 64 + 32256) + uint (100 :: u8)"
  have t: "peci_get_temp (demo_peci b0 b1) 100 [0, 0, 0] () = Some (0, Some (?t b0 b1), ())" for b0 b1
    by (rule peci_temperature_value) (simp_all add: demo_peci_def)
  show "peci_get_temp (demo_peci 0x80 0xFD) 100 [0, 0, 0] () = Some (0, Some 90, ())"
    "peci_get_temp (demo_peci 0x00 0x80) 100 [0, 0, 0] () = Some (0, Some (- 412), ())"
    "peci_get_temp (demo_peci 0 0) 100 [0, 0, 0] () = Some (0, Some 32356, ())"
    unfolding t by simp_all
qed

end
