(* ===== verification/Spec2Isabelle.thy ===== *)
theory Spec2Isabelle
  imports Libutil Board_61 Oem1s_Handler Gpio_Safe Xhci_Session Jtag_Test Hid_Bridge Peci_Temp
begin

text \<open>
  Verification of the firmware logic of the repository: the IPMI stack, the GPIO file system, the xHCI
  host driver, the JTAG chain test and two small protocols.

  \<^bold>\<open>The program.\<close> The repository is a collection of Zephyr sample applications for the LinkedSemi
  chips. Most of them call a driver and print the result; these parts have logic of their own:

  \<^item> \<open>samples/ipmi_openbic/src\<close>, the IPMI firmware of a bridge controller: a management controller that
    answers requests arriving over KCS (from the host) and IPMB (from its peers on I2C), and forwards
    requests between these interfaces. \<open>ipmb/ipmb.c\<close> is the transport: for each channel a table of
    sequence numbers and a circular linked list of the requests sent, frames with two's complement
    checksums, a queue to the sender (\<open>IPMB_TXTask\<close>), the matching of responses with requests
    (\<open>IPMB_RXTask\<close>) and the removal of requests that were never answered (\<open>IPMB_SeqTimeout_handler\<close>).
    \<open>ipmi/ipmi.c\<close> is the IPMI task: the queue of received requests, the dispatch by network function
    and the way of the answer. \<open>ipmi/*_handler.c\<close> are the commands, each works on the message in place.
    \<open>main.c\<close> polls the KCS driver. \<open>lib/\<close> and \<open>pal/\<close> are shared state, helpers and platform hooks. The
    build file compiles the application and chassis handlers; the transport and the storage, sensor,
    OEM and OEM 1S handlers are in the tree for boards that configure them.
  \<^item> \<open>samples/gpio_fs/src\<close>, a character device for GPIO in the manner of Linux: chips, line handles and line
    events behind \<open>ioctl\<close>, and the interrupt that queues the edges of an event.
  \<^item> \<open>samples/dwc3_host/src\<close>, a USB 3 host controller driver: command, transfer and event rings shared
    with the controller, slots and contexts, control, bulk and interrupt transfers, and shell commands.
  \<^item> \<open>samples/jtag_asd/src/jtag_test.c\<close>, a test that finds the devices of a scan chain and reads them back.
  \<^item> \<open>samples/mcp2221/src\<close>, a USB to I2C bridge protocol and a serial echo;
    \<open>samples/bhs_espi_peci/src/peci.c\<close>, a processor temperature monitor.

  \<^bold>\<open>Theories.\<close> In the order of their imports:

  \<^item> \<open>Prelude\<close>: machine integers as words, C arrays as lists with checked access (\<open>load\<close>, \<open>store\<close>,
    \<open>memcpy\<close>), generic lemmas.
  \<^item> \<open>Libutil\<close>: \<open>lib/libutil.c\<close>. Array reversal, endian conversions and bit clearing agree with their
    reference definitions; \<open>uint32_t_byte_reverse\<close> reverses bits.
  \<^item> \<open>Ipmi_Types\<close>: structures, enumerations and constants of \<open>ipmb/ipmb.h\<close>, \<open>ipmi/include/ipmi.h\<close> and
    \<open>ipmi/include/oem_1s_handler.h\<close>; \<open>wf_msg\<close>, the size of the data array of a message.
  \<^item> \<open>Ipmb_Codec\<close>: checksums, \<open>ipmb_encode\<close>, \<open>ipmb_decode\<close>. Encoding and decoding are inverse on the
    messages that fit a frame, and one wrong byte is always noticed.
  \<^item> \<open>Ipmb_Requests\<close>: sequence numbers and the request list at the level of pointers. The
    invariant \<open>pending\<close> relates a heap and a channel to the list of requests they hold; insert,
    find and clear refine operations on that list. The locale \<open>request_store\<close> states the contract
    that the transport needs, and is interpreted on the pointer operations.
  \<^item> \<open>Ipmb_Tasks\<close>: senders, TX and RX task, timeout thread, suspend and resume, initialisation. A
    request that is sent, answered by the peer and received goes to the queue of its requester; a
    request that cannot be written is queued again; a corrupted frame is ignored.
  \<^item> \<open>Ipmb_Channels\<close>: all channels over one heap. The step relation \<open>ipmb_step\<close> takes any interleaving of
    the tasks of all channels, and the lists of all channels stay intact and apart.
  \<^item> \<open>Power_Status\<close>: the power flags with their step relation.
  \<^item> \<open>App_Handler\<close>: application and chassis commands, and the locales \<open>command_handler\<close>,
    \<open>fallible_handler\<close> and \<open>guarded_handler\<close>: what the dispatcher relies on in a command handler (an answer
    is well formed, keeps the routing fields of the request and has a bounded length). All handler
    theories interpret one of them.
  \<^item> \<open>Ipmi_Core\<close>: the IPMI task, the platform hooks and the KCS loop. A request of the host that
    the KCS driver delivers is answered on KCS with the handler's completion code and data.
  \<^item> \<open>Board_61\<close>: the variant of this in \<open>samples/ipmi_61/src\<close>, with one command and its own KCS loop.
  \<^item> \<open>Storage_Handler\<close>, \<open>Oem_Handler\<close>: the storage, sensor and OEM commands. The calls that reach the fans
    of the platform are specified request by request (\<open>fan_calls\<close>).
  \<^item> \<open>Oem1s_Board\<close>, \<open>Oem1s_Gpio\<close>, \<open>Oem1s_Io\<close>, \<open>Oem1s_Sensor\<close>, \<open>Oem1s_Firmware\<close>, \<open>Oem1s_Handler\<close>: every command of
    \<open>ipmi/oem_1s_handler.c\<close> and their dispatch. No request makes a command read or write out of bounds as
    long as the services keep their contracts and the request passes the checks that the code misses
    (\<open>oem1s_guard\<close>); \<open>MSG_OUT\<close> hands the request inside to the right bridge.
  \<^item> \<open>Gpio_Types\<close>, \<open>Gpio_Fs\<close>, \<open>Gpio_Events\<close>: data and operations of \<open>gpio_fs.c\<close>. \<open>Gpio_Own\<close>, \<open>Gpio_Steps\<close>: who owns
    which pin; the locale \<open>pin_resource\<close> is the contract of a request and its close, interpreted on line
    handles and on line events; \<open>gpio_step\<close> interleaves the calls of the clients and the interrupts.
    \<open>Gpio_Safe\<close>: pins are owned exclusively, calls are defined, requests are decided as the interface
    says, closing undoes opening, and the byte buffer of an event is a queue of records.
  \<^item> \<open>Xhci_Types\<close>, \<open>Xhci_Ring\<close>, \<open>Xhci_Events\<close>, \<open>Xhci_Device\<close>, \<open>Xhci_Init\<close>, \<open>Xhci_Session\<close>: the host driver. A ring
    has two views, what the driver wrote (\<open>trb\<close>) and what the controller reads after the cache is flushed
    (\<open>mem\<close>). The locale \<open>bounded_fifo\<close> is the contract of a queue, interpreted on the producer rings and on
    the event ring. The interrupt handler equals a reference that handles exactly the pending events,
    and over arbitrary ring memory it handles exactly the blocks visible by their cycle bits;
    commands and transfers are followed to their completion (\<open>posts\<close>: the controller posts an event
    while the driver waits), and start-up leaves an idle session when the memory of the event ring
    has no cycle bit set.
  \<^item> \<open>Jtag_Chain\<close>, \<open>Jtag_Numbers\<close>, \<open>Jtag_Test\<close>: the chain test. Every run returns within its arrays, the devices of
    a chain that passes the pattern through are found, and what is shifted and printed is characterised
    as numbers (\<open>le_nat\<close>), for every size of the registers.
  \<^item> \<open>Hid_Bridge\<close>: the bridge protocol, with the static answer buffers as a store, and the serial echo, which
    keeps the order of its bytes and cannot get stuck. \<open>Peci_Temp\<close>: the temperature computed from a reading.

  \<^bold>\<open>Conventions.\<close> A C structure is a record with the fields of the source, an integer of the source
  is a word of its width, and a buffer is a list of the length that was allocated. An access
  outside of a buffer or through an invalid pointer is undefined behaviour: the operation then
  has the result \<open>None\<close>, so that a theorem that an operation returns \<open>Some\<close> includes memory
  safety. The constants and their spelling are those of the source.

  What comes from outside of the repository is a parameter: the answers of the kernel, the
  allocator and the drivers in one call are arguments or fields of an environment record
  (\<open>send_env\<close>, \<open>tx_env\<close>, \<open>rx_env\<close>, \<open>sel_env\<close>), services of the platform are records of functions
  (\<open>storage_plat\<close>, \<open>oem_plat\<close>, \<open>gpio_os\<close>, \<open>xhci_hw\<close>, \<open>jtag_os\<close>, \<open>cdc_os\<close>, \<open>peci_os\<close>) over a state of
  their own, the kernel's message queue is the record \<open>msgq\<close>. What a property relies on about them is
  a named hypothesis (\<open>msgq_laws\<close>, \<open>storage_plat_ok\<close>, \<open>fru_keeps\<close>, \<open>oem_plat_ok\<close>, \<open>jtag_os_laws\<close>, \<open>cdc_laws\<close>) with
  a concrete instance. Build options are flags (\<open>ipmb_build\<close>, fields of the
  platform records). Calls that leave the file and have no answer are recorded in a trace
  (\<open>effect\<close>). A local variable that is not initialised starts with contents that are given.
  Handlers take the message itself; the null test at their start guards against a pointer that
  the dispatcher never passes. Logging and sleeping are left out.

  One call of a task function is one round of its endless loop. Loops that may not end are
  \<open>partial_function\<close>s over \<open>option\<close>, and \<open>None\<close> then also means that the call does not return: the loops
  over the circular list of \<open>ipmb.c\<close> (a list that is not circular), \<open>poll\<close>, \<open>wait_loop\<close>, \<open>isr_loop\<close> and
  \<open>ext_cap_loop\<close> of the host driver (registers that never change), \<open>jtag_loop\<close> (endless mode) and
  \<open>cdc_interrupt_handler\<close> (a UART that never becomes quiet). The theorems prove that they return under
  the invariant or hypothesis they name. All other recursion ends, by its structure or by a measure,
  and no definition uses fuel.

  \<^bold>\<open>Not modelled.\<close> \<open>power\<close> of \<open>libutil.c\<close> (a loop over \<open>double\<close>); \<open>register_target_device\<close> of \<open>ipmb.c\<close>
  (driver registration); the USB, SSIF and PLDM transports, which the IPMI sample only calls; the
  files of \<open>samples/ipmi_61\<close> that are identical to those of \<open>ipmi_openbic\<close> (\<open>ipmb.c\<close> and the storage,
  sensor, OEM and OEM 1S handlers) or not part of its build (\<open>chassis_handler.c\<close>); the
  exercise program of \<open>gpio_fs\<close>; the registration of shell commands, USB classes and descriptors; and
  the other samples: exercises of a driver, a file system, a network service or a third-party
  cryptography library that print what it answers, with no state or decisions of their own.
\<close>

end
